(* ===== verification/Prelude.thy ===== *)
theory Prelude
  imports Main "HOL-Library.AList" "HOL-Library.Multiset"
begin

text \<open>
  What every component of the development shares.

  \<^item> Numbers. The modelled code uses JavaScript numbers only as counts, byte sizes,
    sequence numbers and millisecond time stamps, so they are \<open>int\<close>; the tests
    \<open>Number.isSafeInteger\<close> of the source are written out as \<open>is_safe_integer\<close>.
  \<^item> Strings are \<open>string\<close>; on the ASCII strings of the identifiers the code handles, a
    character is one UTF-16 unit and one UTF-8 byte, so the source's \<open>length\<close> and
    \<open>Buffer.byteLength\<close> are both \<open>length\<close>.
  \<^item> A JavaScript \<open>Map\<close> is an association list in insertion order without repeated
    keys: \<open>AList.update\<close> overwrites in place and appends new keys, as
    \<open>Map.set\<close> does, and \<open>AList.delete\<close> is \<open>Map.delete\<close>.
  \<^item> A thrown error is the left side of a sum, so a reducer is a function
    \<open>'s \<Rightarrow> 'e \<Rightarrow> 'err + 's\<close>; a refused command leaves the caller with its old
    state.
  The two locales at the end are the interfaces the components are proved against: a keyed
  store, and a guarded reducer whose invariant holds along every run.
\<close>

named_theorems result_simps "rules that open successful results of the error sum"
named_theorems store_simps "rules of the insertion-ordered map"

type_synonym millis = int

definition is_safe_integer :: "int \<Rightarrow> bool" where
  "is_safe_integer n \<longleftrightarrow> \<bar>n\<bar> \<le> 2 ^ 53 - 1"

section \<open>Errors as values\<close>

definition result_bind :: "'e + 'a \<Rightarrow> ('a \<Rightarrow> 'e + 'b) \<Rightarrow> 'e + 'b" where
  "result_bind m f = (case m of Inl e \<Rightarrow> Inl e | Inr x \<Rightarrow> f x)"

lemma result_bind_simps [simp]:
  "result_bind (Inl e) f = Inl e"
  "result_bind (Inr x) f = f x"
  by (simp_all add: result_bind_def)

lemma result_bind_Inr_iff [result_simps]:
  "result_bind m f = Inr y \<longleftrightarrow> (\<exists>x. m = Inr x \<and> f x = Inr y)"
  by (cases m) simp_all

lemma result_bind_Inl_iff:
  "result_bind m f = Inl e \<longleftrightarrow> m = Inl e \<or> (\<exists>x. m = Inr x \<and> f x = Inl e)"
  by (cases m) simp_all

lemma if_Inl_else_Inr_iff [result_simps]:
  "(if b then Inl e else m) = Inr y \<longleftrightarrow> \<not> b \<and> m = Inr y"
  by simp

section \<open>String order\<close>

text \<open>JavaScript's \<open><\<close> on strings: lexicographic on character codes.\<close>

fun js_string_less :: "string \<Rightarrow> string \<Rightarrow> bool" where
  "js_string_less _ [] = False"
| "js_string_less [] (_ # _) = True"
| "js_string_less (c # cs) (d # ds) =
     ((of_char c :: nat) < of_char d \<or> (c = d \<and> js_string_less cs ds))"

section \<open>Sorting\<close>

text \<open>\<open>toSorted\<close> with a comparison function, as a stable insertion sort.\<close>

fun js_insert :: "('a \<Rightarrow> 'a \<Rightarrow> int) \<Rightarrow> 'a \<Rightarrow> 'a list \<Rightarrow> 'a list" where
  "js_insert cmp x [] = [x]"
| "js_insert cmp x (y # ys) = (if cmp x y < 0 then x # y # ys else y # js_insert cmp x ys)"

definition js_sort :: "('a \<Rightarrow> 'a \<Rightarrow> int) \<Rightarrow> 'a list \<Rightarrow> 'a list" where
  "js_sort cmp xs = fold (js_insert cmp) xs []"

lemma mset_js_insert [simp]: "mset (js_insert cmp x ys) = add_mset x (mset ys)"
  by (induction ys) simp_all

lemma mset_js_sort [simp]: "mset (js_sort cmp xs) = mset xs"
proof -
  have "mset (fold (js_insert cmp) xs ys) = mset xs + mset ys" for ys
    by (induction xs arbitrary: ys) simp_all
  then show ?thesis by (simp add: js_sort_def)
qed

lemma set_js_sort [simp]: "set (js_sort cmp xs) = set xs"
  by (metis mset_js_sort set_mset_mset)

section \<open>JavaScript maps\<close>

type_synonym ('k, 'v) js_map = "('k \<times> 'v) list"

abbreviation js_get :: "('k, 'v) js_map \<Rightarrow> 'k \<Rightarrow> 'v option" where
  "js_get \<equiv> map_of"

abbreviation js_set :: "'k \<Rightarrow> 'v \<Rightarrow> ('k, 'v) js_map \<Rightarrow> ('k, 'v) js_map" where
  "js_set \<equiv> AList.update"

abbreviation js_delete :: "'k \<Rightarrow> ('k, 'v) js_map \<Rightarrow> ('k, 'v) js_map" where
  "js_delete \<equiv> AList.delete"

definition js_has :: "('k, 'v) js_map \<Rightarrow> 'k \<Rightarrow> bool" where
  "js_has m k \<longleftrightarrow> js_get m k \<noteq> None"

abbreviation js_size :: "('k, 'v) js_map \<Rightarrow> nat" where
  "js_size \<equiv> length"

definition js_keys :: "('k, 'v) js_map \<Rightarrow> 'k list" where
  "js_keys m = map fst m"

definition js_values :: "('k, 'v) js_map \<Rightarrow> 'v list" where
  "js_values m = map snd m"

definition js_map_ok :: "('k, 'v) js_map \<Rightarrow> bool" where
  "js_map_ok m \<longleftrightarrow> distinct (map fst m)"

lemma js_has_iff [store_simps]: "js_has m k \<longleftrightarrow> k \<in> fst ` set m"
  by (auto simp: js_has_def map_of_eq_None_iff)

lemma js_map_ok_Nil [simp]: "js_map_ok []"
  by (simp add: js_map_ok_def)

lemma js_map_ok_set [simp]: "js_map_ok m \<Longrightarrow> js_map_ok (js_set k v m)"
  by (simp add: js_map_ok_def distinct_update)

lemma js_map_ok_delete [simp]: "js_map_ok m \<Longrightarrow> js_map_ok (js_delete k m)"
  by (simp add: js_map_ok_def distinct_delete)

lemma js_map_ok_filter [simp]: "js_map_ok m \<Longrightarrow> js_map_ok (filter P m)"
  by (simp add: js_map_ok_def distinct_map_filter)

lemma js_map_ok_map_values [simp]:
  "js_map_ok (map (\<lambda>(k, v). (k, f k v)) m) = js_map_ok m"
  by (simp add: js_map_ok_def comp_def case_prod_unfold)

lemma js_get_set [store_simps]: "js_get (js_set k v m) k' = (if k' = k then Some v else js_get m k')"
  by (simp add: update_conv')

lemma js_get_delete [store_simps]: "js_get (js_delete k m) k' = (if k' = k then None else js_get m k')"
  by (simp add: delete_conv')

lemma js_get_map_values [store_simps]:
  "js_get (map (\<lambda>(k, v). (k, f k v)) m) k = map_option (f k) (js_get m k)"
  by (induction m) auto

lemma js_get_filter:
  "js_map_ok m \<Longrightarrow> js_get (filter (\<lambda>(k, v). P k v) m) k =
     (case js_get m k of None \<Rightarrow> None | Some v \<Rightarrow> if P k v then Some v else None)"
  by (induction m) (auto simp: js_map_ok_def map_of_eq_None_iff rev_image_eqI split: option.splits)

lemma js_get_in_set: "js_map_ok m \<Longrightarrow> js_get m k = Some v \<longleftrightarrow> (k, v) \<in> set m"
  by (simp add: js_map_ok_def)

lemma js_value_iff: "js_map_ok m \<Longrightarrow> v \<in> set (js_values m) \<longleftrightarrow> (\<exists>k. js_get m k = Some v)"
  by (force simp: js_values_def js_get_in_set)

lemma js_size_set: "js_size (js_set k v m) = (if js_has m k then js_size m else Suc (js_size m))"
  by (induction m) (auto simp: js_has_def)

lemma js_size_delete_le: "js_size (js_delete k m) \<le> js_size m"
  by (induction m) auto

lemma js_delete_absent: "js_get m k = None \<Longrightarrow> js_delete k m = m"
  by (induction m) (auto split: if_splits)

lemma js_size_delete:
  "js_map_ok m \<Longrightarrow> js_has m k \<Longrightarrow> js_size m = Suc (js_size (js_delete k m))"
proof (induction m)
  case Nil
  then show ?case by (simp add: js_has_def)
next
  case (Cons p m)
  show ?case
  proof (cases "fst p = k")
    case True
    with Cons.prems have "js_get m k = None"
      by (auto simp: js_map_ok_def map_of_eq_None_iff)
    with True show ?thesis by (cases p) (simp add: js_delete_absent)
  next
    case False
    with Cons show ?thesis by (cases p) (auto simp: js_has_def js_map_ok_def)
  qed
qed

lemma js_values_set_subset: "set (js_values (js_set k v m)) \<subseteq> insert v (set (js_values m))"
  by (induction m) (auto simp: js_values_def)

lemma js_values_delete_subset: "set (js_values (js_delete k m)) \<subseteq> set (js_values m)"
  by (induction m) (auto simp: js_values_def)

lemma js_get_value: "js_get m k = Some v \<Longrightarrow> v \<in> set (js_values m)"
  by (force simp: js_values_def dest: map_of_SomeD)

lemma js_values_filter_empty:
  "js_map_ok m \<Longrightarrow> (\<And>k v. js_get m k = Some v \<Longrightarrow> \<not> P v) \<Longrightarrow> filter P (js_values m) = []"
  by (auto simp: filter_empty_conv js_value_iff)

lemma js_values_filter_unique:
  assumes "js_map_ok m" and "js_get m k = Some v" and "P v"
    and "\<And>k' v'. js_get m k' = Some v' \<Longrightarrow> P v' \<Longrightarrow> k' = k"
  shows "filter P (js_values m) = [v]"
  using assms
proof (induction m)
  case Nil
  then show ?case by simp
next
  case (Cons e m)
  obtain ke ve where e: "e = (ke, ve)" by (cases e)
  have ok: "js_map_ok m" and fresh: "js_get m ke = None"
    using Cons.prems(1) e by (auto simp: js_map_ok_def map_of_eq_None_iff)
  show ?case
  proof (cases "ke = k")
    case True
    have "filter P (js_values m) = []"
    proof (rule js_values_filter_empty [OF ok])
      fix k' v' assume v': "js_get m k' = Some v'"
      with fresh True have "k' \<noteq> k" by auto
      moreover from this v' True e have "js_get (e # m) k' = Some v'" by simp
      ultimately show "\<not> P v'" using Cons.prems(4) by blast
    qed
    with True Cons.prems(2,3) e show ?thesis by (simp add: js_values_def)
  next
    case False
    have "filter P (js_values m) = [v]"
    proof (intro Cons.IH [OF ok])
      show "js_get m k = Some v" using Cons.prems(2) False e by simp
      show "P v" by (rule Cons.prems(3))
      show "k' = k" if "js_get m k' = Some v'" "P v'" for k' v'
        using Cons.prems(4) [of k' v'] that fresh e by (metis map_of_Cons_code(2) option.distinct(1))
    qed
    moreover have "\<not> P ve" using Cons.prems(4) [of ke ve] False e by auto
    ultimately show ?thesis using e by (simp add: js_values_def)
  qed
qed

lemma int_length_filter_le: "int (length xs) \<le> n \<Longrightarrow> int (length (filter P xs)) \<le> n"
  by (rule order_trans [of _ "int (length xs)"]) simp_all

section \<open>Runs of a reducer\<close>

text \<open>
  A caller holds a state, applies a command, keeps the new state when the reducer returns one
  and its old state when the reducer throws.
\<close>

definition apply_command :: "('s \<Rightarrow> 'c \<Rightarrow> 'e + 's) \<Rightarrow> 's \<Rightarrow> 'c \<Rightarrow> 's" where
  "apply_command f s c = (case f s c of Inl _ \<Rightarrow> s | Inr s' \<Rightarrow> s')"

fun run_commands :: "('s \<Rightarrow> 'c \<Rightarrow> 'e + 's) \<Rightarrow> 's \<Rightarrow> 'c list \<Rightarrow> 's" where
  "run_commands f s [] = s"
| "run_commands f s (c # cs) = run_commands f (apply_command f s c) cs"

inductive reachable :: "('s \<Rightarrow> 'c \<Rightarrow> 'e + 's) \<Rightarrow> ('c \<Rightarrow> bool) \<Rightarrow> 's \<Rightarrow> 's \<Rightarrow> bool"
  for f :: "'s \<Rightarrow> 'c \<Rightarrow> 'e + 's" and allowed :: "'c \<Rightarrow> bool" and s0 :: 's where
  start: "reachable f allowed s0 s0"
| step: "reachable f allowed s0 s \<Longrightarrow> allowed c \<Longrightarrow> f s c = Inr s' \<Longrightarrow> reachable f allowed s0 s'"

lemma run_commands_append:
  "run_commands f s (cs @ ds) = run_commands f (run_commands f s cs) ds"
  by (induction cs arbitrary: s) simp_all

lemma apply_command_reachable:
  "reachable f allowed s0 s \<Longrightarrow> allowed c \<Longrightarrow> reachable f allowed s0 (apply_command f s c)"
  by (auto simp: apply_command_def split: sum.split intro: reachable.step)

lemma run_commands_reachable:
  "reachable f allowed s0 s \<Longrightarrow> list_all allowed cs \<Longrightarrow> reachable f allowed s0 (run_commands f s cs)"
  by (induction cs arbitrary: s) (auto intro: apply_command_reachable)

text \<open>
  The contract between a reducer and whoever drives it: an invariant that every accepted
  command keeps, and a preorder that every accepted command climbs. Both then hold along
  every run.
\<close>

locale guarded_reducer =
  fixes exec :: "'s \<Rightarrow> 'c \<Rightarrow> 'e + 's"
    and allowed :: "'c \<Rightarrow> bool"
    and inv :: "'s \<Rightarrow> bool"
  assumes exec_inv: "inv s \<Longrightarrow> allowed c \<Longrightarrow> exec s c = Inr s' \<Longrightarrow> inv s'"
begin

lemma reachable_inv: "reachable exec allowed s0 s \<Longrightarrow> inv s0 \<Longrightarrow> inv s"
  by (induction rule: reachable.induct) (auto intro: exec_inv)

lemma run_inv: "inv s \<Longrightarrow> list_all allowed cs \<Longrightarrow> inv (run_commands exec s cs)"
  by (rule reachable_inv [OF run_commands_reachable [OF reachable.start]])

end

locale ordered_reducer = guarded_reducer +
  fixes le :: "'s \<Rightarrow> 's \<Rightarrow> bool"
  assumes le_refl: "le s s"
    and le_trans: "le s t \<Longrightarrow> le t u \<Longrightarrow> le s u"
    and exec_le: "inv s \<Longrightarrow> allowed c \<Longrightarrow> exec s c = Inr s' \<Longrightarrow> le s s'"
begin

lemma reachable_le: "reachable exec allowed s0 s \<Longrightarrow> inv s0 \<Longrightarrow> le s0 s"
proof (induction rule: reachable.induct)
  case start
  show ?case by (rule le_refl)
next
  case (step s c s')
  from step.hyps(1) step.prems have "inv s" by (rule reachable_inv)
  from this step.hyps(2,3) have "le s s'" by (rule exec_le)
  with step.IH step.prems show ?case by (blast intro: le_trans)
qed

lemma run_le: "inv s \<Longrightarrow> list_all allowed cs \<Longrightarrow> le s (run_commands exec s cs)"
  by (rule reachable_le [OF run_commands_reachable [OF reachable.start]])

end

section \<open>The keyed store interface\<close>

locale keyed_store =
  fixes get :: "'m \<Rightarrow> 'k \<Rightarrow> 'v option"
    and put :: "'k \<Rightarrow> 'v \<Rightarrow> 'm \<Rightarrow> 'm"
    and del :: "'k \<Rightarrow> 'm \<Rightarrow> 'm"
    and size_of :: "'m \<Rightarrow> nat"
    and ok :: "'m \<Rightarrow> bool"
  assumes get_put: "get (put k v m) k' = (if k' = k then Some v else get m k')"
    and get_del: "get (del k m) k' = (if k' = k then None else get m k')"
    and ok_put: "ok m \<Longrightarrow> ok (put k v m)"
    and ok_del: "ok m \<Longrightarrow> ok (del k m)"
    and size_put: "size_of (put k v m) = (if get m k = None then Suc (size_of m) else size_of m)"
    and size_del: "ok m \<Longrightarrow> get m k \<noteq> None \<Longrightarrow> size_of m = Suc (size_of (del k m))"
begin

text \<open>A put that is guarded by a capacity test never exceeds the capacity.\<close>

lemma guarded_put_bounded:
  "size_of m \<le> cap \<Longrightarrow> (get m k = None \<Longrightarrow> size_of m < cap) \<Longrightarrow> size_of (put k v m) \<le> cap"
  by (auto simp: size_put)

text \<open>A put that evicts one entry when the store is full never exceeds the capacity.\<close>

lemma evicting_put_bounded:
  assumes "ok m" and "size_of m \<le> cap" and "get m victim \<noteq> None"
  shows "size_of (put k v (del victim m)) \<le> cap"
proof -
  from assms have "size_of (del victim m) < cap" using size_del [of m victim] by simp
  then show ?thesis by (intro guarded_put_bounded) simp_all
qed

end

interpretation js: keyed_store map_of AList.update AList.delete length js_map_ok
proof unfold_locales
  show "js_size m = Suc (js_size (js_delete k m))" if "js_map_ok m" "js_get m k \<noteq> None"
    for m :: "('a, 'b) js_map" and k
    using that by (intro js_size_delete) (simp_all add: js_has_def)
qed (auto simp: js_get_set js_get_delete js_size_set js_has_def)

end
