(* ===== verification/Principal.thy ===== *)
theory Principal
  imports Prelude
begin

text \<open>
  Gateway identities (controller/vm-ownership/vm-ownership-contracts.ts) and the stable
  principal key (gateway-control-contracts/src/gateway-control-principal.ts).

  The key of a principal is the hexadecimal SHA-256 digest of a canonical rendering of the
  principal. SHA-256 comes from \<open>node:crypto\<close>, so it is the parameter \<open>sha256\<close> of
  every definition that derives a key; what the rendering itself guarantees (that no two
  principals share it) is proved here.
\<close>

section \<open>Gateway identities\<close>

record gateway_epoch_identity =
  gw_bootId :: string
  gw_controllerEpoch :: string
  gw_gatewayEpochId :: string
  gw_generationId :: string
  gw_zoneId :: string
  gw_gatewayVmId :: string

definition gatewaySeedsEqual :: "gateway_epoch_identity \<Rightarrow> gateway_epoch_identity \<Rightarrow> bool" where
  "gatewaySeedsEqual l r \<longleftrightarrow>
     gw_bootId l = gw_bootId r \<and>
     gw_controllerEpoch l = gw_controllerEpoch r \<and>
     gw_gatewayEpochId l = gw_gatewayEpochId r \<and>
     gw_generationId l = gw_generationId r \<and>
     gw_zoneId l = gw_zoneId r"

definition gatewayIdentitiesEqual :: "gateway_epoch_identity \<Rightarrow> gateway_epoch_identity \<Rightarrow> bool" where
  "gatewayIdentitiesEqual l r \<longleftrightarrow> gatewaySeedsEqual l r \<and> gw_gatewayVmId l = gw_gatewayVmId r"

lemma gatewayIdentitiesEqual_iff [simp]: "gatewayIdentitiesEqual l r \<longleftrightarrow> l = r"
  by (cases l; cases r) (auto simp: gatewayIdentitiesEqual_def gatewaySeedsEqual_def)

section \<open>Principals and their canonical rendering\<close>

record framework_identity =
  fi_kind :: string
  fi_profileName :: string

record principal =
  pr_agentId :: string
  pr_frameworkIdentity :: framework_identity
  pr_profileAssignmentRevision :: string
  pr_toolPortalProfileId :: string

text \<open>The decimal rendering of a length, as JavaScript's template literal prints it.\<close>

definition digit_char :: "nat \<Rightarrow> char" where
  "digit_char d = char_of (48 + d)"

fun decimal :: "nat \<Rightarrow> string" where
  "decimal n = (if n < 10 then [digit_char n] else decimal (n div 10) @ [digit_char (n mod 10)])"

declare decimal.simps [simp del]

definition lengthPrefixedUtf8 :: "string \<Rightarrow> string" where
  "lengthPrefixedUtf8 v = decimal (length v) @ '':'' @ v"

definition canonicalStablePrincipalMaterial :: "principal \<Rightarrow> string" where
  "canonicalStablePrincipalMaterial p =
     concat (map lengthPrefixedUtf8
       [pr_agentId p,
        fi_kind (pr_frameworkIdentity p),
        fi_profileName (pr_frameworkIdentity p),
        pr_toolPortalProfileId p,
        pr_profileAssignmentRevision p])"

definition deriveGatewayControlStablePrincipal :: "(string \<Rightarrow> string) \<Rightarrow> principal \<Rightarrow> string" where
  "deriveGatewayControlStablePrincipal sha256 p =
     sha256 (''agent-vm-gateway-stable-principal-v4'' @ [CHR 0x00]
             @ canonicalStablePrincipalMaterial p)"

section \<open>The rendering determines the principal\<close>

lemma digit_char_inj: "d < 10 \<Longrightarrow> e < 10 \<Longrightarrow> digit_char d = digit_char e \<longleftrightarrow> d = e"
  by (auto simp: digit_char_def dest!: arg_cong [where f = "of_char :: char \<Rightarrow> nat"])

lemma digit_char_not_colon: "d < 10 \<Longrightarrow> digit_char d \<noteq> CHR '':''"
  by (auto simp: digit_char_def dest!: arg_cong [where f = "of_char :: char \<Rightarrow> nat"])

lemma decimal_no_colon: "CHR '':'' \<notin> set (decimal n)"
proof (induction n rule: decimal.induct)
  case (1 n)
  then show ?case
    by (subst decimal.simps) (auto simp: digit_char_not_colon [THEN not_sym])
qed

lemma decimal_Nil [simp]: "decimal n \<noteq> []" "[] \<noteq> decimal n"
  by (subst decimal.simps, simp)+

lemma decimal_inj: "decimal m = decimal n \<Longrightarrow> m = n"
proof (induction m arbitrary: n rule: decimal.induct)
  case (1 m)
  have unfolded: "(if m < 10 then [digit_char m] else decimal (m div 10) @ [digit_char (m mod 10)])
    = (if n < 10 then [digit_char n] else decimal (n div 10) @ [digit_char (n mod 10)])"
    using "1.prems" by (simp add: decimal.simps [of m] decimal.simps [of n])
  show ?case
  proof (cases "m < 10")
    case True
    with unfolded show ?thesis by (auto split: if_splits simp: digit_char_inj)
  next
    case False
    with unfolded have big: "\<not> n < 10" by (auto split: if_splits)
    with False unfolded have "decimal (m div 10) = decimal (n div 10)"
      and "digit_char (m mod 10) = digit_char (n mod 10)" by simp_all
    then have "m div 10 = n div 10" and "m mod 10 = n mod 10"
      using "1.IH" [OF False] by (simp_all add: digit_char_inj)
    then show ?thesis by (metis div_mult_mod_eq)
  qed
qed

lemma split_at_first_colon:
  assumes "c \<notin> set xs" and "c \<notin> set ys" and "xs @ c # us = ys @ c # vs"
  shows "xs = ys \<and> us = vs"
  using assms by (induction xs arbitrary: ys) (auto simp: Cons_eq_append_conv)

lemma lengthPrefixedUtf8_append_inj:
  assumes "lengthPrefixedUtf8 v @ us = lengthPrefixedUtf8 w @ vs"
  shows "v = w \<and> us = vs"
proof -
  from assms have "decimal (length v) = decimal (length w)" and rest: "v @ us = w @ vs"
    using split_at_first_colon [OF decimal_no_colon decimal_no_colon, of "length v" "v @ us" "length w" "w @ vs"]
    by (auto simp: lengthPrefixedUtf8_def)
  then have "length v = length w" by (blast dest: decimal_inj)
  with rest show ?thesis by simp
qed

lemma lengthPrefixedUtf8_inj: "lengthPrefixedUtf8 v = lengthPrefixedUtf8 w \<Longrightarrow> v = w"
  using lengthPrefixedUtf8_append_inj [of v "[]" w "[]"] by simp

lemma canonicalStablePrincipalMaterial_eq_iff:
  "canonicalStablePrincipalMaterial p = canonicalStablePrincipalMaterial q \<longleftrightarrow> p = q"
proof
  assume "canonicalStablePrincipalMaterial p = canonicalStablePrincipalMaterial q"
  then show "p = q"
    by (cases p; cases q; cases "pr_frameworkIdentity p"; cases "pr_frameworkIdentity q")
       (auto simp: canonicalStablePrincipalMaterial_def dest!: lengthPrefixedUtf8_append_inj lengthPrefixedUtf8_inj)
qed simp

lemma deriveGatewayControlStablePrincipal_eq_iff:
  "inj sha256 \<Longrightarrow> deriveGatewayControlStablePrincipal sha256 p =
     deriveGatewayControlStablePrincipal sha256 q \<longleftrightarrow> p = q"
  by (simp add: deriveGatewayControlStablePrincipal_def inj_eq canonicalStablePrincipalMaterial_eq_iff)

end
