(* ===== verification/LeaseContracts.thy ===== *)
theory LeaseContracts
  imports Principal
begin

text \<open>
  The data of the Tool VM lease authority, from
  controller/leases/tool-vm-lease-authority-contracts.ts and (reports and correlations)
  gateway-lifecycle/src/tool-vm-active-use.ts.

  A tagged union whose variants share a base is a record of the base fields with a
  datatype for the variant, so \<open>{...leaf, kind: 'suspect'}\<close> is a record update of the
  kind. The code's \<open>structuredClone\<close> is the identity here.
\<close>

section \<open>Active uses\<close>

record active_use_correlation =
  co_messageId :: "string option"
  co_requestId :: "string option"
  co_runId :: "string option"
  co_sessionKeyDigest :: "string option"
  co_toolCallId :: "string option"
  co_traceId :: "string option"

datatype ssh_operation_phase = SshCompleted | SshFailed | SshProbeSucceeded | SshRunning | SshStarting

datatype ssh_failure_kind =
  ActiveUseRefreshableFailure | SshCommandFailed | SshCommandTimedOut | SshProbeFailed

record ssh_failure_report =
  fr_kind :: ssh_failure_kind
  fr_message :: string

record ssh_operation_report =
  sr_failure :: "ssh_failure_report option"
  sr_probeSucceeded :: "bool option"

record operation_report =
  or_observedAtMs :: millis
  or_phase :: ssh_operation_phase
  or_ssh :: "ssh_operation_report option"

datatype report_status = ReportProgress | ReportRunning

record latest_report =
  rp_reportedAtMs :: millis
  rp_sequence :: int
  rp_status :: report_status
  rp_summary :: string

datatype ambiguity_reason = LeafRollover | ObservationGapExpired | ProcessEpochLost

datatype terminal_outcome = Completed | FailedObserved

datatype active_use_kind =
  Running (running_lastHeartbeatAtMs: millis) (running_attachment: int)
| ObservationGap (gap_lastHeartbeatAtMs: millis) (gap_observedAtMs: millis)
    (gap_resumeDeadlineMs: millis) (gap_attachment: int)
| Ambiguous (ambiguous_atMs: millis) (ambiguous_reason: ambiguity_reason)
| Terminal (terminal_endedAtMs: millis) (terminal_outcome: terminal_outcome)

record active_use =
  au_correlation :: "active_use_correlation option"
  au_latestOperationReport :: "operation_report option"
  au_latestReport :: "latest_report option"
  au_operationPayloadDigest :: string
  au_processEpoch :: string
  au_semanticOperationId :: string
  au_startedAtMs :: millis
  au_useId :: string
  au_kind :: active_use_kind

section \<open>Leaves\<close>

record lease_compatibility =
  lc_policyFingerprint :: string
  lc_profileId :: string
  lc_purpose :: string
  lc_profileAssignmentRevision :: string

record leaf_authority =
  la_gateway :: gateway_epoch_identity
  la_leaseId :: string
  la_leafGeneration :: string
  la_principal :: principal

record runtime_binding =
  rb_runtimeRecordId :: string
  rb_tcpSlot :: int
  rb_vmId :: string

record ssh_binding =
  sb_bindingId :: string
  sb_host :: string
  sb_identityFile :: string
  sb_port :: int
  sb_serverIdentity :: string
  sb_user :: string

datatype suspect_reason = SuspectRuntime | SuspectSsh | SuspectCompatibility

datatype quarantine_reason = ActiveUseAmbiguous | ContainmentUncertain | CredentialUncertain

datatype leaf_kind =
  Provisioning
| Current runtime_binding ssh_binding
| Suspect runtime_binding ssh_binding suspect_reason
| Quarantined "runtime_binding option" "ssh_binding option" quarantine_reason
| Destroying "runtime_binding option" "ssh_binding option" (destruction_reason: string)
| Retiring "runtime_binding option" "ssh_binding option" (retiring_reason: string)
    (cleanup_incomplete: "string option")
| OwnerUnsafe "runtime_binding option" "ssh_binding option" (owner_unsafe_reason: string)

record leaf =
  lf_activeUses :: "(string, active_use) js_map"
  lf_compatibility :: lease_compatibility
  lf_leaseId :: string
  lf_leafGeneration :: string
  lf_idleExpiresAtMs :: millis
  lf_principal :: principal
  lf_kind :: leaf_kind

text \<open>The optional \<open>runtimeBinding\<close> and \<open>sshBinding\<close> properties of a variant.\<close>

fun kind_runtimeBinding :: "leaf_kind \<Rightarrow> runtime_binding option" where
  "kind_runtimeBinding Provisioning = None"
| "kind_runtimeBinding (Current rb sb) = Some rb"
| "kind_runtimeBinding (Suspect rb sb r) = Some rb"
| "kind_runtimeBinding (Quarantined rb sb r) = rb"
| "kind_runtimeBinding (Destroying rb sb r) = rb"
| "kind_runtimeBinding (Retiring rb sb r c) = rb"
| "kind_runtimeBinding (OwnerUnsafe rb sb r) = rb"

fun kind_sshBinding :: "leaf_kind \<Rightarrow> ssh_binding option" where
  "kind_sshBinding Provisioning = None"
| "kind_sshBinding (Current rb sb) = Some sb"
| "kind_sshBinding (Suspect rb sb r) = Some sb"
| "kind_sshBinding (Quarantined rb sb r) = sb"
| "kind_sshBinding (Destroying rb sb r) = sb"
| "kind_sshBinding (Retiring rb sb r c) = sb"
| "kind_sshBinding (OwnerUnsafe rb sb r) = sb"

fun is_current :: "leaf_kind \<Rightarrow> bool" where
  "is_current (Current _ _) = True"
| "is_current _ = False"

fun is_suspect :: "leaf_kind \<Rightarrow> bool" where
  "is_suspect (Suspect _ _ _) = True"
| "is_suspect _ = False"

fun is_quarantined :: "leaf_kind \<Rightarrow> bool" where
  "is_quarantined (Quarantined _ _ _) = True"
| "is_quarantined _ = False"

fun is_destroying :: "leaf_kind \<Rightarrow> bool" where
  "is_destroying (Destroying _ _ _) = True"
| "is_destroying _ = False"

fun is_retiring :: "leaf_kind \<Rightarrow> bool" where
  "is_retiring (Retiring _ _ _ _) = True"
| "is_retiring _ = False"

fun is_owner_unsafe :: "leaf_kind \<Rightarrow> bool" where
  "is_owner_unsafe (OwnerUnsafe _ _ _) = True"
| "is_owner_unsafe _ = False"

section \<open>Tombstones, policy, state\<close>

record leaf_tombstone =
  lt_destroyedAtMs :: millis
  lt_expiresAtMs :: millis
  lt_gateway :: gateway_epoch_identity
  lt_leaseId :: string
  lt_leafGeneration :: string
  lt_principal :: principal
  lt_reason :: string
  lt_sshBindingId :: "string option"
  lt_vmId :: "string option"

datatype tombstone_outcome = Reported terminal_outcome | AmbiguousRollover (rollover_atMs: millis)

record use_tombstone =
  ut_correlation :: "active_use_correlation option"
  ut_endedAtMs :: millis
  ut_expiresAtMs :: millis
  ut_gateway :: gateway_epoch_identity
  ut_leafGeneration :: string
  ut_latestReport :: "latest_report option"
  ut_latestOperationReport :: "operation_report option"
  ut_operationPayloadDigest :: string
  ut_principal :: principal
  ut_processEpoch :: string
  ut_semanticOperationId :: string
  ut_startedAtMs :: millis
  ut_useId :: string
  ut_outcome :: tombstone_outcome

record retention_policy =
  rt_leafTombstoneTtlMs :: millis
  rt_maxLeafTombstones :: int
  rt_maxTerminalUseTombstones :: int
  rt_observationGapGraceMs :: millis
  rt_terminalUseTombstoneTtlMs :: millis

datatype parent_state =
  Unregistered
| Registered (parent_gateway: gateway_epoch_identity)
| Sealed (parent_gateway: gateway_epoch_identity)
| Retired (parent_gateway: gateway_epoch_identity)

record lease_state =
  ls_accessFencing :: "(string, leaf) js_map"
  ls_currentPrincipalKey :: "(string, string) js_map"
  ls_leavesByPrincipal :: "(string, leaf) js_map"
  ls_parent :: parent_state
  ls_retiring :: "(string, leaf) js_map"
  ls_retentionPolicy :: retention_policy
  ls_useTombstones :: "(string, use_tombstone) js_map"
  ls_tombstones :: "(string, leaf_tombstone) js_map"

section \<open>Errors and commands\<close>

datatype transition_error_code =
  ActiveUseConflict | ActiveUseHeartbeatRegressed | ActiveUseNotFound | ActiveUseNotResumable
| ActiveUseReportRegressed | ActiveUseSemanticCollision | AttachmentGenerationRegressed
| BindingNotAuthorized | CompatibilityConflict | LeafAlreadyExists | LeafDestroyed
| LeafGenerationMismatch | LeafGenerationReused | LeafNotCurrent | LeafNotDestroying | LeafNotFound
| LeafNotProvisioning | IdleExpiryRegressed | LeaseExpired | LeaseIdentityMismatch
| ParentAlreadyRegistered | ParentHasLiveLeaves | ParentIdentityMismatch | ParentNotAdmitting
| ParentNotSealed | ParentUnregistered | PredecessorAccessNotFenced | PrincipalMismatch
| ProcessEpochMismatch | ObservationGapExpiredError | ObservationGapNotExpired
| TombstoneCapacityExhausted

text \<open>
  \<open>TransitionError\<close> is the class \<open>ToolVmLeaseAuthorityTransitionError\<close> with its
  code (its message, for humans, is left out); \<open>PlainError\<close> a plain \<open>Error\<close>.
\<close>

datatype lease_error = TransitionError transition_error_code | PlainError string

record start_use_input =
  su_correlation :: "active_use_correlation option"
  su_lastHeartbeatAtMs :: millis
  su_latestOperationReport :: "operation_report option"
  su_operationPayloadDigest :: string
  su_processEpoch :: string
  su_semanticOperationId :: string
  su_sessionAttachmentGeneration :: int
  su_startedAtMs :: millis
  su_useId :: string

record heartbeat_input =
  hb_heartbeatAtMs :: millis
  hb_operationReport :: "operation_report option"
  hb_processEpoch :: string
  hb_report :: "latest_report option"
  hb_sessionAttachmentGeneration :: int
  hb_useId :: string

record resume_input =
  ru_lastHeartbeatAtMs :: millis
  ru_nowMs :: millis
  ru_processEpoch :: string
  ru_sessionAttachmentGeneration :: int
  ru_useId :: string

record end_use_input =
  eu_endedAtMs :: millis
  eu_operationReport :: "operation_report option"
  eu_outcome :: terminal_outcome
  eu_processEpoch :: string
  eu_sessionAttachmentGeneration :: int
  eu_useId :: string

datatype lease_command =
  RegisterParent gateway_epoch_identity
| SealParent gateway_epoch_identity
| RetireParent gateway_epoch_identity
| BeginProvisioning leaf_authority lease_compatibility millis
| CommitCurrent leaf_authority runtime_binding ssh_binding
| RenewIdleExpiry leaf_authority (next_idle: millis) (renew_now: millis)
| MarkSuspect leaf_authority suspect_reason
| RestoreCurrent leaf_authority
| Quarantine leaf_authority quarantine_reason
| StartActiveUse leaf_authority start_use_input
| HeartbeatActiveUse leaf_authority heartbeat_input
| SessionDisconnected gateway_epoch_identity (observed_at: millis) (disconnected_epoch: string)
    (disconnected_attachment: int)
| ResumeActiveUse leaf_authority resume_input
| EndActiveUse leaf_authority end_use_input
| ExpireObservationGap leaf_authority (expire_ambiguous_at: millis) (expected_attachment: int)
    (expire_now: millis) (expire_use: string)
| ProcessEpochLostCommand gateway_epoch_identity (lost_at: millis) (lost_epoch: string)
| BeginDestruction leaf_authority (rollover_at: millis) (begin_reason: string)
| AccessFenced leaf_authority
| DestructionIncomplete leaf_authority (incomplete_reason: string)
| RetryDestruction leaf_authority (retry_reason: string)
| DestructionCompleted leaf_authority (destroyed_at: millis) (completed_reason: string)
    (destroyed_vm: "string option")
| PruneTombstones (prune_now: millis)

record authorized_binding =
  ab_leaseId :: string
  ab_leafGeneration :: string
  ab_idleExpiresAtMs :: millis
  ab_runtimeBinding :: runtime_binding
  ab_sshBinding :: ssh_binding

end
