(* ===== verification/LeaseHelpers.thy ===== *)
theory LeaseHelpers
  imports LeaseContracts
begin

text \<open>
  controller/leases/tool-vm-lease-authority-state-helpers.ts: the guards every command starts
  with (parent and leaf lookup) and the one function that puts a leaf back into the state.
  The parameter \<open>sha256\<close> is the hash behind \<open>stablePrincipalKey\<close>.
\<close>

definition stablePrincipalKey :: "(string \<Rightarrow> string) \<Rightarrow> principal \<Rightarrow> string" where
  "stablePrincipalKey sha256 p = deriveGatewayControlStablePrincipal sha256 p"

definition terminalUseTombstoneKey :: "leaf_authority \<Rightarrow> string \<Rightarrow> string" where
  "terminalUseTombstoneKey a useId =
     gw_gatewayEpochId (la_gateway a) @ [CHR 0x00] @ pr_agentId (la_principal a) @ [CHR 0x00] @ useId"

section \<open>Validation\<close>

definition policy_entries :: "retention_policy \<Rightarrow> (string \<times> int) list" where
  "policy_entries p =
     [(''leafTombstoneTtlMs'', rt_leafTombstoneTtlMs p),
      (''maxLeafTombstones'', rt_maxLeafTombstones p),
      (''maxTerminalUseTombstones'', rt_maxTerminalUseTombstones p),
      (''observationGapGraceMs'', rt_observationGapGraceMs p),
      (''terminalUseTombstoneTtlMs'', rt_terminalUseTombstoneTtlMs p)]"

fun validate_entries :: "(string \<times> int) list \<Rightarrow> lease_error + unit" where
  "validate_entries [] = Inr ()"
| "validate_entries ((name, v) # es) =
     (if \<not> is_safe_integer v \<or> v \<le> 0
      then Inl (PlainError (''Tool VM lease authority retention policy '' @ name @
                            '' must be a positive integer.''))
      else validate_entries es)"

definition validateRetentionPolicy :: "retention_policy \<Rightarrow> lease_error + unit" where
  "validateRetentionPolicy p = validate_entries (policy_entries p)"

definition maximumActiveUseReportSummaryLength :: nat where
  "maximumActiveUseReportSummaryLength = 1024"

definition validateLatestReport :: "latest_report \<Rightarrow> lease_error + unit" where
  "validateLatestReport r =
     (if \<not> is_safe_integer (rp_sequence r) \<or> rp_sequence r < 0 \<or>
         length (rp_summary r) > maximumActiveUseReportSummaryLength
      then Inl (PlainError ''Tool VM active-use report is outside its bounded contract.'')
      else Inr ())"

section \<open>Comparisons\<close>

definition stableToolVmLeasePrincipalsEqual :: "(string \<Rightarrow> string) \<Rightarrow> principal \<Rightarrow> principal \<Rightarrow> bool" where
  "stableToolVmLeasePrincipalsEqual sha256 l r \<longleftrightarrow> stablePrincipalKey sha256 l = stablePrincipalKey sha256 r"

definition compatibilitiesEqual :: "lease_compatibility \<Rightarrow> lease_compatibility \<Rightarrow> bool" where
  "compatibilitiesEqual l r \<longleftrightarrow>
     lc_policyFingerprint l = lc_policyFingerprint r \<and>
     lc_profileId l = lc_profileId r \<and>
     lc_purpose l = lc_purpose r \<and>
     lc_profileAssignmentRevision l = lc_profileAssignmentRevision r"

section \<open>Guards\<close>

definition requireExactParent :: "lease_state \<Rightarrow> gateway_epoch_identity \<Rightarrow> lease_error + parent_state" where
  "requireExactParent s gw =
     (if ls_parent s = Unregistered then Inl (TransitionError ParentUnregistered)
      else if \<not> gatewayIdentitiesEqual (parent_gateway (ls_parent s)) gw
      then Inl (TransitionError ParentIdentityMismatch)
      else Inr (ls_parent s))"

definition requireAdmittingParent :: "lease_state \<Rightarrow> gateway_epoch_identity \<Rightarrow> lease_error + parent_state" where
  "requireAdmittingParent s gw =
     result_bind (requireExactParent s gw) (\<lambda>parent.
       case parent of
         Registered _ \<Rightarrow> Inr parent
       | _ \<Rightarrow> Inl (TransitionError ParentNotAdmitting))"

definition tombstoneForAuthority ::
  "(string \<Rightarrow> string) \<Rightarrow> lease_state \<Rightarrow> leaf_authority \<Rightarrow> lease_error + leaf_tombstone option" where
  "tombstoneForAuthority sha256 s a =
     (case js_get (ls_tombstones s) (la_leafGeneration a) of
        None \<Rightarrow> Inr None
      | Some t \<Rightarrow>
          if \<not> stableToolVmLeasePrincipalsEqual sha256 (lt_principal t) (la_principal a)
          then Inl (TransitionError PrincipalMismatch)
          else if lt_leaseId t \<noteq> la_leaseId a then Inl (TransitionError LeaseIdentityMismatch)
          else Inr (Some t))"

text \<open>
  The check the code repeats for a leaf found by its generation: the same stable principal,
  then the same lease identity.
\<close>

definition leaf_for_authority :: "(string \<Rightarrow> string) \<Rightarrow> leaf \<Rightarrow> leaf_authority \<Rightarrow> lease_error + leaf" where
  "leaf_for_authority sha256 l a =
     (if \<not> stableToolVmLeasePrincipalsEqual sha256 (lf_principal l) (la_principal a)
      then Inl (TransitionError PrincipalMismatch)
      else if lf_leaseId l \<noteq> la_leaseId a then Inl (TransitionError LeaseIdentityMismatch)
      else Inr l)"

definition requireLiveLeaf :: "(string \<Rightarrow> string) \<Rightarrow> lease_state \<Rightarrow> leaf_authority \<Rightarrow> lease_error + leaf" where
  "requireLiveLeaf sha256 s a =
     result_bind (requireExactParent s (la_gateway a)) (\<lambda>_.
     result_bind (tombstoneForAuthority sha256 s a) (\<lambda>tombstone.
     if tombstone \<noteq> None then Inl (TransitionError LeafDestroyed)
     else case js_get (ls_accessFencing s) (la_leafGeneration a) of
       Some l \<Rightarrow> leaf_for_authority sha256 l a
     | None \<Rightarrow>
     (case js_get (ls_retiring s) (la_leafGeneration a) of
       Some l \<Rightarrow> leaf_for_authority sha256 l a
     | None \<Rightarrow>
     (case js_get (ls_leavesByPrincipal s) (stablePrincipalKey sha256 (la_principal a)) of
       None \<Rightarrow>
         if \<exists>l \<in> set (js_values (ls_leavesByPrincipal s) @ js_values (ls_accessFencing s)
                       @ js_values (ls_retiring s)).
              lf_leafGeneration l = la_leafGeneration a
         then Inl (TransitionError PrincipalMismatch)
         else Inl (TransitionError LeafNotFound)
     | Some l \<Rightarrow>
         if lf_leafGeneration l \<noteq> la_leafGeneration a
         then Inl (TransitionError LeafGenerationMismatch)
         else if lf_leaseId l \<noteq> la_leaseId a then Inl (TransitionError LeaseIdentityMismatch)
         else Inr l))))"

section \<open>Putting a leaf back\<close>

text \<open>
  Removing a leaf's generation from the current-admission maps: \<open>removesCurrentLeaf\<close> and
  the two conditional deletions that \<open>replaceLeaf\<close>, \<open>access-fenced\<close> and
  \<open>destruction-completed\<close> share.
\<close>

definition removesCurrentLeaf :: "(string \<Rightarrow> string) \<Rightarrow> lease_state \<Rightarrow> leaf \<Rightarrow> bool" where
  "removesCurrentLeaf sha256 s l \<longleftrightarrow>
     map_option lf_leafGeneration
       (js_get (ls_leavesByPrincipal s) (stablePrincipalKey sha256 (lf_principal l)))
     = Some (lf_leafGeneration l)"

definition withdraw_leaf :: "(string \<Rightarrow> string) \<Rightarrow> leaf \<Rightarrow> lease_state \<Rightarrow> lease_state" where
  "withdraw_leaf sha256 l s =
     (let key = stablePrincipalKey sha256 (lf_principal l);
          agent = pr_agentId (lf_principal l);
          removes = removesCurrentLeaf sha256 s l
      in s\<lparr>ls_leavesByPrincipal :=
             (if removes then js_delete key (ls_leavesByPrincipal s) else ls_leavesByPrincipal s),
           ls_currentPrincipalKey :=
             (if removes \<and> js_get (ls_currentPrincipalKey s) agent = Some key
              then js_delete agent (ls_currentPrincipalKey s) else ls_currentPrincipalKey s)\<rparr>)"

definition replaceLeaf :: "(string \<Rightarrow> string) \<Rightarrow> lease_state \<Rightarrow> leaf \<Rightarrow> lease_error + lease_state" where
  "replaceLeaf sha256 s l =
     (if is_retiring (lf_kind l) \<or> js_has (ls_retiring s) (lf_leafGeneration l)
      then
        (if \<not> is_retiring (lf_kind l) then Inl (TransitionError LeafNotCurrent)
         else Inr (s\<lparr>ls_retiring := js_set (lf_leafGeneration l) l (ls_retiring s)\<rparr>))
      else if is_destroying (lf_kind l) \<or> is_owner_unsafe (lf_kind l) \<or>
              js_has (ls_accessFencing s) (lf_leafGeneration l)
      then
        (if \<not> is_destroying (lf_kind l) \<and> \<not> is_owner_unsafe (lf_kind l)
         then Inl (TransitionError LeafNotCurrent)
         else Inr (withdraw_leaf sha256 l
                (s\<lparr>ls_accessFencing := js_set (lf_leafGeneration l) l (ls_accessFencing s)\<rparr>)))
      else
        (let key = stablePrincipalKey sha256 (lf_principal l)
         in Inr (s\<lparr>ls_leavesByPrincipal := js_set key l (ls_leavesByPrincipal s),
                   ls_currentPrincipalKey :=
                     js_set (pr_agentId (lf_principal l)) key (ls_currentPrincipalKey s)\<rparr>)))"

fun is_terminal_use :: "active_use_kind \<Rightarrow> bool" where
  "is_terminal_use (Terminal _ _) = True"
| "is_terminal_use _ = False"

definition nonTerminalActiveUseExists :: "(string, active_use) js_map \<Rightarrow> bool" where
  "nonTerminalActiveUseExists uses \<longleftrightarrow> (\<exists>u \<in> set (js_values uses). \<not> is_terminal_use (au_kind u))"

definition quarantineLeafForAmbiguousUse :: "leaf \<Rightarrow> (string, active_use) js_map \<Rightarrow> leaf" where
  "quarantineLeafForAmbiguousUse l uses =
     l\<lparr>lf_activeUses := uses,
       lf_kind := Quarantined (kind_runtimeBinding (lf_kind l)) (kind_sshBinding (lf_kind l))
                    ActiveUseAmbiguous\<rparr>"

section \<open>What the guards establish\<close>

named_theorems lease_guard_simps "successful guards of the lease authority"

lemma requireExactParent_Inr [lease_guard_simps]:
  "requireExactParent s gw = Inr p \<longleftrightarrow>
     ls_parent s = p \<and> p \<noteq> Unregistered \<and> parent_gateway p = gw"
  by (auto simp: requireExactParent_def)

lemma requireAdmittingParent_Inr [lease_guard_simps]:
  "requireAdmittingParent s gw = Inr p \<longleftrightarrow> ls_parent s = Registered gw \<and> p = Registered gw"
  by (auto simp: requireAdmittingParent_def result_simps lease_guard_simps
      split: parent_state.splits)

lemma tombstoneForAuthority_None [lease_guard_simps]:
  "tombstoneForAuthority sha256 s a = Inr None \<longleftrightarrow>
     js_get (ls_tombstones s) (la_leafGeneration a) = None"
  by (auto simp: tombstoneForAuthority_def split: option.splits if_splits)

lemma leaf_for_authority_Inr [lease_guard_simps]:
  "leaf_for_authority sha256 l a = Inr l' \<longleftrightarrow>
     l' = l \<and> stablePrincipalKey sha256 (lf_principal l) = stablePrincipalKey sha256 (la_principal a)
     \<and> lf_leaseId l = la_leaseId a"
  by (auto simp: leaf_for_authority_def stableToolVmLeasePrincipalsEqual_def)

text \<open>
  Where a live leaf was found: under access fencing, retiring, or as the current-admission leaf
  of its principal; never under a tombstone.
\<close>

lemma requireLiveLeaf_cases:
  assumes "requireLiveLeaf sha256 s a = Inr l"
  obtains (fencing) "js_get (ls_accessFencing s) (la_leafGeneration a) = Some l"
    | (retiring) "js_get (ls_accessFencing s) (la_leafGeneration a) = None"
        "js_get (ls_retiring s) (la_leafGeneration a) = Some l"
    | (current) "js_get (ls_accessFencing s) (la_leafGeneration a) = None"
        "js_get (ls_retiring s) (la_leafGeneration a) = None"
        "js_get (ls_leavesByPrincipal s) (stablePrincipalKey sha256 (la_principal a)) = Some l"
        "lf_leafGeneration l = la_leafGeneration a"
  using assms
  by (auto simp: requireLiveLeaf_def result_simps lease_guard_simps split: option.splits if_splits)

lemma requireLiveLeaf_facts:
  assumes "requireLiveLeaf sha256 s a = Inr l"
  shows "ls_parent s \<noteq> Unregistered" "parent_gateway (ls_parent s) = la_gateway a"
    "js_get (ls_tombstones s) (la_leafGeneration a) = None" "lf_leaseId l = la_leaseId a"
  using assms
  by (auto simp: requireLiveLeaf_def result_simps lease_guard_simps split: option.splits if_splits)

text \<open>No field but the three leaf maps and the agent index is touched by putting a leaf back.\<close>

lemma withdraw_leaf_frame [simp]:
  "ls_accessFencing (withdraw_leaf sha256 l s) = ls_accessFencing s"
  "ls_retiring (withdraw_leaf sha256 l s) = ls_retiring s"
  "ls_parent (withdraw_leaf sha256 l s) = ls_parent s"
  "ls_retentionPolicy (withdraw_leaf sha256 l s) = ls_retentionPolicy s"
  "ls_useTombstones (withdraw_leaf sha256 l s) = ls_useTombstones s"
  "ls_tombstones (withdraw_leaf sha256 l s) = ls_tombstones s"
  by (simp_all add: withdraw_leaf_def Let_def)

lemma replaceLeaf_frame:
  assumes "replaceLeaf sha256 s l = Inr s'"
  shows "ls_parent s' = ls_parent s" "ls_retentionPolicy s' = ls_retentionPolicy s"
    "ls_useTombstones s' = ls_useTombstones s" "ls_tombstones s' = ls_tombstones s"
  using assms by (auto simp: replaceLeaf_def Let_def split: if_splits)

lemma quarantineLeaf_fields [simp]:
  "lf_activeUses (quarantineLeafForAmbiguousUse l uses) = uses"
  "lf_principal (quarantineLeafForAmbiguousUse l uses) = lf_principal l"
  "lf_leafGeneration (quarantineLeafForAmbiguousUse l uses) = lf_leafGeneration l"
  "lf_leaseId (quarantineLeafForAmbiguousUse l uses) = lf_leaseId l"
  "is_quarantined (lf_kind (quarantineLeafForAmbiguousUse l uses))"
  by (simp_all add: quarantineLeafForAmbiguousUse_def)

end
