(* ===== verification/LeaseAuthority.thy ===== *)
theory LeaseAuthority
  imports LeaseHelpers
begin

text \<open>
  controller/leases/tool-vm-lease-authority-state.ts: the reducer of the Tool VM lease
  authority, one definition per command in the order of the source's \<open>switch\<close>, with the
  code's guards in the code's order, and the authorization query on the state.
\<close>

section \<open>The initial state\<close>

definition defaultRetentionPolicy :: retention_policy where
  "defaultRetentionPolicy =
     \<lparr>rt_leafTombstoneTtlMs = 60 * 60 * 1000,
      rt_maxLeafTombstones = 4096,
      rt_maxTerminalUseTombstones = 4096,
      rt_observationGapGraceMs = 120000,
      rt_terminalUseTombstoneTtlMs = 10 * 60 * 1000\<rparr>"

record partial_retention_policy =
  pp_leafTombstoneTtlMs :: "int option"
  pp_maxLeafTombstones :: "int option"
  pp_maxTerminalUseTombstones :: "int option"
  pp_observationGapGraceMs :: "int option"
  pp_terminalUseTombstoneTtlMs :: "int option"

definition or_default :: "'a option \<Rightarrow> 'a \<Rightarrow> 'a" where
  "or_default x d = (case x of None \<Rightarrow> d | Some v \<Rightarrow> v)"

definition merge_policy :: "partial_retention_policy \<Rightarrow> retention_policy" where
  "merge_policy p =
     \<lparr>rt_leafTombstoneTtlMs = or_default (pp_leafTombstoneTtlMs p) (rt_leafTombstoneTtlMs defaultRetentionPolicy),
      rt_maxLeafTombstones = or_default (pp_maxLeafTombstones p) (rt_maxLeafTombstones defaultRetentionPolicy),
      rt_maxTerminalUseTombstones =
        or_default (pp_maxTerminalUseTombstones p) (rt_maxTerminalUseTombstones defaultRetentionPolicy),
      rt_observationGapGraceMs =
        or_default (pp_observationGapGraceMs p) (rt_observationGapGraceMs defaultRetentionPolicy),
      rt_terminalUseTombstoneTtlMs =
        or_default (pp_terminalUseTombstoneTtlMs p) (rt_terminalUseTombstoneTtlMs defaultRetentionPolicy)\<rparr>"

definition empty_lease_state :: "retention_policy \<Rightarrow> lease_state" where
  "empty_lease_state p =
     \<lparr>ls_accessFencing = [], ls_currentPrincipalKey = [], ls_leavesByPrincipal = [],
      ls_parent = Unregistered, ls_retiring = [], ls_retentionPolicy = p,
      ls_useTombstones = [], ls_tombstones = []\<rparr>"

definition createEmptyToolVmLeaseAuthorityState ::
  "partial_retention_policy \<Rightarrow> lease_error + lease_state" where
  "createEmptyToolVmLeaseAuthorityState overrides =
     result_bind (validateRetentionPolicy (merge_policy overrides)) (\<lambda>_.
       Inr (empty_lease_state (merge_policy overrides)))"

section \<open>Rollover ambiguity\<close>

definition leafRolloverAmbiguity :: "millis \<Rightarrow> active_use \<Rightarrow> active_use" where
  "leafRolloverAmbiguity at u =
     (case au_kind u of
        Running _ _ \<Rightarrow> u\<lparr>au_kind := Ambiguous at LeafRollover\<rparr>
      | ObservationGap _ _ _ _ \<Rightarrow> u\<lparr>au_kind := Ambiguous at LeafRollover\<rparr>
      | _ \<Rightarrow> u)"

definition older_entry :: "string \<times> use_tombstone \<Rightarrow> (string \<times> use_tombstone) option
    \<Rightarrow> (string \<times> use_tombstone) option" where
  "older_entry e oldest =
     (case oldest of
        None \<Rightarrow> Some e
      | Some b \<Rightarrow>
          if ut_endedAtMs (snd e) < ut_endedAtMs (snd b) \<or>
             (ut_endedAtMs (snd e) = ut_endedAtMs (snd b) \<and> js_string_less (fst e) (fst b))
          then Some e else Some b)"

definition oldestTerminalUseTombstoneKey :: "(string, use_tombstone) js_map \<Rightarrow> string option" where
  "oldestTerminalUseTombstoneKey m = map_option fst (fold older_entry m None)"

definition retainRolloverAmbiguityWithoutBlockingDestruction ::
  "string \<Rightarrow> millis \<Rightarrow> retention_policy \<Rightarrow> use_tombstone \<Rightarrow> (string, use_tombstone) js_map
   \<Rightarrow> (string, use_tombstone) js_map" where
  "retainRolloverAmbiguityWithoutBlockingDestruction key now policy tombstone tombstones =
     (let live = filter (\<lambda>(k, t). \<not> ut_expiresAtMs t \<le> now) tombstones;
          room = (if \<not> js_has live key \<and> int (js_size live) \<ge> rt_maxTerminalUseTombstones policy
                  then (case oldestTerminalUseTombstoneKey live of
                          None \<Rightarrow> live
                        | Some oldest \<Rightarrow> js_delete oldest live)
                  else live)
      in js_set key tombstone room)"

section \<open>Authorization\<close>

definition authorizeCurrentToolVmLeafBinding ::
  "(string \<Rightarrow> string) \<Rightarrow> lease_state \<Rightarrow> leaf_authority \<Rightarrow> lease_compatibility \<Rightarrow> millis \<Rightarrow> string
   \<Rightarrow> lease_error + authorized_binding" where
  "authorizeCurrentToolVmLeafBinding sha256 s a compatibility now sshBindingId =
     result_bind (requireAdmittingParent s (la_gateway a)) (\<lambda>_.
     result_bind (requireLiveLeaf sha256 s a) (\<lambda>l.
     case lf_kind l of
       Current rb sb \<Rightarrow>
         if \<not> compatibilitiesEqual (lf_compatibility l) compatibility
         then Inl (TransitionError CompatibilityConflict)
         else if now \<ge> lf_idleExpiresAtMs l \<and> \<not> nonTerminalActiveUseExists (lf_activeUses l)
         then Inl (TransitionError LeaseExpired)
         else if sb_bindingId sb \<noteq> sshBindingId then Inl (TransitionError BindingNotAuthorized)
         else Inr \<lparr>ab_leaseId = lf_leaseId l, ab_leafGeneration = lf_leafGeneration l,
                   ab_idleExpiresAtMs = lf_idleExpiresAtMs l, ab_runtimeBinding = rb,
                   ab_sshBinding = sb\<rparr>
     | _ \<Rightarrow> Inl (TransitionError LeafNotCurrent)))"

section \<open>The parent\<close>

definition register_parent :: "lease_state \<Rightarrow> gateway_epoch_identity \<Rightarrow> lease_error + lease_state" where
  "register_parent s gw =
     (if ls_parent s \<noteq> Unregistered then Inl (TransitionError ParentAlreadyRegistered)
      else Inr (s\<lparr>ls_parent := Registered gw\<rparr>))"

definition seal_parent :: "lease_state \<Rightarrow> gateway_epoch_identity \<Rightarrow> lease_error + lease_state" where
  "seal_parent s gw =
     result_bind (requireExactParent s gw) (\<lambda>parent.
       case parent of
         Registered g \<Rightarrow> Inr (s\<lparr>ls_parent := Sealed g\<rparr>)
       | _ \<Rightarrow> Inl (TransitionError ParentNotAdmitting))"

definition retire_parent :: "lease_state \<Rightarrow> gateway_epoch_identity \<Rightarrow> lease_error + lease_state" where
  "retire_parent s gw =
     result_bind (requireExactParent s gw) (\<lambda>parent.
       case parent of
         Sealed g \<Rightarrow>
           if js_size (ls_leavesByPrincipal s) > 0 \<or> js_size (ls_accessFencing s) > 0 \<or>
              js_size (ls_retiring s) > 0
           then Inl (TransitionError ParentHasLiveLeaves)
           else Inr (s\<lparr>ls_parent := Retired g\<rparr>)
       | _ \<Rightarrow> Inl (TransitionError ParentNotSealed))"

section \<open>Leaf admission\<close>

definition begin_provisioning :: "(string \<Rightarrow> string) \<Rightarrow> lease_state \<Rightarrow> leaf_authority
    \<Rightarrow> lease_compatibility \<Rightarrow> millis \<Rightarrow> lease_error + lease_state" where
  "begin_provisioning sha256 s a compatibility idle =
     result_bind (requireAdmittingParent s (la_gateway a)) (\<lambda>_.
     if length (la_leaseId a) = 0 \<or> \<not> is_safe_integer idle \<or> idle \<le> 0
     then Inl (PlainError ''Lease identity and policy expiry must be controller-owned bounded values.'')
     else if js_has (ls_currentPrincipalKey s) (pr_agentId (la_principal a))
     then Inl (TransitionError LeafAlreadyExists)
     else if js_has (ls_tombstones s) (la_leafGeneration a) \<or>
             js_has (ls_accessFencing s) (la_leafGeneration a) \<or>
             js_has (ls_retiring s) (la_leafGeneration a) \<or>
             (\<exists>l \<in> set (js_values (ls_leavesByPrincipal s)). lf_leafGeneration l = la_leafGeneration a)
     then Inl (TransitionError LeafGenerationReused)
     else replaceLeaf sha256 s
       \<lparr>lf_activeUses = [], lf_compatibility = compatibility, lf_leaseId = la_leaseId a,
        lf_leafGeneration = la_leafGeneration a, lf_idleExpiresAtMs = idle,
        lf_principal = la_principal a, lf_kind = Provisioning\<rparr>)"

definition commit_current :: "(string \<Rightarrow> string) \<Rightarrow> lease_state \<Rightarrow> leaf_authority \<Rightarrow> runtime_binding
    \<Rightarrow> ssh_binding \<Rightarrow> lease_error + lease_state" where
  "commit_current sha256 s a rb sb =
     result_bind (requireExactParent s (la_gateway a)) (\<lambda>_.
     result_bind (requireLiveLeaf sha256 s a) (\<lambda>l.
     if lf_kind l \<noteq> Provisioning then Inl (TransitionError LeafNotProvisioning)
     else if \<exists>p \<in> set (js_values (ls_accessFencing s)).
               pr_agentId (lf_principal p) = pr_agentId (la_principal a)
     then Inl (TransitionError PredecessorAccessNotFenced)
     else replaceLeaf sha256 s (l\<lparr>lf_kind := Current rb sb\<rparr>)))"

definition renew_idle_expiry :: "(string \<Rightarrow> string) \<Rightarrow> lease_state \<Rightarrow> leaf_authority \<Rightarrow> millis
    \<Rightarrow> millis \<Rightarrow> lease_error + lease_state" where
  "renew_idle_expiry sha256 s a nextIdle now =
     result_bind (requireAdmittingParent s (la_gateway a)) (\<lambda>_.
     result_bind (requireLiveLeaf sha256 s a) (\<lambda>l.
     if \<not> is_current (lf_kind l) then Inl (TransitionError LeafNotCurrent)
     else if now \<ge> lf_idleExpiresAtMs l \<and> \<not> nonTerminalActiveUseExists (lf_activeUses l)
     then Inl (TransitionError LeaseExpired)
     else if \<not> is_safe_integer nextIdle \<or> nextIdle \<le> now \<or> nextIdle \<le> lf_idleExpiresAtMs l
     then Inl (TransitionError IdleExpiryRegressed)
     else replaceLeaf sha256 s (l\<lparr>lf_idleExpiresAtMs := nextIdle\<rparr>)))"

definition mark_suspect :: "(string \<Rightarrow> string) \<Rightarrow> lease_state \<Rightarrow> leaf_authority \<Rightarrow> suspect_reason
    \<Rightarrow> lease_error + lease_state" where
  "mark_suspect sha256 s a reason =
     result_bind (requireAdmittingParent s (la_gateway a)) (\<lambda>_.
     result_bind (requireLiveLeaf sha256 s a) (\<lambda>l.
     case lf_kind l of
       Current rb sb \<Rightarrow> replaceLeaf sha256 s (l\<lparr>lf_kind := Suspect rb sb reason\<rparr>)
     | _ \<Rightarrow> Inl (TransitionError LeafNotCurrent)))"

definition restore_current :: "(string \<Rightarrow> string) \<Rightarrow> lease_state \<Rightarrow> leaf_authority
    \<Rightarrow> lease_error + lease_state" where
  "restore_current sha256 s a =
     result_bind (requireAdmittingParent s (la_gateway a)) (\<lambda>_.
     result_bind (requireLiveLeaf sha256 s a) (\<lambda>l.
     case lf_kind l of
       Suspect rb sb _ \<Rightarrow> replaceLeaf sha256 s (l\<lparr>lf_kind := Current rb sb\<rparr>)
     | _ \<Rightarrow> Inl (TransitionError LeafNotCurrent)))"

definition quarantine_leaf :: "(string \<Rightarrow> string) \<Rightarrow> lease_state \<Rightarrow> leaf_authority \<Rightarrow> quarantine_reason
    \<Rightarrow> lease_error + lease_state" where
  "quarantine_leaf sha256 s a reason =
     result_bind (requireExactParent s (la_gateway a)) (\<lambda>_.
     result_bind (requireLiveLeaf sha256 s a) (\<lambda>l.
     if lf_kind l \<noteq> Provisioning \<and> \<not> is_current (lf_kind l) \<and> \<not> is_suspect (lf_kind l) \<and>
        \<not> is_quarantined (lf_kind l)
     then Inl (TransitionError LeafNotCurrent)
     else replaceLeaf sha256 s
       (l\<lparr>lf_kind := Quarantined (kind_runtimeBinding (lf_kind l)) (kind_sshBinding (lf_kind l)) reason\<rparr>)))"

section \<open>Active uses\<close>

definition same_semantic_identity :: "active_use \<Rightarrow> start_use_input \<Rightarrow> bool" where
  "same_semantic_identity u use \<longleftrightarrow>
     au_semanticOperationId u = su_semanticOperationId use \<and>
     au_operationPayloadDigest u = su_operationPayloadDigest use \<and>
     au_processEpoch u = su_processEpoch use"

definition retiring_rollover_uses :: "lease_state \<Rightarrow> leaf_authority \<Rightarrow> string \<Rightarrow> active_use list" where
  "retiring_rollover_uses s a useId =
     [u. l \<leftarrow> js_values (ls_retiring s),
         pr_agentId (lf_principal l) = pr_agentId (la_principal a),
         u \<leftarrow> (case js_get (lf_activeUses l) useId of None \<Rightarrow> [] | Some u \<Rightarrow> [u]),
         (case au_kind u of Ambiguous _ r \<Rightarrow> r = LeafRollover | _ \<Rightarrow> False)]"

fun same_attachment_generation :: "active_use_kind \<Rightarrow> int \<Rightarrow> bool" where
  "same_attachment_generation (Running _ g) g' = (g = g')"
| "same_attachment_generation (ObservationGap _ _ _ g) g' = (g = g')"
| "same_attachment_generation _ _ = False"

fun is_running_use :: "active_use_kind \<Rightarrow> bool" where
  "is_running_use (Running _ _) = True"
| "is_running_use _ = False"

definition conflicting_use :: "start_use_input \<Rightarrow> active_use \<Rightarrow> bool" where
  "conflicting_use use u \<longleftrightarrow>
     (case au_kind u of
        Running _ g \<Rightarrow> au_processEpoch u \<noteq> su_processEpoch use \<or> g \<noteq> su_sessionAttachmentGeneration use
      | _ \<Rightarrow> True)"

definition started_use :: "start_use_input \<Rightarrow> active_use" where
  "started_use use =
     \<lparr>au_correlation = su_correlation use,
      au_latestOperationReport = su_latestOperationReport use,
      au_latestReport = None,
      au_operationPayloadDigest = su_operationPayloadDigest use,
      au_processEpoch = su_processEpoch use,
      au_semanticOperationId = su_semanticOperationId use,
      au_startedAtMs = su_startedAtMs use,
      au_useId = su_useId use,
      au_kind = Running (su_lastHeartbeatAtMs use) (su_sessionAttachmentGeneration use)\<rparr>"

text \<open>
  The last part of \<open>start-active-use\<close>: an identical running use is accepted as it is;
  any other use of that id, or foreign work on the leaf, is refused.
\<close>

definition admit_use :: "(string \<Rightarrow> string) \<Rightarrow> lease_state \<Rightarrow> leaf \<Rightarrow> start_use_input
    \<Rightarrow> lease_error + lease_state" where
  "admit_use sha256 s l use =
     (let fresh =
        (if \<exists>u \<in> set (js_values (lf_activeUses l)). conflicting_use use u
         then Inl (TransitionError ActiveUseConflict)
         else replaceLeaf sha256 s
                (l\<lparr>lf_activeUses := js_set (su_useId use) (started_use use) (lf_activeUses l)\<rparr>))
      in case js_get (lf_activeUses l) (su_useId use) of
           None \<Rightarrow> fresh
         | Some u \<Rightarrow>
             let sameSemantic = same_semantic_identity u use;
                 sameAttachment =
                   same_attachment_generation (au_kind u) (su_sessionAttachmentGeneration use)
             in if is_running_use (au_kind u) \<and> sameSemantic \<and> sameAttachment then Inr s
                else if \<not> sameSemantic then Inl (TransitionError ActiveUseSemanticCollision)
                else if \<not> sameAttachment then Inl (TransitionError ActiveUseConflict)
                else fresh)"

definition start_active_use :: "(string \<Rightarrow> string) \<Rightarrow> lease_state \<Rightarrow> leaf_authority \<Rightarrow> start_use_input
    \<Rightarrow> lease_error + lease_state" where
  "start_active_use sha256 s a use =
     result_bind (requireAdmittingParent s (la_gateway a)) (\<lambda>_.
     result_bind (requireLiveLeaf sha256 s a) (\<lambda>l.
     if \<not> is_current (lf_kind l) then Inl (TransitionError LeafNotCurrent)
     else case js_get (ls_useTombstones s) (terminalUseTombstoneKey a (su_useId use)) of
       Some t \<Rightarrow>
         if ut_semanticOperationId t = su_semanticOperationId use \<and>
            ut_operationPayloadDigest t = su_operationPayloadDigest use \<and>
            ut_processEpoch t = su_processEpoch use
         then Inl (TransitionError ActiveUseNotResumable)
         else Inl (TransitionError ActiveUseSemanticCollision)
     | None \<Rightarrow>
         let rollover = retiring_rollover_uses s a (su_useId use)
         in if rollover \<noteq> [] then
              (if \<forall>u \<in> set rollover. same_semantic_identity u use
               then Inl (TransitionError ActiveUseNotResumable)
               else Inl (TransitionError ActiveUseSemanticCollision))
            else admit_use sha256 s l use))"

definition report_advances :: "active_use \<Rightarrow> latest_report option \<Rightarrow> lease_error + unit" where
  "report_advances u report =
     (case report of
        None \<Rightarrow> Inr ()
      | Some r \<Rightarrow>
          result_bind (validateLatestReport r) (\<lambda>_.
            case au_latestReport u of
              Some previous \<Rightarrow>
                if rp_sequence r \<le> rp_sequence previous
                then Inl (TransitionError ActiveUseReportRegressed) else Inr ()
            | None \<Rightarrow> Inr ()))"

definition heartbeat_use :: "heartbeat_input \<Rightarrow> int \<Rightarrow> active_use \<Rightarrow> active_use" where
  "heartbeat_use c attachment u =
     u\<lparr>au_kind := Running (hb_heartbeatAtMs c) attachment,
       au_latestOperationReport :=
         (case hb_operationReport c of None \<Rightarrow> au_latestOperationReport u | Some r \<Rightarrow> Some r),
       au_latestReport := (case hb_report c of None \<Rightarrow> au_latestReport u | Some r \<Rightarrow> Some r)\<rparr>"

definition heartbeat_active_use :: "(string \<Rightarrow> string) \<Rightarrow> lease_state \<Rightarrow> leaf_authority \<Rightarrow> heartbeat_input
    \<Rightarrow> lease_error + lease_state" where
  "heartbeat_active_use sha256 s a c =
     result_bind (requireAdmittingParent s (la_gateway a)) (\<lambda>_.
     result_bind (requireLiveLeaf sha256 s a) (\<lambda>l.
     if \<not> is_current (lf_kind l) then Inl (TransitionError LeafNotCurrent)
     else case js_get (lf_activeUses l) (hb_useId c) of
       None \<Rightarrow> Inl (TransitionError ActiveUseNotFound)
     | Some u \<Rightarrow>
     (case au_kind u of
       Running lastHeartbeat attachment \<Rightarrow>
         if au_processEpoch u \<noteq> hb_processEpoch c then Inl (TransitionError ProcessEpochMismatch)
         else if attachment \<noteq> hb_sessionAttachmentGeneration c
         then Inl (TransitionError AttachmentGenerationRegressed)
         else if hb_heartbeatAtMs c < lastHeartbeat
         then Inl (TransitionError ActiveUseHeartbeatRegressed)
         else result_bind (report_advances u (hb_report c)) (\<lambda>_.
           replaceLeaf sha256 s (l\<lparr>lf_activeUses :=
             js_set (hb_useId c) (heartbeat_use c attachment u) (lf_activeUses l)\<rparr>))
     | _ \<Rightarrow> Inl (TransitionError ActiveUseNotResumable))))"

text \<open>
  The two broadcast commands walk over all leaves and uses and rewrite the matching ones in
  place; where nothing matches the code returns the state itself, which is what rewriting
  nothing yields.
\<close>

definition rewrite_uses :: "(active_use \<Rightarrow> active_use) \<Rightarrow> (string, active_use) js_map
    \<Rightarrow> (string, active_use) js_map" where
  "rewrite_uses f uses = map (\<lambda>(k, u). (k, f u)) uses"

definition disconnect_use :: "retention_policy \<Rightarrow> millis \<Rightarrow> string \<Rightarrow> int \<Rightarrow> active_use \<Rightarrow> active_use" where
  "disconnect_use policy at epoch generation u =
     (case au_kind u of
        Running lastHeartbeat g \<Rightarrow>
          if au_processEpoch u = epoch \<and> g = generation
          then u\<lparr>au_kind := ObservationGap lastHeartbeat at
                   (at + rt_observationGapGraceMs policy) g\<rparr>
          else u
      | _ \<Rightarrow> u)"

definition session_disconnected :: "lease_state \<Rightarrow> gateway_epoch_identity \<Rightarrow> millis \<Rightarrow> string \<Rightarrow> int
    \<Rightarrow> lease_error + lease_state" where
  "session_disconnected s gw at epoch generation =
     result_bind (requireExactParent s gw) (\<lambda>_.
       Inr (s\<lparr>ls_leavesByPrincipal :=
         map (\<lambda>(k, l). (k,
           if is_current (lf_kind l) \<or> is_suspect (lf_kind l)
           then l\<lparr>lf_activeUses :=
                    rewrite_uses (disconnect_use (ls_retentionPolicy s) at epoch generation)
                      (lf_activeUses l)\<rparr>
           else l)) (ls_leavesByPrincipal s)\<rparr>))"

definition resume_active_use :: "(string \<Rightarrow> string) \<Rightarrow> lease_state \<Rightarrow> leaf_authority \<Rightarrow> resume_input
    \<Rightarrow> lease_error + lease_state" where
  "resume_active_use sha256 s a c =
     result_bind (requireAdmittingParent s (la_gateway a)) (\<lambda>_.
     result_bind (requireLiveLeaf sha256 s a) (\<lambda>l.
     if \<not> is_current (lf_kind l) then Inl (TransitionError LeafNotCurrent)
     else case js_get (lf_activeUses l) (ru_useId c) of
       None \<Rightarrow> Inl (TransitionError ActiveUseNotFound)
     | Some u \<Rightarrow>
     (case au_kind u of
       ObservationGap _ _ deadline generation \<Rightarrow>
         if au_processEpoch u \<noteq> ru_processEpoch c then Inl (TransitionError ProcessEpochMismatch)
         else if ru_nowMs c \<ge> deadline then Inl (TransitionError ObservationGapExpiredError)
         else if ru_sessionAttachmentGeneration c \<le> generation
         then Inl (TransitionError AttachmentGenerationRegressed)
         else replaceLeaf sha256 s (l\<lparr>lf_activeUses :=
                js_set (ru_useId c)
                  (u\<lparr>au_kind := Running (ru_lastHeartbeatAtMs c) (ru_sessionAttachmentGeneration c)\<rparr>)
                  (lf_activeUses l)\<rparr>)
     | _ \<Rightarrow> Inl (TransitionError ActiveUseNotResumable))))"

fun end_attachment_stale :: "active_use_kind \<Rightarrow> int \<Rightarrow> bool" where
  "end_attachment_stale (Running _ g) c = (g \<noteq> c)"
| "end_attachment_stale (ObservationGap _ _ _ g) c = (g \<ge> c)"
| "end_attachment_stale _ _ = False"

definition end_use_tombstone :: "lease_state \<Rightarrow> leaf_authority \<Rightarrow> leaf \<Rightarrow> active_use \<Rightarrow> end_use_input
    \<Rightarrow> use_tombstone" where
  "end_use_tombstone s a l u c =
     \<lparr>ut_correlation = au_correlation u,
      ut_endedAtMs = eu_endedAtMs c,
      ut_expiresAtMs = eu_endedAtMs c + rt_terminalUseTombstoneTtlMs (ls_retentionPolicy s),
      ut_gateway = la_gateway a,
      ut_leafGeneration = lf_leafGeneration l,
      ut_latestReport = au_latestReport u,
      ut_latestOperationReport =
        (case eu_operationReport c of None \<Rightarrow> au_latestOperationReport u | Some r \<Rightarrow> Some r),
      ut_operationPayloadDigest = au_operationPayloadDigest u,
      ut_principal = lf_principal l,
      ut_processEpoch = au_processEpoch u,
      ut_semanticOperationId = au_semanticOperationId u,
      ut_startedAtMs = au_startedAtMs u,
      ut_useId = au_useId u,
      ut_outcome = Reported (eu_outcome c)\<rparr>"

definition end_active_use :: "(string \<Rightarrow> string) \<Rightarrow> lease_state \<Rightarrow> leaf_authority \<Rightarrow> end_use_input
    \<Rightarrow> lease_error + lease_state" where
  "end_active_use sha256 s a c =
     result_bind (requireAdmittingParent s (la_gateway a)) (\<lambda>_.
     result_bind (requireLiveLeaf sha256 s a) (\<lambda>l.
     if \<not> is_current (lf_kind l) \<and> \<not> is_suspect (lf_kind l)
     then Inl (TransitionError LeafNotCurrent)
     else case js_get (lf_activeUses l) (eu_useId c) of
       None \<Rightarrow> Inl (TransitionError ActiveUseNotFound)
     | Some u \<Rightarrow>
       let ended = (case au_kind u of Ambiguous _ _ \<Rightarrow> True | Terminal _ _ \<Rightarrow> True | _ \<Rightarrow> False);
           key = terminalUseTombstoneKey a (eu_useId c)
       in if ended then Inl (TransitionError ActiveUseNotResumable)
          else if au_processEpoch u \<noteq> eu_processEpoch c
          then Inl (TransitionError ProcessEpochMismatch)
          else if end_attachment_stale (au_kind u) (eu_sessionAttachmentGeneration c)
          then Inl (TransitionError AttachmentGenerationRegressed)
          else if \<not> js_has (ls_useTombstones s) key \<and>
                  int (js_size (ls_useTombstones s)) \<ge> rt_maxTerminalUseTombstones (ls_retentionPolicy s)
          then Inl (TransitionError TombstoneCapacityExhausted)
          else result_bind
                 (replaceLeaf sha256 s
                    (l\<lparr>lf_activeUses := js_delete (eu_useId c) (lf_activeUses l)\<rparr>)) (\<lambda>s'.
                 Inr (s'\<lparr>ls_useTombstones :=
                   js_set key (end_use_tombstone s a l u c) (ls_useTombstones s)\<rparr>))))"

definition expire_observation_gap :: "(string \<Rightarrow> string) \<Rightarrow> lease_state \<Rightarrow> leaf_authority \<Rightarrow> millis
    \<Rightarrow> int \<Rightarrow> millis \<Rightarrow> string \<Rightarrow> lease_error + lease_state" where
  "expire_observation_gap sha256 s a ambiguousAt expectedGeneration now useId =
     result_bind (requireExactParent s (la_gateway a)) (\<lambda>_.
     result_bind (requireLiveLeaf sha256 s a) (\<lambda>l.
     if \<not> is_current (lf_kind l) \<and> \<not> is_suspect (lf_kind l)
     then Inl (TransitionError LeafNotCurrent)
     else case js_get (lf_activeUses l) useId of
       None \<Rightarrow> Inl (TransitionError ActiveUseNotFound)
     | Some u \<Rightarrow>
     (case au_kind u of
       ObservationGap _ _ deadline generation \<Rightarrow>
         if generation \<noteq> expectedGeneration then Inl (TransitionError AttachmentGenerationRegressed)
         else if now < deadline then Inl (TransitionError ObservationGapNotExpired)
         else replaceLeaf sha256 s (quarantineLeafForAmbiguousUse l
                (js_set useId (u\<lparr>au_kind := Ambiguous ambiguousAt ObservationGapExpired\<rparr>)
                   (lf_activeUses l)))
     | _ \<Rightarrow> Inl (TransitionError ActiveUseNotResumable))))"

definition epoch_lost_matches :: "string \<Rightarrow> active_use \<Rightarrow> bool" where
  "epoch_lost_matches epoch u \<longleftrightarrow>
     (case au_kind u of Running _ _ \<Rightarrow> True | ObservationGap _ _ _ _ \<Rightarrow> True | _ \<Rightarrow> False) \<and>
     au_processEpoch u = epoch"

definition lose_epoch_leaf :: "millis \<Rightarrow> string \<Rightarrow> leaf \<Rightarrow> leaf" where
  "lose_epoch_leaf at epoch l =
     (if (is_current (lf_kind l) \<or> is_suspect (lf_kind l)) \<and>
         (\<exists>u \<in> set (js_values (lf_activeUses l)). epoch_lost_matches epoch u)
      then quarantineLeafForAmbiguousUse l
             (rewrite_uses (\<lambda>u. if epoch_lost_matches epoch u
                then u\<lparr>au_kind := Ambiguous at ProcessEpochLost\<rparr> else u) (lf_activeUses l))
      else l)"

definition process_epoch_lost :: "lease_state \<Rightarrow> gateway_epoch_identity \<Rightarrow> millis \<Rightarrow> string
    \<Rightarrow> lease_error + lease_state" where
  "process_epoch_lost s gw at epoch =
     result_bind (requireExactParent s gw) (\<lambda>_.
       Inr (s\<lparr>ls_leavesByPrincipal :=
         map (\<lambda>(k, l). (k, lose_epoch_leaf at epoch l)) (ls_leavesByPrincipal s)\<rparr>))"

section \<open>Destruction\<close>

definition begin_destruction :: "(string \<Rightarrow> string) \<Rightarrow> lease_state \<Rightarrow> leaf_authority \<Rightarrow> millis \<Rightarrow> string
    \<Rightarrow> lease_error + lease_state" where
  "begin_destruction sha256 s a ambiguousAt reason =
     result_bind (requireExactParent s (la_gateway a)) (\<lambda>_.
     result_bind (requireLiveLeaf sha256 s a) (\<lambda>l.
     if is_destroying (lf_kind l) then Inr s
     else if is_owner_unsafe (lf_kind l) then Inl (TransitionError LeafNotDestroying)
     else replaceLeaf sha256 s
       (l\<lparr>lf_activeUses := rewrite_uses (leafRolloverAmbiguity ambiguousAt) (lf_activeUses l),
          lf_kind := Destroying (kind_runtimeBinding (lf_kind l)) (kind_sshBinding (lf_kind l)) reason\<rparr>)))"

definition access_fenced :: "(string \<Rightarrow> string) \<Rightarrow> lease_state \<Rightarrow> leaf_authority
    \<Rightarrow> lease_error + lease_state" where
  "access_fenced sha256 s a =
     result_bind (requireExactParent s (la_gateway a)) (\<lambda>_.
     result_bind (requireLiveLeaf sha256 s a) (\<lambda>l.
     case lf_kind l of
       Retiring _ _ _ _ \<Rightarrow> Inr s
     | Destroying rb sb reason \<Rightarrow>
         Inr ((withdraw_leaf sha256 l s)
           \<lparr>ls_retiring := js_set (lf_leafGeneration l) (l\<lparr>lf_kind := Retiring rb sb reason None\<rparr>)
                             (ls_retiring s),
            ls_accessFencing := js_delete (lf_leafGeneration l) (ls_accessFencing s)\<rparr>)
     | _ \<Rightarrow> Inl (TransitionError LeafNotDestroying)))"

definition destruction_incomplete :: "(string \<Rightarrow> string) \<Rightarrow> lease_state \<Rightarrow> leaf_authority \<Rightarrow> string
    \<Rightarrow> lease_error + lease_state" where
  "destruction_incomplete sha256 s a reason =
     result_bind (requireExactParent s (la_gateway a)) (\<lambda>_.
     result_bind (requireLiveLeaf sha256 s a) (\<lambda>l.
     case lf_kind l of
       Retiring rb sb destructionReason _ \<Rightarrow>
         replaceLeaf sha256 s (l\<lparr>lf_kind := Retiring rb sb destructionReason (Some reason)\<rparr>)
     | Destroying rb sb _ \<Rightarrow> replaceLeaf sha256 s (l\<lparr>lf_kind := OwnerUnsafe rb sb reason\<rparr>)
     | _ \<Rightarrow> Inl (TransitionError LeafNotDestroying)))"

definition retry_destruction :: "(string \<Rightarrow> string) \<Rightarrow> lease_state \<Rightarrow> leaf_authority \<Rightarrow> string
    \<Rightarrow> lease_error + lease_state" where
  "retry_destruction sha256 s a reason =
     result_bind (requireExactParent s (la_gateway a)) (\<lambda>_.
     result_bind (requireLiveLeaf sha256 s a) (\<lambda>l.
     case lf_kind l of
       OwnerUnsafe rb sb _ \<Rightarrow> replaceLeaf sha256 s (l\<lparr>lf_kind := Destroying rb sb reason\<rparr>)
     | _ \<Rightarrow> Inl (TransitionError LeafNotDestroying)))"

definition rollover_tombstone :: "lease_state \<Rightarrow> leaf_authority \<Rightarrow> leaf \<Rightarrow> millis \<Rightarrow> millis \<Rightarrow> active_use
    \<Rightarrow> use_tombstone" where
  "rollover_tombstone s a l destroyedAt ambiguousAt u =
     \<lparr>ut_correlation = au_correlation u,
      ut_endedAtMs = destroyedAt,
      ut_expiresAtMs = destroyedAt + rt_terminalUseTombstoneTtlMs (ls_retentionPolicy s),
      ut_gateway = la_gateway a,
      ut_leafGeneration = lf_leafGeneration l,
      ut_latestReport = au_latestReport u,
      ut_latestOperationReport = au_latestOperationReport u,
      ut_operationPayloadDigest = au_operationPayloadDigest u,
      ut_principal = lf_principal l,
      ut_processEpoch = au_processEpoch u,
      ut_semanticOperationId = au_semanticOperationId u,
      ut_startedAtMs = au_startedAtMs u,
      ut_useId = au_useId u,
      ut_outcome = AmbiguousRollover ambiguousAt\<rparr>"

definition retain_rollover_use :: "lease_state \<Rightarrow> leaf_authority \<Rightarrow> leaf \<Rightarrow> millis \<Rightarrow> active_use
    \<Rightarrow> (string, use_tombstone) js_map \<Rightarrow> (string, use_tombstone) js_map" where
  "retain_rollover_use s a l destroyedAt u tombstones =
     (case au_kind u of
        Ambiguous at LeafRollover \<Rightarrow>
          retainRolloverAmbiguityWithoutBlockingDestruction
            (terminalUseTombstoneKey a (au_useId u)) destroyedAt (ls_retentionPolicy s)
            (rollover_tombstone s a l destroyedAt at u) tombstones
      | _ \<Rightarrow> tombstones)"

definition destroyed_tombstone :: "lease_state \<Rightarrow> leaf_authority \<Rightarrow> leaf \<Rightarrow> millis \<Rightarrow> string
    \<Rightarrow> leaf_tombstone" where
  "destroyed_tombstone s a l destroyedAt reason =
     \<lparr>lt_destroyedAtMs = destroyedAt,
      lt_expiresAtMs = destroyedAt + rt_leafTombstoneTtlMs (ls_retentionPolicy s),
      lt_gateway = la_gateway a,
      lt_leaseId = lf_leaseId l,
      lt_leafGeneration = lf_leafGeneration l,
      lt_principal = lf_principal l,
      lt_reason = reason,
      lt_sshBindingId = map_option sb_bindingId (kind_sshBinding (lf_kind l)),
      lt_vmId = map_option rb_vmId (kind_runtimeBinding (lf_kind l))\<rparr>"

definition destruction_completed :: "(string \<Rightarrow> string) \<Rightarrow> lease_state \<Rightarrow> leaf_authority \<Rightarrow> millis
    \<Rightarrow> string \<Rightarrow> string option \<Rightarrow> lease_error + lease_state" where
  "destruction_completed sha256 s a destroyedAt reason vmId =
     result_bind (requireExactParent s (la_gateway a)) (\<lambda>_.
     result_bind (requireLiveLeaf sha256 s a) (\<lambda>l.
     if \<not> is_destroying (lf_kind l) \<and> \<not> is_retiring (lf_kind l)
     then Inl (TransitionError LeafNotDestroying)
     else if vmId \<noteq> None \<and> kind_runtimeBinding (lf_kind l) \<noteq> None \<and>
             vmId \<noteq> map_option rb_vmId (kind_runtimeBinding (lf_kind l))
     then Inl (TransitionError LeaseIdentityMismatch)
     else if \<not> js_has (ls_tombstones s) (lf_leafGeneration l) \<and>
             int (js_size (ls_tombstones s)) \<ge> rt_maxLeafTombstones (ls_retentionPolicy s)
     then Inl (TransitionError TombstoneCapacityExhausted)
     else Inr ((withdraw_leaf sha256 l s)
       \<lparr>ls_retiring := js_delete (lf_leafGeneration l) (ls_retiring s),
        ls_accessFencing := js_delete (lf_leafGeneration l) (ls_accessFencing s),
        ls_useTombstones :=
          fold (retain_rollover_use s a l destroyedAt) (js_values (lf_activeUses l))
            (ls_useTombstones s),
        ls_tombstones := js_set (lf_leafGeneration l)
          (destroyed_tombstone s a l destroyedAt reason) (ls_tombstones s)\<rparr>)))"

definition prune_tombstones :: "lease_state \<Rightarrow> millis \<Rightarrow> lease_error + lease_state" where
  "prune_tombstones s now =
     (let leafTombstones = filter (\<lambda>(k, t). lt_expiresAtMs t > now) (ls_tombstones s);
          useTombstones = filter (\<lambda>(k, t). ut_expiresAtMs t > now) (ls_useTombstones s)
      in if js_size leafTombstones = js_size (ls_tombstones s) \<and>
            js_size useTombstones = js_size (ls_useTombstones s)
         then Inr s
         else Inr (s\<lparr>ls_useTombstones := useTombstones, ls_tombstones := leafTombstones\<rparr>))"

section \<open>The reducer\<close>

fun reduceToolVmLeaseAuthorityState :: "(string \<Rightarrow> string) \<Rightarrow> lease_state \<Rightarrow> lease_command
    \<Rightarrow> lease_error + lease_state" where
  "reduceToolVmLeaseAuthorityState h s (RegisterParent gw) = register_parent s gw"
| "reduceToolVmLeaseAuthorityState h s (SealParent gw) = seal_parent s gw"
| "reduceToolVmLeaseAuthorityState h s (RetireParent gw) = retire_parent s gw"
| "reduceToolVmLeaseAuthorityState h s (BeginProvisioning a c idle) = begin_provisioning h s a c idle"
| "reduceToolVmLeaseAuthorityState h s (CommitCurrent a rb sb) = commit_current h s a rb sb"
| "reduceToolVmLeaseAuthorityState h s (RenewIdleExpiry a n now) = renew_idle_expiry h s a n now"
| "reduceToolVmLeaseAuthorityState h s (MarkSuspect a r) = mark_suspect h s a r"
| "reduceToolVmLeaseAuthorityState h s (RestoreCurrent a) = restore_current h s a"
| "reduceToolVmLeaseAuthorityState h s (Quarantine a r) = quarantine_leaf h s a r"
| "reduceToolVmLeaseAuthorityState h s (StartActiveUse a use) = start_active_use h s a use"
| "reduceToolVmLeaseAuthorityState h s (HeartbeatActiveUse a c) = heartbeat_active_use h s a c"
| "reduceToolVmLeaseAuthorityState h s (SessionDisconnected gw at epoch g) =
     session_disconnected s gw at epoch g"
| "reduceToolVmLeaseAuthorityState h s (ResumeActiveUse a c) = resume_active_use h s a c"
| "reduceToolVmLeaseAuthorityState h s (EndActiveUse a c) = end_active_use h s a c"
| "reduceToolVmLeaseAuthorityState h s (ExpireObservationGap a at g now use) =
     expire_observation_gap h s a at g now use"
| "reduceToolVmLeaseAuthorityState h s (ProcessEpochLostCommand gw at epoch) =
     process_epoch_lost s gw at epoch"
| "reduceToolVmLeaseAuthorityState h s (BeginDestruction a at r) = begin_destruction h s a at r"
| "reduceToolVmLeaseAuthorityState h s (AccessFenced a) = access_fenced h s a"
| "reduceToolVmLeaseAuthorityState h s (DestructionIncomplete a r) = destruction_incomplete h s a r"
| "reduceToolVmLeaseAuthorityState h s (RetryDestruction a r) = retry_destruction h s a r"
| "reduceToolVmLeaseAuthorityState h s (DestructionCompleted a at r vm) =
     destruction_completed h s a at r vm"
| "reduceToolVmLeaseAuthorityState h s (PruneTombstones now) = prune_tombstones s now"

end
