(* ===== verification/LeaseInvariant.thy ===== *)
theory LeaseInvariant
  imports LeaseAuthority
begin

text \<open>
  The well-formedness invariant of the lease authority and its preservation by every command.
\<close>

section \<open>The invariant\<close>

fun use_allowed :: "leaf_kind \<Rightarrow> active_use_kind \<Rightarrow> bool" where
  "use_allowed _ (Terminal _ _) = False"
| "use_allowed Provisioning _ = False"
| "use_allowed (Current _ _) k = (case k of Ambiguous _ _ \<Rightarrow> False | _ \<Rightarrow> True)"
| "use_allowed (Suspect _ _ _) k = (case k of Ambiguous _ _ \<Rightarrow> False | _ \<Rightarrow> True)"
| "use_allowed (Quarantined _ _ _) _ = True"
| "use_allowed _ k = (case k of Ambiguous _ _ \<Rightarrow> True | _ \<Rightarrow> False)"

definition uses_ok :: "leaf \<Rightarrow> bool" where
  "uses_ok l \<longleftrightarrow> js_map_ok (lf_activeUses l) \<and>
     (\<forall>k u. js_get (lf_activeUses l) k = Some u \<longrightarrow> au_useId u = k \<and> use_allowed (lf_kind l) (au_kind u))"

fun admission_kind :: "leaf_kind \<Rightarrow> bool" where
  "admission_kind Provisioning = True"
| "admission_kind (Current _ _) = True"
| "admission_kind (Suspect _ _ _) = True"
| "admission_kind (Quarantined _ _ _) = True"
| "admission_kind _ = False"

definition fencing_kind :: "leaf_kind \<Rightarrow> bool" where
  "fencing_kind k \<longleftrightarrow> is_destroying k \<or> is_owner_unsafe k"

definition serving_kind :: "leaf_kind \<Rightarrow> bool" where
  "serving_kind k \<longleftrightarrow> is_current k \<or> is_suspect k"

definition agent_of :: "leaf \<Rightarrow> string" where
  "agent_of l = pr_agentId (lf_principal l)"

definition maps_ok :: "lease_state \<Rightarrow> bool" where
  "maps_ok s \<longleftrightarrow> js_map_ok (ls_leavesByPrincipal s) \<and> js_map_ok (ls_currentPrincipalKey s) \<and>
     js_map_ok (ls_accessFencing s) \<and> js_map_ok (ls_retiring s) \<and>
     js_map_ok (ls_tombstones s) \<and> js_map_ok (ls_useTombstones s)"

definition leaves_ok :: "(string \<Rightarrow> string) \<Rightarrow> lease_state \<Rightarrow> bool" where
  "leaves_ok h s \<longleftrightarrow> (\<forall>k l. js_get (ls_leavesByPrincipal s) k = Some l \<longrightarrow>
     k = stablePrincipalKey h (lf_principal l) \<and> admission_kind (lf_kind l) \<and> uses_ok l \<and>
     js_get (ls_currentPrincipalKey s) (agent_of l) = Some k \<and>
     js_get (ls_accessFencing s) (lf_leafGeneration l) = None \<and>
     js_get (ls_retiring s) (lf_leafGeneration l) = None \<and>
     js_get (ls_tombstones s) (lf_leafGeneration l) = None)"

definition index_ok :: "lease_state \<Rightarrow> bool" where
  "index_ok s \<longleftrightarrow> (\<forall>a k. js_get (ls_currentPrincipalKey s) a = Some k \<longrightarrow>
     (\<exists>l. js_get (ls_leavesByPrincipal s) k = Some l \<and> agent_of l = a))"

definition generations_unique :: "lease_state \<Rightarrow> bool" where
  "generations_unique s \<longleftrightarrow> (\<forall>k l k' l'. js_get (ls_leavesByPrincipal s) k = Some l \<longrightarrow>
     js_get (ls_leavesByPrincipal s) k' = Some l' \<longrightarrow> lf_leafGeneration l = lf_leafGeneration l' \<longrightarrow> k = k')"

definition fencing_ok :: "lease_state \<Rightarrow> bool" where
  "fencing_ok s \<longleftrightarrow> (\<forall>g l. js_get (ls_accessFencing s) g = Some l \<longrightarrow>
     lf_leafGeneration l = g \<and> fencing_kind (lf_kind l) \<and> uses_ok l \<and>
     js_get (ls_retiring s) g = None \<and> js_get (ls_tombstones s) g = None)"

definition retiring_ok :: "lease_state \<Rightarrow> bool" where
  "retiring_ok s \<longleftrightarrow> (\<forall>g l. js_get (ls_retiring s) g = Some l \<longrightarrow>
     lf_leafGeneration l = g \<and> is_retiring (lf_kind l) \<and> uses_ok l \<and> js_get (ls_tombstones s) g = None)"

definition exclusive_access :: "lease_state \<Rightarrow> bool" where
  "exclusive_access s \<longleftrightarrow> (\<forall>k l g f. js_get (ls_leavesByPrincipal s) k = Some l \<longrightarrow>
     serving_kind (lf_kind l) \<longrightarrow> js_get (ls_accessFencing s) g = Some f \<longrightarrow> agent_of f \<noteq> agent_of l)"

definition parent_ok :: "lease_state \<Rightarrow> bool" where
  "parent_ok s \<longleftrightarrow>
     (case ls_parent s of
        Unregistered \<Rightarrow> ls_leavesByPrincipal s = [] \<and> ls_accessFencing s = [] \<and> ls_retiring s = [] \<and>
          ls_tombstones s = [] \<and> ls_useTombstones s = []
      | Retired _ \<Rightarrow> ls_leavesByPrincipal s = [] \<and> ls_accessFencing s = [] \<and> ls_retiring s = []
      | _ \<Rightarrow> True)"

definition tombstones_ok :: "lease_state \<Rightarrow> bool" where
  "tombstones_ok s \<longleftrightarrow>
     int (js_size (ls_tombstones s)) \<le> rt_maxLeafTombstones (ls_retentionPolicy s) \<and>
     int (js_size (ls_useTombstones s)) \<le> rt_maxTerminalUseTombstones (ls_retentionPolicy s) \<and>
     0 < rt_maxTerminalUseTombstones (ls_retentionPolicy s) \<and>
     (\<forall>g t. js_get (ls_tombstones s) g = Some t \<longrightarrow> lt_leafGeneration t = g)"

definition lease_inv :: "(string \<Rightarrow> string) \<Rightarrow> lease_state \<Rightarrow> bool" where
  "lease_inv h s \<longleftrightarrow> maps_ok s \<and> leaves_ok h s \<and> index_ok s \<and> generations_unique s \<and> fencing_ok s \<and>
     retiring_ok s \<and> exclusive_access s \<and> parent_ok s \<and> tombstones_ok s"

lemmas lease_inv_parts = maps_ok_def leaves_ok_def index_ok_def generations_unique_def fencing_ok_def
  retiring_ok_def exclusive_access_def parent_ok_def tombstones_ok_def

lemma stablePrincipalKey_eq_iff:
  "inj h \<Longrightarrow> stablePrincipalKey h p = stablePrincipalKey h q \<longleftrightarrow> p = q"
  by (simp add: stablePrincipalKey_def deriveGatewayControlStablePrincipal_eq_iff)

text \<open>The invariant, one fact at a time, in the form the proofs below consume.\<close>

lemma leaf_facts:
  assumes "lease_inv h s" and "js_get (ls_leavesByPrincipal s) k = Some l"
  shows "stablePrincipalKey h (lf_principal l) = k" "admission_kind (lf_kind l)" "uses_ok l"
    "js_get (ls_currentPrincipalKey s) (agent_of l) = Some k"
    "js_get (ls_accessFencing s) (lf_leafGeneration l) = None"
    "js_get (ls_retiring s) (lf_leafGeneration l) = None"
    "js_get (ls_tombstones s) (lf_leafGeneration l) = None"
  using assms unfolding lease_inv_def leaves_ok_def by blast+

lemma fencing_facts:
  assumes "lease_inv h s" and "js_get (ls_accessFencing s) g = Some l"
  shows "lf_leafGeneration l = g" "fencing_kind (lf_kind l)" "uses_ok l"
    "js_get (ls_retiring s) g = None" "js_get (ls_tombstones s) g = None"
  using assms unfolding lease_inv_def fencing_ok_def by blast+

lemma retiring_facts:
  assumes "lease_inv h s" and "js_get (ls_retiring s) g = Some l"
  shows "lf_leafGeneration l = g" "is_retiring (lf_kind l)" "uses_ok l" "js_get (ls_tombstones s) g = None"
  using assms unfolding lease_inv_def retiring_ok_def by blast+

lemma agent_leaf_unique:
  assumes "lease_inv h s" and "js_get (ls_leavesByPrincipal s) k = Some l"
    and "js_get (ls_leavesByPrincipal s) k' = Some l'" and "agent_of l' = agent_of l"
  shows "k' = k \<and> l' = l"
  using leaf_facts(4) [OF assms(1,2)] leaf_facts(4) [OF assms(1,3)] assms(2,3,4) by simp

lemma index_leaf:
  assumes "lease_inv h s" and "js_get (ls_currentPrincipalKey s) a = Some k"
  obtains l where "js_get (ls_leavesByPrincipal s) k = Some l" and "agent_of l = a"
  using assms unfolding lease_inv_def index_ok_def by blast

lemma exclusive_accessD:
  assumes "lease_inv h s" and "js_get (ls_leavesByPrincipal s) k = Some l" and "serving_kind (lf_kind l)"
    and "js_get (ls_accessFencing s) g = Some f"
  shows "agent_of f \<noteq> agent_of l"
  using assms unfolding lease_inv_def exclusive_access_def by blast

lemma leaf_parent_live:
  assumes "lease_inv h s"
    and "js_get (ls_leavesByPrincipal s) k = Some l \<or> js_get (ls_accessFencing s) k = Some l \<or>
      js_get (ls_retiring s) k = Some l"
  shows "ls_parent s \<noteq> Unregistered" "ls_parent s \<noteq> Retired g"
  using assms by (auto simp: lease_inv_def parent_ok_def)

lemma kind_disjoint:
  "admission_kind k \<Longrightarrow> \<not> is_destroying k \<and> \<not> is_owner_unsafe k \<and> \<not> is_retiring k"
  "is_retiring k \<Longrightarrow> \<not> fencing_kind k"
  by (cases k; simp add: fencing_kind_def)+

section \<open>Putting a leaf back keeps the invariant\<close>

text \<open>The commands rewrite a live leaf without changing what identifies it.\<close>

definition same_leaf :: "leaf \<Rightarrow> leaf \<Rightarrow> bool" where
  "same_leaf l l' \<longleftrightarrow> lf_principal l' = lf_principal l \<and> lf_leafGeneration l' = lf_leafGeneration l \<and>
     lf_leaseId l' = lf_leaseId l"

lemma put_leaf_inv:
  assumes inv: "lease_inv h s"
    and old: "js_get (ls_leavesByPrincipal s) key = Some l"
    and same: "same_leaf l l'" and kind: "admission_kind (lf_kind l')" and uses: "uses_ok l'"
    and serving: "serving_kind (lf_kind l') \<Longrightarrow> serving_kind (lf_kind l) \<or>
      (\<forall>g f. js_get (ls_accessFencing s) g = Some f \<longrightarrow> agent_of f \<noteq> agent_of l)"
  shows "lease_inv h (s\<lparr>ls_leavesByPrincipal := js_set key l' (ls_leavesByPrincipal s),
     ls_currentPrincipalKey := js_set (agent_of l') key (ls_currentPrincipalKey s)\<rparr>)"
    (is "lease_inv h ?s'")
proof -
  have agent: "agent_of l' = agent_of l" and gen: "lf_leafGeneration l' = lf_leafGeneration l"
    and pr: "lf_principal l' = lf_principal l"
    using same by (simp_all add: same_leaf_def agent_of_def)
  note facts = leaf_facts [OF inv]
  note old_facts = facts [OF old]
  have index: "js_get (ls_currentPrincipalKey ?s') a = js_get (ls_currentPrincipalKey s) a" for a
    using old_facts(4) agent by (simp add: js_get_set)
  have leaves: "js_get (ls_leavesByPrincipal ?s') k = (if k = key then Some l' else js_get (ls_leavesByPrincipal s) k)" for k
    by (simp add: js_get_set)
  have "leaves_ok h ?s'"
    unfolding leaves_ok_def index leaves using facts old_facts kind uses agent gen pr
    by (auto split: if_splits)
  moreover have "index_ok ?s'"
    unfolding index_ok_def index leaves by (metis index_leaf [OF inv] agent old option.inject)
  moreover have "generations_unique ?s'"
    using inv old gen unfolding generations_unique_def leaves lease_inv_def
    by (metis option.inject)
  moreover have "exclusive_access ?s'"
    using exclusive_accessD [OF inv] old serving agent unfolding exclusive_access_def leaves
    by (auto split: if_splits)
  moreover have "parent_ok ?s'"
    using leaf_parent_live [OF inv, of key l] old by (auto simp: parent_ok_def split: parent_state.split)
  ultimately show ?thesis using inv
    by (simp add: lease_inv_def maps_ok_def fencing_ok_def retiring_ok_def tombstones_ok_def)
qed

lemma removesCurrentLeaf_frame [simp]:
  "removesCurrentLeaf h (s\<lparr>ls_accessFencing := m\<rparr>) l = removesCurrentLeaf h s l"
  by (simp add: removesCurrentLeaf_def)

lemma withdraw_current:
  assumes inv: "lease_inv h s"
    and old: "js_get (ls_leavesByPrincipal s) key = Some l"
    and same: "same_leaf l l'"
  shows "withdraw_leaf h l' s =
    s\<lparr>ls_leavesByPrincipal := js_delete key (ls_leavesByPrincipal s),
      ls_currentPrincipalKey := js_delete (agent_of l) (ls_currentPrincipalKey s)\<rparr>"
  using leaf_facts(1,4) [OF inv old] old same
  by (simp add: withdraw_leaf_def removesCurrentLeaf_def same_leaf_def agent_of_def)

lemma withdraw_other:
  assumes "\<And>l'. js_get (ls_leavesByPrincipal s) (stablePrincipalKey h (lf_principal l)) = Some l' \<Longrightarrow>
    lf_leafGeneration l' \<noteq> lf_leafGeneration l"
  shows "withdraw_leaf h l s = s"
  using assms by (cases "js_get (ls_leavesByPrincipal s) (stablePrincipalKey h (lf_principal l))")
    (auto simp: withdraw_leaf_def removesCurrentLeaf_def)

text \<open>Removing a current-admission leaf keeps everything about the others.\<close>

lemma remove_leaf_inv:
  assumes inv: "lease_inv h s"
    and old: "js_get (ls_leavesByPrincipal s) key = Some l"
  shows "lease_inv h (s\<lparr>ls_leavesByPrincipal := js_delete key (ls_leavesByPrincipal s),
      ls_currentPrincipalKey := js_delete (agent_of l) (ls_currentPrincipalKey s)\<rparr>)"
    (is "lease_inv h ?s'")
proof -
  note facts = leaf_facts [OF inv]
  have other: "agent_of l' \<noteq> agent_of l" if "js_get (ls_leavesByPrincipal s) k = Some l'" "k \<noteq> key" for k l'
    using agent_leaf_unique [OF inv old that(1)] that(2) by blast
  have "leaves_ok h ?s'"
    using facts other by (auto simp: leaves_ok_def js_get_delete)
  moreover have "index_ok ?s'"
    using inv facts(4) [OF old] other old by (fastforce simp: index_ok_def js_get_delete lease_inv_def)
  moreover have "parent_ok ?s'"
    using leaf_parent_live [OF inv, of key l] old by (auto simp: parent_ok_def split: parent_state.split)
  ultimately show ?thesis using inv
    by (auto simp: lease_inv_def maps_ok_def generations_unique_def fencing_ok_def retiring_ok_def
        exclusive_access_def tombstones_ok_def js_get_delete)
qed

text \<open>
  A leaf whose generation is not in use anywhere may enter access fencing when its agent has
  no serving leaf, retiring, or the tombstones.
\<close>

definition generation_free :: "lease_state \<Rightarrow> string \<Rightarrow> bool" where
  "generation_free s g \<longleftrightarrow>
     (\<forall>k l. js_get (ls_leavesByPrincipal s) k = Some l \<longrightarrow> lf_leafGeneration l \<noteq> g) \<and>
     js_get (ls_retiring s) g = None \<and> js_get (ls_tombstones s) g = None"

definition parent_live :: "lease_state \<Rightarrow> bool" where
  "parent_live s \<longleftrightarrow> ls_parent s \<noteq> Unregistered \<and> (\<forall>g. ls_parent s \<noteq> Retired g)"

lemma fence_leaf_inv:
  assumes inv: "lease_inv h s" and live: "parent_live s" and free: "generation_free s (lf_leafGeneration l)"
    and kind: "fencing_kind (lf_kind l)" and uses: "uses_ok l"
    and unserved: "\<And>k l'. js_get (ls_leavesByPrincipal s) k = Some l' \<Longrightarrow> serving_kind (lf_kind l') \<Longrightarrow>
      agent_of l' \<noteq> agent_of l"
  shows "lease_inv h (s\<lparr>ls_accessFencing := js_set (lf_leafGeneration l) l (ls_accessFencing s)\<rparr>)"
  using inv live free kind uses unfolding lease_inv_def
  apply (intro conjI)
  subgoal by (simp add: maps_ok_def)
  subgoal by (auto simp: leaves_ok_def js_get_set generation_free_def)
  subgoal by (auto simp: index_ok_def)
  subgoal by (auto simp: generations_unique_def)
  subgoal by (auto simp: fencing_ok_def js_get_set generation_free_def)
  subgoal by (auto simp: retiring_ok_def)
  subgoal using unserved [THEN not_sym] by (auto simp: exclusive_access_def js_get_set split: if_splits)
  subgoal by (auto simp: parent_ok_def parent_live_def split: parent_state.splits)
  subgoal by (simp add: tombstones_ok_def)
  done

text \<open>
  A leaf that was current-admission moves into access fencing: the first step of destroying it.
\<close>

lemma begin_fencing_inv:
  assumes inv: "lease_inv h s" and old: "js_get (ls_leavesByPrincipal s) key = Some l"
    and same: "same_leaf l l'" and kind: "fencing_kind (lf_kind l')" and uses: "uses_ok l'"
  shows "lease_inv h (withdraw_leaf h l'
    (s\<lparr>ls_accessFencing := js_set (lf_leafGeneration l') l' (ls_accessFencing s)\<rparr>))"
proof -
  let ?r = "s\<lparr>ls_leavesByPrincipal := js_delete key (ls_leavesByPrincipal s),
      ls_currentPrincipalKey := js_delete (agent_of l) (ls_currentPrincipalKey s)\<rparr>"
  have gen: "lf_leafGeneration l' = lf_leafGeneration l" and agent: "agent_of l' = agent_of l"
    using same by (simp_all add: same_leaf_def agent_of_def)
  have r: "lease_inv h ?r" using inv old by (rule remove_leaf_inv)
  have "lf_leafGeneration m \<noteq> lf_leafGeneration l" if "js_get (ls_leavesByPrincipal ?r) k = Some m" for k m
    using inv old that by (auto simp: lease_inv_def generations_unique_def js_get_delete split: if_splits)
  then have free: "generation_free ?r (lf_leafGeneration l')"
    using leaf_facts [OF inv old] gen by (auto simp: generation_free_def)
  have "agent_of m \<noteq> agent_of l'" if "js_get (ls_leavesByPrincipal ?r) k = Some m" for k m
    using agent_leaf_unique [OF inv old, of k m] that agent by (auto simp: js_get_delete split: if_splits)
  then have "lease_inv h (?r\<lparr>ls_accessFencing := js_set (lf_leafGeneration l') l' (ls_accessFencing ?r)\<rparr>)"
    using leaf_parent_live [OF inv, of key l] old
    by (intro fence_leaf_inv [OF r _ free kind uses]) (auto simp: parent_live_def)
  moreover have "withdraw_leaf h l' (s\<lparr>ls_accessFencing := m\<rparr>) = ?r\<lparr>ls_accessFencing := m\<rparr>" for m
  proof -
    have "withdraw_leaf h l' (s\<lparr>ls_accessFencing := m\<rparr>) = (withdraw_leaf h l' s)\<lparr>ls_accessFencing := m\<rparr>"
      by (cases "removesCurrentLeaf h s l'") (simp_all add: withdraw_leaf_def Let_def)
    then show ?thesis by (simp add: withdraw_current [OF inv old same])
  qed
  ultimately show ?thesis by simp
qed

lemma unfence_inv:
  assumes "lease_inv h s"
  shows "lease_inv h (s\<lparr>ls_accessFencing := js_delete g (ls_accessFencing s)\<rparr>)"
  using assms unfolding lease_inv_def
  by (auto simp: lease_inv_parts js_get_delete split: parent_state.splits)

lemma unretire_inv:
  assumes "lease_inv h s"
  shows "lease_inv h (s\<lparr>ls_retiring := js_delete g (ls_retiring s)\<rparr>)"
  using assms unfolding lease_inv_def
  by (auto simp: lease_inv_parts js_get_delete split: parent_state.splits)

lemma retire_leaf_inv:
  assumes inv: "lease_inv h s" and live: "parent_live s"
    and free: "generation_free s (lf_leafGeneration l) \<or> js_get (ls_retiring s) (lf_leafGeneration l) \<noteq> None"
    and unfenced: "js_get (ls_accessFencing s) (lf_leafGeneration l) = None"
    and kind: "is_retiring (lf_kind l)" and uses: "uses_ok l"
  shows "lease_inv h (s\<lparr>ls_retiring := js_set (lf_leafGeneration l) l (ls_retiring s)\<rparr>)"
proof -
  let ?s' = "s\<lparr>ls_retiring := js_set (lf_leafGeneration l) l (ls_retiring s)\<rparr>"
  have unused: "lf_leafGeneration m \<noteq> lf_leafGeneration l" if "js_get (ls_leavesByPrincipal s) k = Some m" for k m
    using free leaf_facts(6) [OF inv that] that by (auto simp: generation_free_def)
  have untombed: "js_get (ls_tombstones s) (lf_leafGeneration l) = None"
    using free retiring_facts(4) [OF inv] by (auto simp: generation_free_def)
  have "leaves_ok h ?s'"
    using leaf_facts [OF inv] unused unfolding leaves_ok_def by (auto simp: js_get_set)
  moreover have "fencing_ok ?s'"
    using fencing_facts [OF inv] unfenced unfolding fencing_ok_def by (auto simp: js_get_set)
  moreover have "retiring_ok ?s'"
    using retiring_facts [OF inv] kind uses untombed unfolding retiring_ok_def by (auto simp: js_get_set)
  moreover have "parent_ok ?s'"
    using live by (auto simp: parent_ok_def parent_live_def split: parent_state.split)
  ultimately show ?thesis using inv
    by (simp add: lease_inv_def maps_ok_def index_ok_def generations_unique_def exclusive_access_def
        tombstones_ok_def)
qed

text \<open>
  What the commands use: a live leaf rewritten in place, with the uses its kind allows, may be
  put back.
\<close>

lemma live_leaf_cases:
  assumes inv: "lease_inv h s" and live: "requireLiveLeaf h s a = Inr l"
  obtains (fencing) "js_get (ls_accessFencing s) (lf_leafGeneration l) = Some l" "fencing_kind (lf_kind l)"
      "js_get (ls_retiring s) (lf_leafGeneration l) = None"
    | (retiring) "js_get (ls_retiring s) (lf_leafGeneration l) = Some l" "is_retiring (lf_kind l)"
      "js_get (ls_accessFencing s) (lf_leafGeneration l) = None"
    | (admitted) "js_get (ls_leavesByPrincipal s) (stablePrincipalKey h (lf_principal l)) = Some l"
      "admission_kind (lf_kind l)" "js_get (ls_accessFencing s) (lf_leafGeneration l) = None"
      "js_get (ls_retiring s) (lf_leafGeneration l) = None"
  using live
proof (cases rule: requireLiveLeaf_cases)
  case fencing
  with that(1) fencing_facts [OF inv fencing] show ?thesis by auto
next
  case retiring
  with that(2) retiring_facts [OF inv retiring(2)] show ?thesis by auto
next
  case current
  with that(3) leaf_facts [OF inv current(3)] show ?thesis by auto
qed

lemma live_leaf_uses_ok:
  assumes "lease_inv h s" and "requireLiveLeaf h s a = Inr l"
  shows "uses_ok l"
  by (rule live_leaf_cases [OF assms])
     (use fencing_facts(3) retiring_facts(3) leaf_facts(3) assms(1) in blast)+

lemma live_leaf_parent_live:
  assumes "lease_inv h s" and "requireLiveLeaf h s a = Inr l"
  shows "parent_live s"
  unfolding parent_live_def
  by (rule live_leaf_cases [OF assms]) (use leaf_parent_live [OF assms(1)] in blast)+

lemma live_principal:
  assumes h: "inj h" and inv: "lease_inv h s" and live: "requireLiveLeaf h s a = Inr l"
  shows "lf_principal l = la_principal a"
proof -
  have "stablePrincipalKey h (lf_principal l) = stablePrincipalKey h (la_principal a)"
    using live leaf_facts(1) [OF inv]
    by (auto simp: requireLiveLeaf_def result_simps lease_guard_simps split: option.splits if_splits)
  then show ?thesis using h by (simp add: stablePrincipalKey_eq_iff)
qed

lemma replaceLeaf_live_inv:
  assumes inv: "lease_inv h s" and live: "requireLiveLeaf h s a = Inr l" and same: "same_leaf l l'"
    and uses: "uses_ok l'"
    and serving: "serving_kind (lf_kind l') \<Longrightarrow> serving_kind (lf_kind l) \<or>
      (\<forall>g f. js_get (ls_accessFencing s) g = Some f \<longrightarrow> agent_of f \<noteq> agent_of l)"
    and retire: "is_retiring (lf_kind l') \<Longrightarrow> is_retiring (lf_kind l)"
    and put: "replaceLeaf h s l' = Inr s'"
  shows "lease_inv h s'"
proof -
  have gen: "lf_leafGeneration l' = lf_leafGeneration l" and pr: "lf_principal l' = lf_principal l"
    and agent: "agent_of l' = agent_of l"
    using same by (simp_all add: same_leaf_def agent_of_def)
  have parent: "parent_live s" using inv live by (rule live_leaf_parent_live)
  show ?thesis
    using inv live
  proof (cases rule: live_leaf_cases)
    case fencing
    have unused: "lf_leafGeneration m \<noteq> lf_leafGeneration l" if "js_get (ls_leavesByPrincipal s) k = Some m" for k m
      using leaf_facts(5) [OF inv that] fencing(1) by auto
    then have "withdraw_leaf h l' (s\<lparr>ls_accessFencing := m\<rparr>) = s\<lparr>ls_accessFencing := m\<rparr>" for m
      using gen by (intro withdraw_other) auto
    moreover have "\<not> is_retiring (lf_kind l')"
      using retire kind_disjoint(2) fencing(2) by blast
    moreover from this fencing put gen have "fencing_kind (lf_kind l')"
      by (auto simp: replaceLeaf_def fencing_kind_def js_has_def split: if_splits)
    ultimately have s': "s' = s\<lparr>ls_accessFencing := js_set (lf_leafGeneration l') l' (ls_accessFencing s)\<rparr>"
      and kind: "fencing_kind (lf_kind l')"
      using put fencing(3) gen by (auto simp: replaceLeaf_def fencing_kind_def js_has_def split: if_splits)
    have "generation_free s (lf_leafGeneration l')"
      using unused gen fencing_facts [OF inv fencing(1)] by (auto simp: generation_free_def)
    moreover have "agent_of m \<noteq> agent_of l'"
      if "js_get (ls_leavesByPrincipal s) k = Some m" "serving_kind (lf_kind m)" for k m
      using exclusive_accessD [OF inv that fencing(1)] agent by auto
    ultimately show ?thesis unfolding s' using inv parent kind uses by (intro fence_leaf_inv)
  next
    case retiring
    then have kind: "is_retiring (lf_kind l')"
      and s': "s' = s\<lparr>ls_retiring := js_set (lf_leafGeneration l') l' (ls_retiring s)\<rparr>"
      using put gen by (auto simp: replaceLeaf_def js_has_def split: if_splits)
    show ?thesis unfolding s' using inv parent retiring gen kind uses
      by (intro retire_leaf_inv) auto
  next
    case admitted
    consider (fence) "fencing_kind (lf_kind l')" "\<not> is_retiring (lf_kind l')"
      | (stay) "admission_kind (lf_kind l')"
      using retire admitted(2) kind_disjoint(1) by (cases "lf_kind l'") (auto simp: fencing_kind_def)
    then show ?thesis
    proof cases
      case fence
      with put admitted gen have "s' = withdraw_leaf h l'
          (s\<lparr>ls_accessFencing := js_set (lf_leafGeneration l') l' (ls_accessFencing s)\<rparr>)"
        by (auto simp: replaceLeaf_def js_has_def fencing_kind_def split: if_splits)
      then show ?thesis using begin_fencing_inv [OF inv admitted(1) same fence(1) uses] by simp
    next
      case stay
      with put admitted gen pr have "s' = s\<lparr>ls_leavesByPrincipal :=
            js_set (stablePrincipalKey h (lf_principal l)) l' (ls_leavesByPrincipal s),
          ls_currentPrincipalKey := js_set (agent_of l') (stablePrincipalKey h (lf_principal l)) (ls_currentPrincipalKey s)\<rparr>"
        using kind_disjoint(1) [OF stay] by (auto simp: replaceLeaf_def js_has_def agent_of_def Let_def)
      then show ?thesis using put_leaf_inv [OF inv admitted(1) same stay uses serving] by simp
    qed
  qed
qed

section \<open>Every command keeps the invariant\<close>

lemma same_leaf_updates [simp]:
  "same_leaf l l"
  "same_leaf l (l\<lparr>lf_kind := k\<rparr>)"
  "same_leaf l (l\<lparr>lf_activeUses := u\<rparr>)"
  "same_leaf l (l\<lparr>lf_idleExpiresAtMs := e\<rparr>)"
  "same_leaf l (l\<lparr>lf_activeUses := u, lf_kind := k\<rparr>)"
  "same_leaf l (quarantineLeafForAmbiguousUse l u)"
  by (simp_all add: same_leaf_def)

lemma serving_kind_simps [simp]:
  "serving_kind (Current rb sb)" "serving_kind (Suspect rb sb sr)"
  "\<not> serving_kind Provisioning" "\<not> serving_kind (Quarantined orb osb qr)"
  "\<not> serving_kind (Destroying orb osb r)" "\<not> serving_kind (Retiring orb osb r c)"
  "\<not> serving_kind (OwnerUnsafe orb osb r)"
  by (simp_all add: serving_kind_def)

lemma quarantined_not_serving [simp]: "is_quarantined k \<Longrightarrow> \<not> serving_kind k"
  by (cases k) simp_all

lemma uses_ok_set:
  assumes "uses_ok l" and "au_useId u = k" and "use_allowed (lf_kind l) (au_kind u)"
  shows "uses_ok (l\<lparr>lf_activeUses := js_set k u (lf_activeUses l)\<rparr>)"
  using assms by (auto simp: uses_ok_def js_get_set)

lemma uses_ok_delete: "uses_ok l \<Longrightarrow> uses_ok (l\<lparr>lf_activeUses := js_delete k (lf_activeUses l)\<rparr>)"
  by (auto simp: uses_ok_def js_get_delete split: if_splits)

lemma uses_ok_rewrite:
  assumes "uses_ok l"
    and "\<And>u. use_allowed (lf_kind l) (au_kind u) \<Longrightarrow> au_useId (f u) = au_useId u \<and> use_allowed k (au_kind (f u))"
  shows "uses_ok (l\<lparr>lf_activeUses := rewrite_uses f (lf_activeUses l), lf_kind := k\<rparr>)"
  using assms by (auto simp: uses_ok_def rewrite_uses_def js_get_map_values)

lemma uses_ok_weaken:
  assumes "uses_ok l" and "\<And>u. use_allowed (lf_kind l) u \<Longrightarrow> use_allowed k u"
  shows "uses_ok (l\<lparr>lf_kind := k\<rparr>)"
  using assms by (auto simp: uses_ok_def)

lemma uses_ok_other [simp]: "uses_ok (l\<lparr>lf_idleExpiresAtMs := e\<rparr>) = uses_ok l"
  by (simp add: uses_ok_def)

lemma use_allowed_quarantined: "use_allowed k u \<Longrightarrow> use_allowed (Quarantined rb sb r) u"
  by (cases u; cases k) simp_all

text \<open>Successful branches of the case distinctions on a leaf's and a use's kind.\<close>

lemma kind_case_Inr [lease_guard_simps]:
  "(case k of Current rb sb \<Rightarrow> f rb sb | _ \<Rightarrow> Inl e) = Inr y \<longleftrightarrow>
     (\<exists>rb sb. k = Current rb sb \<and> f rb sb = Inr y)"
  "(case k of Suspect rb sb r \<Rightarrow> g rb sb r | _ \<Rightarrow> Inl e) = Inr y \<longleftrightarrow>
     (\<exists>rb sb r. k = Suspect rb sb r \<and> g rb sb r = Inr y)"
  "(case k of OwnerUnsafe orb osb m \<Rightarrow> i orb osb m | _ \<Rightarrow> Inl e) = Inr y \<longleftrightarrow>
     (\<exists>orb osb m. k = OwnerUnsafe orb osb m \<and> i orb osb m = Inr y)"
  "(case k of Retiring orb osb m c \<Rightarrow> j orb osb m c | Destroying orb osb m \<Rightarrow> i orb osb m | _ \<Rightarrow> Inl e) = Inr y \<longleftrightarrow>
     (\<exists>orb osb m c. k = Retiring orb osb m c \<and> j orb osb m c = Inr y) \<or>
     (\<exists>orb osb m. k = Destroying orb osb m \<and> i orb osb m = Inr y)"
  by (cases k; simp)+

lemma use_kind_case_Inr [lease_guard_simps]:
  "(case u of Running t g \<Rightarrow> f t g | _ \<Rightarrow> Inl e) = Inr y \<longleftrightarrow> (\<exists>t g. u = Running t g \<and> f t g = Inr y)"
  "(case u of ObservationGap t o' d g \<Rightarrow> i t o' d g | _ \<Rightarrow> Inl e) = Inr y \<longleftrightarrow>
     (\<exists>t o' d g. u = ObservationGap t o' d g \<and> i t o' d g = Inr y)"
  by (cases u; simp)+

lemma option_case_Inr [lease_guard_simps]:
  "(case x of None \<Rightarrow> Inl e | Some v \<Rightarrow> f v) = Inr y \<longleftrightarrow> (\<exists>v. x = Some v \<and> f v = Inr y)"
  "(case x of None \<Rightarrow> m | Some v \<Rightarrow> if b v then Inl e else Inl e') = Inr y \<longleftrightarrow> x = None \<and> m = Inr y"
  "(if c then (if c' then Inl e else Inl e') else m) = Inr y \<longleftrightarrow> \<not> c \<and> m = Inr y"
  by (cases x; simp)+

lemmas step_defs = result_simps lease_guard_simps

text \<open>The parts of the invariant do not read the parent state or the use tombstones.\<close>

lemma inv_parts_frame [simp]:
  "maps_ok (s\<lparr>ls_parent := p\<rparr>) = maps_ok s"
  "leaves_ok h (s\<lparr>ls_parent := p\<rparr>) = leaves_ok h s" "leaves_ok h (s\<lparr>ls_useTombstones := t\<rparr>) = leaves_ok h s"
  "index_ok (s\<lparr>ls_parent := p\<rparr>) = index_ok s" "index_ok (s\<lparr>ls_useTombstones := t\<rparr>) = index_ok s"
  "generations_unique (s\<lparr>ls_parent := p\<rparr>) = generations_unique s"
  "generations_unique (s\<lparr>ls_useTombstones := t\<rparr>) = generations_unique s"
  "fencing_ok (s\<lparr>ls_parent := p\<rparr>) = fencing_ok s" "fencing_ok (s\<lparr>ls_useTombstones := t\<rparr>) = fencing_ok s"
  "retiring_ok (s\<lparr>ls_parent := p\<rparr>) = retiring_ok s" "retiring_ok (s\<lparr>ls_useTombstones := t\<rparr>) = retiring_ok s"
  "exclusive_access (s\<lparr>ls_parent := p\<rparr>) = exclusive_access s"
  "exclusive_access (s\<lparr>ls_useTombstones := t\<rparr>) = exclusive_access s"
  "tombstones_ok (s\<lparr>ls_parent := p\<rparr>) = tombstones_ok s"
  by (simp_all add: lease_inv_parts)

lemma parent_change_inv:
  "lease_inv h s \<Longrightarrow> parent_ok (s\<lparr>ls_parent := p\<rparr>) \<Longrightarrow> lease_inv h (s\<lparr>ls_parent := p\<rparr>)"
  by (simp add: lease_inv_def)

lemma use_tombstones_inv:
  assumes "lease_inv h s" and "js_map_ok t" and "parent_live s"
    and "int (js_size t) \<le> rt_maxTerminalUseTombstones (ls_retentionPolicy s)"
  shows "lease_inv h (s\<lparr>ls_useTombstones := t\<rparr>)"
  using assms by (auto simp: lease_inv_def maps_ok_def tombstones_ok_def parent_ok_def parent_live_def
      split: parent_state.splits)

lemma register_parent_inv:
  "lease_inv h s \<Longrightarrow> register_parent s gw = Inr s' \<Longrightarrow> lease_inv h s'"
  by (auto simp: register_parent_def parent_ok_def intro!: parent_change_inv split: if_splits)

lemma seal_parent_inv:
  "lease_inv h s \<Longrightarrow> seal_parent s gw = Inr s' \<Longrightarrow> lease_inv h s'"
  by (auto simp: seal_parent_def step_defs parent_ok_def intro!: parent_change_inv split: parent_state.splits)

lemma retire_parent_inv:
  "lease_inv h s \<Longrightarrow> retire_parent s gw = Inr s' \<Longrightarrow> lease_inv h s'"
  by (auto simp: retire_parent_def step_defs parent_ok_def intro!: parent_change_inv
      split: parent_state.splits if_splits)

lemma commit_current_inv:
  assumes h: "inj h" and inv: "lease_inv h s" and step: "commit_current h s a rb sb = Inr s'"
  shows "lease_inv h s'"
proof -
  from step obtain l where live: "requireLiveLeaf h s a = Inr l" and prov: "lf_kind l = Provisioning"
    and fenced: "\<forall>p \<in> set (js_values (ls_accessFencing s)). pr_agentId (lf_principal p) \<noteq> pr_agentId (la_principal a)"
    and put: "replaceLeaf h s (l\<lparr>lf_kind := Current rb sb\<rparr>) = Inr s'"
    by (auto simp: commit_current_def step_defs split: if_splits)
  have "uses_ok (l\<lparr>lf_kind := Current rb sb\<rparr>)"
    using live_leaf_uses_ok [OF inv live] prov by (intro uses_ok_weaken) (auto elim: use_allowed.elims)
  moreover have "agent_of f \<noteq> agent_of l" if "js_get (ls_accessFencing s) g = Some f" for g f
  proof -
    have "lf_principal l = la_principal a"
      using h inv live by (rule live_principal)
    then show ?thesis using fenced that inv
      by (auto simp: agent_of_def lease_inv_def maps_ok_def js_value_iff)
  qed
  ultimately show ?thesis
    using put prov by (intro replaceLeaf_live_inv [OF inv live same_leaf_updates(2)]) auto
qed

lemma insert_leaf_inv:
  assumes h: "inj h" and inv: "lease_inv h s" and live: "parent_live s"
    and absent: "js_get (ls_currentPrincipalKey s) (agent_of l) = None"
    and free: "generation_free s (lf_leafGeneration l)"
    and unfenced: "js_get (ls_accessFencing s) (lf_leafGeneration l) = None"
    and kind: "lf_kind l = Provisioning" and uses: "uses_ok l"
    and key: "key = stablePrincipalKey h (lf_principal l)"
  shows "lease_inv h (s\<lparr>ls_leavesByPrincipal := js_set key l (ls_leavesByPrincipal s),
     ls_currentPrincipalKey := js_set (agent_of l) key (ls_currentPrincipalKey s)\<rparr>)"
    (is "lease_inv h ?s'")
proof -
  note facts = leaf_facts [OF inv]
  have fresh: "js_get (ls_leavesByPrincipal s) key = None"
  proof (rule ccontr)
    assume "js_get (ls_leavesByPrincipal s) key \<noteq> None"
    then obtain m where m: "js_get (ls_leavesByPrincipal s) key = Some m" by blast
    then have "lf_principal m = lf_principal l" using facts(1) key h by (metis stablePrincipalKey_eq_iff)
    then show False using facts(4) [OF m] absent by (simp add: agent_of_def)
  qed
  have unused: "lf_leafGeneration m \<noteq> lf_leafGeneration l" if "js_get (ls_leavesByPrincipal s) k = Some m" for k m
    using free that by (auto simp: generation_free_def)
  have others: "agent_of m \<noteq> agent_of l" if "js_get (ls_leavesByPrincipal s) k = Some m" for k m
    using facts(4) [OF that] absent by auto
  have "leaves_ok h ?s'"
    using facts others free unfenced kind uses key by (auto simp: leaves_ok_def js_get_set generation_free_def)
  moreover have "index_ok ?s'"
    unfolding index_ok_def using fresh by (auto simp: js_get_set elim: index_leaf [OF inv])
  moreover have "generations_unique ?s'"
    using inv unused by (fastforce simp: generations_unique_def lease_inv_def js_get_set)
  moreover have "exclusive_access ?s'"
    using inv kind by (auto simp: exclusive_access_def lease_inv_def js_get_set)
  moreover have "parent_ok ?s'"
    using live by (auto simp: parent_ok_def parent_live_def split: parent_state.split)
  ultimately show ?thesis using inv
    by (simp add: lease_inv_def maps_ok_def fencing_ok_def retiring_ok_def tombstones_ok_def)
qed

definition provisional_leaf :: "leaf_authority \<Rightarrow> lease_compatibility \<Rightarrow> millis \<Rightarrow> leaf" where
  "provisional_leaf a c idle =
     \<lparr>lf_activeUses = [], lf_compatibility = c, lf_leaseId = la_leaseId a,
      lf_leafGeneration = la_leafGeneration a, lf_idleExpiresAtMs = idle,
      lf_principal = la_principal a, lf_kind = Provisioning\<rparr>"

lemma provisional_leaf_fields [simp]:
  "lf_activeUses (provisional_leaf a c idle) = []" "lf_kind (provisional_leaf a c idle) = Provisioning"
  "lf_leafGeneration (provisional_leaf a c idle) = la_leafGeneration a"
  "lf_principal (provisional_leaf a c idle) = la_principal a"
  by (simp_all add: provisional_leaf_def)

lemma begin_provisioning_inv:
  assumes h: "inj h" and inv: "lease_inv h s" and step: "begin_provisioning h s a c idle = Inr s'"
  shows "lease_inv h s'"
proof -
  let ?l = "provisional_leaf a c idle" and ?key = "stablePrincipalKey h (la_principal a)"
  from step have parent: "ls_parent s = Registered (la_gateway a)"
    and absent: "\<not> js_has (ls_currentPrincipalKey s) (pr_agentId (la_principal a))"
    and unused: "\<not> js_has (ls_tombstones s) (la_leafGeneration a)"
      "\<not> js_has (ls_accessFencing s) (la_leafGeneration a)" "\<not> js_has (ls_retiring s) (la_leafGeneration a)"
      "\<forall>l \<in> set (js_values (ls_leavesByPrincipal s)). lf_leafGeneration l \<noteq> la_leafGeneration a"
    and put: "replaceLeaf h s ?l = Inr s'"
    by (auto simp: begin_provisioning_def step_defs provisional_leaf_def split: if_splits)
  have s': "s' = s\<lparr>ls_leavesByPrincipal := js_set ?key ?l (ls_leavesByPrincipal s),
     ls_currentPrincipalKey := js_set (agent_of ?l) ?key (ls_currentPrincipalKey s)\<rparr>"
    using put unused by (simp add: replaceLeaf_def Let_def agent_of_def)
  have "generation_free s (la_leafGeneration a)"
    using unused inv by (auto simp: generation_free_def js_has_def lease_inv_def maps_ok_def js_value_iff)
  then show ?thesis unfolding s' using parent absent unused
    by (intro insert_leaf_inv [OF h inv]) (simp_all add: parent_live_def agent_of_def js_has_def uses_ok_def)
qed

text \<open>The commands that rewrite one live leaf: the leaf put back is the same leaf.\<close>

lemma renew_idle_expiry_inv:
  assumes inv: "lease_inv h s" and step: "renew_idle_expiry h s a n now = Inr s'"
  shows "lease_inv h s'"
proof -
  from step obtain l where live: "requireLiveLeaf h s a = Inr l"
    and put: "replaceLeaf h s (l\<lparr>lf_idleExpiresAtMs := n\<rparr>) = Inr s'"
    by (auto simp: renew_idle_expiry_def step_defs)
  show ?thesis using live_leaf_uses_ok [OF inv live]
    by (intro replaceLeaf_live_inv [OF inv live _ _ _ _ put]) simp_all
qed

lemma mark_suspect_inv:
  assumes inv: "lease_inv h s" and step: "mark_suspect h s a r = Inr s'"
  shows "lease_inv h s'"
proof -
  from step obtain l rb sb where live: "requireLiveLeaf h s a = Inr l" and kind: "lf_kind l = Current rb sb"
    and put: "replaceLeaf h s (l\<lparr>lf_kind := Suspect rb sb r\<rparr>) = Inr s'"
    by (auto simp: mark_suspect_def step_defs)
  have "uses_ok (l\<lparr>lf_kind := Suspect rb sb r\<rparr>)"
    using live_leaf_uses_ok [OF inv live] by (rule uses_ok_weaken) (auto simp: kind elim: use_allowed.elims)
  then show ?thesis using kind
    by (intro replaceLeaf_live_inv [OF inv live _ _ _ _ put]) simp_all
qed

lemma restore_current_inv:
  assumes inv: "lease_inv h s" and step: "restore_current h s a = Inr s'"
  shows "lease_inv h s'"
proof -
  from step obtain l rb sb r where live: "requireLiveLeaf h s a = Inr l" and kind: "lf_kind l = Suspect rb sb r"
    and put: "replaceLeaf h s (l\<lparr>lf_kind := Current rb sb\<rparr>) = Inr s'"
    by (auto simp: restore_current_def step_defs)
  have "uses_ok (l\<lparr>lf_kind := Current rb sb\<rparr>)"
    using live_leaf_uses_ok [OF inv live] by (rule uses_ok_weaken) (auto simp: kind elim: use_allowed.elims)
  then show ?thesis using kind
    by (intro replaceLeaf_live_inv [OF inv live _ _ _ _ put]) simp_all
qed

lemma quarantine_leaf_inv:
  assumes inv: "lease_inv h s" and step: "quarantine_leaf h s a r = Inr s'"
  shows "lease_inv h s'"
proof -
  from step obtain l orb osb where live: "requireLiveLeaf h s a = Inr l"
    and put: "replaceLeaf h s (l\<lparr>lf_kind := Quarantined orb osb r\<rparr>) = Inr s'"
    by (auto simp: quarantine_leaf_def step_defs)
  show ?thesis using live_leaf_uses_ok [OF inv live]
    by (intro replaceLeaf_live_inv [OF inv live _ _ _ _ put] uses_ok_weaken)
       (simp_all add: use_allowed_quarantined)
qed

lemma replace_uses_inv:
  assumes inv: "lease_inv h s" and live: "requireLiveLeaf h s a = Inr l"
    and uses: "uses_ok (l\<lparr>lf_activeUses := u\<rparr>)"
    and put: "replaceLeaf h s (l\<lparr>lf_activeUses := u\<rparr>) = Inr s'"
  shows "lease_inv h s'"
  using uses by (intro replaceLeaf_live_inv [OF inv live _ _ _ _ put]) simp_all

lemma admit_use_Inr:
  assumes "admit_use h s l use = Inr s'"
  shows "s' = s \<or> replaceLeaf h s (l\<lparr>lf_activeUses :=
    js_set (su_useId use) (started_use use) (lf_activeUses l)\<rparr>) = Inr s'"
  using assms by (cases "js_get (lf_activeUses l) (su_useId use)")
    (simp_all add: admit_use_def Let_def split: if_split_asm)

lemma start_active_use_inv:
  assumes inv: "lease_inv h s" and step: "start_active_use h s a use = Inr s'"
  shows "lease_inv h s'"
proof -
  from step obtain l where live: "requireLiveLeaf h s a = Inr l" and kind: "is_current (lf_kind l)"
    and admit: "admit_use h s l use = Inr s'"
    by (auto simp: start_active_use_def step_defs Let_def)
  from admit_use_Inr [OF admit] show ?thesis
  proof
    assume "s' = s"
    with inv show ?thesis by simp
  next
    assume put: "replaceLeaf h s (l\<lparr>lf_activeUses :=
      js_set (su_useId use) (started_use use) (lf_activeUses l)\<rparr>) = Inr s'"
    show ?thesis
      using kind live_leaf_uses_ok [OF inv live]
      by (intro replace_uses_inv [OF inv live uses_ok_set put]) (auto simp: started_use_def elim: is_current.elims)
  qed
qed

lemma heartbeat_active_use_inv:
  assumes inv: "lease_inv h s" and step: "heartbeat_active_use h s a c = Inr s'"
  shows "lease_inv h s'"
proof -
  from step obtain l u g where live: "requireLiveLeaf h s a = Inr l" and kind: "is_current (lf_kind l)"
    and u: "js_get (lf_activeUses l) (hb_useId c) = Some u"
    and put: "replaceLeaf h s (l\<lparr>lf_activeUses :=
        js_set (hb_useId c) (heartbeat_use c g u) (lf_activeUses l)\<rparr>) = Inr s'"
    by (auto simp: heartbeat_active_use_def step_defs)
  have "au_useId u = hb_useId c" using u live_leaf_uses_ok [OF inv live] by (simp add: uses_ok_def)
  then show ?thesis using kind live_leaf_uses_ok [OF inv live]
    by (intro replace_uses_inv [OF inv live uses_ok_set put])
       (auto simp: heartbeat_use_def elim!: is_current.elims)
qed

lemma resume_active_use_inv:
  assumes inv: "lease_inv h s" and step: "resume_active_use h s a c = Inr s'"
  shows "lease_inv h s'"
proof -
  from step obtain l u where live: "requireLiveLeaf h s a = Inr l" and kind: "is_current (lf_kind l)"
    and u: "js_get (lf_activeUses l) (ru_useId c) = Some u"
    and put: "replaceLeaf h s (l\<lparr>lf_activeUses := js_set (ru_useId c)
        (u\<lparr>au_kind := Running (ru_lastHeartbeatAtMs c) (ru_sessionAttachmentGeneration c)\<rparr>)
        (lf_activeUses l)\<rparr>) = Inr s'"
    by (auto simp: resume_active_use_def step_defs)
  have "au_useId u = ru_useId c" using u live_leaf_uses_ok [OF inv live] by (simp add: uses_ok_def)
  then show ?thesis using kind live_leaf_uses_ok [OF inv live]
    by (intro replace_uses_inv [OF inv live uses_ok_set put]) (auto elim!: is_current.elims)
qed

lemma end_active_use_inv:
  assumes inv: "lease_inv h s" and step: "end_active_use h s a c = Inr s'"
  shows "lease_inv h s'"
proof -
  from step obtain l s1 t where live: "requireLiveLeaf h s a = Inr l"
    and room: "js_has (ls_useTombstones s) (terminalUseTombstoneKey a (eu_useId c)) \<or>
      int (js_size (ls_useTombstones s)) < rt_maxTerminalUseTombstones (ls_retentionPolicy s)"
    and put: "replaceLeaf h s (l\<lparr>lf_activeUses := js_delete (eu_useId c) (lf_activeUses l)\<rparr>) = Inr s1"
    and s': "s' = s1\<lparr>ls_useTombstones := js_set (terminalUseTombstoneKey a (eu_useId c)) t (ls_useTombstones s)\<rparr>"
    by (auto simp: end_active_use_def step_defs Let_def)
  have s1: "lease_inv h s1"
    by (rule replace_uses_inv [OF inv live uses_ok_delete put]) (rule live_leaf_uses_ok [OF inv live])
  have "int (js_size (js_set (terminalUseTombstoneKey a (eu_useId c)) t (ls_useTombstones s)))
      \<le> rt_maxTerminalUseTombstones (ls_retentionPolicy s)"
    using room inv by (auto simp: js_size_set lease_inv_def tombstones_ok_def)
  then show ?thesis unfolding s'
    using inv replaceLeaf_frame [OF put] live_leaf_parent_live [OF inv live]
    by (intro use_tombstones_inv [OF s1]) (auto simp: lease_inv_def maps_ok_def parent_live_def)
qed

lemma expire_observation_gap_inv:
  assumes inv: "lease_inv h s" and step: "expire_observation_gap h s a at g now use = Inr s'"
  shows "lease_inv h s'"
proof -
  from step obtain l u where live: "requireLiveLeaf h s a = Inr l"
    and u: "js_get (lf_activeUses l) use = Some u"
    and put: "replaceLeaf h s (quarantineLeafForAmbiguousUse l
        (js_set use (u\<lparr>au_kind := Ambiguous at ObservationGapExpired\<rparr>) (lf_activeUses l))) = Inr s'"
    by (auto simp: expire_observation_gap_def step_defs)
  have "uses_ok (quarantineLeafForAmbiguousUse l
        (js_set use (u\<lparr>au_kind := Ambiguous at ObservationGapExpired\<rparr>) (lf_activeUses l)))"
    using u live_leaf_uses_ok [OF inv live]
    by (auto simp: uses_ok_def quarantineLeafForAmbiguousUse_def js_get_set intro: use_allowed_quarantined)
  then show ?thesis
    by (intro replaceLeaf_live_inv [OF inv live _ _ _ _ put]) (auto simp: quarantineLeafForAmbiguousUse_def)
qed

lemma rewrite_leaves_inv:
  assumes inv: "lease_inv h s"
    and f: "\<And>k l. js_get (ls_leavesByPrincipal s) k = Some l \<Longrightarrow>
      same_leaf l (f l) \<and> admission_kind (lf_kind (f l)) \<and> uses_ok (f l) \<and>
      (serving_kind (lf_kind (f l)) \<longrightarrow> serving_kind (lf_kind l))"
  shows "lease_inv h (s\<lparr>ls_leavesByPrincipal := map (\<lambda>(k, l). (k, f l)) (ls_leavesByPrincipal s)\<rparr>)"
    (is "lease_inv h ?s'")
proof -
  have get: "js_get (ls_leavesByPrincipal ?s') k = map_option f (js_get (ls_leavesByPrincipal s) k)" for k
    by (simp add: js_get_map_values)
  have fl: "agent_of (f l) = agent_of l" "lf_leafGeneration (f l) = lf_leafGeneration l"
      "lf_principal (f l) = lf_principal l" if "js_get (ls_leavesByPrincipal s) k = Some l" for k l
    using f [OF that] by (simp_all add: same_leaf_def agent_of_def)
  have "leaves_ok h ?s'"
    unfolding leaves_ok_def get using leaf_facts [OF inv] f fl by fastforce
  moreover have "index_ok ?s'"
    unfolding index_ok_def get using fl by (auto elim!: index_leaf [OF inv])
  moreover have "generations_unique ?s'"
    using inv fl unfolding generations_unique_def get lease_inv_def by fastforce
  moreover have "exclusive_access ?s'"
    unfolding exclusive_access_def get using exclusive_accessD [OF inv] f fl by fastforce
  moreover have "parent_ok ?s'"
    using inv by (auto simp: lease_inv_def parent_ok_def split: parent_state.splits)
  ultimately show ?thesis using inv
    by (simp add: lease_inv_def maps_ok_def fencing_ok_def retiring_ok_def tombstones_ok_def)
qed

lemma disconnect_use_allowed:
  "au_useId (disconnect_use p at e g u) = au_useId u"
  "use_allowed k (au_kind u) \<Longrightarrow> is_current k \<or> is_suspect k \<Longrightarrow> use_allowed k (au_kind (disconnect_use p at e g u))"
  by (cases k; auto simp: disconnect_use_def split: active_use_kind.splits)+

lemma serving_admission: "is_current k \<or> is_suspect k \<Longrightarrow> admission_kind k"
  by (cases k) simp_all

lemma quarantined_admission: "is_quarantined k \<Longrightarrow> admission_kind k"
  by (cases k) simp_all

lemma session_disconnected_inv:
  assumes inv: "lease_inv h s" and step: "session_disconnected s gw at e g = Inr s'"
  shows "lease_inv h s'"
proof -
  let ?d = "disconnect_use (ls_retentionPolicy s) at e g"
  let ?f = "\<lambda>l. if is_current (lf_kind l) \<or> is_suspect (lf_kind l)
      then l\<lparr>lf_activeUses := rewrite_uses ?d (lf_activeUses l)\<rparr> else l"
  have s': "s' = s\<lparr>ls_leavesByPrincipal := map (\<lambda>(k, l). (k, ?f l)) (ls_leavesByPrincipal s)\<rparr>"
    using step by (auto simp: session_disconnected_def step_defs)
  have "uses_ok (l\<lparr>lf_activeUses := rewrite_uses ?d (lf_activeUses l)\<rparr>)"
    if "uses_ok l" "is_current (lf_kind l) \<or> is_suspect (lf_kind l)" for l
    using uses_ok_rewrite [where k = "lf_kind l" and f = ?d, OF that(1)] disconnect_use_allowed that(2) by simp
  then show ?thesis unfolding s'
    using leaf_facts(2,3) [OF inv] by (intro rewrite_leaves_inv [OF inv]) auto
qed

lemma lose_epoch_leaf_facts:
  assumes "uses_ok l" and "admission_kind (lf_kind l)"
  shows "same_leaf l (lose_epoch_leaf at e l)" "admission_kind (lf_kind (lose_epoch_leaf at e l))"
    "uses_ok (lose_epoch_leaf at e l)"
    "serving_kind (lf_kind (lose_epoch_leaf at e l)) \<Longrightarrow> serving_kind (lf_kind l)"
proof -
  let ?f = "\<lambda>u. if epoch_lost_matches e u then u\<lparr>au_kind := Ambiguous at ProcessEpochLost\<rparr> else u"
  have "uses_ok (quarantineLeafForAmbiguousUse l (rewrite_uses ?f (lf_activeUses l)))"
    unfolding quarantineLeafForAmbiguousUse_def
    by (rule uses_ok_rewrite [OF assms(1)]) (auto intro: use_allowed_quarantined)
  then show "uses_ok (lose_epoch_leaf at e l)" using assms by (simp add: lose_epoch_leaf_def)
  show "same_leaf l (lose_epoch_leaf at e l)" by (simp add: lose_epoch_leaf_def)
  show "admission_kind (lf_kind (lose_epoch_leaf at e l))"
    using assms quarantined_admission by (simp add: lose_epoch_leaf_def)
  show "serving_kind (lf_kind l)" if "serving_kind (lf_kind (lose_epoch_leaf at e l))"
    using that quarantined_not_serving by (auto simp: lose_epoch_leaf_def split: if_splits)
qed

lemma process_epoch_lost_inv:
  assumes inv: "lease_inv h s" and step: "process_epoch_lost s gw at e = Inr s'"
  shows "lease_inv h s'"
proof -
  have s': "s' = s\<lparr>ls_leavesByPrincipal := map (\<lambda>(k, l). (k, lose_epoch_leaf at e l)) (ls_leavesByPrincipal s)\<rparr>"
    using step by (auto simp: process_epoch_lost_def step_defs)
  show ?thesis unfolding s'
    using leaf_facts(2,3) [OF inv] lose_epoch_leaf_facts by (intro rewrite_leaves_inv [OF inv]) blast
qed

section \<open>Destruction\<close>

lemma begin_destruction_inv:
  assumes inv: "lease_inv h s" and step: "begin_destruction h s a at r = Inr s'"
  shows "lease_inv h s'"
proof (cases "s' = s")
  case True
  with inv show ?thesis by simp
next
  case False
  with step obtain l orb osb where live: "requireLiveLeaf h s a = Inr l"
    and put: "replaceLeaf h s (l\<lparr>lf_activeUses := rewrite_uses (leafRolloverAmbiguity at) (lf_activeUses l),
        lf_kind := Destroying orb osb r\<rparr>) = Inr s'"
    by (auto simp: begin_destruction_def step_defs split: if_splits)
  have "uses_ok (l\<lparr>lf_activeUses := rewrite_uses (leafRolloverAmbiguity at) (lf_activeUses l),
        lf_kind := Destroying orb osb r\<rparr>)"
    by (rule uses_ok_rewrite [OF live_leaf_uses_ok [OF inv live]])
       (auto simp: leafRolloverAmbiguity_def split: active_use_kind.split)
  then show ?thesis by (intro replaceLeaf_live_inv [OF inv live _ _ _ _ put]) simp_all
qed

lemma use_allowed_fenced:
  "is_destroying k \<or> is_owner_unsafe k \<or> is_retiring k \<Longrightarrow>
   is_destroying k' \<or> is_owner_unsafe k' \<or> is_retiring k' \<Longrightarrow> use_allowed k u \<Longrightarrow> use_allowed k' u"
  by (cases k; cases k'; cases u) simp_all

lemma access_fenced_inv:
  assumes inv: "lease_inv h s" and step: "access_fenced h s a = Inr s'"
  shows "lease_inv h s'"
proof (cases "s' = s")
  case True
  with inv show ?thesis by simp
next
  case False
  with step obtain l rb sb r where live: "requireLiveLeaf h s a = Inr l" and kind: "lf_kind l = Destroying rb sb r"
    and s': "s' = (withdraw_leaf h l s)\<lparr>ls_retiring := js_set (lf_leafGeneration l) (l\<lparr>lf_kind := Retiring rb sb r None\<rparr>)
                             (ls_retiring s),
            ls_accessFencing := js_delete (lf_leafGeneration l) (ls_accessFencing s)\<rparr>"
    by (auto simp: access_fenced_def step_defs)
  let ?l = "l\<lparr>lf_kind := Retiring rb sb r None\<rparr>" and ?g = "lf_leafGeneration l"
  have fencing: "js_get (ls_accessFencing s) ?g = Some l"
    by (rule live_leaf_cases [OF inv live]) (use kind in auto)
  note facts = fencing_facts [OF inv fencing]
  have unused: "lf_leafGeneration m \<noteq> ?g" if "js_get (ls_leavesByPrincipal s) k = Some m" for k m
    using leaf_facts(5) [OF inv that] fencing by auto
  then have "withdraw_leaf h l s = s" by (intro withdraw_other) auto
  moreover have "uses_ok ?l"
    using facts(3) by (rule uses_ok_weaken) (rule use_allowed_fenced, use kind in auto)
  moreover have "lease_inv h (s\<lparr>ls_accessFencing := js_delete ?g (ls_accessFencing s)\<rparr>)"
    using inv by (rule unfence_inv)
  ultimately have "lease_inv h (s\<lparr>ls_accessFencing := js_delete ?g (ls_accessFencing s),
      ls_retiring := js_set ?g ?l (ls_retiring s)\<rparr>)"
    using retire_leaf_inv [of h "s\<lparr>ls_accessFencing := js_delete ?g (ls_accessFencing s)\<rparr>" ?l]
      live_leaf_parent_live [OF inv live] unused facts
    by (auto simp: parent_live_def generation_free_def js_get_delete)
  moreover have "s\<lparr>ls_accessFencing := f, ls_retiring := r\<rparr> = s\<lparr>ls_retiring := r, ls_accessFencing := f\<rparr>" for f r
    by (cases s) simp
  ultimately show ?thesis unfolding s' \<open>withdraw_leaf h l s = s\<close> by metis
qed

lemma destruction_incomplete_inv:
  assumes inv: "lease_inv h s" and step: "destruction_incomplete h s a r = Inr s'"
  shows "lease_inv h s'"
proof -
  from step obtain l k where live: "requireLiveLeaf h s a = Inr l"
    and put: "replaceLeaf h s (l\<lparr>lf_kind := k\<rparr>) = Inr s'"
    and kinds: "is_retiring (lf_kind l) \<and> is_retiring k \<or> is_destroying (lf_kind l) \<and> is_owner_unsafe k"
    by (auto simp: destruction_incomplete_def step_defs)
  have "uses_ok (l\<lparr>lf_kind := k\<rparr>)"
    using live_leaf_uses_ok [OF inv live] by (rule uses_ok_weaken) (rule use_allowed_fenced, use kinds in auto)
  then show ?thesis using kinds by (intro replaceLeaf_live_inv [OF inv live _ _ _ _ put])
    (auto elim: is_retiring.elims is_owner_unsafe.elims)
qed

lemma retry_destruction_inv:
  assumes inv: "lease_inv h s" and step: "retry_destruction h s a r = Inr s'"
  shows "lease_inv h s'"
proof -
  from step obtain l rb sb m where live: "requireLiveLeaf h s a = Inr l" and kind: "lf_kind l = OwnerUnsafe rb sb m"
    and put: "replaceLeaf h s (l\<lparr>lf_kind := Destroying rb sb r\<rparr>) = Inr s'"
    by (auto simp: retry_destruction_def step_defs)
  have "uses_ok (l\<lparr>lf_kind := Destroying rb sb r\<rparr>)"
    using live_leaf_uses_ok [OF inv live] by (rule uses_ok_weaken) (rule use_allowed_fenced, use kind in auto)
  then show ?thesis by (intro replaceLeaf_live_inv [OF inv live _ _ _ _ put]) simp_all
qed

text \<open>Retaining rollover evidence keeps the use tombstones within their capacity.\<close>

lemma older_entry_Some: "older_entry e b \<noteq> None"
  by (auto simp: older_entry_def split: option.split)

lemma fold_older_entry:
  "fold older_entry es b = Some e \<Longrightarrow> e \<in> set es \<or> b = Some e"
proof (induction es arbitrary: b)
  case Nil
  then show ?case by simp
next
  case (Cons x es)
  then have "e \<in> set es \<or> older_entry x b = Some e" by simp
  then show ?case by (auto simp: older_entry_def split: option.splits if_splits)
qed

lemma fold_older_entry_None: "fold older_entry es b = None \<longleftrightarrow> es = [] \<and> b = None"
  by (induction es arbitrary: b) (auto simp: older_entry_Some)

lemma oldestTerminalUseTombstoneKey_has:
  "oldestTerminalUseTombstoneKey m = Some k \<Longrightarrow> js_has m k"
  by (force simp: oldestTerminalUseTombstoneKey_def js_has_iff dest: fold_older_entry)

lemma oldestTerminalUseTombstoneKey_None:
  "oldestTerminalUseTombstoneKey m = None \<longleftrightarrow> m = []"
  by (simp add: oldestTerminalUseTombstoneKey_def fold_older_entry_None)

lemma retainRollover_bounded:
  assumes ok: "js_map_ok m" and bound: "int (js_size m) \<le> rt_maxTerminalUseTombstones p"
    and pos: "0 < rt_maxTerminalUseTombstones p"
  shows "js_map_ok (retainRolloverAmbiguityWithoutBlockingDestruction k now p t m) \<and>
    int (js_size (retainRolloverAmbiguityWithoutBlockingDestruction k now p t m)) \<le> rt_maxTerminalUseTombstones p"
proof -
  let ?live = "filter (\<lambda>(k, t). \<not> ut_expiresAtMs t \<le> now) m" and ?cap = "nat (rt_maxTerminalUseTombstones p)"
  have live: "js_map_ok ?live" "js_size ?live \<le> ?cap"
    using ok bound order_trans [OF length_filter_le, of m ?cap] by simp_all
  have put: "js_size (js_set k t r) \<le> ?cap"
    if "js_size r \<le> ?cap" "js_get r k = None \<Longrightarrow> js_size r < ?cap" for r
    using that by (rule js.guarded_put_bounded)
  show ?thesis
  proof (cases "\<not> js_has ?live k \<and> int (js_size ?live) \<ge> rt_maxTerminalUseTombstones p")
    case True
    with pos have "?live \<noteq> []" by auto
    then obtain old where old: "oldestTerminalUseTombstoneKey ?live = Some old"
      using oldestTerminalUseTombstoneKey_None by (cases "oldestTerminalUseTombstoneKey ?live") auto
    from live(1) oldestTerminalUseTombstoneKey_has [OF old]
    have "js_size (js_set k t (js_delete old ?live)) \<le> ?cap"
      using js.evicting_put_bounded [OF live] by (simp add: js_has_def)
    with True old live(1) pos show ?thesis
      by (simp add: retainRolloverAmbiguityWithoutBlockingDestruction_def le_nat_iff)
  next
    case False
    then have "js_size (js_set k t ?live) \<le> ?cap"
      using live pos by (intro put) (auto simp: js_has_def le_nat_iff)
    with False live(1) pos show ?thesis
      by (auto simp: retainRolloverAmbiguityWithoutBlockingDestruction_def le_nat_iff Let_def)
  qed
qed

lemma fold_retain_bounded:
  assumes "js_map_ok m" and "int (js_size m) \<le> rt_maxTerminalUseTombstones (ls_retentionPolicy s)"
    and "0 < rt_maxTerminalUseTombstones (ls_retentionPolicy s)"
  shows "js_map_ok (fold (retain_rollover_use s a l at) us m) \<and>
    int (js_size (fold (retain_rollover_use s a l at) us m)) \<le> rt_maxTerminalUseTombstones (ls_retentionPolicy s)"
  using assms
proof (induction us arbitrary: m)
  case (Cons u us)
  have "js_map_ok (retain_rollover_use s a l at u m) \<and>
    int (js_size (retain_rollover_use s a l at u m)) \<le> rt_maxTerminalUseTombstones (ls_retentionPolicy s)"
    using Cons.prems by (auto simp: retain_rollover_use_def retainRollover_bounded
        split: active_use_kind.split ambiguity_reason.split)
  with Cons.IH Cons.prems(3) show ?case by simp
qed simp

lemma withdraw_live:
  assumes inv: "lease_inv h s" and live: "requireLiveLeaf h s a = Inr l" and k: "\<not> admission_kind (lf_kind l)"
  shows "withdraw_leaf h l s = s"
proof (rule withdraw_other)
  fix m assume m: "js_get (ls_leavesByPrincipal s) (stablePrincipalKey h (lf_principal l)) = Some m"
  show "lf_leafGeneration m \<noteq> lf_leafGeneration l"
    by (rule live_leaf_cases [OF inv live]) (use leaf_facts [OF inv m] k in auto)
qed

lemma add_tombstone_inv:
  assumes inv: "lease_inv h s" and live: "parent_live s" and free: "generation_free s (lt_leafGeneration t)"
    and unfenced: "js_get (ls_accessFencing s) (lt_leafGeneration t) = None"
    and room: "int (js_size (ls_tombstones s)) < rt_maxLeafTombstones (ls_retentionPolicy s)"
  shows "lease_inv h (s\<lparr>ls_tombstones := js_set (lt_leafGeneration t) t (ls_tombstones s)\<rparr>)"
    (is "lease_inv h ?s'")
proof -
  have "leaves_ok h ?s'"
    unfolding leaves_ok_def using leaf_facts [OF inv] free by (auto simp: js_get_set generation_free_def)
  moreover have "fencing_ok ?s'"
    unfolding fencing_ok_def using fencing_facts [OF inv] unfenced by (auto simp: js_get_set)
  moreover have "retiring_ok ?s'"
    unfolding retiring_ok_def using retiring_facts [OF inv] free by (auto simp: js_get_set generation_free_def)
  moreover have "tombstones_ok ?s'"
    using inv room by (auto simp: lease_inv_def tombstones_ok_def js_size_set js_get_set)
  moreover have "parent_ok ?s'"
    using inv live by (auto simp: lease_inv_def parent_ok_def parent_live_def split: parent_state.splits)
  ultimately show ?thesis using inv
    by (simp add: lease_inv_def maps_ok_def index_ok_def generations_unique_def exclusive_access_def)
qed

lemma destruction_completed_inv:
  assumes inv: "lease_inv h s" and step: "destruction_completed h s a at r vm = Inr s'"
  shows "lease_inv h s'"
proof -
  from step obtain l where live: "requireLiveLeaf h s a = Inr l"
    and kind: "is_destroying (lf_kind l) \<or> is_retiring (lf_kind l)"
    and room: "js_has (ls_tombstones s) (lf_leafGeneration l) \<or>
      int (js_size (ls_tombstones s)) < rt_maxLeafTombstones (ls_retentionPolicy s)"
    and s': "s' = (withdraw_leaf h l s)\<lparr>ls_retiring := js_delete (lf_leafGeneration l) (ls_retiring s),
        ls_accessFencing := js_delete (lf_leafGeneration l) (ls_accessFencing s),
        ls_useTombstones := fold (retain_rollover_use s a l at) (js_values (lf_activeUses l)) (ls_useTombstones s),
        ls_tombstones := js_set (lf_leafGeneration l) (destroyed_tombstone s a l at r) (ls_tombstones s)\<rparr>"
    by (auto simp: destruction_completed_def step_defs)
  define t where "t = destroyed_tombstone s a l at r"
  define u where "u = fold (retain_rollover_use s a l at) (js_values (lf_activeUses l)) (ls_useTombstones s)"
  note s' = s' [folded t_def u_def]
  have t: "lt_leafGeneration t = lf_leafGeneration l" by (simp add: t_def destroyed_tombstone_def)
  let ?g = "lf_leafGeneration l"
  have withdraw: "withdraw_leaf h l s = s"
    using kind kind_disjoint(1) by (intro withdraw_live [OF inv live]) blast
  have unused: "lf_leafGeneration m \<noteq> ?g" if "js_get (ls_leavesByPrincipal s) k = Some m" for k m
    by (rule live_leaf_cases [OF inv live])
       (use leaf_facts [OF inv that] kind kind_disjoint(1) in auto)
  have untombed: "js_get (ls_tombstones s) ?g = None"
    by (rule live_leaf_cases [OF inv live])
       (use fencing_facts(5) [OF inv] retiring_facts(4) [OF inv] leaf_facts(7) [OF inv] in blast)+
  let ?s1 = "s\<lparr>ls_retiring := js_delete ?g (ls_retiring s)\<rparr>"
  let ?s2 = "?s1\<lparr>ls_accessFencing := js_delete ?g (ls_accessFencing s)\<rparr>"
  let ?s3 = "?s2\<lparr>ls_useTombstones := u\<rparr>"
  have parent: "parent_live s" using inv live by (rule live_leaf_parent_live)
  have "lease_inv h ?s1" using inv by (rule unretire_inv)
  then have s2: "lease_inv h ?s2" using unfence_inv [of h ?s1 ?g] by simp
  have "js_map_ok u \<and> int (js_size u) \<le> rt_maxTerminalUseTombstones (ls_retentionPolicy s)"
    unfolding u_def using inv by (intro fold_retain_bounded) (auto simp: lease_inv_def maps_ok_def tombstones_ok_def)
  then have s3: "lease_inv h ?s3"
    using parent by (intro use_tombstones_inv [OF s2]) (auto simp: parent_live_def)
  have "lease_inv h (?s3\<lparr>ls_tombstones := js_set (lt_leafGeneration t) t (ls_tombstones ?s3)\<rparr>)"
    using parent unused untombed room t
    by (intro add_tombstone_inv [OF s3]) (auto simp: parent_live_def generation_free_def js_get_delete js_has_def)
  then show ?thesis unfolding s' withdraw using t by simp
qed

lemma prune_tombstones_inv:
  assumes inv: "lease_inv h s" and step: "prune_tombstones s now = Inr s'"
  shows "lease_inv h s'"
proof -
  let ?l = "filter (\<lambda>(k, t). lt_expiresAtMs t > now) (ls_tombstones s)"
    and ?u = "filter (\<lambda>(k, t). ut_expiresAtMs t > now) (ls_useTombstones s)"
  have s': "s' = s \<or> s' = s\<lparr>ls_useTombstones := ?u, ls_tombstones := ?l\<rparr>"
    using step by (auto simp: prune_tombstones_def Let_def split: if_splits)
  have get: "js_get ?l g = (case js_get (ls_tombstones s) g of None \<Rightarrow> None
      | Some t \<Rightarrow> if lt_expiresAtMs t > now then Some t else None)" for g
    using inv by (intro js_get_filter) (simp add: lease_inv_def maps_ok_def)
  let ?s = "s\<lparr>ls_useTombstones := ?u, ls_tombstones := ?l\<rparr>"
  have "leaves_ok h ?s" unfolding leaves_ok_def using leaf_facts [OF inv] get by auto
  moreover have "fencing_ok ?s" unfolding fencing_ok_def using fencing_facts [OF inv] get by auto
  moreover have "retiring_ok ?s" unfolding retiring_ok_def using retiring_facts [OF inv] get by auto
  moreover have "tombstones_ok ?s"
    using inv get by (auto simp: lease_inv_def tombstones_ok_def int_length_filter_le split: option.splits if_splits)
  moreover have "parent_ok ?s"
    using inv by (auto simp: lease_inv_def parent_ok_def split: parent_state.splits)
  ultimately have "lease_inv h ?s" using inv
    by (simp add: lease_inv_def maps_ok_def index_ok_def generations_unique_def exclusive_access_def)
  with s' inv show ?thesis by auto
qed

section \<open>The reducer as a guarded reducer\<close>

lemmas command_invs = register_parent_inv seal_parent_inv retire_parent_inv begin_provisioning_inv
  commit_current_inv renew_idle_expiry_inv mark_suspect_inv restore_current_inv quarantine_leaf_inv
  start_active_use_inv heartbeat_active_use_inv session_disconnected_inv resume_active_use_inv
  end_active_use_inv expire_observation_gap_inv process_epoch_lost_inv begin_destruction_inv
  access_fenced_inv destruction_incomplete_inv retry_destruction_inv destruction_completed_inv
  prune_tombstones_inv

lemma reduce_inv:
  assumes "inj h" and "lease_inv h s" and "reduceToolVmLeaseAuthorityState h s c = Inr s'"
  shows "lease_inv h s'"
  using assms by (cases c) (auto intro: command_invs)

lemma validate_entries_Inr:
  "validate_entries es = Inr () \<longleftrightarrow> (\<forall>(n, v) \<in> set es. is_safe_integer v \<and> 0 < v)"
  by (induction es rule: validate_entries.induct) (auto split: if_splits)

lemma validateRetentionPolicy_Inr:
  "validateRetentionPolicy p = Inr () \<Longrightarrow> 0 < rt_leafTombstoneTtlMs p \<and> 0 < rt_maxLeafTombstones p \<and>
     0 < rt_maxTerminalUseTombstones p \<and> 0 < rt_observationGapGraceMs p \<and> 0 < rt_terminalUseTombstoneTtlMs p"
  unfolding validateRetentionPolicy_def validate_entries_Inr policy_entries_def by simp

lemma empty_lease_state_inv:
  "validateRetentionPolicy p = Inr () \<Longrightarrow> lease_inv h (empty_lease_state p)"
  using validateRetentionPolicy_Inr [of p]
  by (simp add: empty_lease_state_def lease_inv_def lease_inv_parts)

text \<open>
  The reducer meets the guarded-reducer contract. SHA-256 is taken to be injective, which is
  carried in the invariant so that the contract has no side condition.
\<close>

definition keyed_inv :: "(string \<Rightarrow> string) \<Rightarrow> lease_state \<Rightarrow> bool" where
  "keyed_inv h s \<longleftrightarrow> inj h \<and> lease_inv h s"

interpretation lease: guarded_reducer "reduceToolVmLeaseAuthorityState h" "\<lambda>_. True" "keyed_inv h"
  for h
  by unfold_locales (auto simp: keyed_inv_def intro: reduce_inv)

lemma reachable_lease_inv:
  assumes "inj h" and "validateRetentionPolicy p = Inr ()"
    and "reachable (reduceToolVmLeaseAuthorityState h) (\<lambda>_. True) (empty_lease_state p) s"
  shows "lease_inv h s"
  using lease.reachable_inv [OF assms(3)] assms(1) empty_lease_state_inv [OF assms(2)]
  by (simp add: keyed_inv_def)

end
