(* ===== verification/LeaseRuns.thy ===== *)
theory LeaseRuns
  imports LeaseInvariant
begin

text \<open>
  Runs of the lease authority: the shapes an accepted command can have, and the orders that
  every accepted command climbs (what is remembered, what a sealed parent still allows, which
  ended uses stay known), each as an instance of the ordered-reducer contract.
\<close>

section \<open>The shapes of an accepted command\<close>

definition parent_rank :: "parent_state \<Rightarrow> nat" where
  "parent_rank p = (case p of Unregistered \<Rightarrow> 0 | Registered _ \<Rightarrow> 1 | Sealed _ \<Rightarrow> 2 | Retired _ \<Rightarrow> 3)"

text \<open>
  An accepted command does nothing, moves the parent forward, admits a provisional leaf,
  rewrites one live leaf (possibly recording a use tombstone), rewrites leaves in a broadcast,
  moves a fenced leaf to retiring, destroys a leaf, or prunes.
\<close>

lemma reduce_shape:
  assumes step: "reduceToolVmLeaseAuthorityState h s c = Inr s'"
  obtains (same) "s' = s"
  | (parent) p where "s' = s\<lparr>ls_parent := p\<rparr>" "parent_rank (ls_parent s) < parent_rank p"
      "ls_parent s \<noteq> Unregistered \<Longrightarrow> parent_gateway p = parent_gateway (ls_parent s)"
  | (admit) a co idle where "c = BeginProvisioning a co idle" "ls_parent s = Registered (la_gateway a)"
      "js_get (ls_tombstones s) (la_leafGeneration a) = None"
      "replaceLeaf h s (provisional_leaf a co idle) = Inr s'"
  | (rewrite) a l l' where "requireLiveLeaf h s a = Inr l" "replaceLeaf h s l' = Inr s'" "same_leaf l l'"
  | (ended) a i l u s1 where "c = EndActiveUse a i" "requireLiveLeaf h s a = Inr l"
      "js_get (lf_activeUses l) (eu_useId i) = Some u"
      "replaceLeaf h s (l\<lparr>lf_activeUses := js_delete (eu_useId i) (lf_activeUses l)\<rparr>) = Inr s1"
      "s' = s1\<lparr>ls_useTombstones := js_set (terminalUseTombstoneKey a (eu_useId i))
         (end_use_tombstone s a l u i) (ls_useTombstones s)\<rparr>"
  | (broadcast) f where "s' = s\<lparr>ls_leavesByPrincipal := map (\<lambda>(k, l). (k, f l)) (ls_leavesByPrincipal s)\<rparr>"
      "\<And>l. same_leaf l (f l)"
  | (fenced) a l l' where "requireLiveLeaf h s a = Inr l"
      "s' = (withdraw_leaf h l s)\<lparr>ls_retiring := js_set (lf_leafGeneration l) l' (ls_retiring s),
        ls_accessFencing := js_delete (lf_leafGeneration l) (ls_accessFencing s)\<rparr>" "same_leaf l l'"
  | (destroyed) a at r vm l where "c = DestructionCompleted a at r vm" "requireLiveLeaf h s a = Inr l"
      "s' = (withdraw_leaf h l s)\<lparr>ls_retiring := js_delete (lf_leafGeneration l) (ls_retiring s),
        ls_accessFencing := js_delete (lf_leafGeneration l) (ls_accessFencing s),
        ls_useTombstones := fold (retain_rollover_use s a l at) (js_values (lf_activeUses l)) (ls_useTombstones s),
        ls_tombstones := js_set (lf_leafGeneration l) (destroyed_tombstone s a l at r) (ls_tombstones s)\<rparr>"
  | (pruned) now where "c = PruneTombstones now"
      "s' = s\<lparr>ls_useTombstones := filter (\<lambda>(k, t). ut_expiresAtMs t > now) (ls_useTombstones s),
        ls_tombstones := filter (\<lambda>(k, t). lt_expiresAtMs t > now) (ls_tombstones s)\<rparr>"
proof (cases c)
  case (RegisterParent gw)
  with step show ?thesis
    by (auto simp: register_parent_def parent_rank_def split: if_splits intro!: parent)
next
  case (SealParent gw)
  with step show ?thesis
    by (auto simp: seal_parent_def step_defs parent_rank_def split: parent_state.splits intro!: parent)
next
  case (RetireParent gw)
  with step show ?thesis
    by (auto simp: retire_parent_def step_defs parent_rank_def split: parent_state.splits if_splits intro!: parent)
next
  case (BeginProvisioning a co idle)
  with step show ?thesis
    by (auto simp: begin_provisioning_def step_defs provisional_leaf_def js_has_def intro!: admit)
next
  case (CommitCurrent a rb sb)
  with step show ?thesis by (auto simp: commit_current_def step_defs intro: rewrite)
next
  case (RenewIdleExpiry a n now)
  with step show ?thesis by (auto simp: renew_idle_expiry_def step_defs intro: rewrite)
next
  case (MarkSuspect a r)
  with step show ?thesis by (auto simp: mark_suspect_def step_defs intro: rewrite)
next
  case (RestoreCurrent a)
  with step show ?thesis by (auto simp: restore_current_def step_defs intro: rewrite)
next
  case (Quarantine a r)
  with step show ?thesis by (auto simp: quarantine_leaf_def step_defs intro: rewrite)
next
  case (StartActiveUse a use)
  with step obtain l where "requireLiveLeaf h s a = Inr l" "admit_use h s l use = Inr s'"
    by (auto simp: start_active_use_def step_defs Let_def)
  then show ?thesis using admit_use_Inr [of h s l use s'] by (auto intro: same rewrite)
next
  case (HeartbeatActiveUse a co)
  with step show ?thesis by (auto simp: heartbeat_active_use_def step_defs intro: rewrite)
next
  case (SessionDisconnected gw at e g)
  with step show ?thesis
    by (auto simp: session_disconnected_def step_defs intro!: broadcast)
next
  case (ResumeActiveUse a co)
  with step show ?thesis by (auto simp: resume_active_use_def step_defs intro: rewrite)
next
  case (EndActiveUse a co)
  with step show ?thesis by (auto simp: end_active_use_def step_defs Let_def intro: ended)
next
  case (ExpireObservationGap a at g now use)
  with step show ?thesis by (auto simp: expire_observation_gap_def step_defs intro: rewrite)
next
  case (ProcessEpochLostCommand gw at e)
  with step show ?thesis
    by (auto simp: process_epoch_lost_def step_defs lose_epoch_leaf_def intro!: broadcast)
next
  case (BeginDestruction a at r)
  with step show ?thesis
    by (auto simp: begin_destruction_def step_defs split: if_splits intro: same rewrite)
next
  case (AccessFenced a)
  with step show ?thesis by (auto simp: access_fenced_def step_defs intro: same fenced)
next
  case (DestructionIncomplete a r)
  with step show ?thesis by (auto simp: destruction_incomplete_def step_defs intro: rewrite)
next
  case (RetryDestruction a r)
  with step show ?thesis by (auto simp: retry_destruction_def step_defs intro: rewrite)
next
  case (DestructionCompleted a at r vm)
  with step show ?thesis by (auto simp: destruction_completed_def step_defs intro!: destroyed)
next
  case (PruneTombstones now)
  with step show ?thesis
    by (auto simp: prune_tombstones_def Let_def split: if_splits intro: same pruned)
qed

section \<open>Tombstones are kept until they expire\<close>

definition prunes_until :: "millis \<Rightarrow> lease_command \<Rightarrow> bool" where
  "prunes_until T c \<longleftrightarrow> (case c of PruneTombstones now \<Rightarrow> now \<le> T | _ \<Rightarrow> True)"

definition remembers :: "millis \<Rightarrow> lease_state \<Rightarrow> lease_state \<Rightarrow> bool" where
  "remembers T s s' \<longleftrightarrow> (\<forall>g t. js_get (ls_tombstones s) g = Some t \<longrightarrow> T < lt_expiresAtMs t \<longrightarrow>
     js_get (ls_tombstones s') g = Some t)"

lemma live_leaf_untombed:
  assumes "lease_inv h s" and "requireLiveLeaf h s a = Inr l"
  shows "js_get (ls_tombstones s) (lf_leafGeneration l) = None"
  by (rule live_leaf_cases [OF assms])
     (use fencing_facts(5) [OF assms(1)] retiring_facts(4) [OF assms(1)] leaf_facts(7) [OF assms(1)] in blast)+

lemma reduce_remembers:
  assumes inv: "lease_inv h s" and allowed: "prunes_until T c"
    and step: "reduceToolVmLeaseAuthorityState h s c = Inr s'"
  shows "remembers T s s'"
  using step
proof (cases rule: reduce_shape)
  case (destroyed a at r vm l)
  then show ?thesis using live_leaf_untombed [OF inv destroyed(2)]
    by (auto simp: remembers_def js_get_set)
next
  case (pruned now)
  have "js_map_ok (ls_tombstones s)" using inv by (simp add: lease_inv_def maps_ok_def)
  with pruned allowed show ?thesis by (auto simp: remembers_def js_get_filter prunes_until_def)
qed (auto simp: remembers_def dest: replaceLeaf_frame)

interpretation lease_memory: ordered_reducer "reduceToolVmLeaseAuthorityState h" "prunes_until T"
    "keyed_inv h" "remembers T"
  for h T
proof unfold_locales
  show "remembers T s s'" if "keyed_inv h s" "prunes_until T c"
    "reduceToolVmLeaseAuthorityState h s c = Inr s'" for s c s'
    using that by (intro reduce_remembers) (simp_all add: keyed_inv_def)
qed (auto simp: keyed_inv_def remembers_def intro: reduce_inv)

section \<open>A sealed parent admits nothing new\<close>

definition live_generations :: "lease_state \<Rightarrow> string set" where
  "live_generations s = lf_leafGeneration `
     set (js_values (ls_leavesByPrincipal s) @ js_values (ls_accessFencing s) @ js_values (ls_retiring s))"

definition sealed_le :: "lease_state \<Rightarrow> lease_state \<Rightarrow> bool" where
  "sealed_le s s' \<longleftrightarrow> parent_rank (ls_parent s) \<le> parent_rank (ls_parent s') \<and>
     (0 < parent_rank (ls_parent s) \<longrightarrow> parent_gateway (ls_parent s') = parent_gateway (ls_parent s)) \<and>
     (2 \<le> parent_rank (ls_parent s) \<longrightarrow> live_generations s' \<subseteq> live_generations s)"

lemma parent_rank_0 [simp]: "parent_rank p = 0 \<longleftrightarrow> p = Unregistered"
  by (cases p) (simp_all add: parent_rank_def)

lemma live_leaf_generation:
  assumes "requireLiveLeaf h s a = Inr l"
  shows "lf_leafGeneration l \<in> live_generations s"
  unfolding live_generations_def
  by (rule requireLiveLeaf_cases [OF assms]; rule imageI) (auto dest: js_get_value)

lemma withdraw_leaf_values:
  "set (js_values (ls_leavesByPrincipal (withdraw_leaf h l s))) \<subseteq> set (js_values (ls_leavesByPrincipal s))"
  using js_values_delete_subset [of "stablePrincipalKey h (lf_principal l)" "ls_leavesByPrincipal s"]
  by (simp add: withdraw_leaf_def Let_def)

lemma replaceLeaf_live_generations:
  assumes "replaceLeaf h s l = Inr s'"
  shows "live_generations s' \<subseteq> insert (lf_leafGeneration l) (live_generations s)"
proof -
  note sets = js_values_set_subset withdraw_leaf_values
  from assms show ?thesis
    by (auto simp: replaceLeaf_def Let_def live_generations_def split: if_splits
        dest!: set_mp [OF js_values_set_subset] set_mp [OF withdraw_leaf_values])
qed

lemma reduce_sealed_le:
  assumes step: "reduceToolVmLeaseAuthorityState h s c = Inr s'"
  shows "sealed_le s s'"
  using step
proof (cases rule: reduce_shape)
  case (rewrite a l l')
  then show ?thesis using replaceLeaf_live_generations [OF rewrite(2)] live_leaf_generation [OF rewrite(1)]
      replaceLeaf_frame [OF rewrite(2)]
    by (auto simp: sealed_le_def same_leaf_def)
next
  case (ended a i l u s1)
  then show ?thesis using replaceLeaf_live_generations [OF ended(4)] live_leaf_generation [OF ended(2)]
      replaceLeaf_frame [OF ended(4)]
    by (auto simp: sealed_le_def live_generations_def)
next
  case (fenced a l l')
  then show ?thesis using live_leaf_generation [OF fenced(1)]
    by (auto simp: sealed_le_def same_leaf_def live_generations_def
        dest!: set_mp [OF js_values_set_subset] set_mp [OF withdraw_leaf_values] set_mp [OF js_values_delete_subset])
next
  case (destroyed a at r vm l)
  then show ?thesis
    by (auto simp: sealed_le_def live_generations_def
        dest!: set_mp [OF withdraw_leaf_values] set_mp [OF js_values_delete_subset])
next
  case (broadcast f)
  then show ?thesis
    by (auto simp: sealed_le_def live_generations_def js_values_def same_leaf_def image_image case_prod_unfold)
next
  case (parent p)
  then show ?thesis
    by (cases "ls_parent s") (auto simp: sealed_le_def live_generations_def parent_rank_def)
next
  case (admit a co idle)
  then show ?thesis using replaceLeaf_frame [OF admit(4)] by (simp add: sealed_le_def parent_rank_def)
qed (auto simp: sealed_le_def live_generations_def)

interpretation lease_sealing: ordered_reducer "reduceToolVmLeaseAuthorityState h" "\<lambda>_. True"
    "\<lambda>_. True" sealed_le
  for h
proof unfold_locales
  show "sealed_le s u" if "sealed_le s t" "sealed_le t u" for s t u
    using that by (auto simp: sealed_le_def)
qed (auto simp: sealed_le_def [of s s for s] intro: reduce_sealed_le)

section \<open>Live leaves and guards\<close>

lemma live_generations_tombstones:
  assumes "lease_inv h s" and "js_get (ls_tombstones s) g = Some t"
  shows "g \<notin> live_generations s"
proof -
  have ok: "js_map_ok (ls_leavesByPrincipal s)" "js_map_ok (ls_accessFencing s)" "js_map_ok (ls_retiring s)"
    using assms(1) by (simp_all add: lease_inv_def maps_ok_def)
  show ?thesis
    using assms leaf_facts(7) [OF assms(1)] fencing_facts(1,5) [OF assms(1)] retiring_facts(1,4) [OF assms(1)]
    by (fastforce simp: live_generations_def js_value_iff [OF ok(1)] js_value_iff [OF ok(2)] js_value_iff [OF ok(3)])
qed

lemma isl_result_bind: "isl m \<Longrightarrow> isl (result_bind m f)"
  by (cases m) simp_all

lemma live_current_iff:
  assumes inv: "lease_inv h s" and reg: "ls_parent s = Registered (la_gateway a)"
  shows "requireLiveLeaf h s a = Inr l \<and> is_current (lf_kind l) \<longleftrightarrow>
      js_get (ls_leavesByPrincipal s) (stablePrincipalKey h (la_principal a)) = Some l \<and> is_current (lf_kind l) \<and>
      lf_leafGeneration l = la_leafGeneration a \<and> lf_leaseId l = la_leaseId a"
    (is "?live \<longleftrightarrow> ?leaf")
proof
  assume ?live
  then have l: "requireLiveLeaf h s a = Inr l" and cur: "is_current (lf_kind l)" by simp_all
  have id: "lf_leaseId l = la_leaseId a" using requireLiveLeaf_facts [OF l] by simp
  from l show ?leaf
  proof (cases rule: requireLiveLeaf_cases)
    case fencing
    from fencing_facts(2) [OF inv fencing] cur show ?thesis by (cases "lf_kind l") (auto simp: fencing_kind_def)
  next
    case retiring
    from retiring_facts(2) [OF inv retiring(2)] cur show ?thesis by (cases "lf_kind l") auto
  qed (use id cur in simp)
next
  assume leaf: ?leaf
  then show ?live
    using leaf_facts(5-7) [OF inv, of "stablePrincipalKey h (la_principal a)" l] reg
    by (auto simp: requireLiveLeaf_def requireExactParent_def tombstoneForAuthority_def)
qed

lemma prune_tombstones_eq:
  "prune_tombstones s now = Inr (s\<lparr>ls_useTombstones := filter (\<lambda>(k, t). ut_expiresAtMs t > now) (ls_useTombstones s),
     ls_tombstones := filter (\<lambda>(k, t). lt_expiresAtMs t > now) (ls_tombstones s)\<rparr>)"
proof -
  have same: "filter P xs = xs" if "length (filter P xs) = length xs" for P and xs :: "'c list"
    using that length_filter_less [of _ xs P] by (metis filter_True less_irrefl)
  show ?thesis by (cases s) (auto simp: prune_tombstones_def Let_def dest!: same)
qed

definition use_clock :: "millis \<Rightarrow> millis \<Rightarrow> lease_command \<Rightarrow> bool" where
  "use_clock T ttl c \<longleftrightarrow> (case c of
      PruneTombstones now \<Rightarrow> now \<le> T
    | EndActiveUse _ i \<Rightarrow> T < eu_endedAtMs i + ttl
    | DestructionCompleted _ _ _ _ \<Rightarrow> False
    | _ \<Rightarrow> True)"

definition keeps_uses :: "millis \<Rightarrow> lease_state \<Rightarrow> lease_state \<Rightarrow> bool" where
  "keeps_uses T s s' \<longleftrightarrow> (\<forall>k t. js_get (ls_useTombstones s) k = Some t \<longrightarrow> T < ut_expiresAtMs t \<longrightarrow>
     (\<exists>t'. js_get (ls_useTombstones s') k = Some t' \<and> T < ut_expiresAtMs t'))"

definition ttl_inv :: "(string \<Rightarrow> string) \<Rightarrow> millis \<Rightarrow> lease_state \<Rightarrow> bool" where
  "ttl_inv h ttl s \<longleftrightarrow> keyed_inv h s \<and> rt_terminalUseTombstoneTtlMs (ls_retentionPolicy s) = ttl"

lemma reduce_policy:
  assumes "reduceToolVmLeaseAuthorityState h s c = Inr s'"
  shows "ls_retentionPolicy s' = ls_retentionPolicy s"
  using assms by (cases rule: reduce_shape) (auto dest: replaceLeaf_frame)

lemma reduce_keeps_uses:
  assumes inv: "ttl_inv h ttl s" and allowed: "use_clock T ttl c"
    and step: "reduceToolVmLeaseAuthorityState h s c = Inr s'"
  shows "keeps_uses T s s'"
  using step
proof (cases rule: reduce_shape)
  case (ended a i l u s1)
  then show ?thesis using inv allowed
    by (auto simp: keeps_uses_def js_get_set end_use_tombstone_def use_clock_def ttl_inv_def)
next
  case (pruned now)
  have "js_map_ok (ls_useTombstones s)" using inv by (simp add: ttl_inv_def keyed_inv_def lease_inv_def maps_ok_def)
  with pruned allowed show ?thesis by (auto simp: keeps_uses_def js_get_filter use_clock_def)
qed (use allowed in \<open>auto simp: keeps_uses_def use_clock_def dest: replaceLeaf_frame\<close>)

interpretation use_memory: ordered_reducer "reduceToolVmLeaseAuthorityState h" "use_clock T ttl"
    "ttl_inv h ttl" "keeps_uses T"
  for h T ttl
proof unfold_locales
  show "keeps_uses T s s'" if "ttl_inv h ttl s" "use_clock T ttl c"
    "reduceToolVmLeaseAuthorityState h s c = Inr s'" for s c s'
    using that by (rule reduce_keeps_uses)
  show "ttl_inv h ttl s'" if "ttl_inv h ttl s" "reduceToolVmLeaseAuthorityState h s c = Inr s'" for s c s'
    using that reduce_policy [OF that(2)] by (auto simp: ttl_inv_def keyed_inv_def intro: reduce_inv)
qed (fastforce simp: keeps_uses_def)+

lemma start_refused_tombstone:
  "js_has (ls_useTombstones s) (terminalUseTombstoneKey a (su_useId use)) \<Longrightarrow> isl (start_active_use h s a use)"
  by (cases "start_active_use h s a use") (auto simp: start_active_use_def step_defs js_has_def)

lemma requireLiveLeaf_exact_parent:
  "requireLiveLeaf h s a = Inr l \<Longrightarrow> requireExactParent s (la_gateway a) = Inr (ls_parent s)"
  using requireLiveLeaf_facts(1,2) by (simp add: requireExactParent_Inr)

lemma requireAdmittingParent_live:
  "requireLiveLeaf h s a = Inr l \<Longrightarrow> ls_parent s = Registered g \<Longrightarrow>
   requireAdmittingParent s (la_gateway a) = Inr (Registered g)"
  using requireLiveLeaf_facts(2) by (fastforce simp: requireAdmittingParent_Inr)

lemma live_generation:
  assumes "lease_inv h s" and "requireLiveLeaf h s a = Inr l"
  shows "lf_leafGeneration l = la_leafGeneration a"
  using assms(2)
  by (cases rule: requireLiveLeaf_cases) (auto dest: fencing_facts(1) [OF assms(1)] retiring_facts(1) [OF assms(1)])

lemma requireLiveLeaf_fencing:
  assumes "ls_parent s \<noteq> Unregistered" and "parent_gateway (ls_parent s) = la_gateway a"
    and "js_get (ls_tombstones s) (la_leafGeneration a) = None"
    and "js_get (ls_accessFencing s) (la_leafGeneration a) = Some l"
    and "lf_principal l = la_principal a" and "lf_leaseId l = la_leaseId a"
  shows "requireLiveLeaf h s a = Inr l"
  using assms
  by (simp add: requireLiveLeaf_def requireExactParent_def tombstoneForAuthority_def leaf_for_authority_def
      stableToolVmLeasePrincipalsEqual_def)

lemma uses_ok_not_terminal:
  assumes "uses_ok l" and "(k, u) \<in> set (lf_activeUses l)"
  shows "au_kind u \<noteq> Terminal t out"
proof -
  have "js_get (lf_activeUses l) k = Some u"
    using assms by (simp add: uses_ok_def js_get_in_set)
  then have "use_allowed (lf_kind l) (au_kind u)" using assms(1) by (simp add: uses_ok_def)
  then show ?thesis by auto
qed

lemma replaceLeaf_admitted:
  assumes "lease_inv h s" and "js_get (ls_leavesByPrincipal s) key = Some l" and "same_leaf l l'"
    and "admission_kind (lf_kind l')"
  shows "replaceLeaf h s l' = Inr (s\<lparr>ls_leavesByPrincipal := js_set key l' (ls_leavesByPrincipal s),
     ls_currentPrincipalKey := js_set (agent_of l) key (ls_currentPrincipalKey s)\<rparr>)"
  using leaf_facts [OF assms(1,2)] assms(3) kind_disjoint(1) [OF assms(4)]
  by (simp add: replaceLeaf_def js_has_def same_leaf_def agent_of_def Let_def)

lemma js_keys_put: "js_get m k \<noteq> None \<Longrightarrow> js_keys (js_set k v m) = js_keys m"
  by (simp add: js_keys_def update_keys map_of_eq_None_iff)

lemma js_keys_rewrite [simp]: "js_keys (rewrite_uses f m) = js_keys m"
  by (auto simp: js_keys_def rewrite_uses_def)

end
