(* ===== verification/LeaseProperties.thy ===== *)
theory LeaseProperties
  imports LeaseRuns
begin

text \<open>
  What the lease authority guarantees its callers, as properties of its reachable states and
  of its runs, with a worked deployment (one Gateway, one agent) for the witnesses.
\<close>

section \<open>A worked deployment\<close>

definition demo_gateway :: gateway_epoch_identity where
  "demo_gateway = \<lparr>gw_bootId = ''b'', gw_controllerEpoch = ''c'', gw_gatewayEpochId = ''g'',
     gw_generationId = ''n'', gw_zoneId = ''z'', gw_gatewayVmId = ''v''\<rparr>"

definition demo_principal :: principal where
  "demo_principal = \<lparr>pr_agentId = ''a'', pr_frameworkIdentity = \<lparr>fi_kind = ''h'', fi_profileName = ''p''\<rparr>,
     pr_profileAssignmentRevision = ''1'', pr_toolPortalProfileId = ''t''\<rparr>"

definition demo_authority :: "string \<Rightarrow> leaf_authority" where
  "demo_authority gen = \<lparr>la_gateway = demo_gateway, la_leaseId = ''l'' @ gen, la_leafGeneration = gen,
     la_principal = demo_principal\<rparr>"

definition demo_compatibility :: lease_compatibility where
  "demo_compatibility = \<lparr>lc_policyFingerprint = ''f'', lc_profileId = ''p'', lc_purpose = ''u'',
     lc_profileAssignmentRevision = ''1''\<rparr>"

definition demo_runtime :: runtime_binding where
  "demo_runtime = \<lparr>rb_runtimeRecordId = ''r'', rb_tcpSlot = 1, rb_vmId = ''m''\<rparr>"

definition demo_ssh :: ssh_binding where
  "demo_ssh = \<lparr>sb_bindingId = ''s'', sb_host = ''h'', sb_identityFile = ''i'', sb_port = 22,
     sb_serverIdentity = ''k'', sb_user = ''u''\<rparr>"

definition demo_use :: start_use_input where
  "demo_use = \<lparr>su_correlation = None, su_lastHeartbeatAtMs = 1, su_latestOperationReport = None,
     su_operationPayloadDigest = ''d'', su_processEpoch = ''e'', su_semanticOperationId = ''o'',
     su_sessionAttachmentGeneration = 1, su_startedAtMs = 1, su_useId = ''x''\<rparr>"

definition demo_serving :: "lease_command list" where
  "demo_serving = [RegisterParent demo_gateway,
     BeginProvisioning (demo_authority ''1'') demo_compatibility 1000,
     CommitCurrent (demo_authority ''1'') demo_runtime demo_ssh,
     StartActiveUse (demo_authority ''1'') demo_use]"

definition demo_destroyed :: "lease_command list" where
  "demo_destroyed = demo_serving @ [BeginDestruction (demo_authority ''1'') 5 ''rollover'',
     AccessFenced (demo_authority ''1''),
     DestructionCompleted (demo_authority ''1'') 9 ''done'' (Some ''m'')]"

abbreviation demo_run :: "lease_command list \<Rightarrow> lease_state" where
  "demo_run \<equiv> run_commands (reduceToolVmLeaseAuthorityState id) (empty_lease_state defaultRetentionPolicy)"


section \<open>The properties\<close>

text \<open>
  C1: A leaf that serves guest access (current or suspect) is, in every reachable state, the only leaf of its agent in the current-admission map, and no leaf of that agent is still being fenced: two Tool VMs of one agent never have access at the same time.
\<close>

theorem exclusive_guest_access:
  assumes "inj h" and "validateRetentionPolicy p = Inr ()"
    and "reachable (reduceToolVmLeaseAuthorityState h) (\<lambda>_. True) (empty_lease_state p) s"
    and "js_get (ls_leavesByPrincipal s) k = Some l" and "is_current (lf_kind l) \<or> is_suspect (lf_kind l)"
  shows "filter (\<lambda>x. agent_of x = agent_of l)
     (js_values (ls_leavesByPrincipal s) @ js_values (ls_accessFencing s)) = [l]"
proof -
  have inv: "lease_inv h s" using assms(1-3) by (rule reachable_lease_inv)
  then have ok: "js_map_ok (ls_leavesByPrincipal s)" "js_map_ok (ls_accessFencing s)"
    by (simp_all add: lease_inv_def maps_ok_def)
  have "filter (\<lambda>x. agent_of x = agent_of l) (js_values (ls_leavesByPrincipal s)) = [l]"
    using agent_leaf_unique [OF inv assms(4)] by (intro js_values_filter_unique [OF ok(1) assms(4)]) blast+
  moreover have "filter (\<lambda>x. agent_of x = agent_of l) (js_values (ls_accessFencing s)) = []"
    using exclusive_accessD [OF inv assms(4)] assms(5)
    by (intro js_values_filter_empty [OF ok(2)]) (simp add: serving_kind_def)
  ultimately show ?thesis by simp
qed

lemma demo_reachable:
  "reachable (reduceToolVmLeaseAuthorityState id) (\<lambda>_. True) (empty_lease_state defaultRetentionPolicy) (demo_run cs)"
  by (rule run_commands_reachable [OF reachable.start]) (simp add: list_all_def)

lemma demo_policy: "validateRetentionPolicy defaultRetentionPolicy = Inr ()"
  by code_simp

lemma demo_inv: "lease_inv id (demo_run cs)"
  by (rule reachable_lease_inv [OF inj_on_id demo_policy demo_reachable])

abbreviation demo_key :: string where
  "demo_key \<equiv> stablePrincipalKey id demo_principal"

theorem exclusive_guest_access_witness:
  "filter (\<lambda>x. agent_of x = ''a'')
     (js_values (ls_leavesByPrincipal (demo_run demo_serving)) @ js_values (ls_accessFencing (demo_run demo_serving)))
   = [the (js_get (ls_leavesByPrincipal (demo_run demo_serving)) demo_key)]"
proof -
  let ?l = "the (js_get (ls_leavesByPrincipal (demo_run demo_serving)) demo_key)"
  have "js_get (ls_leavesByPrincipal (demo_run demo_serving)) demo_key = Some ?l" by code_simp
  moreover have "is_current (lf_kind ?l)" by code_simp
  moreover have "agent_of ?l = ''a''" by code_simp
  ultimately show ?thesis
    using exclusive_guest_access [OF inj_on_id demo_policy demo_reachable, of demo_serving demo_key ?l]
    by simp
qed

text \<open>
  C5: Every state reachable from a freshly created lease authority, for any accepted retention policy, is well formed: unique keys, one current-admission leaf per agent, generations unique across admission, fencing, retiring and tombstones, only the uses a leaf kind allows, no leaves outside a live parent, and tombstones within the capacities of the policy.
\<close>

theorem lease_state_well_formed:
  assumes "inj h" and "createEmptyToolVmLeaseAuthorityState overrides = Inr s0"
    and "reachable (reduceToolVmLeaseAuthorityState h) (\<lambda>_. True) s0 s"
  shows "lease_inv h s"
  using assms reachable_lease_inv [of h "merge_policy overrides"]
  by (auto simp: createEmptyToolVmLeaseAuthorityState_def result_simps)

definition no_overrides :: partial_retention_policy where
  "no_overrides = \<lparr>pp_leafTombstoneTtlMs = None, pp_maxLeafTombstones = None,
     pp_maxTerminalUseTombstones = None, pp_observationGapGraceMs = None, pp_terminalUseTombstoneTtlMs = None\<rparr>"

theorem lease_state_well_formed_witness: "lease_inv id (demo_run demo_destroyed)"
proof (rule lease_state_well_formed [OF inj_on_id])
  show "createEmptyToolVmLeaseAuthorityState no_overrides = Inr (empty_lease_state defaultRetentionPolicy)"
    by code_simp
qed (rule demo_reachable)

text \<open>
  C3: Once a leaf generation has a tombstone, then along any further run that prunes no later than T, while T is before the tombstone expires: the tombstone stays as it is, the generation is in none of the leaf maps, and it can be neither provisioned again nor found as a live leaf.
\<close>

theorem destroyed_generation_never_reissued:
  assumes "inj h" and "validateRetentionPolicy p = Inr ()"
    and "reachable (reduceToolVmLeaseAuthorityState h) (\<lambda>_. True) (empty_lease_state p) s"
    and "js_get (ls_tombstones s) g = Some t" and "T < lt_expiresAtMs t"
    and "list_all (prunes_until T) cs" and "la_leafGeneration a = g"
    and "s' = run_commands (reduceToolVmLeaseAuthorityState h) s cs"
  shows "js_get (ls_tombstones s') g = Some t \<and> g \<notin> live_generations s' \<and>
    isl (begin_provisioning h s' a co idle) \<and> isl (requireLiveLeaf h s' a)"
proof -
  have inv: "keyed_inv h s" using reachable_lease_inv [OF assms(1-3)] assms(1) by (simp add: keyed_inv_def)
  from lease_memory.run_le [OF inv assms(6)] assms(4,5,8)
  have tomb: "js_get (ls_tombstones s') g = Some t" by (simp add: remembers_def)
  have inv': "lease_inv h s'"
    using lease.run_inv [OF inv, of cs] assms(8) by (simp add: keyed_inv_def list_all_def)
  have "isl (requireLiveLeaf h s' a)"
    using requireLiveLeaf_facts(3) [of h s' a] tomb assms(7) by (cases "requireLiveLeaf h s' a") auto
  moreover have "isl (begin_provisioning h s' a co idle)"
    using tomb assms(7) by (cases "begin_provisioning h s' a co idle")
      (auto simp: begin_provisioning_def step_defs js_has_def)
  ultimately show ?thesis using tomb live_generations_tombstones [OF inv' tomb] by simp
qed

theorem destroyed_generation_never_reissued_witness:
  "isl (begin_provisioning id (demo_run (demo_destroyed @ [PruneTombstones 50])) (demo_authority ''1'')
     demo_compatibility 5000)"
proof -
  let ?s = "demo_run demo_destroyed"
  have t: "js_get (ls_tombstones ?s) ''1'' = Some (the (js_get (ls_tombstones ?s) ''1''))" by code_simp
  have "60 < lt_expiresAtMs (the (js_get (ls_tombstones ?s) ''1''))" by code_simp
  moreover have "list_all (prunes_until 60) [PruneTombstones 50]" by code_simp
  ultimately show ?thesis
    using destroyed_generation_never_reissued [OF inj_on_id demo_policy demo_reachable t, of 60
        "[PruneTombstones 50]" "demo_authority ''1''" _ demo_compatibility 5000]
    by (simp add: run_commands_append demo_authority_def)
qed

text \<open>
  Sealing is final: whatever commands follow, the parent stays sealed or retired for the same Gateway, no leaf generation appears that was not live when it was sealed, and provisioning, starting an active use and authorizing a binding are all refused.
\<close>

theorem sealed_parent_admits_nothing:
  assumes "ls_parent s = Sealed g" and "s' = run_commands (reduceToolVmLeaseAuthorityState h) s cs"
  shows "live_generations s' \<subseteq> live_generations s \<and> (ls_parent s' = Sealed g \<or> ls_parent s' = Retired g) \<and>
    isl (begin_provisioning h s' a co idle) \<and> isl (start_active_use h s' a use) \<and>
    isl (authorizeCurrentToolVmLeafBinding h s' a co now binding)"
proof -
  have "sealed_le s s'"
    unfolding assms(2) using lease_sealing.run_le by (simp add: list_all_def)
  with assms(1) have "live_generations s' \<subseteq> live_generations s"
    and "ls_parent s' = Sealed g \<or> ls_parent s' = Retired g"
    by (cases "ls_parent s'"; auto simp: sealed_le_def parent_rank_def)+
  moreover from this(2) have "isl (requireAdmittingParent s' gw)" for gw
    by (cases "requireAdmittingParent s' gw") (auto simp: lease_guard_simps)
  ultimately show ?thesis
    by (simp add: begin_provisioning_def start_active_use_def authorizeCurrentToolVmLeafBinding_def isl_result_bind)
qed

theorem sealed_parent_admits_nothing_witness:
  "live_generations (demo_run (demo_serving @ [SealParent demo_gateway,
      BeginDestruction (demo_authority ''1'') 5 ''r'', AccessFenced (demo_authority ''1'')]))
   \<subseteq> live_generations (demo_run (demo_serving @ [SealParent demo_gateway]))"
proof -
  have "ls_parent (demo_run (demo_serving @ [SealParent demo_gateway])) = Sealed demo_gateway" by code_simp
  from sealed_parent_admits_nothing [OF this refl, of id
      "[BeginDestruction (demo_authority ''1'') 5 ''r'', AccessFenced (demo_authority ''1'')]"]
  show ?thesis by (simp add: run_commands_append)
qed

text \<open>
  C6: A binding is authorized exactly when the parent is registered for the same Gateway, the agent's current-admission leaf is current with the same generation, lease identity, compatibility and SSH binding, and it is not idle-expired without running work; the answer then carries that leaf's bindings.
\<close>

theorem authorize_iff:
  assumes "inj h" and "validateRetentionPolicy p = Inr ()"
    and "reachable (reduceToolVmLeaseAuthorityState h) (\<lambda>_. True) (empty_lease_state p) s"
  shows "authorizeCurrentToolVmLeafBinding h s a co now sb = Inr b \<longleftrightarrow>
    ls_parent s = Registered (la_gateway a) \<and>
    (\<exists>l rb ssh. js_get (ls_leavesByPrincipal s) (stablePrincipalKey h (la_principal a)) = Some l \<and>
       lf_kind l = Current rb ssh \<and> lf_leafGeneration l = la_leafGeneration a \<and> lf_leaseId l = la_leaseId a \<and>
       lf_compatibility l = co \<and> sb_bindingId ssh = sb \<and>
       (now < lf_idleExpiresAtMs l \<or> nonTerminalActiveUseExists (lf_activeUses l)) \<and>
       b = \<lparr>ab_leaseId = lf_leaseId l, ab_leafGeneration = lf_leafGeneration l,
            ab_idleExpiresAtMs = lf_idleExpiresAtMs l, ab_runtimeBinding = rb, ab_sshBinding = ssh\<rparr>)"
  (is "?lhs \<longleftrightarrow> ?rhs")
proof -
  have inv: "lease_inv h s" using assms by (rule reachable_lease_inv)
  have compat: "compatibilitiesEqual c co \<longleftrightarrow> c = co" for c
    by (cases c; cases co) (auto simp: compatibilitiesEqual_def)
  have "?lhs \<longleftrightarrow> ls_parent s = Registered (la_gateway a) \<and> (\<exists>l rb ssh. requireLiveLeaf h s a = Inr l \<and>
       lf_kind l = Current rb ssh \<and> lf_compatibility l = co \<and>
       (now < lf_idleExpiresAtMs l \<or> nonTerminalActiveUseExists (lf_activeUses l)) \<and> sb_bindingId ssh = sb \<and>
       b = \<lparr>ab_leaseId = lf_leaseId l, ab_leafGeneration = lf_leafGeneration l,
            ab_idleExpiresAtMs = lf_idleExpiresAtMs l, ab_runtimeBinding = rb, ab_sshBinding = ssh\<rparr>)"
    by (auto simp: authorizeCurrentToolVmLeafBinding_def step_defs compat)
  also have "\<dots> \<longleftrightarrow> ?rhs"
    using live_current_iff [OF inv, of a] by (metis is_current.simps(1))
  finally show ?thesis .
qed

theorem authorize_iff_witness:
  "ls_parent (demo_run demo_serving) = Registered demo_gateway"
proof -
  have "authorizeCurrentToolVmLeafBinding id (demo_run demo_serving) (demo_authority ''1'') demo_compatibility 10 ''s''
    = Inr \<lparr>ab_leaseId = ''l1'', ab_leafGeneration = ''1'', ab_idleExpiresAtMs = 1000,
        ab_runtimeBinding = demo_runtime, ab_sshBinding = demo_ssh\<rparr>" by code_simp
  then have "ls_parent (demo_run demo_serving) = Registered (la_gateway (demo_authority ''1''))"
    by (simp only: authorize_iff [OF inj_on_id demo_policy demo_reachable])
  then show ?thesis by (simp add: demo_authority_def)
qed

text \<open>
  A retired parent has no live leaf, and the only commands it still accepts change nothing or prune tombstones.
\<close>

theorem retired_parent_quiescent:
  assumes "inj h" and "validateRetentionPolicy p = Inr ()"
    and "reachable (reduceToolVmLeaseAuthorityState h) (\<lambda>_. True) (empty_lease_state p) s"
    and "ls_parent s = Retired g" and "reduceToolVmLeaseAuthorityState h s c = Inr s'"
  shows "live_generations s = {} \<and> (s' = s \<or> (\<exists>now. c = PruneTombstones now))"
proof -
  have inv: "lease_inv h s" using assms(1-3) by (rule reachable_lease_inv)
  with assms(4) have empty: "ls_leavesByPrincipal s = []" "ls_accessFencing s = []" "ls_retiring s = []"
    by (simp_all add: lease_inv_def parent_ok_def)
  have dead: "requireLiveLeaf h s a = Inr l \<Longrightarrow> False" for a l
    by (erule requireLiveLeaf_cases) (simp_all add: empty)
  from assms(5) have "s' = s \<or> (\<exists>now. c = PruneTombstones now)"
  proof (cases rule: reduce_shape)
    case (parent q)
    with assms(4,5) show ?thesis
      by (cases c) (auto simp: register_parent_def seal_parent_def retire_parent_def step_defs, auto simp: parent_rank_def split: parent_state.splits)
  qed (use dead assms(4) empty in auto)
  then show ?thesis using empty by (simp add: live_generations_def js_values_def)
qed

theorem retired_parent_quiescent_witness:
  "live_generations (demo_run (demo_destroyed @ [SealParent demo_gateway, RetireParent demo_gateway])) = {}"
proof -
  let ?s = "demo_run (demo_destroyed @ [SealParent demo_gateway, RetireParent demo_gateway])"
  have "ls_parent ?s = Retired demo_gateway" by code_simp
  moreover have "reduceToolVmLeaseAuthorityState id ?s (PruneTombstones 0) = Inr ?s" by code_simp
  ultimately show ?thesis
    using retired_parent_quiescent [OF inj_on_id demo_policy demo_reachable] by blast
qed

text \<open>
  Pruning twice is pruning once at the later of the two times; in particular pruning is idempotent and its order does not matter.
\<close>

theorem prune_tombstones_compose:
  "result_bind (prune_tombstones s n1) (\<lambda>s1. prune_tombstones s1 n2) = prune_tombstones s (max n1 n2)"
  by (auto simp: prune_tombstones_eq case_prod_unfold intro!: arg_cong2 [where f = "\<lambda>x y. s\<lparr>ls_useTombstones := x, ls_tombstones := y\<rparr>"] filter_cong)

text \<open>
  The canonical material that is hashed into a stable principal is an injective encoding of the principal: two principals with the same material are the same principal.
\<close>

theorem stable_principal_material_injective: "inj canonicalStablePrincipalMaterial"
  by (simp add: inj_def canonicalStablePrincipalMaterial_eq_iff)




text \<open>
  Destruction of an admitted leaf always begins: the leaf leaves current admission (its agent is free to be provisioned again), is found under access fencing as the destroying leaf, keeps all its uses, and every one of them is ambiguous, so none can be resumed, heartbeaten or ended.
\<close>

theorem begin_destruction_withdraws:
  assumes "inj h" and "lease_inv h s" and "requireLiveLeaf h s a = Inr l" and "admission_kind (lf_kind l)"
    and "l' = l\<lparr>lf_activeUses := rewrite_uses (leafRolloverAmbiguity at) (lf_activeUses l),
               lf_kind := Destroying (kind_runtimeBinding (lf_kind l)) (kind_sshBinding (lf_kind l)) r\<rparr>"
  shows "\<exists>s'. begin_destruction h s a at r = Inr s' \<and>
    js_get (ls_accessFencing s') (lf_leafGeneration l) = Some l' \<and>
    \<not> js_has (ls_currentPrincipalKey s') (agent_of l) \<and> requireLiveLeaf h s' a = Inr l' \<and>
    js_keys (lf_activeUses l') = js_keys (lf_activeUses l) \<and>
    list_all (\<lambda>u. case au_kind u of Ambiguous _ _ \<Rightarrow> True | _ \<Rightarrow> False) (js_values (lf_activeUses l'))"
proof -
  have same: "same_leaf l l'" using assms(5) by simp
  have admitted: "js_get (ls_leavesByPrincipal s) (stablePrincipalKey h (lf_principal l)) = Some l"
    by (rule live_leaf_cases [OF assms(2,3)])
       (use assms(4) kind_disjoint fencing_kind_def in blast)+
  have kind: "\<not> is_destroying (lf_kind l) \<and> \<not> is_owner_unsafe (lf_kind l) \<and> \<not> is_retiring (lf_kind l)"
    using assms(4) by (rule kind_disjoint)
  note facts = leaf_facts [OF assms(2) admitted]
  let ?m = "s\<lparr>ls_accessFencing := js_set (lf_leafGeneration l) l' (ls_accessFencing s)\<rparr>"
  let ?s' = "withdraw_leaf h l' ?m"
  have step: "begin_destruction h s a at r = Inr ?s'"
    using assms(3,5) kind facts(6) requireLiveLeaf_exact_parent [OF assms(3)]
    by (auto simp: begin_destruction_def replaceLeaf_def js_has_def)
  have "requireLiveLeaf h ?s' a = Inr l'"
    using requireLiveLeaf_facts [OF assms(3)] live_generation [OF assms(2,3)] live_principal [OF assms(1-3)] assms(5)
    by (intro requireLiveLeaf_fencing) (simp_all add: js_get_set)
  moreover have "\<not> js_has (ls_currentPrincipalKey ?s') (agent_of l)"
    using admitted facts(4) assms(5)
    by (simp add: withdraw_leaf_def removesCurrentLeaf_def js_has_def js_get_delete agent_of_def)
  moreover have "js_keys (lf_activeUses l') = js_keys (lf_activeUses l)"
    using assms(5) by (auto simp: js_keys_def rewrite_uses_def)
  moreover have "list_all (\<lambda>u. case au_kind u of Ambiguous _ _ \<Rightarrow> True | _ \<Rightarrow> False) (js_values (lf_activeUses l'))"
    using uses_ok_not_terminal [OF facts(3)] assms(5)
    by (auto simp: list_all_iff js_values_def rewrite_uses_def leafRolloverAmbiguity_def split: active_use_kind.splits)
  ultimately show ?thesis using step by (simp add: js_get_set)
qed

theorem begin_destruction_withdraws_witness:
  "js_keys (lf_activeUses (the (js_get (ls_accessFencing
     (demo_run (demo_serving @ [BeginDestruction (demo_authority ''1'') 5 ''r'']))) ''1''))) = [''x'']"
proof -
  let ?s = "demo_run demo_serving" and ?a = "demo_authority ''1''"
  let ?l = "the (js_get (ls_leavesByPrincipal ?s) demo_key)"
  have live: "requireLiveLeaf id ?s ?a = Inr ?l" and "admission_kind (lf_kind ?l)"
    and gen: "lf_leafGeneration ?l = ''1''" and keys: "js_keys (lf_activeUses ?l) = [''x'']"
    by code_simp+
  from begin_destruction_withdraws [OF inj_on_id demo_inv this(1,2) refl, of 5 "''r''"] gen keys
  obtain s' where "begin_destruction id ?s ?a 5 ''r'' = Inr s'"
    and "js_keys (lf_activeUses (the (js_get (ls_accessFencing s') ''1''))) = [''x'']" by auto
  then show ?thesis by (simp add: run_commands_append apply_command_def)
qed

text \<open>
  Completing a destruction succeeds exactly when the leaf is destroying or retiring, the reported VM is the one bound, and the leaf tombstones have room; evidence of ambiguous uses never blocks it.
\<close>

theorem destruction_completed_iff:
  assumes "lease_inv h s"
  shows "(\<exists>s'. destruction_completed h s a at r vm = Inr s') \<longleftrightarrow>
    (\<exists>l. requireLiveLeaf h s a = Inr l \<and> (is_destroying (lf_kind l) \<or> is_retiring (lf_kind l)) \<and>
      (vm = None \<or> kind_runtimeBinding (lf_kind l) = None \<or> vm = map_option rb_vmId (kind_runtimeBinding (lf_kind l))) \<and>
      int (js_size (ls_tombstones s)) < rt_maxLeafTombstones (ls_retentionPolicy s))"
  using live_leaf_untombed [OF assms, of a] requireLiveLeaf_exact_parent [of h s a]
  by (cases "requireLiveLeaf h s a") (auto simp: destruction_completed_def step_defs js_has_def lease_guard_simps)

theorem destruction_completed_iff_witness:
  "\<exists>s'. destruction_completed id (demo_run (demo_serving @ [BeginDestruction (demo_authority ''1'') 5 ''r'']))
     (demo_authority ''1'') 9 ''r'' (Some ''m'') = Inr s'"
proof -
  let ?s = "demo_run (demo_serving @ [BeginDestruction (demo_authority ''1'') 5 ''r''])"
    and ?a = "demo_authority ''1''"
  let ?f = "the (js_get (ls_accessFencing ?s) ''1'')"
  have "requireLiveLeaf id ?s ?a = Inr ?f" by code_simp
  moreover have "is_destroying (lf_kind ?f)" by code_simp
  moreover have "Some ''m'' = map_option rb_vmId (kind_runtimeBinding (lf_kind ?f))" by code_simp
  moreover have "int (js_size (ls_tombstones ?s)) < rt_maxLeafTombstones (ls_retentionPolicy ?s)" by code_simp
  ultimately show ?thesis using destruction_completed_iff [OF demo_inv] by blast
qed

text \<open>
  C7: A session that disconnects and resumes with a later attachment before the grace period has passed finds its use again: running under the new attachment, everything else of it unchanged, and no use of the leaf lost.
\<close>

theorem observation_gap_round_trip:
  assumes "lease_inv h s" and "ls_parent s = Registered (la_gateway a)"
    and "requireLiveLeaf h s a = Inr l" and "is_current (lf_kind l)"
    and "js_get (lf_activeUses l) (ru_useId c) = Some u" and "au_kind u = Running hb g"
    and "au_processEpoch u = ru_processEpoch c"
    and "session_disconnected s (la_gateway a) at (ru_processEpoch c) g = Inr s1"
    and "ru_nowMs c < at + rt_observationGapGraceMs (ls_retentionPolicy s)"
    and "g < ru_sessionAttachmentGeneration c"
  shows "\<exists>s2 l2. resume_active_use h s1 a c = Inr s2 \<and> requireLiveLeaf h s2 a = Inr l2 \<and>
    js_get (lf_activeUses l2) (ru_useId c) =
      Some (u\<lparr>au_kind := Running (ru_lastHeartbeatAtMs c) (ru_sessionAttachmentGeneration c)\<rparr>) \<and>
    js_keys (lf_activeUses l2) = js_keys (lf_activeUses l)"
proof -
  let ?k = "stablePrincipalKey h (la_principal a)" and ?p = "ls_retentionPolicy s"
  let ?f = "disconnect_use ?p at (ru_processEpoch c) g"
  let ?d = "\<lambda>l. if is_current (lf_kind l) \<or> is_suspect (lf_kind l)
      then l\<lparr>lf_activeUses := rewrite_uses ?f (lf_activeUses l)\<rparr> else l"
  have at: "js_get (ls_leavesByPrincipal s) ?k = Some l \<and> lf_leafGeneration l = la_leafGeneration a \<and> lf_leaseId l = la_leaseId a"
    using live_current_iff [OF assms(1,2), of l] assms(3,4) by blast
  have inv1: "lease_inv h s1" using session_disconnected_inv [OF assms(1,8)] .
  have s1: "s1 = s\<lparr>ls_leavesByPrincipal := map (\<lambda>(k, l). (k, ?d l)) (ls_leavesByPrincipal s)\<rparr>"
    using assms(8) by (auto simp: session_disconnected_def step_defs)
  let ?l1 = "l\<lparr>lf_activeUses := rewrite_uses ?f (lf_activeUses l)\<rparr>"
  have live1: "requireLiveLeaf h s1 a = Inr ?l1"
    using live_current_iff [OF inv1, of a ?l1] at assms(2,4) by (simp add: s1 js_get_map_values)
  have u1: "js_get (lf_activeUses ?l1) (ru_useId c) =
      Some (u\<lparr>au_kind := ObservationGap hb at (at + rt_observationGapGraceMs ?p) g\<rparr>)"
    using assms(5-7) by (simp add: rewrite_uses_def js_get_map_values disconnect_use_def)
  let ?u2 = "u\<lparr>au_kind := Running (ru_lastHeartbeatAtMs c) (ru_sessionAttachmentGeneration c)\<rparr>"
  let ?l2 = "?l1\<lparr>lf_activeUses := js_set (ru_useId c) ?u2 (lf_activeUses ?l1)\<rparr>"
  have reg1: "ls_parent s1 = Registered (la_gateway a)" using assms(2) by (simp add: s1)
  have at1: "js_get (ls_leavesByPrincipal s1) ?k = Some ?l1"
    using live_current_iff [OF inv1 reg1, of ?l1] live1 assms(4) by simp
  let ?s2 = "s1\<lparr>ls_leavesByPrincipal := js_set ?k ?l2 (ls_leavesByPrincipal s1),
     ls_currentPrincipalKey := js_set (agent_of ?l1) ?k (ls_currentPrincipalKey s1)\<rparr>"
  have put: "replaceLeaf h s1 ?l2 = Inr ?s2"
    using assms(4) by (intro replaceLeaf_admitted [OF inv1 at1]) (simp_all add: serving_admission same_leaf_def)
  have step: "resume_active_use h s1 a c = Inr ?s2"
    using requireAdmittingParent_live [OF live1 reg1] live1 u1 put assms(4,7,9,10)
    by (simp add: resume_active_use_def)
  have "lease_inv h ?s2" using inv1 step by (rule resume_active_use_inv)
  then have "requireLiveLeaf h ?s2 a = Inr ?l2"
    using live_current_iff [of h ?s2 a ?l2] reg1 at assms(4) by (simp add: js_get_set)
  moreover have "js_keys (lf_activeUses ?l2) = js_keys (lf_activeUses l)"
    using u1 by (simp add: js_keys_put)
  ultimately show ?thesis using step by (intro exI [of _ ?s2] exI [of _ ?l2]) (simp add: js_get_set)
qed

definition demo_resume :: resume_input where
  "demo_resume = \<lparr>ru_lastHeartbeatAtMs = 30, ru_nowMs = 40, ru_processEpoch = ''e'',
     ru_sessionAttachmentGeneration = 2, ru_useId = ''x''\<rparr>"

theorem observation_gap_round_trip_witness:
  "\<exists>s2. resume_active_use id (demo_run (demo_serving @ [SessionDisconnected demo_gateway 20 ''e'' 1]))
     (demo_authority ''1'') demo_resume = Inr s2"
proof -
  let ?s = "demo_run demo_serving" and ?a = "demo_authority ''1''"
    and ?s1 = "demo_run (demo_serving @ [SessionDisconnected demo_gateway 20 ''e'' 1])"
  let ?l = "the (js_get (ls_leavesByPrincipal ?s) demo_key)"
  let ?u = "the (js_get (lf_activeUses ?l) (ru_useId demo_resume))"
  have "ls_parent ?s = Registered (la_gateway ?a)" by code_simp
  moreover have "requireLiveLeaf id ?s ?a = Inr ?l" by code_simp
  moreover have "is_current (lf_kind ?l)" by code_simp
  moreover have "js_get (lf_activeUses ?l) (ru_useId demo_resume) = Some ?u" by code_simp
  moreover have "au_kind ?u = Running 1 1" by code_simp
  moreover have "au_processEpoch ?u = ru_processEpoch demo_resume" by code_simp
  moreover have "session_disconnected ?s (la_gateway ?a) 20 (ru_processEpoch demo_resume) 1 = Inr ?s1" by code_simp
  moreover have "ru_nowMs demo_resume < 20 + rt_observationGapGraceMs (ls_retentionPolicy ?s)" by code_simp
  moreover have "1 < ru_sessionAttachmentGeneration demo_resume" by code_simp
  ultimately show ?thesis using observation_gap_round_trip [OF demo_inv] by blast
qed

text \<open>
  C4: Rollover: while the predecessor of the same agent is being fenced, committing the provisioned successor is refused; as soon as the last predecessor is fenced the same commit succeeds and the successor is current.
\<close>

theorem rollover_unblocks_successor:
  assumes "inj h" and "lease_inv h s" and "requireLiveLeaf h s a = Inr f" and "is_destroying (lf_kind f)"
    and "js_get (ls_leavesByPrincipal s) k = Some l" and "lf_kind l = Provisioning"
    and "b = \<lparr>la_gateway = la_gateway a, la_leaseId = lf_leaseId l, la_leafGeneration = lf_leafGeneration l,
              la_principal = lf_principal l\<rparr>"
    and "agent_of l = agent_of f" and "access_fenced h s a = Inr s1"
    and "filter (\<lambda>x. agent_of x = agent_of l) (js_values (ls_accessFencing s)) = [f]"
  shows "commit_current h s b rb sb = Inl (TransitionError PredecessorAccessNotFenced) \<and>
    (\<exists>s2. commit_current h s1 b rb sb = Inr s2 \<and>
       js_get (ls_leavesByPrincipal s2) k = Some (l\<lparr>lf_kind := Current rb sb\<rparr>))"
proof -
  have live: "requireLiveLeaf h t b = Inr l" if "lease_inv h t" "ls_parent t = ls_parent s"
    "js_get (ls_leavesByPrincipal t) k = Some l" for t
    using leaf_facts [OF that(1,3)] that(2,3) requireLiveLeaf_facts(1,2) [OF assms(3)] assms(7)
    by (simp add: requireLiveLeaf_def requireExactParent_def tombstoneForAuthority_def)
  have exact: "requireExactParent t (la_gateway b) = Inr (ls_parent t)" if "ls_parent t = ls_parent s" for t
    using that requireLiveLeaf_facts(1,2) [OF assms(3)] assms(7) by (simp add: requireExactParent_def)
  have "f \<in> set (filter (\<lambda>x. agent_of x = agent_of l) (js_values (ls_accessFencing s)))"
    unfolding assms(10) by simp
  then have "f \<in> set (js_values (ls_accessFencing s)) \<and> agent_of f = agent_of l" by simp
  then have blocked: "commit_current h s b rb sb = Inl (TransitionError PredecessorAccessNotFenced)"
    using exact [of s] live [OF assms(2) refl assms(5)] assms(6,7) by (auto simp: commit_current_def agent_of_def)
  have kind: "\<not> admission_kind (lf_kind f)" using assms(4) by (cases "lf_kind f") simp_all
  have with_s: "withdraw_leaf h f s = s" using withdraw_live [OF assms(2,3) kind] .
  have inv1: "lease_inv h s1" using access_fenced_inv [OF assms(2,9)] .
  have s1: "ls_leavesByPrincipal s1 = ls_leavesByPrincipal s" "ls_parent s1 = ls_parent s"
    "ls_accessFencing s1 = js_delete (lf_leafGeneration f) (ls_accessFencing s)"
    using assms(3,4,9) with_s by (auto simp: access_fenced_def step_defs)
  have free: "agent_of p \<noteq> agent_of l" if "p \<in> set (js_values (ls_accessFencing s1))" for p
  proof
    assume ag: "agent_of p = agent_of l"
    have ok: "js_map_ok (ls_accessFencing s)" "js_map_ok (ls_accessFencing s1)"
      using assms(2) inv1 by (simp_all add: lease_inv_def maps_ok_def)
    from that obtain g where "js_get (ls_accessFencing s1) g = Some p"
      unfolding js_value_iff [OF ok(2)] by blast
    then have g: "g \<noteq> lf_leafGeneration f" "js_get (ls_accessFencing s) g = Some p"
      by (simp_all add: s1(3) js_get_delete split: if_splits)
    then have "p \<in> set (filter (\<lambda>x. agent_of x = agent_of l) (js_values (ls_accessFencing s)))"
      using ag by (simp add: js_get_value)
    with assms(10) have "p = f" by simp
    with fencing_facts(1) [OF assms(2) g(2)] g(1) show False by simp
  qed
  have "js_get (ls_leavesByPrincipal s1) k = Some l" using s1(1) assms(5) by simp
  then have "\<exists>s2. commit_current h s1 b rb sb = Inr s2 \<and>
       js_get (ls_leavesByPrincipal s2) k = Some (l\<lparr>lf_kind := Current rb sb\<rparr>)"
    using exact [OF s1(2)] live [OF inv1 s1(2)] free assms(6,7)
      replaceLeaf_admitted [OF inv1, of k l "l\<lparr>lf_kind := Current rb sb\<rparr>"]
    by (auto simp: commit_current_def agent_of_def js_get_set)
  with blocked show ?thesis by simp
qed

definition demo_rollover :: "lease_command list" where
  "demo_rollover = demo_serving @ [BeginDestruction (demo_authority ''1'') 5 ''rollover'',
     BeginProvisioning (demo_authority ''2'') demo_compatibility 2000]"

theorem rollover_unblocks_successor_witness:
  "commit_current id (demo_run demo_rollover) (demo_authority ''2'') demo_runtime demo_ssh =
     Inl (TransitionError PredecessorAccessNotFenced) \<and>
   (\<exists>s2. commit_current id (demo_run (demo_rollover @ [AccessFenced (demo_authority ''1'')]))
     (demo_authority ''2'') demo_runtime demo_ssh = Inr s2)"
proof -
  let ?s = "demo_run demo_rollover" and ?a = "demo_authority ''1''"
    and ?s1 = "demo_run (demo_rollover @ [AccessFenced (demo_authority ''1'')])"
  let ?f = "the (js_get (ls_accessFencing ?s) ''1'')" and ?l = "the (js_get (ls_leavesByPrincipal ?s) demo_key)"
  have "requireLiveLeaf id ?s ?a = Inr ?f" by code_simp
  moreover have "is_destroying (lf_kind ?f)" by code_simp
  moreover have "js_get (ls_leavesByPrincipal ?s) demo_key = Some ?l" by code_simp
  moreover have "lf_kind ?l = Provisioning" by code_simp
  moreover have "demo_authority ''2'' = \<lparr>la_gateway = la_gateway ?a, la_leaseId = lf_leaseId ?l,
      la_leafGeneration = lf_leafGeneration ?l, la_principal = lf_principal ?l\<rparr>" by code_simp
  moreover have "agent_of ?l = agent_of ?f" by code_simp
  moreover have "access_fenced id ?s ?a = Inr ?s1" by code_simp
  moreover have "filter (\<lambda>x. agent_of x = agent_of ?l) (js_values (ls_accessFencing ?s)) = [?f]" by code_simp
  ultimately show ?thesis using rollover_unblocks_successor [OF inj_on_id demo_inv] by blast
qed

end
