(* ===== verification/AdmissionScheduler.thy ===== *)
theory AdmissionScheduler
  imports Prelude "HOL-Library.Multiset"
begin

text \<open>
  packages/gateway-control-contracts/src/gateway-control-admission.ts, first half: the limits, the
  messages, and the admission scheduler of one control session
  (\<open>createGatewayControlAdmissionScheduler\<close>). The closure's variables are the fields of
  \<open>scheduler\<close>; a completion token, a fresh \<open>Symbol\<close> in the code, is a natural
  number that the caller of \<open>dequeue\<close> supplies, and the theory of the process admission
  draws them all from one supply. Objects the code mutates in place are only reachable from the
  closure, so replacing them in the record is what the code does.
\<close>

section \<open>Limits and messages\<close>

record admission_limit =
  al_maxBytes :: int
  al_maxMessages :: int

datatype admission_class = Authority | Diagnostic | Liveness | Safety

definition class_limit :: "admission_class \<Rightarrow> admission_limit" where
  "class_limit c =
     (case c of
        Authority \<Rightarrow> \<lparr>al_maxBytes = 1572864, al_maxMessages = 96\<rparr>
      | Diagnostic \<Rightarrow> \<lparr>al_maxBytes = 1048576, al_maxMessages = 64\<rparr>
      | Liveness \<Rightarrow> \<lparr>al_maxBytes = 1048576, al_maxMessages = 64\<rparr>
      | Safety \<Rightarrow> \<lparr>al_maxBytes = 524288, al_maxMessages = 32\<rparr>)"

definition maxFrameBytes :: int where
  "maxFrameBytes = 65536"

definition perPrincipalAuthority :: admission_limit where
  "perPrincipalAuthority = \<lparr>al_maxBytes = 131072, al_maxMessages = 8\<rparr>"

record 'p message =
  am_byteLength :: int
  am_coalesceKey :: "string option"
  am_id :: string
  am_class :: admission_class
  am_payload :: 'p
  am_stablePrincipal :: "string option"

datatype capacity_reason =
  DiagnosticCapacity | LivenessCapacity | PrincipalCapacity | GlobalCapacity
| AuthorityCapacity | FrameTooLarge | InvalidMessage | SafetyCapacity

datatype 'm admission_result =
  Admitted
| Replaced (replaced_message: 'm)
| Dropped capacity_reason
| Shed capacity_reason
| Refused capacity_reason
| Fence capacity_reason

record accounting =
  qa_byteCount :: int
  qa_messageCount :: int

record 'm authority_queue =
  aq_accounting :: accounting
  aq_messages :: "'m list"

definition serviceCycle :: "admission_class list" where
  "serviceCycle =
     [Safety, Safety, Safety, Safety, Safety, Safety, Safety, Safety,
      Authority, Authority, Authority, Authority, Liveness, Liveness, Diagnostic]"

definition no_accounting :: accounting where
  "no_accounting = \<lparr>qa_byteCount = 0, qa_messageCount = 0\<rparr>"

definition canReserve :: "accounting \<Rightarrow> int \<Rightarrow> admission_limit \<Rightarrow> bool" where
  "canReserve a n limit \<longleftrightarrow>
     qa_byteCount a + n \<le> al_maxBytes limit \<and> qa_messageCount a + 1 \<le> al_maxMessages limit"

definition reserve :: "accounting \<Rightarrow> int \<Rightarrow> accounting" where
  "reserve a n = a\<lparr>qa_byteCount := qa_byteCount a + n, qa_messageCount := qa_messageCount a + 1\<rparr>"

definition release :: "accounting \<Rightarrow> int \<Rightarrow> accounting" where
  "release a n = a\<lparr>qa_byteCount := qa_byteCount a - n, qa_messageCount := qa_messageCount a - 1\<rparr>"

definition or_empty :: "string option \<Rightarrow> string" where
  "or_empty x = (case x of None \<Rightarrow> [] | Some v \<Rightarrow> v)"

definition validateMessage :: "('p, 'z) message_scheme \<Rightarrow> 'r admission_result option" where
  "validateMessage m =
     (if am_id m = [] \<or> \<not> is_safe_integer (am_byteLength m) \<or> am_byteLength m \<le> 0
      then Some (Fence InvalidMessage)
      else if am_byteLength m > maxFrameBytes then Some (Fence FrameTooLarge)
      else if am_class m = Authority \<and> or_empty (am_stablePrincipal m) = []
      then Some (Fence InvalidMessage)
      else if (am_class m = Diagnostic \<or> am_class m = Liveness) \<and> or_empty (am_coalesceKey m) = []
      then Some (Fence InvalidMessage)
      else None)"

section \<open>The scheduler\<close>

record 'm scheduler =
  sc_safety :: "'m list"
  sc_safetyAccounting :: accounting
  sc_authorityByPrincipal :: "(string, 'm authority_queue) js_map"
  sc_authorityPrincipalOrder :: "string list"
  sc_authorityAccounting :: accounting
  sc_livenessByKey :: "(string, 'm) js_map"
  sc_livenessAccounting :: accounting
  sc_diagnosticByKey :: "(string, 'm) js_map"
  sc_diagnosticAccounting :: accounting
  sc_inFlight :: "(nat, 'm) js_map"
  sc_serviceCursor :: nat
  sc_authorityPrincipalCursor :: nat
  sc_coalesced :: int
  sc_dropped :: int
  sc_fenced :: int
  sc_refused :: int
  sc_shed :: int

definition empty_scheduler :: "'m scheduler" where
  "empty_scheduler =
     \<lparr>sc_safety = [], sc_safetyAccounting = no_accounting,
      sc_authorityByPrincipal = [], sc_authorityPrincipalOrder = [],
      sc_authorityAccounting = no_accounting,
      sc_livenessByKey = [], sc_livenessAccounting = no_accounting,
      sc_diagnosticByKey = [], sc_diagnosticAccounting = no_accounting,
      sc_inFlight = [], sc_serviceCursor = 0, sc_authorityPrincipalCursor = 0,
      sc_coalesced = 0, sc_dropped = 0, sc_fenced = 0, sc_refused = 0, sc_shed = 0\<rparr>"

section \<open>Enqueue\<close>

definition enqueue_safety :: "('p, 'z) message_scheme \<Rightarrow> ('p, 'z) message_scheme scheduler
    \<Rightarrow> ('p, 'z) message_scheme admission_result \<times> ('p, 'z) message_scheme scheduler" where
  "enqueue_safety m s =
     (if \<not> canReserve (sc_safetyAccounting s) (am_byteLength m) (class_limit Safety)
      then (Fence SafetyCapacity, s\<lparr>sc_fenced := sc_fenced s + 1\<rparr>)
      else (Admitted, s\<lparr>sc_safety := sc_safety s @ [m],
                        sc_safetyAccounting := reserve (sc_safetyAccounting s) (am_byteLength m)\<rparr>))"

definition empty_authority_queue :: "'m authority_queue" where
  "empty_authority_queue = \<lparr>aq_accounting = no_accounting, aq_messages = []\<rparr>"

definition authority_queue_of :: "'m scheduler \<Rightarrow> string \<Rightarrow> 'm authority_queue" where
  "authority_queue_of s p =
     (case js_get (sc_authorityByPrincipal s) p of None \<Rightarrow> empty_authority_queue | Some q \<Rightarrow> q)"

definition enqueue_authority :: "('p, 'z) message_scheme \<Rightarrow> ('p, 'z) message_scheme scheduler
    \<Rightarrow> ('p, 'z) message_scheme admission_result \<times> ('p, 'z) message_scheme scheduler" where
  "enqueue_authority m s =
     (let p = or_empty (am_stablePrincipal m);
          q = authority_queue_of s p;
          n = am_byteLength m
      in if \<not> canReserve (aq_accounting q) n perPrincipalAuthority
         then (Refused PrincipalCapacity, s\<lparr>sc_refused := sc_refused s + 1\<rparr>)
         else if \<not> canReserve (sc_authorityAccounting s) n (class_limit Authority)
         then (Fence AuthorityCapacity, s\<lparr>sc_fenced := sc_fenced s + 1\<rparr>)
         else (Admitted,
           s\<lparr>sc_authorityByPrincipal :=
               js_set p \<lparr>aq_accounting = reserve (aq_accounting q) n, aq_messages = aq_messages q @ [m]\<rparr>
                 (sc_authorityByPrincipal s),
             sc_authorityPrincipalOrder :=
               (if js_has (sc_authorityByPrincipal s) p then sc_authorityPrincipalOrder s
                else sc_authorityPrincipalOrder s @ [p]),
             sc_authorityAccounting := reserve (sc_authorityAccounting s) n\<rparr>))"

text \<open>
  The shared branch of liveness and diagnostic messages: one queued message per key, the newer
  one replacing the older in its place, with the accounting adjusted by the difference.
\<close>

definition coalesce :: "('p, 'z) message_scheme \<Rightarrow> (string, ('p, 'z) message_scheme) js_map \<Rightarrow> accounting
    \<Rightarrow> admission_limit
    \<Rightarrow> (('p, 'z) message_scheme option \<times> (string, ('p, 'z) message_scheme) js_map \<times> accounting) option" where
  "coalesce m messages acc limit =
     (let key = or_empty (am_coalesceKey m);
          prior = js_get messages key;
          nextBytes = qa_byteCount acc - (case prior of None \<Rightarrow> 0 | Some x \<Rightarrow> am_byteLength x) + am_byteLength m;
          nextMessages = qa_messageCount acc + (if prior = None then 1 else 0)
      in if nextBytes > al_maxBytes limit \<or> nextMessages > al_maxMessages limit then None
         else Some (prior, js_set key m messages,
                    \<lparr>qa_byteCount = nextBytes, qa_messageCount = nextMessages\<rparr>))"

definition coalesced_result :: "'m option \<Rightarrow> 'm admission_result" where
  "coalesced_result prior = (case prior of None \<Rightarrow> Admitted | Some x \<Rightarrow> Replaced x)"

definition enqueue_coalesced :: "('p, 'z) message_scheme \<Rightarrow> ('p, 'z) message_scheme scheduler
    \<Rightarrow> ('p, 'z) message_scheme admission_result \<times> ('p, 'z) message_scheme scheduler" where
  "enqueue_coalesced m s =
     (if am_class m = Liveness
      then (case coalesce m (sc_livenessByKey s) (sc_livenessAccounting s) (class_limit Liveness) of
              None \<Rightarrow> (Shed LivenessCapacity, s\<lparr>sc_shed := sc_shed s + 1\<rparr>)
            | Some (prior, messages, acc) \<Rightarrow>
                (coalesced_result prior,
                 s\<lparr>sc_livenessByKey := messages, sc_livenessAccounting := acc,
                   sc_coalesced := sc_coalesced s + (if prior = None then 0 else 1)\<rparr>))
      else (case coalesce m (sc_diagnosticByKey s) (sc_diagnosticAccounting s) (class_limit Diagnostic) of
              None \<Rightarrow> (Dropped DiagnosticCapacity, s\<lparr>sc_dropped := sc_dropped s + 1\<rparr>)
            | Some (prior, messages, acc) \<Rightarrow>
                (coalesced_result prior,
                 s\<lparr>sc_diagnosticByKey := messages, sc_diagnosticAccounting := acc,
                   sc_coalesced := sc_coalesced s + (if prior = None then 0 else 1)\<rparr>)))"

definition enqueue :: "('p, 'z) message_scheme \<Rightarrow> ('p, 'z) message_scheme scheduler
    \<Rightarrow> ('p, 'z) message_scheme admission_result \<times> ('p, 'z) message_scheme scheduler" where
  "enqueue m s =
     (case validateMessage m of
        Some invalid \<Rightarrow> (invalid, s\<lparr>sc_fenced := sc_fenced s + 1\<rparr>)
      | None \<Rightarrow>
          (case am_class m of
             Safety \<Rightarrow> enqueue_safety m s
           | Authority \<Rightarrow> enqueue_authority m s
           | _ \<Rightarrow> enqueue_coalesced m s))"

section \<open>Dequeue\<close>

fun dequeue_authority_from :: "nat list \<Rightarrow> 'm scheduler \<Rightarrow> ('m \<times> 'm scheduler) option" where
  "dequeue_authority_from [] s = None"
| "dequeue_authority_from (offset # offsets) s =
     (let order = sc_authorityPrincipalOrder s;
          index = (sc_authorityPrincipalCursor s + offset) mod length order;
          principal = order ! index
      in case js_get (sc_authorityByPrincipal s) principal of
           None \<Rightarrow> dequeue_authority_from offsets s
         | Some q \<Rightarrow>
             (case aq_messages q of
                [] \<Rightarrow> dequeue_authority_from offsets s
              | m # rest \<Rightarrow>
                  Some (m, s\<lparr>sc_authorityByPrincipal :=
                               js_set principal (q\<lparr>aq_messages := rest\<rparr>) (sc_authorityByPrincipal s),
                             sc_authorityPrincipalCursor := (index + 1) mod length order\<rparr>)))"

definition dequeueAuthority :: "'m scheduler \<Rightarrow> ('m \<times> 'm scheduler) option" where
  "dequeueAuthority s = dequeue_authority_from [0..<length (sc_authorityPrincipalOrder s)] s"

definition dequeueFirstCoalescedMessage :: "(string, 'm) js_map \<Rightarrow> ('m \<times> (string, 'm) js_map) option" where
  "dequeueFirstCoalescedMessage messages =
     (case messages of [] \<Rightarrow> None | (k, m) # _ \<Rightarrow> Some (m, js_delete k messages))"

definition dequeueClass :: "admission_class \<Rightarrow> 'm scheduler \<Rightarrow> ('m \<times> 'm scheduler) option" where
  "dequeueClass c s =
     (case c of
        Safety \<Rightarrow> (case sc_safety s of [] \<Rightarrow> None | m # rest \<Rightarrow> Some (m, s\<lparr>sc_safety := rest\<rparr>))
      | Authority \<Rightarrow> dequeueAuthority s
      | Liveness \<Rightarrow> map_option (\<lambda>(m, rest). (m, s\<lparr>sc_livenessByKey := rest\<rparr>))
                      (dequeueFirstCoalescedMessage (sc_livenessByKey s))
      | Diagnostic \<Rightarrow> map_option (\<lambda>(m, rest). (m, s\<lparr>sc_diagnosticByKey := rest\<rparr>))
                      (dequeueFirstCoalescedMessage (sc_diagnosticByKey s)))"

text \<open>\<open>allowed\<close> is \<open>options.allowedMessageClasses\<close>.\<close>

fun dequeue_from :: "nat list \<Rightarrow> admission_class list option \<Rightarrow> nat \<Rightarrow> 'm scheduler
    \<Rightarrow> 'm option \<times> 'm scheduler" where
  "dequeue_from [] allowed token s = (None, s)"
| "dequeue_from (offset # offsets) allowed token s =
     (let index = (sc_serviceCursor s + offset) mod length serviceCycle;
          c = serviceCycle ! index
      in if (case allowed of None \<Rightarrow> False | Some cs \<Rightarrow> c \<notin> set cs)
         then dequeue_from offsets allowed token s
         else case dequeueClass c s of
                None \<Rightarrow> dequeue_from offsets allowed token s
              | Some (m, s') \<Rightarrow>
                  (Some m, s'\<lparr>sc_serviceCursor := (index + 1) mod length serviceCycle,
                              sc_inFlight := js_set token m (sc_inFlight s')\<rparr>))"

definition dequeue :: "admission_class list option \<Rightarrow> nat \<Rightarrow> 'm scheduler \<Rightarrow> 'm option \<times> 'm scheduler" where
  "dequeue allowed token s = dequeue_from [0..<length serviceCycle] allowed token s"

section \<open>Complete and cancel\<close>

datatype scheduler_error = MessageNotInFlight | PrincipalNotAdmitted

text \<open>The place of a principal in the order; \<open>indexOf\<close>.\<close>

fun index_of :: "'a \<Rightarrow> 'a list \<Rightarrow> nat option" where
  "index_of x [] = None"
| "index_of x (y # ys) = (if x = y then Some 0 else map_option Suc (index_of x ys))"

definition splice_one :: "nat \<Rightarrow> 'a list \<Rightarrow> 'a list" where
  "splice_one i xs = take i xs @ drop (Suc i) xs"

definition clamp_cursor :: "nat \<Rightarrow> 'a list \<Rightarrow> nat" where
  "clamp_cursor cursor order = (if order = [] then 0 else min cursor (length order - 1))"

definition complete_authority :: "('p, 'z) message_scheme \<Rightarrow> ('p, 'z) message_scheme scheduler
    \<Rightarrow> (scheduler_error \<times> ('p, 'z) message_scheme scheduler) + ('p, 'z) message_scheme scheduler" where
  "complete_authority m s =
     (let p = or_empty (am_stablePrincipal m); n = am_byteLength m
      in case js_get (sc_authorityByPrincipal s) p of
           None \<Rightarrow> Inl (PrincipalNotAdmitted, s)
         | Some q \<Rightarrow>
             let q' = q\<lparr>aq_accounting := release (aq_accounting q) n\<rparr>;
                 s' = s\<lparr>sc_authorityByPrincipal := js_set p q' (sc_authorityByPrincipal s),
                        sc_authorityAccounting := release (sc_authorityAccounting s) n\<rparr>
             in if qa_messageCount (aq_accounting q') = 0
                then
                  (let s'' = s'\<lparr>sc_authorityByPrincipal := js_delete p (sc_authorityByPrincipal s')\<rparr>
                   in case index_of p (sc_authorityPrincipalOrder s) of
                        None \<Rightarrow> Inr s''
                      | Some i \<Rightarrow>
                          let order = splice_one i (sc_authorityPrincipalOrder s)
                          in Inr (s''\<lparr>sc_authorityPrincipalOrder := order,
                                      sc_authorityPrincipalCursor :=
                                        clamp_cursor (sc_authorityPrincipalCursor s) order\<rparr>))
                else Inr s')"

text \<open>A thrown error carries the state the scheduler is left in.\<close>

definition complete :: "nat \<Rightarrow> ('p, 'z) message_scheme scheduler
    \<Rightarrow> (scheduler_error \<times> ('p, 'z) message_scheme scheduler) + ('p, 'z) message_scheme scheduler" where
  "complete token s =
     (case js_get (sc_inFlight s) token of
        None \<Rightarrow> Inl (MessageNotInFlight, s)
      | Some m \<Rightarrow>
          let n = am_byteLength m; s' = s\<lparr>sc_inFlight := js_delete token (sc_inFlight s)\<rparr>
          in case am_class m of
               Safety \<Rightarrow> Inr (s'\<lparr>sc_safetyAccounting := release (sc_safetyAccounting s') n\<rparr>)
             | Authority \<Rightarrow> complete_authority m s'
             | Liveness \<Rightarrow> Inr (s'\<lparr>sc_livenessAccounting := release (sc_livenessAccounting s') n\<rparr>)
             | Diagnostic \<Rightarrow> Inr (s'\<lparr>sc_diagnosticAccounting := release (sc_diagnosticAccounting s') n\<rparr>))"

definition release_messages :: "('p, 'z) message_scheme list \<Rightarrow> accounting \<Rightarrow> accounting" where
  "release_messages ms a = fold (\<lambda>m a. release a (am_byteLength m)) ms a"

definition cancel_queue :: "('p, 'z) message_scheme authority_queue \<Rightarrow> ('p, 'z) message_scheme authority_queue" where
  "cancel_queue q = \<lparr>aq_accounting = release_messages (aq_messages q) (aq_accounting q), aq_messages = []\<rparr>"

definition queued_authority :: "'m scheduler \<Rightarrow> 'm list" where
  "queued_authority s = concat (map aq_messages (js_values (sc_authorityByPrincipal s)))"

definition cancelQueued :: "('p, 'z) message_scheme scheduler
    \<Rightarrow> ('p, 'z) message_scheme list \<times> ('p, 'z) message_scheme scheduler" where
  "cancelQueued s =
     (let authority = queued_authority s;
          byPrincipal = filter (\<lambda>(p, q). qa_messageCount (aq_accounting q) \<noteq> 0)
            (map (\<lambda>(p, q). (p, cancel_queue q)) (sc_authorityByPrincipal s));
          order = filter (js_has byPrincipal) (sc_authorityPrincipalOrder s);
          liveness = js_values (sc_livenessByKey s);
          diagnostic = js_values (sc_diagnosticByKey s)
      in (sc_safety s @ authority @ liveness @ diagnostic,
          s\<lparr>sc_safety := [],
            sc_safetyAccounting := release_messages (sc_safety s) (sc_safetyAccounting s),
            sc_authorityByPrincipal := byPrincipal,
            sc_authorityPrincipalOrder := order,
            sc_authorityAccounting := release_messages authority (sc_authorityAccounting s),
            sc_authorityPrincipalCursor := clamp_cursor (sc_authorityPrincipalCursor s) order,
            sc_livenessByKey := [],
            sc_livenessAccounting := release_messages liveness (sc_livenessAccounting s),
            sc_diagnosticByKey := [],
            sc_diagnosticAccounting := release_messages diagnostic (sc_diagnosticAccounting s)\<rparr>))"

section \<open>Diagnostics\<close>

record scheduler_diagnostics =
  sd_authority :: accounting
  sd_diagnostic :: accounting
  sd_liveness :: accounting
  sd_safety :: accounting
  sd_coalesced :: int
  sd_dropped :: int
  sd_fenced :: int
  sd_refused :: int
  sd_shed :: int

definition diagnostics :: "'m scheduler \<Rightarrow> scheduler_diagnostics" where
  "diagnostics s =
     \<lparr>sd_authority = sc_authorityAccounting s, sd_diagnostic = sc_diagnosticAccounting s,
      sd_liveness = sc_livenessAccounting s, sd_safety = sc_safetyAccounting s,
      sd_coalesced = sc_coalesced s, sd_dropped = sc_dropped s, sd_fenced = sc_fenced s,
      sd_refused = sc_refused s, sd_shed = sc_shed s\<rparr>"

end
