(* ===== verification/AdmissionInvariant.thy ===== *)
theory AdmissionInvariant
  imports AdmissionScheduler
begin

text \<open>
  The admission scheduler seen from outside: for every class, and for every principal, the
  multiset of the messages it holds (queued or in flight). The counters the code keeps are
  exactly the totals of these multisets and stay within the limits; an admission adds the
  message, a dequeue only moves it, a completion or a cancellation removes it.
\<close>

section \<open>Values of a map as a multiset\<close>

lemma js_mset_set_new:
  "js_get m k = None \<Longrightarrow> mset (js_values (js_set k v m)) = add_mset v (mset (js_values m))"
  by (induction m) (auto simp: js_values_def)

lemma js_mset_delete:
  "js_map_ok m \<Longrightarrow> js_get m k = Some x \<Longrightarrow> mset (js_values m) = add_mset x (mset (js_values (js_delete k m)))"
proof (induction m)
  case (Cons e m)
  then show ?case
    by (cases e) (auto simp: js_values_def js_map_ok_def js_delete_absent map_of_eq_None_iff)
qed simp

lemma js_mset_set_old:
  "js_map_ok m \<Longrightarrow> js_get m k = Some x \<Longrightarrow>
   mset (js_values (js_set k v m)) = add_mset v (mset (js_values (js_delete k m)))"
proof (induction m)
  case (Cons e m)
  then show ?case
    by (cases e) (auto simp: js_values_def js_map_ok_def js_delete_absent map_of_eq_None_iff)
qed simp

section \<open>What the scheduler holds\<close>

definition tot :: "('p, 'z) message_scheme multiset \<Rightarrow> accounting" where
  "tot M = \<lparr>qa_byteCount = (\<Sum>m\<in>#M. am_byteLength m), qa_messageCount = int (size M)\<rparr>"

lemma tot_empty [simp]: "tot {#} = no_accounting"
  by (simp add: tot_def no_accounting_def)

lemma tot_add_mset [simp]: "tot (add_mset m M) = reserve (tot M) (am_byteLength m)"
  by (simp add: tot_def reserve_def)

lemma release_reserve [simp]: "release (reserve a n) n = a"
  by (simp add: release_def reserve_def)

lemma release_messages_tot: "release_messages ms (tot (mset ms + M)) = tot M"
  by (induction ms) (simp_all add: release_messages_def)

definition mset_option :: "'a option \<Rightarrow> 'a multiset" where
  "mset_option x = (case x of None \<Rightarrow> {#} | Some v \<Rightarrow> {#v#})"

lemma mset_option_simps [simp]: "mset_option None = {#}" "mset_option (Some v) = {#v#}"
  by (simp_all add: mset_option_def)

definition queued :: "admission_class \<Rightarrow> 'm scheduler \<Rightarrow> 'm list" where
  "queued c s = (case c of
      Safety \<Rightarrow> sc_safety s
    | Authority \<Rightarrow> queued_authority s
    | Liveness \<Rightarrow> js_values (sc_livenessByKey s)
    | Diagnostic \<Rightarrow> js_values (sc_diagnosticByKey s))"

definition accounting_of :: "admission_class \<Rightarrow> 'm scheduler \<Rightarrow> accounting" where
  "accounting_of c s = (case c of
      Safety \<Rightarrow> sc_safetyAccounting s
    | Authority \<Rightarrow> sc_authorityAccounting s
    | Liveness \<Rightarrow> sc_livenessAccounting s
    | Diagnostic \<Rightarrow> sc_diagnosticAccounting s)"

definition in_flight :: "('p, 'z) message_scheme scheduler \<Rightarrow> ('p, 'z) message_scheme multiset" where
  "in_flight s = mset (js_values (sc_inFlight s))"

definition held :: "admission_class \<Rightarrow> ('p, 'z) message_scheme scheduler \<Rightarrow> ('p, 'z) message_scheme multiset" where
  "held c s = mset (queued c s) + filter_mset (\<lambda>m. am_class m = c) (in_flight s)"

definition of_principal :: "string \<Rightarrow> ('p, 'z) message_scheme \<Rightarrow> bool" where
  "of_principal p m \<longleftrightarrow> am_class m = Authority \<and> or_empty (am_stablePrincipal m) = p"

definition held_by :: "string \<Rightarrow> ('p, 'z) message_scheme scheduler \<Rightarrow> ('p, 'z) message_scheme multiset" where
  "held_by p s = mset (aq_messages (authority_queue_of s p)) + filter_mset (of_principal p) (in_flight s)"

definition within :: "admission_limit \<Rightarrow> accounting \<Rightarrow> bool" where
  "within limit a \<longleftrightarrow> qa_byteCount a \<le> al_maxBytes limit \<and> qa_messageCount a \<le> al_maxMessages limit"

lemma canReserve_within: "canReserve a n limit \<longleftrightarrow> within limit (reserve a n)"
  by (simp add: canReserve_def within_def reserve_def)

section \<open>The invariant\<close>

definition messages_ok :: "('p, 'z) message_scheme scheduler \<Rightarrow> bool" where
  "messages_ok s \<longleftrightarrow>
     (\<forall>m \<in> set (sc_safety s). am_class m = Safety) \<and>
     (\<forall>p q. js_get (sc_authorityByPrincipal s) p = Some q \<longrightarrow> (\<forall>m \<in> set (aq_messages q). of_principal p m)) \<and>
     (\<forall>k m. js_get (sc_livenessByKey s) k = Some m \<longrightarrow> am_class m = Liveness \<and> or_empty (am_coalesceKey m) = k) \<and>
     (\<forall>k m. js_get (sc_diagnosticByKey s) k = Some m \<longrightarrow> am_class m = Diagnostic \<and> or_empty (am_coalesceKey m) = k)"

definition scheduler_maps_ok :: "'m scheduler \<Rightarrow> bool" where
  "scheduler_maps_ok s \<longleftrightarrow> js_map_ok (sc_authorityByPrincipal s) \<and> js_map_ok (sc_livenessByKey s) \<and>
     js_map_ok (sc_diagnosticByKey s) \<and> js_map_ok (sc_inFlight s)"

definition cursors_ok :: "'m scheduler \<Rightarrow> bool" where
  "cursors_ok s \<longleftrightarrow> sc_authorityPrincipalOrder s = js_keys (sc_authorityByPrincipal s) \<and>
     sc_serviceCursor s < length serviceCycle \<and>
     (sc_authorityPrincipalCursor s = 0 \<or> sc_authorityPrincipalCursor s < length (sc_authorityPrincipalOrder s))"

definition accounts_ok :: "('p, 'z) message_scheme scheduler \<Rightarrow> bool" where
  "accounts_ok s \<longleftrightarrow>
     (\<forall>c. accounting_of c s = tot (held c s) \<and> within (class_limit c) (accounting_of c s)) \<and>
     (\<forall>p. aq_accounting (authority_queue_of s p) = tot (held_by p s) \<and>
        within perPrincipalAuthority (tot (held_by p s))) \<and>
     (\<forall>p. js_has (sc_authorityByPrincipal s) p \<longrightarrow> held_by p s \<noteq> {#}) \<and>
     (\<forall>c. \<forall>m \<in># held c s. 0 < am_byteLength m)"

definition sched_inv :: "('p, 'z) message_scheme scheduler \<Rightarrow> bool" where
  "sched_inv s \<longleftrightarrow> scheduler_maps_ok s \<and> messages_ok s \<and> cursors_ok s \<and> accounts_ok s"

lemma js_get_Nil [simp]: "js_get [] = (\<lambda>_. None)"
  by (simp add: fun_eq_iff)

lemma empty_scheduler_inv: "sched_inv empty_scheduler"
  by (auto simp: sched_inv_def scheduler_maps_ok_def messages_ok_def cursors_ok_def accounts_ok_def
      empty_scheduler_def js_keys_def serviceCycle_def accounting_of_def held_def queued_def in_flight_def
      queued_authority_def js_values_def held_by_def authority_queue_of_def empty_authority_queue_def
      within_def class_limit_def perPrincipalAuthority_def no_accounting_def js_has_def
      split: admission_class.split)

section \<open>The authority queues as one multiset\<close>

lemma queued_authority_mset:
  "mset (queued_authority s) = (\<Sum>q\<in>#mset (js_values (sc_authorityByPrincipal s)). mset (aq_messages q))"
  by (simp add: queued_authority_def mset_concat sum_mset_sum_list comp_def flip: mset_map)

lemma queued_authority_put:
  assumes "js_map_ok (sc_authorityByPrincipal s)"
  shows "mset (queued_authority (s\<lparr>sc_authorityByPrincipal := js_set p q (sc_authorityByPrincipal s)\<rparr>))
      + mset (aq_messages (authority_queue_of s p)) = mset (queued_authority s) + mset (aq_messages q)"
  using assms
  by (cases "js_get (sc_authorityByPrincipal s) p")
     (simp_all add: queued_authority_mset authority_queue_of_def empty_authority_queue_def
        js_mset_set_new js_mset_set_old js_mset_delete [of "sc_authorityByPrincipal s" p])

section \<open>Every operation keeps the invariant\<close>

lemmas sched_inv_parts = scheduler_maps_ok_def messages_ok_def cursors_ok_def

lemma held_frame:
  "queued c s' = queued c s \<Longrightarrow> sc_inFlight s' = sc_inFlight s \<Longrightarrow> held c s' = held c s"
  by (simp add: held_def in_flight_def)

lemma held_by_frame:
  "sc_authorityByPrincipal s' = sc_authorityByPrincipal s \<Longrightarrow> sc_inFlight s' = sc_inFlight s \<Longrightarrow>
   held_by p s' = held_by p s"
  by (simp add: held_by_def in_flight_def authority_queue_of_def)

lemma queued_frame:
  "sc_safety s' = sc_safety s \<Longrightarrow> queued Safety s' = queued Safety s"
  "sc_authorityByPrincipal s' = sc_authorityByPrincipal s \<Longrightarrow> queued Authority s' = queued Authority s"
  "sc_livenessByKey s' = sc_livenessByKey s \<Longrightarrow> queued Liveness s' = queued Liveness s"
  "sc_diagnosticByKey s' = sc_diagnosticByKey s \<Longrightarrow> queued Diagnostic s' = queued Diagnostic s"
  by (simp_all add: queued_def queued_authority_def)

text \<open>The counters that no part of the invariant reads.\<close>

definition same_queues :: "'m scheduler \<Rightarrow> 'm scheduler \<Rightarrow> bool" where
  "same_queues s s' \<longleftrightarrow> (\<exists>a b c d e. s' = s\<lparr>sc_coalesced := a, sc_dropped := b,
     sc_fenced := c, sc_refused := d, sc_shed := e\<rparr>)"

lemma same_queues_simps [simp]:
  "same_queues s (s\<lparr>sc_fenced := n\<rparr>)" "same_queues s (s\<lparr>sc_refused := n\<rparr>)"
  "same_queues s (s\<lparr>sc_shed := n\<rparr>)" "same_queues s (s\<lparr>sc_dropped := n\<rparr>)"
  "same_queues s (s\<lparr>sc_coalesced := n\<rparr>)"
  by (cases s; simp add: same_queues_def)+

lemma same_queues_fields:
  assumes "same_queues s s'"
  shows "sc_safety s' = sc_safety s" "sc_authorityByPrincipal s' = sc_authorityByPrincipal s"
    "sc_livenessByKey s' = sc_livenessByKey s" "sc_diagnosticByKey s' = sc_diagnosticByKey s"
    "sc_inFlight s' = sc_inFlight s" "sc_authorityPrincipalOrder s' = sc_authorityPrincipalOrder s"
    "sc_serviceCursor s' = sc_serviceCursor s"
    "sc_authorityPrincipalCursor s' = sc_authorityPrincipalCursor s" "accounting_of c s' = accounting_of c s"
    "queued c s' = queued c s" "authority_queue_of s' p = authority_queue_of s p"
  using assms by (cases c; auto simp: same_queues_def queued_def queued_authority_def accounting_of_def authority_queue_of_def)+

lemma same_queues_held: "same_queues s s' \<Longrightarrow> held c s' = held c s" "same_queues s s' \<Longrightarrow> held_by p s' = held_by p s"
  by (simp_all add: held_def held_by_def in_flight_def same_queues_fields)

lemma same_queues_inv: "same_queues s s' \<Longrightarrow> sched_inv s' = sched_inv s"
  by (simp add: sched_inv_def sched_inv_parts accounts_ok_def same_queues_fields same_queues_held)

lemma accounts_facts:
  assumes "sched_inv s"
  shows "accounting_of c s = tot (held c s)" "within (class_limit c) (tot (held c s))"
    "aq_accounting (authority_queue_of s p) = tot (held_by p s)" "within perPrincipalAuthority (tot (held_by p s))"
    "js_has (sc_authorityByPrincipal s) p \<Longrightarrow> held_by p s \<noteq> {#}"
    "m \<in># held c s \<Longrightarrow> 0 < am_byteLength m"
  using assms unfolding sched_inv_def accounts_ok_def by metis+

lemma sched_invI:
  assumes "scheduler_maps_ok s" and "messages_ok s" and "cursors_ok s"
    and "\<And>c. accounting_of c s = tot (held c s)" and "\<And>c. within (class_limit c) (tot (held c s))"
    and "\<And>p. aq_accounting (authority_queue_of s p) = tot (held_by p s)"
    and "\<And>p. within perPrincipalAuthority (tot (held_by p s))"
    and "\<And>p. js_has (sc_authorityByPrincipal s) p \<Longrightarrow> held_by p s \<noteq> {#}"
    and "\<And>c m. m \<in># held c s \<Longrightarrow> 0 < am_byteLength m"
  shows "sched_inv s"
  using assms by (simp add: sched_inv_def accounts_ok_def)

lemma enqueue_safety_inv:
  assumes inv: "sched_inv s" and cls: "am_class m = Safety" and pos: "0 < am_byteLength m"
    and room: "canReserve (sc_safetyAccounting s) (am_byteLength m) (class_limit Safety)"
    and s': "s' = s\<lparr>sc_safety := sc_safety s @ [m],
      sc_safetyAccounting := reserve (sc_safetyAccounting s) (am_byteLength m)\<rparr>"
  shows "sched_inv s' \<and> held c s' = (if c = Safety then add_mset m (held c s) else held c s)"
proof -
  note facts = accounts_facts [OF inv]
  have same: "sc_authorityByPrincipal s' = sc_authorityByPrincipal s" "sc_inFlight s' = sc_inFlight s"
    "sc_livenessByKey s' = sc_livenessByKey s" "sc_diagnosticByKey s' = sc_diagnosticByKey s"
    by (simp_all add: s')
  have held: "held c s' = (if c = Safety then add_mset m (held c s) else held c s)" for c
    by (cases c) (simp_all add: held_def queued_def in_flight_def queued_authority_def s')
  have acc: "accounting_of c s' = (if c = Safety then reserve (accounting_of c s) (am_byteLength m) else accounting_of c s)" for c
    by (cases c) (simp_all add: accounting_of_def s')
  have room': "within (class_limit Safety) (reserve (tot (held Safety s)) (am_byteLength m))"
    using room facts(1) [of Safety] by (simp add: canReserve_within accounting_of_def)
  have "scheduler_maps_ok s' \<and> messages_ok s' \<and> cursors_ok s'"
    using inv cls by (auto simp: s' sched_inv_def sched_inv_parts)
  then have "sched_inv s'"
  proof (intro sched_invI)
    show "accounting_of c s' = tot (held c s')" for c
      using facts(1) [of c] by (auto simp: acc held)
    show "within (class_limit c) (tot (held c s'))" for c
      using facts(2) [of c] room' by (simp add: held)
    show "aq_accounting (authority_queue_of s' p) = tot (held_by p s')" for p
      using facts(3) [of p] by (simp add: held_by_frame [OF same(1,2)] authority_queue_of_def same)
  qed (use facts(4-6) pos in \<open>auto simp: held_by_frame [OF same(1,2)] same held split: if_splits\<close>)
  with held show ?thesis by blast
qed

lemma js_keys_set: "js_keys (js_set k v m) = (if js_has m k then js_keys m else js_keys m @ [k])"
  by (auto simp: js_keys_def update_keys js_has_iff)

lemma enqueue_authority_inv:
  assumes inv: "sched_inv s" and cls: "of_principal p m" and pos: "0 < am_byteLength m"
    and own: "canReserve (aq_accounting (authority_queue_of s p)) (am_byteLength m) perPrincipalAuthority"
    and room: "canReserve (sc_authorityAccounting s) (am_byteLength m) (class_limit Authority)"
    and q': "q' = \<lparr>aq_accounting = reserve (aq_accounting (authority_queue_of s p)) (am_byteLength m),
        aq_messages = aq_messages (authority_queue_of s p) @ [m]\<rparr>"
    and s': "s' = s\<lparr>sc_authorityByPrincipal := js_set p q' (sc_authorityByPrincipal s),
        sc_authorityPrincipalOrder := (if js_has (sc_authorityByPrincipal s) p then sc_authorityPrincipalOrder s
          else sc_authorityPrincipalOrder s @ [p]),
        sc_authorityAccounting := reserve (sc_authorityAccounting s) (am_byteLength m)\<rparr>"
  shows "sched_inv s' \<and> held c s' = (if c = Authority then add_mset m (held c s) else held c s)"
proof -
  note facts = accounts_facts [OF inv]
  have ok: "js_map_ok (sc_authorityByPrincipal s)" using inv by (simp add: sched_inv_def scheduler_maps_ok_def)
  have queue: "authority_queue_of s' p' = (if p' = p then q' else authority_queue_of s p')" for p'
    by (simp add: s' authority_queue_of_def js_get_set)
  have "queued_authority s' = queued_authority (s\<lparr>sc_authorityByPrincipal := js_set p q' (sc_authorityByPrincipal s)\<rparr>)"
    by (simp add: s' queued_authority_def)
  then have "mset (queued_authority s') = add_mset m (mset (queued_authority s))"
    using queued_authority_put [OF ok, of p q'] by (simp add: q')
  then have held: "held c s' = (if c = Authority then add_mset m (held c s) else held c s)" for c
    by (cases c) (simp_all add: held_def queued_def in_flight_def s')
  have held_by: "held_by p' s' = (if p' = p then add_mset m (held_by p' s) else held_by p' s)" for p'
    by (simp add: held_by_def queue in_flight_def) (simp add: s' q')
  have acc: "accounting_of c s' = (if c = Authority then reserve (accounting_of c s) (am_byteLength m) else accounting_of c s)" for c
    by (cases c) (simp_all add: accounting_of_def s')
  have room': "within (class_limit Authority) (reserve (tot (held Authority s)) (am_byteLength m))"
    using room facts(1) [of Authority] by (simp add: canReserve_within accounting_of_def)
  have own': "within perPrincipalAuthority (reserve (tot (held_by p s)) (am_byteLength m))"
    using own facts(3) [of p] by (simp add: canReserve_within)
  have has: "js_has (sc_authorityByPrincipal s') p' \<longleftrightarrow> p' = p \<or> js_has (sc_authorityByPrincipal s) p'" for p'
    by (simp add: s' js_has_def js_get_set)
  have msgs: "messages_ok s'"
    using inv cls unfolding sched_inv_def messages_ok_def s' q' authority_queue_of_def
    by (auto simp: js_get_set empty_authority_queue_def split: if_splits option.splits)
  have "sched_inv s'"
  proof (rule sched_invI)
    show "accounting_of c s' = tot (held c s')" for c
      using facts(1) [of c] by (auto simp: acc held)
    show "within (class_limit c) (tot (held c s'))" for c
      using facts(2) [of c] room' by (simp add: held)
    show "aq_accounting (authority_queue_of s' p') = tot (held_by p' s')" for p'
      using facts(3) [of p'] by (auto simp: queue held_by q')
    show "within perPrincipalAuthority (tot (held_by p' s'))" for p'
      using facts(4) [of p'] own' by (simp add: held_by)
    show "held_by p' s' \<noteq> {#}" if "js_has (sc_authorityByPrincipal s') p'" for p'
      using that has [of p'] facts(5) [of p'] by (auto simp: held_by)
    show "cursors_ok s'" using inv by (auto simp: s' sched_inv_def cursors_ok_def js_keys_set)
    show "0 < am_byteLength m'" if "m' \<in># held c s'" for c m'
      using that facts(6) [of m' c] pos by (auto simp: held split: if_splits)
  qed (use inv msgs in \<open>auto simp: s' sched_inv_def scheduler_maps_ok_def\<close>)
  with held show ?thesis by blast
qed

text \<open>The coalescing branch keeps one message per key.\<close>

lemma coalesce_mset:
  assumes "js_map_ok messages" and "coalesce m messages acc limit = Some (prior, messages', acc')"
    and "acc = tot (mset (js_values messages) + M)"
  shows "js_map_ok messages' \<and> messages' = js_set (or_empty (am_coalesceKey m)) m messages \<and>
    prior = js_get messages (or_empty (am_coalesceKey m)) \<and> within limit acc' \<and>
    acc' = tot (mset (js_values messages') + M) \<and>
    mset (js_values messages') + mset_option prior = add_mset m (mset (js_values messages))"
proof (cases "js_get messages (or_empty (am_coalesceKey m))")
  case None
  then show ?thesis using assms
    by (auto simp: coalesce_def Let_def js_mset_set_new tot_def within_def simp del: size_mset split: if_splits)
next
  case (Some x)
  note del = js_mset_delete [OF assms(1) Some] and set = js_mset_set_old [OF assms(1) Some]
  show ?thesis using assms
    by (auto simp: Some coalesce_def Let_def set del tot_def within_def simp del: size_mset split: if_splits)
qed

lemma mset_shift: "A + mset_option p = add_mset m B \<Longrightarrow> A + F + mset_option p = add_mset m (B + F)"
  by (metis add.assoc add.commute union_mset_add_mset_left)

lemma mset_sum_in: "A + B = C \<Longrightarrow> x \<in># A \<Longrightarrow> x \<in># C"
  by auto

lemma enqueue_liveness_inv:
  assumes inv: "sched_inv s" and cls: "am_class m = Liveness" and pos: "0 < am_byteLength m"
    and put: "coalesce m (sc_livenessByKey s) (sc_livenessAccounting s) (class_limit Liveness) = Some (prior, messages, acc)"
    and s': "s' = s\<lparr>sc_livenessByKey := messages, sc_livenessAccounting := acc, sc_coalesced := n\<rparr>"
  shows "sched_inv s' \<and> held c s' + (if c = Liveness then mset_option prior else {#}) =
      (if c = Liveness then add_mset m (held c s) else held c s)"
proof -
  note facts = accounts_facts [OF inv]
  have ok: "js_map_ok (sc_livenessByKey s)" using inv by (simp add: sched_inv_def scheduler_maps_ok_def)
  let ?M = "filter_mset (\<lambda>m. am_class m = Liveness) (in_flight s)"
  have "sc_livenessAccounting s = tot (mset (js_values (sc_livenessByKey s)) + ?M)"
    using facts(1) [of Liveness] by (simp add: accounting_of_def held_def queued_def)
  note c = coalesce_mset [OF ok put this] and eq = mset_shift [OF conjunct2 [OF conjunct2 [OF conjunct2 [OF conjunct2 [OF conjunct2 [OF coalesce_mset [OF ok put this]]]]]]]
  have held: "held c s' + (if c = Liveness then mset_option prior else {#}) =
      (if c = Liveness then add_mset m (held c s) else held c s)" for c
    using eq by (cases c) (simp_all add: held_def queued_def in_flight_def queued_authority_def s')
  have same: "sc_authorityByPrincipal s' = sc_authorityByPrincipal s" "sc_inFlight s' = sc_inFlight s"
    by (simp_all add: s')
  have other: "held c s' = held c s" "accounting_of c s' = accounting_of c s" if "c \<noteq> Liveness" for c
    using held [of c] that by (cases c; simp add: accounting_of_def s')+
  have fits: "within (class_limit Liveness) acc" using c by blast
  have own: "accounting_of Liveness s' = acc" "acc = tot (held Liveness s')"
    using c by (simp_all add: accounting_of_def held_def queued_def in_flight_def s')
  have "messages_ok s'"
    using inv cls c by (auto simp: s' sched_inv_def messages_ok_def js_get_set split: if_splits)
  moreover have "scheduler_maps_ok s' \<and> cursors_ok s'"
    using inv c by (auto simp: s' sched_inv_def scheduler_maps_ok_def cursors_ok_def)
  ultimately have "sched_inv s'"
  proof (intro sched_invI)
    show "accounting_of c s' = tot (held c s')" for c
      using facts(1) [of c] own other [of c] by (cases "c = Liveness") simp_all
    show "within (class_limit c) (tot (held c s'))" for c
      using facts(2) [of c] fits by (cases "c = Liveness") (simp_all add: own(2) [symmetric] other)
    show "aq_accounting (authority_queue_of s' p) = tot (held_by p s')" for p
      using facts(3) [of p] by (simp add: held_by_frame [OF same] authority_queue_of_def same)
    show "0 < am_byteLength m'" if "m' \<in># held c s'" for c m'
      using mset_sum_in [OF held that] facts(6) [of m' c] pos by (auto split: if_splits)
  qed (use facts(4,5) in \<open>auto simp: held_by_frame [OF same] same\<close>)
  with held show ?thesis by blast
qed

lemma enqueue_diagnostic_inv:
  assumes inv: "sched_inv s" and cls: "am_class m = Diagnostic" and pos: "0 < am_byteLength m"
    and put: "coalesce m (sc_diagnosticByKey s) (sc_diagnosticAccounting s) (class_limit Diagnostic) = Some (prior, messages, acc)"
    and s': "s' = s\<lparr>sc_diagnosticByKey := messages, sc_diagnosticAccounting := acc, sc_coalesced := n\<rparr>"
  shows "sched_inv s' \<and> held c s' + (if c = Diagnostic then mset_option prior else {#}) =
      (if c = Diagnostic then add_mset m (held c s) else held c s)"
proof -
  note facts = accounts_facts [OF inv]
  have ok: "js_map_ok (sc_diagnosticByKey s)" using inv by (simp add: sched_inv_def scheduler_maps_ok_def)
  let ?M = "filter_mset (\<lambda>m. am_class m = Diagnostic) (in_flight s)"
  have "sc_diagnosticAccounting s = tot (mset (js_values (sc_diagnosticByKey s)) + ?M)"
    using facts(1) [of Diagnostic] by (simp add: accounting_of_def held_def queued_def)
  note c = coalesce_mset [OF ok put this] and eq = mset_shift [OF conjunct2 [OF conjunct2 [OF conjunct2 [OF conjunct2 [OF conjunct2 [OF coalesce_mset [OF ok put this]]]]]]]
  have held: "held c s' + (if c = Diagnostic then mset_option prior else {#}) =
      (if c = Diagnostic then add_mset m (held c s) else held c s)" for c
    using eq by (cases c) (simp_all add: held_def queued_def in_flight_def queued_authority_def s')
  have same: "sc_authorityByPrincipal s' = sc_authorityByPrincipal s" "sc_inFlight s' = sc_inFlight s"
    by (simp_all add: s')
  have other: "held c s' = held c s" "accounting_of c s' = accounting_of c s" if "c \<noteq> Diagnostic" for c
    using held [of c] that by (cases c; simp add: accounting_of_def s')+
  have fits: "within (class_limit Diagnostic) acc" using c by blast
  have own: "accounting_of Diagnostic s' = acc" "acc = tot (held Diagnostic s')"
    using c by (simp_all add: accounting_of_def held_def queued_def in_flight_def s')
  have "messages_ok s'"
    using inv cls c by (auto simp: s' sched_inv_def messages_ok_def js_get_set split: if_splits)
  moreover have "scheduler_maps_ok s' \<and> cursors_ok s'"
    using inv c by (auto simp: s' sched_inv_def scheduler_maps_ok_def cursors_ok_def)
  ultimately have "sched_inv s'"
  proof (intro sched_invI)
    show "accounting_of c s' = tot (held c s')" for c
      using facts(1) [of c] own other [of c] by (cases "c = Diagnostic") simp_all
    show "within (class_limit c) (tot (held c s'))" for c
      using facts(2) [of c] fits by (cases "c = Diagnostic") (simp_all add: own(2) [symmetric] other)
    show "aq_accounting (authority_queue_of s' p) = tot (held_by p s')" for p
      using facts(3) [of p] by (simp add: held_by_frame [OF same] authority_queue_of_def same)
    show "0 < am_byteLength m'" if "m' \<in># held c s'" for c m'
      using mset_sum_in [OF held that] facts(6) [of m' c] pos by (auto split: if_splits)
  qed (use facts(4,5) in \<open>auto simp: held_by_frame [OF same] same\<close>)
  with held show ?thesis by blast
qed

text \<open>A dequeue moves a message from a queue to the messages in flight.\<close>

definition moved :: "('p, 'z) message_scheme \<Rightarrow> ('p, 'z) message_scheme scheduler \<Rightarrow> ('p, 'z) message_scheme scheduler \<Rightarrow> bool" where
  "moved m s s' \<longleftrightarrow> sc_inFlight s' = sc_inFlight s \<and>
     (\<forall>c. accounting_of c s' = accounting_of c s \<and>
        mset (queued c s) = (if c = am_class m then add_mset m (mset (queued c s')) else mset (queued c s'))) \<and>
     (\<forall>p. aq_accounting (authority_queue_of s' p) = aq_accounting (authority_queue_of s p) \<and>
        mset (aq_messages (authority_queue_of s p)) = (if of_principal p m
          then add_mset m (mset (aq_messages (authority_queue_of s' p))) else mset (aq_messages (authority_queue_of s' p)))) \<and>
     (\<forall>p. js_has (sc_authorityByPrincipal s') p = js_has (sc_authorityByPrincipal s) p)"

lemma move_inv:
  assumes inv: "sched_inv s" and moved: "moved m s s1" and fresh: "js_get (sc_inFlight s) t = None"
    and parts: "scheduler_maps_ok s1" "messages_ok s1" "cursors_ok s1" and n: "n < length serviceCycle"
    and s': "s' = s1\<lparr>sc_serviceCursor := n, sc_inFlight := js_set t m (sc_inFlight s1)\<rparr>"
  shows "sched_inv s' \<and> held c s' = held c s \<and> in_flight s' = add_mset m (in_flight s)"
proof -
  note facts = accounts_facts [OF inv]
  have queued: "queued c s' = queued c s1" "accounting_of c s' = accounting_of c s1"
    "authority_queue_of s' p = authority_queue_of s1 p" for c p
    by (cases c; simp add: s' queued_def queued_authority_def accounting_of_def authority_queue_of_def)+
  have flight: "in_flight s' = add_mset m (in_flight s)"
    using fresh moved by (simp add: in_flight_def s' moved_def js_mset_set_new)
  have held: "held c s' = held c s" for c
    using moved by (simp add: held_def flight queued moved_def)
  have held_by: "held_by p s' = held_by p s" for p
    using moved by (simp add: held_by_def flight queued moved_def)
  have "scheduler_maps_ok s' \<and> messages_ok s' \<and> cursors_ok s'"
    using parts n by (auto simp: s' sched_inv_parts)
  moreover have "js_has (sc_authorityByPrincipal s') p = js_has (sc_authorityByPrincipal s) p" for p
    using moved by (simp add: s' moved_def)
  ultimately have "sched_inv s'"
    using facts moved by (intro sched_invI) (auto simp: moved_def queued held held_by)
  with held flight show ?thesis by blast
qed

lemma dequeue_authority_from_Some:
  assumes "dequeue_authority_from offsets s = Some (m, s')"
  obtains p q rest n where "js_get (sc_authorityByPrincipal s) p = Some q" "aq_messages q = m # rest"
    "s' = s\<lparr>sc_authorityByPrincipal := js_set p (q\<lparr>aq_messages := rest\<rparr>) (sc_authorityByPrincipal s),
      sc_authorityPrincipalCursor := n mod length (sc_authorityPrincipalOrder s)\<rparr>"
  using assms
  by (induction offsets s rule: dequeue_authority_from.induct)
     (force simp: Let_def split: option.splits list.splits)+

lemma serviceCycle_length [simp]: "length serviceCycle = 15"
  by (simp add: serviceCycle_def)

lemma js_keys_set_old: "js_get m k = Some v \<Longrightarrow> js_keys (js_set k w m) = js_keys m"
  by (simp add: js_keys_set js_has_def)

lemma js_keys_nonempty: "js_get m k = Some v \<Longrightarrow> js_keys m \<noteq> []"
  by (cases m) (simp_all add: js_keys_def)

lemma dequeueAuthority_moved:
  assumes inv: "sched_inv s" and step: "dequeueAuthority s = Some (m, s')"
  shows "moved m s s' \<and> scheduler_maps_ok s' \<and> messages_ok s' \<and> cursors_ok s' \<and> am_class m = Authority"
proof -
  from step obtain p q rest n where q: "js_get (sc_authorityByPrincipal s) p = Some q" "aq_messages q = m # rest"
    and s': "s' = s\<lparr>sc_authorityByPrincipal := js_set p (q\<lparr>aq_messages := rest\<rparr>) (sc_authorityByPrincipal s),
      sc_authorityPrincipalCursor := n mod length (sc_authorityPrincipalOrder s)\<rparr>"
    unfolding dequeueAuthority_def by (rule dequeue_authority_from_Some)
  have ok: "js_map_ok (sc_authorityByPrincipal s)" using inv by (simp add: sched_inv_def scheduler_maps_ok_def)
  have m: "of_principal p m" using inv q by (auto simp: sched_inv_def messages_ok_def)
  then have cls: "am_class m = Authority" and owner: "of_principal p' m \<longleftrightarrow> p' = p" for p'
    by (auto simp: of_principal_def)
  have queue: "authority_queue_of s' p' = (if p' = p then q\<lparr>aq_messages := rest\<rparr> else authority_queue_of s p')"
    "authority_queue_of s p = q" for p'
    by (simp_all add: s' authority_queue_of_def js_get_set q)
  have "queued_authority s' = queued_authority (s\<lparr>sc_authorityByPrincipal :=
      js_set p (q\<lparr>aq_messages := rest\<rparr>) (sc_authorityByPrincipal s)\<rparr>)"
    by (simp add: s' queued_authority_def)
  then have "mset (queued_authority s) = add_mset m (mset (queued_authority s'))"
    using queued_authority_put [OF ok, of p "q\<lparr>aq_messages := rest\<rparr>"] q by (simp add: queue)
  then have "mset (queued c s) = (if c = am_class m then add_mset m (mset (queued c s')) else mset (queued c s'))" for c
    by (cases c) (simp_all add: queued_def cls s')
  moreover have "accounting_of c s' = accounting_of c s" for c by (cases c) (simp_all add: accounting_of_def s')
  moreover have "js_has (sc_authorityByPrincipal s') p' = js_has (sc_authorityByPrincipal s) p'" for p'
    using q by (simp add: s' js_has_def js_get_set)
  moreover have "sc_inFlight s' = sc_inFlight s" by (simp add: s')
  ultimately have "moved m s s'"
    using q by (simp add: moved_def queue owner)
  moreover have "cursors_ok s'"
    using inv q(1) js_keys_nonempty [OF q(1)] by (simp add: s' sched_inv_def cursors_ok_def js_keys_set_old)
  moreover have "messages_ok s'"
    using inv q by (auto simp: s' sched_inv_def messages_ok_def js_get_set)
  moreover have "scheduler_maps_ok s'" using inv by (simp add: s' sched_inv_def scheduler_maps_ok_def)
  ultimately show ?thesis using cls by blast
qed

lemma dequeueFirst_Some:
  assumes "dequeueFirstCoalescedMessage messages = Some (m, rest)" and "js_map_ok messages"
  obtains k where "js_get messages k = Some m" "rest = js_delete k messages"
    "mset (js_values messages) = add_mset m (mset (js_values rest))"
proof -
  from assms(1) obtain k xs where k: "messages = (k, m) # xs" "rest = js_delete k messages"
    by (auto simp: dequeueFirstCoalescedMessage_def split: list.splits prod.splits)
  moreover from this(1) have "js_get messages k = Some m" by simp
  ultimately show thesis using that js_mset_delete [OF assms(2)] by blast
qed

lemma moved_other:
  assumes "am_class m \<noteq> Authority" and "sc_authorityByPrincipal s' = sc_authorityByPrincipal s"
    and "sc_inFlight s' = sc_inFlight s" and "\<And>c. accounting_of c s' = accounting_of c s"
    and "\<And>c. mset (queued c s) = (if c = am_class m then add_mset m (mset (queued c s')) else mset (queued c s'))"
  shows "moved m s s'"
  using assms by (simp add: moved_def authority_queue_of_def of_principal_def)

lemma dequeueClass_moved:
  assumes inv: "sched_inv s" and step: "dequeueClass c s = Some (m, s')"
  shows "moved m s s' \<and> scheduler_maps_ok s' \<and> messages_ok s' \<and> cursors_ok s' \<and> am_class m = c"
proof (cases c)
  case Authority
  then show ?thesis using dequeueAuthority_moved [OF inv] step by (simp add: dequeueClass_def)
next
  case Safety
  with step obtain rest where q: "sc_safety s = m # rest" and s': "s' = s\<lparr>sc_safety := rest\<rparr>"
    by (auto simp: dequeueClass_def split: list.splits)
  have cls: "am_class m = Safety" using inv q by (simp add: sched_inv_def messages_ok_def)
  have "mset (queued d s) = (if d = am_class m then add_mset m (mset (queued d s')) else mset (queued d s'))"
    "accounting_of d s' = accounting_of d s" for d
    by (cases d; simp add: queued_def queued_authority_def accounting_of_def cls q s')+
  then have "moved m s s'" using cls by (intro moved_other) (simp_all add: s')
  then show ?thesis using inv q Safety cls by (auto simp: s' sched_inv_def sched_inv_parts)
next
  case Liveness
  with step obtain rest where f: "dequeueFirstCoalescedMessage (sc_livenessByKey s) = Some (m, rest)"
    and s': "s' = s\<lparr>sc_livenessByKey := rest\<rparr>"
    by (auto simp: dequeueClass_def)
  have ok: "js_map_ok (sc_livenessByKey s)" using inv by (simp add: sched_inv_def scheduler_maps_ok_def)
  obtain k where k: "js_get (sc_livenessByKey s) k = Some m" "rest = js_delete k (sc_livenessByKey s)"
    "mset (js_values (sc_livenessByKey s)) = add_mset m (mset (js_values rest))"
    by (rule dequeueFirst_Some [OF f ok])
  have cls: "am_class m = Liveness" using inv k(1) by (auto simp: sched_inv_def messages_ok_def)
  have "mset (queued d s) = (if d = am_class m then add_mset m (mset (queued d s')) else mset (queued d s'))"
    "accounting_of d s' = accounting_of d s" for d
    by (cases d; simp add: queued_def queued_authority_def accounting_of_def cls k(3) s')+
  then have "moved m s s'" using cls by (intro moved_other) (simp_all add: s')
  then show ?thesis using inv k(2) Liveness cls
    by (auto simp: s' sched_inv_def sched_inv_parts js_get_delete split: if_splits)
next
  case Diagnostic
  with step obtain rest where f: "dequeueFirstCoalescedMessage (sc_diagnosticByKey s) = Some (m, rest)"
    and s': "s' = s\<lparr>sc_diagnosticByKey := rest\<rparr>"
    by (auto simp: dequeueClass_def)
  have ok: "js_map_ok (sc_diagnosticByKey s)" using inv by (simp add: sched_inv_def scheduler_maps_ok_def)
  obtain k where k: "js_get (sc_diagnosticByKey s) k = Some m" "rest = js_delete k (sc_diagnosticByKey s)"
    "mset (js_values (sc_diagnosticByKey s)) = add_mset m (mset (js_values rest))"
    by (rule dequeueFirst_Some [OF f ok])
  have cls: "am_class m = Diagnostic" using inv k(1) by (auto simp: sched_inv_def messages_ok_def)
  have "mset (queued d s) = (if d = am_class m then add_mset m (mset (queued d s')) else mset (queued d s'))"
    "accounting_of d s' = accounting_of d s" for d
    by (cases d; simp add: queued_def queued_authority_def accounting_of_def cls k(3) s')+
  then have "moved m s s'" using cls by (intro moved_other) (simp_all add: s')
  then show ?thesis using inv k(2) Diagnostic cls
    by (auto simp: s' sched_inv_def sched_inv_parts js_get_delete split: if_splits)
qed

lemma dequeue_from_disj:
  "dequeue_from offsets allowed t s = (w, s') \<Longrightarrow> w = None \<and> s' = s \<or>
   (\<exists>m s1 i. w = Some m \<and> dequeueClass (serviceCycle ! i) s = Some (m, s1) \<and> i < 15 \<and>
     s' = s1\<lparr>sc_serviceCursor := (i + 1) mod 15, sc_inFlight := js_set t m (sc_inFlight s1)\<rparr>)"
proof (induction offsets)
  case (Cons offset offsets)
  let ?i = "(sc_serviceCursor s + offset) mod 15"
  show ?case
  proof (cases "(case allowed of None \<Rightarrow> False | Some cs \<Rightarrow> serviceCycle ! ?i \<notin> set cs) \<or> dequeueClass (serviceCycle ! ?i) s = None")
    case True
    then have "dequeue_from (offset # offsets) allowed t s = dequeue_from offsets allowed t s" by (auto simp: Let_def)
    with Cons show ?thesis by metis
  next
    case False
    then obtain m s1 where d: "dequeueClass (serviceCycle ! ?i) s = Some (m, s1)" by auto
    have "w = Some m \<and> s' = s1\<lparr>sc_serviceCursor := (?i + 1) mod 15, sc_inFlight := js_set t m (sc_inFlight s1)\<rparr>"
      using Cons.prems False d by (simp add: Let_def)
    moreover have "?i < 15" by simp
    ultimately show ?thesis using d by blast
  qed
qed simp

lemma dequeue_from_cases:
  assumes "dequeue_from offsets allowed t s = (w, s')"
  obtains "w = None" "s' = s"
  | m s1 i where "w = Some m" "dequeueClass (serviceCycle ! i) s = Some (m, s1)" "i < 15"
    "s' = s1\<lparr>sc_serviceCursor := (i + 1) mod 15, sc_inFlight := js_set t m (sc_inFlight s1)\<rparr>"
  using dequeue_from_disj [OF assms] by blast

lemma dequeue_inv:
  assumes inv: "sched_inv s" and fresh: "js_get (sc_inFlight s) t = None" and step: "dequeue allowed t s = (w, s')"
  shows "sched_inv s' \<and> held c s' = held c s \<and> in_flight s' = mset_option w + in_flight s"
  using step unfolding dequeue_def
proof (cases rule: dequeue_from_cases)
  case (2 m s1 i)
  show ?thesis using move_inv [OF inv, of m s1 t "(i + 1) mod 15" s'] dequeueClass_moved [OF inv 2(2)] fresh 2 by simp
qed (use inv in simp)

text \<open>A completion releases exactly the message of its token.\<close>

lemma in_flight_delete:
  "js_map_ok (sc_inFlight s) \<Longrightarrow> js_get (sc_inFlight s) t = Some m \<Longrightarrow>
   in_flight s = add_mset m (mset (js_values (js_delete t (sc_inFlight s))))"
  by (simp add: in_flight_def js_mset_delete)

lemma complete_other_inv:
  assumes inv: "sched_inv s" and get: "js_get (sc_inFlight s) t = Some m" and cls: "am_class m \<noteq> Authority"
    and step: "complete t s = Inr s'"
  shows "sched_inv s' \<and> (\<forall>c. held c s = (if c = am_class m then add_mset m (held c s') else held c s'))"
proof -
  note facts = accounts_facts [OF inv]
  have ok: "js_map_ok (sc_inFlight s)" using inv by (simp add: sched_inv_def scheduler_maps_ok_def)
  have flight: "in_flight s = add_mset m (in_flight s')"
    using in_flight_delete [OF ok get] step get cls
    by (auto simp: complete_def Let_def in_flight_def split: admission_class.splits)
  have frame: "queued c s' = queued c s" "authority_queue_of s' p = authority_queue_of s p"
    "js_has (sc_authorityByPrincipal s') p = js_has (sc_authorityByPrincipal s) p" for c p
    using step get cls
    by (cases c; auto simp: complete_def Let_def queued_def queued_authority_def authority_queue_of_def
        split: admission_class.splits)+
  have acc: "accounting_of c s' = (if c = am_class m then release (accounting_of c s) (am_byteLength m) else accounting_of c s)" for c
    using step get cls
    by (cases c) (auto simp: complete_def Let_def accounting_of_def split: admission_class.splits)
  have held: "held c s = (if c = am_class m then add_mset m (held c s') else held c s')" for c
    by (simp add: held_def frame flight)
  have held_by: "held_by p s' = held_by p s" for p
    using cls by (simp add: held_by_def frame flight of_principal_def)
  have pos: "0 < am_byteLength m" using facts(6) [of m "am_class m"] held [of "am_class m"] by simp
  have "scheduler_maps_ok s' \<and> messages_ok s' \<and> cursors_ok s'"
    using inv step get cls
    by (auto simp: complete_def Let_def sched_inv_def sched_inv_parts split: admission_class.splits)
  then have "sched_inv s'"
  proof (intro sched_invI)
    show "accounting_of c s' = tot (held c s')" for c
      using facts(1) [of c] held [of c] by (auto simp: acc)
    show "within (class_limit c) (tot (held c s'))" for c
      using facts(2) [of c] held [of c] pos by (auto simp: within_def reserve_def split: if_splits)
    show "0 < am_byteLength m'" if "m' \<in># held c s'" for c m'
      using that facts(6) [of m' c] held [of c] by (auto split: if_splits)
  qed (use facts in \<open>simp_all add: frame held_by\<close>)
  with held show ?thesis by blast
qed

lemma index_of_None: "index_of x xs = None \<longleftrightarrow> x \<notin> set xs"
  by (induction xs) auto

lemma splice_index_of: "distinct xs \<Longrightarrow> index_of x xs = Some i \<Longrightarrow> splice_one i xs = filter (\<lambda>y. y \<noteq> x) xs"
proof (induction xs arbitrary: i)
  case (Cons y ys)
  show ?case
  proof (cases "x = y")
    case True
    moreover have "filter (\<lambda>z. z \<noteq> y) ys = ys" using Cons.prems(1) by (intro filter_True) auto
    ultimately show ?thesis using Cons.prems by (auto simp: splice_one_def)
  next
    case False
    with Cons show ?thesis by (auto simp: splice_one_def split: if_splits)
  qed
qed simp

lemma js_keys_delete: "js_keys (js_delete k m) = filter (\<lambda>y. y \<noteq> k) (js_keys m)"
  by (induction m) (auto simp: js_keys_def)

lemma js_delete_set: "js_delete k (js_set k v m) = js_delete k m"
  by (induction m) auto

lemma clamp_cursor_ok: "clamp_cursor c order = 0 \<or> clamp_cursor c order < length order"
  by (auto simp: clamp_cursor_def)

lemma js_keys_map_values [simp]: "js_keys (js_set k v m) = js_keys m" if "js_has m k"
  using that by (simp add: js_keys_set)

lemma complete_authority_step:
  assumes inv: "sched_inv s" and get: "js_get (sc_inFlight s) t = Some m" and cls: "am_class m = Authority"
    and p: "p = or_empty (am_stablePrincipal m)"
  obtains q q' s' where "js_get (sc_authorityByPrincipal s) p = Some q"
    "q' = q\<lparr>aq_accounting := release (aq_accounting q) (am_byteLength m)\<rparr>"
    "complete t s = Inr s'" "sc_inFlight s' = js_delete t (sc_inFlight s)"
    "sc_authorityByPrincipal s' = (if qa_messageCount (aq_accounting q') = 0
       then js_delete p (sc_authorityByPrincipal s) else js_set p q' (sc_authorityByPrincipal s))"
    "sc_authorityAccounting s' = release (sc_authorityAccounting s) (am_byteLength m)"
    "sc_safety s' = sc_safety s" "sc_livenessByKey s' = sc_livenessByKey s"
    "sc_diagnosticByKey s' = sc_diagnosticByKey s" "sc_safetyAccounting s' = sc_safetyAccounting s"
    "sc_livenessAccounting s' = sc_livenessAccounting s" "sc_diagnosticAccounting s' = sc_diagnosticAccounting s"
    "sc_serviceCursor s' = sc_serviceCursor s" "cursors_ok s'"
proof -
  have "m \<in># in_flight s" using get by (simp add: in_flight_def js_get_value)
  then have "m \<in># held_by p s" using cls p by (simp add: held_by_def of_principal_def)
  then have "aq_accounting (authority_queue_of s p) \<noteq> no_accounting"
    using accounts_facts(3) [OF inv, of p] by (auto simp: tot_def no_accounting_def)
  then obtain q where q: "js_get (sc_authorityByPrincipal s) p = Some q"
    by (auto simp: authority_queue_of_def empty_authority_queue_def split: option.splits)
  then have has: "js_has (sc_authorityByPrincipal s) p" by (simp add: js_has_def)
  define q' where "q' = q\<lparr>aq_accounting := release (aq_accounting q) (am_byteLength m)\<rparr>"
  have order: "sc_authorityPrincipalOrder s = js_keys (sc_authorityByPrincipal s)" and dist: "distinct (sc_authorityPrincipalOrder s)"
    using inv by (simp_all add: sched_inv_def cursors_ok_def scheduler_maps_ok_def js_map_ok_def js_keys_def)
  from order has obtain i where i: "index_of p (sc_authorityPrincipalOrder s) = Some i"
    using index_of_None [of p "sc_authorityPrincipalOrder s"] by (auto simp: js_keys_def js_has_iff)
  define s1 where "s1 = s\<lparr>sc_inFlight := js_delete t (sc_inFlight s),
      sc_authorityByPrincipal := js_set p q' (sc_authorityByPrincipal s),
      sc_authorityAccounting := release (sc_authorityAccounting s) (am_byteLength m)\<rparr>"
  define order' where "order' = splice_one i (sc_authorityPrincipalOrder s)"
  define s' where "s' = (if qa_messageCount (aq_accounting q') = 0
      then s1\<lparr>sc_authorityByPrincipal := js_delete p (js_set p q' (sc_authorityByPrincipal s)),
        sc_authorityPrincipalOrder := order', sc_authorityPrincipalCursor := clamp_cursor (sc_authorityPrincipalCursor s) order'\<rparr>
      else s1)"
  have step: "complete t s = Inr s'"
    using get cls p q i by (simp add: complete_def complete_authority_def Let_def s'_def s1_def q'_def order'_def)
  have del: "js_delete p (js_set p q' (sc_authorityByPrincipal s)) = js_delete p (sc_authorityByPrincipal s)"
    by (rule js_delete_set)
  have cur: "cursors_ok s'"
    using inv has splice_index_of [OF dist i] clamp_cursor_ok [of "sc_authorityPrincipalCursor s" order']
    by (auto simp: s'_def s1_def sched_inv_def cursors_ok_def js_keys_delete order'_def order)
  show thesis
    by (rule that [OF q q'_def step _ _ _ _ _ _ _ _ _ _ cur]) (simp_all add: s'_def s1_def del)
qed

lemma complete_authority_inv:
  assumes inv: "sched_inv s" and get: "js_get (sc_inFlight s) t = Some m" and cls: "am_class m = Authority"
    and step: "complete t s = Inr s'"
  shows "sched_inv s' \<and> (\<forall>c. held c s = (if c = am_class m then add_mset m (held c s') else held c s'))"
proof -
  note facts = accounts_facts [OF inv]
  let ?p = "or_empty (am_stablePrincipal m)"
  obtain q q' where q: "js_get (sc_authorityByPrincipal s) ?p = Some q"
    and q': "q' = q\<lparr>aq_accounting := release (aq_accounting q) (am_byteLength m)\<rparr>"
    and ups: "sc_authorityByPrincipal s' = (if qa_messageCount (aq_accounting q') = 0
       then js_delete ?p (sc_authorityByPrincipal s) else js_set ?p q' (sc_authorityByPrincipal s))"
    and fl: "sc_inFlight s' = js_delete t (sc_inFlight s)"
    and rest: "sc_authorityAccounting s' = release (sc_authorityAccounting s) (am_byteLength m)"
    "sc_safety s' = sc_safety s" "sc_livenessByKey s' = sc_livenessByKey s"
    "sc_diagnosticByKey s' = sc_diagnosticByKey s" "sc_safetyAccounting s' = sc_safetyAccounting s"
    "sc_livenessAccounting s' = sc_livenessAccounting s" "sc_diagnosticAccounting s' = sc_diagnosticAccounting s"
    and cur: "cursors_ok s'"
    using complete_authority_step [OF inv get cls refl] step by (metis Inr_inject)
  have maps: "js_map_ok (sc_authorityByPrincipal s)" "js_map_ok (sc_inFlight s)"
    using inv by (simp_all add: sched_inv_def scheduler_maps_ok_def)
  have flight: "in_flight s = add_mset m (in_flight s')"
    using in_flight_delete [OF maps(2) get] by (simp add: in_flight_def fl)
  have queue: "authority_queue_of s ?p = q" using q by (simp add: authority_queue_of_def)
  let ?F = "filter_mset (of_principal ?p) (in_flight s')"
  have own: "held_by ?p s = add_mset m (mset (aq_messages q) + ?F)"
    using cls by (simp add: held_by_def queue flight of_principal_def)
  have acc_q': "aq_accounting q' = tot (mset (aq_messages q) + ?F)"
    using facts(3) [of ?p] own by (simp add: queue q')
  have gone: "aq_messages q = [] \<and> ?F = {#}" if "qa_messageCount (aq_accounting q') = 0"
  proof -
    have "int (length (aq_messages q)) + int (size ?F) = 0" using that by (simp add: acc_q' tot_def)
    then have "length (aq_messages q) = 0 \<and> size ?F = 0" by linarith
    then show ?thesis by (simp only: length_0_conv size_eq_0_iff_empty)
  qed
  have "mset (queued_authority s') = mset (queued_authority s)"
  proof (cases "qa_messageCount (aq_accounting q') = 0")
    case True
    then show ?thesis using gone js_mset_delete [OF maps(1) q] by (simp add: queued_authority_mset ups)
  next
    case False
    have "queued_authority s' = queued_authority (s\<lparr>sc_authorityByPrincipal := js_set ?p q' (sc_authorityByPrincipal s)\<rparr>)"
      using False by (simp add: queued_authority_def ups)
    then show ?thesis using queued_authority_put [OF maps(1), of ?p q'] by (simp add: queue q')
  qed
  then have queued: "mset (queued c s') = mset (queued c s)" for c
    by (cases c) (simp_all add: queued_def rest)
  then have held: "held c s = (if c = am_class m then add_mset m (held c s') else held c s')" for c
    by (simp add: held_def flight)
  have acc: "accounting_of c s' = (if c = am_class m then release (accounting_of c s) (am_byteLength m) else accounting_of c s)" for c
    by (cases c) (simp_all add: accounting_of_def rest cls)
  have other: "authority_queue_of s' p = authority_queue_of s p" "held_by p s' = held_by p s"
    "js_has (sc_authorityByPrincipal s') p = js_has (sc_authorityByPrincipal s) p" if "p \<noteq> ?p" for p
  proof -
    show a: "authority_queue_of s' p = authority_queue_of s p"
      using that by (simp add: authority_queue_of_def ups js_get_set js_get_delete)
    show "held_by p s' = held_by p s" using that by (auto simp: held_by_def a flight of_principal_def)
    show "js_has (sc_authorityByPrincipal s') p = js_has (sc_authorityByPrincipal s) p"
      using that by (simp add: ups js_has_def js_get_set js_get_delete)
  qed
  have queue': "authority_queue_of s' ?p = (if qa_messageCount (aq_accounting q') = 0 then empty_authority_queue else q')"
    by (simp add: authority_queue_of_def ups js_get_set js_get_delete)
  have own': "held_by ?p s' = mset (aq_messages q) + ?F"
    using gone by (auto simp: held_by_def queue' q' empty_authority_queue_def)
  have pos: "0 < am_byteLength m" using facts(6) [of m "am_class m"] held [of "am_class m"] by simp
  have "messages_ok s'"
    using inv q unfolding sched_inv_def messages_ok_def rest ups
    by (auto simp: js_get_set js_get_delete q' split: if_splits)
  moreover have "scheduler_maps_ok s'"
    using inv by (simp add: sched_inv_def scheduler_maps_ok_def rest ups fl)
  ultimately have "sched_inv s'"
  proof (intro sched_invI)
    show "accounting_of c s' = tot (held c s')" for c
      using facts(1) [of c] held [of c] by (auto simp: acc)
    show "within (class_limit c) (tot (held c s'))" for c
      using facts(2) [of c] held [of c] pos by (auto simp: within_def reserve_def split: if_splits)
    show "aq_accounting (authority_queue_of s' p) = tot (held_by p s')" for p
    proof (cases "p = ?p")
      case True
      show ?thesis unfolding True queue' own'
      proof (cases "qa_messageCount (aq_accounting q') = 0")
        case empty: True
        show "aq_accounting (if qa_messageCount (aq_accounting q') = 0 then empty_authority_queue else q') =
            tot (mset (aq_messages q) + ?F)"
          by (simp only: empty gone [OF empty] if_True) (simp add: empty_authority_queue_def)
      qed (simp add: acc_q')
    qed (use facts(3) [of p] other [of p] in simp)
    show "within perPrincipalAuthority (tot (held_by p s'))" for p
      using facts(4) [of p] other(2) [of p] own own' pos
      by (cases "p = ?p") (auto simp: within_def reserve_def)
    show "held_by p s' \<noteq> {#}" if "js_has (sc_authorityByPrincipal s') p" for p
      using that facts(5) [of p] other [of p] own' acc_q'
      by (cases "p = ?p") (auto simp: ups js_has_def js_get_delete tot_def split: if_splits)
    show "0 < am_byteLength m'" if "m' \<in># held c s'" for c m'
      using that facts(6) [of m' c] held [of c] by (auto split: if_splits)
  qed (use cur in simp_all)
  with held show ?thesis by blast
qed

lemma complete_inv:
  assumes inv: "sched_inv s" and get: "js_get (sc_inFlight s) t = Some m"
  shows "\<exists>s'. complete t s = Inr s' \<and> sched_inv s' \<and>
    (\<forall>c. held c s = (if c = am_class m then add_mset m (held c s') else held c s'))"
proof (cases "am_class m = Authority")
  case True
  obtain s' where "complete t s = Inr s'"
    by (rule complete_authority_step [OF inv get True refl]) blast
  then show ?thesis using complete_authority_inv [OF inv get True] by blast
next
  case False
  then have "\<exists>s'. complete t s = Inr s'" using get
    by (auto simp: complete_def Let_def split: admission_class.splits)
  then show ?thesis using complete_other_inv [OF inv get False] by blast
qed

text \<open>Cancelling removes everything queued and keeps what is in flight.\<close>

lemma js_keys_filter:
  assumes "js_map_ok m"
  shows "js_keys (filter Q m) = filter (js_has (filter Q m)) (js_keys m)"
proof -
  have "js_has (filter Q m) (fst e) \<longleftrightarrow> Q e" if "e \<in> set m" for e
    using that assms unfolding js_has_iff js_map_ok_def distinct_map inj_on_def by (auto simp: rev_image_eqI)
  then show ?thesis by (simp add: js_keys_def filter_map comp_def cong: filter_cong)
qed

lemma js_keys_map: "js_keys (map (\<lambda>(k, v). (k, f v)) m) = js_keys m"
  by (auto simp: js_keys_def)

lemma within_mono:
  assumes "within limit (tot N)" and "M \<subseteq># N" and "\<And>m. m \<in># N \<Longrightarrow> 0 < am_byteLength m"
  shows "within limit (tot M)"
proof -
  from assms(2) obtain D where N: "N = M + D" by (auto simp: mset_subset_eq_exists_conv)
  have "0 \<le> (\<Sum>m\<in>#D. am_byteLength m)" using assms(3) N
    by (induction D arbitrary: N) (fastforce intro: add_nonneg_nonneg less_imp_le)+
  with assms(1) show ?thesis by (simp add: within_def tot_def N)
qed

lemma held_by_sub:
  assumes "js_map_ok (sc_authorityByPrincipal s)"
  shows "held_by p s \<subseteq># held Authority s"
proof -
  have "mset (aq_messages (authority_queue_of s p)) \<subseteq># mset (queued Authority s)"
    using queued_authority_put [OF assms, of p empty_authority_queue]
    by (simp add: queued_def empty_authority_queue_def) (metis mset_subset_eq_add_right)
  moreover have "filter_mset (of_principal p) (in_flight s) \<subseteq># filter_mset (\<lambda>m. am_class m = Authority) (in_flight s)"
    by (rule filter_mset_mono_strong) (simp_all add: of_principal_def)
  ultimately show ?thesis by (simp add: held_by_def held_def subset_mset.add_mono)
qed

lemma cancelQueued_inv:
  assumes inv: "sched_inv s" and step: "cancelQueued s = (ms, s')"
  shows "sched_inv s' \<and> in_flight s' = in_flight s \<and> queued c s' = [] \<and>
    mset ms = (\<Sum>c\<in>{Safety, Authority, Liveness, Diagnostic}. mset (queued c s))"
proof -
  note facts = accounts_facts [OF inv]
  define M where "M = filter (\<lambda>(p, q). qa_messageCount (aq_accounting q) \<noteq> 0)
      (map (\<lambda>(p, q). (p, cancel_queue q)) (sc_authorityByPrincipal s))"
  have maps: "js_map_ok (sc_authorityByPrincipal s)" using inv by (simp add: sched_inv_def scheduler_maps_ok_def)
  have s': "sc_safety s' = []" "sc_livenessByKey s' = []" "sc_diagnosticByKey s' = []"
    "sc_inFlight s' = sc_inFlight s" "sc_authorityByPrincipal s' = M" "sc_serviceCursor s' = sc_serviceCursor s"
    "sc_authorityPrincipalOrder s' = filter (js_has M) (sc_authorityPrincipalOrder s)"
    "sc_authorityPrincipalCursor s' = clamp_cursor (sc_authorityPrincipalCursor s) (sc_authorityPrincipalOrder s')"
    and ms: "ms = sc_safety s @ queued_authority s @ js_values (sc_livenessByKey s) @ js_values (sc_diagnosticByKey s)"
    using step by (auto simp: cancelQueued_def Let_def M_def)
  have acc: "accounting_of c s' = release_messages (queued c s) (accounting_of c s)" for c
    using step by (cases c) (auto simp: cancelQueued_def Let_def accounting_of_def queued_def)
  have okM: "js_map_ok M" unfolding M_def using maps by simp
  have getM: "js_get M p = (case js_get (sc_authorityByPrincipal s) p of None \<Rightarrow> None
      | Some q \<Rightarrow> if qa_messageCount (aq_accounting (cancel_queue q)) \<noteq> 0 then Some (cancel_queue q) else None)" for p
    unfolding M_def using maps by (subst js_get_filter) (auto simp: js_get_map_values split: option.split)
  have flight: "in_flight s' = in_flight s" by (simp add: in_flight_def s')
  have "aq_messages q = []" if "q \<in> set (js_values M)" for q
    using that getM by (auto simp: js_value_iff [OF okM] cancel_queue_def split: option.splits if_splits)
  then have "queued_authority s' = []" by (simp add: queued_authority_def s')
  then have queued: "queued c s' = []" for c
    by (cases c) (simp_all add: queued_def s' js_values_def)
  have own: "aq_accounting (cancel_queue q) = tot (filter_mset (of_principal p) (in_flight s))"
    if "js_get (sc_authorityByPrincipal s) p = Some q" for p q
    using facts(3) [of p] that
    by (simp add: cancel_queue_def authority_queue_of_def held_by_def release_messages_tot)
  have none: "filter_mset (of_principal p) (in_flight s) = {#}" if "js_get (sc_authorityByPrincipal s) p = None" for p
    using facts(3) [of p] that
    by (auto simp: authority_queue_of_def empty_authority_queue_def held_by_def tot_def no_accounting_def)
  have messages: "aq_messages (authority_queue_of s' p) = []" for p
    using getM [of p] by (auto simp: authority_queue_of_def s' empty_authority_queue_def cancel_queue_def split: option.splits if_splits)
  have held_by: "held_by p s' = filter_mset (of_principal p) (in_flight s)" for p
    by (simp add: held_by_def messages flight)
  have sub: "held_by p s' \<subseteq># held_by p s" for p
    by (simp add: held_by_def messages flight)
  have "scheduler_maps_ok s' \<and> messages_ok s' \<and> cursors_ok s'"
  proof (intro conjI)
    show "scheduler_maps_ok s'" using inv okM by (simp add: sched_inv_def scheduler_maps_ok_def s')
    show "messages_ok s'"
      by (auto simp: messages_ok_def s' getM cancel_queue_def split: option.splits if_splits)
    have "js_keys M = filter (js_has M) (js_keys (sc_authorityByPrincipal s))"
      unfolding M_def using js_keys_filter [of "map (\<lambda>(p, q). (p, cancel_queue q)) (sc_authorityByPrincipal s)"] maps
      by (simp add: js_keys_map)
    then show "cursors_ok s'"
      using inv clamp_cursor_ok by (simp add: sched_inv_def cursors_ok_def s')
  qed
  then have "sched_inv s'"
  proof (intro sched_invI)
    show "accounting_of c s' = tot (held c s')" for c
      using facts(1) [of c] by (simp add: acc held_def queued flight release_messages_tot)
    show "within (class_limit c) (tot (held c s'))" for c
      by (rule within_mono [OF facts(2) [of c]]) (use facts(6) [of _ c] in \<open>auto simp: held_def queued flight\<close>)
    show "aq_accounting (authority_queue_of s' p) = tot (held_by p s')" for p
    proof (cases "js_get (sc_authorityByPrincipal s) p")
      case None
      then show ?thesis by (simp add: held_by authority_queue_of_def s' getM empty_authority_queue_def none)
    next
      case (Some q)
      show ?thesis
      proof (cases "filter_mset (of_principal p) (in_flight s) = {#}")
        case True
        show ?thesis unfolding held_by authority_queue_of_def s' getM Some
          by (simp only: True own [OF Some] option.simps) (simp add: empty_authority_queue_def no_accounting_def)
      next
        case False
        then have "qa_messageCount (tot (filter_mset (of_principal p) (in_flight s))) \<noteq> 0"
          by (simp only: tot_def) simp
        then show ?thesis by (simp add: held_by authority_queue_of_def s' getM Some own [OF Some])
      qed
    qed
    show "within perPrincipalAuthority (tot (held_by p s'))" for p
      using held_by_sub [OF maps, of p] facts(6) [of _ Authority]
      by (intro within_mono [OF facts(4) [of p] sub]) (auto dest: mset_subset_eqD)
    show "held_by p s' \<noteq> {#}" if "js_has (sc_authorityByPrincipal s') p" for p
      using that own unfolding held_by js_has_def s' getM by (auto simp: tot_def split: option.splits if_splits)
    show "0 < am_byteLength m'" if "m' \<in># held c s'" for c m'
      using that facts(6) [of m' c] by (auto simp: held_def queued flight)
  qed auto
  then show ?thesis using flight queued by (simp add: ms queued_def)
qed

end
