(* ===== verification/AdmissionRuns.thy ===== *)
theory AdmissionRuns
  imports AdmissionInvariant
begin

text \<open>
  The admission scheduler under the commands of its owner, with the history an observer keeps:
  the messages admitted and served, in order, and those that left. The supply of completion
  tokens is the number of symbols made so far.
\<close>

section \<open>The admission decision\<close>

definition accepted :: "'m admission_result \<Rightarrow> bool" where
  "accepted r \<longleftrightarrow> (case r of Admitted \<Rightarrow> True | Replaced _ \<Rightarrow> True | _ \<Rightarrow> False)"

definition displaced :: "'m admission_result \<Rightarrow> 'm option" where
  "displaced r = (case r of Replaced x \<Rightarrow> Some x | _ \<Rightarrow> None)"

lemma accepted_simps [simp]:
  "accepted Admitted" "accepted (Replaced x)" "\<not> accepted (Fence e)" "\<not> accepted (Refused e)"
  "\<not> accepted (Shed e)" "\<not> accepted (Dropped e)"
  "displaced Admitted = None" "displaced (Replaced x) = Some x" "displaced (Fence e) = None"
  "displaced (Refused e) = None" "displaced (Shed e) = None" "displaced (Dropped e) = None"
  by (simp_all add: accepted_def displaced_def)

lemma accepted_coalesced [simp]: "accepted (coalesced_result prior)" "displaced (coalesced_result prior) = prior"
  by (cases prior; simp add: coalesced_result_def)+

lemma validateMessage_fence: "validateMessage m = Some r \<Longrightarrow> \<exists>e. r = Fence e"
  by (auto simp: validateMessage_def split: if_splits)

lemma validateMessage_None:
  "validateMessage m = None \<Longrightarrow> 0 < am_byteLength m"
  by (auto simp: validateMessage_def split: if_splits)

text \<open>
  What the scheduler's contract says of an admission: a valid message is admitted exactly when
  what the class (and, for authority, the principal) would then hold is within its limit; a
  liveness or diagnostic message takes the place of the queued one with its key.
\<close>

definition queued_prior :: "('p, 'z) message_scheme \<Rightarrow> ('p, 'z) message_scheme scheduler \<Rightarrow> ('p, 'z) message_scheme option" where
  "queued_prior m s = find (\<lambda>x. or_empty (am_coalesceKey x) = or_empty (am_coalesceKey m)) (queued (am_class m) s)"

definition admission_spec :: "('p, 'z) message_scheme \<Rightarrow> ('p, 'z) message_scheme multiset
    \<Rightarrow> ('p, 'z) message_scheme multiset \<Rightarrow> ('p, 'z) message_scheme option
    \<Rightarrow> ('p, 'z) message_scheme admission_result" where
  "admission_spec m class_held principal_held prior =
     (case am_class m of
        Safety \<Rightarrow> if within (class_limit Safety) (tot (add_mset m class_held)) then Admitted else Fence SafetyCapacity
      | Authority \<Rightarrow>
          if \<not> within perPrincipalAuthority (tot (add_mset m principal_held)) then Refused PrincipalCapacity
          else if within (class_limit Authority) (tot (add_mset m class_held)) then Admitted
          else Fence AuthorityCapacity
      | Liveness \<Rightarrow>
          if within (class_limit Liveness) (tot (add_mset m (class_held - mset_option prior)))
          then coalesced_result prior else Shed LivenessCapacity
      | Diagnostic \<Rightarrow>
          if within (class_limit Diagnostic) (tot (add_mset m (class_held - mset_option prior)))
          then coalesced_result prior else Dropped DiagnosticCapacity)"

lemma find_js_values:
  assumes "\<And>k v. js_get m k = Some v \<Longrightarrow> f v = k" and "js_map_ok m"
  shows "find (\<lambda>x. f x = k) (js_values m) = js_get m k"
  using assms
proof (induction m)
  case (Cons e m)
  obtain k' v where e: "e = (k', v)" by (cases e)
  have ok: "js_map_ok m" and fresh: "js_get m k' = None"
    using Cons.prems(2) e by (auto simp: js_map_ok_def map_of_eq_None_iff)
  have "f x = j" if "js_get m j = Some x" for j x
    using Cons.prems(1) [of j x] that fresh e by (cases "j = k'") auto
  then have "find (\<lambda>x. f x = k) (js_values m) = js_get m k" using Cons.IH ok by blast
  moreover have "f v = k'" using Cons.prems(1) [of k' v] e by simp
  ultimately show ?case using e by (auto simp: js_values_def)
qed (simp add: js_values_def)

lemma coalesce_decision:
  assumes "acc = tot (mset (js_values messages) + M)" and "js_map_ok messages"
    and "prior = js_get messages (or_empty (am_coalesceKey m))"
  shows "coalesce m messages acc limit =
    (if within limit (tot (add_mset m (mset (js_values messages) + M - mset_option prior)))
     then Some (prior, js_set (or_empty (am_coalesceKey m)) m messages,
       tot (add_mset m (mset (js_values messages) + M - mset_option prior)))
     else None)"
proof (cases prior)
  case None
  then show ?thesis using assms by (auto simp: coalesce_def Let_def within_def reserve_def)
next
  case (Some x)
  then have get: "js_get messages (or_empty (am_coalesceKey m)) = Some x" using assms(3) by simp
  have "mset (js_values messages) + M - {#x#} = mset (js_values (js_delete (or_empty (am_coalesceKey m)) messages)) + M"
    using js_mset_delete [OF assms(2) get] by simp
  then have "qa_byteCount acc = qa_byteCount (tot (mset (js_values messages) + M - {#x#})) + am_byteLength x"
    "qa_messageCount acc = qa_messageCount (tot (mset (js_values messages) + M - {#x#})) + 1"
    using js_mset_delete [OF assms(2) get] assms(1) by (simp_all add: tot_def del: size_mset)
  then show ?thesis using Some get by (simp add: coalesce_def Let_def within_def reserve_def)
qed

lemma enqueue_refines:
  fixes s :: "('p, 'z) message_scheme scheduler"
  assumes inv: "sched_inv s" and valid: "validateMessage m = (None :: ('p, 'z) message_scheme admission_result option)"
  shows "fst (enqueue m s) = admission_spec m (held (am_class m) s)
     (held_by (or_empty (am_stablePrincipal m)) s) (queued_prior m s)"
proof -
  note facts = accounts_facts [OF inv]
  have maps: "js_map_ok (sc_livenessByKey s)" "js_map_ok (sc_diagnosticByKey s)"
    using inv by (simp_all add: sched_inv_def scheduler_maps_ok_def)
  have keys: "or_empty (am_coalesceKey x) = k" if "js_get (sc_livenessByKey s) k = Some x \<or> js_get (sc_diagnosticByKey s) k = Some x" for k x
    using inv that by (auto simp: sched_inv_def messages_ok_def)
  show ?thesis
  proof (cases "am_class m")
    case Safety
    then show ?thesis using valid facts(1) [of Safety]
      by (simp add: enqueue_def enqueue_safety_def admission_spec_def canReserve_within accounting_of_def)
  next
    case Authority
    then show ?thesis using valid facts(1) [of Authority] facts(3) [of "or_empty (am_stablePrincipal m)"]
      by (simp add: enqueue_def enqueue_authority_def admission_spec_def canReserve_within accounting_of_def Let_def)
  next
    case Liveness
    have prior: "queued_prior m s = js_get (sc_livenessByKey s) (or_empty (am_coalesceKey m))"
      unfolding queued_prior_def using Liveness keys maps(1) by (simp add: queued_def find_js_values)
    have "sc_livenessAccounting s = tot (mset (js_values (sc_livenessByKey s)) + filter_mset (\<lambda>m. am_class m = Liveness) (in_flight s))"
      using facts(1) [of Liveness] by (simp add: accounting_of_def held_def queued_def)
    from coalesce_decision [OF this maps(1) prior] show ?thesis using valid Liveness
      by (simp add: enqueue_def enqueue_coalesced_def admission_spec_def held_def queued_def)
  next
    case Diagnostic
    have prior: "queued_prior m s = js_get (sc_diagnosticByKey s) (or_empty (am_coalesceKey m))"
      unfolding queued_prior_def using Diagnostic keys maps(2) by (simp add: queued_def find_js_values)
    have "sc_diagnosticAccounting s = tot (mset (js_values (sc_diagnosticByKey s)) + filter_mset (\<lambda>m. am_class m = Diagnostic) (in_flight s))"
      using facts(1) [of Diagnostic] by (simp add: accounting_of_def held_def queued_def)
    from coalesce_decision [OF this maps(2) prior] show ?thesis using valid Diagnostic
      by (simp add: enqueue_def enqueue_coalesced_def admission_spec_def held_def queued_def)
  qed
qed

text \<open>What an admission changes: the invariant holds after it, and what is held grows by the message.\<close>

definition enqueue_effect :: "('p, 'z) message_scheme \<Rightarrow> ('p, 'z) message_scheme scheduler
    \<Rightarrow> ('p, 'z) message_scheme admission_result \<Rightarrow> ('p, 'z) message_scheme scheduler \<Rightarrow> bool" where
  "enqueue_effect m s r s' \<longleftrightarrow> sched_inv s' \<and> sc_inFlight s' = sc_inFlight s \<and>
     sc_serviceCursor s' = sc_serviceCursor s \<and>
     (\<forall>c. held c s' + (if c = am_class m then mset_option (displaced r) else {#}) =
       (if c = am_class m \<and> accepted r then add_mset m (held c s) else held c s))"

lemma refused_effect:
  assumes "sched_inv s" and "same_queues s s'" and "\<not> accepted r" and "displaced r = None"
  shows "enqueue_effect m s r s'"
  using assms same_queues_inv [OF assms(2)] same_queues_fields [OF assms(2)] same_queues_held [OF assms(2)]
  by (simp add: enqueue_effect_def)

lemma enqueue_inv:
  assumes inv: "sched_inv s" and step: "enqueue m s = (r, s')"
  shows "enqueue_effect m s r s'"
proof (cases "validateMessage m :: ('a, 'b) message_scheme admission_result option")
  case (Some e)
  with step validateMessage_fence [OF Some] show ?thesis
    by (intro refused_effect [OF inv]) (auto simp: enqueue_def)
next
  case None
  then have pos: "0 < am_byteLength m" by (rule validateMessage_None)
  show ?thesis
  proof (cases "am_class m")
    case Safety
    with None step have e: "enqueue_safety m s = (r, s')" by (simp add: enqueue_def)
    show ?thesis
    proof (cases "canReserve (sc_safetyAccounting s) (am_byteLength m) (class_limit Safety)")
      case True
      then show ?thesis using e Safety enqueue_safety_inv [OF inv Safety pos True refl]
        by (auto simp: enqueue_safety_def enqueue_effect_def)
    next
      case False
      then show ?thesis using e by (intro refused_effect [OF inv]) (auto simp: enqueue_safety_def)
    qed
  next
    case Authority
    let ?p = "or_empty (am_stablePrincipal m)"
    have own: "of_principal ?p m" using Authority by (simp add: of_principal_def)
    from Authority None step have e: "enqueue_authority m s = (r, s')" by (simp add: enqueue_def)
    show ?thesis
    proof (cases "canReserve (aq_accounting (authority_queue_of s ?p)) (am_byteLength m) perPrincipalAuthority \<and>
        canReserve (sc_authorityAccounting s) (am_byteLength m) (class_limit Authority)")
      case True
      then show ?thesis using e Authority
          enqueue_authority_inv [OF inv own pos conjunct1 [OF True] conjunct2 [OF True] refl refl]
        by (auto simp: enqueue_authority_def enqueue_effect_def Let_def)
    next
      case False
      then show ?thesis using e by (intro refused_effect [OF inv]) (auto simp: enqueue_authority_def Let_def split: if_splits)
    qed
  next
    case Liveness
    with None step have e: "enqueue_coalesced m s = (r, s')" by (simp add: enqueue_def)
    show ?thesis
    proof (cases "coalesce m (sc_livenessByKey s) (sc_livenessAccounting s) (class_limit Liveness)")
      case (Some t)
      then obtain prior messages acc where t: "coalesce m (sc_livenessByKey s) (sc_livenessAccounting s) (class_limit Liveness) = Some (prior, messages, acc)"
        by (cases t) auto
      define n where "n = sc_coalesced s + (if prior = None then 0 else 1)"
      have s': "s' = s\<lparr>sc_livenessByKey := messages, sc_livenessAccounting := acc, sc_coalesced := n\<rparr>"
        and r: "r = coalesced_result prior"
        using e t Liveness by (simp_all add: enqueue_coalesced_def n_def)
      note eff = enqueue_liveness_inv [OF inv Liveness pos t s']
      have "sc_inFlight s' = sc_inFlight s" "sc_serviceCursor s' = sc_serviceCursor s" by (simp_all add: s')
      then show ?thesis unfolding enqueue_effect_def r Liveness using eff by (simp only: simp_thms accepted_coalesced)
    qed (use e Liveness in \<open>auto intro!: refused_effect [OF inv] simp: enqueue_coalesced_def\<close>)
  next
    case Diagnostic
    with None step have e: "enqueue_coalesced m s = (r, s')" by (simp add: enqueue_def)
    show ?thesis
    proof (cases "coalesce m (sc_diagnosticByKey s) (sc_diagnosticAccounting s) (class_limit Diagnostic)")
      case (Some t)
      then obtain prior messages acc where t: "coalesce m (sc_diagnosticByKey s) (sc_diagnosticAccounting s) (class_limit Diagnostic) = Some (prior, messages, acc)"
        by (cases t) auto
      define n where "n = sc_coalesced s + (if prior = None then 0 else 1)"
      have s': "s' = s\<lparr>sc_diagnosticByKey := messages, sc_diagnosticAccounting := acc, sc_coalesced := n\<rparr>"
        and r: "r = coalesced_result prior"
        using e t Diagnostic by (simp_all add: enqueue_coalesced_def n_def)
      note eff = enqueue_diagnostic_inv [OF inv Diagnostic pos t s']
      have "sc_inFlight s' = sc_inFlight s" "sc_serviceCursor s' = sc_serviceCursor s" by (simp_all add: s')
      then show ?thesis unfolding enqueue_effect_def r Diagnostic using eff by (simp only: simp_thms accepted_coalesced)
    qed (use e Diagnostic in \<open>auto intro!: refused_effect [OF inv] simp: enqueue_coalesced_def\<close>)
  qed
qed

section \<open>Order and progress of the service\<close>

text \<open>A dequeue of a class takes the oldest safety message, or the oldest of one principal.\<close>

definition fifo_step :: "('p, 'z) message_scheme \<Rightarrow> ('p, 'z) message_scheme scheduler \<Rightarrow> ('p, 'z) message_scheme scheduler \<Rightarrow> bool" where
  "fifo_step m s s' \<longleftrightarrow>
     sc_safety s = (if am_class m = Safety then m # sc_safety s' else sc_safety s') \<and>
     (\<forall>p. aq_messages (authority_queue_of s p) =
        (if of_principal p m then m # aq_messages (authority_queue_of s' p) else aq_messages (authority_queue_of s' p)))"

lemma dequeueAuthority_fifo:
  assumes inv: "sched_inv s" and step: "dequeueAuthority s = Some (m, s')"
  shows "fifo_step m s s'"
proof -
  from step obtain p q rest n where q: "js_get (sc_authorityByPrincipal s) p = Some q" "aq_messages q = m # rest"
    and s': "s' = s\<lparr>sc_authorityByPrincipal := js_set p (q\<lparr>aq_messages := rest\<rparr>) (sc_authorityByPrincipal s),
      sc_authorityPrincipalCursor := n mod length (sc_authorityPrincipalOrder s)\<rparr>"
    unfolding dequeueAuthority_def by (rule dequeue_authority_from_Some)
  have "of_principal p m" using inv q by (auto simp: sched_inv_def messages_ok_def)
  then have "am_class m = Authority" and "of_principal p' m \<longleftrightarrow> p' = p" for p'
    by (auto simp: of_principal_def)
  then show ?thesis using q by (simp add: fifo_step_def s' authority_queue_of_def js_get_set)
qed

lemma dequeueClass_fifo:
  assumes inv: "sched_inv s" and step: "dequeueClass c s = Some (m, s')"
  shows "fifo_step m s s'"
proof (cases c)
  case Authority
  with step show ?thesis using dequeueAuthority_fifo [OF inv] by (simp add: dequeueClass_def)
next
  case Safety
  have "am_class m = c" using dequeueClass_moved [OF inv step] by blast
  with step Safety show ?thesis
    by (auto simp: dequeueClass_def fifo_step_def authority_queue_of_def of_principal_def split: list.splits)
next
  case Liveness
  have "am_class m = c" using dequeueClass_moved [OF inv step] by blast
  with step Liveness show ?thesis
    by (auto simp: dequeueClass_def fifo_step_def authority_queue_of_def of_principal_def)
next
  case Diagnostic
  have "am_class m = c" using dequeueClass_moved [OF inv step] by blast
  with step Diagnostic show ?thesis
    by (auto simp: dequeueClass_def fifo_step_def authority_queue_of_def of_principal_def)
qed

lemma fifo_step_frame:
  "fifo_step m s s1 \<Longrightarrow> fifo_step m s (s1\<lparr>sc_serviceCursor := n, sc_inFlight := f\<rparr>)"
  by (simp add: fifo_step_def authority_queue_of_def)

lemma dequeue_fifo:
  assumes "sched_inv s" and "dequeue allowed t s = (Some m, s')"
  shows "fifo_step m s s'"
  using assms(2) unfolding dequeue_def
  by (cases rule: dequeue_from_cases) (auto intro: fifo_step_frame dequeueClass_fifo [OF assms(1)])

text \<open>A class with a queued message is served when its turn comes.\<close>

lemma dequeue_authority_from_None:
  "dequeue_authority_from offsets s = None \<Longrightarrow> off \<in> set offsets \<Longrightarrow>
   aq_messages (authority_queue_of s (sc_authorityPrincipalOrder s ! ((sc_authorityPrincipalCursor s + off) mod length (sc_authorityPrincipalOrder s)))) = []"
  by (induction offsets s rule: dequeue_authority_from.induct)
     (auto simp: Let_def authority_queue_of_def empty_authority_queue_def split: option.splits list.splits)

lemma offset_covers:
  assumes "i < n" and "(c :: nat) = 0 \<or> c < n"
  shows "\<exists>off < n. (c + off) mod n = i"
proof (cases "c \<le> i")
  case True
  then show ?thesis using assms(1) by (intro exI [of _ "i - c"]) auto
next
  case False
  with assms have "c < n" by auto
  then show ?thesis using False assms(1) by (intro exI [of _ "n + i - c"]) auto
qed

lemma dequeueClass_nonempty:
  assumes inv: "sched_inv s" and nonempty: "queued c s \<noteq> []"
  shows "dequeueClass c s \<noteq> None"
proof (cases c)
  case Authority
  show ?thesis
  proof
    assume "dequeueClass c s = None"
    then have none: "dequeueAuthority s = None" using Authority by (simp add: dequeueClass_def)
    let ?order = "sc_authorityPrincipalOrder s"
    have cur: "?order = js_keys (sc_authorityByPrincipal s)"
      "sc_authorityPrincipalCursor s = 0 \<or> sc_authorityPrincipalCursor s < length ?order"
      and maps: "js_map_ok (sc_authorityByPrincipal s)"
      using inv by (auto simp: sched_inv_def cursors_ok_def scheduler_maps_ok_def)
    have empty: "aq_messages (authority_queue_of s p) = []" if "p \<in> set ?order" for p
    proof -
      from that obtain i where i: "i < length ?order" "?order ! i = p" by (auto simp: in_set_conv_nth)
      then obtain off where "off < length ?order" "(sc_authorityPrincipalCursor s + off) mod length ?order = i"
        using offset_covers cur(2) by blast
      then show ?thesis using dequeue_authority_from_None [OF none [unfolded dequeueAuthority_def], of off] i by simp
    qed
    have "aq_messages q = []" if "q \<in> set (js_values (sc_authorityByPrincipal s))" for q
    proof -
      from that obtain p where p: "js_get (sc_authorityByPrincipal s) p = Some q" using maps by (auto simp: js_value_iff)
      then have "p \<in> set ?order" using js_get_in_set [OF maps] by (force simp: cur(1) js_keys_def)
      with empty p show ?thesis by (fastforce simp: authority_queue_of_def)
    qed
    then have "queued c s = []" using Authority by (simp add: queued_def queued_authority_def)
    with nonempty show False by contradiction
  qed
qed (use nonempty in \<open>auto simp: dequeueClass_def queued_def dequeueFirstCoalescedMessage_def js_values_def split: list.splits\<close>)

lemma dequeueClass_empty: "sched_inv s \<Longrightarrow> queued c s = [] \<Longrightarrow> dequeueClass c s = None"
  using dequeueClass_moved [of s c]
  by (cases "dequeueClass c s") (auto simp: moved_def dest!: spec [of _ c])

text \<open>How far the service cursor is from the next turn of a class.\<close>

definition cycle_dist :: "admission_class \<Rightarrow> nat \<Rightarrow> nat" where
  "cycle_dist c n = length (takeWhile (\<lambda>k. serviceCycle ! ((n + k) mod 15) \<noteq> c) [0..<15])"

lemma cycle_class_exists: "\<exists>i<15. serviceCycle ! i = c"
  by (cases c) (auto simp: serviceCycle_def intro: exI [of _ "0::nat"] exI [of _ "8::nat"] exI [of _ "12::nat"] exI [of _ "14::nat"])

lemma cycle_dist_turn:
  shows "cycle_dist c n < 15" "serviceCycle ! ((n + cycle_dist c n) mod 15) = c"
proof -
  let ?P = "\<lambda>k. serviceCycle ! ((n + k) mod 15) \<noteq> c"
  obtain i where i: "i < 15" "serviceCycle ! i = c" using cycle_class_exists by blast
  have "\<exists>k<15. (n mod 15 + k) mod 15 = i" using offset_covers [of i 15 "n mod 15"] i by auto
  then obtain k where k: "k < 15" "(n + k) mod 15 = i" by (auto simp: mod_add_left_eq)
  have "takeWhile ?P [0..<15] \<noteq> [0..<15]" using k i by (auto simp: takeWhile_eq_all_conv)
  then show len: "cycle_dist c n < 15"
    using length_takeWhile_le [of ?P "[0..<15]"] by (metis cycle_dist_def diff_zero le_neq_implies_less length_upt takeWhile_eq_take take_all_iff order_refl)
  then have "\<not> ?P ([0..<15] ! cycle_dist c n)"
    unfolding cycle_dist_def by (intro nth_length_takeWhile) simp
  with len show "serviceCycle ! ((n + cycle_dist c n) mod 15) = c" by simp
qed

lemma cycle_dist_le:
  assumes "k < 15" and "serviceCycle ! ((n + k) mod 15) = c"
  shows "cycle_dist c n \<le> k"
proof (rule ccontr)
  assume "\<not> cycle_dist c n \<le> k"
  then have "k < length (takeWhile (\<lambda>k. serviceCycle ! ((n + k) mod 15) \<noteq> c) [0..<15])" by (simp add: cycle_dist_def)
  then have "takeWhile (\<lambda>k. serviceCycle ! ((n + k) mod 15) \<noteq> c) [0..<15] ! k \<in>
      set (takeWhile (\<lambda>k. serviceCycle ! ((n + k) mod 15) \<noteq> c) [0..<15])"
    and "takeWhile (\<lambda>k. serviceCycle ! ((n + k) mod 15) \<noteq> c) [0..<15] ! k = [0..<15] ! k"
    by (rule nth_mem, rule takeWhile_nth)
  then have "serviceCycle ! ((n + [0..<15] ! k) mod 15) \<noteq> c" by (metis set_takeWhileD)
  with assms show False by simp
qed

lemma cycle_dist_advance:
  assumes "j < cycle_dist c n"
  shows "cycle_dist c ((n + j + 1) mod 15) < cycle_dist c n"
proof -
  let ?d = "cycle_dist c n"
  have "n + j + 1 + (?d - j - 1) = n + ?d" using assms by linarith
  then have "((n + j + 1) mod 15 + (?d - j - 1)) mod 15 = (n + ?d) mod 15" by (metis mod_add_left_eq)
  then have "cycle_dist c ((n + j + 1) mod 15) \<le> ?d - j - 1"
    using cycle_dist_turn(1) [of c n] cycle_dist_turn(2) [of n c] assms by (intro cycle_dist_le) auto
  with assms show ?thesis by linarith
qed

lemma dequeue_from_first:
  assumes "k \<in> set offsets" and "dequeueClass (serviceCycle ! ((sc_serviceCursor s + k) mod 15)) s \<noteq> None"
    and "sorted offsets"
  shows "\<exists>j m s1. j \<le> k \<and> dequeueClass (serviceCycle ! ((sc_serviceCursor s + j) mod 15)) s = Some (m, s1) \<and>
    dequeue_from offsets None t s = (Some m, s1\<lparr>sc_serviceCursor := (sc_serviceCursor s + j + 1) mod 15,
       sc_inFlight := js_set t m (sc_inFlight s1)\<rparr>)"
  using assms
proof (induction offsets)
  case (Cons off offsets)
  show ?case
  proof (cases "dequeueClass (serviceCycle ! ((sc_serviceCursor s + off) mod 15)) s")
    case None
    with Cons show ?thesis by (auto simp: Let_def)
  next
    case (Some r)
    then obtain m s1 where "dequeueClass (serviceCycle ! ((sc_serviceCursor s + off) mod 15)) s = Some (m, s1)"
      by (cases r) auto
    moreover have "off \<le> k" using Cons.prems by auto
    ultimately show ?thesis by (intro exI [of _ off] exI [of _ m] exI [of _ s1]) (simp add: Let_def mod_Suc_eq)
  qed
qed simp

lemma dequeue_progress:
  assumes inv: "sched_inv s" and nonempty: "queued c s \<noteq> []"
  shows "\<exists>m s'. dequeue None t s = (Some m, s') \<and>
    (am_class m = c \<or> cycle_dist c (sc_serviceCursor s') < cycle_dist c (sc_serviceCursor s) \<and> queued c s' \<noteq> [])"
proof -
  let ?n = "sc_serviceCursor s"
  let ?d = "cycle_dist c ?n"
  have "dequeueClass (serviceCycle ! ((?n + ?d) mod 15)) s \<noteq> None"
    using cycle_dist_turn(2) [of ?n c] dequeueClass_nonempty [OF inv nonempty] by simp
  moreover have "?d \<in> set [0..<15]" using cycle_dist_turn(1) by simp
  ultimately obtain j m s1 where j: "j \<le> ?d" and cls: "dequeueClass (serviceCycle ! ((?n + j) mod 15)) s = Some (m, s1)"
    and deq: "dequeue_from [0..<15] None t s = (Some m, s1\<lparr>sc_serviceCursor := (?n + j + 1) mod 15,
       sc_inFlight := js_set t m (sc_inFlight s1)\<rparr>)"
    using dequeue_from_first [of ?d "[0..<15]" s t] sorted_upt by blast
  let ?s' = "s1\<lparr>sc_serviceCursor := (?n + j + 1) mod 15, sc_inFlight := js_set t m (sc_inFlight s1)\<rparr>"
  have d: "dequeue None t s = (Some m, ?s')" using deq by (simp add: dequeue_def)
  have moved: "moved m s s1" "am_class m = serviceCycle ! ((?n + j) mod 15)"
    using dequeueClass_moved [OF inv cls] by auto
  show ?thesis
  proof (cases "am_class m = c")
    case True
    with d show ?thesis by blast
  next
    case False
    then have "j \<noteq> ?d" using moved(2) cycle_dist_turn(2) [of ?n c] by auto
    with j have "cycle_dist c (sc_serviceCursor ?s') < ?d" using cycle_dist_advance [of j c ?n] by simp
    have "mset (queued c s1) = mset (queued c s)" using moved(1) False by (auto simp: moved_def)
    moreover have "queued c ?s' = queued c s1" by (cases c) (simp_all add: queued_def queued_authority_def)
    ultimately have "queued c ?s' \<noteq> []" using nonempty by (metis mset_zero_iff)
    moreover note \<open>cycle_dist c (sc_serviceCursor ?s') < ?d\<close>
    ultimately show ?thesis using d by blast
  qed
qed

lemma dequeue_empty:
  assumes inv: "sched_inv s" and "\<And>c. queued c s = []"
  shows "dequeue allowed t s = (None, s)"
proof -
  have "dequeue_from offsets allowed t s = (None, s)" for offsets
    by (induction offsets) (simp_all add: Let_def dequeueClass_empty [OF inv assms(2)])
  then show ?thesis by (simp add: dequeue_def)
qed

section \<open>The scheduler under its owner's commands\<close>

datatype 'm sched_command =
  Enqueue 'm
| Dequeue "admission_class list option"
| Complete nat
| CancelQueued

record 'm sched_system =
  sy_scheduler :: "'m scheduler"
  sy_symbols :: nat
  sy_admitted :: "'m list"
  sy_served :: "'m list"
  sy_left :: "'m multiset"

definition option_list :: "'a option \<Rightarrow> 'a list" where
  "option_list x = (case x of None \<Rightarrow> [] | Some v \<Rightarrow> [v])"

lemma option_list_simps [simp]: "option_list None = []" "option_list (Some v) = [v]"
  by (simp_all add: option_list_def)

fun sched_exec :: "('p, 'z) message_scheme sched_system \<Rightarrow> ('p, 'z) message_scheme sched_command
    \<Rightarrow> (scheduler_error \<times> ('p, 'z) message_scheme scheduler) + ('p, 'z) message_scheme sched_system" where
  "sched_exec sy (Enqueue m) =
     (let (r, s) = enqueue m (sy_scheduler sy)
      in Inr (sy\<lparr>sy_scheduler := s,
            sy_admitted := (if accepted r then sy_admitted sy @ [m] else sy_admitted sy),
            sy_left := sy_left sy + mset_option (displaced r)\<rparr>))"
| "sched_exec sy (Dequeue allowed) =
     (let (w, s) = dequeue allowed (sy_symbols sy) (sy_scheduler sy)
      in Inr (sy\<lparr>sy_scheduler := s, sy_symbols := sy_symbols sy + 1,
            sy_served := sy_served sy @ option_list w\<rparr>))"
| "sched_exec sy (Complete t) =
     result_bind (complete t (sy_scheduler sy)) (\<lambda>s.
       Inr (sy\<lparr>sy_scheduler := s, sy_left := sy_left sy + mset_option (js_get (sc_inFlight (sy_scheduler sy)) t)\<rparr>))"
| "sched_exec sy CancelQueued =
     (let (ms, s) = cancelQueued (sy_scheduler sy)
      in Inr (sy\<lparr>sy_scheduler := s, sy_left := sy_left sy + mset ms\<rparr>))"

definition new_sched_system :: "'m sched_system" where
  "new_sched_system = \<lparr>sy_scheduler = empty_scheduler, sy_symbols = 0, sy_admitted = [], sy_served = [], sy_left = {#}\<rparr>"

definition held_all :: "('p, 'z) message_scheme scheduler \<Rightarrow> ('p, 'z) message_scheme multiset" where
  "held_all s = held Safety s + held Authority s + held Liveness s + held Diagnostic s"

definition tokens_ok :: "('p, 'z) message_scheme sched_system \<Rightarrow> bool" where
  "tokens_ok sy \<longleftrightarrow> (\<forall>t m. js_get (sc_inFlight (sy_scheduler sy)) t = Some m \<longrightarrow> t < sy_symbols sy)"

definition sys_inv :: "('p, 'z) message_scheme sched_system \<Rightarrow> bool" where
  "sys_inv sy \<longleftrightarrow> sched_inv (sy_scheduler sy) \<and> tokens_ok sy \<and>
     mset (sy_admitted sy) = held_all (sy_scheduler sy) + sy_left sy"

lemma new_sched_system_inv: "sys_inv new_sched_system"
  using empty_scheduler_inv
  by (simp add: sys_inv_def new_sched_system_def tokens_ok_def held_all_def held_def queued_def in_flight_def
      empty_scheduler_def queued_authority_def js_values_def)

lemma enqueue_effect_all:
  assumes "enqueue_effect m s r s'"
  shows "held_all s' + mset_option (displaced r) = (if accepted r then add_mset m (held_all s) else held_all s)"
proof -
  have "held c s' + (if c = am_class m then mset_option (displaced r) else {#}) =
       (if c = am_class m \<and> accepted r then add_mset m (held c s) else held c s)" for c
    using assms by (simp add: enqueue_effect_def)
  from this [of Safety] this [of Authority] this [of Liveness] this [of Diagnostic] show ?thesis
    unfolding held_all_def by (cases "am_class m"; cases "accepted r"; simp add: ac_simps)
qed

lemma complete_Inr:
  assumes "complete t s = Inr s'"
  obtains m where "js_get (sc_inFlight s) t = Some m"
  using assms by (cases "js_get (sc_inFlight s) t") (auto simp: complete_def)

lemma complete_inFlight: "complete t s = Inr s' \<Longrightarrow> sc_inFlight s' = js_delete t (sc_inFlight s) \<and> sc_serviceCursor s' = sc_serviceCursor s"
  by (auto simp: complete_def complete_authority_def Let_def split: option.splits admission_class.splits if_splits)

lemma dequeue_inFlight: "dequeue allowed t s = (w, s') \<Longrightarrow> sched_inv s \<Longrightarrow>
    sc_inFlight s' = (case w of None \<Rightarrow> sc_inFlight s | Some m \<Rightarrow> js_set t m (sc_inFlight s))"
  unfolding dequeue_def by (erule dequeue_from_cases) (auto simp: dest!: dequeueClass_moved, auto simp: moved_def)

lemma tokens_fresh: "tokens_ok sy \<Longrightarrow> js_get (sc_inFlight (sy_scheduler sy)) (sy_symbols sy) = None"
  by (cases "js_get (sc_inFlight (sy_scheduler sy)) (sy_symbols sy)") (auto simp: tokens_ok_def)

lemma sched_exec_inv:
  assumes inv: "sys_inv sy" and step: "sched_exec sy c = Inr sy'"
  shows "sys_inv sy'"
proof (cases c)
  case (Enqueue m)
  obtain r s where e: "enqueue m (sy_scheduler sy) = (r, s)" by (cases "enqueue m (sy_scheduler sy)")
  have eff: "enqueue_effect m (sy_scheduler sy) r s" using inv e by (intro enqueue_inv) (simp_all add: sys_inv_def)
  show ?thesis using inv step Enqueue e eff enqueue_effect_all [OF eff]
    by (auto simp: sys_inv_def tokens_ok_def enqueue_effect_def ac_simps)
next
  case (Dequeue allowed)
  obtain w s where e: "dequeue allowed (sy_symbols sy) (sy_scheduler sy) = (w, s)" by fastforce
  have d: "sched_inv s" "held d s = held d (sy_scheduler sy)" for d
    using dequeue_inv [OF _ tokens_fresh e] inv by (auto simp: sys_inv_def)
  have "tokens_ok sy'" using dequeue_inFlight [OF e] inv step Dequeue e
    by (auto simp: tokens_ok_def sys_inv_def js_get_set less_Suc_eq split: option.splits if_splits)
  then show ?thesis using inv step Dequeue e d by (auto simp: sys_inv_def held_all_def)
next
  case (Complete t)
  then obtain s where s: "complete t (sy_scheduler sy) = Inr s"
    and sy': "sy' = sy\<lparr>sy_scheduler := s, sy_left := sy_left sy + mset_option (js_get (sc_inFlight (sy_scheduler sy)) t)\<rparr>"
    using step by (auto simp: result_simps)
  obtain m where m: "js_get (sc_inFlight (sy_scheduler sy)) t = Some m" using s by (rule complete_Inr)
  have "sched_inv s" and held: "\<And>c. held c (sy_scheduler sy) = (if c = am_class m then add_mset m (held c s) else held c s)"
    using complete_inv [OF _ m] inv s by (auto simp: sys_inv_def)
  moreover have "held_all (sy_scheduler sy) = add_mset m (held_all s)"
    unfolding held_all_def held by (cases "am_class m") simp_all
  moreover have "tokens_ok sy'" using inv complete_inFlight [OF s]
    by (auto simp: sy' sys_inv_def tokens_ok_def js_get_delete split: if_splits)
  ultimately show ?thesis using inv m by (simp add: sys_inv_def sy')
next
  case CancelQueued
  obtain ms s where e: "cancelQueued (sy_scheduler sy) = (ms, s)" by fastforce
  have c: "sched_inv s" "in_flight s = in_flight (sy_scheduler sy)" "\<And>c. queued c s = []"
    "mset ms = (\<Sum>c\<in>{Safety, Authority, Liveness, Diagnostic}. mset (queued c (sy_scheduler sy)))"
    using cancelQueued_inv [OF _ e] inv by (auto simp: sys_inv_def)
  have "sc_inFlight s = sc_inFlight (sy_scheduler sy)" using e by (auto simp: cancelQueued_def Let_def)
  then show ?thesis using inv step CancelQueued e c
    by (auto simp: sys_inv_def held_all_def held_def tokens_ok_def ac_simps)
qed

interpretation admission: guarded_reducer sched_exec "\<lambda>_. True" sys_inv
  by unfold_locales (rule sched_exec_inv)

text \<open>Without cancellation the order of admission is the order of service.\<close>

definition no_cancel :: "'m sched_command \<Rightarrow> bool" where
  "no_cancel c \<longleftrightarrow> c \<noteq> CancelQueued"

definition fifo_inv :: "('p, 'z) message_scheme sched_system \<Rightarrow> bool" where
  "fifo_inv sy \<longleftrightarrow> sys_inv sy \<and>
     filter (\<lambda>m. am_class m = Safety) (sy_admitted sy) =
       filter (\<lambda>m. am_class m = Safety) (sy_served sy) @ sc_safety (sy_scheduler sy) \<and>
     (\<forall>p. filter (of_principal p) (sy_admitted sy) =
       filter (of_principal p) (sy_served sy) @ aq_messages (authority_queue_of (sy_scheduler sy) p))"

lemma enqueue_fifo:
  assumes "enqueue m s = (r, s')"
  shows "sc_safety s' = sc_safety s @ (if accepted r \<and> am_class m = Safety then [m] else []) \<and>
    (\<forall>p. aq_messages (authority_queue_of s' p) =
      aq_messages (authority_queue_of s p) @ (if accepted r \<and> of_principal p m then [m] else []))"
proof (cases "validateMessage m :: ('a, 'b) message_scheme admission_result option")
  case None
  show ?thesis
  proof (cases "am_class m")
    case Safety
    then show ?thesis using assms None
      by (auto simp: enqueue_def enqueue_safety_def of_principal_def authority_queue_of_def split: if_splits)
  next
    case Authority
    then show ?thesis using assms None
      by (auto simp: enqueue_def enqueue_authority_def of_principal_def authority_queue_of_def Let_def js_get_set split: if_splits)
  qed (use assms None in \<open>auto simp: enqueue_def enqueue_coalesced_def of_principal_def authority_queue_of_def split: option.splits\<close>)
next
  case (Some e)
  then show ?thesis using assms validateMessage_fence [OF Some] by (auto simp: enqueue_def authority_queue_of_def)
qed

lemma complete_fifo:
  assumes inv: "sched_inv s" and step: "complete t s = Inr s'"
  shows "sc_safety s' = sc_safety s \<and> aq_messages (authority_queue_of s' p) = aq_messages (authority_queue_of s p)"
proof -
  obtain m where m: "js_get (sc_inFlight s) t = Some m" using step by (rule complete_Inr)
  show ?thesis
  proof (cases "am_class m = Authority")
    case True
    let ?p = "or_empty (am_stablePrincipal m)"
    obtain q q' s1 where q: "js_get (sc_authorityByPrincipal s) ?p = Some q"
      and q': "q' = q\<lparr>aq_accounting := release (aq_accounting q) (am_byteLength m)\<rparr>"
      and s1: "complete t s = Inr s1" "sc_authorityByPrincipal s1 = (if qa_messageCount (aq_accounting q') = 0
        then js_delete ?p (sc_authorityByPrincipal s) else js_set ?p q' (sc_authorityByPrincipal s))"
        "sc_safety s1 = sc_safety s"
      by (rule complete_authority_step [OF inv m True refl])
    have queue: "authority_queue_of s ?p = q" using q by (simp add: authority_queue_of_def)
    have "m \<in># filter_mset (of_principal ?p) (in_flight s)"
      using m True by (simp add: in_flight_def of_principal_def js_get_value)
    then have "0 < size (filter_mset (of_principal ?p) (in_flight s))"
      using nonempty_has_size by fastforce
    moreover have "qa_messageCount (aq_accounting q') = int (length (aq_messages q)) + int (size (filter_mset (of_principal ?p) (in_flight s))) - 1"
      using accounts_facts(3) [OF inv, of ?p] by (simp add: q' queue release_def held_by_def) (simp add: tot_def)
    ultimately have "length (aq_messages q) = 0" if "qa_messageCount (aq_accounting q') = 0" using that by linarith
    then have "aq_messages q = []" if "qa_messageCount (aq_accounting q') = 0" using that by simp
    then show ?thesis using s1 step q q'
      by (auto simp: authority_queue_of_def js_get_set js_get_delete empty_authority_queue_def)
  next
    case False
    then show ?thesis using step m
      by (auto simp: complete_def Let_def authority_queue_of_def split: admission_class.splits)
  qed
qed

lemma fifo_exec:
  assumes inv: "fifo_inv sy" and allowed: "no_cancel c" and step: "sched_exec sy c = Inr sy'"
  shows "fifo_inv sy'"
proof -
  have sys: "sys_inv sy'" using sched_exec_inv [OF _ step] inv by (simp add: fifo_inv_def)
  have si: "sched_inv (sy_scheduler sy)" using inv by (simp add: fifo_inv_def sys_inv_def)
  show ?thesis
  proof (cases c)
    case (Enqueue m)
    obtain r s where e: "enqueue m (sy_scheduler sy) = (r, s)" by fastforce
    have sy': "sy_admitted sy' = (if accepted r then sy_admitted sy @ [m] else sy_admitted sy)"
      "sy_served sy' = sy_served sy" "sy_scheduler sy' = s"
      using step Enqueue e by auto
    have old: "filter (\<lambda>m. am_class m = Safety) (sy_admitted sy) =
        filter (\<lambda>m. am_class m = Safety) (sy_served sy) @ sc_safety (sy_scheduler sy)"
      "filter (of_principal p) (sy_admitted sy) =
        filter (of_principal p) (sy_served sy) @ aq_messages (authority_queue_of (sy_scheduler sy) p)" for p
      using inv by (simp_all add: fifo_inv_def)
    have new: "sc_safety s = sc_safety (sy_scheduler sy) @ (if accepted r \<and> am_class m = Safety then [m] else [])"
      "aq_messages (authority_queue_of s p) = aq_messages (authority_queue_of (sy_scheduler sy) p) @
        (if accepted r \<and> of_principal p m then [m] else [])" for p
      using enqueue_fifo [OF e] by blast+
    show ?thesis using sys by (simp add: fifo_inv_def sy' old new)
  next
    case (Dequeue allowed)
    obtain w s where e: "dequeue allowed (sy_symbols sy) (sy_scheduler sy) = (w, s)" by fastforce
    show ?thesis
    proof (cases w)
      case None
      then have "s = sy_scheduler sy" using e unfolding dequeue_def by (auto elim: dequeue_from_cases)
      then show ?thesis using inv step Dequeue e None sys by (auto simp: fifo_inv_def)
    next
      case (Some m)
      then have "fifo_step m (sy_scheduler sy) s" using dequeue_fifo [OF si] e by simp
      then show ?thesis using inv step Dequeue e Some sys by (auto simp: fifo_inv_def fifo_step_def split: if_splits)
    qed
  next
    case (Complete t)
    then show ?thesis using inv step sys complete_fifo [OF si]
      by (auto simp: fifo_inv_def result_simps)
  next
    case CancelQueued
    with allowed show ?thesis by (simp add: no_cancel_def)
  qed
qed

interpretation admission_fifo: guarded_reducer sched_exec no_cancel fifo_inv
  by unfold_locales (rule fifo_exec)

section \<open>Bounded waiting\<close>

definition serving :: "'m sched_command \<Rightarrow> bool" where
  "serving c \<longleftrightarrow> (case c of Dequeue allowed \<Rightarrow> allowed = None | CancelQueued \<Rightarrow> False | _ \<Rightarrow> True)"

definition is_dequeue :: "'m sched_command \<Rightarrow> bool" where
  "is_dequeue c \<longleftrightarrow> (case c of Dequeue _ \<Rightarrow> True | _ \<Rightarrow> False)"

definition served_of :: "admission_class \<Rightarrow> ('p, 'z) message_scheme sched_system \<Rightarrow> nat" where
  "served_of c sy = length (filter (\<lambda>m. am_class m = c) (sy_served sy))"

definition waiting :: "admission_class \<Rightarrow> ('p, 'z) message_scheme sched_system \<Rightarrow> nat \<Rightarrow> bool" where
  "waiting c sy n \<longleftrightarrow> sys_inv sy \<and> queued c (sy_scheduler sy) \<noteq> [] \<and> cycle_dist c (sc_serviceCursor (sy_scheduler sy)) \<le> n"

lemma enqueue_keeps_queued:
  assumes "sched_inv s" and "enqueue m s = (r, s')" and "queued c s \<noteq> []"
  shows "queued c s' \<noteq> [] \<and> sc_serviceCursor s' = sc_serviceCursor s"
proof -
  have eff: "enqueue_effect m s r s'" using enqueue_inv [OF assms(1,2)] .
  then have same: "in_flight s' = in_flight s" by (simp add: enqueue_effect_def in_flight_def)
  have "queued c s' \<noteq> []"
  proof (cases "c = am_class m \<and> accepted r")
    case True
    then have "mset (queued c s') + mset_option (displaced r) = add_mset m (mset (queued c s))"
      using eff same by (auto simp: enqueue_effect_def held_def dest!: spec [of _ c])
    then show ?thesis using assms(3) by (cases "displaced r"; cases "queued c s'") auto
  next
    case False
    then have "mset (queued c s') + (if c = am_class m then mset_option (displaced r) else {#}) = mset (queued c s)"
      using eff same by (auto simp: enqueue_effect_def held_def dest!: spec [of _ c])
    moreover have "displaced r = None" if "\<not> accepted r" using that by (auto simp: accepted_def displaced_def split: admission_result.splits)
    ultimately show ?thesis using False assms(3) by (auto split: if_splits)
  qed
  then show ?thesis using eff by (simp add: enqueue_effect_def)
qed

lemma complete_queued:
  assumes inv: "sched_inv s" and step: "complete t s = Inr s'"
  shows "mset (queued c s') = mset (queued c s) \<and> sc_serviceCursor s' = sc_serviceCursor s"
proof -
  obtain m where m: "js_get (sc_inFlight s) t = Some m" using step by (rule complete_Inr)
  have ok: "js_map_ok (sc_inFlight s)" using inv by (simp add: sched_inv_def scheduler_maps_ok_def)
  have "held c s = (if c = am_class m then add_mset m (held c s') else held c s')"
    using complete_inv [OF inv m] step by auto
  moreover have "in_flight s = add_mset m (in_flight s')"
    using in_flight_delete [OF ok m] complete_inFlight [OF step] by (simp add: in_flight_def)
  ultimately show ?thesis using complete_inFlight [OF step] by (auto simp: held_def split: if_splits)
qed

lemma waiting_step:
  assumes wait: "waiting c sy n" and serving: "serving cmd" and step: "sched_exec sy cmd = Inr sy'"
  shows "served_of c sy \<le> served_of c sy' \<and> (served_of c sy < served_of c sy' \<or>
    waiting c sy' (if is_dequeue cmd then n - 1 else n) \<and> (is_dequeue cmd \<longrightarrow> 0 < n))"
proof -
  have inv: "sys_inv sy" and si: "sched_inv (sy_scheduler sy)" and q: "queued c (sy_scheduler sy) \<noteq> []"
    and dist: "cycle_dist c (sc_serviceCursor (sy_scheduler sy)) \<le> n"
    using wait by (simp_all add: waiting_def sys_inv_def)
  have sys: "sys_inv sy'" using sched_exec_inv [OF inv step] .
  show ?thesis
  proof (cases cmd)
    case (Enqueue m)
    obtain r s where e: "enqueue m (sy_scheduler sy) = (r, s)" by fastforce
    then have "sy_scheduler sy' = s" "sy_served sy' = sy_served sy" using step Enqueue by auto
    then show ?thesis using sys dist enqueue_keeps_queued [OF si e q] Enqueue
      by (simp add: waiting_def served_of_def is_dequeue_def)
  next
    case (Dequeue allowed)
    with serving have "allowed = None" by (simp add: serving_def)
    obtain m s where e: "dequeue None (sy_symbols sy) (sy_scheduler sy) = (Some m, s)"
      and p: "am_class m = c \<or> cycle_dist c (sc_serviceCursor s) < cycle_dist c (sc_serviceCursor (sy_scheduler sy)) \<and> queued c s \<noteq> []"
      using dequeue_progress [OF si q] by blast
    have "sy_scheduler sy' = s" "sy_served sy' = sy_served sy @ [m]"
      using step Dequeue e \<open>allowed = None\<close> by auto
    then show ?thesis using sys dist p Dequeue by (auto simp: waiting_def served_of_def is_dequeue_def)
  next
    case (Complete t)
    then obtain s where s: "complete t (sy_scheduler sy) = Inr s" "sy_scheduler sy' = s" "sy_served sy' = sy_served sy"
      using step by (auto simp: result_simps)
    have "queued c s \<noteq> []" using complete_queued [OF si s(1), of c] q by (metis mset_zero_iff)
    then show ?thesis using sys dist s complete_queued [OF si s(1)] Complete
      by (simp add: waiting_def served_of_def is_dequeue_def)
  next
    case CancelQueued
    with serving show ?thesis by (simp add: serving_def)
  qed
qed

lemma served_of_run:
  "sys_inv sy \<Longrightarrow> list_all serving cs \<Longrightarrow> served_of c sy \<le> served_of c (run_commands sched_exec sy cs)"
proof (induction cs arbitrary: sy)
  case (Cons d cs)
  have "served_of c sy \<le> served_of c (apply_command sched_exec sy d)"
  proof (cases d)
    case (Enqueue m) then show ?thesis by (simp add: apply_command_def served_of_def split: prod.splits)
  next
    case (Dequeue a) then show ?thesis by (simp add: apply_command_def served_of_def split: prod.splits)
  next
    case (Complete t) then show ?thesis
      by (cases "complete t (sy_scheduler sy)") (simp_all add: apply_command_def served_of_def)
  next
    case CancelQueued then show ?thesis by (simp add: apply_command_def served_of_def split: prod.splits)
  qed
  moreover have "sys_inv (apply_command sched_exec sy d)"
    using Cons.prems(1) sched_exec_inv [of sy d] by (cases "sched_exec sy d") (simp_all add: apply_command_def)
  ultimately show ?case using Cons.IH [of "apply_command sched_exec sy d"] Cons.prems by simp
qed simp

lemma waiting_run:
  assumes "waiting c sy n" and "list_all serving cs" and "n < length (filter is_dequeue cs)"
  shows "served_of c sy < served_of c (run_commands sched_exec sy cs)"
  using assms
proof (induction cs arbitrary: sy n)
  case (Cons d cs)
  show ?case
  proof (cases "sched_exec sy d")
    case (Inl e)
    then have "\<not> is_dequeue d" by (cases d) (auto simp: is_dequeue_def split: prod.splits)
    with Cons Inl show ?thesis by (simp add: apply_command_def)
  next
    case (Inr sy')
    have sys: "sys_inv sy'" using sched_exec_inv [OF _ Inr] Cons.prems(1) by (simp add: waiting_def)
    have d: "serving d" "list_all serving cs" using Cons.prems(2) by simp_all
    have run: "run_commands sched_exec sy (d # cs) = run_commands sched_exec sy' cs"
      by (simp add: apply_command_def Inr)
    from waiting_step [OF Cons.prems(1) d(1) Inr] consider
      (served) "served_of c sy < served_of c sy'"
      | (waits) "served_of c sy \<le> served_of c sy'" "waiting c sy' (if is_dequeue d then n - 1 else n)" "is_dequeue d \<longrightarrow> 0 < n"
      by blast
    then show ?thesis
    proof cases
      case served
      with served_of_run [OF sys d(2), of c] show ?thesis unfolding run by simp
    next
      case waits
      have "(if is_dequeue d then n - 1 else n) < length (filter is_dequeue cs)"
        using Cons.prems(3) waits(3) by (auto split: if_splits)
      from Cons.IH [OF waits(2) d(2) this] waits(1) show ?thesis unfolding run by simp
    qed
  qed
qed simp

end
