(* ===== verification/AdmissionProperties.thy ===== *)
theory AdmissionProperties
  imports AdmissionRuns
begin

text \<open>
  What the admission scheduler guarantees the control session that owns it, with a worked
  session for the witnesses, and a schedule under which one authority principal waits forever.
\<close>

section \<open>A worked session\<close>

definition demo_message :: "admission_class \<Rightarrow> string \<Rightarrow> string \<Rightarrow> unit message" where
  "demo_message c p i = \<lparr>am_byteLength = 10, am_coalesceKey = Some p, am_id = i, am_class = c, am_payload = (),
     am_stablePrincipal = Some p\<rparr>"

abbreviation demo_session :: "unit message sched_command list \<Rightarrow> unit message sched_system" where
  "demo_session \<equiv> run_commands sched_exec new_sched_system"

definition demo_traffic :: "unit message sched_command list" where
  "demo_traffic = [Enqueue (demo_message Safety ''s'' ''1''), Enqueue (demo_message Authority ''p'' ''2''),
     Enqueue (demo_message Liveness ''k'' ''3''), Enqueue (demo_message Liveness ''k'' ''4''),
     Enqueue (demo_message Authority ''p'' ''5''), Dequeue None, Complete 0, Dequeue None]"

lemma demo_session_reachable: "reachable sched_exec (\<lambda>_. True) new_sched_system (demo_session cs)"
  by (rule run_commands_reachable [OF reachable.start]) (simp add: list_all_def)

lemma demo_session_inv: "sys_inv (demo_session cs)"
  by (rule admission.reachable_inv [OF demo_session_reachable new_sched_system_inv])

section \<open>The properties\<close>

text \<open>
  C8: After any sequence of enqueues, dequeues, completions and cancellations, nothing is lost or invented (what was admitted is what is held plus what left), the counters of every class are exactly the number and the bytes of the messages it holds, queued or in flight, and every class and every principal is within its limit.
\<close>

theorem admission_accounts_exactly:
  assumes "reachable sched_exec (\<lambda>_. True) new_sched_system sy"
  shows "mset (sy_admitted sy) = held_all (sy_scheduler sy) + sy_left sy \<and>
    accounting_of c (sy_scheduler sy) = tot (held c (sy_scheduler sy)) \<and>
    within (class_limit c) (accounting_of c (sy_scheduler sy)) \<and>
    within perPrincipalAuthority (tot (held_by p (sy_scheduler sy)))"
proof -
  have inv: "sys_inv sy" by (rule admission.reachable_inv [OF assms new_sched_system_inv])
  then have "sched_inv (sy_scheduler sy)" by (simp add: sys_inv_def)
  from accounts_facts [OF this] inv show ?thesis by (simp add: sys_inv_def)
qed

theorem admission_accounts_exactly_witness:
  "accounting_of Authority (sy_scheduler (demo_session demo_traffic)) =
     tot (held Authority (sy_scheduler (demo_session demo_traffic)))"
  using admission_accounts_exactly [OF demo_session_reachable] by blast

text \<open>
  C9: In every reachable state the answer to a valid message is the one the abstract specification gives from the multisets held: admitted when the class (and for authority first the principal) would stay within its limit, a queued message with the same key replaced, and otherwise the refusal of its class.
\<close>

theorem admission_refines_spec:
  assumes "reachable sched_exec (\<lambda>_. True) new_sched_system sy"
    and "validateMessage m = (None :: ('p, 'z) message_scheme admission_result option)"
  shows "fst (enqueue m (sy_scheduler sy)) =
    admission_spec (m :: ('p, 'z) message_scheme) (held (am_class m) (sy_scheduler sy))
      (held_by (or_empty (am_stablePrincipal m)) (sy_scheduler sy)) (queued_prior m (sy_scheduler sy))"
proof -
  have "sys_inv sy" by (rule admission.reachable_inv [OF assms(1) new_sched_system_inv])
  then show ?thesis using assms(2) by (intro enqueue_refines) (simp_all add: sys_inv_def)
qed

theorem admission_refines_spec_witness:
  "admission_spec (demo_message Liveness ''k'' ''9'') (held Liveness (sy_scheduler (demo_session (take 4 demo_traffic))))
     (held_by ''k'' (sy_scheduler (demo_session (take 4 demo_traffic))))
     (queued_prior (demo_message Liveness ''k'' ''9'') (sy_scheduler (demo_session (take 4 demo_traffic))))
   = Replaced (demo_message Liveness ''k'' ''4'')"
proof -
  let ?m = "demo_message Liveness ''k'' ''9''" and ?s = "sy_scheduler (demo_session (take 4 demo_traffic))"
  have "validateMessage ?m = (None :: unit message admission_result option)" by code_simp
  from admission_refines_spec [OF demo_session_reachable this]
  have "fst (enqueue ?m ?s) = admission_spec ?m (held (am_class ?m) ?s) (held_by (or_empty (am_stablePrincipal ?m)) ?s) (queued_prior ?m ?s)" .
  moreover have "fst (enqueue ?m ?s) = Replaced (demo_message Liveness ''k'' ''4'')" by code_simp
  moreover have "am_class ?m = Liveness" "or_empty (am_stablePrincipal ?m) = ''k''" by code_simp+
  ultimately show ?thesis by simp
qed

text \<open>
  As long as nothing is cancelled, safety messages are served in the order in which they were admitted, and so are the authority messages of each principal: the served ones followed by the queued ones are the admitted ones.
\<close>

theorem admission_fifo_order:
  assumes "reachable sched_exec no_cancel new_sched_system sy"
  shows "filter (\<lambda>m. am_class m = Safety) (sy_admitted sy) =
      filter (\<lambda>m. am_class m = Safety) (sy_served sy) @ sc_safety (sy_scheduler sy) \<and>
    filter (of_principal p) (sy_admitted sy) =
      filter (of_principal p) (sy_served sy) @ aq_messages (authority_queue_of (sy_scheduler sy) p)"
proof -
  have "fifo_inv new_sched_system"
    using new_sched_system_inv
    by (simp add: fifo_inv_def new_sched_system_def empty_scheduler_def authority_queue_of_def empty_authority_queue_def)
  then have "fifo_inv sy" by (rule admission_fifo.reachable_inv [OF assms])
  then show ?thesis by (simp add: fifo_inv_def)
qed

theorem admission_fifo_order_witness:
  "filter (of_principal ''p'') (sy_served (demo_session demo_traffic)) @
     aq_messages (authority_queue_of (sy_scheduler (demo_session demo_traffic)) ''p'')
   = [demo_message Authority ''p'' ''2'', demo_message Authority ''p'' ''5'']"
proof -
  have "reachable sched_exec no_cancel new_sched_system (demo_session demo_traffic)"
    by (rule run_commands_reachable [OF reachable.start]) (simp add: demo_traffic_def no_cancel_def)
  from admission_fifo_order [OF this, of "''p''"]
  have "filter (of_principal ''p'') (sy_served (demo_session demo_traffic)) @
     aq_messages (authority_queue_of (sy_scheduler (demo_session demo_traffic)) ''p'')
    = filter (of_principal ''p'') (sy_admitted (demo_session demo_traffic))" by simp
  also have "\<dots> = [demo_message Authority ''p'' ''2'', demo_message Authority ''p'' ''5'']" by code_simp
  finally show ?thesis .
qed

text \<open>
  C10: No class starves another: if a class has a queued message, then along any further run without cancellation and with at least 15 unrestricted dequeues (the length of the service cycle) at least one more message of that class is served, whatever is enqueued and completed in between.
\<close>

theorem class_served_within_cycle:
  assumes "reachable sched_exec (\<lambda>_. True) new_sched_system sy" and "queued c (sy_scheduler sy) \<noteq> []"
    and "list_all serving cs" and "15 \<le> length (filter is_dequeue cs)"
  shows "served_of c sy < served_of c (run_commands sched_exec sy cs)"
proof -
  have "sys_inv sy" by (rule admission.reachable_inv [OF assms(1) new_sched_system_inv])
  then have "waiting c sy 14" using assms(2) cycle_dist_turn(1) [of c "sc_serviceCursor (sy_scheduler sy)"]
    by (simp add: waiting_def)
  then show ?thesis using assms(3,4) by (intro waiting_run) auto
qed

definition demo_flood :: "unit message sched_command list" where
  "demo_flood = concat (map (\<lambda>i. [Enqueue (demo_message Safety ''s'' ''f''), Dequeue None, Complete i]) [2..<17])"

theorem class_served_within_cycle_witness:
  "served_of Liveness (demo_session demo_traffic) <
   served_of Liveness (run_commands sched_exec (demo_session demo_traffic) demo_flood)"
proof (rule class_served_within_cycle [OF demo_session_reachable])
  show "queued Liveness (sy_scheduler (demo_session demo_traffic)) \<noteq> []" by code_simp
  show "list_all serving demo_flood" by code_simp
  show "15 \<le> length (filter is_dequeue demo_flood)" by code_simp
qed

text \<open>
  The scheduler is work conserving: an unrestricted dequeue returns nothing exactly when no class has a queued message.
\<close>

theorem dequeue_none_iff_idle:
  assumes "reachable sched_exec (\<lambda>_. True) new_sched_system sy"
  shows "fst (dequeue None t (sy_scheduler sy)) = None \<longleftrightarrow>
    queued Safety (sy_scheduler sy) = [] \<and> queued Authority (sy_scheduler sy) = [] \<and>
    queued Liveness (sy_scheduler sy) = [] \<and> queued Diagnostic (sy_scheduler sy) = []"
  (is "?lhs \<longleftrightarrow> ?rhs")
proof
  have inv: "sched_inv (sy_scheduler sy)"
    using admission.reachable_inv [OF assms new_sched_system_inv] by (simp add: sys_inv_def)
  show ?rhs if ?lhs
    using that dequeue_progress [OF inv, of _ t] by (metis fst_conv option.distinct(1))
  show ?lhs if ?rhs
  proof -
    have "queued c (sy_scheduler sy) = []" for c using that by (cases c) simp_all
    from dequeue_empty [OF inv this] show ?thesis by simp
  qed
qed

theorem dequeue_none_iff_idle_witness: "fst (dequeue None 7 (sy_scheduler (demo_session demo_traffic))) \<noteq> None"
proof -
  have "queued Liveness (sy_scheduler (demo_session demo_traffic)) \<noteq> []" by code_simp
  then show ?thesis using dequeue_none_iff_idle [OF demo_session_reachable, of 7 demo_traffic] by blast
qed

text \<open>
  Completing fails exactly for a token that is not in flight, and then leaves the scheduler as it was; the other error of the code (a principal that is not admitted) never occurs.
\<close>

theorem complete_error_iff:
  assumes "reachable sched_exec (\<lambda>_. True) new_sched_system sy"
  shows "sched_exec sy (Complete t) = Inl (e, s) \<longleftrightarrow>
    e = MessageNotInFlight \<and> s = sy_scheduler sy \<and> js_get (sc_inFlight (sy_scheduler sy)) t = None"
proof -
  have inv: "sched_inv (sy_scheduler sy)"
    using admission.reachable_inv [OF assms new_sched_system_inv] by (simp add: sys_inv_def)
  show ?thesis
  proof (cases "js_get (sc_inFlight (sy_scheduler sy)) t")
    case None
    then show ?thesis by (auto simp: complete_def)
  next
    case (Some m)
    from complete_inv [OF inv Some] Some show ?thesis by auto
  qed
qed

theorem complete_error_iff_witness:
  "sched_exec (demo_session demo_traffic) (Complete 0) = Inl (MessageNotInFlight, sy_scheduler (demo_session demo_traffic))"
proof -
  have "js_get (sc_inFlight (sy_scheduler (demo_session demo_traffic))) 0 = None" by code_simp
  then show ?thesis using complete_error_iff [OF demo_session_reachable] by blast
qed

section \<open>A principal that is never served\<close>

definition starved_start :: "unit message sched_command list" where
  "starved_start = [Enqueue (demo_message Authority ''b'' ''0''), Enqueue (demo_message Authority ''b'' ''b''),
     Enqueue (demo_message Authority ''x'' ''x''), Enqueue (demo_message Authority ''y'' ''y''), Dequeue None, Complete 0]"

text \<open>
  The state in which principal b waits with its message while x and y each have one queued;
  \<open>swapped\<close> tells which of them is next in the order.
\<close>

definition starved_scheduler :: "nat \<Rightarrow> bool \<Rightarrow> unit message scheduler" where
  "starved_scheduler n swapped =
     (let q = (\<lambda>p. (p, \<lparr>aq_accounting = \<lparr>qa_byteCount = 10, qa_messageCount = 1\<rparr>,
                         aq_messages = [demo_message Authority p p]\<rparr>));
          order = (if swapped then [''b'', ''y'', ''x''] else [''b'', ''x'', ''y''])
      in empty_scheduler
        \<lparr>sc_authorityByPrincipal := map q order,
         sc_authorityPrincipalOrder := order,
         sc_authorityAccounting := \<lparr>qa_byteCount = 30, qa_messageCount = 3\<rparr>,
         sc_serviceCursor := n, sc_authorityPrincipalCursor := 1\<rparr>)"

definition serve_and_refill :: "nat \<Rightarrow> unit message \<Rightarrow> unit message scheduler \<Rightarrow> (unit message \<times> unit message scheduler) option" where
  "serve_and_refill t m s =
     (case dequeue None t s of
        (Some w, s1) \<Rightarrow>
          (case complete t s1 of
             Inr s2 \<Rightarrow> (case enqueue m s2 of (Admitted, s3) \<Rightarrow> Some (w, s3) | _ \<Rightarrow> None)
           | Inl _ \<Rightarrow> None)
      | _ \<Rightarrow> None)"

abbreviation "message_x \<equiv> demo_message Authority ''x'' ''x''"
abbreviation "message_y \<equiv> demo_message Authority ''y'' ''y''"

lemma starving_steps:
  "serve_and_refill t message_x (starved_scheduler 9 False) = Some (message_x, starved_scheduler 10 True)"
  "serve_and_refill t message_y (starved_scheduler 10 True) = Some (message_y, starved_scheduler 11 False)"
  "serve_and_refill t message_x (starved_scheduler 11 False) = Some (message_x, starved_scheduler 12 True)"
  "serve_and_refill t message_y (starved_scheduler 12 True) = Some (message_y, starved_scheduler 9 False)"
  by code_simp+

lemma serve_and_refill_run:
  assumes "serve_and_refill (sy_symbols sy) m (sy_scheduler sy) = Some (w, s)"
    and "sy' = run_commands sched_exec sy [Dequeue None, Complete (sy_symbols sy), Enqueue m]"
  shows "sy_scheduler sy' = s \<and> sy_symbols sy' = sy_symbols sy + 1 \<and> sy_served sy' = sy_served sy @ [w]"
  using assms
  by (auto simp: serve_and_refill_def apply_command_def split: option.splits sum.splits prod.splits admission_result.splits)

definition starving_commands :: "nat \<Rightarrow> unit message sched_command list" where
  "starving_commands t = [Dequeue None, Complete t, Enqueue message_x,
     Dequeue None, Complete (t + 1), Enqueue message_y]"

definition starving_rounds :: "nat \<Rightarrow> unit message sched_command list" where
  "starving_rounds n = concat (map (\<lambda>i. starving_commands (2 * i + 1)) [0..<2 * n])"

lemma starving_pair:
  assumes "sy_scheduler sy = starved_scheduler n False" and "sy_symbols sy = t"
    and "n = 9 \<and> n' = 11 \<or> n = 11 \<and> n' = 9"
    and "sy' = run_commands sched_exec sy (starving_commands t)"
  shows "sy_scheduler sy' = starved_scheduler n' False \<and> sy_symbols sy' = t + 2 \<and>
    sy_served sy' = sy_served sy @ [message_x, message_y]"
proof -
  define sy1 where "sy1 = run_commands sched_exec sy [Dequeue None, Complete (sy_symbols sy), Enqueue message_x]"
  obtain k where "n = 9 \<and> k = 10 \<or> n = (11::nat) \<and> k = (12::nat)" using assms(3) by auto
  then have "serve_and_refill (sy_symbols sy) message_x (sy_scheduler sy) = Some (message_x, starved_scheduler k True)"
    and k: "serve_and_refill (sy_symbols sy1) message_y (starved_scheduler k True) = Some (message_y, starved_scheduler n' False)"
    using assms(1,3) starving_steps by auto
  from serve_and_refill_run [OF this(1) sy1_def]
  have sy1: "sy_scheduler sy1 = starved_scheduler k True" "sy_symbols sy1 = t + 1" "sy_served sy1 = sy_served sy @ [message_x]"
    using assms(2) by simp_all
  have "sy' = run_commands sched_exec sy1 [Dequeue None, Complete (sy_symbols sy1), Enqueue message_y]"
    using sy1(2) assms(2,4) by (simp add: starving_commands_def sy1_def)
  from serve_and_refill_run [OF _ this, of message_y "starved_scheduler n' False"] k sy1
  show ?thesis by simp
qed

lemma starving_rounds_Suc:
  "starving_rounds (Suc n) = starving_rounds n @ starving_commands (4 * n + 1) @ starving_commands (4 * n + 3)"
  by (simp add: starving_rounds_def numeral_eq_Suc add.assoc)

text \<open>
  C11: Authority principals are not served round robin: for every n there is a run in which principal b waits with a queued message while 4 n + 1 authority messages are served, all of them (but its own first one) of two other principals that refill as soon as they complete. A principal whose queue empties is removed and re-enters at the end, behind the cursor's next position, so the cursor never reaches b.
\<close>

theorem authority_principal_can_starve:
  "length (sy_served (demo_session (starved_start @ starving_rounds n))) = 4 * n + 1 \<and>
   filter (of_principal ''b'') (sy_served (demo_session (starved_start @ starving_rounds n))) = [demo_message Authority ''b'' ''0''] \<and>
   aq_messages (authority_queue_of (sy_scheduler (demo_session (starved_start @ starving_rounds n))) ''b'') = [demo_message Authority ''b'' ''b'']"
proof -
  let ?sy = "\<lambda>n. demo_session (starved_start @ starving_rounds n)"
  have "sy_scheduler (?sy n) = starved_scheduler 9 False \<and> sy_symbols (?sy n) = 4 * n + 1 \<and>
     length (sy_served (?sy n)) = 4 * n + 1 \<and>
     filter (of_principal ''b'') (sy_served (?sy n)) = [demo_message Authority ''b'' ''0'']" for n
  proof (induction n)
    case 0
    show ?case unfolding starving_rounds_def by code_simp
  next
    case (Suc n)
    define sy1 where "sy1 = run_commands sched_exec (?sy n) (starving_commands (4 * n + 1))"
    have sy2: "?sy (Suc n) = run_commands sched_exec sy1 (starving_commands (4 * n + 3))"
      by (simp add: starving_rounds_Suc run_commands_append sy1_def)
    from starving_pair [OF _ _ _ sy1_def, of 9 11] Suc.IH
    have sy1: "sy_scheduler sy1 = starved_scheduler 11 False" "sy_symbols sy1 = 4 * n + 3"
      "sy_served sy1 = sy_served (?sy n) @ [message_x, message_y]" by simp_all
    from starving_pair [OF sy1(1,2) _ sy2, of 9] Suc.IH show ?case
      by (simp add: sy1(3)) (simp add: of_principal_def or_empty_def demo_message_def)
  qed
  then show ?thesis by (simp add: starved_scheduler_def authority_queue_of_def)
qed

end
