(* ===== verification/ProcessAdmission.thy ===== *)
theory ProcessAdmission
  imports AdmissionRuns
begin

text \<open>
  packages/gateway-control-contracts/src/gateway-control-admission.ts, second half
  (\<open>createGatewayControlProcessAdmission\<close>): the admission of the whole process, which owns
  one scheduler per zone and bounds what all zones together hold outside the safety class. The
  fresh symbols behind the completion tokens of all schedulers come from one supply,
  \<open>pa_symbols\<close>. The loop of \<open>unregisterZone\<close> that runs until its scheduler is empty
  is a partial function; that it ends is a theorem of the next theory. Two messages are the same
  object where the code compares them exactly when they are equal here, because the map of
  queued coalescible messages always holds the very message the scheduler has queued.
\<close>

record 'p process_message = "'p message" +
  pm_zoneId :: string

type_synonym 'p pmessage = "'p process_message"

record 'p process_admission =
  pa_maxActiveSessions :: int
  pa_maxNonSafetyBytes :: int
  pa_maxNonSafetyMessages :: int
  pa_schedulersByZone :: "(string, 'p pmessage scheduler) js_map"
  pa_queuedCoalescible :: "(string, (string, 'p pmessage) js_map) js_map"
  pa_inFlight :: "(nat, 'p pmessage) js_map"
  pa_zoneOrder :: "string list"
  pa_zoneCursor :: nat
  pa_nonSafetyBytes :: int
  pa_nonSafetyMessages :: int
  pa_symbols :: nat

datatype process_error =
  ProcessMessageNotInFlight
| ZoneNotRegistered
| LostZoneIdentity
| SchedulerError scheduler_error
| LimitNotPositive string

text \<open>A thrown error carries the state it leaves behind.\<close>

type_synonym ('p, 'a) process_result = "(process_error \<times> 'p process_admission) + 'a"

section \<open>Creation\<close>

definition requirePositiveLimit :: "string \<Rightarrow> int \<Rightarrow> process_error + unit" where
  "requirePositiveLimit name v =
     (if \<not> is_safe_integer v \<or> v \<le> 0 then Inl (LimitNotPositive name) else Inr ())"

definition option_or :: "'a option \<Rightarrow> 'a \<Rightarrow> 'a" where
  "option_or x d = (case x of None \<Rightarrow> d | Some v \<Rightarrow> v)"

definition createGatewayControlProcessAdmission :: "int option \<Rightarrow> int option \<Rightarrow> int option
    \<Rightarrow> process_error + 'p process_admission" where
  "createGatewayControlProcessAdmission sessions bytes messages =
     (let maxActiveSessions = option_or sessions 32;
          maxNonSafetyBytes = option_or bytes 33554432;
          maxNonSafetyMessages = option_or messages 2048
      in result_bind (requirePositiveLimit ''maxActiveSessions'' maxActiveSessions) (\<lambda>_.
         result_bind (requirePositiveLimit ''maxNonSafetyBytes'' maxNonSafetyBytes) (\<lambda>_.
         result_bind (requirePositiveLimit ''maxNonSafetyMessages'' maxNonSafetyMessages) (\<lambda>_.
         Inr \<lparr>pa_maxActiveSessions = maxActiveSessions, pa_maxNonSafetyBytes = maxNonSafetyBytes,
              pa_maxNonSafetyMessages = maxNonSafetyMessages, pa_schedulersByZone = [],
              pa_queuedCoalescible = [], pa_inFlight = [], pa_zoneOrder = [], pa_zoneCursor = 0,
              pa_nonSafetyBytes = 0, pa_nonSafetyMessages = 0, pa_symbols = 0\<rparr>))))"

section \<open>Zones\<close>

datatype registration = RegistrationAdmitted | CapacityRefused

definition registerZone :: "string \<Rightarrow> 'p process_admission \<Rightarrow> registration \<times> 'p process_admission" where
  "registerZone zone p =
     (if zone = [] then (CapacityRefused, p)
      else if js_has (pa_schedulersByZone p) zone then (RegistrationAdmitted, p)
      else if int (js_size (pa_schedulersByZone p)) \<ge> pa_maxActiveSessions p then (CapacityRefused, p)
      else (RegistrationAdmitted,
        p\<lparr>pa_schedulersByZone := js_set zone empty_scheduler (pa_schedulersByZone p),
          pa_queuedCoalescible := js_set zone [] (pa_queuedCoalescible p),
          pa_zoneOrder := pa_zoneOrder p @ [zone]\<rparr>))"

text \<open>Giving back what a message outside the safety class had reserved in the process.\<close>

definition release_non_safety :: "'p pmessage \<Rightarrow> 'p process_admission \<Rightarrow> 'p process_admission" where
  "release_non_safety m p =
     (if am_class m \<noteq> Safety
      then p\<lparr>pa_nonSafetyBytes := pa_nonSafetyBytes p - am_byteLength m,
             pa_nonSafetyMessages := pa_nonSafetyMessages p - 1\<rparr>
      else p)"

definition put_scheduler :: "string \<Rightarrow> 'p pmessage scheduler \<Rightarrow> 'p process_admission \<Rightarrow> 'p process_admission" where
  "put_scheduler zone s p = p\<lparr>pa_schedulersByZone := js_set zone s (pa_schedulersByZone p)\<rparr>"

text \<open>The first loop of \<open>unregisterZone\<close>: dequeue and complete until nothing is queued.\<close>

partial_function (option) drain_queued :: "string \<Rightarrow> 'p pmessage scheduler \<Rightarrow> 'p process_admission
    \<Rightarrow> ('p, 'p pmessage scheduler \<times> 'p process_admission) process_result option" where
  "drain_queued zone s p =
     (case dequeue None (pa_symbols p) s of
        (None, s1) \<Rightarrow> Some (Inr (s1, p))
      | (Some m, s1) \<Rightarrow>
          (let p1 = release_non_safety m (p\<lparr>pa_symbols := pa_symbols p + 1\<rparr>)
           in case complete (pa_symbols p) s1 of
                Inl (e, s2) \<Rightarrow> Some (Inl (SchedulerError e, put_scheduler zone s2 p1))
              | Inr s2 \<Rightarrow> drain_queued zone s2 p1))"

text \<open>The second: complete what the zone still has in flight.\<close>

fun drain_in_flight :: "string \<Rightarrow> (nat \<times> 'p pmessage) list \<Rightarrow> 'p pmessage scheduler \<Rightarrow> 'p process_admission
    \<Rightarrow> ('p, 'p pmessage scheduler \<times> 'p process_admission) process_result" where
  "drain_in_flight zone [] s p = Inr (s, p)"
| "drain_in_flight zone ((token, m) # entries) s p =
     (if pm_zoneId m \<noteq> zone then drain_in_flight zone entries s p
      else
        (let p1 = p\<lparr>pa_inFlight := js_delete token (pa_inFlight p)\<rparr>
         in case complete token s of
              Inl (e, s1) \<Rightarrow> Inl (SchedulerError e, put_scheduler zone s1 p1)
            | Inr s1 \<Rightarrow> drain_in_flight zone entries s1 (release_non_safety m p1)))"

definition remove_zone :: "string \<Rightarrow> 'p process_admission \<Rightarrow> 'p process_admission" where
  "remove_zone zone p =
     (let p1 = p\<lparr>pa_schedulersByZone := js_delete zone (pa_schedulersByZone p),
                 pa_queuedCoalescible := js_delete zone (pa_queuedCoalescible p)\<rparr>
      in case index_of zone (pa_zoneOrder p) of
           None \<Rightarrow> p1
         | Some i \<Rightarrow>
             let order = splice_one i (pa_zoneOrder p)
             in p1\<lparr>pa_zoneOrder := order, pa_zoneCursor := clamp_cursor (pa_zoneCursor p) order\<rparr>)"

definition unregisterZone :: "string \<Rightarrow> 'p process_admission \<Rightarrow> ('p, 'p process_admission) process_result option" where
  "unregisterZone zone p =
     (case js_get (pa_schedulersByZone p) zone of
        None \<Rightarrow> Some (Inr p)
      | Some s \<Rightarrow>
          (case drain_queued zone s p of
             None \<Rightarrow> None
           | Some (Inl e) \<Rightarrow> Some (Inl e)
           | Some (Inr (s1, p1)) \<Rightarrow>
               (case drain_in_flight zone (pa_inFlight p1) s1 p1 of
                  Inl e \<Rightarrow> Some (Inl e)
                | Inr (s2, p2) \<Rightarrow> Some (Inr (remove_zone zone p2)))))"

section \<open>Enqueue\<close>

definition class_name :: "admission_class \<Rightarrow> string" where
  "class_name c = (case c of Authority \<Rightarrow> ''authority'' | Diagnostic \<Rightarrow> ''diagnostic''
     | Liveness \<Rightarrow> ''liveness'' | Safety \<Rightarrow> ''safety'')"

definition gatewayControlProcessCoalescingKey :: "'p pmessage \<Rightarrow> string option" where
  "gatewayControlProcessCoalescingKey m =
     (if am_class m = Liveness \<or> am_class m = Diagnostic
      then Some (class_name (am_class m) @ [CHR 0x00] @ or_empty (am_coalesceKey m))
      else None)"

definition non_safety :: "scheduler_diagnostics \<Rightarrow> accounting" where
  "non_safety d =
     \<lparr>qa_byteCount = qa_byteCount (sd_authority d) + qa_byteCount (sd_liveness d) + qa_byteCount (sd_diagnostic d),
      qa_messageCount =
        qa_messageCount (sd_authority d) + qa_messageCount (sd_liveness d) + qa_messageCount (sd_diagnostic d)\<rparr>"

definition capacity_refusal :: "admission_class \<Rightarrow> 'm admission_result" where
  "capacity_refusal c =
     (if c = Authority then Refused GlobalCapacity
      else if c = Liveness then Shed GlobalCapacity else Dropped GlobalCapacity)"

definition prior_coalescible :: "'p pmessage \<Rightarrow> 'p process_admission \<Rightarrow> 'p pmessage option" where
  "prior_coalescible m p =
     (case gatewayControlProcessCoalescingKey m of
        None \<Rightarrow> None
      | Some key \<Rightarrow>
          (case js_get (pa_queuedCoalescible p) (pm_zoneId m) of None \<Rightarrow> None | Some q \<Rightarrow> js_get q key))"

definition remember_coalescible :: "'p pmessage \<Rightarrow> 'p process_admission \<Rightarrow> 'p process_admission" where
  "remember_coalescible m p =
     (case (gatewayControlProcessCoalescingKey m, js_get (pa_queuedCoalescible p) (pm_zoneId m)) of
        (Some key, Some q) \<Rightarrow>
          p\<lparr>pa_queuedCoalescible := js_set (pm_zoneId m) (js_set key m q) (pa_queuedCoalescible p)\<rparr>
      | _ \<Rightarrow> p)"

definition process_enqueue :: "'p pmessage \<Rightarrow> 'p process_admission
    \<Rightarrow> 'p pmessage admission_result \<times> 'p process_admission" where
  "process_enqueue m p =
     (case js_get (pa_schedulersByZone p) (pm_zoneId m) of
        None \<Rightarrow> (Refused GlobalCapacity, p)
      | Some s \<Rightarrow>
          (let prior = prior_coalescible m p;
               messageDelta = (if prior = None then 1 else 0);
               byteDelta = am_byteLength m - (case prior of None \<Rightarrow> 0 | Some x \<Rightarrow> am_byteLength x)
           in if am_class m \<noteq> Safety \<and>
                 (pa_nonSafetyMessages p + messageDelta > pa_maxNonSafetyMessages p \<or>
                  pa_nonSafetyBytes p + byteDelta > pa_maxNonSafetyBytes p)
              then (capacity_refusal (am_class m), p)
              else
                (let before = non_safety (diagnostics s);
                     (result, s1) = enqueue m s;
                     p1 = put_scheduler (pm_zoneId m) s1 p
                 in if am_class m \<noteq> Safety \<and> accepted result
                    then
                      (let after = non_safety (diagnostics s1);
                           p2 = p1\<lparr>pa_nonSafetyMessages :=
                                     pa_nonSafetyMessages p + (qa_messageCount after - qa_messageCount before),
                                   pa_nonSafetyBytes :=
                                     pa_nonSafetyBytes p + (qa_byteCount after - qa_byteCount before)\<rparr>
                       in (result, remember_coalescible m p2))
                    else (result, p1))))"

section \<open>Dequeue and complete\<close>

definition forget_coalescible :: "string \<Rightarrow> 'p pmessage \<Rightarrow> 'p process_admission \<Rightarrow> 'p process_admission" where
  "forget_coalescible zone m p =
     (case (gatewayControlProcessCoalescingKey m, js_get (pa_queuedCoalescible p) zone) of
        (Some key, Some q) \<Rightarrow>
          if js_get q key = Some m
          then p\<lparr>pa_queuedCoalescible := js_set zone (js_delete key q) (pa_queuedCoalescible p)\<rparr> else p
      | _ \<Rightarrow> p)"

fun process_dequeue_from :: "nat list \<Rightarrow> 'p process_admission
    \<Rightarrow> ('p, (nat \<times> 'p pmessage) option \<times> 'p process_admission) process_result" where
  "process_dequeue_from [] p = Inr (None, p)"
| "process_dequeue_from (offset # offsets) p =
     (let order = pa_zoneOrder p;
          index = (pa_zoneCursor p + offset) mod length order;
          zone = order ! index
      in case js_get (pa_schedulersByZone p) zone of
           None \<Rightarrow> process_dequeue_from offsets p
         | Some s \<Rightarrow>
             (case dequeue None (pa_symbols p) s of
                (None, s1) \<Rightarrow> process_dequeue_from offsets p
              | (Some m, s1) \<Rightarrow>
                  (let token = pa_symbols p;
                       p1 = put_scheduler zone s1 (p\<lparr>pa_symbols := token + 1\<rparr>)
                   in if pm_zoneId m \<noteq> zone then Inl (LostZoneIdentity, p1)
                      else
                        (let p2 = forget_coalescible zone m p1
                         in Inr (Some (token, m),
                              p2\<lparr>pa_zoneCursor := (index + 1) mod length order,
                                 pa_inFlight := js_set token m (pa_inFlight p2)\<rparr>)))))"

definition process_dequeue :: "'p process_admission
    \<Rightarrow> ('p, (nat \<times> 'p pmessage) option \<times> 'p process_admission) process_result" where
  "process_dequeue p = process_dequeue_from [0..<length (pa_zoneOrder p)] p"

definition process_complete :: "nat \<Rightarrow> 'p process_admission \<Rightarrow> ('p, 'p process_admission) process_result" where
  "process_complete token p =
     (case js_get (pa_inFlight p) token of
        None \<Rightarrow> Inl (ProcessMessageNotInFlight, p)
      | Some m \<Rightarrow>
          (let p1 = p\<lparr>pa_inFlight := js_delete token (pa_inFlight p)\<rparr>
           in case js_get (pa_schedulersByZone p) (pm_zoneId m) of
                None \<Rightarrow> Inl (ZoneNotRegistered, p1)
              | Some s \<Rightarrow>
                  (case complete token s of
                     Inl (e, s1) \<Rightarrow> Inl (SchedulerError e, put_scheduler (pm_zoneId m) s1 p1)
                   | Inr s1 \<Rightarrow> Inr (release_non_safety m (put_scheduler (pm_zoneId m) s1 p1)))))"

record process_diagnostics =
  pd_activeSessions :: nat
  pd_nonSafetyBytes :: int
  pd_nonSafetyMessages :: int

definition process_diagnostics_of :: "'p process_admission \<Rightarrow> process_diagnostics" where
  "process_diagnostics_of p =
     \<lparr>pd_activeSessions = js_size (pa_schedulersByZone p), pd_nonSafetyBytes = pa_nonSafetyBytes p,
      pd_nonSafetyMessages = pa_nonSafetyMessages p\<rparr>"

end
