(* ===== verification/ProcessInvariant.thy ===== *)
theory ProcessInvariant
  imports ProcessAdmission
begin

text \<open>
  The invariant of the process admission: every zone's scheduler keeps its own invariant and
  holds only messages of the zone, the map of queued coalescible messages mirrors the keyed
  queues of the schedulers, the messages in flight are exactly those in flight in some zone, and
  the two counters of the process are the totals of what all zones hold outside the safety class.
  Creation, registration and admission keep it; the loops of \<open>unregisterZone\<close> end.
\<close>

section \<open>What a scheduler holds outside the safety class\<close>

definition non_safety_held :: "('p, 'z) message_scheme scheduler \<Rightarrow> ('p, 'z) message_scheme multiset" where
  "non_safety_held s = held Authority s + held Liveness s + held Diagnostic s"

definition non_safety_message :: "('p, 'z) message_scheme \<Rightarrow> ('p, 'z) message_scheme multiset" where
  "non_safety_message m = (if am_class m = Safety then {#} else {#m#})"

lemma tot_union: "tot (A + B) =
    \<lparr>qa_byteCount = qa_byteCount (tot A) + qa_byteCount (tot B),
     qa_messageCount = qa_messageCount (tot A) + qa_messageCount (tot B)\<rparr>"
  by (simp add: tot_def)

lemma non_safety_diagnostics:
  assumes "sched_inv s"
  shows "non_safety (diagnostics s) = tot (non_safety_held s)"
proof -
  have "sc_authorityAccounting s = tot (held Authority s)" "sc_livenessAccounting s = tot (held Liveness s)"
    "sc_diagnosticAccounting s = tot (held Diagnostic s)"
    using accounts_facts(1) [OF assms, of Authority] accounts_facts(1) [OF assms, of Liveness]
      accounts_facts(1) [OF assms, of Diagnostic] by (simp_all add: accounting_of_def)
  then show ?thesis by (simp add: non_safety_def diagnostics_def non_safety_held_def tot_union)
qed

lemma enqueue_non_safety:
  assumes "enqueue_effect m s r s'"
  shows "non_safety_held s' + (if am_class m = Safety then {#} else mset_option (displaced r)) =
    (if accepted r then non_safety_message m + non_safety_held s else non_safety_held s)"
proof -
  have "held c s' + (if c = am_class m then mset_option (displaced r) else {#}) =
       (if c = am_class m \<and> accepted r then add_mset m (held c s) else held c s)" for c
    using assms by (simp add: enqueue_effect_def)
  from this [of Authority] this [of Liveness] this [of Diagnostic] show ?thesis
    unfolding non_safety_held_def non_safety_message_def
    by (cases "am_class m"; cases "accepted r"; simp add: ac_simps)
qed

lemma complete_non_safety:
  assumes "sched_inv s" and "js_get (sc_inFlight s) t = Some m" and "complete t s = Inr s'"
  shows "sched_inv s' \<and> non_safety_held s = non_safety_message m + non_safety_held s'"
proof -
  from complete_inv [OF assms(1,2)] assms(3) have "sched_inv s'"
    and held: "\<And>c. held c s = (if c = am_class m then add_mset m (held c s') else held c s')"
    by auto
  then show ?thesis
    by (cases "am_class m") (simp_all add: non_safety_held_def non_safety_message_def held [of Authority]
        held [of Liveness] held [of Diagnostic])
qed

lemma dequeue_non_safety:
  assumes "sched_inv s" and "js_get (sc_inFlight s) t = None" and "dequeue None t s = (w, s')"
  shows "non_safety_held s' = non_safety_held s"
  using dequeue_inv [OF assms] by (simp add: non_safety_held_def)

section \<open>Accounts of the process\<close>

definition process_account :: "'p process_admission \<Rightarrow> accounting" where
  "process_account p = \<lparr>qa_byteCount = pa_nonSafetyBytes p, qa_messageCount = pa_nonSafetyMessages p\<rparr>"

definition held_over :: "(string, 'p pmessage scheduler) js_map \<Rightarrow> 'p pmessage multiset" where
  "held_over scheds = (\<Sum>s\<in>#mset (js_values scheds). non_safety_held s)"

lemma held_over_set_old:
  assumes "js_map_ok scheds" and "js_get scheds z = Some s"
  shows "held_over (js_set z s' scheds) + non_safety_held s = held_over scheds + non_safety_held s'"
  using js_mset_set_old [OF assms, of s'] js_mset_delete [OF assms]
  by (simp add: held_over_def)

lemma held_over_delete:
  assumes "js_map_ok scheds" and "js_get scheds z = Some s"
  shows "held_over scheds = non_safety_held s + held_over (js_delete z scheds)"
  using js_mset_delete [OF assms] by (simp add: held_over_def)

lemma held_over_set_new:
  "js_get scheds z = None \<Longrightarrow> held_over (js_set z s scheds) = non_safety_held s + held_over scheds"
  by (simp add: held_over_def js_mset_set_new)

lemma empty_scheduler_non_safety [simp]: "non_safety_held empty_scheduler = {#}"
  by (simp add: non_safety_held_def held_def queued_def in_flight_def empty_scheduler_def
      queued_authority_def js_values_def)

lemma release_non_safety_account:
  "process_account p = tot (non_safety_message m + M) \<Longrightarrow> process_account (release_non_safety m p) = tot M"
  by (auto simp: process_account_def release_non_safety_def non_safety_message_def tot_def simp del: size_mset)

lemma release_non_safety_frame [simp]:
  "pa_maxActiveSessions (release_non_safety m p) = pa_maxActiveSessions p"
  "pa_maxNonSafetyBytes (release_non_safety m p) = pa_maxNonSafetyBytes p"
  "pa_maxNonSafetyMessages (release_non_safety m p) = pa_maxNonSafetyMessages p"
  "pa_schedulersByZone (release_non_safety m p) = pa_schedulersByZone p"
  "pa_queuedCoalescible (release_non_safety m p) = pa_queuedCoalescible p"
  "pa_inFlight (release_non_safety m p) = pa_inFlight p"
  "pa_zoneOrder (release_non_safety m p) = pa_zoneOrder p"
  "pa_zoneCursor (release_non_safety m p) = pa_zoneCursor p"
  "pa_symbols (release_non_safety m p) = pa_symbols p"
  by (simp_all add: release_non_safety_def)

section \<open>Draining a zone\<close>

definition queue_length :: "'m scheduler \<Rightarrow> nat" where
  "queue_length s = length (queued Safety s) + length (queued Authority s) + length (queued Liveness s) +
     length (queued Diagnostic s)"

lemma dequeue_queue_length:
  assumes "sched_inv s" and "js_get (sc_inFlight s) t = None" and "dequeue None t s = (Some m, s1)"
  shows "queue_length s = Suc (queue_length s1)"
proof -
  have "mset (queued c s) = (if c = am_class m then add_mset m (mset (queued c s1)) else mset (queued c s1))" for c
  proof -
    have held: "held c s1 = held c s" and fl: "in_flight s1 = add_mset m (in_flight s)"
      using dequeue_inv [OF assms] by simp_all
    then show ?thesis by (cases "c = am_class m") (simp_all add: held_def)
  qed
  then have "length (queued c s) = (if c = am_class m then Suc (length (queued c s1)) else length (queued c s1))" for c
    by (metis size_add_mset size_mset)
  then show ?thesis unfolding queue_length_def by (cases "am_class m") simp_all
qed

lemma complete_queue_length:
  assumes "sched_inv s" and "complete t s = Inr s1"
  shows "queue_length s1 = queue_length s"
proof -
  have "length (queued c s1) = length (queued c s)" for c
    using complete_queued [OF assms, of c] by (metis size_mset)
  then show ?thesis by (simp add: queue_length_def)
qed

lemma queue_length_zero: "queue_length s = 0 \<Longrightarrow> queued c s = []"
  by (cases c) (simp_all add: queue_length_def)

text \<open>What \<open>unregisterZone\<close> may change before it removes the zone.\<close>

definition same_registry :: "'p process_admission \<Rightarrow> 'p process_admission \<Rightarrow> bool" where
  "same_registry p p' \<longleftrightarrow>
     pa_maxActiveSessions p' = pa_maxActiveSessions p \<and> pa_maxNonSafetyBytes p' = pa_maxNonSafetyBytes p \<and>
     pa_maxNonSafetyMessages p' = pa_maxNonSafetyMessages p \<and>
     pa_schedulersByZone p' = pa_schedulersByZone p \<and> pa_queuedCoalescible p' = pa_queuedCoalescible p \<and>
     pa_zoneOrder p' = pa_zoneOrder p \<and> pa_zoneCursor p' = pa_zoneCursor p \<and> pa_symbols p \<le> pa_symbols p'"

lemma same_registry_trans: "same_registry p q \<Longrightarrow> same_registry q r \<Longrightarrow> same_registry p r"
  by (simp add: same_registry_def)


lemma drain_queued_ends:
  assumes "sched_inv s" and "\<forall>t m. js_get (sc_inFlight s) t = Some m \<longrightarrow> t < pa_symbols p"
    and "process_account p = tot (non_safety_held s + M)"
  shows "\<exists>s1 p1. drain_queued z s p = Some (Inr (s1, p1)) \<and> sched_inv s1 \<and>
    sc_inFlight s1 = sc_inFlight s \<and> queue_length s1 = 0 \<and>
    process_account p1 = tot (non_safety_held s1 + M) \<and> same_registry p p1 \<and> pa_inFlight p1 = pa_inFlight p"
  using assms
proof (induction "queue_length s" arbitrary: s p)
  case 0
  then have "dequeue None (pa_symbols p) s = (None, s)"
    by (intro dequeue_empty) (simp_all add: queue_length_zero)
  with 0 show ?case by (subst drain_queued.simps) (simp add: same_registry_def)
next
  case (Suc n)
  let ?t = "pa_symbols p"
  have fresh: "js_get (sc_inFlight s) ?t = None"
    using Suc.prems(2) by (cases "js_get (sc_inFlight s) ?t") auto
  obtain c where "queued c s \<noteq> []"
    using Suc.hyps(2) by (auto simp: queue_length_def) (metis list.size(3) not_less_zero zero_less_Suc add_0)
  then obtain m s1 where s1: "dequeue None ?t s = (Some m, s1)"
    using dequeue_progress [OF Suc.prems(1)] by blast
  have inv1: "sched_inv s1" using dequeue_inv [OF Suc.prems(1) fresh s1] by simp
  have fl1: "sc_inFlight s1 = js_set ?t m (sc_inFlight s)" using dequeue_inFlight [OF s1 Suc.prems(1)] by simp
  then have get1: "js_get (sc_inFlight s1) ?t = Some m" by (simp add: js_get_set)
  then obtain s2 where s2: "complete ?t s1 = Inr s2" using complete_inv [OF inv1] by blast
  have inv2: "sched_inv s2" and ns2: "non_safety_held s1 = non_safety_message m + non_safety_held s2"
    using complete_non_safety [OF inv1 get1 s2] by simp_all
  have fl2: "sc_inFlight s2 = sc_inFlight s"
    using complete_inFlight [OF s2] fresh by (simp add: fl1 js_delete_set js_delete_absent)
  let ?p = "release_non_safety m (p\<lparr>pa_symbols := ?t + 1\<rparr>)"
  have "process_account (p\<lparr>pa_symbols := ?t + 1\<rparr>) = tot (non_safety_message m + (non_safety_held s2 + M))"
    using Suc.prems(3) dequeue_non_safety [OF Suc.prems(1) fresh s1] ns2
    by (simp add: process_account_def flip: add.assoc)
  then have acc: "process_account ?p = tot (non_safety_held s2 + M)" by (rule release_non_safety_account)
  have len: "n = queue_length s2"
    using Suc.hyps(2) dequeue_queue_length [OF Suc.prems(1) fresh s1] complete_queue_length [OF inv1 s2] by simp
  have tokens: "\<forall>t m. js_get (sc_inFlight s2) t = Some m \<longrightarrow> t < pa_symbols ?p"
    using Suc.prems(2) by (fastforce simp: fl2)
  from Suc.hyps(1) [OF len inv2 tokens acc] obtain s3 p3 where
    rest: "drain_queued z s2 ?p = Some (Inr (s3, p3))" "sched_inv s3" "sc_inFlight s3 = sc_inFlight s2"
      "queue_length s3 = 0" "process_account p3 = tot (non_safety_held s3 + M)" "same_registry ?p p3"
      "pa_inFlight p3 = pa_inFlight ?p"
    by blast
  have "drain_queued z s p = Some (Inr (s3, p3))"
    using rest(1) by (subst drain_queued.simps) (simp add: s1 s2 Let_def)
  moreover have "same_registry p p3"
    using rest(6) by (simp add: same_registry_def)
  ultimately show ?case using rest fl2 by auto
qed

lemma drain_in_flight_ends:
  assumes "sched_inv s" and "distinct (map fst entries)"
    and "\<forall>(t, m) \<in> set entries. pm_zoneId m = z \<longrightarrow> js_get (sc_inFlight s) t = Some m"
    and "process_account p = tot (non_safety_held s + M)"
  shows "\<exists>s1 p1. drain_in_flight z entries s p = Inr (s1, p1) \<and> sched_inv s1 \<and> queue_length s1 = queue_length s \<and>
    (\<forall>t. js_get (sc_inFlight s1) t =
       (if \<exists>m. (t, m) \<in> set entries \<and> pm_zoneId m = z then None else js_get (sc_inFlight s) t)) \<and>
    (\<forall>t. js_get (pa_inFlight p1) t =
       (if \<exists>m. (t, m) \<in> set entries \<and> pm_zoneId m = z then None else js_get (pa_inFlight p) t)) \<and>
    (js_map_ok (pa_inFlight p) \<longrightarrow> js_map_ok (pa_inFlight p1)) \<and>
    process_account p1 = tot (non_safety_held s1 + M) \<and> same_registry p p1"
  using assms
proof (induction entries arbitrary: s p)
  case Nil
  then show ?case by (simp add: same_registry_def)
next
  case (Cons e entries)
  obtain t m where e: "e = (t, m)" by (cases e)
  show ?case
  proof (cases "pm_zoneId m = z")
    case False
    with Cons.IH [OF Cons.prems(1) _ _ Cons.prems(4)] Cons.prems(2,3) e show ?thesis
      by auto
  next
    case True
    with Cons.prems(3) e have get: "js_get (sc_inFlight s) t = Some m" by simp
    then obtain s1 where s1: "complete t s = Inr s1" using complete_inv [OF Cons.prems(1)] by blast
    have inv1: "sched_inv s1" and ns: "non_safety_held s = non_safety_message m + non_safety_held s1"
      using complete_non_safety [OF Cons.prems(1) get s1] by simp_all
    have fl: "sc_inFlight s1 = js_delete t (sc_inFlight s)" using complete_inFlight [OF s1] by simp
    let ?p = "release_non_safety m (p\<lparr>pa_inFlight := js_delete t (pa_inFlight p)\<rparr>)"
    have "process_account (p\<lparr>pa_inFlight := js_delete t (pa_inFlight p)\<rparr>) =
        tot (non_safety_message m + (non_safety_held s1 + M))"
      using Cons.prems(4) ns by (simp add: process_account_def flip: add.assoc)
    then have acc: "process_account ?p = tot (non_safety_held s1 + M)" by (rule release_non_safety_account)
    have new: "\<forall>m'. (t, m') \<notin> set entries" and dist: "distinct (map fst entries)"
      using Cons.prems(2) e by force+
    have entries: "\<forall>(u, n) \<in> set entries. pm_zoneId n = z \<longrightarrow> js_get (sc_inFlight s1) u = Some n"
      using Cons.prems(3) e new by (auto simp: fl js_get_delete)
    obtain s2 p2 where rest: "drain_in_flight z entries s1 ?p = Inr (s2, p2)" "sched_inv s2"
      "queue_length s2 = queue_length s1"
      "\<forall>u. js_get (sc_inFlight s2) u =
         (if \<exists>n. (u, n) \<in> set entries \<and> pm_zoneId n = z then None else js_get (sc_inFlight s1) u)"
      "\<forall>u. js_get (pa_inFlight p2) u =
         (if \<exists>n. (u, n) \<in> set entries \<and> pm_zoneId n = z then None else js_get (pa_inFlight ?p) u)"
      "js_map_ok (pa_inFlight ?p) \<longrightarrow> js_map_ok (pa_inFlight p2)"
      "process_account p2 = tot (non_safety_held s2 + M)" "same_registry ?p p2"
      using Cons.IH [OF inv1 dist entries acc] by blast
    have step: "drain_in_flight z (e # entries) s p = Inr (s2, p2)"
      using rest(1) True s1 by (simp add: e Let_def)
    have "same_registry p p2" using rest(8) by (simp add: same_registry_def)
    moreover have "queue_length s2 = queue_length s"
      using rest(3) complete_queue_length [OF Cons.prems(1) s1] by simp
    moreover have "js_map_ok (pa_inFlight p) \<longrightarrow> js_map_ok (pa_inFlight p2)" using rest(6) by simp
    moreover have "js_get (sc_inFlight s2) u =
        (if \<exists>n. (u, n) \<in> set (e # entries) \<and> pm_zoneId n = z then None else js_get (sc_inFlight s) u)" for u
      using rest(4) True e by (auto simp: fl js_get_delete)
    moreover have "js_get (pa_inFlight p2) u =
        (if \<exists>n. (u, n) \<in> set (e # entries) \<and> pm_zoneId n = z then None else js_get (pa_inFlight p) u)" for u
      using rest(5) True e by (auto simp: js_get_delete)
    ultimately show ?thesis using step rest(2,7) by blast
  qed
qed

section \<open>The keyed queues\<close>

definition keyed :: "admission_class \<Rightarrow> 'm scheduler \<Rightarrow> (string, 'm) js_map" where
  "keyed c s = (if c = Liveness then sc_livenessByKey s else sc_diagnosticByKey s)"

definition coalescing_class :: "admission_class \<Rightarrow> bool" where
  "coalescing_class c \<longleftrightarrow> c = Liveness \<or> c = Diagnostic"

lemma enqueue_keyed:
  assumes "enqueue m s = (r, s')" and "coalescing_class c"
  shows "keyed c s' = (if c = am_class m \<and> accepted r
      then js_set (or_empty (am_coalesceKey m)) m (keyed c s) else keyed c s) \<and>
    (c = am_class m \<and> accepted r \<longrightarrow> displaced r = js_get (keyed c s) (or_empty (am_coalesceKey m)))"
proof (cases "validateMessage m :: ('a, 'b) message_scheme admission_result option")
  case (Some e)
  with assms validateMessage_fence [OF Some] show ?thesis
    by (auto simp: enqueue_def keyed_def)
next
  case None
  show ?thesis
  proof (cases "am_class m")
    case Safety
    with None assms show ?thesis
      by (auto simp: enqueue_def enqueue_safety_def keyed_def coalescing_class_def split: if_splits)
  next
    case Authority
    with None assms show ?thesis
      by (auto simp: enqueue_def enqueue_authority_def keyed_def coalescing_class_def Let_def split: if_splits)
  qed (use None assms in \<open>auto simp: enqueue_def enqueue_coalesced_def keyed_def coalescing_class_def
        coalesce_def Let_def split: option.splits if_splits\<close>)
qed

lemma dequeueFirst_head:
  "dequeueFirstCoalescedMessage messages = Some (m, rest) \<Longrightarrow>
     \<exists>k. js_get messages k = Some m \<and> rest = js_delete k messages"
  by (auto simp: dequeueFirstCoalescedMessage_def split: list.splits prod.splits)

lemma dequeue_authority_keyed:
  "dequeue_authority_from offsets s = Some (m, s') \<Longrightarrow>
     sc_livenessByKey s' = sc_livenessByKey s \<and> sc_diagnosticByKey s' = sc_diagnosticByKey s"
  by (induction offsets) (auto simp: Let_def split: option.splits list.splits)

lemma dequeueClass_keyed:
  assumes inv: "sched_inv s" and step: "dequeueClass d s = Some (m, s')" and "coalescing_class c"
  shows "if c = am_class m
    then js_get (keyed c s) (or_empty (am_coalesceKey m)) = Some m \<and>
      keyed c s' = js_delete (or_empty (am_coalesceKey m)) (keyed c s)
    else keyed c s' = keyed c s"
proof -
  have cls: "am_class m = d" using dequeueClass_moved [OF inv step] by simp
  have ok: "messages_ok s" using inv by (simp add: sched_inv_def)
  show ?thesis
  proof (cases d)
    case Authority
    with step cls assms(3) show ?thesis
      by (auto simp: dequeueClass_def dequeueAuthority_def keyed_def coalescing_class_def
          dest: dequeue_authority_keyed)
  next
    case Safety
    with step cls assms(3) show ?thesis
      by (auto simp: dequeueClass_def keyed_def coalescing_class_def split: list.splits)
  next
    case Liveness
    with step obtain k where "js_get (sc_livenessByKey s) k = Some m"
      "s' = s\<lparr>sc_livenessByKey := js_delete k (sc_livenessByKey s)\<rparr>"
      by (auto simp: dequeueClass_def dest!: dequeueFirst_head)
    moreover from this ok have "or_empty (am_coalesceKey m) = k" by (simp add: messages_ok_def)
    ultimately show ?thesis using cls Liveness assms(3) by (auto simp: keyed_def coalescing_class_def)
  next
    case Diagnostic
    with step obtain k where "js_get (sc_diagnosticByKey s) k = Some m"
      "s' = s\<lparr>sc_diagnosticByKey := js_delete k (sc_diagnosticByKey s)\<rparr>"
      by (auto simp: dequeueClass_def dest!: dequeueFirst_head)
    moreover from this ok have "or_empty (am_coalesceKey m) = k" by (simp add: messages_ok_def)
    ultimately show ?thesis using cls Diagnostic assms(3) by (auto simp: keyed_def coalescing_class_def)
  qed
qed

lemma dequeue_keyed:
  assumes inv: "sched_inv s" and step: "dequeue allowed t s = (Some m, s')" and "coalescing_class c"
  shows "if c = am_class m
    then js_get (keyed c s) (or_empty (am_coalesceKey m)) = Some m \<and>
      keyed c s' = js_delete (or_empty (am_coalesceKey m)) (keyed c s)
    else keyed c s' = keyed c s"
  using step unfolding dequeue_def
proof (cases rule: dequeue_from_cases)
  case (2 m' s1 i)
  then have m: "m' = m" by simp
  have "keyed c s' = keyed c s1" by (simp add: 2(4) keyed_def)
  then show ?thesis using dequeueClass_keyed [OF inv 2(2) assms(3)] unfolding m by (cases "c = am_class m") simp_all
qed simp

lemma complete_keyed: "complete t s = Inr s' \<Longrightarrow> keyed c s' = keyed c s"
  by (auto simp: complete_def complete_authority_def Let_def keyed_def
      split: option.splits admission_class.splits if_splits)

definition coalescing_name :: "admission_class \<Rightarrow> string \<Rightarrow> string" where
  "coalescing_name c k = class_name c @ [CHR 0x00] @ k"

lemma coalescing_name_eq:
  "coalescing_class c \<Longrightarrow> coalescing_class d \<Longrightarrow> coalescing_name c k = coalescing_name d l \<longleftrightarrow> c = d \<and> k = l"
  by (auto simp: coalescing_class_def coalescing_name_def class_name_def)

lemma process_key:
  "gatewayControlProcessCoalescingKey m =
     (if coalescing_class (am_class m) then Some (coalescing_name (am_class m) (or_empty (am_coalesceKey m))) else None)"
  by (simp add: gatewayControlProcessCoalescingKey_def coalescing_class_def coalescing_name_def)

text \<open>The process keeps, per zone, what the zone's keyed queues hold.\<close>

definition mirrored :: "(string, 'm) js_map \<Rightarrow> 'm scheduler \<Rightarrow> bool" where
  "mirrored q s \<longleftrightarrow> (\<forall>c k. coalescing_class c \<longrightarrow> js_get q (coalescing_name c k) = js_get (keyed c s) k)"

lemma mirrored_set:
  assumes "mirrored q s" and "coalescing_class d"
    and "\<And>c. coalescing_class c \<Longrightarrow> keyed c s' = (if c = d then js_set k m (keyed c s) else keyed c s)"
  shows "mirrored (js_set (coalescing_name d k) m q) s'"
  using assms by (simp add: mirrored_def js_get_set coalescing_name_eq)

lemma mirrored_delete:
  assumes "mirrored q s" and "coalescing_class d"
    and "\<And>c. coalescing_class c \<Longrightarrow> keyed c s' = (if c = d then js_delete k (keyed c s) else keyed c s)"
  shows "mirrored (js_delete (coalescing_name d k) q) s'"
  using assms by (simp add: mirrored_def js_get_delete coalescing_name_eq)

lemma mirrored_same:
  assumes "mirrored q s" and "\<And>c. coalescing_class c \<Longrightarrow> keyed c s' = keyed c s"
  shows "mirrored q s'"
  using assms by (simp add: mirrored_def)

section \<open>The invariant of the process\<close>

definition zone_holds :: "(nat, 'p pmessage) js_map \<Rightarrow> string \<Rightarrow> 'p pmessage scheduler \<Rightarrow> bool" where
  "zone_holds flight z s \<longleftrightarrow> sched_inv s \<and> (\<forall>m\<in>#held_all s. pm_zoneId m = z) \<and>
     (\<forall>t m. js_get (sc_inFlight s) t = Some m \<longleftrightarrow> js_get flight t = Some m \<and> pm_zoneId m = z)"

definition process_limit :: "'p process_admission \<Rightarrow> admission_limit" where
  "process_limit p = \<lparr>al_maxBytes = pa_maxNonSafetyBytes p, al_maxMessages = pa_maxNonSafetyMessages p\<rparr>"

definition proc_inv :: "'p process_admission \<Rightarrow> bool" where
  "proc_inv p \<longleftrightarrow>
     js_map_ok (pa_schedulersByZone p) \<and> js_map_ok (pa_inFlight p) \<and>
     pa_zoneOrder p = js_keys (pa_schedulersByZone p) \<and>
     (\<forall>z s. js_get (pa_schedulersByZone p) z = Some s \<longrightarrow> zone_holds (pa_inFlight p) z s \<and>
        (\<exists>q. js_get (pa_queuedCoalescible p) z = Some q \<and> mirrored q s)) \<and>
     (\<forall>t m. js_get (pa_inFlight p) t = Some m \<longrightarrow>
        t < pa_symbols p \<and> js_has (pa_schedulersByZone p) (pm_zoneId m)) \<and>
     process_account p = tot (held_over (pa_schedulersByZone p)) \<and>
     within (process_limit p) (process_account p) \<and>
     int (js_size (pa_schedulersByZone p)) \<le> pa_maxActiveSessions p"

lemma proc_invD:
  assumes "proc_inv p"
  shows "js_map_ok (pa_schedulersByZone p)" "js_map_ok (pa_inFlight p)"
    "pa_zoneOrder p = js_keys (pa_schedulersByZone p)"
    "js_get (pa_schedulersByZone p) z = Some s \<Longrightarrow> zone_holds (pa_inFlight p) z s"
    "js_get (pa_schedulersByZone p) z = Some s \<Longrightarrow> \<exists>q. js_get (pa_queuedCoalescible p) z = Some q \<and> mirrored q s"
    "js_get (pa_inFlight p) t = Some m \<Longrightarrow> t < pa_symbols p \<and> js_has (pa_schedulersByZone p) (pm_zoneId m)"
    "process_account p = tot (held_over (pa_schedulersByZone p))"
    "within (process_limit p) (process_account p)"
    "int (js_size (pa_schedulersByZone p)) \<le> pa_maxActiveSessions p"
  using assms unfolding proc_inv_def by metis+

lemma zone_holdsD:
  assumes "zone_holds flight z s"
  shows "sched_inv s" "m \<in># held_all s \<Longrightarrow> pm_zoneId m = z"
    "js_get (sc_inFlight s) t = Some m \<longleftrightarrow> js_get flight t = Some m \<and> pm_zoneId m = z"
  using assms unfolding zone_holds_def by metis+

text \<open>Replacing the scheduler of one zone.\<close>

lemma proc_inv_put:
  assumes inv: "proc_inv p" and get: "js_get (pa_schedulersByZone p) z = Some s"
    and fields: "pa_schedulersByZone p' = js_set z s' (pa_schedulersByZone p)"
      "pa_zoneOrder p' = pa_zoneOrder p" "process_limit p' = process_limit p"
      "pa_maxActiveSessions p' = pa_maxActiveSessions p" "pa_symbols p \<le> pa_symbols p'"
    and coal: "\<And>z'. js_get (pa_queuedCoalescible p') z' = (if z' = z then Some q else js_get (pa_queuedCoalescible p) z')"
    and mirror: "mirrored q s'" and zone: "zone_holds (pa_inFlight p') z s'"
    and flight: "js_map_ok (pa_inFlight p')"
      "\<And>t m. js_get (pa_inFlight p') t = Some m \<Longrightarrow> pm_zoneId m = z \<Longrightarrow> t < pa_symbols p'"
      "\<And>t m. pm_zoneId m \<noteq> z \<Longrightarrow> js_get (pa_inFlight p') t = Some m \<longleftrightarrow> js_get (pa_inFlight p) t = Some m"
    and account: "process_account p' = tot (held_over (pa_schedulersByZone p'))"
      "within (process_limit p) (process_account p')"
  shows "proc_inv p'"
proof -
  note old = proc_invD [OF inv]
  have has: "js_has (pa_schedulersByZone p) z" using get by (simp add: js_has_def)
  have keys: "js_keys (pa_schedulersByZone p') = js_keys (pa_schedulersByZone p)"
    using has by (simp add: fields(1) js_keys_set)
  have zones: "zone_holds (pa_inFlight p') z1 s1 \<and>
      (\<exists>q. js_get (pa_queuedCoalescible p') z1 = Some q \<and> mirrored q s1)"
    if s1: "js_get (pa_schedulersByZone p') z1 = Some s1" for z1 s1
  proof (cases "z1 = z")
    case True
    with s1 have "s1 = s'" by (simp add: fields(1) js_get_set)
    with True zone mirror coal show ?thesis by simp
  next
    case False
    with s1 have s1: "js_get (pa_schedulersByZone p) z1 = Some s1" by (simp add: fields(1) js_get_set)
    from old(4) [OF s1] False flight(3) have "zone_holds (pa_inFlight p') z1 s1"
      unfolding zone_holds_def by metis
    with old(5) [OF s1] False coal show ?thesis by simp
  qed
  have tokens: "t < pa_symbols p' \<and> js_has (pa_schedulersByZone p') (pm_zoneId m)"
    if m: "js_get (pa_inFlight p') t = Some m" for t m
  proof (cases "pm_zoneId m = z")
    case True
    with flight(2) [OF m] show ?thesis by (simp add: fields(1) js_has_def js_get_set)
  next
    case False
    with m flight(3) have "js_get (pa_inFlight p) t = Some m" by blast
    with old(6) fields(5) False show ?thesis by (fastforce simp: fields(1) js_has_def js_get_set)
  qed
  have size: "js_size (pa_schedulersByZone p') = js_size (pa_schedulersByZone p)"
    using has by (simp add: fields(1) js_size_set)
  show ?thesis
    unfolding proc_inv_def
    using zones tokens account old(9) flight(1) keys
    by (simp add: fields(2-4) size [unfolded fields(1)] old(3) fields(1) old(1))
qed

section \<open>Every operation keeps the invariant\<close>

lemma held_in_flight: "sched_inv s \<Longrightarrow> js_get (sc_inFlight s) t = Some m \<Longrightarrow> m \<in># held_all s"
proof -
  assume inv: "sched_inv s" and get: "js_get (sc_inFlight s) t = Some m"
  have "m \<in># in_flight s" using get by (simp add: in_flight_def js_get_value)
  then have "m \<in># held (am_class m) s" by (simp add: held_def)
  then show "m \<in># held_all s" by (cases "am_class m") (simp_all add: held_all_def)
qed

text \<open>Creation and registration.\<close>

lemma create_inv:
  assumes "createGatewayControlProcessAdmission a b c = Inr p"
  shows "proc_inv p"
  using assms
  by (auto simp: createGatewayControlProcessAdmission_def Let_def result_simps requirePositiveLimit_def
      proc_inv_def process_account_def held_over_def js_values_def js_keys_def within_def process_limit_def
      tot_def split: if_splits)

lemma register_inv:
  assumes inv: "proc_inv p" and step: "registerZone z p = (r, p')"
  shows "proc_inv p'"
proof (cases "z = [] \<or> js_has (pa_schedulersByZone p) z \<or>
    int (js_size (pa_schedulersByZone p)) \<ge> pa_maxActiveSessions p")
  case True
  with step inv show ?thesis by (auto simp: registerZone_def split: if_splits)
next
  case False
  note old = proc_invD [OF inv]
  have p': "p' = p\<lparr>pa_schedulersByZone := js_set z empty_scheduler (pa_schedulersByZone p),
      pa_queuedCoalescible := js_set z [] (pa_queuedCoalescible p), pa_zoneOrder := pa_zoneOrder p @ [z]\<rparr>"
    using False step by (simp add: registerZone_def)
  have new: "js_get (pa_schedulersByZone p) z = None" using False by (simp add: js_has_def)
  have none: "js_get (pa_inFlight p) t = Some m \<Longrightarrow> pm_zoneId m \<noteq> z" for t m
    using old(6) [of t m] new by (auto simp: js_has_def)
  have empty: "zone_holds (pa_inFlight p) z empty_scheduler"
    using empty_scheduler_inv none
    by (auto simp: zone_holds_def held_all_def held_def queued_def in_flight_def empty_scheduler_def
        queued_authority_def js_values_def)
  have "mirrored [] empty_scheduler"
    by (simp add: mirrored_def keyed_def empty_scheduler_def)
  then have zones: "zone_holds (pa_inFlight p) z1 s1 \<and>
      (\<exists>q. js_get (pa_queuedCoalescible p') z1 = Some q \<and> mirrored q s1)"
    if "js_get (pa_schedulersByZone p') z1 = Some s1" for z1 s1
    using that empty old(4,5) [of z1 s1] by (cases "z1 = z") (simp_all add: p' js_get_set)
  have tokens: "t < pa_symbols p \<and> js_has (pa_schedulersByZone p') (pm_zoneId m)"
    if "js_get (pa_inFlight p) t = Some m" for t m
    using old(6) [OF that] by (auto simp: p' js_has_def js_get_set)
  have acc: "process_account p' = process_account p" "process_limit p' = process_limit p"
    "pa_inFlight p' = pa_inFlight p" "pa_symbols p' = pa_symbols p" "pa_maxActiveSessions p' = pa_maxActiveSessions p"
    by (simp_all add: p' process_account_def process_limit_def)
  have scheds: "js_map_ok (pa_schedulersByZone p')" "pa_zoneOrder p' = js_keys (pa_schedulersByZone p')"
    "held_over (pa_schedulersByZone p') = held_over (pa_schedulersByZone p)"
    "int (js_size (pa_schedulersByZone p')) \<le> pa_maxActiveSessions p"
    using old(1,3) False new by (simp_all add: p' js_keys_set held_over_set_new js_size_set)
  show ?thesis
    unfolding proc_inv_def acc scheds(3)
    using scheds zones tokens old(2,7,8) by blast
qed

text \<open>Admission.\<close>

lemma process_enqueue_inv:
  assumes inv: "proc_inv p" and step: "process_enqueue m p = (r, p')"
  shows "proc_inv p'"
proof (cases "js_get (pa_schedulersByZone p) (pm_zoneId m)")
  case None
  with inv step show ?thesis by (simp add: process_enqueue_def)
next
  case (Some s)
  let ?z = "pm_zoneId m"
  note old = proc_invD [OF inv] and zh = zone_holdsD [OF proc_invD(4) [OF inv Some]]
  obtain q where q: "js_get (pa_queuedCoalescible p) ?z = Some q" and mir: "mirrored q s"
    using old(5) [OF Some] by blast
  obtain r1 s1 where e: "enqueue m s = (r1, s1)" by fastforce
  have eff: "enqueue_effect m s r1 s1" by (rule enqueue_inv [OF zh(1) e])
  then have inv1: "sched_inv s1" and fl1: "sc_inFlight s1 = sc_inFlight s" by (simp_all add: enqueue_effect_def)
  have prior: "prior_coalescible m p = (if coalescing_class (am_class m)
      then js_get (keyed (am_class m) s) (or_empty (am_coalesceKey m)) else None)"
    using q mir by (simp add: prior_coalescible_def process_key mirrored_def)
  have disp: "accepted r1 \<Longrightarrow> am_class m \<noteq> Safety \<Longrightarrow> displaced r1 = prior_coalescible m p"
    using enqueue_keyed [OF e, of "am_class m"] e
    by (cases "am_class m")
      (auto simp: prior coalescing_class_def enqueue_def enqueue_authority_def Let_def split: option.splits if_splits
        dest!: validateMessage_fence)
  have ns: "non_safety_held s1 + (if am_class m = Safety then {#} else mset_option (displaced r1)) =
      (if accepted r1 then non_safety_message m + non_safety_held s else non_safety_held s)"
    by (rule enqueue_non_safety [OF eff])
  have over: "held_over (js_set ?z s1 (pa_schedulersByZone p)) + non_safety_held s =
      held_over (pa_schedulersByZone p) + non_safety_held s1"
    by (rule held_over_set_old [OF old(1) Some])
  have zone: "zone_holds (pa_inFlight p) ?z s1"
  proof -
    have "pm_zoneId x = ?z" if "x \<in># held_all s1" for x
    proof -
      have "x \<in># add_mset m (held_all s)"
        using that enqueue_effect_all [OF eff] by (metis mset_sum_in union_iff insert_iff set_mset_add_mset_insert)
      then show ?thesis using zh(2) by auto
    qed
    with inv1 zh(3) show ?thesis by (simp add: zone_holds_def fl1)
  qed
  show ?thesis
  proof (cases "am_class m \<noteq> Safety \<and> accepted r1 \<and> r = r1")
    case False
    show ?thesis
    proof (cases "p' = p")
      case True
      with inv show ?thesis by simp
    next
      case changed: False
      with step Some e False have p': "p' = put_scheduler ?z s1 p" "am_class m = Safety \<or> \<not> accepted r1"
        by (auto simp: process_enqueue_def Let_def split: if_splits)
      have same: "non_safety_held s1 = non_safety_held s"
      proof (cases "am_class m = Safety")
        case True
        with ns show ?thesis by (simp add: non_safety_message_def split: if_splits)
      next
        case False
        with p' have "\<not> accepted r1" by simp
        moreover from this have "displaced r1 = None" by (cases r1) (simp_all add: accepted_def displaced_def)
        ultimately show ?thesis using ns by (simp split: if_splits)
      qed
      have mir1: "mirrored q s1"
        by (rule mirrored_same [OF mir]) (use enqueue_keyed [OF e] p'(2) in \<open>auto simp: coalescing_class_def\<close>)
      show ?thesis
        by (rule proc_inv_put [OF inv Some, where q = q and s' = s1])
          (use old zone mir1 q over same in \<open>auto simp: p'(1) put_scheduler_def process_limit_def process_account_def\<close>)
    qed
  next
    case True
    then have acc: "accepted r1" and cls: "am_class m \<noteq> Safety" by simp_all
    let ?prior = "prior_coalescible m p"
    let ?db = "am_byteLength m - (case ?prior of None \<Rightarrow> 0 | Some x \<Rightarrow> am_byteLength x)"
    let ?dm = "if ?prior = None then 1 else 0 :: int"
    define p2 where "p2 = (put_scheduler ?z s1 p)\<lparr>pa_nonSafetyMessages := pa_nonSafetyMessages p +
          (qa_messageCount (non_safety (diagnostics s1)) - qa_messageCount (non_safety (diagnostics s))),
        pa_nonSafetyBytes := pa_nonSafetyBytes p +
          (qa_byteCount (non_safety (diagnostics s1)) - qa_byteCount (non_safety (diagnostics s)))\<rparr>"
    have p': "p' = remember_coalescible m p2"
      and room: "pa_nonSafetyMessages p + ?dm \<le> pa_maxNonSafetyMessages p"
        "pa_nonSafetyBytes p + ?db \<le> pa_maxNonSafetyBytes p"
      using step Some e True
      by (auto simp: process_enqueue_def Let_def p2_def capacity_refusal_def split: if_splits)
    have held: "non_safety_held s1 + mset_option ?prior = add_mset m (non_safety_held s)"
      using ns cls acc disp [OF acc cls] by (simp add: non_safety_message_def)
    have "tot (non_safety_held s1 + mset_option ?prior) = tot (add_mset m (non_safety_held s))"
      by (simp only: held)
    then have deltas: "qa_byteCount (tot (non_safety_held s1)) = qa_byteCount (tot (non_safety_held s)) + ?db"
      "qa_messageCount (tot (non_safety_held s1)) = qa_messageCount (tot (non_safety_held s)) + ?dm"
      by (cases ?prior; simp add: tot_def)+
    have counters: "pa_nonSafetyBytes p2 = pa_nonSafetyBytes p + ?db"
      "pa_nonSafetyMessages p2 = pa_nonSafetyMessages p + ?dm"
      by (simp_all add: p2_def non_safety_diagnostics [OF inv1] non_safety_diagnostics [OF zh(1)] deltas)
    have "tot (held_over (js_set ?z s1 (pa_schedulersByZone p)) + non_safety_held s) =
        tot (held_over (pa_schedulersByZone p) + non_safety_held s1)"
      by (simp only: over)
    then have sums: "qa_byteCount (tot (held_over (js_set ?z s1 (pa_schedulersByZone p)))) =
        qa_byteCount (tot (held_over (pa_schedulersByZone p))) + ?db"
      "qa_messageCount (tot (held_over (js_set ?z s1 (pa_schedulersByZone p)))) =
        qa_messageCount (tot (held_over (pa_schedulersByZone p))) + ?dm"
      using deltas by (simp_all add: tot_union)
    have account: "process_account p2 = tot (held_over (js_set ?z s1 (pa_schedulersByZone p)))"
      using old(7) sums by (simp add: process_account_def counters flip: old(7))
    have limit: "within (process_limit p) (process_account p2)"
      using room by (simp add: within_def process_limit_def process_account_def counters)
    have frame: "pa_schedulersByZone p2 = js_set ?z s1 (pa_schedulersByZone p)" "pa_zoneOrder p2 = pa_zoneOrder p"
      "process_limit p2 = process_limit p" "pa_maxActiveSessions p2 = pa_maxActiveSessions p"
      "pa_symbols p2 = pa_symbols p" "pa_queuedCoalescible p2 = pa_queuedCoalescible p"
      "pa_inFlight p2 = pa_inFlight p"
      by (simp_all add: p2_def put_scheduler_def process_limit_def)
    define q' where "q' = (if coalescing_class (am_class m)
      then js_set (coalescing_name (am_class m) (or_empty (am_coalesceKey m))) m q else q)"
    have mir1: "mirrored q' s1"
    proof (cases "coalescing_class (am_class m)")
      case True
      then show ?thesis
        unfolding q'_def using enqueue_keyed [OF e] acc by (auto intro!: mirrored_set [OF mir])
    next
      case False
      then show ?thesis
        unfolding q'_def using enqueue_keyed [OF e] by (auto intro!: mirrored_same [OF mir])
    qed
    have remembered: "js_get (pa_queuedCoalescible p') z' = (if z' = ?z then Some q' else js_get (pa_queuedCoalescible p) z')"
      "pa_schedulersByZone p' = pa_schedulersByZone p2" "pa_zoneOrder p' = pa_zoneOrder p2"
      "process_limit p' = process_limit p2" "pa_maxActiveSessions p' = pa_maxActiveSessions p2"
      "pa_symbols p' = pa_symbols p2" "pa_inFlight p' = pa_inFlight p2" "process_account p' = process_account p2" for z'
      using q by (auto simp: p' remember_coalescible_def process_key frame(6) q'_def js_get_set
          process_limit_def process_account_def)
    show ?thesis
      by (rule proc_inv_put [OF inv Some, where q = q' and s' = s1])
        (use zone mir1 account limit old(2) in \<open>auto simp: remembered frame dest: old(6)\<close>)
  qed
qed

end
