(* ===== verification/ProcessRuns.thy ===== *)
theory ProcessRuns
  imports ProcessInvariant
begin

text \<open>
  The operations that take messages out of the process (dequeue, complete, unregister), the
  process under any sequence of calls, what admission answers in terms of the multisets held, and
  the round robin over the zones.
\<close>

section \<open>Operations that take messages out\<close>

text \<open>Dequeue: a message moves into flight, in its zone and in the process.\<close>

lemma proc_fresh: "proc_inv p \<Longrightarrow> js_get (pa_inFlight p) (pa_symbols p) = None"
  using proc_invD(6) [of p "pa_symbols p"] by (cases "js_get (pa_inFlight p) (pa_symbols p)") auto

lemma zone_fresh:
  assumes "proc_inv p" and "js_get (pa_schedulersByZone p) z = Some s"
  shows "js_get (sc_inFlight s) (pa_symbols p) = None"
  using zone_holdsD(3) [OF proc_invD(4) [OF assms]] proc_fresh [OF assms(1)]
  by (cases "js_get (sc_inFlight s) (pa_symbols p)") auto

lemma process_dequeue_from_inv:
  assumes inv: "proc_inv p"
  shows "\<exists>w p'. process_dequeue_from offsets p = Inr (w, p') \<and> proc_inv p'"
proof (induction offsets)
  case Nil
  with inv show ?case by simp
next
  case (Cons offset offsets)
  let ?index = "(pa_zoneCursor p + offset) mod length (pa_zoneOrder p)"
  let ?z = "pa_zoneOrder p ! ?index"
  show ?case
  proof (cases "js_get (pa_schedulersByZone p) ?z")
    case None
    with Cons show ?thesis by (simp add: Let_def)
  next
    case (Some s)
    obtain w s1 where d: "dequeue None (pa_symbols p) s = (w, s1)" by fastforce
    note old = proc_invD [OF inv] and zh = zone_holdsD [OF proc_invD(4) [OF inv Some]]
    note fresh = zone_fresh [OF inv Some]
    show ?thesis
    proof (cases w)
      case None
      with Cons Some d show ?thesis by (simp add: Let_def)
    next
      case w: (Some m)
      let ?t = "pa_symbols p"
      have d1: "dequeue None ?t s = (Some m, s1)" using d w by simp
      have inv1: "sched_inv s1" and held: "\<And>c. held c s1 = held c s"
        using dequeue_inv [OF zh(1) fresh d1] by simp_all
      have fl1: "sc_inFlight s1 = js_set ?t m (sc_inFlight s)" using dequeue_inFlight [OF d1 zh(1)] by simp
      have "m \<in># held_all s1" by (rule held_in_flight [OF inv1, of ?t]) (simp add: fl1 js_get_set)
      then have zm: "pm_zoneId m = ?z" using zh(2) by (simp add: held_all_def held)
      obtain q where q: "js_get (pa_queuedCoalescible p) ?z = Some q" and mir: "mirrored q s"
        using old(5) [OF Some] by blast
      define q' where "q' = (if coalescing_class (am_class m)
        then js_delete (coalescing_name (am_class m) (or_empty (am_coalesceKey m))) q else q)"
      have keyed: "keyed c s1 = (if c = am_class m then js_delete (or_empty (am_coalesceKey m)) (keyed c s) else keyed c s)"
        if "coalescing_class c" for c
        using dequeue_keyed [OF zh(1) d1 that] by (cases "c = am_class m") simp_all
      have mir1: "mirrored q' s1"
      proof (cases "coalescing_class (am_class m)")
        case True
        then show ?thesis unfolding q'_def by (auto intro!: mirrored_delete [OF mir] simp: keyed)
      next
        case False
        then show ?thesis unfolding q'_def by (auto intro!: mirrored_same [OF mir] simp: keyed)
      qed
      define p1 where "p1 = put_scheduler ?z s1 (p\<lparr>pa_symbols := ?t + 1\<rparr>)"
      define p3 where "p3 = (forget_coalescible ?z m p1)\<lparr>pa_zoneCursor := (?index + 1) mod length (pa_zoneOrder p),
        pa_inFlight := js_set ?t m (pa_inFlight (forget_coalescible ?z m p1))\<rparr>"
      have head: "coalescing_class (am_class m) \<Longrightarrow>
          js_get q (coalescing_name (am_class m) (or_empty (am_coalesceKey m))) = Some m"
        using dequeue_keyed [OF zh(1) d1, of "am_class m"] mir by (simp add: mirrored_def)
      have forget: "js_get (pa_queuedCoalescible (forget_coalescible ?z m p1)) z' =
          (if z' = ?z then Some q' else js_get (pa_queuedCoalescible p) z')"
        "pa_schedulersByZone (forget_coalescible ?z m p1) = js_set ?z s1 (pa_schedulersByZone p)"
        "pa_zoneOrder (forget_coalescible ?z m p1) = pa_zoneOrder p"
        "process_limit (forget_coalescible ?z m p1) = process_limit p"
        "pa_maxActiveSessions (forget_coalescible ?z m p1) = pa_maxActiveSessions p"
        "pa_symbols (forget_coalescible ?z m p1) = ?t + 1"
        "pa_inFlight (forget_coalescible ?z m p1) = pa_inFlight p"
        "process_account (forget_coalescible ?z m p1) = process_account p" for z'
        using q head by (auto simp: forget_coalescible_def p1_def put_scheduler_def process_key q'_def
            process_limit_def process_account_def js_get_set)
      have fields: "js_get (pa_queuedCoalescible p3) z' = (if z' = ?z then Some q' else js_get (pa_queuedCoalescible p) z')"
        "pa_schedulersByZone p3 = js_set ?z s1 (pa_schedulersByZone p)" "pa_zoneOrder p3 = pa_zoneOrder p"
        "process_limit p3 = process_limit p" "pa_maxActiveSessions p3 = pa_maxActiveSessions p"
        "pa_symbols p3 = ?t + 1" "pa_inFlight p3 = js_set ?t m (pa_inFlight p)"
        "process_account p3 = process_account p" for z'
        using forget by (simp_all add: p3_def process_limit_def process_account_def)
      have zone: "zone_holds (pa_inFlight p3) ?z s1"
        unfolding zone_holds_def fields(7) fl1
        using inv1 zh(2,3) zm by (auto simp: held_all_def held js_get_set)
      have "held_over (js_set ?z s1 (pa_schedulersByZone p)) = held_over (pa_schedulersByZone p)"
        using held_over_set_old [OF old(1) Some, of s1] dequeue_non_safety [OF zh(1) fresh d1] by simp
      have tokens: "t' < Suc ?t" if "(if t' = ?t then Some m else js_get (pa_inFlight p) t') = Some m'" for t' m'
        using that old(6) [of t' m'] by (cases "t' = ?t") auto
      from \<open>held_over _ = _\<close> have "proc_inv p3"
        by (intro proc_inv_put [OF inv Some, where q = q' and s' = s1])
          (use zone mir1 old(2,7,8) zm proc_fresh [OF inv] in \<open>auto simp: fields js_get_set intro: tokens\<close>)
      moreover have "process_dequeue_from (offset # offsets) p = Inr (Some (?t, m), p3)"
        using Some d1 zm by (simp add: Let_def p3_def p1_def)
      ultimately show ?thesis by blast
    qed
  qed
qed

text \<open>Completion: the message leaves its zone and its reservation is given back.\<close>

lemma process_complete_inv:
  assumes inv: "proc_inv p" and get: "js_get (pa_inFlight p) t = Some m"
  shows "\<exists>p'. process_complete t p = Inr p' \<and> proc_inv p'"
proof -
  let ?z = "pm_zoneId m"
  note old = proc_invD [OF inv]
  obtain s where s: "js_get (pa_schedulersByZone p) ?z = Some s"
    using old(6) [OF get] by (auto simp: js_has_def)
  note zh = zone_holdsD [OF proc_invD(4) [OF inv s]]
  have st: "js_get (sc_inFlight s) t = Some m" using zh(3) get by blast
  then obtain s1 where s1: "complete t s = Inr s1" using complete_inv [OF zh(1)] by blast
  have inv1: "sched_inv s1" and ns: "non_safety_held s = non_safety_message m + non_safety_held s1"
    using complete_non_safety [OF zh(1) st s1] by simp_all
  have fl1: "sc_inFlight s1 = js_delete t (sc_inFlight s)" using complete_inFlight [OF s1] by simp
  obtain q where q: "js_get (pa_queuedCoalescible p) ?z = Some q" and mir: "mirrored q s"
    using old(5) [OF s] by blast
  have mir1: "mirrored q s1" by (rule mirrored_same [OF mir]) (simp add: complete_keyed [OF s1])
  have sub: "x \<in># held_all s" if "x \<in># held_all s1" for x
  proof -
    from that obtain c where "x \<in># held c s1" by (auto simp: held_all_def)
    moreover have "held c s = (if c = am_class m then add_mset m (held c s1) else held c s1)"
      using complete_inv [OF zh(1) st] s1 by auto
    ultimately have "x \<in># held c s" by (cases "c = am_class m") simp_all
    then show ?thesis by (cases c) (simp_all add: held_all_def)
  qed
  define p1 where "p1 = put_scheduler ?z s1 (p\<lparr>pa_inFlight := js_delete t (pa_inFlight p)\<rparr>)"
  have over: "held_over (pa_schedulersByZone p) = non_safety_message m + held_over (js_set ?z s1 (pa_schedulersByZone p))"
    using held_over_set_old [OF old(1) s, of s1] ns by (simp add: ac_simps)
  have "process_account p1 = tot (non_safety_message m + held_over (js_set ?z s1 (pa_schedulersByZone p)))"
    using old(7) over by (simp add: p1_def put_scheduler_def process_account_def)
  then have released: "process_account (release_non_safety m p1) = tot (held_over (js_set ?z s1 (pa_schedulersByZone p)))"
    by (rule release_non_safety_account)
  define p2 where "p2 = release_non_safety m p1"
  from released have account: "process_account p2 = tot (held_over (js_set ?z s1 (pa_schedulersByZone p)))"
    by (simp add: p2_def)
  have positive: "0 < am_byteLength m"
    using held_in_flight [OF zh(1) st] accounts_facts(6) [OF zh(1)] by (auto simp: held_all_def)
  have limit: "within (process_limit p) (process_account p2)"
    using old(8) positive
    by (auto simp: within_def process_account_def process_limit_def p2_def release_non_safety_def p1_def put_scheduler_def)
  have fields: "pa_schedulersByZone p2 = js_set ?z s1 (pa_schedulersByZone p)"
    "pa_zoneOrder p2 = pa_zoneOrder p"
    "process_limit p2 = process_limit p"
    "pa_maxActiveSessions p2 = pa_maxActiveSessions p"
    "pa_symbols p2 = pa_symbols p"
    "pa_queuedCoalescible p2 = pa_queuedCoalescible p"
    "pa_inFlight p2 = js_delete t (pa_inFlight p)"
    by (simp_all add: p2_def p1_def put_scheduler_def process_limit_def)
  have zone: "zone_holds (pa_inFlight p2) ?z s1"
    unfolding zone_holds_def fields(7) fl1
    using inv1 zh(2,3) sub by (auto simp: js_get_delete)
  have "proc_inv p2"
    by (rule proc_inv_put [OF inv s, where q = q and s' = s1])
      (use zone mir1 q account limit old(2) get in \<open>auto simp: fields js_get_delete dest: old(6) split: if_splits\<close>)
  moreover have "process_complete t p = Inr p2"
    using get s s1 by (simp add: process_complete_def p2_def p1_def Let_def put_scheduler_def)
  ultimately show ?thesis by blast
qed

lemma process_complete_unknown:
  "js_get (pa_inFlight p) t = None \<Longrightarrow> process_complete t p = Inl (ProcessMessageNotInFlight, p)"
  by (simp add: process_complete_def)

text \<open>Unregistering: the loops end, and exactly the zone is gone.\<close>

lemma js_keys_distinct: "js_map_ok m \<Longrightarrow> distinct (js_keys m)"
  by (simp add: js_map_ok_def js_keys_def)

lemma queue_zero_held:
  assumes "sched_inv s" and "queue_length s = 0" and "\<And>t. js_get (sc_inFlight s) t = None"
  shows "non_safety_held s = {#}"
proof -
  have "sc_inFlight s = []"
  proof (cases "sc_inFlight s")
    case (Cons e es)
    with assms(3) [of "fst e"] show ?thesis by (cases e) simp
  qed
  then have "in_flight s = {#}" by (simp add: in_flight_def js_values_def)
  then show ?thesis
    using assms(2) by (simp add: non_safety_held_def held_def queue_length_zero)
qed

lemma unregister_ends:
  assumes inv: "proc_inv p" and get: "js_get (pa_schedulersByZone p) z = Some s"
  shows "\<exists>p'. unregisterZone z p = Some (Inr p') \<and> proc_inv p' \<and>
    pa_schedulersByZone p' = js_delete z (pa_schedulersByZone p) \<and>
    (\<forall>t m. js_get (pa_inFlight p') t = Some m \<longleftrightarrow> js_get (pa_inFlight p) t = Some m \<and> pm_zoneId m \<noteq> z) \<and>
    process_account p = tot (non_safety_held s + held_over (pa_schedulersByZone p')) \<and>
    process_limit p' = process_limit p \<and> pa_maxActiveSessions p' = pa_maxActiveSessions p"
proof -
  note old = proc_invD [OF inv] and zh = zone_holdsD [OF proc_invD(4) [OF inv get]]
  let ?M = "held_over (js_delete z (pa_schedulersByZone p))"
  have account: "process_account p = tot (non_safety_held s + ?M)"
    using old(7) held_over_delete [OF old(1) get] by simp
  have tokens: "\<forall>t m. js_get (sc_inFlight s) t = Some m \<longrightarrow> t < pa_symbols p"
    using zh(3) old(6) by blast
  obtain s1 p1 where d: "drain_queued z s p = Some (Inr (s1, p1))" and i1: "sched_inv s1"
    and f1: "sc_inFlight s1 = sc_inFlight s" and l1: "queue_length s1 = 0"
    and a1: "process_account p1 = tot (non_safety_held s1 + ?M)" and r1: "same_registry p p1"
    and g1: "pa_inFlight p1 = pa_inFlight p"
    using drain_queued_ends [OF zh(1) tokens account] by blast
  have dist: "distinct (map fst (pa_inFlight p1))"
    using old(2) by (simp add: g1 js_map_ok_def)
  have entries: "\<forall>(t, m) \<in> set (pa_inFlight p1). pm_zoneId m = z \<longrightarrow> js_get (sc_inFlight s1) t = Some m"
    using zh(3) js_get_in_set [OF old(2)] by (auto simp: g1 f1)
  obtain s2 p2 where e: "drain_in_flight z (pa_inFlight p1) s1 p1 = Inr (s2, p2)" and i2: "sched_inv s2"
    and l2: "queue_length s2 = queue_length s1"
    and f2: "\<forall>t. js_get (sc_inFlight s2) t =
       (if \<exists>m. (t, m) \<in> set (pa_inFlight p1) \<and> pm_zoneId m = z then None else js_get (sc_inFlight s1) t)"
    and g2: "\<forall>t. js_get (pa_inFlight p2) t =
       (if \<exists>m. (t, m) \<in> set (pa_inFlight p1) \<and> pm_zoneId m = z then None else js_get (pa_inFlight p1) t)"
    and ok2: "js_map_ok (pa_inFlight p1) \<longrightarrow> js_map_ok (pa_inFlight p2)"
    and a2: "process_account p2 = tot (non_safety_held s2 + ?M)" and r2: "same_registry p1 p2"
    using drain_in_flight_ends [OF i1 dist entries a1] by blast
  have none: "js_get (sc_inFlight s2) t = None" for t
  proof (cases "js_get (sc_inFlight s) t")
    case None
    then show ?thesis using f2 by (simp add: f1)
  next
    case (Some m)
    then have "js_get (pa_inFlight p) t = Some m \<and> pm_zoneId m = z" using zh(3) by blast
    then have "(t, m) \<in> set (pa_inFlight p1) \<and> pm_zoneId m = z" using js_get_in_set [OF old(2)] by (simp add: g1)
    then show ?thesis using f2 by auto
  qed
  have empty: "non_safety_held s2 = {#}" using queue_zero_held [OF i2 _ none] l1 l2 by simp
  have r: "same_registry p p2" by (rule same_registry_trans [OF r1 r2])
  define p3 where "p3 = remove_zone z p2"
  have idx: "index_of z (pa_zoneOrder p) \<noteq> None"
    using get by (simp add: index_of_None old(3) js_keys_def) (force dest: map_of_SomeD)
  then obtain i where i: "index_of z (pa_zoneOrder p) = Some i" by auto
  have order: "splice_one i (pa_zoneOrder p) = js_keys (js_delete z (pa_schedulersByZone p))"
    using splice_index_of [OF js_keys_distinct [OF old(1), folded old(3)] i] by (simp add: js_keys_delete old(3))
  have fields: "pa_schedulersByZone p3 = js_delete z (pa_schedulersByZone p)"
    "pa_queuedCoalescible p3 = js_delete z (pa_queuedCoalescible p)"
    "pa_zoneOrder p3 = js_keys (js_delete z (pa_schedulersByZone p))"
    "pa_inFlight p3 = pa_inFlight p2" "process_limit p3 = process_limit p"
    "pa_maxActiveSessions p3 = pa_maxActiveSessions p" "pa_symbols p \<le> pa_symbols p3"
    "process_account p3 = process_account p2"
    using r i order
    by (simp_all add: p3_def remove_zone_def same_registry_def process_limit_def process_account_def Let_def)
  have flight: "js_get (pa_inFlight p3) t = Some m \<longleftrightarrow> js_get (pa_inFlight p) t = Some m \<and> pm_zoneId m \<noteq> z" for t m
  proof -
    have "js_get (pa_inFlight p3) t =
        (if \<exists>n. js_get (pa_inFlight p) t = Some n \<and> pm_zoneId n = z then None else js_get (pa_inFlight p) t)"
      using g2 by (auto simp add: fields(4) g1 js_get_in_set [OF old(2), symmetric])
    then show ?thesis by (cases "js_get (pa_inFlight p) t") auto
  qed
  have account3: "process_account p3 = tot ?M" by (simp add: fields(8) a2 empty)
  have smaller: "within (process_limit p) (tot ?M)"
  proof (rule within_mono)
    show "within (process_limit p) (tot (non_safety_held s + ?M))" using old(8) account by simp
    show "?M \<subseteq># non_safety_held s + ?M" by simp
    show "0 < am_byteLength x" if "x \<in># non_safety_held s + ?M" for x
    proof -
      have "\<exists>z' s'. js_get (pa_schedulersByZone p) z' = Some s' \<and> x \<in># non_safety_held s'"
        using that get held_over_delete [OF old(1) get]
        by (auto simp: held_over_def js_value_iff [OF old(1)] js_value_iff js_get_delete old(1) split: if_splits) blast+
      then obtain z' s' where s': "js_get (pa_schedulersByZone p) z' = Some s'" "x \<in># non_safety_held s'" by blast
      then show ?thesis
        using s'(2) accounts_facts(6) [OF zone_holdsD(1) [OF old(4) [OF s'(1)]]] by (auto simp: non_safety_held_def)
    qed
  qed
  have "proc_inv p3"
    unfolding proc_inv_def
  proof (intro conjI allI impI)
    show "js_map_ok (pa_inFlight p3)" using ok2 old(2) by (simp add: fields(4) g1)
    show "int (js_size (pa_schedulersByZone p3)) \<le> pa_maxActiveSessions p3"
      using old(9) js_size_delete_le [of z "pa_schedulersByZone p"] by (simp add: fields(1,6))
    show "process_account p3 = tot (held_over (pa_schedulersByZone p3))" by (simp add: fields(1) account3)
    show "within (process_limit p3) (process_account p3)" using smaller by (simp add: fields(5) account3)
    fix t m assume m: "js_get (pa_inFlight p3) t = Some m"
    then have m: "js_get (pa_inFlight p) t = Some m" "pm_zoneId m \<noteq> z" using flight by auto
    from old(6) [OF m(1)] fields(7) show "t < pa_symbols p3" by simp
    from old(6) [OF m(1)] m(2) show "js_has (pa_schedulersByZone p3) (pm_zoneId m)"
      by (simp add: fields(1) js_has_def js_get_delete)
  next
    fix z' s' assume "js_get (pa_schedulersByZone p3) z' = Some s'"
    then have z': "z' \<noteq> z" "js_get (pa_schedulersByZone p) z' = Some s'"
      by (auto simp: fields(1) js_get_delete split: if_splits)
    show "zone_holds (pa_inFlight p3) z' s'"
      using old(4) [OF z'(2)] z'(1) unfolding zone_holds_def flight by metis
    show "\<exists>q. js_get (pa_queuedCoalescible p3) z' = Some q \<and> mirrored q s'"
      using old(5) [OF z'(2)] z'(1) by (simp add: fields(2) js_get_delete)
  qed (simp_all add: fields old(1))
  moreover have "unregisterZone z p = Some (Inr p3)"
    using get d e by (simp add: unregisterZone_def p3_def)
  ultimately show ?thesis using flight account fields(5,6) by (auto simp: fields(1))
qed

section \<open>The process under its callers' commands\<close>

datatype 'p process_command =
  RegisterZone string
| UnregisterZone string
| ProcessEnqueue "'p pmessage"
| ProcessDequeue
| ProcessComplete nat

text \<open>\<open>None\<close> as the error stands for a call that never returns.\<close>

definition process_exec :: "'p process_admission \<Rightarrow> 'p process_command
    \<Rightarrow> process_error option + 'p process_admission" where
  "process_exec p c = (case c of
     RegisterZone z \<Rightarrow> Inr (snd (registerZone z p))
   | UnregisterZone z \<Rightarrow>
       (case unregisterZone z p of None \<Rightarrow> Inl None | Some (Inl (e, _)) \<Rightarrow> Inl (Some e) | Some (Inr p') \<Rightarrow> Inr p')
   | ProcessEnqueue m \<Rightarrow> Inr (snd (process_enqueue m p))
   | ProcessDequeue \<Rightarrow> (case process_dequeue p of Inl (e, _) \<Rightarrow> Inl (Some e) | Inr (_, p') \<Rightarrow> Inr p')
   | ProcessComplete t \<Rightarrow> (case process_complete t p of Inl (e, _) \<Rightarrow> Inl (Some e) | Inr p' \<Rightarrow> Inr p'))"

lemma process_dequeue_inv: "proc_inv p \<Longrightarrow> \<exists>w p'. process_dequeue p = Inr (w, p') \<and> proc_inv p'"
  unfolding process_dequeue_def by (rule process_dequeue_from_inv)

lemma unregister_unknown: "js_get (pa_schedulersByZone p) z = None \<Longrightarrow> unregisterZone z p = Some (Inr p)"
  by (simp add: unregisterZone_def)

lemma process_exec_total:
  assumes "proc_inv p"
  shows "case process_exec p c of
      Inl e \<Rightarrow> \<exists>t. c = ProcessComplete t \<and> js_get (pa_inFlight p) t = None \<and> e = Some ProcessMessageNotInFlight
    | Inr p' \<Rightarrow> proc_inv p'"
proof (cases c)
  case (RegisterZone z)
  then show ?thesis using register_inv [OF assms, of z] by (cases "registerZone z p") (simp add: process_exec_def)
next
  case (UnregisterZone z)
  show ?thesis
  proof (cases "js_get (pa_schedulersByZone p) z")
    case None
    with UnregisterZone assms show ?thesis by (simp add: process_exec_def unregister_unknown)
  next
    case (Some s)
    from unregister_ends [OF assms this] UnregisterZone show ?thesis by (auto simp: process_exec_def)
  qed
next
  case (ProcessEnqueue m)
  then show ?thesis using process_enqueue_inv [OF assms, of m] by (cases "process_enqueue m p") (simp add: process_exec_def)
next
  case ProcessDequeue
  then show ?thesis using process_dequeue_inv [OF assms] by (auto simp: process_exec_def)
next
  case (ProcessComplete t)
  show ?thesis
  proof (cases "js_get (pa_inFlight p) t")
    case None
    from process_complete_unknown [OF this] None ProcessComplete show ?thesis by (simp add: process_exec_def)
  next
    case (Some m)
    from process_complete_inv [OF assms Some] ProcessComplete show ?thesis by (auto simp: process_exec_def)
  qed
qed

lemma process_exec_inv: "proc_inv p \<Longrightarrow> process_exec p c = Inr p' \<Longrightarrow> proc_inv p'"
  using process_exec_total [of p c] by simp

text \<open>No operation changes the configured limits.\<close>

definition same_limits :: "'p process_admission \<Rightarrow> 'p process_admission \<Rightarrow> bool" where
  "same_limits p p' \<longleftrightarrow> process_limit p' = process_limit p \<and> pa_maxActiveSessions p' = pa_maxActiveSessions p"

lemma process_enqueue_limits: "same_limits p (snd (process_enqueue m p))"
  by (auto simp: process_enqueue_def same_limits_def process_limit_def Let_def put_scheduler_def
      remember_coalescible_def split: option.split prod.split)

lemma process_dequeue_limits: "process_dequeue_from ks p = Inr (w, p') \<Longrightarrow> same_limits p p'"
  by (induction ks)
    (auto simp: same_limits_def process_limit_def Let_def put_scheduler_def forget_coalescible_def
      split: option.splits prod.splits if_splits)

lemma process_complete_limits: "process_complete t p = Inr p' \<Longrightarrow> same_limits p p'"
  by (auto simp: process_complete_def same_limits_def process_limit_def Let_def put_scheduler_def
      split: option.splits sum.splits)

lemma process_exec_limits:
  assumes "proc_inv p" and "process_exec p c = Inr p'"
  shows "same_limits p p'"
proof (cases c)
  case (RegisterZone z)
  then show ?thesis using assms(2)
    by (auto simp: process_exec_def registerZone_def same_limits_def process_limit_def split: if_splits)
next
  case (UnregisterZone z)
  show ?thesis
  proof (cases "js_get (pa_schedulersByZone p) z")
    case None
    with UnregisterZone assms(2) show ?thesis by (simp add: process_exec_def unregister_unknown same_limits_def)
  next
    case (Some s)
    from unregister_ends [OF assms(1) this] UnregisterZone assms(2) show ?thesis
      by (auto simp: process_exec_def same_limits_def)
  qed
next
  case (ProcessEnqueue m)
  with assms(2) process_enqueue_limits show ?thesis by (auto simp: process_exec_def)
next
  case ProcessDequeue
  with assms(2) process_dequeue_limits show ?thesis
    by (auto simp: process_exec_def process_dequeue_def split: sum.splits)
next
  case (ProcessComplete t)
  with assms(2) process_complete_limits show ?thesis
    by (auto simp: process_exec_def split: sum.splits)
qed

interpretation process: ordered_reducer process_exec "\<lambda>_. True" proc_inv same_limits
  by unfold_locales (auto simp: same_limits_def dest: process_exec_inv process_exec_limits)

section \<open>Admission in terms of what is held\<close>

definition process_prior :: "'p pmessage \<Rightarrow> 'p pmessage scheduler \<Rightarrow> 'p pmessage option" where
  "process_prior m s = (if coalescing_class (am_class m) then queued_prior m s else None)"

lemma keyed_prior:
  assumes "sched_inv s" and "coalescing_class (am_class m)"
  shows "js_get (keyed (am_class m) s) (or_empty (am_coalesceKey m)) = queued_prior m s"
proof -
  have maps: "js_map_ok (sc_livenessByKey s)" "js_map_ok (sc_diagnosticByKey s)"
    using assms(1) by (simp_all add: sched_inv_def scheduler_maps_ok_def)
  have keys: "or_empty (am_coalesceKey x) = k"
    if "js_get (sc_livenessByKey s) k = Some x \<or> js_get (sc_diagnosticByKey s) k = Some x" for k x
    using assms(1) that by (auto simp: sched_inv_def messages_ok_def)
  from assms(2) show ?thesis unfolding coalescing_class_def
    by (elim disjE) (use keys maps in \<open>simp_all add: queued_prior_def keyed_def queued_def find_js_values\<close>)
qed

lemma prior_in_held:
  assumes "sched_inv s" and "process_prior m s = Some x"
  shows "x \<in># non_safety_held s"
proof -
  have "x \<in> set (queued (am_class m) s)" and "coalescing_class (am_class m)"
    using assms(2) by (auto simp: process_prior_def queued_prior_def find_Some_iff split: if_splits)
  then show ?thesis by (auto simp: coalescing_class_def non_safety_held_def held_def)
qed

lemma process_enqueue_refines:
  assumes inv: "proc_inv p" and s: "js_get (pa_schedulersByZone p) (pm_zoneId m) = Some s"
  shows "fst (process_enqueue m p) =
    (if am_class m = Safety \<or> within (process_limit p)
          (tot (add_mset m (held_over (pa_schedulersByZone p) - mset_option (process_prior m s))))
     then fst (enqueue m s) else capacity_refusal (am_class m))"
proof -
  note old = proc_invD [OF inv] and zh = zone_holdsD [OF proc_invD(4) [OF inv s]]
  obtain q where q: "js_get (pa_queuedCoalescible p) (pm_zoneId m) = Some q" and mir: "mirrored q s"
    using old(5) [OF s] by blast
  have prior: "prior_coalescible m p = process_prior m s"
    using q mir keyed_prior [OF zh(1)] by (simp add: prior_coalescible_def process_key mirrored_def process_prior_def)
  let ?M = "held_over (pa_schedulersByZone p)"
  let ?P = "mset_option (process_prior m s)"
  have "?P \<subseteq># ?M"
  proof (cases "process_prior m s")
    case (Some x)
    have "x \<in># ?M" using prior_in_held [OF zh(1) Some] held_over_delete [OF old(1) s] by simp
    with Some show ?thesis by simp
  qed simp
  then have "tot ?M = tot (?M - ?P + ?P)" by simp
  then have sums: "qa_byteCount (tot ?M) = qa_byteCount (tot (?M - ?P)) + (case process_prior m s of None \<Rightarrow> 0 | Some x \<Rightarrow> am_byteLength x)"
    "qa_messageCount (tot ?M) = qa_messageCount (tot (?M - ?P)) + (if process_prior m s = None then 0 else 1)"
    unfolding tot_union by (cases "process_prior m s"; simp add: tot_def)+
  have counters: "pa_nonSafetyBytes p = qa_byteCount (tot ?M)" "pa_nonSafetyMessages p = qa_messageCount (tot ?M)"
    using old(7) by (simp_all add: process_account_def flip: old(7))
  have one: "qa_byteCount (tot (add_mset m N)) = am_byteLength m + qa_byteCount (tot N)"
    "qa_messageCount (tot (add_mset m N)) = 1 + qa_messageCount (tot N)" for N
    by (simp_all add: tot_def)
  have limit: "within (process_limit p) (tot (add_mset m (?M - ?P))) \<longleftrightarrow>
      \<not> (pa_nonSafetyMessages p + (if process_prior m s = None then 1 else 0) > pa_maxNonSafetyMessages p \<or>
         pa_nonSafetyBytes p + (am_byteLength m - (case process_prior m s of None \<Rightarrow> 0 | Some x \<Rightarrow> am_byteLength x))
           > pa_maxNonSafetyBytes p)"
    unfolding counters sums within_def process_limit_def one by (cases "process_prior m s") auto
  show ?thesis
    unfolding limit using s
    by (cases "enqueue m s") (simp add: process_enqueue_def prior Let_def)
qed

section \<open>Round robin over the zones\<close>

definition zone_at :: "'p process_admission \<Rightarrow> nat \<Rightarrow> string" where
  "zone_at p k = pa_zoneOrder p ! ((pa_zoneCursor p + k) mod length (pa_zoneOrder p))"

definition zone_idle :: "'p process_admission \<Rightarrow> string \<Rightarrow> bool" where
  "zone_idle p z \<longleftrightarrow> (\<forall>s c. js_get (pa_schedulersByZone p) z = Some s \<longrightarrow> queued c s = [])"

lemma dequeue_None_idle:
  assumes "sched_inv s"
  shows "fst (dequeue None t s) = None \<longleftrightarrow> (\<forall>c. queued c s = [])"
proof
  assume none: "fst (dequeue None t s) = None"
  show "\<forall>c. queued c s = []"
  proof
    fix c show "queued c s = []"
    proof (rule ccontr)
      assume "queued c s \<noteq> []"
      from dequeue_progress [OF assms this, of t] none show False by auto
    qed
  qed
qed (simp add: dequeue_empty [OF assms])

lemma zone_idle_dequeue:
  assumes "proc_inv p" and "js_get (pa_schedulersByZone p) z = Some s"
  shows "zone_idle p z \<longleftrightarrow> fst (dequeue None (pa_symbols p) s) = None"
  using dequeue_None_idle [OF zone_holdsD(1) [OF proc_invD(4) [OF assms]]] assms(2)
  by (auto simp: zone_idle_def)

lemma process_dequeue_from_first:
  assumes inv: "proc_inv p" and "process_dequeue_from ks p = Inr (w, p')"
  shows "case w of
      None \<Rightarrow> p' = p \<and> (\<forall>k\<in>set ks. zone_idle p (zone_at p k))
    | Some (t, m) \<Rightarrow> \<exists>pre k post. ks = pre @ k # post \<and> (\<forall>i\<in>set pre. zone_idle p (zone_at p i)) \<and>
        \<not> zone_idle p (zone_at p k) \<and> pm_zoneId m = zone_at p k \<and>
        pa_zoneCursor p' = ((pa_zoneCursor p + k) mod length (pa_zoneOrder p) + 1) mod length (pa_zoneOrder p)"
  using assms(2)
proof (induction ks)
  case Nil
  then show ?case by auto
next
  case (Cons k ks)
  let ?z = "zone_at p k"
  have skip: ?case if "zone_idle p ?z" and "process_dequeue_from ks p = Inr (w, p')"
  proof -
    from Cons.IH [OF that(2)] that(1) show ?thesis
    proof (cases w)
      case (Some v)
      obtain t m where v: "v = (t, m)" by (cases v)
      from Cons.IH [OF that(2)] obtain pre i post where
        rest: "ks = pre @ i # post" "\<forall>i\<in>set pre. zone_idle p (zone_at p i)"
        "\<not> zone_idle p (zone_at p i) \<and> pm_zoneId m = zone_at p i \<and>
          pa_zoneCursor p' = ((pa_zoneCursor p + i) mod length (pa_zoneOrder p) + 1) mod length (pa_zoneOrder p)"
        by (auto simp: Some v)
      show ?thesis
        unfolding Some v option.case prod.case
        by (rule exI [of _ "k # pre"], rule exI [of _ i], rule exI [of _ post]) (use rest that(1) in auto)
    qed simp
  qed
  show ?case
  proof (cases "js_get (pa_schedulersByZone p) ?z")
    case None
    with Cons.prems have "process_dequeue_from ks p = Inr (w, p')" by (simp add: zone_at_def Let_def)
    moreover from None have "zone_idle p ?z" by (simp add: zone_idle_def)
    ultimately show ?thesis by (rule skip [rotated])
  next
    case (Some s)
    obtain v s1 where d: "dequeue None (pa_symbols p) s = (v, s1)" by fastforce
    note idle = zone_idle_dequeue [OF inv Some, unfolded d fst_conv]
    show ?thesis
    proof (cases v)
      case None
      with Cons.prems Some d have "process_dequeue_from ks p = Inr (w, p')" by (simp add: zone_at_def Let_def)
      with idle None show ?thesis by (intro skip) simp_all
    next
      case m: (Some m)
      let ?p1 = "put_scheduler ?z s1 (p\<lparr>pa_symbols := pa_symbols p + 1\<rparr>)"
      have "pm_zoneId m = ?z \<and> w = Some (pa_symbols p, m) \<and>
          p' = (forget_coalescible ?z m ?p1)\<lparr>pa_zoneCursor :=
            ((pa_zoneCursor p + k) mod length (pa_zoneOrder p) + 1) mod length (pa_zoneOrder p),
            pa_inFlight := js_set (pa_symbols p) m (pa_inFlight (forget_coalescible ?z m ?p1))\<rparr>"
        using Cons.prems Some d m by (simp add: zone_at_def Let_def split: if_splits)
      moreover have "\<not> zone_idle p ?z" using idle m by simp
      ultimately show ?thesis by (auto intro: exI [of _ "[]"])
    qed
  qed
qed

lemma zone_at_all:
  assumes "z \<in> set (pa_zoneOrder p)"
  shows "\<exists>k<length (pa_zoneOrder p). zone_at p k = z"
proof -
  let ?n = "length (pa_zoneOrder p)"
  obtain i where i: "i < ?n" "pa_zoneOrder p ! i = z" using assms by (auto simp: in_set_conv_nth)
  define c where "c = pa_zoneCursor p mod ?n"
  have c: "c < ?n" unfolding c_def by (rule mod_less_divisor) (use i in linarith)
  define k where "k = (if c \<le> i then i - c else ?n + i - c)"
  have "c + k = i \<or> c + k = ?n + i" using c by (simp add: k_def)
  then have "(c + k) mod ?n = i" using i(1) by (elim disjE) simp_all
  then have "(pa_zoneCursor p + k) mod ?n = i" unfolding c_def by (simp add: mod_simps)
  moreover have "k < ?n" using i(1) c unfolding k_def by (cases "c \<le> i") simp_all
  ultimately show ?thesis using i unfolding zone_at_def by blast
qed

end
