(* ===== verification/ProcessProperties.thy ===== *)
theory ProcessProperties
  imports ProcessRuns
begin

text \<open>
  What the process admission guarantees the sessions that share it, with a worked process of two
  zones for the witnesses.
\<close>

section \<open>A worked process\<close>

definition demo_work :: "admission_class \<Rightarrow> string \<Rightarrow> string \<Rightarrow> unit pmessage" where
  "demo_work c z i = \<lparr>am_byteLength = 10, am_coalesceKey = Some ''k'', am_id = i, am_class = c, am_payload = (),
     am_stablePrincipal = Some ''p'', pm_zoneId = z\<rparr>"

definition new_process :: "unit process_admission" where
  "new_process = \<lparr>pa_maxActiveSessions = 2, pa_maxNonSafetyBytes = 100, pa_maxNonSafetyMessages = 3,
     pa_schedulersByZone = [], pa_queuedCoalescible = [], pa_inFlight = [], pa_zoneOrder = [], pa_zoneCursor = 0,
     pa_nonSafetyBytes = 0, pa_nonSafetyMessages = 0, pa_symbols = 0\<rparr>"

definition demo_calls :: "unit process_command list" where
  "demo_calls = [RegisterZone ''a'', RegisterZone ''b'', ProcessEnqueue (demo_work Authority ''a'' ''1''),
     ProcessEnqueue (demo_work Liveness ''b'' ''2''), ProcessDequeue]"

abbreviation demo_process :: "unit process_admission" where
  "demo_process \<equiv> run_commands process_exec new_process demo_calls"

lemma new_process_created: "createGatewayControlProcessAdmission (Some 2) (Some 100) (Some 3) = Inr new_process"
  by (simp add: createGatewayControlProcessAdmission_def new_process_def Let_def option_or_def
      requirePositiveLimit_def is_safe_integer_def result_simps)

lemma demo_process_reachable: "reachable process_exec (\<lambda>_. True) new_process demo_process"
  by (rule run_commands_reachable [OF reachable.start]) (simp add: list_all_def)

lemma demo_process_zone: "js_get (pa_schedulersByZone demo_process) ''b'' \<noteq> None"
  by code_simp

section \<open>The properties\<close>

lemma upt_split:
  assumes split: "[0..<n] = pre @ k # post"
  shows "k < n \<and> pre = [0..<k]"
proof -
  from arg_cong [OF split, of length] have len: "length pre < n" by simp
  from arg_cong [OF split, of "\<lambda>xs. xs ! length pre"] len have k: "length pre = k" by simp
  from arg_cong [OF split, of "take (length pre)"] len have "[0..<length pre] = pre" by (simp add: take_upt)
  with k len show ?thesis by simp
qed

lemma created_process:
  assumes "createGatewayControlProcessAdmission a b c = Inr p0" and "reachable process_exec (\<lambda>_. True) p0 p"
  shows "proc_inv p" "pa_maxActiveSessions p = option_or a 32" "pa_maxNonSafetyBytes p = option_or b 33554432"
    "pa_maxNonSafetyMessages p = option_or c 2048"
proof -
  have inv0: "proc_inv p0" by (rule create_inv [OF assms(1)])
  show "proc_inv p" by (rule process.reachable_inv [OF assms(2) inv0])
  have "same_limits p0 p" by (rule process.reachable_le [OF assms(2) inv0])
  with assms(1) show "pa_maxActiveSessions p = option_or a 32" "pa_maxNonSafetyBytes p = option_or b 33554432"
    "pa_maxNonSafetyMessages p = option_or c 2048"
    by (auto simp: same_limits_def process_limit_def createGatewayControlProcessAdmission_def Let_def result_simps
        requirePositiveLimit_def split: if_splits)
qed

lemma process_counters:
  assumes "proc_inv p"
  shows "pa_nonSafetyBytes p = qa_byteCount (tot (held_over (pa_schedulersByZone p)))"
    "pa_nonSafetyMessages p = qa_messageCount (tot (held_over (pa_schedulersByZone p)))"
proof -
  have "process_account p = tot (held_over (pa_schedulersByZone p))" by (rule proc_invD(7) [OF assms])
  from arg_cong [OF this, of qa_byteCount] arg_cong [OF this, of qa_messageCount]
  show "pa_nonSafetyBytes p = qa_byteCount (tot (held_over (pa_schedulersByZone p)))"
    "pa_nonSafetyMessages p = qa_messageCount (tot (held_over (pa_schedulersByZone p)))"
    by (simp_all add: process_account_def)
qed

text \<open>
  C12: After any sequence of registrations, unregistrations, enqueues, dequeues and completions the two counters of the process are exactly the bytes and the number of the messages outside the safety class that all its zones hold, queued or in flight, these stay within the limits given at creation (or their defaults), and so does the number of zones.
\<close>

theorem process_accounts_exactly:
  assumes "createGatewayControlProcessAdmission a b c = Inr p0" and "reachable process_exec (\<lambda>_. True) p0 p"
  shows "pa_nonSafetyBytes p = qa_byteCount (tot (held_over (pa_schedulersByZone p))) \<and>
    pa_nonSafetyMessages p = qa_messageCount (tot (held_over (pa_schedulersByZone p))) \<and>
    pa_nonSafetyBytes p \<le> option_or b 33554432 \<and> pa_nonSafetyMessages p \<le> option_or c 2048 \<and>
    int (js_size (pa_schedulersByZone p)) \<le> option_or a 32"
proof -
  note facts = created_process [OF assms] and old = proc_invD [OF created_process(1) [OF assms]]
  note process_counters [OF created_process(1) [OF assms]]
  with old(8,9) facts(2-4) show ?thesis
    by (simp add: within_def process_limit_def process_account_def)
qed

theorem process_accounts_exactly_witness:
  "qa_messageCount (tot (held_over (pa_schedulersByZone demo_process))) = 2 \<and>
    pa_nonSafetyBytes demo_process = 20 \<and> pa_nonSafetyBytes demo_process \<le> 100"
proof -
  have "pa_nonSafetyMessages demo_process = 2" "pa_nonSafetyBytes demo_process = 20" by code_simp+
  with process_accounts_exactly [OF new_process_created demo_process_reachable] show ?thesis by simp
qed

text \<open>
  C13: Unregistering a zone returns on every reachable state: the loop that drains its queues ends, and afterwards the zone is gone, every other zone is as it was, exactly the messages of the other zones are still in flight, and the process has given back exactly what the zone held outside the safety class.
\<close>

theorem unregisterZone_releases_zone:
  assumes "createGatewayControlProcessAdmission a b c = Inr p0" and "reachable process_exec (\<lambda>_. True) p0 p"
    and "js_get (pa_schedulersByZone p) z = Some s"
  shows "\<exists>p'. unregisterZone z p = Some (Inr p') \<and>
    pa_schedulersByZone p' = js_delete z (pa_schedulersByZone p) \<and>
    (\<forall>t m. js_get (pa_inFlight p') t = Some m \<longleftrightarrow> js_get (pa_inFlight p) t = Some m \<and> pm_zoneId m \<noteq> z) \<and>
    pa_nonSafetyBytes p = qa_byteCount (tot (non_safety_held s)) + pa_nonSafetyBytes p' \<and>
    pa_nonSafetyMessages p = qa_messageCount (tot (non_safety_held s)) + pa_nonSafetyMessages p'"
proof -
  obtain p' where p': "unregisterZone z p = Some (Inr p')" "proc_inv p'"
    "pa_schedulersByZone p' = js_delete z (pa_schedulersByZone p)"
    "\<forall>t m. js_get (pa_inFlight p') t = Some m \<longleftrightarrow> js_get (pa_inFlight p) t = Some m \<and> pm_zoneId m \<noteq> z"
    and account: "process_account p = tot (non_safety_held s + held_over (pa_schedulersByZone p'))"
    using unregister_ends [OF created_process(1) [OF assms(1,2)] assms(3)] by blast
  have "pa_nonSafetyBytes p = qa_byteCount (process_account p)"
    "pa_nonSafetyMessages p = qa_messageCount (process_account p)" by (simp_all add: process_account_def)
  then have "pa_nonSafetyBytes p = qa_byteCount (tot (non_safety_held s)) + pa_nonSafetyBytes p'"
    "pa_nonSafetyMessages p = qa_messageCount (tot (non_safety_held s)) + pa_nonSafetyMessages p'"
    unfolding account tot_union process_counters [OF p'(2)] by simp_all
  with p' show ?thesis by blast
qed

theorem unregisterZone_releases_zone_witness:
  "\<exists>s p'. js_get (pa_schedulersByZone demo_process) ''b'' = Some s \<and>
    unregisterZone ''b'' demo_process = Some (Inr p') \<and>
    pa_nonSafetyMessages demo_process = qa_messageCount (tot (non_safety_held s)) + pa_nonSafetyMessages p'"
proof -
  obtain s where s: "js_get (pa_schedulersByZone demo_process) ''b'' = Some s" using demo_process_zone by blast
  from unregisterZone_releases_zone [OF new_process_created demo_process_reachable s] s show ?thesis by blast
qed

text \<open>
  The only call that throws on a reachable state is the completion of a token that is not in flight, which leaves the state as it is: a dequeue never finds a message of another zone, and the completions that unregistering and completing pass on to the schedulers always succeed.
\<close>

theorem process_throws_only_unknown_token:
  assumes "createGatewayControlProcessAdmission a b c = Inr p0" and "reachable process_exec (\<lambda>_. True) p0 p"
  shows "(process_complete t p = Inl e \<longleftrightarrow>
      js_get (pa_inFlight p) t = None \<and> e = (ProcessMessageNotInFlight, p)) \<and>
    process_dequeue p \<noteq> Inl e \<and> unregisterZone z p \<noteq> Some (Inl e) \<and> unregisterZone z p \<noteq> None"
proof -
  have inv: "proc_inv p" by (rule created_process(1) [OF assms])
  have "process_complete t p = Inl e \<longleftrightarrow> js_get (pa_inFlight p) t = None \<and> e = (ProcessMessageNotInFlight, p)"
    using process_complete_inv [OF inv, of t] process_complete_unknown [of p t]
    by (cases "js_get (pa_inFlight p) t") auto
  moreover have "process_dequeue p \<noteq> Inl e" using process_dequeue_inv [OF inv] by auto
  moreover have "unregisterZone z p \<noteq> Some (Inl e) \<and> unregisterZone z p \<noteq> None"
    using unregister_ends [OF inv, of z] unregister_unknown [of p z]
    by (cases "js_get (pa_schedulersByZone p) z") auto
  ultimately show ?thesis by blast
qed

theorem process_throws_only_unknown_token_witness:
  "process_complete 7 demo_process = Inl (ProcessMessageNotInFlight, demo_process)"
proof -
  have "js_get (pa_inFlight demo_process) 7 = None" by code_simp
  with process_throws_only_unknown_token [OF new_process_created demo_process_reachable, of 7] show ?thesis by blast
qed

text \<open>
  Admission to a registered zone answers as the zone's own scheduler does, unless the message is outside the safety class and the process, once the queued message it replaces is taken away, would hold more than its limits, in which case the answer is the refusal of its class and neither the zone nor the counters are asked.
\<close>

theorem process_enqueue_refines_spec:
  assumes "createGatewayControlProcessAdmission a b c = Inr p0" and "reachable process_exec (\<lambda>_. True) p0 p"
    and "js_get (pa_schedulersByZone p) (pm_zoneId m) = Some s"
  shows "fst (process_enqueue m p) =
    (if am_class m = Safety \<or> within \<lparr>al_maxBytes = option_or b 33554432, al_maxMessages = option_or c 2048\<rparr>
          (tot (add_mset m (held_over (pa_schedulersByZone p) - mset_option (process_prior m s))))
     then fst (enqueue m s) else capacity_refusal (am_class m))"
proof -
  have "process_limit p = \<lparr>al_maxBytes = option_or b 33554432, al_maxMessages = option_or c 2048\<rparr>"
    using created_process(3,4) [OF assms(1,2)] by (simp add: process_limit_def)
  with process_enqueue_refines [OF created_process(1) [OF assms(1,2)] assms(3)] show ?thesis by simp
qed

theorem process_enqueue_refines_spec_witness:
  "\<exists>s. fst (process_enqueue (demo_work Liveness ''b'' ''3'') demo_process) =
    (if am_class (demo_work Liveness ''b'' ''3'') = Safety \<or> within \<lparr>al_maxBytes = option_or (Some 100) 33554432, al_maxMessages = option_or (Some 3) 2048\<rparr>
          (tot (add_mset (demo_work Liveness ''b'' ''3'')
             (held_over (pa_schedulersByZone demo_process) - mset_option (process_prior (demo_work Liveness ''b'' ''3'') s))))
     then fst (enqueue (demo_work Liveness ''b'' ''3'') s) else capacity_refusal (am_class (demo_work Liveness ''b'' ''3'')))"
proof -
  obtain s where "js_get (pa_schedulersByZone demo_process) ''b'' = Some s" using demo_process_zone by blast
  then have "js_get (pa_schedulersByZone demo_process) (pm_zoneId (demo_work Liveness ''b'' ''3'')) = Some s"
    by (simp add: demo_work_def)
  from process_enqueue_refines_spec [OF new_process_created demo_process_reachable this] show ?thesis by blast
qed

text \<open>
  Zones are served round robin: a dequeue returns nothing exactly when no zone has anything queued, and otherwise serves the first zone at or after the cursor that has something queued, every zone before it being idle, and moves the cursor just past it.
\<close>

theorem process_dequeue_round_robin:
  assumes "createGatewayControlProcessAdmission a b c = Inr p0" and "reachable process_exec (\<lambda>_. True) p0 p"
    and "process_dequeue p = Inr (w, p')"
  shows "case w of
      None \<Rightarrow> (\<forall>z. zone_idle p z)
    | Some (t, m) \<Rightarrow> \<exists>k<length (pa_zoneOrder p). (\<forall>i<k. zone_idle p (zone_at p i)) \<and>
        \<not> zone_idle p (zone_at p k) \<and> pm_zoneId m = zone_at p k \<and>
        pa_zoneCursor p' = ((pa_zoneCursor p + k) mod length (pa_zoneOrder p) + 1) mod length (pa_zoneOrder p)"
proof -
  have inv: "proc_inv p" by (rule created_process(1) [OF assms(1,2)])
  let ?n = "length (pa_zoneOrder p)"
  from assms(3) have "process_dequeue_from [0..<?n] p = Inr (w, p')" by (simp add: process_dequeue_def)
  note first = process_dequeue_from_first [OF inv this]
  show ?thesis
  proof (cases w)
    case None
    have "zone_idle p z" for z
    proof (cases "z \<in> set (pa_zoneOrder p)")
      case True
      with first None show ?thesis using zone_at_all by fastforce
    next
      case False
      then have "js_get (pa_schedulersByZone p) z = None"
        unfolding proc_invD(3) [OF inv] by (simp add: js_keys_def map_of_eq_None_iff)
      then show ?thesis by (simp add: zone_idle_def)
    qed
    then show ?thesis unfolding None option.case by (rule allI)
  next
    case (Some v)
    obtain t m where v: "v = (t, m)" by (cases v)
    from first obtain pre k post where split: "[0..<?n] = pre @ k # post"
      and rest: "\<forall>i\<in>set pre. zone_idle p (zone_at p i)" "\<not> zone_idle p (zone_at p k) \<and> pm_zoneId m = zone_at p k \<and>
        pa_zoneCursor p' = ((pa_zoneCursor p + k) mod ?n + 1) mod ?n"
      by (auto simp: Some v)
    from upt_split [OF split] rest show ?thesis by (auto simp: Some v)
  qed
qed

theorem process_dequeue_round_robin_witness:
  "\<exists>t m p'. process_dequeue demo_process = Inr (Some (t, m), p') \<and>
    (\<exists>k<length (pa_zoneOrder demo_process). \<not> zone_idle demo_process (zone_at demo_process k) \<and>
      pm_zoneId m = zone_at demo_process k)"
proof -
  have "(case process_dequeue demo_process of Inl _ \<Rightarrow> False | Inr (w, _) \<Rightarrow> w \<noteq> None)" by code_simp
  then obtain t m p' where d: "process_dequeue demo_process = Inr (Some (t, m), p')"
    by (cases "process_dequeue demo_process") auto
  from process_dequeue_round_robin [OF new_process_created demo_process_reachable d] d show ?thesis by auto
qed

end
