(* ===== verification/RecoveryPolicy.thy ===== *)
theory RecoveryPolicy
  imports Prelude
begin

text \<open>
  packages/agent-vm/src/controller/health/gateway-vm-recovery-policy.ts: when the controller
  restarts the Gateway VM of a zone on its own. The closure's map \<open>stateByZoneId\<close> is the
  tracker; the objects in it are mutated in place in the code and are only reachable through it,
  so an operation returns the tracker with the zone's state replaced. Each operation is first
  given on the state of its zone and then lifted to the tracker by \<open>in_zone\<close>.
\<close>

section \<open>Policy, observations, decisions\<close>

datatype observation_result = ObservedFailed | ObservedOk | ObservedStale | ObservedTimeout | Unobserved

datatype budget_class = ColdStart | VmRestart

datatype recovery_reason =
  ChannelProviderUnhealthy | ControlSessionUnhealthy | ServiceUnhealthy

datatype death_grace = GraceConnected | GraceRecoveryDue | GraceWithin

datatype channel_health = ChannelHealthy | ChannelTransitioning | UnhealthyRecoverable | UnhealthyUnrecoverable

definition stability_observations :: int where
  "stability_observations = 3"

record channel_policy =
  cp_consecutiveFailureThreshold :: int
  cp_enabled :: bool
  cp_restartGatewayOnRecoverable :: bool
  cp_restartGatewayOnUnrecoverable :: bool
  cp_transitioningTimeoutMs :: millis

definition defaultGatewayVmChannelProviderRecoveryPolicy :: channel_policy where
  "defaultGatewayVmChannelProviderRecoveryPolicy =
     \<lparr>cp_consecutiveFailureThreshold = 3, cp_enabled = True,
      cp_restartGatewayOnRecoverable = False, cp_restartGatewayOnUnrecoverable = False,
      cp_transitioningTimeoutMs = 120000\<rparr>"

record recovery_policy =
  rp_channelProviderHealth :: "channel_policy option"
  rp_consecutiveFailureThreshold :: int
  rp_cooldownMs :: millis
  rp_enabled :: bool
  rp_failedRecoveryResetMs :: millis
  rp_maxConsecutiveFailedRecoveries :: int
  rp_restartTimeoutMs :: millis

record source_key =
  sk_bootId :: string
  sk_domain :: string
  sk_gatewayVmId :: string
  sk_generationId :: string
  sk_zoneId :: string

record recovery_observation =
  ro_channelProviderHealth :: "channel_health option"
  ro_channelProviderId :: "string option"
  ro_controlSessionDeathGrace :: "death_grace option"
  ro_observedAtMs :: millis
  ro_recoveryBudgetClass :: "budget_class option"
  ro_result :: observation_result
  ro_sourceKey :: "source_key option"
  ro_zoneId :: string

datatype recovery_outcome = OutcomeFailed | OutcomeOk

record lifecycle_event =
  le_observedAtMs :: millis
  le_recoveryBudgetClass :: "budget_class option"
  le_result :: "recovery_outcome option"
  le_zoneId :: string

datatype no_recovery_reason =
  CooldownActive | RecoveryDisabled | RecoveryInFlight | MissingSourceKey | NeedsCorroboration
| Stabilizing | NothingObserved | WithinGrace

datatype recovery_decision =
  NoRecovery (rd_consecutiveFailures: int) (rd_noReason: "no_recovery_reason option")
| RestartGateway (rd_consecutiveFailures: int) (rd_reason: recovery_reason) (rd_zoneId: string)
| RecoverySuspended (rd_failedRecoveries: int) (rd_consecutiveFailures: int)
    (rd_outwardEscalationRequired: bool) (rd_zoneId: string)

section \<open>The state of a zone\<close>

record budget_state =
  bs_consecutiveFailedRecoveries :: int
  bs_lastRecoveryAttemptAtMs :: "millis option"
  bs_operatorEscalationEmitted :: bool

record stabilizing_recovery =
  sr_boundSourceKey :: "string option"
  sr_controlSessionHealthyObservations :: int
  sr_recoveryBudgetClass :: budget_class
  sr_serviceHealthyObservations :: int
  sr_startedAtMs :: millis

record zone_recovery =
  zr_channelProviderFailuresById :: "(string, int) js_map"
  zr_controlSessionConsecutiveFailures :: int
  zr_controlSessionRecoveryDueAtMs :: "millis option"
  zr_controlSessionRecoveryDue :: bool
  zr_sourceKey :: "string option"
  zr_serviceConsecutiveFailures :: int
  zr_serviceLastFailureAtMs :: "millis option"
  zr_coldStartBudget :: budget_state
  zr_restartBudget :: budget_state
  zr_recoveryInFlight :: bool
  zr_stabilizing :: "stabilizing_recovery option"

definition createInitialGatewayVmRecoveryBudgetState :: budget_state where
  "createInitialGatewayVmRecoveryBudgetState =
     \<lparr>bs_consecutiveFailedRecoveries = 0, bs_lastRecoveryAttemptAtMs = None,
      bs_operatorEscalationEmitted = False\<rparr>"

definition createInitialGatewayVmRecoveryTrackerState :: zone_recovery where
  "createInitialGatewayVmRecoveryTrackerState =
     \<lparr>zr_channelProviderFailuresById = [], zr_controlSessionConsecutiveFailures = 0,
      zr_controlSessionRecoveryDueAtMs = None, zr_controlSessionRecoveryDue = False,
      zr_sourceKey = None, zr_serviceConsecutiveFailures = 0, zr_serviceLastFailureAtMs = None,
      zr_coldStartBudget = createInitialGatewayVmRecoveryBudgetState,
      zr_restartBudget = createInitialGatewayVmRecoveryBudgetState,
      zr_recoveryInFlight = False, zr_stabilizing = None\<rparr>"

text \<open>\<open>recoveryBudgets[c]\<close>, read and written.\<close>

definition budget :: "budget_class \<Rightarrow> zone_recovery \<Rightarrow> budget_state" where
  "budget c s = (case c of ColdStart \<Rightarrow> zr_coldStartBudget s | VmRestart \<Rightarrow> zr_restartBudget s)"

definition put_budget :: "budget_class \<Rightarrow> budget_state \<Rightarrow> zone_recovery \<Rightarrow> zone_recovery" where
  "put_budget c b s =
     (case c of ColdStart \<Rightarrow> s\<lparr>zr_coldStartBudget := b\<rparr> | VmRestart \<Rightarrow> s\<lparr>zr_restartBudget := b\<rparr>)"

definition class_or_restart :: "budget_class option \<Rightarrow> budget_class" where
  "class_or_restart c = (case c of None \<Rightarrow> VmRestart | Some c \<Rightarrow> c)"

definition recoveryBudgetClassForEvent :: "lifecycle_event \<Rightarrow> budget_class" where
  "recoveryBudgetClassForEvent e = class_or_restart (le_recoveryBudgetClass e)"

definition isHealthyObservation :: "observation_result \<Rightarrow> bool" where
  "isHealthyObservation r \<longleftrightarrow> r = ObservedOk"

definition isDegradedObservation :: "observation_result \<Rightarrow> bool" where
  "isDegradedObservation r \<longleftrightarrow> r = ObservedFailed \<or> r = ObservedStale \<or> r = ObservedTimeout"

definition isWithinCooldown :: "budget_state \<Rightarrow> recovery_policy \<Rightarrow> millis \<Rightarrow> bool" where
  "isWithinCooldown b p t \<longleftrightarrow>
     (case bs_lastRecoveryAttemptAtMs b of None \<Rightarrow> False | Some attempt \<Rightarrow> t - attempt < rp_cooldownMs p)"

definition hasActiveRecoverySuspension :: "budget_state \<Rightarrow> recovery_policy \<Rightarrow> millis \<Rightarrow> bool" where
  "hasActiveRecoverySuspension b p t \<longleftrightarrow>
     bs_consecutiveFailedRecoveries b \<ge> rp_maxConsecutiveFailedRecoveries p \<and>
     (case bs_lastRecoveryAttemptAtMs b of None \<Rightarrow> False
      | Some attempt \<Rightarrow> t - attempt < rp_failedRecoveryResetMs p)"

definition resetFailedRecoveriesIfSuspensionExpired :: "budget_state \<Rightarrow> recovery_policy \<Rightarrow> millis
    \<Rightarrow> budget_state" where
  "resetFailedRecoveriesIfSuspensionExpired b p t =
     (if bs_consecutiveFailedRecoveries b \<ge> rp_maxConsecutiveFailedRecoveries p \<and>
         (case bs_lastRecoveryAttemptAtMs b of None \<Rightarrow> False
          | Some attempt \<Rightarrow> t - attempt \<ge> rp_failedRecoveryResetMs p)
      then b\<lparr>bs_consecutiveFailedRecoveries := 0, bs_operatorEscalationEmitted := False\<rparr> else b)"

definition channelProviderCounterKey :: "recovery_observation \<Rightarrow> string" where
  "channelProviderCounterKey ob =
     (case ro_channelProviderId ob of None \<Rightarrow> ''(unknown-channel-provider)'' | Some i \<Rightarrow> i)"

definition gatewayRecoverySourceKey :: "source_key \<Rightarrow> string" where
  "gatewayRecoverySourceKey k =
     sk_domain k @ [CHR 0x00] @ sk_zoneId k @ [CHR 0x00] @ sk_gatewayVmId k @ [CHR 0x00] @
     sk_bootId k @ [CHR 0x00] @ sk_generationId k"

definition recordGatewayRecoverySource :: "source_key \<Rightarrow> zone_recovery \<Rightarrow> zone_recovery" where
  "recordGatewayRecoverySource k s =
     (let key = gatewayRecoverySourceKey k;
          s1 = (if zr_sourceKey s \<noteq> None \<and> zr_sourceKey s \<noteq> Some key
                then s\<lparr>zr_controlSessionConsecutiveFailures := 0, zr_controlSessionRecoveryDue := False,
                       zr_controlSessionRecoveryDueAtMs := None\<rparr>
                else s);
          s2 = s1\<lparr>zr_sourceKey := Some key\<rparr>
      in case zr_stabilizing s2 of
           Some r \<Rightarrow>
             if sr_boundSourceKey r = None
             then s2\<lparr>zr_stabilizing := Some (r\<lparr>sr_boundSourceKey := Some key\<rparr>)\<rparr> else s2
         | None \<Rightarrow> s2)"

definition maybeFinishGatewayRecoveryStabilization :: "recovery_policy \<Rightarrow> millis \<Rightarrow> zone_recovery
    \<Rightarrow> zone_recovery" where
  "maybeFinishGatewayRecoveryStabilization p t s =
     (case zr_stabilizing s of
        None \<Rightarrow> s
      | Some r \<Rightarrow>
          if sr_boundSourceKey r = None \<or>
             sr_controlSessionHealthyObservations r < stability_observations \<or>
             sr_serviceHealthyObservations r < stability_observations \<or>
             t - sr_startedAtMs r < rp_restartTimeoutMs p
          then s
          else (put_budget (sr_recoveryBudgetClass r)
                  ((budget (sr_recoveryBudgetClass r) s)
                    \<lparr>bs_consecutiveFailedRecoveries := 0, bs_lastRecoveryAttemptAtMs := Some t,
                     bs_operatorEscalationEmitted := False\<rparr>) s)\<lparr>zr_stabilizing := None\<rparr>)"

definition gatewayRecoveryCorroborationWindowMs :: "recovery_policy \<Rightarrow> millis" where
  "gatewayRecoveryCorroborationWindowMs p = max (rp_restartTimeoutMs p) 1"

definition observationIsFreshInWindow :: "millis \<Rightarrow> millis option \<Rightarrow> millis \<Rightarrow> bool" where
  "observationIsFreshInWindow t previous window \<longleftrightarrow>
     (case previous of None \<Rightarrow> False | Some u \<Rightarrow> t \<ge> u \<and> t - u \<le> window)"

section \<open>Decisions\<close>

definition decideRecovery :: "int \<Rightarrow> millis \<Rightarrow> recovery_policy \<Rightarrow> recovery_reason \<Rightarrow> budget_class
    \<Rightarrow> string \<Rightarrow> zone_recovery \<Rightarrow> recovery_decision \<times> zone_recovery" where
  "decideRecovery n t p reason c zone s =
     (if \<not> rp_enabled p then (NoRecovery n (Some RecoveryDisabled), s)
      else if zr_recoveryInFlight s then (NoRecovery n (Some RecoveryInFlight), s)
      else if zr_stabilizing s \<noteq> None then (NoRecovery n (Some Stabilizing), s)
      else if n < rp_consecutiveFailureThreshold p then (NoRecovery n None, s)
      else if isWithinCooldown (budget c s) p t then (NoRecovery n (Some CooldownActive), s)
      else
        (let b = resetFailedRecoveriesIfSuspensionExpired (budget c s) p t
         in if hasActiveRecoverySuspension b p t
            then (RecoverySuspended (bs_consecutiveFailedRecoveries b) n
                    (\<not> bs_operatorEscalationEmitted b) zone,
                  put_budget c (b\<lparr>bs_operatorEscalationEmitted := True\<rparr>) s)
            else (RestartGateway n reason zone, put_budget c b s)))"

definition decideCorroboratedGatewayRecovery :: "millis \<Rightarrow> recovery_policy \<Rightarrow> budget_class \<Rightarrow> string
    \<Rightarrow> zone_recovery \<Rightarrow> recovery_decision \<times> zone_recovery" where
  "decideCorroboratedGatewayRecovery t p c zone s =
     (let n = max (zr_controlSessionConsecutiveFailures s) (zr_serviceConsecutiveFailures s);
          window = gatewayRecoveryCorroborationWindowMs p
      in if \<not> rp_enabled p then (NoRecovery n (Some RecoveryDisabled), s)
         else if c = ColdStart
         then (if zr_serviceConsecutiveFailures s < rp_consecutiveFailureThreshold p
               then (NoRecovery (zr_serviceConsecutiveFailures s) (Some NeedsCorroboration), s)
               else decideRecovery (zr_serviceConsecutiveFailures s) t p ServiceUnhealthy c zone s)
         else if zr_sourceKey s = None then (NoRecovery n (Some MissingSourceKey), s)
         else if \<not> (zr_controlSessionRecoveryDue s \<and>
                    observationIsFreshInWindow t (zr_controlSessionRecoveryDueAtMs s) window)
         then (NoRecovery n (Some NeedsCorroboration), s)
         else if zr_serviceConsecutiveFailures s < rp_consecutiveFailureThreshold p \<or>
                 \<not> observationIsFreshInWindow t (zr_serviceLastFailureAtMs s) window
         then (NoRecovery n (Some NeedsCorroboration), s)
         else decideRecovery n t p ControlSessionUnhealthy c zone s)"

section \<open>The operations, on the state of their zone\<close>

definition recovery_finished :: "lifecycle_event \<Rightarrow> zone_recovery \<Rightarrow> zone_recovery" where
  "recovery_finished e s =
     (let s1 = s\<lparr>zr_recoveryInFlight := False\<rparr>; c = recoveryBudgetClassForEvent e
      in case le_result e of
           Some OutcomeOk \<Rightarrow>
             s1\<lparr>zr_stabilizing := Some
                 \<lparr>sr_boundSourceKey = None, sr_controlSessionHealthyObservations = 0,
                  sr_recoveryBudgetClass = c, sr_serviceHealthyObservations = 0,
                  sr_startedAtMs = le_observedAtMs e\<rparr>\<rparr>
         | Some OutcomeFailed \<Rightarrow>
             put_budget c ((budget c s1)
               \<lparr>bs_consecutiveFailedRecoveries := bs_consecutiveFailedRecoveries (budget c s1) + 1,
                bs_lastRecoveryAttemptAtMs := Some (le_observedAtMs e)\<rparr>) s1
         | None \<Rightarrow> s1)"

definition recovery_started :: "zone_recovery \<Rightarrow> zone_recovery" where
  "recovery_started s = s\<lparr>zr_recoveryInFlight := True\<rparr>"

definition terminal_recovery :: "recovery_policy \<Rightarrow> recovery_observation \<Rightarrow> source_key \<Rightarrow> zone_recovery
    \<Rightarrow> recovery_decision \<times> zone_recovery" where
  "terminal_recovery p ob k s =
     decideRecovery (rp_consecutiveFailureThreshold p) (ro_observedAtMs ob) p ServiceUnhealthy
       (class_or_restart (ro_recoveryBudgetClass ob)) (ro_zoneId ob) (recordGatewayRecoverySource k s)"

definition channel_provider_observation :: "recovery_policy \<Rightarrow> recovery_observation \<Rightarrow> zone_recovery
    \<Rightarrow> recovery_decision \<times> zone_recovery" where
  "channel_provider_observation p ob s =
     (let cp = (case rp_channelProviderHealth p of
                  None \<Rightarrow> defaultGatewayVmChannelProviderRecoveryPolicy | Some cp \<Rightarrow> cp);
          key = channelProviderCounterKey ob;
          current = (case js_get (zr_channelProviderFailuresById s) key of None \<Rightarrow> 0 | Some n \<Rightarrow> n)
      in if ro_result ob = Unobserved then (NoRecovery current (Some NothingObserved), s)
         else if isHealthyObservation (ro_result ob)
         then (NoRecovery 0 None,
               s\<lparr>zr_channelProviderFailuresById := js_set key 0 (zr_channelProviderFailuresById s)\<rparr>)
         else
           (let degraded = isDegradedObservation (ro_result ob);
                n = (if degraded then current + 1 else current);
                s1 = (if degraded
                      then s\<lparr>zr_channelProviderFailuresById :=
                               js_set key n (zr_channelProviderFailuresById s)\<rparr>
                      else s);
                restart = (if ro_channelProviderHealth ob = Some UnhealthyUnrecoverable
                           then cp_restartGatewayOnUnrecoverable cp
                           else cp_restartGatewayOnRecoverable cp)
            in if \<not> restart then (NoRecovery n (Some RecoveryDisabled), s1)
               else decideRecovery n (ro_observedAtMs ob)
                      (p\<lparr>rp_consecutiveFailureThreshold := cp_consecutiveFailureThreshold cp,
                         rp_enabled := rp_enabled p \<and> cp_enabled cp\<rparr>)
                      ChannelProviderUnhealthy (class_or_restart (ro_recoveryBudgetClass ob))
                      (ro_zoneId ob) s1))"

definition record_source_if_any :: "source_key option \<Rightarrow> zone_recovery \<Rightarrow> zone_recovery" where
  "record_source_if_any k s = (case k of None \<Rightarrow> s | Some k \<Rightarrow> recordGatewayRecoverySource k s)"

text \<open>Both detectors count a healthy observation for the recovery that is stabilizing.\<close>

definition count_healthy :: "recovery_policy \<Rightarrow> millis \<Rightarrow> (stabilizing_recovery \<Rightarrow> stabilizing_recovery)
    \<Rightarrow> zone_recovery \<Rightarrow> zone_recovery" where
  "count_healthy p t add s =
     (case zr_stabilizing s of
        None \<Rightarrow> s
      | Some r \<Rightarrow>
          if sr_boundSourceKey r = zr_sourceKey s
          then maybeFinishGatewayRecoveryStabilization p t (s\<lparr>zr_stabilizing := Some (add r)\<rparr>)
          else s)"

definition count_failure :: "zone_recovery \<Rightarrow> zone_recovery" where
  "count_failure s =
     s\<lparr>zr_controlSessionConsecutiveFailures := zr_controlSessionConsecutiveFailures s + 1\<rparr>"

definition control_session_observation :: "recovery_policy \<Rightarrow> recovery_observation \<Rightarrow> zone_recovery
    \<Rightarrow> recovery_decision \<times> zone_recovery" where
  "control_session_observation p ob s =
     (let t = ro_observedAtMs ob
      in if ro_result ob = Unobserved
         then (NoRecovery (zr_controlSessionConsecutiveFailures s) (Some NothingObserved), s)
         else if isHealthyObservation (ro_result ob)
         then (NoRecovery 0 None,
               count_healthy p t
                 (\<lambda>r. r\<lparr>sr_controlSessionHealthyObservations := sr_controlSessionHealthyObservations r + 1\<rparr>)
                 (record_source_if_any (ro_sourceKey ob)
                   (s\<lparr>zr_controlSessionConsecutiveFailures := 0, zr_controlSessionRecoveryDue := False,
                      zr_controlSessionRecoveryDueAtMs := None\<rparr>)))
         else
           (let degraded = isDegradedObservation (ro_result ob);
                s1 = (if degraded
                      then s\<lparr>zr_stabilizing := map_option
                               (\<lambda>r. r\<lparr>sr_controlSessionHealthyObservations := 0\<rparr>) (zr_stabilizing s)\<rparr>
                      else s)
            in if degraded \<and> ro_sourceKey ob = None
               then (NoRecovery (zr_controlSessionConsecutiveFailures s1) (Some MissingSourceKey), s1)
               else
                 (let s2 = (if degraded then count_failure (record_source_if_any (ro_sourceKey ob) s1) else s1)
                  in if ro_controlSessionDeathGrace ob \<noteq> Some GraceRecoveryDue
                     then (NoRecovery (zr_controlSessionConsecutiveFailures s2)
                             (Some (if ro_controlSessionDeathGrace ob = Some GraceWithin
                                    then WithinGrace else NeedsCorroboration)),
                           s2\<lparr>zr_controlSessionRecoveryDue := False,
                              zr_controlSessionRecoveryDueAtMs := None\<rparr>)
                     else decideCorroboratedGatewayRecovery t p
                            (class_or_restart (ro_recoveryBudgetClass ob)) (ro_zoneId ob)
                            (s2\<lparr>zr_controlSessionRecoveryDue := True,
                                zr_controlSessionRecoveryDueAtMs := Some t\<rparr>))))"

definition service_probe :: "recovery_policy \<Rightarrow> recovery_observation \<Rightarrow> zone_recovery
    \<Rightarrow> recovery_decision \<times> zone_recovery" where
  "service_probe p ob s =
     (let t = ro_observedAtMs ob
      in if isHealthyObservation (ro_result ob)
         then (NoRecovery 0 None,
               count_healthy p t
                 (\<lambda>r. r\<lparr>sr_serviceHealthyObservations := sr_serviceHealthyObservations r + 1\<rparr>)
                 (record_source_if_any (ro_sourceKey ob)
                   (s\<lparr>zr_serviceConsecutiveFailures := 0, zr_serviceLastFailureAtMs := None\<rparr>)))
         else decideCorroboratedGatewayRecovery t p (class_or_restart (ro_recoveryBudgetClass ob))
                (ro_zoneId ob)
                (if isDegradedObservation (ro_result ob)
                 then s\<lparr>zr_stabilizing := map_option
                          (\<lambda>r. r\<lparr>sr_serviceHealthyObservations := 0\<rparr>) (zr_stabilizing s),
                        zr_serviceConsecutiveFailures := zr_serviceConsecutiveFailures s + 1,
                        zr_serviceLastFailureAtMs := Some t\<rparr>
                 else s))"

section \<open>The tracker\<close>

type_synonym recovery_tracker = "(string, zone_recovery) js_map"

definition getStateForZone :: "recovery_tracker \<Rightarrow> string \<Rightarrow> zone_recovery" where
  "getStateForZone tr zone =
     (case js_get tr zone of None \<Rightarrow> createInitialGatewayVmRecoveryTrackerState | Some s \<Rightarrow> s)"

definition in_zone :: "string \<Rightarrow> (zone_recovery \<Rightarrow> 'a \<times> zone_recovery) \<Rightarrow> recovery_tracker
    \<Rightarrow> 'a \<times> recovery_tracker" where
  "in_zone zone f tr = (let (d, s) = f (getStateForZone tr zone) in (d, js_set zone s tr))"

definition markRecoveryFinished :: "lifecycle_event \<Rightarrow> recovery_tracker \<Rightarrow> recovery_tracker" where
  "markRecoveryFinished e tr = snd (in_zone (le_zoneId e) (\<lambda>s. ((), recovery_finished e s)) tr)"

definition markRecoveryStarted :: "lifecycle_event \<Rightarrow> recovery_tracker \<Rightarrow> recovery_tracker" where
  "markRecoveryStarted e tr = snd (in_zone (le_zoneId e) (\<lambda>s. ((), recovery_started s)) tr)"

definition requestTerminalGatewayRecovery :: "recovery_policy \<Rightarrow> recovery_observation \<Rightarrow> source_key
    \<Rightarrow> recovery_tracker \<Rightarrow> recovery_decision \<times> recovery_tracker" where
  "requestTerminalGatewayRecovery p ob k tr = in_zone (ro_zoneId ob) (terminal_recovery p ob k) tr"

definition recordGatewaySourceChange :: "source_key \<Rightarrow> string \<Rightarrow> recovery_tracker \<Rightarrow> recovery_tracker" where
  "recordGatewaySourceChange k zone tr =
     snd (in_zone zone (\<lambda>s. ((), recordGatewayRecoverySource k s)) tr)"

definition recordAgentChannelProviderObservation :: "recovery_policy \<Rightarrow> recovery_observation
    \<Rightarrow> recovery_tracker \<Rightarrow> recovery_decision \<times> recovery_tracker" where
  "recordAgentChannelProviderObservation p ob tr =
     in_zone (ro_zoneId ob) (channel_provider_observation p ob) tr"

definition recordGatewayControlSessionObservation :: "recovery_policy \<Rightarrow> recovery_observation
    \<Rightarrow> recovery_tracker \<Rightarrow> recovery_decision \<times> recovery_tracker" where
  "recordGatewayControlSessionObservation p ob tr =
     in_zone (ro_zoneId ob) (control_session_observation p ob) tr"

definition recordGatewayServiceProbe :: "recovery_policy \<Rightarrow> recovery_observation
    \<Rightarrow> recovery_tracker \<Rightarrow> recovery_decision \<times> recovery_tracker" where
  "recordGatewayServiceProbe p ob tr = in_zone (ro_zoneId ob) (service_probe p ob) tr"

end
