(* ===== verification/RecoveryRuns.thy ===== *)
theory RecoveryRuns
  imports RecoveryPolicy
begin

text \<open>
  Runs of the recovery tracker: the calls the health monitor makes as commands, the decisions
  they return, what each operation leaves alone, and the invariant of the zone states.
\<close>

section \<open>Commands\<close>

datatype recovery_command =
  Finished lifecycle_event
| Started lifecycle_event
| Terminal recovery_observation source_key
| SourceChange source_key string
| ChannelProvider recovery_observation
| ControlSession recovery_observation
| ServiceProbe recovery_observation

fun command_zone :: "recovery_command \<Rightarrow> string" where
  "command_zone (Finished e) = le_zoneId e"
| "command_zone (Started e) = le_zoneId e"
| "command_zone (Terminal ob k) = ro_zoneId ob"
| "command_zone (SourceChange k zone) = zone"
| "command_zone (ChannelProvider ob) = ro_zoneId ob"
| "command_zone (ControlSession ob) = ro_zoneId ob"
| "command_zone (ServiceProbe ob) = ro_zoneId ob"

definition silent :: "'s \<Rightarrow> recovery_decision option \<times> 's" where
  "silent s = (None, s)"

definition deciding :: "recovery_decision \<times> 's \<Rightarrow> recovery_decision option \<times> 's" where
  "deciding x = (case x of (d, s) \<Rightarrow> (Some d, s))"

lemma silent_simps [simp]: "fst (silent s) = None" "snd (silent s) = s"
  by (simp_all add: silent_def)

lemma deciding_simps [simp]: "fst (deciding x) = Some (fst x)" "snd (deciding x) = snd x"
  by (simp_all add: deciding_def case_prod_unfold)

fun zone_step :: "recovery_policy \<Rightarrow> recovery_command \<Rightarrow> zone_recovery
    \<Rightarrow> recovery_decision option \<times> zone_recovery" where
  "zone_step p (Finished e) s = silent (recovery_finished e s)"
| "zone_step p (Started e) s = silent (recovery_started s)"
| "zone_step p (Terminal ob k) s = deciding (terminal_recovery p ob k s)"
| "zone_step p (SourceChange k zone) s = silent (recordGatewayRecoverySource k s)"
| "zone_step p (ChannelProvider ob) s = deciding (channel_provider_observation p ob s)"
| "zone_step p (ControlSession ob) s = deciding (control_session_observation p ob s)"
| "zone_step p (ServiceProbe ob) s = deciding (service_probe p ob s)"

fun tracker_step :: "recovery_policy \<Rightarrow> recovery_command \<Rightarrow> recovery_tracker
    \<Rightarrow> recovery_decision option \<times> recovery_tracker" where
  "tracker_step p (Finished e) tr = silent (markRecoveryFinished e tr)"
| "tracker_step p (Started e) tr = silent (markRecoveryStarted e tr)"
| "tracker_step p (Terminal ob k) tr = deciding (requestTerminalGatewayRecovery p ob k tr)"
| "tracker_step p (SourceChange k zone) tr = silent (recordGatewaySourceChange k zone tr)"
| "tracker_step p (ChannelProvider ob) tr = deciding (recordAgentChannelProviderObservation p ob tr)"
| "tracker_step p (ControlSession ob) tr = deciding (recordGatewayControlSessionObservation p ob tr)"
| "tracker_step p (ServiceProbe ob) tr = deciding (recordGatewayServiceProbe p ob tr)"

lemmas tracker_op_defs = markRecoveryFinished_def markRecoveryStarted_def
  requestTerminalGatewayRecovery_def recordGatewaySourceChange_def
  recordAgentChannelProviderObservation_def recordGatewayControlSessionObservation_def
  recordGatewayServiceProbe_def

lemma tracker_step_in_zone: "tracker_step p c tr = in_zone (command_zone c) (zone_step p c) tr"
  by (cases c) (simp_all add: tracker_op_defs in_zone_def silent_def deciding_def case_prod_unfold Let_def)

lemma fst_tracker_step: "fst (tracker_step p c tr) = fst (zone_step p c (getStateForZone tr (command_zone c)))"
  by (simp add: tracker_step_in_zone in_zone_def case_prod_unfold Let_def)

lemma getStateForZone_set: "getStateForZone (js_set z s tr) z' = (if z' = z then s else getStateForZone tr z')"
  by (simp add: getStateForZone_def js_get_set)

lemma zone_after_step:
  "getStateForZone (snd (tracker_step p c tr)) z =
     (if command_zone c = z then snd (zone_step p c (getStateForZone tr z)) else getStateForZone tr z)"
  by (auto simp: tracker_step_in_zone in_zone_def case_prod_unfold getStateForZone_set Let_def)

text \<open>A run returns the decisions in order, each with its command.\<close>

type_synonym decision_log = "(recovery_command \<times> recovery_decision option) list"

fun zone_run :: "recovery_policy \<Rightarrow> recovery_command list \<Rightarrow> zone_recovery \<Rightarrow> decision_log \<times> zone_recovery" where
  "zone_run p [] s = ([], s)"
| "zone_run p (c # cs) s =
     (let (d, s1) = zone_step p c s; (ds, s2) = zone_run p cs s1 in ((c, d) # ds, s2))"

fun tracker_run :: "recovery_policy \<Rightarrow> recovery_command list \<Rightarrow> recovery_tracker
    \<Rightarrow> decision_log \<times> recovery_tracker" where
  "tracker_run p [] tr = ([], tr)"
| "tracker_run p (c # cs) tr =
     (let (d, tr1) = tracker_step p c tr; (ds, tr2) = tracker_run p cs tr1 in ((c, d) # ds, tr2))"

lemma zone_run_Cons:
  "fst (zone_run p (c # cs) s) = (c, fst (zone_step p c s)) # fst (zone_run p cs (snd (zone_step p c s)))"
  "snd (zone_run p (c # cs) s) = snd (zone_run p cs (snd (zone_step p c s)))"
  by (simp_all add: case_prod_unfold Let_def)

lemma tracker_run_Cons:
  "fst (tracker_run p (c # cs) tr) =
     (c, fst (tracker_step p c tr)) # fst (tracker_run p cs (snd (tracker_step p c tr)))"
  "snd (tracker_run p (c # cs) tr) = snd (tracker_run p cs (snd (tracker_step p c tr)))"
  by (simp_all add: case_prod_unfold Let_def)

definition of_zone :: "string \<Rightarrow> decision_log \<Rightarrow> decision_log" where
  "of_zone z = filter (\<lambda>(c, d). command_zone c = z)"

lemma tracker_run_projects:
  "of_zone z (fst (tracker_run p cs tr)) =
     fst (zone_run p (filter (\<lambda>c. command_zone c = z) cs) (getStateForZone tr z)) \<and>
   getStateForZone (snd (tracker_run p cs tr)) z =
     snd (zone_run p (filter (\<lambda>c. command_zone c = z) cs) (getStateForZone tr z))"
proof (induction cs arbitrary: tr)
  case Nil
  show ?case by (simp add: of_zone_def)
next
  case (Cons c cs)
  show ?case
    using Cons.IH [of "snd (tracker_step p c tr)"]
    by (simp add: tracker_run_Cons zone_run_Cons zone_after_step of_zone_def fst_tracker_step
             del: tracker_run.simps zone_run.simps)
qed

section \<open>What the operations leave alone\<close>

lemma budget_put [simp]: "budget c (put_budget c' b s) = (if c = c' then b else budget c s)"
  by (cases c; cases c') (simp_all add: budget_def put_budget_def)

lemma put_budget_frame [simp]:
  "zr_channelProviderFailuresById (put_budget c b s) = zr_channelProviderFailuresById s"
  "zr_controlSessionConsecutiveFailures (put_budget c b s) = zr_controlSessionConsecutiveFailures s"
  "zr_controlSessionRecoveryDueAtMs (put_budget c b s) = zr_controlSessionRecoveryDueAtMs s"
  "zr_controlSessionRecoveryDue (put_budget c b s) = zr_controlSessionRecoveryDue s"
  "zr_sourceKey (put_budget c b s) = zr_sourceKey s"
  "zr_serviceConsecutiveFailures (put_budget c b s) = zr_serviceConsecutiveFailures s"
  "zr_serviceLastFailureAtMs (put_budget c b s) = zr_serviceLastFailureAtMs s"
  "zr_recoveryInFlight (put_budget c b s) = zr_recoveryInFlight s"
  "zr_stabilizing (put_budget c b s) = zr_stabilizing s"
  by (cases c; simp add: put_budget_def)+

lemma budget_frame [simp]:
  "budget c (s\<lparr>zr_channelProviderFailuresById := a1\<rparr>) = budget c s"
  "budget c (s\<lparr>zr_controlSessionConsecutiveFailures := a2\<rparr>) = budget c s"
  "budget c (s\<lparr>zr_controlSessionRecoveryDueAtMs := a3\<rparr>) = budget c s"
  "budget c (s\<lparr>zr_controlSessionRecoveryDue := a4\<rparr>) = budget c s"
  "budget c (s\<lparr>zr_sourceKey := a5\<rparr>) = budget c s"
  "budget c (s\<lparr>zr_serviceConsecutiveFailures := a6\<rparr>) = budget c s"
  "budget c (s\<lparr>zr_serviceLastFailureAtMs := a7\<rparr>) = budget c s"
  "budget c (s\<lparr>zr_recoveryInFlight := a8\<rparr>) = budget c s"
  "budget c (s\<lparr>zr_stabilizing := a9\<rparr>) = budget c s"
  by (cases c; simp add: budget_def)+

definition same_evidence :: "zone_recovery \<Rightarrow> zone_recovery \<Rightarrow> bool" where
  "same_evidence s s' \<longleftrightarrow>
     zr_channelProviderFailuresById s' = zr_channelProviderFailuresById s \<and>
     zr_controlSessionConsecutiveFailures s' = zr_controlSessionConsecutiveFailures s \<and>
     zr_controlSessionRecoveryDueAtMs s' = zr_controlSessionRecoveryDueAtMs s \<and>
     zr_controlSessionRecoveryDue s' = zr_controlSessionRecoveryDue s \<and>
     zr_sourceKey s' = zr_sourceKey s \<and>
     zr_serviceConsecutiveFailures s' = zr_serviceConsecutiveFailures s \<and>
     zr_serviceLastFailureAtMs s' = zr_serviceLastFailureAtMs s \<and>
     zr_recoveryInFlight s' = zr_recoveryInFlight s \<and>
     zr_stabilizing s' = zr_stabilizing s"

lemma decideRecovery_frame: "same_evidence s (snd (decideRecovery n t p r c z s))"
  by (simp add: decideRecovery_def same_evidence_def Let_def)

lemma decideCorroborated_frame: "same_evidence s (snd (decideCorroboratedGatewayRecovery t p c z s))"
  using decideRecovery_frame by (simp add: decideCorroboratedGatewayRecovery_def same_evidence_def Let_def)

text \<open>
  What a decision does to a budget: nothing, or, when the gate lets the request through to it,
  the reset of an expired suspension and the mark of an escalation.
\<close>

lemma decideRecovery_budget:
  "budget c' (snd (decideRecovery n t p r c z s)) = budget c' s \<or>
   c' = c \<and> (let b = resetFailedRecoveriesIfSuspensionExpired (budget c s) p t
     in budget c' (snd (decideRecovery n t p r c z s)) =
          (if hasActiveRecoverySuspension b p t then b\<lparr>bs_operatorEscalationEmitted := True\<rparr> else b))"
  by (simp add: decideRecovery_def Let_def)

lemma recordSource_frame [simp]:
  "budget c (recordGatewayRecoverySource k s) = budget c s"
  "zr_channelProviderFailuresById (recordGatewayRecoverySource k s) = zr_channelProviderFailuresById s"
  "zr_serviceConsecutiveFailures (recordGatewayRecoverySource k s) = zr_serviceConsecutiveFailures s"
  "zr_serviceLastFailureAtMs (recordGatewayRecoverySource k s) = zr_serviceLastFailureAtMs s"
  "zr_recoveryInFlight (recordGatewayRecoverySource k s) = zr_recoveryInFlight s"
  "zr_sourceKey (recordGatewayRecoverySource k s) = Some (gatewayRecoverySourceKey k)"
  "zr_stabilizing (recordGatewayRecoverySource k s) = map_option
     (\<lambda>r. if sr_boundSourceKey r = None then r\<lparr>sr_boundSourceKey := Some (gatewayRecoverySourceKey k)\<rparr> else r)
     (zr_stabilizing s)"
  by (simp_all add: recordGatewayRecoverySource_def Let_def split: option.split)

lemma recordSource_due:
  "zr_controlSessionRecoveryDue (recordGatewayRecoverySource k s) =
     ((zr_sourceKey s = None \<or> zr_sourceKey s = Some (gatewayRecoverySourceKey k)) \<and>
      zr_controlSessionRecoveryDue s)"
  "zr_controlSessionRecoveryDueAtMs (recordGatewayRecoverySource k s) =
     (if zr_sourceKey s = None \<or> zr_sourceKey s = Some (gatewayRecoverySourceKey k)
      then zr_controlSessionRecoveryDueAtMs s else None)"
  "zr_controlSessionConsecutiveFailures (recordGatewayRecoverySource k s) =
     (if zr_sourceKey s = None \<or> zr_sourceKey s = Some (gatewayRecoverySourceKey k)
      then zr_controlSessionConsecutiveFailures s else 0)"
  by (auto simp: recordGatewayRecoverySource_def Let_def split: option.split)

lemma record_source_if_any_frame [simp]:
  "budget c (record_source_if_any k s) = budget c s"
  "zr_serviceConsecutiveFailures (record_source_if_any k s) = zr_serviceConsecutiveFailures s"
  "zr_serviceLastFailureAtMs (record_source_if_any k s) = zr_serviceLastFailureAtMs s"
  "zr_recoveryInFlight (record_source_if_any k s) = zr_recoveryInFlight s"
  "zr_stabilizing (record_source_if_any k s) = None \<longleftrightarrow> zr_stabilizing s = None"
  by (simp_all add: record_source_if_any_def split: option.split)

lemma count_failure_frame [simp]:
  "budget c (count_failure s) = budget c s"
  "zr_channelProviderFailuresById (count_failure s) = zr_channelProviderFailuresById s"
  "zr_controlSessionRecoveryDueAtMs (count_failure s) = zr_controlSessionRecoveryDueAtMs s"
  "zr_controlSessionRecoveryDue (count_failure s) = zr_controlSessionRecoveryDue s"
  "zr_sourceKey (count_failure s) = zr_sourceKey s"
  "zr_serviceConsecutiveFailures (count_failure s) = zr_serviceConsecutiveFailures s"
  "zr_serviceLastFailureAtMs (count_failure s) = zr_serviceLastFailureAtMs s"
  "zr_recoveryInFlight (count_failure s) = zr_recoveryInFlight s"
  "zr_stabilizing (count_failure s) = zr_stabilizing s"
  "zr_controlSessionConsecutiveFailures (count_failure s) = zr_controlSessionConsecutiveFailures s + 1"
  by (simp_all add: count_failure_def)

lemma maybeFinish_frame [simp]:
  "zr_channelProviderFailuresById (maybeFinishGatewayRecoveryStabilization p t s) = zr_channelProviderFailuresById s"
  "zr_controlSessionConsecutiveFailures (maybeFinishGatewayRecoveryStabilization p t s) = zr_controlSessionConsecutiveFailures s"
  "zr_controlSessionRecoveryDueAtMs (maybeFinishGatewayRecoveryStabilization p t s) = zr_controlSessionRecoveryDueAtMs s"
  "zr_controlSessionRecoveryDue (maybeFinishGatewayRecoveryStabilization p t s) = zr_controlSessionRecoveryDue s"
  "zr_sourceKey (maybeFinishGatewayRecoveryStabilization p t s) = zr_sourceKey s"
  "zr_serviceConsecutiveFailures (maybeFinishGatewayRecoveryStabilization p t s) = zr_serviceConsecutiveFailures s"
  "zr_serviceLastFailureAtMs (maybeFinishGatewayRecoveryStabilization p t s) = zr_serviceLastFailureAtMs s"
  "zr_recoveryInFlight (maybeFinishGatewayRecoveryStabilization p t s) = zr_recoveryInFlight s"
  by (simp_all add: maybeFinishGatewayRecoveryStabilization_def split: option.split)

lemma count_healthy_frame [simp]:
  "zr_channelProviderFailuresById (count_healthy p t f s) = zr_channelProviderFailuresById s"
  "zr_controlSessionConsecutiveFailures (count_healthy p t f s) = zr_controlSessionConsecutiveFailures s"
  "zr_controlSessionRecoveryDueAtMs (count_healthy p t f s) = zr_controlSessionRecoveryDueAtMs s"
  "zr_controlSessionRecoveryDue (count_healthy p t f s) = zr_controlSessionRecoveryDue s"
  "zr_sourceKey (count_healthy p t f s) = zr_sourceKey s"
  "zr_serviceConsecutiveFailures (count_healthy p t f s) = zr_serviceConsecutiveFailures s"
  "zr_serviceLastFailureAtMs (count_healthy p t f s) = zr_serviceLastFailureAtMs s"
  "zr_recoveryInFlight (count_healthy p t f s) = zr_recoveryInFlight s"
  by (simp_all add: count_healthy_def split: option.split)

section \<open>When a restart is decided\<close>

fun command_observation :: "recovery_command \<Rightarrow> recovery_observation option" where
  "command_observation (Terminal ob k) = Some ob"
| "command_observation (ChannelProvider ob) = Some ob"
| "command_observation (ControlSession ob) = Some ob"
| "command_observation (ServiceProbe ob) = Some ob"
| "command_observation _ = None"

definition observed_class :: "recovery_observation \<Rightarrow> budget_class" where
  "observed_class ob = class_or_restart (ro_recoveryBudgetClass ob)"

definition channel_policy_of :: "recovery_policy \<Rightarrow> channel_policy" where
  "channel_policy_of p = (case rp_channelProviderHealth p of
     None \<Rightarrow> defaultGatewayVmChannelProviderRecoveryPolicy | Some cp \<Rightarrow> cp)"

definition channel_failures :: "recovery_observation \<Rightarrow> zone_recovery \<Rightarrow> int" where
  "channel_failures ob s =
     (case js_get (zr_channelProviderFailuresById s) (channelProviderCounterKey ob) of
        None \<Rightarrow> 0 | Some n \<Rightarrow> n)"

text \<open>The gate every automatic restart passes: the policy, the zone and the budget allow it.\<close>

definition restart_permitted :: "recovery_policy \<Rightarrow> millis \<Rightarrow> budget_class \<Rightarrow> zone_recovery \<Rightarrow> bool" where
  "restart_permitted p t c s \<longleftrightarrow>
     rp_enabled p \<and> \<not> zr_recoveryInFlight s \<and> zr_stabilizing s = None \<and>
     (case bs_lastRecoveryAttemptAtMs (budget c s) of
        None \<Rightarrow> True
      | Some u \<Rightarrow> t - u \<ge> rp_cooldownMs p \<and>
          (bs_consecutiveFailedRecoveries (budget c s) < rp_maxConsecutiveFailedRecoveries p \<or>
           t - u \<ge> rp_failedRecoveryResetMs p))"

definition service_failures_after :: "recovery_observation \<Rightarrow> zone_recovery \<Rightarrow> int" where
  "service_failures_after ob s =
     zr_serviceConsecutiveFailures s + (if isDegradedObservation (ro_result ob) then 1 else 0)"

definition service_last_failure_after :: "recovery_observation \<Rightarrow> zone_recovery \<Rightarrow> millis option" where
  "service_last_failure_after ob s =
     (if isDegradedObservation (ro_result ob) then Some (ro_observedAtMs ob) else zr_serviceLastFailureAtMs s)"

definition control_failures_after :: "recovery_observation \<Rightarrow> zone_recovery \<Rightarrow> int" where
  "control_failures_after ob s =
     (if zr_sourceKey s = None \<or> zr_sourceKey s = map_option gatewayRecoverySourceKey (ro_sourceKey ob)
      then zr_controlSessionConsecutiveFailures s else 0) + 1"

text \<open>The evidence each detector needs, with the observation itself counted.\<close>

fun restart_evidence :: "recovery_policy \<Rightarrow> recovery_command \<Rightarrow> zone_recovery \<Rightarrow> bool" where
  "restart_evidence p (Terminal ob k) s \<longleftrightarrow> True"
| "restart_evidence p (ChannelProvider ob) s \<longleftrightarrow>
     isDegradedObservation (ro_result ob) \<and> cp_enabled (channel_policy_of p) \<and>
     (if ro_channelProviderHealth ob = Some UnhealthyUnrecoverable
      then cp_restartGatewayOnUnrecoverable (channel_policy_of p)
      else cp_restartGatewayOnRecoverable (channel_policy_of p)) \<and>
     channel_failures ob s + 1 \<ge> cp_consecutiveFailureThreshold (channel_policy_of p)"
| "restart_evidence p (ControlSession ob) s \<longleftrightarrow>
     isDegradedObservation (ro_result ob) \<and> ro_sourceKey ob \<noteq> None \<and>
     ro_controlSessionDeathGrace ob = Some GraceRecoveryDue \<and>
     zr_serviceConsecutiveFailures s \<ge> rp_consecutiveFailureThreshold p \<and>
     (observed_class ob = VmRestart \<longrightarrow>
        observationIsFreshInWindow (ro_observedAtMs ob) (zr_serviceLastFailureAtMs s)
          (gatewayRecoveryCorroborationWindowMs p))"
| "restart_evidence p (ServiceProbe ob) s \<longleftrightarrow>
     \<not> isHealthyObservation (ro_result ob) \<and>
     service_failures_after ob s \<ge> rp_consecutiveFailureThreshold p \<and>
     (observed_class ob = VmRestart \<longrightarrow>
        zr_sourceKey s \<noteq> None \<and> zr_controlSessionRecoveryDue s \<and>
        observationIsFreshInWindow (ro_observedAtMs ob) (zr_controlSessionRecoveryDueAtMs s)
          (gatewayRecoveryCorroborationWindowMs p) \<and>
        observationIsFreshInWindow (ro_observedAtMs ob) (service_last_failure_after ob s)
          (gatewayRecoveryCorroborationWindowMs p))"
| "restart_evidence p _ s \<longleftrightarrow> False"

fun restart_reason :: "recovery_command \<Rightarrow> recovery_reason" where
  "restart_reason (ChannelProvider ob) = ChannelProviderUnhealthy"
| "restart_reason (ControlSession ob) =
     (if observed_class ob = ColdStart then ServiceUnhealthy else ControlSessionUnhealthy)"
| "restart_reason (ServiceProbe ob) =
     (if observed_class ob = ColdStart then ServiceUnhealthy else ControlSessionUnhealthy)"
| "restart_reason _ = ServiceUnhealthy"

fun restart_failures :: "recovery_policy \<Rightarrow> recovery_command \<Rightarrow> zone_recovery \<Rightarrow> int" where
  "restart_failures p (ChannelProvider ob) s = channel_failures ob s + 1"
| "restart_failures p (ControlSession ob) s =
     (if observed_class ob = ColdStart then zr_serviceConsecutiveFailures s
      else max (control_failures_after ob s) (zr_serviceConsecutiveFailures s))"
| "restart_failures p (ServiceProbe ob) s =
     (if observed_class ob = ColdStart then service_failures_after ob s
      else max (zr_controlSessionConsecutiveFailures s) (service_failures_after ob s))"
| "restart_failures p _ s = rp_consecutiveFailureThreshold p"

lemma restart_permitted_policy [simp]:
  "restart_permitted (p\<lparr>rp_consecutiveFailureThreshold := n, rp_enabled := rp_enabled p \<and> b\<rparr>) t c s =
     (b \<and> restart_permitted p t c s)"
  by (auto simp: restart_permitted_def split: option.split)

lemma decideRecovery_restart_iff:
  "fst (decideRecovery n t p r c z s) = RestartGateway n' r' z' \<longleftrightarrow>
     n' = n \<and> r' = r \<and> z' = z \<and> n \<ge> rp_consecutiveFailureThreshold p \<and> restart_permitted p t c s"
  by (cases "bs_lastRecoveryAttemptAtMs (budget c s)")
    (auto simp: decideRecovery_def Let_def restart_permitted_def isWithinCooldown_def
      hasActiveRecoverySuspension_def resetFailedRecoveriesIfSuspensionExpired_def)

lemma window_positive: "0 \<le> gatewayRecoveryCorroborationWindowMs p"
  by (simp add: gatewayRecoveryCorroborationWindowMs_def)

lemma decideCorroborated_restart_iff:
  "fst (decideCorroboratedGatewayRecovery t p c z s) = RestartGateway n' r' z' \<longleftrightarrow>
     z' = z \<and> restart_permitted p t c s \<and>
     zr_serviceConsecutiveFailures s \<ge> rp_consecutiveFailureThreshold p \<and>
     (if c = ColdStart then r' = ServiceUnhealthy \<and> n' = zr_serviceConsecutiveFailures s
      else r' = ControlSessionUnhealthy \<and>
        n' = max (zr_controlSessionConsecutiveFailures s) (zr_serviceConsecutiveFailures s) \<and>
        zr_sourceKey s \<noteq> None \<and> zr_controlSessionRecoveryDue s \<and>
        observationIsFreshInWindow t (zr_controlSessionRecoveryDueAtMs s)
          (gatewayRecoveryCorroborationWindowMs p) \<and>
        observationIsFreshInWindow t (zr_serviceLastFailureAtMs s)
          (gatewayRecoveryCorroborationWindowMs p))"
proof -
  have enabled: "\<not> rp_enabled p \<Longrightarrow> \<not> restart_permitted p t c s"
    by (simp add: restart_permitted_def)
  show ?thesis
    using enabled
    by (auto simp: decideCorroboratedGatewayRecovery_def Let_def decideRecovery_restart_iff)
qed

lemma restart_permitted_cong:
  "budget c s' = budget c s \<Longrightarrow> zr_recoveryInFlight s' = zr_recoveryInFlight s \<Longrightarrow>
   (zr_stabilizing s' = None \<longleftrightarrow> zr_stabilizing s = None) \<Longrightarrow>
   restart_permitted p t c s' = restart_permitted p t c s"
  by (cases "bs_lastRecoveryAttemptAtMs (budget c s)") (simp_all add: restart_permitted_def)

lemma degraded_not_healthy: "isDegradedObservation r \<Longrightarrow> r \<noteq> ObservedOk \<and> r \<noteq> Unobserved"
  by (auto simp: isDegradedObservation_def)

lemma observation_cases:
  obtains "r = Unobserved" | "r = ObservedOk" | "isDegradedObservation r"
  by (cases r) (auto simp: isDegradedObservation_def)

lemma terminal_restart_iff:
  "fst (terminal_recovery p ob k s) = RestartGateway n r z \<longleftrightarrow>
     n = rp_consecutiveFailureThreshold p \<and> r = ServiceUnhealthy \<and> z = ro_zoneId ob \<and>
     restart_permitted p (ro_observedAtMs ob) (observed_class ob) s"
  by (auto simp: terminal_recovery_def decideRecovery_restart_iff observed_class_def
      restart_permitted_cong [of _ "recordGatewayRecoverySource k s" s])

lemma channel_restart_iff:
  "fst (channel_provider_observation p ob s) = RestartGateway n r z \<longleftrightarrow>
     n = channel_failures ob s + 1 \<and> r = ChannelProviderUnhealthy \<and> z = ro_zoneId ob \<and>
     restart_evidence p (ChannelProvider ob) s \<and>
     restart_permitted p (ro_observedAtMs ob) (observed_class ob) s"
proof (cases "ro_result ob" rule: observation_cases)
  case 3
  note facts = degraded_not_healthy [OF 3]
  show ?thesis
    using 3 facts
    by (auto simp: channel_provider_observation_def Let_def isHealthyObservation_def
        decideRecovery_restart_iff channel_policy_of_def channel_failures_def observed_class_def
        restart_permitted_cong [of _ "s\<lparr>zr_channelProviderFailuresById := x\<rparr>" s for x])
qed (auto simp: channel_provider_observation_def Let_def isHealthyObservation_def isDegradedObservation_def)

lemma control_session_restart_iff:
  "fst (control_session_observation p ob s) = RestartGateway n r z \<longleftrightarrow>
     n = restart_failures p (ControlSession ob) s \<and> r = restart_reason (ControlSession ob) \<and>
     z = ro_zoneId ob \<and> restart_evidence p (ControlSession ob) s \<and>
     restart_permitted p (ro_observedAtMs ob) (observed_class ob) s"
proof (cases "ro_result ob" rule: observation_cases)
  case 3
  note facts = degraded_not_healthy [OF 3]
  show ?thesis
  proof (cases "ro_sourceKey ob = None \<or> ro_controlSessionDeathGrace ob \<noteq> Some GraceRecoveryDue")
    case True
    with 3 facts show ?thesis
      by (auto simp: control_session_observation_def Let_def isHealthyObservation_def)
  next
    case False
    then obtain k where k: "ro_sourceKey ob = Some k" and due: "ro_controlSessionDeathGrace ob = Some GraceRecoveryDue"
      by auto
    define s' where "s' = count_failure (recordGatewayRecoverySource k
      (s\<lparr>zr_stabilizing := map_option (\<lambda>r. r\<lparr>sr_controlSessionHealthyObservations := 0\<rparr>) (zr_stabilizing s)\<rparr>))
      \<lparr>zr_controlSessionRecoveryDue := True, zr_controlSessionRecoveryDueAtMs := Some (ro_observedAtMs ob)\<rparr>"
    have run: "fst (control_session_observation p ob s) =
        fst (decideCorroboratedGatewayRecovery (ro_observedAtMs ob) p (observed_class ob) (ro_zoneId ob) s')"
      using 3 facts k due
      by (simp add: control_session_observation_def Let_def isHealthyObservation_def
          record_source_if_any_def observed_class_def s'_def)
    have gate: "restart_permitted p t c s' = restart_permitted p t c s" for t c
      by (rule restart_permitted_cong) (simp_all add: s'_def)
    have fields: "zr_serviceConsecutiveFailures s' = zr_serviceConsecutiveFailures s"
      "zr_serviceLastFailureAtMs s' = zr_serviceLastFailureAtMs s"
      "zr_sourceKey s' = Some (gatewayRecoverySourceKey k)" "zr_controlSessionRecoveryDue s' = True"
      "zr_controlSessionRecoveryDueAtMs s' = Some (ro_observedAtMs ob)"
      "zr_controlSessionConsecutiveFailures s' = control_failures_after ob s"
      by (simp_all add: s'_def control_failures_after_def recordSource_due k)
    have fresh: "observationIsFreshInWindow t (Some t) (gatewayRecoveryCorroborationWindowMs p)" for t
      using window_positive by (simp add: observationIsFreshInWindow_def)
    show ?thesis
      unfolding run decideCorroborated_restart_iff gate fields
      using 3 k due fresh by (cases "observed_class ob") auto
  qed
qed (auto simp: control_session_observation_def Let_def isHealthyObservation_def isDegradedObservation_def)

lemma service_probe_restart_iff:
  "fst (service_probe p ob s) = RestartGateway n r z \<longleftrightarrow>
     n = restart_failures p (ServiceProbe ob) s \<and> r = restart_reason (ServiceProbe ob) \<and>
     z = ro_zoneId ob \<and> restart_evidence p (ServiceProbe ob) s \<and>
     restart_permitted p (ro_observedAtMs ob) (observed_class ob) s"
proof (cases "isHealthyObservation (ro_result ob)")
  case True
  then show ?thesis by (simp add: service_probe_def Let_def)
next
  case False
  define s' where "s' = (if isDegradedObservation (ro_result ob)
     then s\<lparr>zr_stabilizing := map_option (\<lambda>r. r\<lparr>sr_serviceHealthyObservations := 0\<rparr>) (zr_stabilizing s),
            zr_serviceConsecutiveFailures := zr_serviceConsecutiveFailures s + 1,
            zr_serviceLastFailureAtMs := Some (ro_observedAtMs ob)\<rparr> else s)"
  have run: "fst (service_probe p ob s) =
      fst (decideCorroboratedGatewayRecovery (ro_observedAtMs ob) p (observed_class ob) (ro_zoneId ob) s')"
    using False by (simp add: service_probe_def Let_def observed_class_def s'_def)
  have gate: "restart_permitted p t c s' = restart_permitted p t c s" for t c
    by (rule restart_permitted_cong) (simp_all add: s'_def)
  have fields: "zr_serviceConsecutiveFailures s' = service_failures_after ob s"
    "zr_serviceLastFailureAtMs s' = service_last_failure_after ob s"
    "zr_sourceKey s' = zr_sourceKey s"
    "zr_controlSessionRecoveryDue s' = zr_controlSessionRecoveryDue s"
    "zr_controlSessionRecoveryDueAtMs s' = zr_controlSessionRecoveryDueAtMs s"
    "zr_controlSessionConsecutiveFailures s' = zr_controlSessionConsecutiveFailures s"
    by (simp_all add: s'_def service_failures_after_def service_last_failure_after_def)
  show ?thesis
    unfolding run decideCorroborated_restart_iff gate fields
    using False by (cases "observed_class ob") auto
qed

end
