(* ===== verification/RecoveryInvariant.thy ===== *)
theory RecoveryInvariant
  imports RecoveryRuns
begin

text \<open>
  How the calls of the health monitor change a zone: its budgets, the recovery that is in flight
  or stabilizing, and the invariant every reachable zone state satisfies.
\<close>

section \<open>Restarts, of every command\<close>

lemma zone_restart_iff:
  "fst (zone_step p cmd s) = Some (RestartGateway n r z) \<longleftrightarrow>
     (\<exists>ob. command_observation cmd = Some ob \<and> n = restart_failures p cmd s \<and>
        r = restart_reason cmd \<and> z = command_zone cmd \<and> restart_evidence p cmd s \<and>
        restart_permitted p (ro_observedAtMs ob) (observed_class ob) s)"
  by (cases cmd)
    (auto simp: terminal_restart_iff channel_restart_iff control_session_restart_iff
      service_probe_restart_iff simp del: restart_evidence.simps(2-4) restart_failures.simps(2,3)
      restart_reason.simps(2,3))

section \<open>Lifecycle events aside\<close>

definition is_lifecycle :: "recovery_command \<Rightarrow> bool" where
  "is_lifecycle cmd \<longleftrightarrow> (case cmd of Finished _ \<Rightarrow> True | Started _ \<Rightarrow> True | _ \<Rightarrow> False)"

definition is_finish :: "recovery_command \<Rightarrow> bool" where
  "is_finish cmd \<longleftrightarrow> (case cmd of Finished _ \<Rightarrow> True | _ \<Rightarrow> False)"

lemma same_evidenceD:
  assumes "same_evidence s s'"
  shows "zr_recoveryInFlight s' = zr_recoveryInFlight s" "zr_stabilizing s' = zr_stabilizing s"
    "zr_sourceKey s' = zr_sourceKey s"
    "zr_controlSessionRecoveryDue s' = zr_controlSessionRecoveryDue s"
    "zr_controlSessionRecoveryDueAtMs s' = zr_controlSessionRecoveryDueAtMs s"
    "zr_controlSessionConsecutiveFailures s' = zr_controlSessionConsecutiveFailures s"
    "zr_serviceConsecutiveFailures s' = zr_serviceConsecutiveFailures s"
    "zr_serviceLastFailureAtMs s' = zr_serviceLastFailureAtMs s"
    "zr_channelProviderFailuresById s' = zr_channelProviderFailuresById s"
  using assms by (simp_all add: same_evidence_def)

lemmas decided_frame [simp] = same_evidenceD [OF decideRecovery_frame]
lemmas corroborated_frame [simp] = same_evidenceD [OF decideCorroborated_frame]

lemmas op_defs = terminal_recovery_def channel_provider_observation_def
  control_session_observation_def service_probe_def Let_def

lemma record_source_if_any_stabilizing:
  "zr_stabilizing (record_source_if_any k s) =
     (case k of None \<Rightarrow> zr_stabilizing s
      | Some k \<Rightarrow> map_option (\<lambda>r. if sr_boundSourceKey r = None
          then r\<lparr>sr_boundSourceKey := Some (gatewayRecoverySourceKey k)\<rparr> else r) (zr_stabilizing s))"
  by (simp add: record_source_if_any_def split: option.split)

lemma step_in_flight [simp]:
  "\<not> is_lifecycle cmd \<Longrightarrow> zr_recoveryInFlight (snd (zone_step p cmd s)) = zr_recoveryInFlight s"
  by (cases cmd) (simp_all add: is_lifecycle_def op_defs)

lemma count_healthy_None: "zr_stabilizing s = None \<Longrightarrow> count_healthy p t f s = s"
  by (simp add: count_healthy_def)

lemma step_not_stabilizing:
  "\<not> is_finish cmd \<Longrightarrow> zr_stabilizing s = None \<Longrightarrow> zr_stabilizing (snd (zone_step p cmd s)) = None"
  by (cases cmd) (simp_all add: is_finish_def op_defs count_healthy_None recovery_started_def)

section \<open>Budgets\<close>

definition budget_decided :: "recovery_policy \<Rightarrow> millis \<Rightarrow> budget_state \<Rightarrow> budget_state" where
  "budget_decided p t b =
     (let b' = resetFailedRecoveriesIfSuspensionExpired b p t
      in if hasActiveRecoverySuspension b' p t then b'\<lparr>bs_operatorEscalationEmitted := True\<rparr> else b')"

definition budget_moves :: "recovery_policy \<Rightarrow> millis \<Rightarrow> budget_class \<Rightarrow> budget_class \<Rightarrow> zone_recovery
    \<Rightarrow> zone_recovery \<Rightarrow> bool" where
  "budget_moves p t c c' s s' \<longleftrightarrow>
     budget c' s' = budget c' s \<or> (c' = c \<and> budget c' s' = budget_decided p t (budget c' s))"

lemma budget_moves_refl [simp]: "budget c' s' = budget c' s \<Longrightarrow> budget_moves p t c c' s s'"
  by (simp add: budget_moves_def)

lemma decideRecovery_moves_self: "budget_moves p t c c' s (snd (decideRecovery n t p r c z s))" for s
  by (simp add: decideRecovery_def Let_def budget_moves_def budget_decided_def)

lemma decideRecovery_moves [simp]:
  assumes "budget c' s = budget c' s0"
  shows "budget_moves p t c c' s0 (snd (decideRecovery n t p r c z s))"
  using decideRecovery_moves_self [of p t c c' s n r z] assms unfolding budget_moves_def by argo

lemma budget_moves_policy:
  "budget_moves (p\<lparr>rp_consecutiveFailureThreshold := n, rp_enabled := e\<rparr>) t c c' s s' = budget_moves p t c c' s s'"
  by (simp add: budget_moves_def budget_decided_def resetFailedRecoveriesIfSuspensionExpired_def
      hasActiveRecoverySuspension_def cong: option.case_cong)

lemma decideRecovery_moves_policy [simp]:
  "budget c' s = budget c' s0 \<Longrightarrow> budget_moves p t c c' s0
     (snd (decideRecovery n t (p\<lparr>rp_consecutiveFailureThreshold := m, rp_enabled := e\<rparr>) r c z s))"
  by (rule iffD1 [OF budget_moves_policy decideRecovery_moves])

lemma decideCorroborated_moves [simp]:
  "budget c' s = budget c' s0 \<Longrightarrow>
     budget_moves p t c c' s0 (snd (decideCorroboratedGatewayRecovery t p c z s))"
  by (simp add: decideCorroboratedGatewayRecovery_def Let_def)

lemma count_healthy_budget:
  "budget c (count_healthy p t f s) = budget c s \<or>
   (\<exists>r. zr_stabilizing s = Some r \<and> sr_recoveryBudgetClass (f r) = c)"
  by (auto simp: count_healthy_def maybeFinishGatewayRecoveryStabilization_def split: option.split)

lemma step_budget:
  assumes "command_observation cmd = Some ob"
    and "\<And>r. zr_stabilizing s = Some r \<Longrightarrow> sr_recoveryBudgetClass r \<noteq> c"
  shows "budget_moves p (ro_observedAtMs ob) (observed_class ob) c s (snd (zone_step p cmd s))"
proof -
  have healthy: "budget c (count_healthy p t f (record_source_if_any k s1)) = budget c s"
    if "\<And>r. sr_recoveryBudgetClass (f r) = sr_recoveryBudgetClass r" "zr_stabilizing s1 = zr_stabilizing s"
      "budget c s1 = budget c s" for f k s1 t
  proof -
    have "budget c (count_healthy p t f (record_source_if_any k s1)) = budget c (record_source_if_any k s1)"
      using count_healthy_budget [of c p t f "record_source_if_any k s1"] that assms(2)
      by (auto simp: record_source_if_any_stabilizing split: option.splits if_splits)
    with that(3) show ?thesis by simp
  qed
  show ?thesis
  proof (cases cmd)
    case (Terminal ob' k)
    with assms(1) have [simp]: "ob' = ob" by simp
    show ?thesis by (simp add: Terminal terminal_recovery_def observed_class_def)
  next
    case (ChannelProvider ob')
    with assms(1) have [simp]: "ob' = ob" by simp
    show ?thesis
      by (simp add: ChannelProvider channel_provider_observation_def Let_def observed_class_def)
  next
    case (ControlSession ob')
    with assms(1) have [simp]: "ob' = ob" by simp
    show ?thesis
      by (simp add: ControlSession control_session_observation_def Let_def observed_class_def healthy)
  next
    case (ServiceProbe ob')
    with assms(1) have [simp]: "ob' = ob" by simp
    show ?thesis
      by (simp add: ServiceProbe service_probe_def Let_def observed_class_def healthy)
  qed (use assms(1) in simp_all)
qed

section \<open>Failing recoveries\<close>

text \<open>
  What the monitor does with an observation (\<open>executeGatewayRecoveryDecision\<close> in
  gateway-service-health-monitor.ts): when the tracker decides a restart, it marks the recovery
  started, other observations may arrive while the recovery runs, and then it marks it finished,
  here always as failed, against the budget the observation named.
\<close>

record recovery_attempt =
  ra_command :: recovery_command
  ra_during :: "recovery_command list"
  ra_finishedAt :: millis

fun is_restart :: "recovery_decision option \<Rightarrow> bool" where
  "is_restart (Some (RestartGateway n r z)) \<longleftrightarrow> True"
| "is_restart _ \<longleftrightarrow> False"

lemma is_restart_iff: "is_restart d \<longleftrightarrow> (\<exists>n r z. d = Some (RestartGateway n r z))"
  by (cases d rule: is_restart.cases) simp_all

definition command_class :: "recovery_command \<Rightarrow> budget_class" where
  "command_class cmd = (case command_observation cmd of None \<Rightarrow> VmRestart | Some ob \<Rightarrow> observed_class ob)"

definition command_time :: "recovery_command \<Rightarrow> millis" where
  "command_time cmd = (case command_observation cmd of None \<Rightarrow> 0 | Some ob \<Rightarrow> ro_observedAtMs ob)"

definition failed_event :: "recovery_command \<Rightarrow> millis \<Rightarrow> lifecycle_event" where
  "failed_event cmd t =
     \<lparr>le_observedAtMs = t, le_recoveryBudgetClass = Some (command_class cmd),
      le_result = Some OutcomeFailed, le_zoneId = command_zone cmd\<rparr>"

definition monitor_attempt :: "recovery_policy \<Rightarrow> recovery_attempt \<Rightarrow> zone_recovery \<Rightarrow> bool \<times> zone_recovery" where
  "monitor_attempt p a s =
     (let (d, s1) = zone_step p (ra_command a) s
      in if is_restart d
         then (True, recovery_finished (failed_event (ra_command a) (ra_finishedAt a))
                       (snd (zone_run p (ra_during a) (recovery_started s1))))
         else (False, s1))"

fun restarts_of :: "recovery_policy \<Rightarrow> budget_class \<Rightarrow> recovery_attempt list \<Rightarrow> zone_recovery \<Rightarrow> nat" where
  "restarts_of p c [] s = 0"
| "restarts_of p c (a # as) s =
     (if fst (monitor_attempt p a s) \<and> command_class (ra_command a) = c then 1 else 0) +
     restarts_of p c as (snd (monitor_attempt p a s))"

definition attempt_observes :: "recovery_attempt \<Rightarrow> bool" where
  "attempt_observes a \<longleftrightarrow> command_observation (ra_command a) \<noteq> None \<and> (\<forall>cmd\<in>set (ra_during a). \<not> is_lifecycle cmd)"

lemma decideRecovery_in_flight: "zr_recoveryInFlight s \<Longrightarrow> snd (decideRecovery n t p r c z s) = s"
  by (simp add: decideRecovery_def)

lemma decideCorroborated_in_flight:
  "zr_recoveryInFlight s \<Longrightarrow> snd (decideCorroboratedGatewayRecovery t p c z s) = s"
  by (simp add: decideCorroboratedGatewayRecovery_def Let_def decideRecovery_in_flight)

lemma step_budget_in_flight:
  "\<not> is_lifecycle cmd \<Longrightarrow> zr_recoveryInFlight s \<Longrightarrow> zr_stabilizing s = None \<Longrightarrow>
     budget c (snd (zone_step p cmd s)) = budget c s"
  by (cases cmd)
    (simp_all add: is_lifecycle_def op_defs decideRecovery_in_flight decideCorroborated_in_flight
      count_healthy_None)

lemma lifecycle_finish: "\<not> is_lifecycle cmd \<Longrightarrow> \<not> is_finish cmd"
  by (cases cmd) (simp_all add: is_lifecycle_def is_finish_def)

lemma run_budget_in_flight:
  "\<forall>cmd\<in>set cs. \<not> is_lifecycle cmd \<Longrightarrow> zr_recoveryInFlight s \<Longrightarrow> zr_stabilizing s = None \<Longrightarrow>
     budget c (snd (zone_run p cs s)) = budget c s \<and> zr_stabilizing (snd (zone_run p cs s)) = None"
proof (induction cs arbitrary: s)
  case Nil
  then show ?case by simp
next
  case (Cons cmd cs)
  then have cmd: "\<not> is_lifecycle cmd" by simp
  from Cons.IH [of "snd (zone_step p cmd s)"] Cons.prems cmd show ?case
    by (simp add: zone_run_Cons step_budget_in_flight step_not_stabilizing lifecycle_finish
        del: zone_run.simps)
qed

lemma observation_not_lifecycle: "command_observation cmd \<noteq> None \<Longrightarrow> \<not> is_lifecycle cmd"
  by (cases cmd) (simp_all add: is_lifecycle_def)

lemma budget_decided_reset:
  assumes "restart_permitted p t c s"
  shows "budget_decided p t (budget c s) = resetFailedRecoveriesIfSuspensionExpired (budget c s) p t"
  using assms
  by (cases "bs_lastRecoveryAttemptAtMs (budget c s)")
    (auto simp: budget_decided_def restart_permitted_def resetFailedRecoveriesIfSuspensionExpired_def
      hasActiveRecoverySuspension_def Let_def)

lemma monitor_attempt_not_stabilizing:
  assumes "attempt_observes a" and "zr_stabilizing s = None"
  shows "zr_stabilizing (snd (monitor_attempt p a s)) = None"
proof -
  let ?s1 = "snd (zone_step p (ra_command a) s)"
  have "\<not> is_lifecycle (ra_command a)"
    using assms(1) by (intro observation_not_lifecycle) (simp add: attempt_observes_def)
  then have s1: "zr_stabilizing ?s1 = None"
    by (intro step_not_stabilizing lifecycle_finish assms(2))
  then have "zr_stabilizing (snd (zone_run p (ra_during a) (recovery_started ?s1))) = None"
    using run_budget_in_flight [of "ra_during a" "recovery_started ?s1" c p for c] assms(1)
    by (simp add: attempt_observes_def recovery_started_def)
  with s1 show ?thesis
    by (simp add: monitor_attempt_def case_prod_unfold Let_def recovery_finished_def failed_event_def)
qed

lemma monitor_attempt_budget:
  fixes p a s c
  defines "b \<equiv> budget c s" and "t \<equiv> command_time (ra_command a)"
    and "b' \<equiv> budget c (snd (monitor_attempt p a s))"
  assumes obs: "attempt_observes a" and quiet: "zr_stabilizing s = None"
  shows "if fst (monitor_attempt p a s) \<and> command_class (ra_command a) = c
    then restart_permitted p t c s \<and>
      bs_lastRecoveryAttemptAtMs b' = Some (ra_finishedAt a) \<and>
      bs_consecutiveFailedRecoveries b' =
        bs_consecutiveFailedRecoveries (resetFailedRecoveriesIfSuspensionExpired b p t) + 1 \<or>
      restart_permitted p t c s \<and>
      bs_lastRecoveryAttemptAtMs b' = Some (ra_finishedAt a) \<and>
      bs_consecutiveFailedRecoveries b' = bs_consecutiveFailedRecoveries b + 1
    else b' = b \<or> b' = budget_decided p t b"
proof -
  let ?cmd = "ra_command a"
  let ?s1 = "snd (zone_step p ?cmd s)"
  let ?s2 = "snd (zone_run p (ra_during a) (recovery_started ?s1))"
  obtain ob where ob: "command_observation ?cmd = Some ob"
    using obs by (auto simp: attempt_observes_def)
  then have t: "t = ro_observedAtMs ob" and cc: "command_class ?cmd = observed_class ob"
    by (simp_all add: t_def command_time_def command_class_def)
  have s1: "zr_stabilizing ?s1 = None"
    using ob by (intro step_not_stabilizing lifecycle_finish observation_not_lifecycle quiet) simp
  have moves: "budget_moves p t (observed_class ob) c s ?s1"
    unfolding t by (rule step_budget [OF ob]) (simp add: quiet)
  have s2: "budget c ?s2 = budget c ?s1"
    using run_budget_in_flight [of "ra_during a" "recovery_started ?s1" c p] obs s1
    by (simp add: attempt_observes_def recovery_started_def)
  show ?thesis
  proof (cases "is_restart (fst (zone_step p ?cmd s))")
    case False
    then have "b' = budget c ?s1" "\<not> fst (monitor_attempt p a s)"
      by (simp_all add: b'_def monitor_attempt_def case_prod_unfold Let_def)
    with moves show ?thesis by (auto simp: budget_moves_def b_def)
  next
    case True
    then have fst: "fst (monitor_attempt p a s)"
      and snd: "snd (monitor_attempt p a s) = recovery_finished (failed_event ?cmd (ra_finishedAt a)) ?s2"
      by (simp_all add: monitor_attempt_def case_prod_unfold Let_def)
    have finished: "b' = (if command_class ?cmd = c
        then (budget c ?s2)\<lparr>bs_consecutiveFailedRecoveries := bs_consecutiveFailedRecoveries (budget c ?s2) + 1,
               bs_lastRecoveryAttemptAtMs := Some (ra_finishedAt a)\<rparr>
        else budget c ?s2)"
      by (simp add: b'_def snd recovery_finished_def failed_event_def recoveryBudgetClassForEvent_def
          class_or_restart_def Let_def)
    show ?thesis
    proof (cases "command_class ?cmd = c")
      case False
      with finished moves s2 show ?thesis by (auto simp: budget_moves_def b_def)
    next
      case c: True
      from True ob have permitted: "restart_permitted p t c s"
        by (auto simp: is_restart_iff zone_restart_iff t c [symmetric] cc)
      from moves have "budget c ?s1 = b \<or> budget c ?s1 = resetFailedRecoveriesIfSuspensionExpired b p t"
        by (auto simp: budget_moves_def b_def budget_decided_reset [OF permitted])
      with finished permitted c fst s2 show ?thesis by auto
    qed
  qed
qed

lemma reset_keeps_last [simp]:
  "bs_lastRecoveryAttemptAtMs (resetFailedRecoveriesIfSuspensionExpired b p t) = bs_lastRecoveryAttemptAtMs b"
  by (simp add: resetFailedRecoveriesIfSuspensionExpired_def)

lemma budget_decided_last [simp]:
  "bs_lastRecoveryAttemptAtMs (budget_decided p t b) = bs_lastRecoveryAttemptAtMs b"
  by (simp add: budget_decided_def Let_def)

lemma budget_decided_failed:
  "bs_consecutiveFailedRecoveries (budget_decided p t b) =
     bs_consecutiveFailedRecoveries (resetFailedRecoveriesIfSuspensionExpired b p t)"
  by (simp add: budget_decided_def Let_def)

lemma reset_failed:
  "bs_consecutiveFailedRecoveries (resetFailedRecoveriesIfSuspensionExpired b p t) =
     bs_consecutiveFailedRecoveries b \<or>
   bs_consecutiveFailedRecoveries (resetFailedRecoveriesIfSuspensionExpired b p t) = 0"
  by (simp add: resetFailedRecoveriesIfSuspensionExpired_def)

lemma reset_not_expired:
  "bs_lastRecoveryAttemptAtMs b = Some u \<Longrightarrow> t - u < rp_failedRecoveryResetMs p \<Longrightarrow>
     resetFailedRecoveriesIfSuspensionExpired b p t = b"
  by (simp add: resetFailedRecoveriesIfSuspensionExpired_def)

definition attempt_within :: "recovery_policy \<Rightarrow> millis \<Rightarrow> recovery_attempt \<Rightarrow> bool" where
  "attempt_within p f0 a \<longleftrightarrow>
     attempt_observes a \<and> command_time (ra_command a) < f0 + rp_failedRecoveryResetMs p \<and> f0 \<le> ra_finishedAt a"

lemma restarts_after_failure:
  assumes "\<forall>a\<in>set as. attempt_within p f0 a" and "zr_stabilizing s = None"
    and "bs_lastRecoveryAttemptAtMs (budget c s) = Some u" and "f0 \<le> u"
  shows "restarts_of p c as s \<le> nat (rp_maxConsecutiveFailedRecoveries p - bs_consecutiveFailedRecoveries (budget c s))"
  using assms
proof (induction as arbitrary: s u)
  case Nil
  then show ?case by simp
next
  case (Cons a as)
  let ?s = "snd (monitor_attempt p a s)" and ?t = "command_time (ra_command a)"
  from Cons.prems(1) have obs: "attempt_observes a" and t: "?t < f0 + rp_failedRecoveryResetMs p"
    and fin: "f0 \<le> ra_finishedAt a" and rest: "\<forall>a\<in>set as. attempt_within p f0 a"
    by (simp_all add: attempt_within_def)
  have quiet: "zr_stabilizing ?s = None"
    by (rule monitor_attempt_not_stabilizing [OF obs Cons.prems(2)])
  from t Cons.prems(4) have "?t - u < rp_failedRecoveryResetMs p" by simp
  note still = reset_not_expired [OF Cons.prems(3) this]
  note step = monitor_attempt_budget [OF obs Cons.prems(2), of p c]
  show ?case
  proof (cases "fst (monitor_attempt p a s) \<and> command_class (ra_command a) = c")
    case True
    with step still have b: "restart_permitted p ?t c s"
      "bs_lastRecoveryAttemptAtMs (budget c ?s) = Some (ra_finishedAt a)"
      "bs_consecutiveFailedRecoveries (budget c ?s) = bs_consecutiveFailedRecoveries (budget c s) + 1"
      by simp_all
    from b(1) Cons.prems(3) \<open>?t - u < _\<close>
    have "bs_consecutiveFailedRecoveries (budget c s) < rp_maxConsecutiveFailedRecoveries p"
      by (simp add: restart_permitted_def)
    with Cons.IH [OF rest quiet b(2) fin] b(3) True show ?thesis by simp
  next
    case False
    with step have "budget c ?s = budget c s \<or> budget c ?s = budget_decided p ?t (budget c s)"
      by presburger
    then have "bs_lastRecoveryAttemptAtMs (budget c ?s) = Some u"
      "bs_consecutiveFailedRecoveries (budget c ?s) = bs_consecutiveFailedRecoveries (budget c s)"
      using Cons.prems(3) still by (auto simp: budget_decided_failed)
    with Cons.IH [OF rest quiet this(1) Cons.prems(4)] False show ?thesis by auto
  qed
qed

lemma restarts_in_window:
  assumes "\<forall>a\<in>set as. attempt_within p f0 a" and "zr_stabilizing s = None"
    and "0 \<le> bs_consecutiveFailedRecoveries (budget c s)"
  shows "restarts_of p c as s \<le> max 1 (nat (rp_maxConsecutiveFailedRecoveries p))"
  using assms
proof (induction as arbitrary: s)
  case Nil
  then show ?case by simp
next
  case (Cons a as)
  let ?s = "snd (monitor_attempt p a s)" and ?t = "command_time (ra_command a)"
  from Cons.prems(1) have obs: "attempt_observes a" and fin: "f0 \<le> ra_finishedAt a"
    and rest: "\<forall>a\<in>set as. attempt_within p f0 a"
    by (simp_all add: attempt_within_def)
  have quiet: "zr_stabilizing ?s = None"
    by (rule monitor_attempt_not_stabilizing [OF obs Cons.prems(2)])
  note step = monitor_attempt_budget [OF obs Cons.prems(2), of p c]
  note zero = reset_failed [of "budget c s" p ?t]
  show ?case
  proof (cases "fst (monitor_attempt p a s) \<and> command_class (ra_command a) = c")
    case True
    with step zero Cons.prems(3) have b: "bs_lastRecoveryAttemptAtMs (budget c ?s) = Some (ra_finishedAt a)"
      "1 \<le> bs_consecutiveFailedRecoveries (budget c ?s)"
      by auto
    with restarts_after_failure [OF rest quiet b(1) fin] True show ?thesis by simp
  next
    case False
    with step have "budget c ?s = budget c s \<or> budget c ?s = budget_decided p ?t (budget c s)"
      by presburger
    with zero Cons.prems(3) have "0 \<le> bs_consecutiveFailedRecoveries (budget c ?s)"
      by (auto simp: budget_decided_failed)
    with Cons.IH [OF rest quiet this] False show ?thesis by auto
  qed
qed

section \<open>Stabilization\<close>

fun command_source :: "recovery_command \<Rightarrow> source_key option" where
  "command_source (Terminal ob k) = Some k"
| "command_source (SourceChange k zone) = Some k"
| "command_source (ControlSession ob) = ro_sourceKey ob"
| "command_source (ServiceProbe ob) = ro_sourceKey ob"
| "command_source _ = None"

fun healthy_control :: "recovery_command \<Rightarrow> bool" where
  "healthy_control (ControlSession ob) \<longleftrightarrow> isHealthyObservation (ro_result ob)"
| "healthy_control _ \<longleftrightarrow> False"

fun healthy_service :: "recovery_command \<Rightarrow> bool" where
  "healthy_service (ServiceProbe ob) \<longleftrightarrow> isHealthyObservation (ro_result ob)"
| "healthy_service _ \<longleftrightarrow> False"

lemma step_source:
  "zr_sourceKey (snd (zone_step p cmd s)) = zr_sourceKey s \<or>
   (\<exists>k. command_source cmd = Some k \<and>
      zr_sourceKey (snd (zone_step p cmd s)) = Some (gatewayRecoverySourceKey k))"
  by (cases cmd)
    (auto simp: op_defs record_source_if_any_def recovery_started_def recovery_finished_def
      split: option.split recovery_outcome.split)

text \<open>One command on a stabilizing recovery: it ends it with enough evidence, or leaves it on.\<close>

definition stabilization_ends :: "recovery_policy \<Rightarrow> recovery_command \<Rightarrow> stabilizing_recovery \<Rightarrow> bool" where
  "stabilization_ends p cmd r \<longleftrightarrow>
     (healthy_control cmd \<or> healthy_service cmd) \<and>
     sr_controlSessionHealthyObservations r + (if healthy_control cmd then 1 else 0) \<ge> stability_observations \<and>
     sr_serviceHealthyObservations r + (if healthy_service cmd then 1 else 0) \<ge> stability_observations \<and>
     command_time cmd - sr_startedAtMs r \<ge> rp_restartTimeoutMs p"

definition stabilization_goes_on :: "recovery_command \<Rightarrow> stabilizing_recovery \<Rightarrow> stabilizing_recovery \<Rightarrow> bool" where
  "stabilization_goes_on cmd r r' \<longleftrightarrow>
     sr_startedAtMs r' = sr_startedAtMs r \<and> sr_recoveryBudgetClass r' = sr_recoveryBudgetClass r \<and>
     (sr_boundSourceKey r \<noteq> None \<longrightarrow> sr_boundSourceKey r' = sr_boundSourceKey r) \<and>
     (sr_controlSessionHealthyObservations r' = 0 \<or>
      sr_controlSessionHealthyObservations r' = sr_controlSessionHealthyObservations r \<or>
      healthy_control cmd \<and>
      sr_controlSessionHealthyObservations r' = sr_controlSessionHealthyObservations r + 1) \<and>
     (sr_serviceHealthyObservations r' = 0 \<or>
      sr_serviceHealthyObservations r' = sr_serviceHealthyObservations r \<or>
      healthy_service cmd \<and>
      sr_serviceHealthyObservations r' = sr_serviceHealthyObservations r + 1)"

lemma count_healthy_cases:
  assumes "zr_stabilizing s = Some r"
  shows "zr_stabilizing (count_healthy p t f s) = Some r \<or>
    zr_stabilizing (count_healthy p t f s) = Some (f r) \<or>
    zr_stabilizing (count_healthy p t f s) = None \<and>
    sr_controlSessionHealthyObservations (f r) \<ge> stability_observations \<and>
    sr_serviceHealthyObservations (f r) \<ge> stability_observations \<and>
    t - sr_startedAtMs (f r) \<ge> rp_restartTimeoutMs p"
  using assms by (simp add: count_healthy_def maybeFinishGatewayRecoveryStabilization_def)

lemma record_source_if_any_Some:
  assumes "zr_stabilizing s = Some r"
  shows "\<exists>r'. zr_stabilizing (record_source_if_any k s) = Some r' \<and>
    sr_startedAtMs r' = sr_startedAtMs r \<and> sr_recoveryBudgetClass r' = sr_recoveryBudgetClass r \<and>
    sr_controlSessionHealthyObservations r' = sr_controlSessionHealthyObservations r \<and>
    sr_serviceHealthyObservations r' = sr_serviceHealthyObservations r \<and>
    (sr_boundSourceKey r \<noteq> None \<longrightarrow> sr_boundSourceKey r' = sr_boundSourceKey r)"
  using assms by (cases k) (simp_all add: record_source_if_any_stabilizing)

lemma goes_on_refl [simp]: "stabilization_goes_on cmd r r"
  by (simp add: stabilization_goes_on_def)

lemma step_stabilizing:
  assumes "\<not> is_finish cmd" and r: "zr_stabilizing s = Some r"
  shows "(zr_stabilizing (snd (zone_step p cmd s)) = None \<and> stabilization_ends p cmd r) \<or>
    (\<exists>r'. zr_stabilizing (snd (zone_step p cmd s)) = Some r' \<and> stabilization_goes_on cmd r r')"
proof (cases cmd)
  case (ControlSession ob)
  show ?thesis
  proof (cases "ro_result ob" rule: observation_cases)
    case 2
    let ?s = "s\<lparr>zr_controlSessionConsecutiveFailures := 0, zr_controlSessionRecoveryDue := False,
      zr_controlSessionRecoveryDueAtMs := None\<rparr>"
    let ?f = "\<lambda>r. r\<lparr>sr_controlSessionHealthyObservations := sr_controlSessionHealthyObservations r + 1\<rparr>"
    have "zr_stabilizing ?s = Some r" using r by simp
    then obtain r' where r': "zr_stabilizing (record_source_if_any (ro_sourceKey ob) ?s) = Some r'"
      "sr_startedAtMs r' = sr_startedAtMs r" "sr_recoveryBudgetClass r' = sr_recoveryBudgetClass r"
      "sr_controlSessionHealthyObservations r' = sr_controlSessionHealthyObservations r"
      "sr_serviceHealthyObservations r' = sr_serviceHealthyObservations r"
      "sr_boundSourceKey r \<noteq> None \<longrightarrow> sr_boundSourceKey r' = sr_boundSourceKey r"
      using record_source_if_any_Some by blast
    have "snd (zone_step p cmd s) =
        count_healthy p (ro_observedAtMs ob) ?f (record_source_if_any (ro_sourceKey ob) ?s)"
      using 2 by (simp add: ControlSession control_session_observation_def Let_def isHealthyObservation_def)
    then show ?thesis
      using count_healthy_cases [OF r'(1), where p = p and t = "ro_observedAtMs ob" and f = ?f] r'(2-) 2
      by (auto simp: ControlSession stabilization_ends_def stabilization_goes_on_def
          isHealthyObservation_def command_time_def)
  next
    case 3
    then show ?thesis
      using r degraded_not_healthy [OF 3]
      by (cases "ro_sourceKey ob")
        (simp_all add: ControlSession control_session_observation_def Let_def isHealthyObservation_def
          stabilization_goes_on_def record_source_if_any_stabilizing)
  qed (use r in \<open>simp add: ControlSession control_session_observation_def Let_def\<close>)
next
  case (ServiceProbe ob)
  show ?thesis
  proof (cases "isHealthyObservation (ro_result ob)")
    case True
    let ?s = "s\<lparr>zr_serviceConsecutiveFailures := 0, zr_serviceLastFailureAtMs := None\<rparr>"
    let ?f = "\<lambda>r. r\<lparr>sr_serviceHealthyObservations := sr_serviceHealthyObservations r + 1\<rparr>"
    have "zr_stabilizing ?s = Some r" using r by simp
    then obtain r' where r': "zr_stabilizing (record_source_if_any (ro_sourceKey ob) ?s) = Some r'"
      "sr_startedAtMs r' = sr_startedAtMs r" "sr_recoveryBudgetClass r' = sr_recoveryBudgetClass r"
      "sr_controlSessionHealthyObservations r' = sr_controlSessionHealthyObservations r"
      "sr_serviceHealthyObservations r' = sr_serviceHealthyObservations r"
      "sr_boundSourceKey r \<noteq> None \<longrightarrow> sr_boundSourceKey r' = sr_boundSourceKey r"
      using record_source_if_any_Some by blast
    have "snd (zone_step p cmd s) =
        count_healthy p (ro_observedAtMs ob) ?f (record_source_if_any (ro_sourceKey ob) ?s)"
      using True by (simp add: ServiceProbe service_probe_def Let_def)
    then show ?thesis
      using count_healthy_cases [OF r'(1), where p = p and t = "ro_observedAtMs ob" and f = ?f] r'(2-) True
      by (auto simp: ServiceProbe stabilization_ends_def stabilization_goes_on_def command_time_def)
  next
    case False
    then show ?thesis
      using r by (simp add: ServiceProbe service_probe_def Let_def stabilization_goes_on_def)
  qed
next
  case (Terminal ob k)
  then show ?thesis using r by (simp add: terminal_recovery_def stabilization_goes_on_def)
next
  case (ChannelProvider ob)
  then show ?thesis using r by (simp add: channel_provider_observation_def Let_def)
qed (use assms in \<open>simp_all add: is_finish_def recovery_started_def stabilization_goes_on_def\<close>)

definition count_commands :: "('c \<Rightarrow> bool) \<Rightarrow> 'c list \<Rightarrow> int" where
  "count_commands P cs = int (length (filter P cs))"

lemma count_commands_simps [simp]:
  "count_commands P [] = 0"
  "count_commands P (c # cs) = (if P c then 1 else 0) + count_commands P cs"
  by (simp_all add: count_commands_def)

lemma count_commands_nonneg [simp]: "0 \<le> count_commands P cs"
  by (simp add: count_commands_def)

lemma run_stabilization_evidence:
  assumes "\<forall>cmd\<in>set cs. \<not> is_finish cmd" and "zr_stabilizing s = Some r"
    and "0 \<le> sr_controlSessionHealthyObservations r" and "0 \<le> sr_serviceHealthyObservations r"
    and "zr_stabilizing (snd (zone_run p cs s)) = None"
  shows "stability_observations \<le> sr_controlSessionHealthyObservations r + count_commands healthy_control cs \<and>
    stability_observations \<le> sr_serviceHealthyObservations r + count_commands healthy_service cs \<and>
    (\<exists>cmd\<in>set cs. (healthy_control cmd \<or> healthy_service cmd) \<and>
       command_time cmd - sr_startedAtMs r \<ge> rp_restartTimeoutMs p)"
  using assms
proof (induction cs arbitrary: s r)
  case Nil
  then show ?case by simp
next
  case (Cons cmd cs)
  from Cons.prems(1) have cmd: "\<not> is_finish cmd" by simp
  from step_stabilizing [OF cmd Cons.prems(2), of p] show ?case
  proof
    assume "zr_stabilizing (snd (zone_step p cmd s)) = None \<and> stabilization_ends p cmd r"
    then show ?thesis
      using count_commands_nonneg [of healthy_control cs] count_commands_nonneg [of healthy_service cs]
      by (auto simp: stabilization_ends_def simp del: count_commands_nonneg)
  next
    assume "\<exists>r'. zr_stabilizing (snd (zone_step p cmd s)) = Some r' \<and> stabilization_goes_on cmd r r'"
    then obtain r' where r': "zr_stabilizing (snd (zone_step p cmd s)) = Some r'"
      and on: "stabilization_goes_on cmd r r'" by blast
    have "0 \<le> sr_controlSessionHealthyObservations r'" "0 \<le> sr_serviceHealthyObservations r'"
      using on Cons.prems(3,4) by (auto simp: stabilization_goes_on_def)
    from Cons.IH [OF _ r' this] Cons.prems(1,5)
    have "stability_observations \<le> sr_controlSessionHealthyObservations r' + count_commands healthy_control cs"
      "stability_observations \<le> sr_serviceHealthyObservations r' + count_commands healthy_service cs"
      "\<exists>cmd\<in>set cs. (healthy_control cmd \<or> healthy_service cmd) \<and>
         command_time cmd - sr_startedAtMs r' \<ge> rp_restartTimeoutMs p"
      by (simp_all add: zone_run_Cons del: zone_run.simps)
    with on Cons.prems(3,4) show ?thesis by (auto simp: stabilization_goes_on_def)
  qed
qed

text \<open>While a recovery stabilizes, nothing is decided.\<close>

fun is_no_recovery :: "recovery_decision option \<Rightarrow> bool" where
  "is_no_recovery None \<longleftrightarrow> True"
| "is_no_recovery (Some (NoRecovery n r)) \<longleftrightarrow> True"
| "is_no_recovery _ \<longleftrightarrow> False"

lemma decideRecovery_stabilizing:
  "zr_stabilizing s \<noteq> None \<Longrightarrow> is_no_recovery (Some (fst (decideRecovery n t p r c z s)))"
  by (auto simp: decideRecovery_def)

lemma decideCorroborated_stabilizing:
  "zr_stabilizing s \<noteq> None \<Longrightarrow> is_no_recovery (Some (fst (decideCorroboratedGatewayRecovery t p c z s)))"
  by (simp add: decideCorroboratedGatewayRecovery_def Let_def decideRecovery_stabilizing)

lemma step_while_stabilizing:
  "zr_stabilizing s \<noteq> None \<Longrightarrow> is_no_recovery (fst (zone_step p cmd s))"
  by (cases cmd)
    (simp_all add: op_defs decideRecovery_stabilizing decideCorroborated_stabilizing)

lemma count_healthy_other_source:
  "zr_stabilizing s = Some r \<Longrightarrow> sr_boundSourceKey r \<noteq> zr_sourceKey s \<Longrightarrow> count_healthy p t f s = s"
  by (simp add: count_healthy_def)

lemma record_source_if_any_key:
  "zr_sourceKey (record_source_if_any k s) =
     (case k of None \<Rightarrow> zr_sourceKey s | Some k \<Rightarrow> Some (gatewayRecoverySourceKey k))"
  by (simp add: record_source_if_any_def split: option.split)

lemma count_healthy_orphan:
  assumes "zr_stabilizing s = Some r" and "sr_boundSourceKey r = Some b" and "zr_sourceKey s \<noteq> Some b"
    and "\<And>k. key = Some k \<Longrightarrow> gatewayRecoverySourceKey k \<noteq> b"
  shows "zr_stabilizing (count_healthy p t f (record_source_if_any key s)) = Some r"
proof -
  have r: "zr_stabilizing (record_source_if_any key s) = Some r"
    using assms(1,2) by (simp add: record_source_if_any_stabilizing split: option.split)
  have "sr_boundSourceKey r \<noteq> zr_sourceKey (record_source_if_any key s)"
    using assms(2-4) by (auto simp: record_source_if_any_key split: option.split)
  with r show ?thesis by (simp add: count_healthy_other_source)
qed

definition orphaned :: "string \<Rightarrow> zone_recovery \<Rightarrow> bool" where
  "orphaned b s \<longleftrightarrow> zr_sourceKey s \<noteq> Some b \<and>
     (\<exists>r. zr_stabilizing s = Some r \<and> sr_boundSourceKey r = Some b)"

lemma step_orphaned:
  assumes "orphaned b s" and "\<not> is_finish cmd"
    and other: "\<And>k. command_source cmd = Some k \<Longrightarrow> gatewayRecoverySourceKey k \<noteq> b"
  shows "orphaned b (snd (zone_step p cmd s))"
proof -
  obtain r where r: "zr_stabilizing s = Some r" "sr_boundSourceKey r = Some b" and key: "zr_sourceKey s \<noteq> Some b"
    using assms(1) by (auto simp: orphaned_def)
  have "zr_sourceKey (snd (zone_step p cmd s)) \<noteq> Some b"
    using step_source [of p cmd s] key other by auto
  moreover from step_stabilizing [OF assms(2) r(1), of p]
  have "\<exists>r'. zr_stabilizing (snd (zone_step p cmd s)) = Some r' \<and> sr_boundSourceKey r' = Some b"
  proof
    assume ends: "zr_stabilizing (snd (zone_step p cmd s)) = None \<and> stabilization_ends p cmd r"
    then consider ob where "cmd = ControlSession ob" "isHealthyObservation (ro_result ob)"
      | ob where "cmd = ServiceProbe ob" "isHealthyObservation (ro_result ob)"
      by (cases cmd) (auto simp: stabilization_ends_def)
    then have "zr_stabilizing (snd (zone_step p cmd s)) \<noteq> None"
    proof cases
      case 1
      with r key other show ?thesis
        by (simp add: control_session_observation_def Let_def isHealthyObservation_def
            count_healthy_orphan [where r = r and b = b])
    next
      case 2
      with r key other show ?thesis
        by (simp add: service_probe_def Let_def count_healthy_orphan [where r = r and b = b])
    qed
    with ends show ?thesis by simp
  qed (use r(2) in \<open>auto simp: stabilization_goes_on_def\<close>)
  ultimately show ?thesis by (simp add: orphaned_def)
qed

lemma run_orphaned:
  assumes "orphaned b s" and "\<forall>cmd\<in>set cs. \<not> is_finish cmd"
    and "\<And>cmd k. cmd \<in> set cs \<Longrightarrow> command_source cmd = Some k \<Longrightarrow> gatewayRecoverySourceKey k \<noteq> b"
  shows "orphaned b (snd (zone_run p cs s)) \<and> list_all (\<lambda>(cmd, d). is_no_recovery d) (fst (zone_run p cs s))"
  using assms
proof (induction cs arbitrary: s)
  case Nil
  then show ?case by simp
next
  case (Cons cmd cs)
  have "orphaned b (snd (zone_step p cmd s))"
    by (rule step_orphaned [OF Cons.prems(1)]) (use Cons.prems(2,3) in auto)
  moreover have "is_no_recovery (fst (zone_step p cmd s))"
    using Cons.prems(1) by (intro step_while_stabilizing) (auto simp: orphaned_def)
  moreover have "orphaned b (snd (zone_run p cs (snd (zone_step p cmd s)))) \<and>
      list_all (\<lambda>(cmd, d). is_no_recovery d) (fst (zone_run p cs (snd (zone_step p cmd s))))"
    by (rule Cons.IH [OF calculation(1)]) (use Cons.prems(2,3) in auto)
  ultimately show ?case
    by (simp add: zone_run_Cons del: zone_run.simps)
qed

section \<open>Escalation\<close>

lemma decideRecovery_suspended:
  assumes "fst (decideRecovery n t p r c z s) = RecoverySuspended a m e z'"
  defines "b \<equiv> resetFailedRecoveriesIfSuspensionExpired (budget c s) p t"
  shows "e = (\<not> bs_operatorEscalationEmitted b) \<and> a = bs_consecutiveFailedRecoveries b \<and>
    hasActiveRecoverySuspension b p t \<and> zr_stabilizing s = None \<and>
    budget c (snd (decideRecovery n t p r c z s)) = b\<lparr>bs_operatorEscalationEmitted := True\<rparr>"
  using assms by (simp add: decideRecovery_def Let_def split: if_splits)

lemma decideCorroborated_suspended:
  assumes "fst (decideCorroboratedGatewayRecovery t p c z s) = RecoverySuspended a m e z'"
  defines "b \<equiv> resetFailedRecoveriesIfSuspensionExpired (budget c s) p t"
  shows "e = (\<not> bs_operatorEscalationEmitted b) \<and> a = bs_consecutiveFailedRecoveries b \<and>
    hasActiveRecoverySuspension b p t \<and> zr_stabilizing s = None \<and>
    budget c (snd (decideCorroboratedGatewayRecovery t p c z s)) = b\<lparr>bs_operatorEscalationEmitted := True\<rparr>"
  using assms
  by (simp add: decideCorroboratedGatewayRecovery_def Let_def decideRecovery_suspended split: if_splits)

definition suspends :: "recovery_policy \<Rightarrow> millis \<Rightarrow> budget_class \<Rightarrow> bool \<Rightarrow> zone_recovery \<Rightarrow> zone_recovery \<Rightarrow> bool" where
  "suspends p t c e s s' \<longleftrightarrow>
     (let b = resetFailedRecoveriesIfSuspensionExpired (budget c s) p t
      in e = (\<not> bs_operatorEscalationEmitted b) \<and> hasActiveRecoverySuspension b p t \<and>
         zr_stabilizing s = None \<and> budget c s' = b\<lparr>bs_operatorEscalationEmitted := True\<rparr>)"

lemma decideRecovery_suspends:
  "fst (decideRecovery n t p r c z s) = RecoverySuspended a m e z' \<Longrightarrow>
   budget c s = budget c s0 \<Longrightarrow> (zr_stabilizing s = None \<longleftrightarrow> zr_stabilizing s0 = None) \<Longrightarrow>
   suspends p t c e s0 (snd (decideRecovery n t p r c z s))"
  using decideRecovery_suspended [of n t p r c z s a m e z'] by (simp add: suspends_def Let_def)

lemma decideCorroborated_suspends:
  "fst (decideCorroboratedGatewayRecovery t p c z s) = RecoverySuspended a m e z' \<Longrightarrow>
   budget c s = budget c s0 \<Longrightarrow> (zr_stabilizing s = None \<longleftrightarrow> zr_stabilizing s0 = None) \<Longrightarrow>
   suspends p t c e s0 (snd (decideCorroboratedGatewayRecovery t p c z s))"
  using decideCorroborated_suspended [of t p c z s a m e z'] by (simp add: suspends_def Let_def)

lemma suspends_policy:
  "suspends (p\<lparr>rp_consecutiveFailureThreshold := n, rp_enabled := en\<rparr>) t c e s s' = suspends p t c e s s'"
  by (simp add: suspends_def resetFailedRecoveriesIfSuspensionExpired_def
      hasActiveRecoverySuspension_def cong: option.case_cong)

lemma step_suspends:
  assumes "fst (zone_step p cmd s) = Some (RecoverySuspended a m e z)"
  shows "\<exists>ob. command_observation cmd = Some ob \<and>
    suspends p (ro_observedAtMs ob) (observed_class ob) e s (snd (zone_step p cmd s))"
proof (cases cmd)
  case (Terminal ob k)
  with assms show ?thesis
    by (auto simp: terminal_recovery_def observed_class_def intro!: decideRecovery_suspends)
next
  case (ChannelProvider ob)
  define s1 where "s1 = (if isDegradedObservation (ro_result ob)
    then s\<lparr>zr_channelProviderFailuresById := js_set (channelProviderCounterKey ob)
      (channel_failures ob s + 1) (zr_channelProviderFailuresById s)\<rparr> else s)"
  define p1 where "p1 = p\<lparr>rp_consecutiveFailureThreshold := cp_consecutiveFailureThreshold (channel_policy_of p),
    rp_enabled := rp_enabled p \<and> cp_enabled (channel_policy_of p)\<rparr>"
  obtain n where n: "channel_provider_observation p ob s =
      decideRecovery n (ro_observedAtMs ob) p1 ChannelProviderUnhealthy (observed_class ob) (ro_zoneId ob) s1"
    using assms
    by (auto simp: ChannelProvider channel_provider_observation_def Let_def s1_def p1_def observed_class_def
        channel_policy_of_def channel_failures_def split: if_splits)
  have "suspends p1 (ro_observedAtMs ob) (observed_class ob) e s (snd (channel_provider_observation p ob s))"
    using assms unfolding n ChannelProvider
    by (intro decideRecovery_suspends) (simp_all add: n s1_def)
  then show ?thesis by (simp add: ChannelProvider p1_def suspends_policy)
next
  case (ControlSession ob)
  show ?thesis
  proof (cases "ro_result ob" rule: observation_cases)
    case 3
    then show ?thesis
      using assms degraded_not_healthy [OF 3]
      by (auto simp: ControlSession control_session_observation_def Let_def isHealthyObservation_def
          observed_class_def split: if_splits intro!: decideCorroborated_suspends)
  qed (use assms in \<open>simp_all add: ControlSession control_session_observation_def Let_def isHealthyObservation_def\<close>)
next
  case (ServiceProbe ob)
  show ?thesis
  proof (cases "isHealthyObservation (ro_result ob)")
    case False
    with assms show ?thesis
      by (simp add: ServiceProbe service_probe_def Let_def observed_class_def decideCorroborated_suspends)
  qed (use assms in \<open>simp add: ServiceProbe service_probe_def Let_def\<close>)
qed (use assms in simp_all)

definition escalated :: "recovery_policy \<Rightarrow> millis \<Rightarrow> budget_class \<Rightarrow> zone_recovery \<Rightarrow> bool" where
  "escalated p u c s \<longleftrightarrow>
     bs_operatorEscalationEmitted (budget c s) \<and>
     bs_consecutiveFailedRecoveries (budget c s) \<ge> rp_maxConsecutiveFailedRecoveries p \<and>
     bs_lastRecoveryAttemptAtMs (budget c s) = Some u \<and>
     (\<forall>r. zr_stabilizing s = Some r \<longrightarrow> sr_recoveryBudgetClass r \<noteq> c)"

text \<open>Commands that neither finish a recovery of the class nor come after the suspension.\<close>

definition within_suspension :: "recovery_policy \<Rightarrow> millis \<Rightarrow> budget_class \<Rightarrow> recovery_command \<Rightarrow> bool" where
  "within_suspension p u c cmd \<longleftrightarrow>
     (case cmd of
        Finished e \<Rightarrow> recoveryBudgetClassForEvent e \<noteq> c
      | _ \<Rightarrow> (case command_observation cmd of
          None \<Rightarrow> True
        | Some ob \<Rightarrow> observed_class ob = c \<longrightarrow> ro_observedAtMs ob - u < rp_failedRecoveryResetMs p))"

lemma suspension_resets_nothing:
  "bs_lastRecoveryAttemptAtMs b = Some u \<Longrightarrow> t - u < rp_failedRecoveryResetMs p \<Longrightarrow>
   bs_operatorEscalationEmitted b \<Longrightarrow> budget_decided p t b = b"
  by (simp add: budget_decided_def reset_not_expired Let_def)

lemma step_escalated:
  assumes esc: "escalated p u c s" and cmd: "within_suspension p u c cmd"
  shows "escalated p u c (snd (zone_step p cmd s))"
proof (cases "is_finish cmd")
  case True
  then obtain e where e: "cmd = Finished e" by (cases cmd) (auto simp: is_finish_def)
  with cmd have "recoveryBudgetClassForEvent e \<noteq> c" by (simp add: within_suspension_def)
  with esc show ?thesis
    by (auto simp: e escalated_def recovery_finished_def Let_def split: option.split recovery_outcome.split)
next
  case False
  have same: "budget c (snd (zone_step p cmd s)) = budget c s"
  proof (cases "command_observation cmd")
    case None
    with False show ?thesis by (cases cmd) (simp_all add: is_finish_def recovery_started_def)
  next
    case (Some ob)
    have "budget_moves p (ro_observedAtMs ob) (observed_class ob) c s (snd (zone_step p cmd s))"
      by (rule step_budget [OF Some]) (use esc in \<open>simp add: escalated_def\<close>)
    moreover have "observed_class ob = c \<Longrightarrow> ro_observedAtMs ob - u < rp_failedRecoveryResetMs p"
      using cmd Some False by (cases cmd) (auto simp: within_suspension_def is_finish_def)
    ultimately show ?thesis
      using esc suspension_resets_nothing [of "budget c s" u "ro_observedAtMs ob" p]
      by (auto simp: budget_moves_def escalated_def)
  qed
  have "sr_recoveryBudgetClass r' \<noteq> c" if r': "zr_stabilizing (snd (zone_step p cmd s)) = Some r'" for r'
  proof (cases "zr_stabilizing s")
    case None
    with step_not_stabilizing [OF False None] r' show ?thesis by simp
  next
    case (Some r)
    with step_stabilizing [OF False Some, of p] r' esc show ?thesis
      by (auto simp: stabilization_goes_on_def escalated_def)
  qed
  with same esc show ?thesis by (simp add: escalated_def)
qed

definition escalates :: "budget_class \<Rightarrow> recovery_command \<times> recovery_decision option \<Rightarrow> bool" where
  "escalates c entry \<longleftrightarrow> command_class (fst entry) = c \<and>
     (case snd entry of Some (RecoverySuspended a m e z) \<Rightarrow> e | _ \<Rightarrow> False)"

lemma step_escalates_not:
  assumes esc: "escalated p u c s" and cmd: "within_suspension p u c cmd"
  shows "\<not> escalates c (cmd, fst (zone_step p cmd s))"
proof
  assume "escalates c (cmd, fst (zone_step p cmd s))"
  then obtain a m z where d: "fst (zone_step p cmd s) = Some (RecoverySuspended a m True z)"
    and c: "command_class cmd = c"
    by (auto simp: escalates_def split: option.splits recovery_decision.splits)
  from step_suspends [OF d] obtain ob where ob: "command_observation cmd = Some ob"
    and susp: "suspends p (ro_observedAtMs ob) (observed_class ob) True s (snd (zone_step p cmd s))"
    by blast
  from ob c have oc: "observed_class ob = c" by (simp add: command_class_def)
  have "ro_observedAtMs ob - u < rp_failedRecoveryResetMs p"
    using cmd ob oc by (cases cmd) (auto simp: within_suspension_def)
  then have "resetFailedRecoveriesIfSuspensionExpired (budget c s) p (ro_observedAtMs ob) = budget c s"
    using esc by (intro reset_not_expired) (simp_all add: escalated_def)
  with susp esc show False by (simp add: suspends_def oc escalated_def)
qed

lemma run_escalated:
  "escalated p u c s \<Longrightarrow> list_all (within_suspension p u c) cs \<Longrightarrow>
     list_all (\<lambda>entry. \<not> escalates c entry) (fst (zone_run p cs s))"
proof (induction cs arbitrary: s)
  case Nil
  then show ?case by simp
next
  case (Cons cmd cs)
  then show ?case
    using step_escalated [of p u c s cmd] step_escalates_not [of p u c s cmd]
    by (simp add: zone_run_Cons del: zone_run.simps)
qed

lemma suspends_escalated:
  assumes "suspends p t c e s (snd (zone_step p cmd s))"
    and "bs_lastRecoveryAttemptAtMs (budget c (snd (zone_step p cmd s))) = Some u" and "\<not> is_finish cmd"
  shows "escalated p u c (snd (zone_step p cmd s))"
proof -
  from assms(1,2) have "zr_stabilizing (snd (zone_step p cmd s)) = None"
    by (intro step_not_stabilizing [OF assms(3)]) (simp add: suspends_def Let_def)
  with assms(1,2) show ?thesis
    by (auto simp: suspends_def escalated_def hasActiveRecoverySuspension_def Let_def)
qed

section \<open>The invariant of a zone\<close>

definition budget_ok :: "recovery_policy \<Rightarrow> budget_state \<Rightarrow> bool" where
  "budget_ok p b \<longleftrightarrow>
     0 \<le> bs_consecutiveFailedRecoveries b \<and>
     (bs_lastRecoveryAttemptAtMs b = None \<longrightarrow>
        bs_consecutiveFailedRecoveries b = 0 \<and> \<not> bs_operatorEscalationEmitted b) \<and>
     (bs_operatorEscalationEmitted b \<longrightarrow>
        bs_consecutiveFailedRecoveries b \<ge> rp_maxConsecutiveFailedRecoveries p)"

definition budgets_ok :: "recovery_policy \<Rightarrow> zone_recovery \<Rightarrow> bool" where
  "budgets_ok p s \<longleftrightarrow> (\<forall>c. budget_ok p (budget c s))"

definition evidence_ok :: "zone_recovery \<Rightarrow> bool" where
  "evidence_ok s \<longleftrightarrow>
     0 \<le> zr_controlSessionConsecutiveFailures s \<and> 0 \<le> zr_serviceConsecutiveFailures s \<and>
     (zr_serviceConsecutiveFailures s = 0 \<longleftrightarrow> zr_serviceLastFailureAtMs s = None) \<and>
     (zr_controlSessionRecoveryDue s \<longleftrightarrow> zr_controlSessionRecoveryDueAtMs s \<noteq> None) \<and>
     (zr_controlSessionRecoveryDue s \<longrightarrow>
        zr_sourceKey s \<noteq> None \<and> 0 < zr_controlSessionConsecutiveFailures s)"

definition stabilizing_ok :: "zone_recovery \<Rightarrow> bool" where
  "stabilizing_ok s \<longleftrightarrow>
     (\<forall>r. zr_stabilizing s = Some r \<longrightarrow>
        0 \<le> sr_controlSessionHealthyObservations r \<and> 0 \<le> sr_serviceHealthyObservations r)"

definition zone_ok :: "recovery_policy \<Rightarrow> zone_recovery \<Rightarrow> bool" where
  "zone_ok p s \<longleftrightarrow> budgets_ok p s \<and> evidence_ok s \<and> stabilizing_ok s"

lemma budget_decided_ok: "budget_ok p b \<Longrightarrow> budget_ok p (budget_decided p t b)"
  by (auto simp: budget_ok_def budget_decided_def Let_def resetFailedRecoveriesIfSuspensionExpired_def
      hasActiveRecoverySuspension_def split: option.splits)

lemma moves_budget_ok:
  "budget_moves p t c c' s s' \<Longrightarrow> budget_ok p (budget c' s) \<Longrightarrow> budget_ok p (budget c' s')"
  by (auto simp: budget_moves_def budget_decided_ok)

lemma count_healthy_budget_ok:
  "budget_ok p (budget c s) \<Longrightarrow> budget_ok p (budget c (count_healthy p t f s))"
  by (auto simp: count_healthy_def maybeFinishGatewayRecoveryStabilization_def budget_ok_def split: option.split)

lemma step_budget_any:
  assumes "budget_ok p (budget c s)"
  shows "budget_ok p (budget c (snd (zone_step p cmd s)))"
proof (cases cmd)
  case (Finished e)
  with assms show ?thesis
    by (auto simp: recovery_finished_def Let_def budget_ok_def split: option.split recovery_outcome.split)
next
  case (Terminal ob k)
  with assms show ?thesis
    by (auto simp: terminal_recovery_def intro: moves_budget_ok [OF decideRecovery_moves, where s = s])
next
  case (ChannelProvider ob)
  show ?thesis
    unfolding ChannelProvider zone_step.simps deciding_simps channel_provider_observation_def Let_def
    by (simp add: assms moves_budget_ok [OF decideRecovery_moves_policy, where s = s])
next
  case (ControlSession ob)
  show ?thesis
    unfolding ControlSession zone_step.simps deciding_simps control_session_observation_def Let_def
    by (simp add: assms count_healthy_budget_ok moves_budget_ok [OF decideCorroborated_moves, where s = s])
next
  case (ServiceProbe ob)
  show ?thesis
    unfolding ServiceProbe zone_step.simps deciding_simps service_probe_def Let_def
    by (simp add: assms count_healthy_budget_ok moves_budget_ok [OF decideCorroborated_moves, where s = s])
qed (use assms in \<open>simp_all add: recovery_started_def\<close>)

lemma evidence_ok_frame: "same_evidence s s' \<Longrightarrow> evidence_ok s' = evidence_ok s"
  by (simp add: evidence_ok_def same_evidence_def)

lemmas evidence_ok_decided [simp] =
  evidence_ok_frame [OF decideRecovery_frame] evidence_ok_frame [OF decideCorroborated_frame]

lemma evidence_ok_record [simp]: "evidence_ok s \<Longrightarrow> evidence_ok (recordGatewayRecoverySource k s)"
  by (auto simp: evidence_ok_def recordSource_due)

lemma evidence_ok_record_any [simp]: "evidence_ok s \<Longrightarrow> evidence_ok (record_source_if_any k s)"
  by (simp add: record_source_if_any_def split: option.split)

lemma evidence_ok_count [simp]: "evidence_ok (count_healthy p t f s) = evidence_ok s"
  by (simp add: evidence_ok_def)

lemma evidence_ok_updates [simp]:
  "evidence_ok (s\<lparr>zr_stabilizing := x\<rparr>) = evidence_ok s"
  "evidence_ok (s\<lparr>zr_channelProviderFailuresById := y\<rparr>) = evidence_ok s"
  "evidence_ok (s\<lparr>zr_recoveryInFlight := b\<rparr>) = evidence_ok s"
  "evidence_ok (put_budget c d s) = evidence_ok s"
  by (simp_all add: evidence_ok_def)

lemma evidence_ok_healthy:
  "evidence_ok s \<Longrightarrow> evidence_ok (s\<lparr>zr_controlSessionConsecutiveFailures := 0,
     zr_controlSessionRecoveryDue := False, zr_controlSessionRecoveryDueAtMs := None\<rparr>)"
  "evidence_ok s \<Longrightarrow> evidence_ok (s\<lparr>zr_serviceConsecutiveFailures := 0, zr_serviceLastFailureAtMs := None\<rparr>)"
  "evidence_ok s \<Longrightarrow> evidence_ok (s\<lparr>zr_controlSessionRecoveryDue := False, zr_controlSessionRecoveryDueAtMs := None\<rparr>)"
  by (simp_all add: evidence_ok_def)

lemma evidence_ok_service_failure:
  "evidence_ok s \<Longrightarrow> evidence_ok (s\<lparr>zr_stabilizing := x,
     zr_serviceConsecutiveFailures := zr_serviceConsecutiveFailures s + 1, zr_serviceLastFailureAtMs := Some t\<rparr>)"
  by (simp add: evidence_ok_def)

lemma evidence_ok_count_failure: "evidence_ok s \<Longrightarrow> evidence_ok (count_failure s)"
  by (auto simp: evidence_ok_def)

lemma evidence_ok_due:
  "evidence_ok s \<Longrightarrow> evidence_ok ((count_failure (recordGatewayRecoverySource k s))
     \<lparr>zr_controlSessionRecoveryDue := True, zr_controlSessionRecoveryDueAtMs := Some t\<rparr>)"
  by (auto simp: evidence_ok_def recordSource_due)

lemma step_evidence:
  assumes ok: "evidence_ok s"
  shows "evidence_ok (snd (zone_step p cmd s))"
proof (cases cmd)
  case (Finished e)
  with ok show ?thesis
    by (simp add: recovery_finished_def Let_def split: option.split recovery_outcome.split)
next
  case (ControlSession ob)
  show ?thesis
  proof (cases "ro_result ob" rule: observation_cases)
    case 3
    with ok degraded_not_healthy [OF 3] show ?thesis
      by (cases "ro_sourceKey ob")
        (simp_all add: ControlSession control_session_observation_def Let_def isHealthyObservation_def
          record_source_if_any_def evidence_ok_due evidence_ok_healthy evidence_ok_count_failure)
  qed (use ok in \<open>simp_all add: ControlSession control_session_observation_def Let_def
        isHealthyObservation_def evidence_ok_healthy\<close>)
next
  case (ServiceProbe ob)
  with ok show ?thesis
    by (simp add: service_probe_def Let_def evidence_ok_healthy evidence_ok_service_failure)
next
  case (ChannelProvider ob)
  with ok show ?thesis by (simp add: channel_provider_observation_def Let_def)
qed (use ok in \<open>simp_all add: terminal_recovery_def recovery_started_def\<close>)

lemma step_stabilizing_ok:
  assumes "stabilizing_ok s"
  shows "stabilizing_ok (snd (zone_step p cmd s))"
proof (cases "is_finish cmd")
  case True
  then obtain e where "cmd = Finished e" by (cases cmd) (auto simp: is_finish_def)
  with assms show ?thesis
    by (auto simp: recovery_finished_def Let_def stabilizing_ok_def split: option.split recovery_outcome.split)
next
  case False
  show ?thesis
  proof (cases "zr_stabilizing s")
    case None
    with step_not_stabilizing [OF False None] show ?thesis by (simp add: stabilizing_ok_def)
  next
    case (Some r)
    with step_stabilizing [OF False Some, of p] assms show ?thesis
      by (auto simp: stabilizing_ok_def stabilization_goes_on_def)
  qed
qed

lemma step_zone_ok: "zone_ok p s \<Longrightarrow> zone_ok p (snd (zone_step p cmd s))"
  by (simp add: zone_ok_def budgets_ok_def step_budget_any step_evidence step_stabilizing_ok)

lemma initial_zone_ok: "zone_ok p createInitialGatewayVmRecoveryTrackerState"
  by (simp add: zone_ok_def budgets_ok_def budget_ok_def budget_def evidence_ok_def stabilizing_ok_def
      createInitialGatewayVmRecoveryTrackerState_def createInitialGatewayVmRecoveryBudgetState_def
      split: budget_class.split)

definition tracker_ok :: "recovery_policy \<Rightarrow> recovery_tracker \<Rightarrow> bool" where
  "tracker_ok p tr \<longleftrightarrow> (\<forall>z. zone_ok p (getStateForZone tr z))"

lemma empty_tracker_ok: "tracker_ok p []"
  by (simp add: tracker_ok_def getStateForZone_def initial_zone_ok)

lemma step_tracker_ok: "tracker_ok p tr \<Longrightarrow> tracker_ok p (snd (tracker_step p cmd tr))"
  by (simp add: tracker_ok_def zone_after_step step_zone_ok)

text \<open>The tracker is a reducer that never fails.\<close>

definition tracker_exec :: "recovery_policy \<Rightarrow> recovery_tracker \<Rightarrow> recovery_command \<Rightarrow> unit + recovery_tracker" where
  "tracker_exec p tr cmd = Inr (snd (tracker_step p cmd tr))"

interpretation recovery: guarded_reducer "tracker_exec p" "\<lambda>_. True" "tracker_ok p" for p
  by unfold_locales (auto simp: tracker_exec_def step_tracker_ok)

lemma run_commands_tracker: "run_commands (tracker_exec p) tr cs = snd (tracker_run p cs tr)"
  by (induction cs arbitrary: tr)
    (simp_all add: apply_command_def tracker_exec_def tracker_run_Cons del: tracker_run.simps(2))

lemma run_tracker_ok: "tracker_ok p tr \<Longrightarrow> tracker_ok p (snd (tracker_run p cs tr))"
  using recovery.run_inv [of p tr cs] by (simp add: run_commands_tracker list_all_iff)

end
