(* ===== verification/RecoveryProperties.thy ===== *)
theory RecoveryProperties
  imports RecoveryInvariant
begin

text \<open>
  What the Gateway VM recovery tracker guarantees to the controller that drives it.
\<close>

section \<open>A sample zone, for the witnesses\<close>

definition sample_policy :: recovery_policy where
  "sample_policy =
     \<lparr>rp_channelProviderHealth = None, rp_consecutiveFailureThreshold = 3, rp_cooldownMs = 60000,
      rp_enabled = True, rp_failedRecoveryResetMs = 1800000, rp_maxConsecutiveFailedRecoveries = 2,
      rp_restartTimeoutMs = 30000\<rparr>"

definition sample_key :: "string \<Rightarrow> source_key" where
  "sample_key boot =
     \<lparr>sk_bootId = boot, sk_domain = ''gateway_control'', sk_gatewayVmId = ''vm'',
      sk_generationId = ''g'', sk_zoneId = ''zone''\<rparr>"

definition sample_observation :: "observation_result \<Rightarrow> millis \<Rightarrow> source_key option \<Rightarrow> recovery_observation" where
  "sample_observation r t k =
     \<lparr>ro_channelProviderHealth = None, ro_channelProviderId = None, ro_controlSessionDeathGrace = None,
      ro_observedAtMs = t, ro_recoveryBudgetClass = None, ro_result = r, ro_sourceKey = k,
      ro_zoneId = ''zone''\<rparr>"

definition sample_event :: "recovery_outcome option \<Rightarrow> millis \<Rightarrow> lifecycle_event" where
  "sample_event r t =
     \<lparr>le_observedAtMs = t, le_recoveryBudgetClass = None, le_result = r, le_zoneId = ''zone''\<rparr>"

definition sample_terminal :: "millis \<Rightarrow> recovery_command" where
  "sample_terminal t = Terminal (sample_observation ObservedFailed t None) (sample_key ''a'')"

definition sample_failed :: "millis \<Rightarrow> recovery_command" where
  "sample_failed t = Finished (sample_event (Some OutcomeFailed) t)"

section \<open>The properties\<close>

text \<open>
  C17: Every call of the tracker, in every state, decides a restart of the Gateway exactly when
  the policy is enabled, no recovery of the zone is in flight or stabilizing, the budget named by
  the observation is past its cooldown and not suspended, and the detector has its evidence: the
  loss of the attachment itself, enough degraded reports of one channel provider under a policy
  that restarts for it, or enough failed probes of the service which, for a running VM, a
  control-session death inside the corroboration window confirms. The decision names the zone, the
  reason and the count of failures.
\<close>

theorem restart_decided_exactly_when:
  fixes tr :: recovery_tracker and cmd :: recovery_command
  defines "s \<equiv> getStateForZone tr (command_zone cmd)"
  shows "fst (tracker_step p cmd tr) = Some (RestartGateway n r z) \<longleftrightarrow>
    z = command_zone cmd \<and> r = restart_reason cmd \<and> n = restart_failures p cmd s \<and>
    restart_evidence p cmd s \<and>
    (\<exists>ob. command_observation cmd = Some ob \<and>
       restart_permitted p (ro_observedAtMs ob) (observed_class ob) s)"
  by (auto simp: fst_tracker_step zone_restart_iff s_def)

text \<open>
  Zones do not influence each other: in a run of the tracker, the decisions about a zone and
  the state it ends in are those of the zone's own commands run alone.
\<close>

theorem recovery_zones_are_isolated:
  "of_zone z (fst (tracker_run p cs tr)) =
     fst (zone_run p (filter (\<lambda>c. command_zone c = z) cs) (getStateForZone tr z)) \<and>
   getStateForZone (snd (tracker_run p cs tr)) z =
     snd (zone_run p (filter (\<lambda>c. command_zone c = z) cs) (getStateForZone tr z))"
  by (rule tracker_run_projects)

text \<open>
  C21: Every state the tracker reaches is well formed: no counter is negative; a budget with failed
  recoveries or an emitted escalation has an attempt time, and an escalation has been emitted only
  with the budget used up; the time of the last failed probe is known exactly while probes fail;
  and a control-session death that is due has a time, a source and counted failures.
\<close>

theorem reachable_trackers_are_well_formed: "tracker_ok p (snd (tracker_run p cs []))"
  by (rule run_tracker_ok [OF empty_tracker_ok])

text \<open>
  C18: Recoveries that fail do not loop: whatever observations arrive, also while a recovery runs,
  within one reset period after the first failure at most as many restarts are decided on a budget
  as the policy allows consecutive failures (and at least one).
\<close>

theorem failing_restarts_are_bounded:
  assumes "\<forall>a\<in>set as. attempt_within p start a"
    and "zr_stabilizing s = None" and "zone_ok p s"
  shows "restarts_of p c as s \<le> max 1 (nat (rp_maxConsecutiveFailedRecoveries p))"
  using assms(3)
  by (intro restarts_in_window [OF assms(1,2)]) (simp add: zone_ok_def budgets_ok_def budget_ok_def)

theorem failing_restarts_are_bounded_witness:
  "restarts_of sample_policy VmRestart
     (map (\<lambda>t. \<lparr>ra_command = sample_terminal t, ra_during = [], ra_finishedAt = t + 10\<rparr>)
       [0, 100000, 200000, 300000])
     createInitialGatewayVmRecoveryTrackerState \<le> 2"
proof -
  have "\<forall>a\<in>set (map (\<lambda>t. \<lparr>ra_command = sample_terminal t, ra_during = [], ra_finishedAt = t + 10\<rparr>)
       [0, 100000, 200000, 300000]). attempt_within sample_policy 0 a"
    by (simp add: attempt_within_def attempt_observes_def sample_terminal_def sample_policy_def
        command_time_def sample_observation_def)
  from failing_restarts_are_bounded [OF this, of createInitialGatewayVmRecoveryTrackerState VmRestart]
  show ?thesis
    using initial_zone_ok [of sample_policy]
    by (simp add: createInitialGatewayVmRecoveryTrackerState_def sample_policy_def)
qed

text \<open>
  One escalation per suspension: once a request on a budget has been answered with a
  suspension, no later answer on that budget asks for an outward escalation, for as long as the
  suspension lasts and no recovery of the budget finishes.
\<close>

theorem suspension_escalates_once:
  fixes p cmd tr
  defines "tr' \<equiv> snd (tracker_step p cmd tr)" and "z \<equiv> command_zone cmd" and "c \<equiv> command_class cmd"
  assumes "fst (tracker_step p cmd tr) = Some (RecoverySuspended a m e zone)"
    and "bs_lastRecoveryAttemptAtMs (budget c (getStateForZone tr' z)) = Some u"
    and "list_all (within_suspension p u c) (filter (\<lambda>cmd. command_zone cmd = z) cs)"
  shows "list_all (\<lambda>entry. \<not> escalates c entry) (of_zone z (fst (tracker_run p cs tr')))"
proof -
  have decided: "fst (zone_step p cmd (getStateForZone tr z)) = Some (RecoverySuspended a m e zone)"
    using assms(4) by (simp add: fst_tracker_step z_def)
  have state: "getStateForZone tr' z = snd (zone_step p cmd (getStateForZone tr z))"
    by (simp add: tr'_def zone_after_step z_def)
  obtain ob where ob: "command_observation cmd = Some ob"
    and "suspends p (ro_observedAtMs ob) (observed_class ob) e (getStateForZone tr z) (getStateForZone tr' z)"
    using step_suspends [OF decided] by (auto simp: state)
  then have "suspends p (ro_observedAtMs ob) c e (getStateForZone tr z)
      (snd (zone_step p cmd (getStateForZone tr z)))"
    by (simp add: c_def command_class_def state)
  from suspends_escalated [OF this] assms(5) ob have "escalated p u c (getStateForZone tr' z)"
    by (simp add: state observation_not_lifecycle lifecycle_finish)
  then show ?thesis
    using assms(6) by (simp add: tracker_run_projects run_escalated)
qed

theorem suspension_escalates_once_witness:
  defines "tr \<equiv> snd (tracker_run sample_policy [sample_failed 0, sample_failed 1000] [])"
  shows "list_all (\<lambda>entry. \<not> escalates VmRestart entry)
    (of_zone ''zone'' (fst (tracker_run sample_policy [sample_terminal 200000, sample_terminal 300000]
       (snd (tracker_step sample_policy (sample_terminal 100000) tr)))))"
proof -
  have zone: "command_zone (sample_terminal t) = ''zone''" "command_class (sample_terminal t) = VmRestart" for t
    by (simp_all add: sample_terminal_def sample_observation_def command_class_def observed_class_def
        class_or_restart_def)
  have decided: "fst (tracker_step sample_policy (sample_terminal 100000) tr) =
      Some (RecoverySuspended 2 3 True ''zone'')"
    unfolding tr_def by code_simp
  have attempt: "bs_lastRecoveryAttemptAtMs (budget VmRestart
      (getStateForZone (snd (tracker_step sample_policy (sample_terminal 100000) tr)) ''zone'')) = Some 1000"
    unfolding tr_def by code_simp
  have within: "list_all (within_suspension sample_policy 1000 VmRestart)
      (filter (\<lambda>cmd. command_zone cmd = ''zone'') [sample_terminal 200000, sample_terminal 300000])"
    by code_simp
  show ?thesis
    by (rule suspension_escalates_once [where p = sample_policy and cmd = "sample_terminal 100000" and tr = tr,
        unfolded zone, OF decided attempt within])
qed

text \<open>
  C19: A recovery that is reported successful frees its budget only on evidence: if, after the
  report, the zone stops stabilizing before another recovery of it finishes, at least three
  healthy control-session observations and three healthy service probes have come in, one of them
  no earlier than the restart timeout after the report.
\<close>

theorem stabilization_needs_evidence:
  fixes p e cs tr
  defines "z \<equiv> le_zoneId e" and "own \<equiv> filter (\<lambda>cmd. command_zone cmd = le_zoneId e) cs"
  assumes "le_result e = Some OutcomeOk" and "list_all (\<lambda>cmd. \<not> is_finish cmd) own"
    and "zr_stabilizing (getStateForZone (snd (tracker_run p cs (markRecoveryFinished e tr))) z) = None"
  shows "3 \<le> count_commands healthy_control own \<and> 3 \<le> count_commands healthy_service own \<and>
    (\<exists>cmd\<in>set own. (healthy_control cmd \<or> healthy_service cmd) \<and>
       command_time cmd - le_observedAtMs e \<ge> rp_restartTimeoutMs p)"
proof -
  let ?s = "getStateForZone (markRecoveryFinished e tr) z"
  obtain r where r: "zr_stabilizing ?s = Some r" "sr_startedAtMs r = le_observedAtMs e"
    "sr_controlSessionHealthyObservations r = 0" "sr_serviceHealthyObservations r = 0"
    using assms(3)
    by (simp add: z_def markRecoveryFinished_def in_zone_def Let_def getStateForZone_set recovery_finished_def)
  have "zr_stabilizing (snd (zone_run p own ?s)) = None"
    using assms(5) by (simp add: tracker_run_projects own_def z_def)
  then show ?thesis
    using run_stabilization_evidence [of own ?s r p] assms(4) r
    by (simp add: list_all_iff stability_observations_def)
qed

definition sample_healthy :: "recovery_command list" where
  "sample_healthy = concat (map (\<lambda>t.
     [ControlSession (sample_observation ObservedOk t (Some (sample_key ''a''))),
      ServiceProbe (sample_observation ObservedOk t (Some (sample_key ''a'')))]) [10000, 20000, 40000])"

definition sample_stabilizing :: "int \<Rightarrow> int \<Rightarrow> zone_recovery" where
  "sample_stabilizing n m = createInitialGatewayVmRecoveryTrackerState
     \<lparr>zr_sourceKey := Some (gatewayRecoverySourceKey (sample_key ''a'')),
      zr_stabilizing := Some
        \<lparr>sr_boundSourceKey = Some (gatewayRecoverySourceKey (sample_key ''a'')),
         sr_controlSessionHealthyObservations = n, sr_recoveryBudgetClass = VmRestart,
         sr_serviceHealthyObservations = m, sr_startedAtMs = 0\<rparr>\<rparr>"

lemma sample_healthy_steps:
  "zr_stabilizing (snd (zone_run sample_policy sample_healthy
     (recovery_finished (sample_event (Some OutcomeOk) 0) createInitialGatewayVmRecoveryTrackerState))) = None"
proof -
  let ?c = "\<lambda>t. ControlSession (sample_observation ObservedOk t (Some (sample_key ''a'')))"
  let ?p = "\<lambda>t. ServiceProbe (sample_observation ObservedOk t (Some (sample_key ''a'')))"
  have "snd (zone_step sample_policy (?c 10000)
      (recovery_finished (sample_event (Some OutcomeOk) 0) createInitialGatewayVmRecoveryTrackerState)) =
      sample_stabilizing 1 0"
    by code_simp
  moreover have "snd (zone_step sample_policy (?p 10000) (sample_stabilizing 1 0)) = sample_stabilizing 1 1"
    by code_simp
  moreover have "snd (zone_step sample_policy (?c 20000) (sample_stabilizing 1 1)) = sample_stabilizing 2 1"
    by code_simp
  moreover have "snd (zone_step sample_policy (?p 20000) (sample_stabilizing 2 1)) = sample_stabilizing 2 2"
    by code_simp
  moreover have "snd (zone_step sample_policy (?c 40000) (sample_stabilizing 2 2)) = sample_stabilizing 3 2"
    by code_simp
  moreover have "zr_stabilizing (snd (zone_step sample_policy (?p 40000) (sample_stabilizing 3 2))) = None"
    by code_simp
  ultimately show ?thesis
    by (simp add: sample_healthy_def zone_run_Cons del: zone_run.simps(2) zone_step.simps)
qed

theorem stabilization_needs_evidence_witness:
  "3 \<le> count_commands healthy_control sample_healthy \<and> 3 \<le> count_commands healthy_service sample_healthy \<and>
   (\<exists>cmd\<in>set sample_healthy. (healthy_control cmd \<or> healthy_service cmd) \<and>
      command_time cmd - 0 \<ge> 30000)"
proof -
  have event: "le_result (sample_event (Some OutcomeOk) 0) = Some OutcomeOk"
    "le_zoneId (sample_event (Some OutcomeOk) 0) = ''zone''" "le_observedAtMs (sample_event (Some OutcomeOk) 0) = 0"
    by (simp_all add: sample_event_def)
  have zones: "filter (\<lambda>cmd. command_zone cmd = ''zone'') sample_healthy = sample_healthy"
    by (simp add: sample_healthy_def sample_observation_def)
  have quiet: "list_all (\<lambda>cmd. \<not> is_finish cmd) sample_healthy"
    by code_simp
  have ended: "zr_stabilizing (getStateForZone (snd (tracker_run sample_policy sample_healthy
      (markRecoveryFinished (sample_event (Some OutcomeOk) 0) []))) ''zone'') = None"
    unfolding conjunct2 [OF tracker_run_projects] zones
    using sample_healthy_steps
    by (simp add: markRecoveryFinished_def in_zone_def getStateForZone_def event)
  have policy: "rp_restartTimeoutMs sample_policy = 30000"
    by (simp add: sample_policy_def)
  show ?thesis
    by (rule stabilization_needs_evidence [where e = "sample_event (Some OutcomeOk) 0" and cs = sample_healthy
          and p = sample_policy and tr = "[]", unfolded event zones policy, OF refl quiet ended])
qed

text \<open>
  C20: A stabilization can outlive the Gateway it belongs to: when the Gateway whose source was
  bound to the recovery has been replaced, so that no later observation carries that source, the
  zone stays stabilizing whatever is observed, healthy or not, and the tracker answers no request
  of the zone with a restart or a suspension any more.
\<close>

theorem replaced_source_disables_recovery:
  fixes p cs tr z
  defines "own \<equiv> filter (\<lambda>cmd. command_zone cmd = z) cs"
  assumes "orphaned b (getStateForZone tr z)" and "list_all (\<lambda>cmd. \<not> is_finish cmd) own"
    and "\<forall>cmd\<in>set own. map_option gatewayRecoverySourceKey (command_source cmd) \<noteq> Some b"
  shows "orphaned b (getStateForZone (snd (tracker_run p cs tr)) z) \<and>
    list_all (\<lambda>(cmd, d). is_no_recovery d) (of_zone z (fst (tracker_run p cs tr)))"
  using run_orphaned [OF assms(2), of own p] assms(3,4)
  by (auto simp: tracker_run_projects own_def list_all_iff)

definition sample_after_replacement :: "recovery_command list" where
  "sample_after_replacement = concat (map (\<lambda>t.
     [ControlSession (sample_observation ObservedOk t (Some (sample_key ''b''))),
      ServiceProbe (sample_observation ObservedOk t (Some (sample_key ''b'')))])
       [100000, 200000, 300000, 400000]) @
     [Terminal (sample_observation ObservedFailed 500000 None) (sample_key ''b'')]"

theorem replaced_source_disables_recovery_witness:
  defines "tr \<equiv> snd (tracker_run sample_policy
    [Finished (sample_event (Some OutcomeOk) 0), SourceChange (sample_key ''a'') ''zone'',
     SourceChange (sample_key ''b'') ''zone''] [])"
  shows "list_all (\<lambda>(cmd, d). is_no_recovery d)
    (of_zone ''zone'' (fst (tracker_run sample_policy sample_after_replacement tr)))"
proof -
  have zones: "filter (\<lambda>cmd. command_zone cmd = ''zone'') sample_after_replacement = sample_after_replacement"
    by (simp add: sample_after_replacement_def sample_observation_def)
  have "zr_sourceKey (getStateForZone tr ''zone'') = Some (gatewayRecoverySourceKey (sample_key ''b''))"
    unfolding tr_def by code_simp
  moreover have "map_option sr_boundSourceKey (zr_stabilizing (getStateForZone tr ''zone'')) =
       Some (Some (gatewayRecoverySourceKey (sample_key ''a'')))"
    unfolding tr_def by code_simp
  moreover have "gatewayRecoverySourceKey (sample_key ''b'') \<noteq> gatewayRecoverySourceKey (sample_key ''a'')"
    by code_simp
  ultimately have orphan: "orphaned (gatewayRecoverySourceKey (sample_key ''a'')) (getStateForZone tr ''zone'')"
    by (auto simp: orphaned_def)
  have quiet: "list_all (\<lambda>cmd. \<not> is_finish cmd) sample_after_replacement"
    by code_simp
  have other: "\<forall>cmd\<in>set sample_after_replacement.
      map_option gatewayRecoverySourceKey (command_source cmd) \<noteq> Some (gatewayRecoverySourceKey (sample_key ''a''))"
    by code_simp
  show ?thesis
    using replaced_source_disables_recovery [where cs = sample_after_replacement and z = "''zone''" and p = sample_policy,
        unfolded zones, OF orphan quiet other] by (rule conjunct2)
qed

end
