(* ===== verification/AggregateAdmission.thy ===== *)
theory AggregateAdmission
  imports Prelude "HOL-Library.Multiset" "HOL-Library.Char_ord" "HOL-Library.List_Lexorder"
begin

text \<open>
  packages/agent-vm/src/gateway/gateway-aggregate-admission-state.ts: the decision whether the
  cohort of services in a Gateway VM is admitted to public ingress, from what is observed of its
  eleven readiness planes and of its ingress routes. \<open>String.localeCompare\<close> depends on the
  locale of the host, so it is a parameter, \<open>compare\<close>, of the definitions that sort routes;
  \<open>toSorted()\<close> without a comparator is \<open>sort\<close> in the lexicographic order of the
  character codes.
\<close>

section \<open>Identities and routes\<close>

datatype framework_kind = Hermes
datatype client_kind = HermesManagedPlugin

record admission_fence =
  af_controllerEpoch :: string
  af_gatewayEpoch :: string
  af_vmId :: string
  af_zoneId :: string

record tool_portal_identity =
  tp_processEpoch :: string
  tp_runtimeEpoch :: string
  tp_serviceId :: string

record framework_admission_identity =
  fi_attachmentGeneration :: int
  fi_clientKind :: client_kind
  fi_configuredAgentIds :: "string list"
  fi_frameworkEpoch :: string
  fi_frameworkKind :: framework_kind
  fi_projectionCohortDigest :: string

record uds_identity =
  ud_frameworkEpoch :: string
  ud_gatewayEpoch :: string
  ud_runtimeEpoch :: string
  ud_socketPath :: string

text \<open>
  An attachment identity has the fields of both; the framework epoch is one field of both
  interfaces.
\<close>

record uds_attachment_identity = framework_admission_identity +
  ua_gatewayEpoch :: string
  ua_runtimeEpoch :: string
  ua_socketPath :: string

record control_identity =
  ci_controllerEpoch :: string
  ci_generationId :: string
  ci_peerId :: string
  ci_processEpoch :: string

record route_identity =
  ri_guestPort :: int
  ri_prefix :: string
  ri_stripPrefix :: bool

record protected_route = route_identity +
  pr_audience :: string

datatype ingress_route =
  FrameworkRootRoute route_identity
| ToolPortalControlRoute protected_route

record ingress_intent =
  ii_controlRoute :: protected_route
  ii_frameworkRootRoute :: route_identity

record expected_cohort =
  ec_controlIdentity :: control_identity
  ec_fence :: admission_fence
  ec_frameworkIdentity :: framework_admission_identity
  ec_ingressIntent :: ingress_intent
  ec_providerRevision :: string
  ec_requiredBackendRevision :: string
  ec_semanticRevision :: string
  ec_toolPortalIdentity :: tool_portal_identity
  ec_udsIdentity :: uds_identity

datatype 'i plane_observation = PlaneLost 'i | PlanePending | PlaneReady 'i

datatype service_role = FrameworkService | ToolPortalService

datatype fatal_evidence = NoFatal | FatalObserved string service_role

record readiness_vector =
  rv_authorityBearingControl :: "control_identity plane_observation"
  rv_fatalEvidence :: fatal_evidence
  rv_frameworkIdentity :: "framework_admission_identity plane_observation"
  rv_frameworkNativeReadiness :: "framework_admission_identity plane_observation"
  rv_ingressRoutes :: "ingress_route list"
  rv_providerRevision :: "string plane_observation"
  rv_requiredBackends :: "string plane_observation"
  rv_semanticRevision :: "string plane_observation"
  rv_toolPortalIdentity :: "tool_portal_identity plane_observation"
  rv_toolPortalReadiness :: "tool_portal_identity plane_observation"
  rv_udsAttachment :: "uds_attachment_identity plane_observation"
  rv_udsPublication :: "uds_identity plane_observation"
  rv_vmLiveness :: "admission_fence plane_observation"

datatype plane_name =
  VmLivenessPlane | ToolPortalIdentityPlane | ToolPortalReadinessPlane | FrameworkIdentityPlane
| FrameworkNativeReadinessPlane | SemanticRevisionPlane | ProviderRevisionPlane
| UdsPublicationPlane | UdsAttachmentPlane | AuthorityBearingControlPlane | RequiredBackendsPlane

datatype containment_reason =
  PlaneMismatch plane_name
| FrameworkServiceFatal
| MissingControlIngressRoute
| PrematurePublicIngress
| ToolPortalServiceFatal
| UnexpectedIngressRoute

datatype evaluation_phase = PhaseAdmitted | PhaseJoining | PhasePublishingIngress

datatype aggregate_decision =
  AggregateAdmitted "ingress_route list"
| AggregateContain "containment_reason list" bool
| AggregatePublishIngress "ingress_route list"
| AggregateWaiting "plane_name list"
| AggregateWithdrawIngress (lost_planes: "plane_name list") (retain_routes: "ingress_route list")

record evaluation_accumulator =
  ea_lostPlanes :: "plane_name list"
  ea_mismatchReasons :: "containment_reason list"
  ea_pendingPlanes :: "plane_name list"

section \<open>Observing one plane\<close>

definition observeAdmissionPlane :: "('i \<Rightarrow> 'i \<Rightarrow> bool) \<Rightarrow> 'i \<Rightarrow> 'i plane_observation \<Rightarrow> plane_name
    \<Rightarrow> evaluation_accumulator \<Rightarrow> evaluation_accumulator" where
  "observeAdmissionPlane sameIdentity expected ob plane acc =
     (case ob of
        PlanePending \<Rightarrow> acc\<lparr>ea_pendingPlanes := ea_pendingPlanes acc @ [plane]\<rparr>
      | PlaneLost identity \<Rightarrow>
          if sameIdentity identity expected
          then acc\<lparr>ea_lostPlanes := ea_lostPlanes acc @ [plane]\<rparr> else acc
      | PlaneReady identity \<Rightarrow>
          if \<not> sameIdentity identity expected
          then acc\<lparr>ea_mismatchReasons := ea_mismatchReasons acc @ [PlaneMismatch plane]\<rparr> else acc)"

definition sameConfiguredAgentIdentity :: "'z framework_admission_identity_scheme \<Rightarrow> 'z framework_admission_identity_scheme \<Rightarrow> bool" where
  "sameConfiguredAgentIdentity l r \<longleftrightarrow>
     l\<lparr>fi_configuredAgentIds := []\<rparr> = r\<lparr>fi_configuredAgentIds := []\<rparr> \<and>
     sort (fi_configuredAgentIds l) = sort (fi_configuredAgentIds r)"

section \<open>Routes\<close>

definition routeKindOrder :: "ingress_route \<Rightarrow> int" where
  "routeKindOrder r = (case r of ToolPortalControlRoute _ \<Rightarrow> 0 | FrameworkRootRoute _ \<Rightarrow> 1)"

definition route_prefix :: "ingress_route \<Rightarrow> string" where
  "route_prefix r = (case r of ToolPortalControlRoute p \<Rightarrow> ri_prefix p | FrameworkRootRoute i \<Rightarrow> ri_prefix i)"

definition route_port :: "ingress_route \<Rightarrow> int" where
  "route_port r = (case r of ToolPortalControlRoute p \<Rightarrow> ri_guestPort p | FrameworkRootRoute i \<Rightarrow> ri_guestPort i)"

definition compareIngressRoutes :: "(string \<Rightarrow> string \<Rightarrow> int) \<Rightarrow> ingress_route \<Rightarrow> ingress_route \<Rightarrow> int" where
  "compareIngressRoutes compare l r =
     (let kindDifference = routeKindOrder l - routeKindOrder r
      in if kindDifference \<noteq> 0 then kindDifference
         else
           (let prefixDifference = compare (route_prefix l) (route_prefix r)
            in if prefixDifference \<noteq> 0 then prefixDifference else route_port l - route_port r))"

definition sameIngressRoutes :: "(string \<Rightarrow> string \<Rightarrow> int) \<Rightarrow> ingress_route list \<Rightarrow> ingress_route list \<Rightarrow> bool" where
  "sameIngressRoutes compare l r \<longleftrightarrow>
     js_sort (compareIngressRoutes compare) l = js_sort (compareIngressRoutes compare) r"

definition control_route_of :: "ingress_intent \<Rightarrow> ingress_route" where
  "control_route_of i = ToolPortalControlRoute (ii_controlRoute i)"

definition expectedFinalIngressRoutes :: "ingress_intent \<Rightarrow> ingress_route list" where
  "expectedFinalIngressRoutes i = [control_route_of i, FrameworkRootRoute (ii_frameworkRootRoute i)]"

definition is_control_route :: "ingress_route \<Rightarrow> bool" where
  "is_control_route r = (case r of ToolPortalControlRoute _ \<Rightarrow> True | FrameworkRootRoute _ \<Rightarrow> False)"

definition hasPublicIngress :: "ingress_route list \<Rightarrow> bool" where
  "hasPublicIngress routes = list_ex (\<lambda>r. \<not> is_control_route r) routes"

section \<open>The decision\<close>

definition expected_attachment :: "expected_cohort \<Rightarrow> uds_attachment_identity" where
  "expected_attachment c =
     (let f = ec_frameworkIdentity c; u = ec_udsIdentity c
      in \<lparr>fi_attachmentGeneration = fi_attachmentGeneration f, fi_clientKind = fi_clientKind f,
          fi_configuredAgentIds = fi_configuredAgentIds f, fi_frameworkEpoch = ud_frameworkEpoch u,
          fi_frameworkKind = fi_frameworkKind f,
          fi_projectionCohortDigest = fi_projectionCohortDigest f,
          ua_gatewayEpoch = ud_gatewayEpoch u, ua_runtimeEpoch = ud_runtimeEpoch u,
          ua_socketPath = ud_socketPath u\<rparr>)"

definition observe_planes :: "expected_cohort \<Rightarrow> readiness_vector \<Rightarrow> evaluation_accumulator" where
  "observe_planes c v =
     (let a0 = \<lparr>ea_lostPlanes = [], ea_mismatchReasons = [], ea_pendingPlanes = []\<rparr>;
          a1 = observeAdmissionPlane (=) (ec_fence c) (rv_vmLiveness v) VmLivenessPlane a0;
          a2 = observeAdmissionPlane (=) (ec_toolPortalIdentity c) (rv_toolPortalIdentity v)
                 ToolPortalIdentityPlane a1;
          a3 = observeAdmissionPlane (=) (ec_toolPortalIdentity c) (rv_toolPortalReadiness v)
                 ToolPortalReadinessPlane a2;
          a4 = observeAdmissionPlane sameConfiguredAgentIdentity (ec_frameworkIdentity c)
                 (rv_frameworkIdentity v) FrameworkIdentityPlane a3;
          a5 = observeAdmissionPlane sameConfiguredAgentIdentity (ec_frameworkIdentity c)
                 (rv_frameworkNativeReadiness v) FrameworkNativeReadinessPlane a4;
          a6 = observeAdmissionPlane (=) (ec_semanticRevision c) (rv_semanticRevision v)
                 SemanticRevisionPlane a5;
          a7 = observeAdmissionPlane (=) (ec_providerRevision c) (rv_providerRevision v)
                 ProviderRevisionPlane a6;
          a8 = observeAdmissionPlane (=) (ec_udsIdentity c) (rv_udsPublication v)
                 UdsPublicationPlane a7;
          a9 = observeAdmissionPlane sameConfiguredAgentIdentity (expected_attachment c)
                 (rv_udsAttachment v) UdsAttachmentPlane a8;
          a10 = observeAdmissionPlane (=) (ec_controlIdentity c) (rv_authorityBearingControl v)
                  AuthorityBearingControlPlane a9
      in observeAdmissionPlane (=) (ec_requiredBackendRevision c) (rv_requiredBackends v)
           RequiredBackendsPlane a10)"

definition fatal_reasons :: "expected_cohort \<Rightarrow> readiness_vector \<Rightarrow> containment_reason list" where
  "fatal_reasons c v =
     (case rv_fatalEvidence v of
        NoFatal \<Rightarrow> []
      | FatalObserved epoch role \<Rightarrow>
          if epoch = af_gatewayEpoch (ec_fence c)
          then [if role = ToolPortalService then ToolPortalServiceFatal else FrameworkServiceFatal]
          else [])"

definition evaluateGatewayAggregateAdmission :: "(string \<Rightarrow> string \<Rightarrow> int) \<Rightarrow> expected_cohort
    \<Rightarrow> evaluation_phase \<Rightarrow> readiness_vector \<Rightarrow> aggregate_decision" where
  "evaluateGatewayAggregateAdmission compare c phase v =
     (let acc = observe_planes c v;
          routes = rv_ingressRoutes v;
          control = control_route_of (ec_ingressIntent c);
          finalRoutes = expectedFinalIngressRoutes (ec_ingressIntent c);
          controlRouteOnly = sameIngressRoutes compare routes [control];
          exactFinalRoutes = sameIngressRoutes compare routes finalRoutes;
          publicIngressPresent = hasPublicIngress routes;
          reasons = ea_mismatchReasons acc @ fatal_reasons c v @
            (if \<not> controlRouteOnly \<and> \<not> exactFinalRoutes
             then [if list_ex is_control_route routes
                   then UnexpectedIngressRoute else MissingControlIngressRoute]
             else []);
          unavailable = ea_pendingPlanes acc @ ea_lostPlanes acc
      in if reasons \<noteq> [] then AggregateContain reasons publicIngressPresent
         else if phase = PhaseJoining \<and> publicIngressPresent
         then AggregateContain [PrematurePublicIngress] True
         else if unavailable \<noteq> []
         then (if phase = PhaseAdmitted \<or> phase = PhasePublishingIngress
               then AggregateWithdrawIngress unavailable [control]
               else AggregateWaiting unavailable)
         else if controlRouteOnly then AggregatePublishIngress finalRoutes
         else AggregateAdmitted finalRoutes)"

section \<open>Sorting\<close>

lemma mset_two: "mset xs = {#a, b#} \<longleftrightarrow> xs = [a, b] \<or> xs = [b, a]"
proof
  assume m: "mset xs = {#a, b#}"
  then have "length xs = 2" by (metis size_mset size_add_mset size_empty numeral_2_eq_2)
  then obtain x y where xs: "xs = [x, y]" by (auto simp: length_Suc_conv numeral_2_eq_2)
  with m show "xs = [a, b] \<or> xs = [b, a]" by (auto simp: add_eq_conv_ex)
qed (auto simp: add_mset_commute)

text \<open>Comparing with the expected routes, whose kinds differ, compares them as bags.\<close>

lemma sameIngressRoutes_control: "sameIngressRoutes compare routes [r] \<longleftrightarrow> routes = [r]"
proof
  assume "sameIngressRoutes compare routes [r]"
  then have "mset routes = mset [r]"
    unfolding sameIngressRoutes_def by (metis mset_js_sort)
  then show "routes = [r]" by simp
qed (simp add: sameIngressRoutes_def)

lemma sameIngressRoutes_final:
  "sameIngressRoutes compare routes (expectedFinalIngressRoutes i) \<longleftrightarrow>
     mset routes = mset (expectedFinalIngressRoutes i)"
proof
  assume "sameIngressRoutes compare routes (expectedFinalIngressRoutes i)"
  then show "mset routes = mset (expectedFinalIngressRoutes i)"
    unfolding sameIngressRoutes_def by (metis mset_js_sort)
next
  assume "mset routes = mset (expectedFinalIngressRoutes i)"
  then have "routes = [control_route_of i, FrameworkRootRoute (ii_frameworkRootRoute i)] \<or>
      routes = [FrameworkRootRoute (ii_frameworkRootRoute i), control_route_of i]"
    unfolding expectedFinalIngressRoutes_def by (intro iffD1 [OF mset_two]) simp
  then show "sameIngressRoutes compare routes (expectedFinalIngressRoutes i)"
    by (auto simp: sameIngressRoutes_def expectedFinalIngressRoutes_def js_sort_def
        compareIngressRoutes_def routeKindOrder_def control_route_of_def Let_def)
qed

lemma sameConfiguredAgentIdentity_iff:
  "sameConfiguredAgentIdentity l r \<longleftrightarrow>
     l\<lparr>fi_configuredAgentIds := []\<rparr> = r\<lparr>fi_configuredAgentIds := []\<rparr> \<and>
     mset (fi_configuredAgentIds l) = mset (fi_configuredAgentIds r)"
  unfolding sameConfiguredAgentIdentity_def
  by (metis mset_sort properties_for_sort sorted_sort)

section \<open>What the planes say\<close>

text \<open>How a plane stands towards the expected identity, up to the identity test of the plane.\<close>

datatype plane_standing = Standing | Mismatching | Unavailable | Ignored

definition standing :: "('i \<Rightarrow> 'i \<Rightarrow> bool) \<Rightarrow> 'i \<Rightarrow> 'i plane_observation \<Rightarrow> plane_standing" where
  "standing same expected ob =
     (case ob of
        PlanePending \<Rightarrow> Unavailable
      | PlaneLost i \<Rightarrow> if same i expected then Unavailable else Ignored
      | PlaneReady i \<Rightarrow> if same i expected then Standing else Mismatching)"

definition plane_standings :: "expected_cohort \<Rightarrow> readiness_vector \<Rightarrow> (plane_name \<times> plane_standing) list" where
  "plane_standings c v =
     [(VmLivenessPlane, standing (=) (ec_fence c) (rv_vmLiveness v)),
      (ToolPortalIdentityPlane, standing (=) (ec_toolPortalIdentity c) (rv_toolPortalIdentity v)),
      (ToolPortalReadinessPlane, standing (=) (ec_toolPortalIdentity c) (rv_toolPortalReadiness v)),
      (FrameworkIdentityPlane,
         standing sameConfiguredAgentIdentity (ec_frameworkIdentity c) (rv_frameworkIdentity v)),
      (FrameworkNativeReadinessPlane,
         standing sameConfiguredAgentIdentity (ec_frameworkIdentity c) (rv_frameworkNativeReadiness v)),
      (SemanticRevisionPlane, standing (=) (ec_semanticRevision c) (rv_semanticRevision v)),
      (ProviderRevisionPlane, standing (=) (ec_providerRevision c) (rv_providerRevision v)),
      (UdsPublicationPlane, standing (=) (ec_udsIdentity c) (rv_udsPublication v)),
      (UdsAttachmentPlane,
         standing sameConfiguredAgentIdentity (expected_attachment c) (rv_udsAttachment v)),
      (AuthorityBearingControlPlane, standing (=) (ec_controlIdentity c) (rv_authorityBearingControl v)),
      (RequiredBackendsPlane, standing (=) (ec_requiredBackendRevision c) (rv_requiredBackends v))]"

definition planes_of :: "plane_standing \<Rightarrow> (plane_name \<times> plane_standing) list \<Rightarrow> plane_name set" where
  "planes_of st xs = {n. (n, st) \<in> set xs}"

lemma planes_of_simps:
  "planes_of st [] = {}"
  "planes_of st ((n, st') # xs) = (if st' = st then {n} else {}) \<union> planes_of st xs"
  by (auto simp: planes_of_def)

definition planes_with :: "plane_standing \<Rightarrow> expected_cohort \<Rightarrow> readiness_vector \<Rightarrow> plane_name set" where
  "planes_with st c v = planes_of st (plane_standings c v)"

definition unavailable_planes :: "evaluation_accumulator \<Rightarrow> plane_name set" where
  "unavailable_planes acc = set (ea_pendingPlanes acc @ ea_lostPlanes acc)"

lemma observe_plane_effect:
  "ea_mismatchReasons (observeAdmissionPlane same e ob n acc) =
     ea_mismatchReasons acc @ (if standing same e ob = Mismatching then [PlaneMismatch n] else [])"
  "unavailable_planes (observeAdmissionPlane same e ob n acc) =
     unavailable_planes acc \<union> (if standing same e ob = Unavailable then {n} else {})"
  by (cases ob; simp add: observeAdmissionPlane_def standing_def unavailable_planes_def)+

lemma filter_Cons_append: "filter P (x # xs) = (if P x then [x] else []) @ filter P xs"
  by simp

lemma map_if: "map f (if b then [x] else []) = (if b then [f x] else [])"
  by simp

lemma observe_planes_mismatches:
  "ea_mismatchReasons (observe_planes c v) =
     map (\<lambda>(n, st). PlaneMismatch n) (filter (\<lambda>(n, st). st = Mismatching) (plane_standings c v))"
  unfolding observe_planes_def Let_def observe_plane_effect plane_standings_def
  by (simp only: filter_Cons_append filter.simps(1) map_append map_if append_assoc prod.case
      evaluation_accumulator.select_convs append_Nil append_Nil2 list.map(1))

lemma observe_planes_unavailable:
  "set (ea_pendingPlanes (observe_planes c v) @ ea_lostPlanes (observe_planes c v)) = planes_with Unavailable c v"
proof -
  have "unavailable_planes (observe_planes c v) = planes_with Unavailable c v"
    unfolding observe_planes_def Let_def observe_plane_effect planes_with_def plane_standings_def planes_of_simps
    by (simp only: Un_assoc) (simp add: unavailable_planes_def)
  then show ?thesis by (simp only: unavailable_planes_def)
qed

end
