(* ===== verification/AtomicAdmission.thy ===== *)
theory AtomicAdmission
  imports AggregateAdmission
begin

text \<open>
  packages/agent-vm/src/gateway/gateway-atomic-admission-controller.ts, with the interface of
  gateway-atomic-admission-contract.ts and the identity policy of
  gateway-successor-identity-policy.ts: the controller that starts, admits, contains and replaces
  the Gateway VM of a zone. What a candidate's methods and \<open>createSuccessorCandidate\<close> do is
  the environment's: \<open>outside\<close> says, from the history of the calls made so far, whether the
  next call throws, and which successor is created. The history is kept in the state. The code
  runs one operation at a time, \<open>transitionInProgress\<close> turning away calls made during another
  one, so an operation is a function to its result, or thrown error, and the state it leaves.
\<close>

section \<open>Candidates and the environment\<close>

text \<open>\<open>cd_object\<close> tells candidates apart, as the identity of the object does in the code.\<close>

record candidate =
  cd_object :: nat
  cd_expectedCohort :: expected_cohort

datatype recovery_trigger =
  TriggerAggregateContainment | TriggerControlExhausted | TriggerControllerRestart
| TriggerFrameworkExhausted | TriggerGatewayVmDeath | TriggerUdsExhausted

datatype failure_stage =
  AdmittedIngressWithdrawal | InitialControlIngress | InitialVmStart | PredecessorContainment
| ReplacementIngressWithdrawal | StartupContainment | StartupIngressWithdrawal | StartupPublicIngress
| SuccessorContainment | SuccessorControlIngress | SuccessorCreation | SuccessorIdentity | SuccessorStart

datatype gateway_call =
  StartGatewayVm candidate
| ReplaceIngressRoutes candidate "ingress_route list"
| ContainGatewayVm candidate
| CreateSuccessor expected_cohort recovery_trigger

type_synonym call_history = "(gateway_call \<times> bool) list"

datatype reused_field =
  GatewayEpochField | VmIdField | ToolPortalProcessEpochField | RuntimeEpochField
| FrameworkEpochField | ControlGenerationField | ControlProcessEpochField

datatype 'e atomic_error =
  CallFailed 'e
| ContainmentAlsoFailed "'e atomic_error" "'e atomic_error"
| NoActiveCandidate
| WrongState
| TransitionInProgress
| SuccessorChangedSelection
| SuccessorReusedIdentity "reused_field list"

record 'e outside =
  out_fails :: "call_history \<Rightarrow> gateway_call \<Rightarrow> 'e option"
  out_successor :: "call_history \<Rightarrow> expected_cohort \<Rightarrow> recovery_trigger \<Rightarrow> 'e + candidate"
  out_localeCompare :: "string \<Rightarrow> string \<Rightarrow> int"

section \<open>Receipts and states\<close>

text \<open>A quiescence receipt holds the predecessor's cohort.\<close>

record replacement_receipt =
  rr_predecessorQuiescence :: expected_cohort
  rr_successor :: expected_cohort
  rr_trigger :: recovery_trigger

record startup_containment_receipt =
  sc_predecessor :: expected_cohort
  sc_reason :: string

datatype 'e atomic_state =
  AtomicIdle
| AtomicAdmitted candidate
| AtomicJoining candidate
| AtomicPublishing candidate
| AtomicReconnecting candidate "plane_name list"
| AtomicReplacing candidate recovery_trigger
| AtomicStartupFailed startup_containment_receipt
| AtomicReplacementFailed "'e atomic_error" expected_cohort failure_stage "candidate option"
| AtomicOwnerUnsafe "'e atomic_error" failure_stage candidate

record 'e atomic_controller =
  ac_state :: "'e atomic_state"
  ac_transitionInProgress :: bool
  ac_history :: call_history

type_synonym ('e, 'a) atomic_op = "'e atomic_controller \<Rightarrow> ('e atomic_error + 'a) \<times> 'e atomic_controller"

definition createGatewayAtomicAdmissionController :: "'e atomic_controller" where
  "createGatewayAtomicAdmissionController =
     \<lparr>ac_state = AtomicIdle, ac_transitionInProgress = False, ac_history = []\<rparr>"

text \<open>Sequencing, throwing, and \<open>try\<close> with a \<open>catch\<close>, on operations.\<close>

definition op_return :: "'a \<Rightarrow> ('e, 'a) atomic_op" where
  "op_return x s = (Inr x, s)"

definition op_throw :: "'e atomic_error \<Rightarrow> ('e, 'a) atomic_op" where
  "op_throw e s = (Inl e, s)"

definition op_bind :: "('e, 'a) atomic_op \<Rightarrow> ('a \<Rightarrow> ('e, 'b) atomic_op) \<Rightarrow> ('e, 'b) atomic_op" where
  "op_bind m f s = (case m s of (Inl e, s') \<Rightarrow> (Inl e, s') | (Inr x, s') \<Rightarrow> f x s')"

definition op_catch :: "('e, 'a) atomic_op \<Rightarrow> ('e atomic_error \<Rightarrow> ('e, 'a) atomic_op) \<Rightarrow> ('e, 'a) atomic_op" where
  "op_catch m h s = (case m s of (Inl e, s') \<Rightarrow> h e s' | (Inr x, s') \<Rightarrow> (Inr x, s'))"

definition set_state :: "'e atomic_state \<Rightarrow> ('e, unit) atomic_op" where
  "set_state st s = (Inr (), s\<lparr>ac_state := st\<rparr>)"

definition call :: "'e outside \<Rightarrow> gateway_call \<Rightarrow> ('e, unit) atomic_op" where
  "call out c s =
     (case out_fails out (ac_history s) c of
        None \<Rightarrow> (Inr (), s\<lparr>ac_history := ac_history s @ [(c, True)]\<rparr>)
      | Some e \<Rightarrow> (Inl (CallFailed e), s\<lparr>ac_history := ac_history s @ [(c, False)]\<rparr>))"

definition createSuccessorCandidate :: "'e outside \<Rightarrow> expected_cohort \<Rightarrow> recovery_trigger
    \<Rightarrow> ('e, candidate) atomic_op" where
  "createSuccessorCandidate out quiescence trigger s =
     (let c = CreateSuccessor quiescence trigger
      in case out_successor out (ac_history s) quiescence trigger of
           Inl e \<Rightarrow> (Inl (CallFailed e), s\<lparr>ac_history := ac_history s @ [(c, False)]\<rparr>)
         | Inr successor \<Rightarrow> (Inr successor, s\<lparr>ac_history := ac_history s @ [(c, True)]\<rparr>))"

definition applyIngressRoutes :: "'e outside \<Rightarrow> candidate \<Rightarrow> ingress_route list
    \<Rightarrow> ('e, ingress_route list) atomic_op" where
  "applyIngressRoutes out c routes =
     op_bind (call out (ReplaceIngressRoutes c routes)) (\<lambda>_. op_return routes)"

section \<open>Fresh successors\<close>

definition sameConfiguredAgents :: "string list \<Rightarrow> string list \<Rightarrow> bool" where
  "sameConfiguredAgents l r \<longleftrightarrow> sort l = sort r"

definition reusedIdentityFields :: "expected_cohort \<Rightarrow> expected_cohort \<Rightarrow> reused_field list" where
  "reusedIdentityFields p n =
     (if af_gatewayEpoch (ec_fence p) = af_gatewayEpoch (ec_fence n) then [GatewayEpochField] else []) @
     (if af_vmId (ec_fence p) = af_vmId (ec_fence n) then [VmIdField] else []) @
     (if tp_processEpoch (ec_toolPortalIdentity p) = tp_processEpoch (ec_toolPortalIdentity n)
      then [ToolPortalProcessEpochField] else []) @
     (if tp_runtimeEpoch (ec_toolPortalIdentity p) = tp_runtimeEpoch (ec_toolPortalIdentity n)
      then [RuntimeEpochField] else []) @
     (if fi_frameworkEpoch (ec_frameworkIdentity p) = fi_frameworkEpoch (ec_frameworkIdentity n)
      then [FrameworkEpochField] else []) @
     (if ci_generationId (ec_controlIdentity p) = ci_generationId (ec_controlIdentity n)
      then [ControlGenerationField] else []) @
     (if ci_processEpoch (ec_controlIdentity p) = ci_processEpoch (ec_controlIdentity n)
      then [ControlProcessEpochField] else [])"

definition assertFreshGatewaySuccessor :: "expected_cohort \<Rightarrow> expected_cohort \<Rightarrow> ('e, unit) atomic_op" where
  "assertFreshGatewaySuccessor p n =
     (if af_zoneId (ec_fence p) \<noteq> af_zoneId (ec_fence n) \<or>
         fi_frameworkKind (ec_frameworkIdentity p) \<noteq> fi_frameworkKind (ec_frameworkIdentity n) \<or>
         fi_clientKind (ec_frameworkIdentity p) \<noteq> fi_clientKind (ec_frameworkIdentity n) \<or>
         fi_projectionCohortDigest (ec_frameworkIdentity p) \<noteq>
           fi_projectionCohortDigest (ec_frameworkIdentity n) \<or>
         \<not> sameConfiguredAgents (fi_configuredAgentIds (ec_frameworkIdentity p))
             (fi_configuredAgentIds (ec_frameworkIdentity n))
      then op_throw SuccessorChangedSelection
      else if reusedIdentityFields p n \<noteq> []
      then op_throw (SuccessorReusedIdentity (reusedIdentityFields p n))
      else op_return ())"

section \<open>Failures\<close>

definition plane_text :: "plane_name \<Rightarrow> string" where
  "plane_text n = (case n of
     VmLivenessPlane \<Rightarrow> ''vm-liveness''
   | ToolPortalIdentityPlane \<Rightarrow> ''tool-portal-identity''
   | ToolPortalReadinessPlane \<Rightarrow> ''tool-portal-readiness''
   | FrameworkIdentityPlane \<Rightarrow> ''framework-identity''
   | FrameworkNativeReadinessPlane \<Rightarrow> ''framework-native-readiness''
   | SemanticRevisionPlane \<Rightarrow> ''semantic-revision''
   | ProviderRevisionPlane \<Rightarrow> ''provider-revision''
   | UdsPublicationPlane \<Rightarrow> ''uds-publication''
   | UdsAttachmentPlane \<Rightarrow> ''uds-attachment''
   | AuthorityBearingControlPlane \<Rightarrow> ''authority-bearing-control''
   | RequiredBackendsPlane \<Rightarrow> ''required-backends'')"

definition reason_text :: "containment_reason \<Rightarrow> string" where
  "reason_text r = (case r of
     PlaneMismatch n \<Rightarrow> plane_text n @ ''-mismatch''
   | FrameworkServiceFatal \<Rightarrow> ''framework-service-fatal''
   | MissingControlIngressRoute \<Rightarrow> ''missing-control-ingress-route''
   | PrematurePublicIngress \<Rightarrow> ''premature-public-ingress''
   | ToolPortalServiceFatal \<Rightarrow> ''tool-portal-service-fatal''
   | UnexpectedIngressRoute \<Rightarrow> ''unexpected-ingress-route'')"

fun join_with_comma :: "string list \<Rightarrow> string" where
  "join_with_comma [] = []"
| "join_with_comma [x] = x"
| "join_with_comma (x # xs) = x @ '','' @ join_with_comma xs"

definition containmentReason :: "containment_reason list \<Rightarrow> string" where
  "containmentReason reasons =
     (if reasons = [] then ''aggregate-containment'' else join_with_comma (map reason_text reasons))"

definition enterOwnerUnsafe :: "'e atomic_error \<Rightarrow> failure_stage \<Rightarrow> candidate \<Rightarrow> ('e, 'a) atomic_op" where
  "enterOwnerUnsafe e stage c =
     op_bind (set_state (AtomicOwnerUnsafe e stage c)) (\<lambda>_. op_throw e)"

definition containAfterFailure :: "'e outside \<Rightarrow> candidate \<Rightarrow> 'e atomic_error \<Rightarrow> failure_stage
    \<Rightarrow> ('e, unit) atomic_op" where
  "containAfterFailure out c failure unsafeStage =
     op_catch (call out (ContainGatewayVm c))
       (\<lambda>containmentError. enterOwnerUnsafe (ContainmentAlsoFailed failure containmentError) unsafeStage c)"

definition recordStartupFailure :: "candidate \<Rightarrow> string
    \<Rightarrow> ('e, startup_containment_receipt) atomic_op" where
  "recordStartupFailure c reason =
     (let receipt = \<lparr>sc_predecessor = cd_expectedCohort c, sc_reason = reason\<rparr>
      in op_bind (set_state (AtomicStartupFailed receipt)) (\<lambda>_. op_return receipt))"

definition recordReplacementFailure :: "'e atomic_error \<Rightarrow> expected_cohort \<Rightarrow> failure_stage
    \<Rightarrow> candidate option \<Rightarrow> ('e, unit) atomic_op" where
  "recordReplacementFailure e quiescence stage successor =
     set_state (AtomicReplacementFailed e quiescence stage successor)"

section \<open>Starting, containing, replacing\<close>

text \<open>\<open>quiescence\<close> is the predecessor's receipt; \<open>None\<close> on a first start.\<close>

definition startup_failed :: "'e outside \<Rightarrow> candidate \<Rightarrow> expected_cohort option \<Rightarrow> string \<Rightarrow> failure_stage
    \<Rightarrow> 'e atomic_error \<Rightarrow> ('e, 'a) atomic_op" where
  "startup_failed out c quiescence reason stage e =
     op_bind (containAfterFailure out c e
                (if quiescence \<noteq> None then SuccessorContainment else StartupContainment)) (\<lambda>_.
     op_bind (case quiescence of
                None \<Rightarrow> op_bind (recordStartupFailure c reason) (\<lambda>_. op_return ())
              | Some q \<Rightarrow> recordReplacementFailure e q stage (Some c)) (\<lambda>_.
     op_throw e))"

definition startCandidate :: "'e outside \<Rightarrow> candidate \<Rightarrow> expected_cohort option \<Rightarrow> ('e, unit) atomic_op" where
  "startCandidate out c quiescence =
     op_bind (op_catch (call out (StartGatewayVm c))
       (startup_failed out c quiescence ''gateway-vm-start-failed'' SuccessorStart)) (\<lambda>_.
     op_bind (op_catch
         (op_bind (applyIngressRoutes out c [control_route_of (ec_ingressIntent (cd_expectedCohort c))])
           (\<lambda>_. op_return ()))
         (startup_failed out c quiescence ''initial-control-ingress-failed'' SuccessorControlIngress)) (\<lambda>_.
     set_state (AtomicJoining c)))"

text \<open>The block \<open>containStartup\<close> and \<open>replaceCandidate\<close> begin with: withdraw all routes, then contain.\<close>

definition withdraw_and_contain :: "'e outside \<Rightarrow> candidate \<Rightarrow> failure_stage \<Rightarrow> failure_stage
    \<Rightarrow> ('e, unit) atomic_op" where
  "withdraw_and_contain out c containStage withdrawStage =
     op_bind (op_catch (op_bind (applyIngressRoutes out c []) (\<lambda>_. op_return ()))
       (\<lambda>e. op_bind (containAfterFailure out c e containStage)
              (\<lambda>_. enterOwnerUnsafe e withdrawStage c))) (\<lambda>_.
     op_catch (call out (ContainGatewayVm c)) (\<lambda>e. enterOwnerUnsafe e containStage c))"

definition containStartup :: "'e outside \<Rightarrow> candidate \<Rightarrow> string
    \<Rightarrow> ('e, startup_containment_receipt) atomic_op" where
  "containStartup out c reason =
     op_bind (withdraw_and_contain out c StartupContainment StartupIngressWithdrawal) (\<lambda>_.
     recordStartupFailure c reason)"

definition replaceCandidate :: "'e outside \<Rightarrow> candidate \<Rightarrow> recovery_trigger
    \<Rightarrow> ('e, replacement_receipt) atomic_op" where
  "replaceCandidate out p trigger =
     op_bind (set_state (AtomicReplacing p trigger)) (\<lambda>_.
     op_bind (withdraw_and_contain out p PredecessorContainment ReplacementIngressWithdrawal) (\<lambda>_.
     let quiescence = cd_expectedCohort p
     in op_bind (op_catch (createSuccessorCandidate out quiescence trigger)
          (\<lambda>e. op_bind (recordReplacementFailure e quiescence SuccessorCreation None)
                 (\<lambda>_. op_throw e))) (\<lambda>successor.
        op_bind (op_catch (assertFreshGatewaySuccessor (cd_expectedCohort p) (cd_expectedCohort successor))
          (\<lambda>e. op_bind (containAfterFailure out successor e SuccessorContainment) (\<lambda>_.
               op_bind (recordReplacementFailure e quiescence SuccessorIdentity (Some successor)) (\<lambda>_.
               op_throw e)))) (\<lambda>_.
        op_bind (startCandidate out successor (Some quiescence)) (\<lambda>_.
        op_return \<lparr>rr_predecessorQuiescence = quiescence, rr_successor = cd_expectedCohort successor,
                   rr_trigger = trigger\<rparr>)))))"

section \<open>The operations\<close>

datatype atomic_result =
  ResultReplaced replacement_receipt
| ResultStartupContained startup_containment_receipt
| ResultAdmitted "ingress_route list"
| ResultPublishing "ingress_route list"
| ResultReconnecting "plane_name list"
| ResultWaiting "plane_name list"
| ResultDone

definition active_candidate :: "'e atomic_state \<Rightarrow> candidate option" where
  "active_candidate st = (case st of
     AtomicAdmitted c \<Rightarrow> Some c | AtomicJoining c \<Rightarrow> Some c | AtomicPublishing c \<Rightarrow> Some c
   | AtomicReconnecting c lost \<Rightarrow> Some c | _ \<Rightarrow> None)"

definition evaluationPhase :: "'e atomic_state \<Rightarrow> evaluation_phase" where
  "evaluationPhase st = (case st of
     AtomicAdmitted c \<Rightarrow> PhaseAdmitted | AtomicPublishing c \<Rightarrow> PhasePublishingIngress | _ \<Rightarrow> PhaseJoining)"

definition expireRecovery :: "'e outside \<Rightarrow> recovery_trigger \<Rightarrow> ('e, atomic_result) atomic_op" where
  "expireRecovery out trigger s =
     (case ac_state s of
        AtomicReconnecting c lost \<Rightarrow>
          op_bind (replaceCandidate out c trigger) (\<lambda>r. op_return (ResultReplaced r)) s
      | _ \<Rightarrow> op_throw WrongState s)"

definition expireStartupJoin :: "'e outside \<Rightarrow> string \<Rightarrow> ('e, atomic_result) atomic_op" where
  "expireStartupJoin out reason s =
     (case ac_state s of
        AtomicJoining c \<Rightarrow>
          op_bind (containStartup out c reason) (\<lambda>r. op_return (ResultStartupContained r)) s
      | AtomicPublishing c \<Rightarrow>
          op_bind (containStartup out c reason) (\<lambda>r. op_return (ResultStartupContained r)) s
      | _ \<Rightarrow> op_throw WrongState s)"

definition observe :: "'e outside \<Rightarrow> readiness_vector \<Rightarrow> ('e, atomic_result) atomic_op" where
  "observe out v s =
     (case active_candidate (ac_state s) of
        None \<Rightarrow> op_throw WrongState s
      | Some c \<Rightarrow>
          (case evaluateGatewayAggregateAdmission (out_localeCompare out) (cd_expectedCohort c)
                  (evaluationPhase (ac_state s)) v of
             AggregateWaiting planes \<Rightarrow> op_return (ResultWaiting planes) s
           | AggregatePublishIngress routes \<Rightarrow>
               op_bind (op_catch (applyIngressRoutes out c routes)
                 (\<lambda>e. op_bind (containAfterFailure out c e StartupContainment) (\<lambda>_.
                      op_bind (recordStartupFailure c ''public-ingress-publication-failed'') (\<lambda>_.
                      op_throw e)))) (\<lambda>applied.
               op_bind (set_state (AtomicPublishing c)) (\<lambda>_.
               op_return (ResultPublishing applied))) s
           | AggregateAdmitted routes \<Rightarrow>
               op_bind (set_state (AtomicAdmitted c)) (\<lambda>_. op_return (ResultAdmitted routes)) s
           | AggregateWithdrawIngress lost retain \<Rightarrow>
               if VmLivenessPlane \<in> set lost
               then op_bind (replaceCandidate out c TriggerGatewayVmDeath)
                      (\<lambda>r. op_return (ResultReplaced r)) s
               else
                 op_bind (op_catch (applyIngressRoutes out c retain)
                   (\<lambda>e. op_bind (containAfterFailure out c e PredecessorContainment) (\<lambda>_.
                        enterOwnerUnsafe e AdmittedIngressWithdrawal c))) (\<lambda>_.
                 op_bind (set_state (AtomicReconnecting c lost)) (\<lambda>_.
                 op_return (ResultReconnecting lost))) s
           | AggregateContain reasons withdraw \<Rightarrow>
               (case ac_state s of
                  AtomicJoining _ \<Rightarrow>
                    op_bind (containStartup out c (containmentReason reasons)) (\<lambda>r. op_return (ResultStartupContained r)) s
                | AtomicPublishing _ \<Rightarrow>
                    op_bind (containStartup out c (containmentReason reasons)) (\<lambda>r. op_return (ResultStartupContained r)) s
                | _ \<Rightarrow> op_bind (replaceCandidate out c TriggerAggregateContainment)
                        (\<lambda>r. op_return (ResultReplaced r)) s)))"

definition replaceRecordedPredecessor :: "'e outside \<Rightarrow> candidate \<Rightarrow> recovery_trigger
    \<Rightarrow> ('e, atomic_result) atomic_op" where
  "replaceRecordedPredecessor out p trigger s =
     (if ac_state s \<noteq> AtomicIdle then op_throw WrongState s
      else op_bind (replaceCandidate out p trigger) (\<lambda>r. op_return (ResultReplaced r)) s)"

definition start :: "'e outside \<Rightarrow> candidate \<Rightarrow> ('e, atomic_result) atomic_op" where
  "start out c s =
     (if ac_state s \<noteq> AtomicIdle then op_throw WrongState s
      else op_bind (startCandidate out c None) (\<lambda>_. op_return ResultDone) s)"

definition runAtomicTransition :: "('e, 'a) atomic_op \<Rightarrow> ('e, 'a) atomic_op" where
  "runAtomicTransition transition s =
     (if ac_transitionInProgress s then op_throw TransitionInProgress s
      else
        (let (r, s') = transition (s\<lparr>ac_transitionInProgress := True\<rparr>)
         in (r, s'\<lparr>ac_transitionInProgress := False\<rparr>)))"

datatype atomic_command =
  ExpireRecovery recovery_trigger
| ExpireStartupJoin string
| Observe readiness_vector
| ReplaceRecorded candidate recovery_trigger
| Start candidate

fun transition_of :: "'e outside \<Rightarrow> atomic_command \<Rightarrow> ('e, atomic_result) atomic_op" where
  "transition_of out (ExpireRecovery trigger) = expireRecovery out trigger"
| "transition_of out (ExpireStartupJoin reason) = expireStartupJoin out reason"
| "transition_of out (Observe v) = observe out v"
| "transition_of out (ReplaceRecorded p trigger) = replaceRecordedPredecessor out p trigger"
| "transition_of out (Start c) = start out c"

definition atomic_exec :: "'e outside \<Rightarrow> atomic_command \<Rightarrow> ('e, atomic_result) atomic_op" where
  "atomic_exec out cmd = runAtomicTransition (transition_of out cmd)"

text \<open>\<open>getSnapshot\<close> shows the cohorts in place of the candidates.\<close>

datatype 'e atomic_snapshot =
  SnapshotIdle
| SnapshotActive evaluation_phase expected_cohort
| SnapshotReconnecting expected_cohort "plane_name list"
| SnapshotReplacing expected_cohort recovery_trigger
| SnapshotStartupFailed startup_containment_receipt
| SnapshotReplacementFailed "'e atomic_error" expected_cohort failure_stage "expected_cohort option"
| SnapshotOwnerUnsafe "'e atomic_error" failure_stage expected_cohort

definition getSnapshot :: "'e atomic_controller \<Rightarrow> 'e atomic_snapshot" where
  "getSnapshot s = (case ac_state s of
     AtomicIdle \<Rightarrow> SnapshotIdle
   | AtomicAdmitted c \<Rightarrow> SnapshotActive PhaseAdmitted (cd_expectedCohort c)
   | AtomicJoining c \<Rightarrow> SnapshotActive PhaseJoining (cd_expectedCohort c)
   | AtomicPublishing c \<Rightarrow> SnapshotActive PhasePublishingIngress (cd_expectedCohort c)
   | AtomicReconnecting c lost \<Rightarrow> SnapshotReconnecting (cd_expectedCohort c) lost
   | AtomicReplacing p trigger \<Rightarrow> SnapshotReplacing (cd_expectedCohort p) trigger
   | AtomicStartupFailed receipt \<Rightarrow> SnapshotStartupFailed receipt
   | AtomicReplacementFailed e q stage successor \<Rightarrow>
       SnapshotReplacementFailed e q stage (map_option cd_expectedCohort successor)
   | AtomicOwnerUnsafe e stage c \<Rightarrow> SnapshotOwnerUnsafe e stage (cd_expectedCohort c))"

end
