(* ===== verification/AtomicRuns.thy ===== *)
theory AtomicRuns
  imports AtomicAdmission
begin

text \<open>
  What a transition of the atomic admission controller keeps true, on every path through its
  failures: triples over the operations, the set of Gateway VMs that may be live, and the ingress
  routes last applied.
\<close>

section \<open>Triples\<close>

text \<open>
  From a state with the precondition, the operation returns into the second or throws into the
  third predicate.
\<close>

definition op_valid :: "('e atomic_controller \<Rightarrow> bool) \<Rightarrow> ('e, 'a) atomic_op
    \<Rightarrow> ('a \<Rightarrow> 'e atomic_controller \<Rightarrow> bool) \<Rightarrow> ('e atomic_controller \<Rightarrow> bool) \<Rightarrow> bool" where
  "op_valid P m Q E \<longleftrightarrow>
     (\<forall>s. P s \<longrightarrow> (case m s of (Inl e, s') \<Rightarrow> E s' | (Inr x, s') \<Rightarrow> Q x s'))"

lemma op_validI:
  "(\<And>s e s'. P s \<Longrightarrow> m s = (Inl e, s') \<Longrightarrow> E s') \<Longrightarrow>
   (\<And>s x s'. P s \<Longrightarrow> m s = (Inr x, s') \<Longrightarrow> Q x s') \<Longrightarrow> op_valid P m Q E"
  by (auto simp: op_valid_def split: prod.split sum.split)

lemma op_valid_bind:
  "op_valid P m R E \<Longrightarrow> (\<And>x. op_valid (R x) (f x) Q E) \<Longrightarrow> op_valid P (op_bind m f) Q E"
  by (fastforce simp: op_valid_def op_bind_def split: prod.split sum.split)

lemma op_valid_catch:
  assumes "op_valid P m Q F" and "\<And>e. op_valid F (h e) Q E"
  shows "op_valid P (op_catch m h) Q E"
  unfolding op_valid_def
proof (intro allI impI)
  fix s assume P: "P s"
  show "case op_catch m h s of (Inl e, s') \<Rightarrow> E s' | (Inr x, s') \<Rightarrow> Q x s'"
  proof (cases "m s")
    case (Pair r s')
    show ?thesis
    proof (cases r)
      case (Inl e)
      with Pair P assms(1) have "F s'" by (auto simp: op_valid_def)
      with assms(2) [of e] show ?thesis by (simp add: op_valid_def op_catch_def Pair Inl)
    next
      case (Inr x)
      with Pair P assms(1) show ?thesis by (auto simp: op_valid_def op_catch_def)
    qed
  qed
qed

lemma op_valid_return: "op_valid (Q x) (op_return x) Q E"
  by (simp add: op_valid_def op_return_def)

lemma op_valid_return_const: "op_valid P (op_return x) (\<lambda>_. P) E"
  by (simp add: op_valid_def op_return_def)

lemma op_valid_throw: "op_valid E (op_throw e) Q E"
  by (simp add: op_valid_def op_throw_def)

lemma op_valid_set_state: "op_valid (\<lambda>s. Q () (s\<lparr>ac_state := st\<rparr>)) (set_state st) Q E"
  by (simp add: op_valid_def set_state_def)

lemma op_valid_pre: "op_valid P' m Q E \<Longrightarrow> (\<And>s. P s \<Longrightarrow> P' s) \<Longrightarrow> op_valid P m Q E"
  by (simp add: op_valid_def)

lemma op_valid_post:
  "op_valid P m Q' E' \<Longrightarrow> (\<And>x s. Q' x s \<Longrightarrow> Q x s) \<Longrightarrow> (\<And>s. E' s \<Longrightarrow> E s) \<Longrightarrow> op_valid P m Q E"
  by (fastforce simp: op_valid_def split: prod.splits sum.splits)

lemma op_valid_call:
  "op_valid (\<lambda>s. Q () (s\<lparr>ac_history := ac_history s @ [(c, True)]\<rparr>) \<and>
                 E (s\<lparr>ac_history := ac_history s @ [(c, False)]\<rparr>)) (call out c) Q E"
  by (simp add: op_valid_def call_def split: option.split)

lemma op_valid_createSuccessor:
  "op_valid (\<lambda>s. (\<forall>n. Q n (s\<lparr>ac_history := ac_history s @ [(CreateSuccessor q t, True)]\<rparr>)) \<and>
                 E (s\<lparr>ac_history := ac_history s @ [(CreateSuccessor q t, False)]\<rparr>))
     (createSuccessorCandidate out q t) Q E"
  by (simp add: op_valid_def createSuccessorCandidate_def Let_def split: sum.split)

lemma op_valid_call_catch:
  assumes "\<And>s. P s \<Longrightarrow> Q () (s\<lparr>ac_history := ac_history s @ [(c, True)]\<rparr>)"
    and "\<And>s. P s \<Longrightarrow> F (s\<lparr>ac_history := ac_history s @ [(c, False)]\<rparr>)"
    and "\<And>e. op_valid F (h e) Q E"
  shows "op_valid P (op_catch (call out c) h) Q E"
  by (rule op_valid_catch [where F = F, OF op_valid_pre [OF op_valid_call] assms(3)]) (simp add: assms(1,2))

lemma op_valid_routes_catch:
  assumes "\<And>s. P s \<Longrightarrow> Q rs (s\<lparr>ac_history := ac_history s @ [(ReplaceIngressRoutes c rs, True)]\<rparr>)"
    and "\<And>s. P s \<Longrightarrow> F (s\<lparr>ac_history := ac_history s @ [(ReplaceIngressRoutes c rs, False)]\<rparr>)"
    and "\<And>e. op_valid F (h e) Q E"
  shows "op_valid P (op_catch (applyIngressRoutes out c rs) h) Q E"
  by (rule op_valid_catch [where F = F, OF _ assms(3)])
    (simp add: op_valid_def applyIngressRoutes_def op_bind_def call_def op_return_def assms(1,2) split: option.split)

lemma op_valid_routes_done_catch:
  assumes "\<And>s. P s \<Longrightarrow> Q () (s\<lparr>ac_history := ac_history s @ [(ReplaceIngressRoutes c rs, True)]\<rparr>)"
    and "\<And>s. P s \<Longrightarrow> F (s\<lparr>ac_history := ac_history s @ [(ReplaceIngressRoutes c rs, False)]\<rparr>)"
    and "\<And>e. op_valid F (h e) Q E"
  shows "op_valid P (op_catch (op_bind (applyIngressRoutes out c rs) (\<lambda>_. op_return ())) h) Q E"
  by (rule op_valid_catch [where F = F, OF _ assms(3)])
    (simp add: op_valid_def applyIngressRoutes_def op_bind_def call_def op_return_def assms(1,2) split: option.split)

lemma op_valid_set_bind:
  assumes "\<And>s. P s \<Longrightarrow> R (s\<lparr>ac_state := st\<rparr>)" and "op_valid R (f ()) Q E"
  shows "op_valid P (op_bind (set_state st) f) Q E"
  using assms by (simp add: op_valid_def op_bind_def set_state_def)

section \<open>Live Gateway VMs\<close>

fun live_step :: "gateway_call \<times> bool \<Rightarrow> candidate set \<Rightarrow> candidate set" where
  "live_step (StartGatewayVm c, ok) vms = insert c vms"
| "live_step (ContainGatewayVm c, ok) vms = (if ok then vms - {c} else vms)"
| "live_step _ vms = vms"

text \<open>A VM may be live from the call that starts it, failed or not, to its proven containment.\<close>

definition live :: "call_history \<Rightarrow> candidate set" where
  "live h = fold live_step h {}"

lemma live_Nil [simp]: "live [] = {}"
  by (simp add: live_def)

lemma live_append [simp]: "live (h @ [x]) = live_step x (live h)"
  by (simp add: live_def)

text \<open>At no moment of the history two VMs may be live.\<close>

definition never_two :: "call_history \<Rightarrow> bool" where
  "never_two h \<longleftrightarrow> (\<forall>n. \<exists>c. live (take n h) \<subseteq> {c})"

lemma never_two_Nil [simp]: "never_two []"
  by (simp add: never_two_def)

lemma never_two_append: "never_two h \<Longrightarrow> live (h @ [x]) \<subseteq> {c} \<Longrightarrow> never_two (h @ [x])"
proof -
  assume h: "never_two h" and x: "live (h @ [x]) \<subseteq> {c}"
  have "\<exists>c. live (take n (h @ [x])) \<subseteq> {c}" for n
  proof (cases "n \<le> length h")
    case True
    with h show ?thesis by (simp add: never_two_def)
  next
    case False
    then have "take n (h @ [x]) = h @ [x]" by simp
    with x show ?thesis by metis
  qed
  then show ?thesis by (simp add: never_two_def)
qed

definition holding :: "candidate set \<Rightarrow> 'e atomic_controller \<Rightarrow> bool" where
  "holding vms s \<longleftrightarrow> never_two (ac_history s) \<and> live (ac_history s) \<subseteq> vms"

lemma holding_state [simp]: "holding vms (s\<lparr>ac_state := st\<rparr>) = holding vms s"
  by (simp add: holding_def)

lemma holding_flag [simp]: "holding vms (s\<lparr>ac_transitionInProgress := b\<rparr>) = holding vms s"
  by (simp add: holding_def)

lemma holding_mono: "holding vms s \<Longrightarrow> vms \<subseteq> vms' \<Longrightarrow> holding vms' s"
  by (auto simp: holding_def)

lemma holding_call:
  assumes "holding {c} s" and "live_step x {c} \<subseteq> {c}"
    and "live_step x {} \<subseteq> live_step x {c}"
  shows "holding (live_step x {c}) (s\<lparr>ac_history := ac_history s @ [x]\<rparr>)"
proof -
  from assms(1) have "live (ac_history s) = {} \<or> live (ac_history s) = {c}" by (auto simp: holding_def)
  with assms(2,3) have after: "live_step x (live (ac_history s)) \<subseteq> live_step x {c}" by auto
  with assms(2) have "live (ac_history s @ [x]) \<subseteq> {c}" by simp
  with assms(1) have "never_two (ac_history s @ [x])" unfolding holding_def by (blast intro: never_two_append)
  with after show ?thesis by (simp add: holding_def)
qed

lemma holding_start [simp]:
  "holding {c} s \<Longrightarrow> holding {c} (s\<lparr>ac_history := ac_history s @ [(StartGatewayVm c, ok)]\<rparr>)"
  using holding_call [of c s "(StartGatewayVm c, ok)"] by simp

lemma holding_contained [simp]:
  "holding {c} s \<Longrightarrow> holding {} (s\<lparr>ac_history := ac_history s @ [(ContainGatewayVm c, True)]\<rparr>)"
  using holding_call [of c s "(ContainGatewayVm c, True)"] by auto

lemma holding_not_contained [simp]:
  "holding {c} s \<Longrightarrow> holding {c} (s\<lparr>ac_history := ac_history s @ [(ContainGatewayVm c, False)]\<rparr>)"
  using holding_call [of c s "(ContainGatewayVm c, False)"] by simp

lemma holding_routes [simp]:
  "holding {c} s \<Longrightarrow> holding {c} (s\<lparr>ac_history := ac_history s @ [(ReplaceIngressRoutes d rs, ok)]\<rparr>)"
  using holding_call [of c s "(ReplaceIngressRoutes d rs, ok)"] by simp

lemma holding_created [simp]:
  assumes "holding {} s"
  shows "holding {} (s\<lparr>ac_history := ac_history s @ [(CreateSuccessor q t, ok)]\<rparr>)"
  using assms by (auto simp: holding_def intro!: never_two_append)

lemma holding_none [simp]: "holding {} s \<Longrightarrow> holding {c} s"
  by (auto simp: holding_def)

section \<open>Applied routes\<close>

text \<open>The routes of the last call for the candidate; unknown when it failed.\<close>

fun routes_step :: "candidate \<Rightarrow> gateway_call \<times> bool \<Rightarrow> ingress_route list option \<Rightarrow> ingress_route list option" where
  "routes_step c (ReplaceIngressRoutes d rs, ok) r = (if d = c then (if ok then Some rs else None) else r)"
| "routes_step c _ r = r"

definition applied_routes :: "candidate \<Rightarrow> call_history \<Rightarrow> ingress_route list option" where
  "applied_routes c h = fold (routes_step c) h (Some [])"

lemma applied_routes_append [simp]: "applied_routes c (h @ [x]) = routes_step c x (applied_routes c h)"
  by (simp add: applied_routes_def)

section \<open>The invariant\<close>

text \<open>The VM the state answers for, and the routes it has let through to it.\<close>

definition owned :: "'e atomic_state \<Rightarrow> candidate set" where
  "owned st = (case st of
     AtomicIdle \<Rightarrow> {}
   | AtomicAdmitted c \<Rightarrow> {c} | AtomicJoining c \<Rightarrow> {c} | AtomicPublishing c \<Rightarrow> {c}
   | AtomicReconnecting c lost \<Rightarrow> {c} | AtomicReplacing p t \<Rightarrow> {p}
   | AtomicStartupFailed r \<Rightarrow> {} | AtomicReplacementFailed e q stage n \<Rightarrow> {}
   | AtomicOwnerUnsafe e stage c \<Rightarrow> {c})"

definition control_only :: "candidate \<Rightarrow> ingress_route list" where
  "control_only c = [control_route_of (ec_ingressIntent (cd_expectedCohort c))]"

definition final_routes :: "candidate \<Rightarrow> ingress_route list" where
  "final_routes c = expectedFinalIngressRoutes (ec_ingressIntent (cd_expectedCohort c))"

definition routes_match :: "'e atomic_state \<Rightarrow> call_history \<Rightarrow> bool" where
  "routes_match st h = (case st of
     AtomicJoining c \<Rightarrow> applied_routes c h = Some (control_only c)
   | AtomicReconnecting c lost \<Rightarrow> applied_routes c h = Some (control_only c)
   | AtomicPublishing c \<Rightarrow> applied_routes c h = Some (final_routes c)
   | AtomicAdmitted c \<Rightarrow> applied_routes c h = Some (final_routes c)
   | _ \<Rightarrow> True)"

definition settled :: "'e atomic_controller \<Rightarrow> bool" where
  "settled s \<longleftrightarrow> holding (owned (ac_state s)) s \<and> routes_match (ac_state s) (ac_history s) \<and>
     (\<forall>p t. ac_state s \<noteq> AtomicReplacing p t)"

lemma settled_unsafe [simp]: "holding {c} s \<Longrightarrow> settled (s\<lparr>ac_state := AtomicOwnerUnsafe e stage c\<rparr>)"
  by (simp add: settled_def owned_def routes_match_def)

lemma settled_startup_failed [simp]: "holding {} s \<Longrightarrow> settled (s\<lparr>ac_state := AtomicStartupFailed r\<rparr>)"
  by (simp add: settled_def owned_def routes_match_def)

lemma settled_replacement_failed [simp]:
  "holding {} s \<Longrightarrow> settled (s\<lparr>ac_state := AtomicReplacementFailed e q stage n\<rparr>)"
  by (simp add: settled_def owned_def routes_match_def)

lemma valid_ownerUnsafe: "op_valid (holding {c}) (enterOwnerUnsafe e stage c) Q settled"
  unfolding enterOwnerUnsafe_def
  by (rule op_valid_set_bind [where R = settled]) (simp_all add: op_valid_throw)

lemma valid_containAfterFailure:
  "op_valid (holding {c}) (containAfterFailure out c e stage) (\<lambda>_. holding {}) settled"
  unfolding containAfterFailure_def
  by (rule op_valid_call_catch [where F = "holding {c}"]) (simp_all add: valid_ownerUnsafe)

lemma valid_recordStartupFailure:
  "op_valid (holding {}) (recordStartupFailure c reason) (\<lambda>_. settled) E"
  unfolding recordStartupFailure_def Let_def
  by (rule op_valid_set_bind [where R = settled]) (simp_all add: op_valid_return_const)

lemma valid_recordReplacementFailure:
  "op_valid (holding {}) (recordReplacementFailure e q stage n) (\<lambda>_. settled) E"
  unfolding recordReplacementFailure_def
  by (rule op_valid_pre [OF op_valid_set_state]) simp

lemma valid_startup_failed:
  "op_valid (holding {c}) (startup_failed out c q reason stage e) Q settled"
  unfolding startup_failed_def
  apply (rule op_valid_bind [OF valid_containAfterFailure])
  apply (rule op_valid_bind [where R = "\<lambda>_. settled"])
   apply (cases q)
    apply (simp_all add: op_valid_throw valid_recordReplacementFailure)
  apply (rule op_valid_bind [OF valid_recordStartupFailure op_valid_return])
  done

definition joined :: "candidate \<Rightarrow> 'e atomic_controller \<Rightarrow> bool" where
  "joined c s \<longleftrightarrow> ac_state s = AtomicJoining c \<and> settled s"

lemma valid_startCandidate:
  "op_valid (holding {}) (startCandidate out c q) (\<lambda>_. joined c) settled"
  unfolding startCandidate_def
proof (rule op_valid_bind)
  show "op_valid (holding {}) (op_catch (call out (StartGatewayVm c))
      (startup_failed out c q ''gateway-vm-start-failed'' SuccessorStart)) (\<lambda>_. holding {c}) settled"
    by (rule op_valid_call_catch [where F = "holding {c}"]) (simp_all add: valid_startup_failed)
  let ?R = "\<lambda>s. holding {c} s \<and> applied_routes c (ac_history s) = Some (control_only c)"
  show "op_valid (holding {c}) (op_bind (op_catch
        (op_bind (applyIngressRoutes out c [control_route_of (ec_ingressIntent (cd_expectedCohort c))])
          (\<lambda>_. op_return ()))
        (startup_failed out c q ''initial-control-ingress-failed'' SuccessorControlIngress))
        (\<lambda>_. set_state (AtomicJoining c))) (\<lambda>_. joined c) settled" for x :: unit
  proof (rule op_valid_bind)
    show "op_valid (holding {c}) (op_catch
        (op_bind (applyIngressRoutes out c [control_route_of (ec_ingressIntent (cd_expectedCohort c))])
          (\<lambda>_. op_return ()))
        (startup_failed out c q ''initial-control-ingress-failed'' SuccessorControlIngress)) (\<lambda>_. ?R) settled"
      by (rule op_valid_routes_done_catch [where F = "holding {c}"])
        (simp_all add: valid_startup_failed control_only_def)
    show "op_valid ?R (set_state (AtomicJoining c)) (\<lambda>_. joined c) settled" for x :: unit
      by (rule op_valid_pre [OF op_valid_set_state])
        (simp add: joined_def settled_def owned_def routes_match_def)
  qed
qed

lemma valid_withdraw_and_contain:
  "op_valid (holding {c}) (withdraw_and_contain out c stage1 stage2) (\<lambda>_. holding {}) settled"
  unfolding withdraw_and_contain_def
proof (rule op_valid_bind)
  show "op_valid (holding {c}) (op_catch (op_bind (applyIngressRoutes out c []) (\<lambda>_. op_return ()))
      (\<lambda>e. op_bind (containAfterFailure out c e stage1) (\<lambda>_. enterOwnerUnsafe e stage2 c)))
      (\<lambda>_. holding {c}) settled"
    by (rule op_valid_routes_done_catch [where F = "holding {c}"])
      (simp_all add: op_valid_bind [OF valid_containAfterFailure op_valid_pre [OF valid_ownerUnsafe]])
  show "op_valid (holding {c}) (op_catch (call out (ContainGatewayVm c)) (\<lambda>e. enterOwnerUnsafe e stage1 c))
      (\<lambda>_. holding {}) settled" for x :: unit
    by (rule op_valid_call_catch [where F = "holding {c}"]) (simp_all add: valid_ownerUnsafe)
qed

lemma valid_containStartup:
  "op_valid (holding {c}) (containStartup out c reason) (\<lambda>_. settled) settled"
  unfolding containStartup_def
  by (rule op_valid_bind [OF valid_withdraw_and_contain valid_recordStartupFailure])

lemma valid_replaceCandidate:
  "op_valid (holding {p}) (replaceCandidate out p t) (\<lambda>_. settled) settled"
  unfolding replaceCandidate_def Let_def
proof (rule op_valid_bind [where R = "\<lambda>_. holding {p}"])
  show "op_valid (holding {p}) (set_state (AtomicReplacing p t)) (\<lambda>_. holding {p}) settled"
    by (rule op_valid_pre [OF op_valid_set_state]) simp
next
  fix u :: unit
  have create: "op_valid (holding {}) (op_catch (createSuccessorCandidate out (cd_expectedCohort p) t)
      (\<lambda>e. op_bind (recordReplacementFailure e (cd_expectedCohort p) SuccessorCreation None) (\<lambda>_. op_throw e)))
      (\<lambda>_. holding {}) settled"
    by (rule op_valid_catch [where F = "holding {}", OF op_valid_pre [OF op_valid_createSuccessor]])
      (simp_all add: op_valid_bind [OF valid_recordReplacementFailure op_valid_throw])
  have check: "op_valid (holding {}) (op_catch
      (assertFreshGatewaySuccessor (cd_expectedCohort p) (cd_expectedCohort n))
      (\<lambda>e. op_bind (containAfterFailure out n e SuccessorContainment) (\<lambda>_.
           op_bind (recordReplacementFailure e (cd_expectedCohort p) SuccessorIdentity (Some n)) (\<lambda>_.
           op_throw e)))) (\<lambda>_. holding {}) settled" for n
  proof (rule op_valid_catch [where F = "holding {}"])
    show "op_valid (holding {}) (assertFreshGatewaySuccessor (cd_expectedCohort p) (cd_expectedCohort n))
        (\<lambda>_. holding {}) (holding {})"
      by (simp add: assertFreshGatewaySuccessor_def op_valid_throw op_valid_return_const)
    show "op_valid (holding {}) (op_bind (containAfterFailure out n e SuccessorContainment) (\<lambda>_.
        op_bind (recordReplacementFailure e (cd_expectedCohort p) SuccessorIdentity (Some n)) (\<lambda>_.
        op_throw e))) (\<lambda>_. holding {}) settled" for e
      by (rule op_valid_bind [OF op_valid_pre [OF valid_containAfterFailure]
            op_valid_bind [OF valid_recordReplacementFailure op_valid_throw]]) simp
  qed
  show "op_valid (holding {p}) (op_bind (withdraw_and_contain out p PredecessorContainment ReplacementIngressWithdrawal)
      (\<lambda>_. op_bind (op_catch (createSuccessorCandidate out (cd_expectedCohort p) t)
        (\<lambda>e. op_bind (recordReplacementFailure e (cd_expectedCohort p) SuccessorCreation None) (\<lambda>_. op_throw e)))
        (\<lambda>successor. op_bind (op_catch (assertFreshGatewaySuccessor (cd_expectedCohort p) (cd_expectedCohort successor))
          (\<lambda>e. op_bind (containAfterFailure out successor e SuccessorContainment) (\<lambda>_.
               op_bind (recordReplacementFailure e (cd_expectedCohort p) SuccessorIdentity (Some successor)) (\<lambda>_.
               op_throw e))))
          (\<lambda>_. op_bind (startCandidate out successor (Some (cd_expectedCohort p))) (\<lambda>_.
             op_return \<lparr>rr_predecessorQuiescence = cd_expectedCohort p,
               rr_successor = cd_expectedCohort successor, rr_trigger = t\<rparr>)))))
      (\<lambda>_. settled) settled"
    by (rule op_valid_bind [OF valid_withdraw_and_contain op_valid_bind [OF create op_valid_bind [OF check
            op_valid_bind [OF valid_startCandidate op_valid_pre [OF op_valid_return_const]]]]])
      (simp add: joined_def)
qed

section \<open>The operations keep the invariant\<close>

lemma settled_active:
  "settled s \<Longrightarrow> active_candidate (ac_state s) = Some c \<Longrightarrow> holding {c} s"
  by (auto simp: settled_def active_candidate_def owned_def split: atomic_state.splits)

lemma publish_decision_routes:
  "evaluateGatewayAggregateAdmission lc e phase v = AggregatePublishIngress rs \<Longrightarrow>
     rs = expectedFinalIngressRoutes (ec_ingressIntent e)"
  by (auto simp: evaluateGatewayAggregateAdmission_def Let_def split: if_splits)

lemma withdraw_decision_routes:
  "evaluateGatewayAggregateAdmission lc e phase v = AggregateWithdrawIngress lost rs \<Longrightarrow>
     rs = [control_route_of (ec_ingressIntent e)]"
  by (auto simp: evaluateGatewayAggregateAdmission_def Let_def split: if_splits)

lemma final_routes_public: "mset rs = mset (expectedFinalIngressRoutes i) \<Longrightarrow> hasPublicIngress rs"
proof -
  assume "mset rs = mset (expectedFinalIngressRoutes i)"
  then have "set rs = set (expectedFinalIngressRoutes i)" by (rule mset_eq_setD)
  then show ?thesis
    by (simp add: hasPublicIngress_def list_ex_iff expectedFinalIngressRoutes_def is_control_route_def control_route_of_def)
qed

lemma admitted_decision_phase:
  assumes "evaluateGatewayAggregateAdmission lc e phase v = AggregateAdmitted rs"
  shows "phase \<noteq> PhaseJoining"
proof
  assume phase: "phase = PhaseJoining"
  with assms have "sameIngressRoutes lc (rv_ingressRoutes v) (expectedFinalIngressRoutes (ec_ingressIntent e))"
    and "\<not> hasPublicIngress (rv_ingressRoutes v)"
    by (auto simp: evaluateGatewayAggregateAdmission_def Let_def split: if_splits)
  then show False
    using final_routes_public by (simp add: sameIngressRoutes_final)
qed

lemma op_valid_then_return: "op_valid P m (\<lambda>_. Q) E \<Longrightarrow> op_valid P (op_bind m (\<lambda>r. op_return (f r))) (\<lambda>_. Q) E"
  by (rule op_valid_bind [OF _ op_valid_return_const])

lemma valid_snd: "op_valid P m (\<lambda>_. Q) Q \<Longrightarrow> P s \<Longrightarrow> Q (snd (m s))"
  by (cases "m s"; cases "fst (m s)") (auto simp: op_valid_def)

lemmas valid_replace_result = op_valid_then_return [OF valid_replaceCandidate]
lemmas valid_startup_result = op_valid_then_return [OF valid_containStartup]

lemma keeps_expireRecovery: "settled s \<Longrightarrow> settled (snd (expireRecovery out t s))"
  by (cases "ac_state s")
    (auto simp: expireRecovery_def op_throw_def settled_active active_candidate_def
      intro!: valid_snd [OF valid_replace_result])

lemma keeps_expireStartupJoin: "settled s \<Longrightarrow> settled (snd (expireStartupJoin out reason s))"
  by (cases "ac_state s")
    (auto simp: expireStartupJoin_def op_throw_def settled_active active_candidate_def
      intro!: valid_snd [OF valid_startup_result])

lemma keeps_replaceRecorded: "settled s \<Longrightarrow> settled (snd (replaceRecordedPredecessor out p t s))"
  by (auto simp: replaceRecordedPredecessor_def op_throw_def settled_def owned_def
      intro!: valid_snd [OF valid_replace_result, unfolded settled_def owned_def])

lemma keeps_start: "settled s \<Longrightarrow> settled (snd (start out c s))"
proof (cases "ac_state s = AtomicIdle")
  case True
  assume "settled s"
  with True have "holding {} s" by (simp add: settled_def owned_def)
  moreover have "op_valid (holding {}) (startCandidate out c None) (\<lambda>_. settled) settled"
    by (rule op_valid_post [OF valid_startCandidate]) (simp_all add: joined_def)
  ultimately show ?thesis
    using True by (simp add: start_def) (rule valid_snd [OF op_valid_then_return])
qed (simp add: start_def op_throw_def)

lemma valid_publish:
  "op_valid (holding {c}) (op_bind (op_catch (applyIngressRoutes out c (final_routes c))
      (\<lambda>e. op_bind (containAfterFailure out c e StartupContainment) (\<lambda>_.
           op_bind (recordStartupFailure c reason) (\<lambda>_. op_throw e)))) (\<lambda>applied.
      op_bind (set_state (AtomicPublishing c)) (\<lambda>_. op_return (ResultPublishing applied))))
    (\<lambda>_. settled) settled"
proof (rule op_valid_bind)
  let ?R = "\<lambda>s. holding {c} s \<and> applied_routes c (ac_history s) = Some (final_routes c)"
  show "op_valid (holding {c}) (op_catch (applyIngressRoutes out c (final_routes c))
      (\<lambda>e. op_bind (containAfterFailure out c e StartupContainment) (\<lambda>_.
           op_bind (recordStartupFailure c reason) (\<lambda>_. op_throw e)))) (\<lambda>_. ?R) settled"
    by (rule op_valid_routes_catch [where F = "holding {c}"])
      (simp_all add: op_valid_bind [OF valid_containAfterFailure op_valid_bind
        [OF valid_recordStartupFailure op_valid_throw]])
  show "op_valid ?R (op_bind (set_state (AtomicPublishing c)) (\<lambda>_. op_return (ResultPublishing applied)))
      (\<lambda>_. settled) settled" for applied
    by (rule op_valid_set_bind [where R = settled])
      (simp_all add: op_valid_return_const settled_def owned_def routes_match_def)
qed

lemma valid_withdraw:
  "op_valid (holding {c}) (op_bind (op_catch (applyIngressRoutes out c (control_only c))
      (\<lambda>e. op_bind (containAfterFailure out c e PredecessorContainment) (\<lambda>_.
           enterOwnerUnsafe e AdmittedIngressWithdrawal c))) (\<lambda>_.
      op_bind (set_state (AtomicReconnecting c lost)) (\<lambda>_. op_return (ResultReconnecting lost))))
    (\<lambda>_. settled) settled"
proof (rule op_valid_bind)
  let ?R = "\<lambda>s. holding {c} s \<and> applied_routes c (ac_history s) = Some (control_only c)"
  show "op_valid (holding {c}) (op_catch (applyIngressRoutes out c (control_only c))
      (\<lambda>e. op_bind (containAfterFailure out c e PredecessorContainment) (\<lambda>_.
           enterOwnerUnsafe e AdmittedIngressWithdrawal c))) (\<lambda>_. ?R) settled"
    by (rule op_valid_routes_catch [where F = "holding {c}"])
      (simp_all add: op_valid_bind [OF valid_containAfterFailure op_valid_pre [OF valid_ownerUnsafe]])
  show "op_valid ?R (op_bind (set_state (AtomicReconnecting c lost)) (\<lambda>_. op_return (ResultReconnecting lost)))
      (\<lambda>_. settled) settled" for x :: "ingress_route list"
    by (rule op_valid_set_bind [where R = settled])
      (simp_all add: op_valid_return_const settled_def owned_def routes_match_def)
qed

lemma keeps_admit:
  assumes "settled s" and "active_candidate (ac_state s) = Some c" and "evaluationPhase (ac_state s) \<noteq> PhaseJoining"
  shows "settled (s\<lparr>ac_state := AtomicAdmitted c\<rparr>)"
proof -
  from assms have "applied_routes c (ac_history s) = Some (final_routes c)"
    by (auto simp: settled_def routes_match_def active_candidate_def evaluationPhase_def split: atomic_state.splits)
  with settled_active [OF assms(1,2)] show ?thesis
    by (simp add: settled_def owned_def routes_match_def)
qed

lemma keeps_observe:
  assumes "settled s"
  shows "settled (snd (observe out v s))"
proof (cases "active_candidate (ac_state s)")
  case None
  with assms show ?thesis by (simp add: observe_def op_throw_def)
next
  case (Some c)
  note held = settled_active [OF assms Some]
  let ?d = "evaluateGatewayAggregateAdmission (out_localeCompare out) (cd_expectedCohort c)
    (evaluationPhase (ac_state s)) v"
  show ?thesis
  proof (cases ?d)
    case (AggregateAdmitted rs)
    with keeps_admit [OF assms Some admitted_decision_phase [OF AggregateAdmitted]] Some show ?thesis
      by (simp add: observe_def op_bind_def set_state_def op_return_def)
  next
    case (AggregateContain reasons w)
    have "settled (snd (op_bind (containStartup out c r) (\<lambda>r. op_return (ResultStartupContained r)) s))" for r
      by (rule valid_snd [OF valid_startup_result held])
    moreover have "settled (snd (op_bind (replaceCandidate out c t) (\<lambda>r. op_return (ResultReplaced r)) s))" for t
      by (rule valid_snd [OF valid_replace_result held])
    ultimately show ?thesis
      using AggregateContain Some by (simp add: observe_def split: atomic_state.split)
  next
    case (AggregatePublishIngress rs)
    then have "rs = final_routes c" by (simp add: publish_decision_routes final_routes_def)
    with AggregatePublishIngress Some show ?thesis
      by (simp add: observe_def valid_snd [OF valid_publish held])
  next
    case (AggregateWaiting planes)
    with assms Some show ?thesis by (simp add: observe_def op_return_def)
  next
    case (AggregateWithdrawIngress lost rs)
    then have "rs = control_only c" by (simp add: withdraw_decision_routes control_only_def)
    with AggregateWithdrawIngress Some show ?thesis
      by (simp add: observe_def valid_snd [OF valid_withdraw held] valid_snd [OF valid_replace_result held])
  qed
qed

lemma keeps_transition: "settled s \<Longrightarrow> settled (snd (transition_of out cmd s))"
  by (cases cmd)
    (simp_all add: keeps_expireRecovery keeps_expireStartupJoin keeps_observe keeps_replaceRecorded keeps_start)

definition atomic_ok :: "'e atomic_controller \<Rightarrow> bool" where
  "atomic_ok s \<longleftrightarrow> settled s \<and> \<not> ac_transitionInProgress s"

lemma settled_flag [simp]: "settled (s\<lparr>ac_transitionInProgress := b\<rparr>) = settled s"
  by (simp add: settled_def)

lemma exec_atomic_ok: "atomic_ok s \<Longrightarrow> atomic_ok (snd (atomic_exec out cmd s))"
  using keeps_transition [of "s\<lparr>ac_transitionInProgress := True\<rparr>" out cmd]
  by (simp add: atomic_ok_def atomic_exec_def runAtomicTransition_def case_prod_unfold Let_def)

lemma created_atomic_ok: "atomic_ok createGatewayAtomicAdmissionController"
  by (simp add: atomic_ok_def createGatewayAtomicAdmissionController_def settled_def holding_def
      owned_def routes_match_def)

text \<open>A controller keeps the state an operation leaves, whether it returned or threw.\<close>

definition atomic_reduce :: "'e outside \<Rightarrow> 'e atomic_controller \<Rightarrow> atomic_command \<Rightarrow> unit + 'e atomic_controller" where
  "atomic_reduce out s cmd = Inr (snd (atomic_exec out cmd s))"

interpretation atomic: guarded_reducer "atomic_reduce out" "\<lambda>_. True" atomic_ok for out
  by unfold_locales (auto simp: atomic_reduce_def exec_atomic_ok)

fun atomic_run :: "'e outside \<Rightarrow> atomic_command list \<Rightarrow> 'e atomic_controller \<Rightarrow> 'e atomic_controller" where
  "atomic_run out [] s = s"
| "atomic_run out (cmd # cmds) s = atomic_run out cmds (snd (atomic_exec out cmd s))"

lemma run_commands_atomic: "run_commands (atomic_reduce out) s cmds = atomic_run out cmds s"
  by (induction cmds arbitrary: s) (simp_all add: apply_command_def atomic_reduce_def)

lemma run_atomic_ok: "atomic_ok s \<Longrightarrow> atomic_ok (atomic_run out cmds s)"
  using atomic.run_inv [of s cmds out] by (simp add: run_commands_atomic list_all_iff)

end
