(* ===== verification/GatewayAdmissionProperties.thy ===== *)
theory GatewayAdmissionProperties
  imports AtomicRuns
begin

text \<open>
  What the aggregate decision and the atomic admission controller guarantee: when a cohort is
  admitted, that one Gateway VM at most is live whatever fails, what a replacement consists of,
  and which calls are turned away.
\<close>

section \<open>The decision, over the standing of the planes\<close>

definition control_route_only :: "expected_cohort \<Rightarrow> readiness_vector \<Rightarrow> bool" where
  "control_route_only c v \<longleftrightarrow> rv_ingressRoutes v = [control_route_of (ec_ingressIntent c)]"

definition final_routes_present :: "expected_cohort \<Rightarrow> readiness_vector \<Rightarrow> bool" where
  "final_routes_present c v \<longleftrightarrow>
     mset (rv_ingressRoutes v) = mset (expectedFinalIngressRoutes (ec_ingressIntent c))"

text \<open>No plane is ready under another identity, nothing fatal, and one of the two inventories.\<close>

definition cohort_sound :: "expected_cohort \<Rightarrow> readiness_vector \<Rightarrow> bool" where
  "cohort_sound c v \<longleftrightarrow> planes_with Mismatching c v = {} \<and> fatal_reasons c v = [] \<and>
     (control_route_only c v \<or> final_routes_present c v)"

lemma mismatches_empty: "ea_mismatchReasons (observe_planes c v) = [] \<longleftrightarrow> planes_with Mismatching c v = {}"
  by (auto simp: observe_planes_mismatches filter_empty_conv planes_with_def planes_of_def)

lemma control_not_public: "control_route_only c v \<Longrightarrow> \<not> hasPublicIngress (rv_ingressRoutes v)"
  by (simp add: control_route_only_def hasPublicIngress_def is_control_route_def control_route_of_def)

lemma final_public: "final_routes_present c v \<Longrightarrow> hasPublicIngress (rv_ingressRoutes v)"
  unfolding final_routes_present_def by (rule final_routes_public)

lemma unavailable_empty:
  "ea_pendingPlanes (observe_planes c v) @ ea_lostPlanes (observe_planes c v) = [] \<longleftrightarrow>
     planes_with Unavailable c v = {}"
  by (metis observe_planes_unavailable set_empty)

lemma decision_by_standing:
  fixes c v
  defines "unavailable \<equiv> ea_pendingPlanes (observe_planes c v) @ ea_lostPlanes (observe_planes c v)"
    and "final \<equiv> expectedFinalIngressRoutes (ec_ingressIntent c)"
    and "public \<equiv> hasPublicIngress (rv_ingressRoutes v)"
  shows "\<not> cohort_sound c v \<Longrightarrow> \<exists>reasons. evaluateGatewayAggregateAdmission lc c phase v = AggregateContain reasons public"
    and "cohort_sound c v \<Longrightarrow> evaluateGatewayAggregateAdmission lc c phase v =
      (if phase = PhaseJoining \<and> public then AggregateContain [PrematurePublicIngress] True
       else if planes_with Unavailable c v \<noteq> {}
       then (if phase = PhaseJoining then AggregateWaiting unavailable
             else AggregateWithdrawIngress unavailable [control_route_of (ec_ingressIntent c)])
       else if control_route_only c v then AggregatePublishIngress final
       else AggregateAdmitted final)"
proof -
  have same: "sameIngressRoutes lc (rv_ingressRoutes v) [control_route_of (ec_ingressIntent c)] \<longleftrightarrow> control_route_only c v"
    "sameIngressRoutes lc (rv_ingressRoutes v) final \<longleftrightarrow> final_routes_present c v"
    by (simp_all add: sameIngressRoutes_control control_route_only_def final_def sameIngressRoutes_final
        final_routes_present_def)
  show "\<exists>reasons. evaluateGatewayAggregateAdmission lc c phase v = AggregateContain reasons public"
    if "\<not> cohort_sound c v"
    using that
    by (simp add: evaluateGatewayAggregateAdmission_def Let_def same [unfolded final_def] public_def
        cohort_sound_def mismatches_empty)
  show "evaluateGatewayAggregateAdmission lc c phase v =
      (if phase = PhaseJoining \<and> public then AggregateContain [PrematurePublicIngress] True
       else if planes_with Unavailable c v \<noteq> {}
       then (if phase = PhaseJoining then AggregateWaiting unavailable
             else AggregateWithdrawIngress unavailable [control_route_of (ec_ingressIntent c)])
       else if control_route_only c v then AggregatePublishIngress final
       else AggregateAdmitted final)" if "cohort_sound c v"
    using that unavailable_empty [of c v]
    by (cases phase)
      (simp_all add: evaluateGatewayAggregateAdmission_def Let_def same [unfolded final_def] public_def
        cohort_sound_def mismatches_empty [symmetric] unavailable_def final_def, blast+)
qed

text \<open>
  C24: The aggregate decision, for every locale of the host: admitted exactly with every plane
  free of a foreign identity and available, nothing fatal and the final inventory of routes, past
  joining; ingress published exactly with the same and the control route alone; waiting and
  withdrawal name exactly the unavailable planes and are told apart by the phase, and a withdrawal
  keeps the control route alone; everything else is contained, and ingress is then withdrawn
  exactly when a public route is present.
\<close>

theorem aggregate_decision_exact:
  fixes c v lc phase
  defines "d \<equiv> evaluateGatewayAggregateAdmission lc c phase v"
    and "final \<equiv> expectedFinalIngressRoutes (ec_ingressIntent c)"
    and "blocked \<equiv> planes_with Unavailable c v"
  shows "((\<exists>routes. d = AggregateAdmitted routes \<and> routes = final) \<longleftrightarrow>
      cohort_sound c v \<and> blocked = {} \<and> phase \<noteq> PhaseJoining \<and> final_routes_present c v) \<and>
    ((\<exists>routes. d = AggregatePublishIngress routes \<and> routes = final) \<longleftrightarrow>
      cohort_sound c v \<and> blocked = {} \<and> control_route_only c v) \<and>
    ((\<exists>planes. d = AggregateWaiting planes \<and> set planes = blocked) \<longleftrightarrow>
      cohort_sound c v \<and> blocked \<noteq> {} \<and> phase = PhaseJoining \<and> control_route_only c v) \<and>
    ((\<exists>planes. d = AggregateWithdrawIngress planes [control_route_of (ec_ingressIntent c)] \<and> set planes = blocked) \<longleftrightarrow>
      cohort_sound c v \<and> blocked \<noteq> {} \<and> phase \<noteq> PhaseJoining) \<and>
    ((\<exists>reasons. d = AggregateContain reasons (hasPublicIngress (rv_ingressRoutes v))) \<longleftrightarrow>
      \<not> (cohort_sound c v \<and> \<not> (phase = PhaseJoining \<and> final_routes_present c v)))"
proof (cases "cohort_sound c v")
  case False
  with decision_by_standing(1) [OF False, of lc phase] show ?thesis by (auto simp: d_def)
next
  case True
  have routes: "hasPublicIngress (rv_ingressRoutes v) \<longleftrightarrow> final_routes_present c v"
    "control_route_only c v \<longleftrightarrow> \<not> final_routes_present c v"
    using True control_not_public final_public by (auto simp: cohort_sound_def)
  show ?thesis
    using True
    by (simp add: d_def final_def blocked_def decision_by_standing(2) [OF True] routes
        observe_planes_unavailable [unfolded set_append] del: set_append)
      (auto simp: observe_planes_unavailable [unfolded set_append])
qed

text \<open>
  C26: A loss reported for another identity counts as if the plane were available: when nothing but
  such losses has been observed, of any plane, a joining Gateway with its control route is told to
  publish public ingress.
\<close>

theorem foreign_losses_publish_ingress:
  assumes "list_all (\<lambda>(n, st). st = Ignored) (plane_standings c v)"
    and "rv_fatalEvidence v = NoFatal" and "control_route_only c v"
  shows "evaluateGatewayAggregateAdmission lc c PhaseJoining v =
    AggregatePublishIngress (expectedFinalIngressRoutes (ec_ingressIntent c))"
proof -
  have "planes_with st c v = {}" if "st \<noteq> Ignored" for st
    using assms(1) that by (auto simp: planes_with_def planes_of_def list_all_iff)
  moreover from this assms(2,3) have "cohort_sound c v"
    by (simp add: cohort_sound_def fatal_reasons_def)
  ultimately show ?thesis
    using assms(3) control_not_public [OF assms(3)] by (simp add: decision_by_standing(2))
qed

section \<open>A sample Gateway, for the witnesses\<close>

definition sample_cohort :: "string \<Rightarrow> expected_cohort" where
  "sample_cohort e =
     \<lparr>ec_controlIdentity = \<lparr>ci_controllerEpoch = ''c'', ci_generationId = e, ci_peerId = ''p'', ci_processEpoch = e\<rparr>,
      ec_fence = \<lparr>af_controllerEpoch = ''c'', af_gatewayEpoch = e, af_vmId = e, af_zoneId = ''zone''\<rparr>,
      ec_frameworkIdentity =
        \<lparr>fi_attachmentGeneration = 1, fi_clientKind = HermesManagedPlugin, fi_configuredAgentIds = [''a'', ''b''],
         fi_frameworkEpoch = e, fi_frameworkKind = Hermes, fi_projectionCohortDigest = ''d''\<rparr>,
      ec_ingressIntent =
        \<lparr>ii_controlRoute = \<lparr>ri_guestPort = 1, ri_prefix = ''/c'', ri_stripPrefix = True, pr_audience = ''t''\<rparr>,
         ii_frameworkRootRoute = \<lparr>ri_guestPort = 2, ri_prefix = ''/'', ri_stripPrefix = False\<rparr>\<rparr>,
      ec_providerRevision = e, ec_requiredBackendRevision = e, ec_semanticRevision = e,
      ec_toolPortalIdentity = \<lparr>tp_processEpoch = e, tp_runtimeEpoch = e, tp_serviceId = ''s''\<rparr>,
      ec_udsIdentity = \<lparr>ud_frameworkEpoch = e, ud_gatewayEpoch = e, ud_runtimeEpoch = e, ud_socketPath = ''/s''\<rparr>\<rparr>"

text \<open>Every plane reports the cohort of epoch \<open>e\<close>, as ready or as lost.\<close>

definition sample_vector :: "(string \<Rightarrow> bool) \<Rightarrow> string \<Rightarrow> ingress_route list \<Rightarrow> readiness_vector" where
  "sample_vector lost e routes =
     (let c = sample_cohort e
      in \<lparr>rv_authorityBearingControl = (if lost e then PlaneLost else PlaneReady) (ec_controlIdentity c),
          rv_fatalEvidence = NoFatal,
          rv_frameworkIdentity = (if lost e then PlaneLost else PlaneReady) (ec_frameworkIdentity c),
          rv_frameworkNativeReadiness = (if lost e then PlaneLost else PlaneReady) (ec_frameworkIdentity c),
          rv_ingressRoutes = routes,
          rv_providerRevision = (if lost e then PlaneLost else PlaneReady) (ec_providerRevision c),
          rv_requiredBackends = (if lost e then PlaneLost else PlaneReady) (ec_requiredBackendRevision c),
          rv_semanticRevision = (if lost e then PlaneLost else PlaneReady) (ec_semanticRevision c),
          rv_toolPortalIdentity = (if lost e then PlaneLost else PlaneReady) (ec_toolPortalIdentity c),
          rv_toolPortalReadiness = (if lost e then PlaneLost else PlaneReady) (ec_toolPortalIdentity c),
          rv_udsAttachment = (if lost e then PlaneLost else PlaneReady) (expected_attachment c),
          rv_udsPublication = (if lost e then PlaneLost else PlaneReady) (ec_udsIdentity c),
          rv_vmLiveness = (if lost e then PlaneLost else PlaneReady) (ec_fence c)\<rparr>)"

theorem foreign_losses_publish_ingress_witness:
  "evaluateGatewayAggregateAdmission (\<lambda>_ _. 0) (sample_cohort ''new'') PhaseJoining
     (sample_vector (\<lambda>_. True) ''old'' [control_route_of (ec_ingressIntent (sample_cohort ''new''))]) =
   AggregatePublishIngress (expectedFinalIngressRoutes (ec_ingressIntent (sample_cohort ''new'')))"
proof (rule foreign_losses_publish_ingress)
  show "list_all (\<lambda>(n, st). st = Ignored) (plane_standings (sample_cohort ''new'')
      (sample_vector (\<lambda>_. True) ''old'' [control_route_of (ec_ingressIntent (sample_cohort ''new''))]))"
    by (simp add: plane_standings_def standing_def sample_vector_def sample_cohort_def
        sameConfiguredAgentIdentity_def expected_attachment_def Let_def)
qed (simp_all add: sample_vector_def Let_def control_route_only_def)

section \<open>The controller\<close>

text \<open>
  C22: Whatever the environment does, at every moment of every run of the controller at most one
  Gateway VM may be live, counting from the call that starts it, even when it fails, to its proven
  containment. When a run stops, the VM that may be live is the one the state answers for, no VM
  after a contained failure, and the routes last applied to it are the control route alone while
  the cohort is joining or reconnecting, and the final inventory while it is publishing or
  admitted.
\<close>

theorem one_gateway_vm_is_live:
  fixes out cmds
  defines "s \<equiv> atomic_run out cmds createGatewayAtomicAdmissionController"
  shows "never_two (ac_history s) \<and> live (ac_history s) \<subseteq> owned (ac_state s) \<and>
    routes_match (ac_state s) (ac_history s)"
  using run_atomic_ok [OF created_atomic_ok, of out cmds]
  by (simp add: s_def atomic_ok_def settled_def holding_def)

text \<open>Which calls a state accepts.\<close>

fun accepts :: "'e atomic_state \<Rightarrow> atomic_command \<Rightarrow> bool" where
  "accepts AtomicIdle cmd \<longleftrightarrow> (case cmd of ReplaceRecorded p t \<Rightarrow> True | Start c \<Rightarrow> True | _ \<Rightarrow> False)"
| "accepts (AtomicAdmitted c) cmd \<longleftrightarrow> (case cmd of Observe v \<Rightarrow> True | _ \<Rightarrow> False)"
| "accepts (AtomicJoining c) cmd \<longleftrightarrow> (case cmd of Observe v \<Rightarrow> True | ExpireStartupJoin r \<Rightarrow> True | _ \<Rightarrow> False)"
| "accepts (AtomicPublishing c) cmd \<longleftrightarrow> (case cmd of Observe v \<Rightarrow> True | ExpireStartupJoin r \<Rightarrow> True | _ \<Rightarrow> False)"
| "accepts (AtomicReconnecting c lost) cmd \<longleftrightarrow> (case cmd of Observe v \<Rightarrow> True | ExpireRecovery t \<Rightarrow> True | _ \<Rightarrow> False)"
| "accepts (AtomicReplacing p t) cmd \<longleftrightarrow> False"
| "accepts (AtomicStartupFailed r) cmd \<longleftrightarrow> False"
| "accepts (AtomicReplacementFailed e q stage n) cmd \<longleftrightarrow> False"
| "accepts (AtomicOwnerUnsafe e stage c) cmd \<longleftrightarrow> False"

lemma refused_call:
  assumes "\<not> ac_transitionInProgress s" and "\<not> accepts (ac_state s) cmd"
  shows "atomic_exec out cmd s = (Inl WrongState, s)"
  using assms
  by (cases "ac_state s"; cases cmd)
    (simp_all add: atomic_exec_def runAtomicTransition_def expireRecovery_def expireStartupJoin_def
      observe_def replaceRecordedPredecessor_def start_def op_throw_def active_candidate_def)

text \<open>
  C25: A call the state does not accept, or that comes during another transition, throws and
  changes nothing. After a failed start, a failed replacement or an unsafe owner no call is
  accepted, so the controller stays there for good and calls nothing.
\<close>

theorem refused_calls_change_nothing:
  assumes "\<not> ac_transitionInProgress s" and "list_all (\<lambda>cmd. \<not> accepts (ac_state s) cmd) cmds"
  shows "atomic_run out cmds s = s \<and>
    list_all (\<lambda>cmd. atomic_exec out cmd s = (Inl WrongState, s)) cmds \<and>
    atomic_exec out cmd (s\<lparr>ac_transitionInProgress := True\<rparr>) =
      (Inl TransitionInProgress, s\<lparr>ac_transitionInProgress := True\<rparr>)"
proof -
  have refused: "list_all (\<lambda>cmd. atomic_exec out cmd s = (Inl WrongState, s)) cmds"
    using assms by (auto simp: list_all_iff refused_call)
  then have "atomic_run out cmds s = s"
    by (induction cmds) simp_all
  with refused show ?thesis
    by (simp add: atomic_exec_def runAtomicTransition_def op_throw_def)
qed

definition sample_outside :: "(gateway_call \<Rightarrow> bool) \<Rightarrow> unit outside" where
  "sample_outside fails =
     \<lparr>out_fails = (\<lambda>h c. if fails c then Some () else None),
      out_successor = (\<lambda>h q t. Inr \<lparr>cd_object = Suc (length h), cd_expectedCohort = sample_cohort ''new''\<rparr>),
      out_localeCompare = (\<lambda>_ _. 0)\<rparr>"

definition sample_candidate :: candidate where
  "sample_candidate = \<lparr>cd_object = 0, cd_expectedCohort = sample_cohort ''old''\<rparr>"

definition sample_fails :: "gateway_call \<Rightarrow> bool" where
  "sample_fails c \<longleftrightarrow> (case c of StartGatewayVm _ \<Rightarrow> True | _ \<Rightarrow> False)"

theorem refused_calls_change_nothing_witness:
  defines "out \<equiv> sample_outside sample_fails"
  defines "s \<equiv> snd (atomic_exec out (Start sample_candidate) createGatewayAtomicAdmissionController)"
  shows "atomic_run out [Start sample_candidate, ExpireStartupJoin ''late''] s = s"
proof -
  have state: "ac_state s = AtomicStartupFailed
      \<lparr>sc_predecessor = sample_cohort ''old'', sc_reason = ''gateway-vm-start-failed''\<rparr>"
    "\<not> ac_transitionInProgress s"
    by (simp_all add: s_def out_def atomic_exec_def runAtomicTransition_def start_def startCandidate_def
        startup_failed_def containAfterFailure_def recordStartupFailure_def op_bind_def op_catch_def
        op_throw_def op_return_def set_state_def call_def sample_outside_def sample_fails_def
        sample_candidate_def createGatewayAtomicAdmissionController_def Let_def)
  show ?thesis
    using refused_calls_change_nothing [OF state(2), of "[Start sample_candidate, ExpireStartupJoin ''late'']" out]
    by (simp add: state(1))
qed

section \<open>Replacement\<close>

lemma op_bind_Inr: "op_bind m f s = (Inr y, s') \<longleftrightarrow> (\<exists>x s1. m s = (Inr x, s1) \<and> f x s1 = (Inr y, s'))"
  by (cases "m s"; cases "fst (m s)") (auto simp: op_bind_def)

lemma op_catch_Inr:
  "op_catch m h s = (Inr x, s') \<longleftrightarrow> m s = (Inr x, s') \<or> (\<exists>e s1. m s = (Inl e, s1) \<and> h e s1 = (Inr x, s'))"
  by (cases "m s"; cases "fst (m s)") (auto simp: op_catch_def)

lemma op_throw_Inr [simp]: "op_throw e s \<noteq> (Inr x, s')"
  by (simp add: op_throw_def)

lemma op_return_Inr [simp]: "op_return x s = (Inr y, s') \<longleftrightarrow> y = x \<and> s' = s"
  by (auto simp: op_return_def)

lemma set_state_Inr [simp]: "set_state st s = (Inr y, s') \<longleftrightarrow> s' = s\<lparr>ac_state := st\<rparr>"
  by (auto simp: set_state_def)

lemma call_Inr: "call out c s = (Inr y, s') \<Longrightarrow> s' = s\<lparr>ac_history := ac_history s @ [(c, True)]\<rparr>"
  by (auto simp: call_def split: option.splits)

lemma ownerUnsafe_Inr [simp]: "enterOwnerUnsafe e stage c s \<noteq> (Inr x, s')"
  by (simp add: enterOwnerUnsafe_def op_bind_Inr)

lemma startup_failed_Inr [simp]: "startup_failed out c q reason stage e s \<noteq> (Inr x, s')"
  by (simp add: startup_failed_def op_bind_Inr)

lemma create_Inr:
  "createSuccessorCandidate out q t s = (Inr n, s') \<Longrightarrow>
     s' = s\<lparr>ac_history := ac_history s @ [(CreateSuccessor q t, True)]\<rparr>"
  by (auto simp: createSuccessorCandidate_def Let_def split: sum.splits)

definition fresh_successor :: "expected_cohort \<Rightarrow> expected_cohort \<Rightarrow> bool" where
  "fresh_successor p n \<longleftrightarrow> reusedIdentityFields p n = [] \<and>
     af_zoneId (ec_fence n) = af_zoneId (ec_fence p) \<and>
     fi_projectionCohortDigest (ec_frameworkIdentity n) = fi_projectionCohortDigest (ec_frameworkIdentity p) \<and>
     mset (fi_configuredAgentIds (ec_frameworkIdentity n)) = mset (fi_configuredAgentIds (ec_frameworkIdentity p))"

lemma assertFresh_Inr: "assertFreshGatewaySuccessor p n s = (Inr x, s') \<Longrightarrow> s' = s \<and> fresh_successor p n"
  by (auto simp: assertFreshGatewaySuccessor_def fresh_successor_def sameConfiguredAgents_def
      split: if_splits) (metis mset_sort)+

lemma routes_Inr:
  "applyIngressRoutes out c rs s = (Inr x, s') \<Longrightarrow>
     s' = s\<lparr>ac_history := ac_history s @ [(ReplaceIngressRoutes c rs, True)]\<rparr>"
  by (auto simp: applyIngressRoutes_def op_bind_Inr dest: call_Inr)

lemma startCandidate_Inr:
  "startCandidate out c q s = (Inr x, s') \<Longrightarrow>
     s' = s\<lparr>ac_history := ac_history s @ [(StartGatewayVm c, True), (ReplaceIngressRoutes c (control_only c), True)],
            ac_state := AtomicJoining c\<rparr>"
  by (auto simp: startCandidate_def op_bind_Inr op_catch_Inr control_only_def dest!: call_Inr routes_Inr)

lemma withdraw_Inr:
  "withdraw_and_contain out c stage1 stage2 s = (Inr x, s') \<Longrightarrow>
     s' = s\<lparr>ac_history := ac_history s @ [(ReplaceIngressRoutes c [], True), (ContainGatewayVm c, True)]\<rparr>"
  by (auto simp: withdraw_and_contain_def op_bind_Inr op_catch_Inr dest!: call_Inr routes_Inr)

definition replacement_calls :: "candidate \<Rightarrow> recovery_trigger \<Rightarrow> candidate \<Rightarrow> call_history" where
  "replacement_calls p t n = map (\<lambda>c. (c, True))
     [ReplaceIngressRoutes p [], ContainGatewayVm p, CreateSuccessor (cd_expectedCohort p) t,
      StartGatewayVm n, ReplaceIngressRoutes n (control_only n)]"

lemma replaceCandidate_Inr:
  assumes "replaceCandidate out p t s = (Inr r, s')"
  shows "\<exists>n. fresh_successor (cd_expectedCohort p) (cd_expectedCohort n) \<and>
    r = \<lparr>rr_predecessorQuiescence = cd_expectedCohort p, rr_successor = cd_expectedCohort n, rr_trigger = t\<rparr> \<and>
    ac_state s' = AtomicJoining n \<and> ac_history s' = ac_history s @ replacement_calls p t n"
proof -
  obtain x y s1 n s2 s3 u s4 where
    s1: "withdraw_and_contain out p PredecessorContainment ReplacementIngressWithdrawal
      (s\<lparr>ac_state := AtomicReplacing p t\<rparr>) = (Inr x, s1)"
    and s2: "createSuccessorCandidate out (cd_expectedCohort p) t s1 = (Inr n, s2)"
    and s3: "assertFreshGatewaySuccessor (cd_expectedCohort p) (cd_expectedCohort n) s2 = (Inr u, s3)"
    and s4: "startCandidate out n (Some (cd_expectedCohort p)) s3 = (Inr y, s')"
    and r: "r = \<lparr>rr_predecessorQuiescence = cd_expectedCohort p, rr_successor = cd_expectedCohort n, rr_trigger = t\<rparr>"
    using assms by (auto simp: replaceCandidate_def Let_def op_bind_Inr op_catch_Inr)
  from withdraw_Inr [OF s1] create_Inr [OF s2] assertFresh_Inr [OF s3] startCandidate_Inr [OF s4] r
  show ?thesis by (auto simp: replacement_calls_def intro!: exI [of _ n])
qed

lemma then_return_Inr:
  "op_bind m (\<lambda>r. op_return (f r)) s = (Inr y, s') \<longleftrightarrow> (\<exists>r. m s = (Inr r, s') \<and> y = f r)"
  by (auto simp: op_bind_Inr)

lemma observe_replaced:
  assumes "observe out v s = (Inr (ResultReplaced r), s')"
  shows "\<exists>p t. active_candidate (ac_state s) = Some p \<and> replaceCandidate out p t s = (Inr r, s')"
  using assms
  by (auto simp: observe_def then_return_Inr op_bind_Inr
      split: option.splits aggregate_decision.splits if_splits atomic_state.splits)

lemma transition_replaced:
  assumes "transition_of out cmd s = (Inr (ResultReplaced r), s')"
  shows "\<exists>p t. replaceCandidate out p t s = (Inr r, s')"
  using assms observe_replaced
  by (cases cmd)
    (fastforce simp: expireRecovery_def expireStartupJoin_def replaceRecordedPredecessor_def start_def
      then_return_Inr split: atomic_state.splits if_splits)+

text \<open>
  C23: A call that answers with a replacement has made exactly five calls, in this order, and all
  of them succeeded: the predecessor lost its routes, then it was contained, then a successor was
  created for its quiescence receipt, then the successor was started, and it received the control
  route alone. The successor keeps zone, projection cohort and agent set of the predecessor,
  reuses none of its seven per-start identities, and is now joining.
\<close>

theorem replacement_is_exact:
  assumes "atomic_exec out cmd s = (Inr (ResultReplaced r), s')"
  shows "\<exists>p n. fresh_successor (cd_expectedCohort p) (cd_expectedCohort n) \<and>
    r = \<lparr>rr_predecessorQuiescence = cd_expectedCohort p, rr_successor = cd_expectedCohort n, rr_trigger = rr_trigger r\<rparr> \<and>
    ac_state s' = AtomicJoining n \<and>
    ac_history s' = ac_history s @ replacement_calls p (rr_trigger r) n"
proof -
  obtain s1 where s1: "transition_of out cmd (s\<lparr>ac_transitionInProgress := True\<rparr>) = (Inr (ResultReplaced r), s1)"
    and s': "s' = s1\<lparr>ac_transitionInProgress := False\<rparr>"
    using assms by (auto simp: atomic_exec_def runAtomicTransition_def Let_def split: if_splits prod.splits)
  obtain p t where "replaceCandidate out p t (s\<lparr>ac_transitionInProgress := True\<rparr>) = (Inr r, s1)"
    using transition_replaced [OF s1] by blast
  from replaceCandidate_Inr [OF this] s' show ?thesis by auto
qed

theorem replacement_is_exact_witness:
  "\<exists>n. live (ac_history (snd (atomic_exec (sample_outside (\<lambda>_. False)) (ReplaceRecorded sample_candidate TriggerControllerRestart)
     createGatewayAtomicAdmissionController))) = {n} \<and> n \<noteq> sample_candidate"
proof -
  let ?exec = "atomic_exec (sample_outside (\<lambda>_. False)) (ReplaceRecorded sample_candidate TriggerControllerRestart)
    createGatewayAtomicAdmissionController"
  have "fst ?exec = Inr (ResultReplaced
      \<lparr>rr_predecessorQuiescence = sample_cohort ''old'', rr_successor = sample_cohort ''new'',
       rr_trigger = TriggerControllerRestart\<rparr>)"
    by (simp add: atomic_exec_def runAtomicTransition_def replaceRecordedPredecessor_def replaceCandidate_def
        startCandidate_def withdraw_and_contain_def applyIngressRoutes_def createSuccessorCandidate_def
        assertFreshGatewaySuccessor_def reusedIdentityFields_def sameConfiguredAgents_def
        op_bind_def op_catch_def op_throw_def op_return_def set_state_def call_def sample_outside_def
        sample_candidate_def createGatewayAtomicAdmissionController_def Let_def)
      (simp add: sample_cohort_def)
  then have "?exec = (Inr (ResultReplaced
      \<lparr>rr_predecessorQuiescence = sample_cohort ''old'', rr_successor = sample_cohort ''new'',
       rr_trigger = TriggerControllerRestart\<rparr>), snd ?exec)"
    by (metis prod.collapse)
  from replacement_is_exact [OF this] obtain p n where
    fresh: "fresh_successor (cd_expectedCohort p) (cd_expectedCohort n)"
    and p: "cd_expectedCohort p = sample_cohort ''old''"
    and h: "ac_history (snd ?exec) = replacement_calls p TriggerControllerRestart n"
    by (auto simp: createGatewayAtomicAdmissionController_def)
  have "live (ac_history (snd ?exec)) = {n}"
    by (simp add: h replacement_calls_def live_def)
  moreover have "n \<noteq> sample_candidate"
    using fresh p by (auto simp: fresh_successor_def reusedIdentityFields_def sample_candidate_def sample_cohort_def)
  ultimately show ?thesis by blast
qed

end
