(* ===== verification/SemanticJson.thy ===== *)
theory SemanticJson
  imports Principal "HOL-Library.List_Lexorder" "HOL-Library.Char_ord"
begin

text \<open>
  controller/control-session/gateway-semantic-result-ledger.ts, first half: the canonical JSON
  text that the keys of the ledger are made of. A string is a list of characters with codes below
  256, so a key order is the order of UTF-16 code units and no surrogates occur; a number is an
  integer that JavaScript prints without exponent, negative zero, or one of the non-finite
  numbers (numbers with a fraction are not modelled). SHA-256 comes from \<open>node:crypto\<close> and
  is the parameter \<open>sha256\<close>.

  The main result is that the canonical text determines the value up to the order of the keys
  and the sign of zero: no two operations of different meaning share a key.
\<close>

section \<open>Values\<close>

datatype js_number = IntegerNumber int | NegativeZero | NotFinite

datatype json =
  JNull
| JBoolean bool
| JNumber js_number
| JString string
| JArray "json list"
| JObject "(string \<times> json) list"

text \<open>An arbitrary JavaScript value, as \<open>parseGatewaySemanticJsonValue\<close> receives it.\<close>

datatype js_value =
  JsUndefined
| JsNull
| JsBoolean bool
| JsNumber js_number
| JsString string
| JsArray "js_value list"
| JsObject "(string \<times> js_value) list"
| JsOther

datatype canonical_error =
  RejectsNonFiniteNumbers
| RejectsUndefinedObjectValues
| NotJsonCompatible

fun result_list :: "('e + 'a) list \<Rightarrow> 'e + 'a list" where
  "result_list [] = Inr []"
| "result_list (r # rs) = result_bind r (\<lambda>x. result_bind (result_list rs) (\<lambda>xs. Inr (x # xs)))"

section \<open>Parsing\<close>

fun parseGatewaySemanticJsonValue :: "js_value \<Rightarrow> canonical_error + json" where
  "parseGatewaySemanticJsonValue JsNull = Inr JNull"
| "parseGatewaySemanticJsonValue (JsBoolean b) = Inr (JBoolean b)"
| "parseGatewaySemanticJsonValue (JsString s) = Inr (JString s)"
| "parseGatewaySemanticJsonValue (JsNumber n) = (if n = NotFinite then Inl NotJsonCompatible else Inr (JNumber n))"
| "parseGatewaySemanticJsonValue (JsArray vs) =
     result_bind (result_list (map parseGatewaySemanticJsonValue vs)) (\<lambda>items. Inr (JArray items))"
| "parseGatewaySemanticJsonValue (JsObject es) =
     result_bind (result_list (map (\<lambda>(key, item).
         if item = JsUndefined then Inl RejectsUndefinedObjectValues
         else result_bind (parseGatewaySemanticJsonValue item) (\<lambda>parsed. Inr (key, parsed))) es))
       (\<lambda>entries. Inr (JObject entries))"
| "parseGatewaySemanticJsonValue JsUndefined = Inl NotJsonCompatible"
| "parseGatewaySemanticJsonValue JsOther = Inl NotJsonCompatible"

section \<open>JSON text\<close>

text \<open>\<open>JSON.stringify\<close> on strings and integers.\<close>

definition short_escape :: "char \<Rightarrow> char option" where
  "short_escape c =
     (if c = CHR 0x22 then Some (CHR 0x22) else if c = CHR 0x5C then Some (CHR 0x5C)
      else if c = CHR 0x08 then Some (CHR ''b'') else if c = CHR 0x09 then Some (CHR ''t'')
      else if c = CHR 0x0A then Some (CHR ''n'') else if c = CHR 0x0C then Some (CHR ''f'')
      else if c = CHR 0x0D then Some (CHR ''r'') else None)"

definition hex_char :: "nat \<Rightarrow> char" where
  "hex_char d = (if d < 10 then char_of (48 + d) else char_of (87 + d))"

definition quote_char :: "char \<Rightarrow> string" where
  "quote_char c =
     (case short_escape c of
        Some e \<Rightarrow> [CHR 0x5C, e]
      | None \<Rightarrow>
          let code = of_char c :: nat
          in if code < 32 then [CHR 0x5C, CHR ''u'', CHR ''0'', CHR ''0'', hex_char (code div 16), hex_char (code mod 16)]
             else [c])"

definition json_quote :: "string \<Rightarrow> string" where
  "json_quote s = CHR 0x22 # concat (map quote_char s) @ [CHR 0x22]"

definition int_text :: "int \<Rightarrow> string" where
  "int_text n = (if n < 0 then CHR ''-'' # decimal (nat (- n)) else decimal (nat n))"

text \<open>\<open>join(',')\<close>\<close>

definition comma_rest :: "string list \<Rightarrow> string" where
  "comma_rest ts = concat (map (\<lambda>t. CHR '','' # t) ts)"

definition comma_join :: "string list \<Rightarrow> string" where
  "comma_join ts = (case ts of [] \<Rightarrow> [] | t # ts \<Rightarrow> t @ comma_rest ts)"

lemma entry_size: "(k, v) \<in> set es \<Longrightarrow> size v < Suc (size_list (size_prod size size) es)"
  by (induction es) auto

function canonicalizeJsonValue :: "json \<Rightarrow> canonical_error + string" where
  "canonicalizeJsonValue JNull = Inr ''null''"
| "canonicalizeJsonValue (JBoolean b) = Inr (if b then ''true'' else ''false'')"
| "canonicalizeJsonValue (JString s) = Inr (json_quote s)"
| "canonicalizeJsonValue (JNumber n) =
     (case n of NotFinite \<Rightarrow> Inl RejectsNonFiniteNumbers | NegativeZero \<Rightarrow> Inr (int_text 0)
      | IntegerNumber i \<Rightarrow> Inr (int_text i))"
| "canonicalizeJsonValue (JArray items) =
     result_bind (result_list (map canonicalizeJsonValue items)) (\<lambda>ts.
     Inr (''['' @ comma_join ts @ '']''))"
| "canonicalizeJsonValue (JObject es) =
     result_bind (result_list (map (\<lambda>(key, item).
         result_bind (canonicalizeJsonValue item) (\<lambda>t. Inr (json_quote key @ '':'' @ t))) (sort_key fst es))) (\<lambda>ts.
     Inr (''{'' @ comma_join ts @ ''}''))"
  by pat_completeness auto

termination
  by (relation "measure size") (auto dest: entry_size simp: less_Suc_eq_le size_list_estimation')

section \<open>The canonical text determines the value\<close>

fun canonical_form :: "json \<Rightarrow> json" where
  "canonical_form (JNumber NegativeZero) = JNumber (IntegerNumber 0)"
| "canonical_form (JArray items) = JArray (map canonical_form items)"
| "canonical_form (JObject es) = JObject (sort_key fst (map (\<lambda>(key, item). (key, canonical_form item)) es))"
| "canonical_form v = v"

fun finite_json :: "json \<Rightarrow> bool" where
  "finite_json (JNumber n) = (n \<noteq> NotFinite)"
| "finite_json (JArray items) = list_all finite_json items"
| "finite_json (JObject es) = list_all (\<lambda>(key, item). finite_json item) es"
| "finite_json v = True"

fun render :: "json \<Rightarrow> string" where
  "render JNull = ''null''"
| "render (JBoolean b) = (if b then ''true'' else ''false'')"
| "render (JNumber n) = (case n of IntegerNumber i \<Rightarrow> int_text i | _ \<Rightarrow> int_text 0)"
| "render (JString s) = json_quote s"
| "render (JArray items) = ''['' @ comma_join (map render items) @ '']''"
| "render (JObject es) = ''{'' @ comma_join (map (\<lambda>(key, item). json_quote key @ '':'' @ render item) es) @ ''}''"

text \<open>Text that may follow a rendered value.\<close>

definition stops :: "string \<Rightarrow> bool" where
  "stops xs \<longleftrightarrow> (case xs of [] \<Rightarrow> True | c # _ \<Rightarrow> c = CHR '','' \<or> c = CHR '']'' \<or> c = CHR ''}'')"

lemma stops_simps [simp]: "stops []" "stops (CHR '','' # xs)" "stops (CHR '']'' # xs)" "stops (CHR ''}'' # xs)"
  by (simp_all add: stops_def)

subsection \<open>Strings\<close>

lemma short_escape_inj: "short_escape c = Some e \<Longrightarrow> short_escape d = Some e \<Longrightarrow> c = d"
  by (auto simp: short_escape_def split: if_splits)

lemma short_escape_not_u: "short_escape c \<noteq> Some (CHR ''u'')"
  by (simp add: short_escape_def)

lemma hex_char_inj: "d < 16 \<Longrightarrow> e < 16 \<Longrightarrow> hex_char d = hex_char e \<Longrightarrow> d = e"
  by (auto simp: hex_char_def split: if_splits dest!: arg_cong [where f = "of_char :: char \<Rightarrow> nat"])

lemma control_char_inj:
  assumes "(of_char c :: nat) < 32" and "(of_char d :: nat) < 32"
    and "hex_char ((of_char c :: nat) div 16) = hex_char (of_char d div 16)"
    and "hex_char ((of_char c :: nat) mod 16) = hex_char (of_char d mod 16)"
  shows "c = d"
proof -
  have "(of_char c :: nat) div 16 = of_char d div 16" using assms by (intro hex_char_inj) simp_all
  moreover have "(of_char c :: nat) mod 16 = of_char d mod 16" using assms by (intro hex_char_inj) simp_all
  ultimately have "(of_char c :: nat) = of_char d" by (metis div_mult_mod_eq)
  then show ?thesis by simp
qed

lemma backslash_escaped: "short_escape (CHR 0x5C) = Some (CHR 0x5C)" "short_escape (CHR 0x22) = Some (CHR 0x22)"
  by (simp_all add: short_escape_def)

lemma quote_char_inj: "quote_char c @ xs = quote_char d @ ys \<Longrightarrow> c = d \<and> xs = ys"
  using short_escape_inj [of c _ d] short_escape_not_u [of c] short_escape_not_u [of d] control_char_inj [of c d]
  by (auto simp: quote_char_def Let_def backslash_escaped split: option.splits if_splits)

lemma quote_char_start: "\<exists>e es. quote_char c = e # es \<and> e \<noteq> CHR 0x22"
  by (auto simp: quote_char_def Let_def backslash_escaped split: option.split)

lemma quoted_inj:
  "concat (map quote_char s) @ CHR 0x22 # xs = concat (map quote_char t) @ CHR 0x22 # ys \<Longrightarrow> s = t \<and> xs = ys"
proof (induction s arbitrary: t)
  case none: Nil
  show ?case
  proof (cases t)
    case Nil
    with none show ?thesis by simp
  next
    case (Cons d t')
    with none quote_char_start [of d] show ?thesis by auto
  qed
next
  case (Cons c s)
  show ?case
  proof (cases t)
    case Nil
    with Cons.prems quote_char_start [of c] show ?thesis by auto
  next
    case (Cons d t')
    with Cons.prems have "quote_char c @ (concat (map quote_char s) @ CHR 0x22 # xs) =
        quote_char d @ (concat (map quote_char t') @ CHR 0x22 # ys)" by simp
    from quote_char_inj [OF this] Cons.IH [of t'] Cons show ?thesis by simp
  qed
qed

lemma json_quote_inj: "json_quote s @ xs = json_quote t @ ys \<Longrightarrow> s = t \<and> xs = ys"
  using quoted_inj [of s xs t ys] by (simp add: json_quote_def)

subsection \<open>Integers\<close>

definition digit :: "char \<Rightarrow> bool" where
  "digit c \<longleftrightarrow> 48 \<le> (of_char c :: nat) \<and> (of_char c :: nat) \<le> 57"

lemma not_digit [simp]:
  "\<not> digit (CHR ''-'')" "\<not> digit (CHR '','')" "\<not> digit (CHR '']'')" "\<not> digit (CHR ''}'')"
  "\<not> digit (CHR ''['')" "\<not> digit (CHR ''{'')" "\<not> digit (CHR 0x22)" "\<not> digit (CHR ''n'')"
  "\<not> digit (CHR ''t'')" "\<not> digit (CHR ''f'')"
  by (simp_all add: digit_def)

lemma decimal_digits: "c \<in> set (decimal n) \<Longrightarrow> digit c"
proof (induction n rule: decimal.induct)
  case (1 n)
  have "digit (digit_char d)" if "d < 10" for d using that by (simp add: digit_def digit_char_def)
  with 1 show ?case by (auto simp: decimal.simps [of n] split: if_splits)
qed

lemma takeWhile_decimal:
  assumes "stops xs"
  shows "takeWhile digit (decimal n @ xs) = decimal n"
proof -
  have "takeWhile digit xs = []" using assms by (cases xs) (auto simp: stops_def)
  then show ?thesis by (simp add: takeWhile_append2 decimal_digits)
qed

lemma decimal_append_inj:
  assumes "decimal m @ xs = decimal n @ ys" and "stops xs" and "stops ys"
  shows "m = n \<and> xs = ys"
proof -
  have "decimal m = decimal n" using assms takeWhile_decimal by metis
  with assms(1) show ?thesis using decimal_inj by simp
qed

lemma decimal_start: "\<exists>c cs. decimal n = c # cs \<and> digit c"
  using decimal_digits [of _ n] by (cases "decimal n") auto

lemma int_text_inj:
  assumes "int_text i @ xs = int_text j @ ys" and "stops xs" and "stops ys"
  shows "i = j \<and> xs = ys"
proof -
  obtain c cs d ds where c: "decimal (nat i) = c # cs" "digit c" and d: "decimal (nat j) = d # ds" "digit d"
    using decimal_start by metis
  show ?thesis
  proof (cases "i < 0")
    case neg: True
    show ?thesis
    proof (cases "j < 0")
      case True
      with neg assms decimal_append_inj [of "nat (- i)" xs "nat (- j)" ys] show ?thesis
        by (simp add: int_text_def) linarith
    next
      case False
      with neg assms(1) d show ?thesis by (auto simp: int_text_def)
    qed
  next
    case pos: False
    show ?thesis
    proof (cases "j < 0")
      case True
      with pos assms(1) c show ?thesis by (auto simp: int_text_def)
    next
      case False
      with pos assms decimal_append_inj [of "nat i" xs "nat j" ys] show ?thesis
        by (simp add: int_text_def) linarith
    qed
  qed
qed

lemma int_text_start: "\<exists>c cs. int_text i = c # cs \<and> (c = CHR ''-'' \<or> digit c)"
  using decimal_start [of "nat i"] by (auto simp: int_text_def)

subsection \<open>Lists\<close>

lemma comma_rest_simps [simp]:
  "comma_rest [] = []" "comma_rest (t # ts) = CHR '','' # t @ comma_rest ts"
  by (simp_all add: comma_rest_def)

lemma comma_rest_stops: "stops (comma_rest ts @ c # xs) \<longleftrightarrow> ts \<noteq> [] \<or> stops (c # xs)"
  by (cases ts) simp_all

text \<open>A function whose texts can be told apart before a stop.\<close>

definition separates :: "('a \<Rightarrow> bool) \<Rightarrow> ('a \<Rightarrow> string) \<Rightarrow> 'a \<Rightarrow> bool" where
  "separates P f x \<longleftrightarrow> (\<forall>y us vs. P y \<longrightarrow> f x @ us = f y @ vs \<longrightarrow> stops us \<longrightarrow> stops vs \<longrightarrow> x = y \<and> us = vs)"

lemma separatesD: "separates P f x \<Longrightarrow> P y \<Longrightarrow> f x @ us = f y @ vs \<Longrightarrow> stops us \<Longrightarrow> stops vs \<Longrightarrow> x = y \<and> us = vs"
  by (simp add: separates_def)

lemma comma_rest_inj:
  assumes "\<And>x. x \<in> set as \<Longrightarrow> separates P f x"
    and "\<And>y. y \<in> set bs \<Longrightarrow> P y" and "c = CHR '']'' \<or> c = CHR ''}''"
    and "comma_rest (map f as) @ c # xs = comma_rest (map f bs) @ c # ys"
  shows "as = bs \<and> xs = ys"
  using assms(1,2,4)
proof (induction as arbitrary: bs)
  case Nil
  with assms(3) show ?case by (cases bs) auto
next
  case (Cons a as)
  show ?case
  proof (cases bs)
    case Nil
    with Cons.prems(3) assms(3) show ?thesis by auto
  next
    case (Cons b bs')
    have stop: "stops (comma_rest (map f zs) @ c # zx)" for zs zx
      using assms(3) by (auto simp: comma_rest_stops)
    from Cons Cons.prems(3) have "f a @ (comma_rest (map f as) @ c # xs) = f b @ (comma_rest (map f bs') @ c # ys)"
      by simp
    from separatesD [of P f a b, OF _ _ this stop stop] Cons.IH [of bs'] Cons.prems(1,2) Cons show ?thesis by simp
  qed
qed

lemma comma_join_inj:
  assumes "\<And>x. x \<in> set as \<Longrightarrow> separates P f x"
    and "\<And>y. y \<in> set bs \<Longrightarrow> P y" and "c = CHR '']'' \<or> c = CHR ''}''"
    and "\<And>x. \<not> stops (f x)"
    and "comma_join (map f as) @ c # xs = comma_join (map f bs) @ c # ys"
  shows "as = bs \<and> xs = ys"
proof -
  have start: "f x @ us \<noteq> c # vs" for x us vs
    using assms(3) assms(4) [of x] by (cases "f x") (auto simp: stops_def)
  have stop: "stops (comma_rest (map f zs) @ c # zx)" for zs zx
    using assms(3) by (auto simp: comma_rest_stops)
  show ?thesis
  proof (cases as; cases bs)
    fix a as' b bs' assume ab: "as = a # as'" "bs = b # bs'"
    with assms(5) have "f a @ (comma_rest (map f as') @ c # xs) = f b @ (comma_rest (map f bs') @ c # ys)"
      by (simp add: comma_join_def)
    from separatesD [of P f a b, OF _ _ this stop stop] assms(1,2) ab have "a = b"
      and rest: "comma_rest (map f as') @ c # xs = comma_rest (map f bs') @ c # ys" by auto
    moreover have "as' = bs' \<and> xs = ys" by (rule comma_rest_inj [OF _ _ assms(3) rest, where P = P]) (use assms(1,2) ab in auto)
    ultimately show ?thesis using ab by simp
  qed (use assms(5) start start [symmetric] in \<open>auto simp: comma_join_def\<close>)
qed

subsection \<open>Values\<close>

text \<open>A value in which zero is written as an integer and every number is finite.\<close>

fun plain_json :: "json \<Rightarrow> bool" where
  "plain_json (JNumber n) = (\<exists>i. n = IntegerNumber i)"
| "plain_json (JArray items) = list_all plain_json items"
| "plain_json (JObject es) = list_all (\<lambda>(key, item). plain_json item) es"
| "plain_json v = True"

lemma render_start:
  "\<exists>c cs. render v = c # cs \<and> (case v of
     JNull \<Rightarrow> c = CHR ''n'' | JBoolean b \<Rightarrow> c = (if b then CHR ''t'' else CHR ''f'')
   | JNumber _ \<Rightarrow> c = CHR ''-'' \<or> digit c | JString _ \<Rightarrow> c = CHR 0x22
   | JArray _ \<Rightarrow> c = CHR ''['' | JObject _ \<Rightarrow> c = CHR ''{'')"
  using int_text_start by (cases v) (auto simp: json_quote_def split: js_number.split)

lemma render_not_stops: "\<not> stops (render v)"
  using render_start [of v] by (cases v) (auto simp: stops_def split: if_splits)

text \<open>The first character tells the kind of the value.\<close>

definition char_kind :: "char \<Rightarrow> nat" where
  "char_kind c = (if c = CHR ''n'' then 0 else if c = CHR ''t'' then 1 else if c = CHR ''f'' then 2
     else if c = CHR 0x22 then 3 else if c = CHR ''['' then 4 else if c = CHR ''{'' then 5 else 6)"

fun json_kind :: "json \<Rightarrow> nat" where
  "json_kind JNull = 0"
| "json_kind (JBoolean b) = (if b then 1 else 2)"
| "json_kind (JString _) = 3"
| "json_kind (JArray _) = 4"
| "json_kind (JObject _) = 5"
| "json_kind (JNumber _) = 6"

lemma digit_char_kind: "digit c \<Longrightarrow> char_kind c = 6"
  by (auto simp: char_kind_def)

lemma render_kind: "char_kind (hd (render v)) = json_kind v"
  using render_start [of v] by (cases v) (auto simp: char_kind_def [of "CHR ''n''"] char_kind_def [of "CHR ''t''"]
      char_kind_def [of "CHR ''f''"] char_kind_def [of "CHR 0x22"] char_kind_def [of "CHR ''[''"]
      char_kind_def [of "CHR ''{''"] char_kind_def [of "CHR ''-''"] digit_char_kind split: if_splits)

lemma render_nonempty: "render v \<noteq> []"
  using render_start [of v] by auto

lemma render_same_kind:
  assumes "render v @ xs = render w @ ys"
  shows "json_kind v = json_kind w"
proof -
  from assms have "hd (render v) = hd (render w)" by (metis hd_append2 render_nonempty)
  then show ?thesis by (metis render_kind)
qed

abbreviation render_entry :: "string \<times> json \<Rightarrow> string" where
  "render_entry \<equiv> \<lambda>(key, item). json_quote key @ '':'' @ render item"

lemma entry_separates:
  assumes "separates plain_json render (snd e)"
  shows "separates (\<lambda>e. plain_json (snd e)) render_entry e"
  unfolding separates_def
proof (intro allI impI)
  fix e' us vs
  assume plain: "plain_json (snd e')" and eq: "render_entry e @ us = render_entry e' @ vs" and stop: "stops us" "stops vs"
  from eq have "json_quote (fst e) @ ('':'' @ render (snd e) @ us) = json_quote (fst e') @ ('':'' @ render (snd e') @ vs)"
    by (simp add: case_prod_unfold)
  from json_quote_inj [OF this] have "fst e = fst e'" and "render (snd e) @ us = render (snd e') @ vs" by simp_all
  with separatesD [OF assms plain _ stop] show "e = e' \<and> us = vs" by (simp add: prod_eq_iff)
qed

lemma render_separates: "separates plain_json render v" if "plain_json v"
  using that
proof (induction v)
  case JNull
  show ?case unfolding separates_def
    by (intro allI impI) (frule render_same_kind, case_tac y, auto split: if_splits)
next
  case (JBoolean b)
  show ?case unfolding separates_def
    by (intro allI impI) (frule render_same_kind, case_tac y, auto split: if_splits)
next
  case (JNumber n)
  then obtain i where n: "n = IntegerNumber i" by auto
  show ?case
    unfolding separates_def n
  proof (intro allI impI)
    fix y us vs assume y: "plain_json y" and eq: "render (JNumber (IntegerNumber i)) @ us = render y @ vs"
      and stop: "stops us" "stops vs"
    from render_same_kind [OF eq] y obtain j where j: "y = JNumber (IntegerNumber j)"
      by (cases y) (auto split: if_splits)
    with eq int_text_inj [OF _ stop, of i j] show "JNumber (IntegerNumber i) = y \<and> us = vs" by simp
  qed
next
  case (JString s)
  show ?case
    unfolding separates_def
  proof (intro allI impI)
    fix y us vs assume eq: "render (JString s) @ us = render y @ vs"
    from render_same_kind [OF eq] obtain t where t: "y = JString t" by (cases y) (auto split: if_splits)
    with eq json_quote_inj [of s us t vs] show "JString s = y \<and> us = vs" by simp
  qed
next
  case (JArray items)
  show ?case
    unfolding separates_def
  proof (intro allI impI)
    fix y us vs assume y: "plain_json y" and eq: "render (JArray items) @ us = render y @ vs"
    from render_same_kind [OF eq] obtain items' where i: "y = JArray items'" by (cases y) (auto split: if_splits)
    with eq have join: "comma_join (map render items) @ CHR '']'' # us = comma_join (map render items') @ CHR '']'' # vs"
      by simp
    have "items = items' \<and> us = vs"
      by (rule comma_join_inj [OF _ _ _ render_not_stops join, where P = plain_json])
        (use JArray y i in \<open>auto simp: list_all_iff\<close>)
    with i show "JArray items = y \<and> us = vs" by simp
  qed
next
  case (JObject es)
  show ?case
    unfolding separates_def
  proof (intro allI impI)
    fix y us vs assume y: "plain_json y" and eq: "render (JObject es) @ us = render y @ vs"
    from render_same_kind [OF eq] obtain es' where e: "y = JObject es'" by (cases y) (auto split: if_splits)
    with eq have join: "comma_join (map render_entry es) @ CHR ''}'' # us = comma_join (map render_entry es') @ CHR ''}'' # vs"
      by simp
    have "es = es' \<and> us = vs"
    proof (rule comma_join_inj [OF _ _ _ _ join, where P = "\<lambda>e. plain_json (snd e)"])
      show "separates (\<lambda>e. plain_json (snd e)) render_entry e" if "e \<in> set es" for e
        using JObject that by (intro entry_separates) (auto simp: list_all_iff)
      show "plain_json (snd e)" if "e \<in> set es'" for e
        using y that by (auto simp: e list_all_iff)
      show "\<not> stops (render_entry x)" for x
        by (simp add: case_prod_unfold json_quote_def stops_def)
    qed simp
    with e show "JObject es = y \<and> us = vs" by simp
  qed
qed

lemma render_inj: "plain_json v \<Longrightarrow> plain_json w \<Longrightarrow> render v = render w \<Longrightarrow> v = w"
  using separatesD [OF render_separates, of v w "[]" "[]"] by simp

subsection \<open>Canonicalization renders the canonical form\<close>

lemma result_list_map:
  "(\<And>x. x \<in> set xs \<Longrightarrow> f x = (if P x then Inr (g x) else Inl e)) \<Longrightarrow>
     result_list (map f xs) = (if list_all P xs then Inr (map g xs) else Inl e)"
  by (induction xs) auto

lemma sort_key_map:
  "(\<And>x. k (f x) = k' x) \<Longrightarrow> sort_key k (map f xs) = map f (sort_key k' xs)"
proof (induction xs)
  case (Cons x xs)
  have "insort_key k (f y) (map f ys) = map f (insort_key k' y ys)" for y ys
    by (induction ys) (simp_all add: Cons.prems)
  with Cons show ?case by simp
qed simp

lemma canonicalize_render:
  "canonicalizeJsonValue v =
     (if finite_json v then Inr (render (canonical_form v)) else Inl RejectsNonFiniteNumbers)"
proof (induction v rule: canonicalizeJsonValue.induct)
  case (4 n)
  then show ?case by (cases n) simp_all
next
  case (5 items)
  then have "result_list (map canonicalizeJsonValue items) =
      (if list_all finite_json items then Inr (map (\<lambda>v. render (canonical_form v)) items)
       else Inl RejectsNonFiniteNumbers)"
    by (intro result_list_map) simp
  then show ?case by (simp add: comp_def)
next
  case (6 es)
  let ?f = "\<lambda>(key, item). result_bind (canonicalizeJsonValue item) (\<lambda>t. Inr (json_quote key @ '':'' @ t))"
  have "result_list (map ?f (sort_key fst es)) =
      (if list_all (\<lambda>(key, item). finite_json item) (sort_key fst es)
       then Inr (map (\<lambda>(key, item). json_quote key @ '':'' @ render (canonical_form item)) (sort_key fst es))
       else Inl RejectsNonFiniteNumbers)"
    by (intro result_list_map) (use 6 in \<open>fastforce split: prod.split\<close>)
  moreover have "list_all (\<lambda>(key, item). finite_json item) (sort_key fst es) =
      list_all (\<lambda>(key, item). finite_json item) es" by (simp add: list_all_iff)
  moreover have "sort_key fst (map (\<lambda>(key, item). (key, canonical_form item)) es) =
      map (\<lambda>(key, item). (key, canonical_form item)) (sort_key fst es)"
    by (rule sort_key_map) (simp add: case_prod_unfold)
  ultimately show ?case by (simp add: comp_def case_prod_unfold)
qed simp_all

lemma canonical_form_plain: "finite_json v \<Longrightarrow> plain_json (canonical_form v)"
proof (induction v)
  case (JNumber n)
  then show ?case by (cases n) simp_all
qed (auto simp: list_all_iff)

lemma canonicalize_eq_iff:
  assumes "finite_json v" and "finite_json w"
  shows "canonicalizeJsonValue v = canonicalizeJsonValue w \<longleftrightarrow> canonical_form v = canonical_form w"
  using assms render_inj [OF canonical_form_plain canonical_form_plain, of v w] by (auto simp: canonicalize_render)

end
