(* ===== verification/SemanticLedger.thy ===== *)
theory SemanticLedger
  imports SemanticJson
begin

text \<open>
  controller/control-session/gateway-semantic-result-ledger.ts, second half
  (\<open>createGatewaySemanticResultLedger\<close>): the ledger that lets a retried mutating operation
  share the result of the first one instead of running again. The clock \<open>nowMs\<close> is an
  argument of each call. Promises are numbered: the promise of an operation has the \<open>order\<close>
  of its entry, which also stands for the identity of the entry object, and an entry whose
  promise is \<open>None\<close> still carries the initial promise, resolved to an unknown side effect.
  The call of the handler, which is the caller's code, splits \<open>executeMutating\<close>: the part up
  to it, \<open>assign_promise\<close> when the handler first suspends, and \<open>handler_returned\<close> or
  \<open>handler_failed\<close> when its promise settles.
\<close>

section \<open>Operations and their keys\<close>

datatype generation_profile =
  LeaseAuthorityProfile (gp_compatibilityId: string) (gp_currentLeafTargetId: "string option") string
| ActiveUseProfile (gp_leafGeneration: string) string string (gp_useId: string)
| SessionSafetyProfile (gp_attachmentGeneration: int) string (gp_sessionId: string)

record semantic_identity =
  si_commandId :: string
  si_gateway :: gateway_epoch_identity
  si_idempotencyKey :: string
  si_operation :: string
  si_profile :: generation_profile
  si_target :: string
  si_validUntilMs :: int

record payload_digest =
  dg_algorithm :: string
  dg_canonicalVersion :: int
  dg_digest :: string

record execution_proof =
  ep_identity :: semantic_identity
  ep_operationPayloadDigest :: payload_digest
  ep_semanticOperationId :: string

definition line_feed :: string where
  "line_feed = [CHR 0x0A]"

definition canonicalGatewaySemanticPayloadDigest :: "(string \<Rightarrow> string) \<Rightarrow> json \<Rightarrow> canonical_error + payload_digest" where
  "canonicalGatewaySemanticPayloadDigest sha256 payload =
     result_bind (canonicalizeJsonValue payload) (\<lambda>canonicalPayload.
     Inr \<lparr>dg_algorithm = ''sha256'', dg_canonicalVersion = 1,
          dg_digest = sha256 (''agent-vm-gateway-semantic-payload-v1'' @ line_feed @ canonicalPayload)\<rparr>)"

definition gatewaySemanticEpochValue :: "gateway_epoch_identity \<Rightarrow> json" where
  "gatewaySemanticEpochValue g = JObject
     [(''bootId'', JString (gw_bootId g)), (''controllerEpoch'', JString (gw_controllerEpoch g)),
      (''gatewayEpochId'', JString (gw_gatewayEpochId g)), (''gatewayVmId'', JString (gw_gatewayVmId g)),
      (''generationId'', JString (gw_generationId g)), (''zoneId'', JString (gw_zoneId g))]"

definition nullable_string :: "string option \<Rightarrow> json" where
  "nullable_string s = (case s of None \<Rightarrow> JNull | Some t \<Rightarrow> JString t)"

fun generationProfileValue :: "generation_profile \<Rightarrow> json" where
  "generationProfileValue (LeaseAuthorityProfile compatibilityId currentLeafTargetId stablePrincipal) = JObject
     [(''compatibilityId'', JString compatibilityId),
      (''currentLeafTargetId'', nullable_string currentLeafTargetId),
      (''kind'', JString ''lease_authority''), (''stablePrincipal'', JString stablePrincipal)]"
| "generationProfileValue (ActiveUseProfile leafGeneration processEpoch stablePrincipal useId) = JObject
     [(''kind'', JString ''active_use''), (''leafGeneration'', JString leafGeneration),
      (''processEpoch'', JString processEpoch), (''stablePrincipal'', JString stablePrincipal),
      (''useId'', JString useId)]"
| "generationProfileValue (SessionSafetyProfile attachmentGeneration processEpoch sessionId) = JObject
     [(''attachmentGeneration'', JNumber (IntegerNumber attachmentGeneration)),
      (''kind'', JString ''session_safety''), (''processEpoch'', JString processEpoch),
      (''sessionId'', JString sessionId)]"

fun principalScopeValue :: "generation_profile \<Rightarrow> json" where
  "principalScopeValue (LeaseAuthorityProfile _ _ stablePrincipal) =
     JObject [(''kind'', JString ''stable_principal''), (''stablePrincipal'', JString stablePrincipal)]"
| "principalScopeValue (ActiveUseProfile _ _ stablePrincipal _) =
     JObject [(''kind'', JString ''stable_principal''), (''stablePrincipal'', JString stablePrincipal)]"
| "principalScopeValue (SessionSafetyProfile _ _ _) = JObject [(''kind'', JString ''session_safety'')]"

definition correlationKeyForIdentity :: "semantic_identity \<Rightarrow> canonical_error + string" where
  "correlationKeyForIdentity i = canonicalizeJsonValue (JObject
     [(''commandId'', JString (si_commandId i)), (''gateway'', gatewaySemanticEpochValue (si_gateway i)),
      (''idempotencyKey'', JString (si_idempotencyKey i)),
      (''principalScope'', principalScopeValue (si_profile i))])"

definition meaningKeyForIdentity :: "semantic_identity \<Rightarrow> payload_digest \<Rightarrow> canonical_error + string" where
  "meaningKeyForIdentity i d = canonicalizeJsonValue (JObject
     [(''commandId'', JString (si_commandId i)), (''gateway'', gatewaySemanticEpochValue (si_gateway i)),
      (''idempotencyKey'', JString (si_idempotencyKey i)), (''operation'', JString (si_operation i)),
      (''payload'', JObject
        [(''algorithm'', JString (dg_algorithm d)),
         (''canonicalVersion'', JNumber (IntegerNumber (dg_canonicalVersion d))),
         (''digest'', JString (dg_digest d))]),
      (''profile'', generationProfileValue (si_profile i)), (''target'', JString (si_target i))])"

definition canonicalGatewaySemanticOperationId :: "(string \<Rightarrow> string) \<Rightarrow> semantic_identity \<Rightarrow> canonical_error + string" where
  "canonicalGatewaySemanticOperationId sha256 i =
     result_bind (canonicalizeJsonValue (JObject
       [(''commandId'', JString (si_commandId i)), (''gateway'', gatewaySemanticEpochValue (si_gateway i)),
        (''idempotencyKey'', JString (si_idempotencyKey i)), (''operation'', JString (si_operation i)),
        (''profile'', generationProfileValue (si_profile i)), (''target'', JString (si_target i))]))
       (\<lambda>canonicalIdentityMeaning.
     Inr (sha256 (''agent-vm-gateway-semantic-operation-v1'' @ line_feed @ canonicalIdentityMeaning)))"

section \<open>The state of the ledger\<close>

datatype entry_status = EntryCompleted | EntryPending | EntryUnknownSideEffect

record semantic_entry =
  se_correlationKey :: string
  se_deadlineMs :: int
  se_meaningKey :: string
  se_order :: nat
  se_promise :: "nat option"
  se_status :: entry_status

record semantic_tombstone =
  st_correlationKey :: string
  st_expiresAtMs :: int
  st_meaningKey :: string

record semantic_ledger =
  gl_gateway :: gateway_epoch_identity
  gl_activeCapacity :: int
  gl_activeWindowMs :: int
  gl_tombstoneCapacity :: int
  gl_tombstoneTtlMs :: int
  gl_activeEntries :: "(string, semantic_entry) js_map"
  gl_tombstones :: "(string, semantic_tombstone) js_map"
  gl_nextOrder :: nat

datatype 'r ledger_decision =
  CapacityExhausted
| Completed 'r
| GatewayMismatch
| IdempotencyCollision
| OperationExpired
| OperationWindowInvalid
| UnknownSideEffect

definition requirePositiveInteger :: "string \<Rightarrow> int \<Rightarrow> string + int" where
  "requirePositiveInteger name v = (if \<not> is_safe_integer v \<or> v \<le> 0 then Inl name else Inr v)"

definition default_or :: "int option \<Rightarrow> int \<Rightarrow> int" where
  "default_or x d = (case x of None \<Rightarrow> d | Some v \<Rightarrow> v)"

definition createGatewaySemanticResultLedger :: "gateway_epoch_identity \<Rightarrow> int option \<Rightarrow> int option
    \<Rightarrow> int option \<Rightarrow> int option \<Rightarrow> string + semantic_ledger" where
  "createGatewaySemanticResultLedger gateway activeCapacity activeWindowMs tombstoneCapacity tombstoneTtlMs =
     result_bind (requirePositiveInteger ''activeCapacity'' (default_or activeCapacity 2048)) (\<lambda>ac.
     result_bind (requirePositiveInteger ''activeWindowMs'' (default_or activeWindowMs 600000)) (\<lambda>aw.
     result_bind (requirePositiveInteger ''tombstoneCapacity'' (default_or tombstoneCapacity 4096)) (\<lambda>tc.
     result_bind (requirePositiveInteger ''tombstoneTtlMs'' (default_or tombstoneTtlMs 3600000)) (\<lambda>tt.
     Inr \<lparr>gl_gateway = gateway, gl_activeCapacity = ac, gl_activeWindowMs = aw, gl_tombstoneCapacity = tc,
          gl_tombstoneTtlMs = tt, gl_activeEntries = [], gl_tombstones = [], gl_nextOrder = 1\<rparr>))))"

section \<open>Retention\<close>

definition pruneExpiredTombstones :: "int \<Rightarrow> semantic_ledger \<Rightarrow> nat \<times> semantic_ledger" where
  "pruneExpiredTombstones nowMs l =
     (let kept = filter (\<lambda>(key, t). st_expiresAtMs t > nowMs) (gl_tombstones l)
      in (js_size (gl_tombstones l) - js_size kept, l\<lparr>gl_tombstones := kept\<rparr>))"

definition moveActiveEntryToTombstone :: "semantic_entry \<Rightarrow> int \<Rightarrow> semantic_ledger \<Rightarrow> bool \<times> semantic_ledger" where
  "moveActiveEntryToTombstone e nowMs l =
     (if int (js_size (gl_tombstones l)) \<ge> gl_tombstoneCapacity l then (False, l)
      else (True, l\<lparr>gl_activeEntries := js_delete (se_correlationKey e) (gl_activeEntries l),
                    gl_tombstones := js_set (se_correlationKey e)
                      \<lparr>st_correlationKey = se_correlationKey e,
                       st_expiresAtMs = nowMs + gl_tombstoneTtlMs l,
                       st_meaningKey = se_meaningKey e\<rparr> (gl_tombstones l)\<rparr>))"

text \<open>The loop over the entries, on the entries there were when it began: a step removes at most its own.\<close>

fun prune_entries :: "int \<Rightarrow> semantic_entry list \<Rightarrow> nat \<times> nat \<times> semantic_ledger \<Rightarrow> nat \<times> nat \<times> semantic_ledger" where
  "prune_entries nowMs [] r = r"
| "prune_entries nowMs (e # es) (activePruned, blocked, l) =
     (if se_deadlineMs e > nowMs then prune_entries nowMs es (activePruned, blocked, l)
      else
        (let (moved, l1) = moveActiveEntryToTombstone e nowMs l
         in prune_entries nowMs es
              (if moved then (activePruned + 1, blocked, l1) else (activePruned, blocked + 1, l1))))"

record prune_result =
  pr_activePruned :: nat
  pr_blocked :: nat
  pr_tombstonesPruned :: nat

definition pruneAt :: "int \<Rightarrow> semantic_ledger \<Rightarrow> prune_result \<times> semantic_ledger" where
  "pruneAt nowMs l =
     (let (tombstonesPruned, l1) = pruneExpiredTombstones nowMs l;
          (activePruned, blocked, l2) = prune_entries nowMs (js_values (gl_activeEntries l1)) (0, 0, l1)
      in (\<lparr>pr_activePruned = activePruned, pr_blocked = blocked, pr_tombstonesPruned = tombstonesPruned\<rparr>, l2))"

fun oldest_entry :: "semantic_entry option \<Rightarrow> semantic_entry list \<Rightarrow> semantic_entry option" where
  "oldest_entry oldest [] = oldest"
| "oldest_entry None (e # es) = oldest_entry (Some e) es"
| "oldest_entry (Some o') (e # es) = oldest_entry (Some (if se_order e < se_order o' then e else o')) es"

definition reserveActiveCapacity :: "int \<Rightarrow> semantic_ledger \<Rightarrow> bool \<times> semantic_ledger" where
  "reserveActiveCapacity nowMs l =
     (let l1 = snd (pruneAt nowMs l)
      in if int (js_size (gl_activeEntries l1)) < gl_activeCapacity l1 then (True, l1)
         else (case oldest_entry None (js_values (gl_activeEntries l1)) of
                 None \<Rightarrow> (False, l1)
               | Some e \<Rightarrow> moveActiveEntryToTombstone e nowMs l1))"

section \<open>Execution\<close>

text \<open>
  What the caller of \<open>executeMutating\<close> gets: a decision at once, the promise of an entry, or
  the promise of the entry that was just made, whose handler is called with the proof.
\<close>

datatype 'r execution =
  Decided "'r ledger_decision"
| SharesPromise "nat option"
| HandlerCalled nat execution_proof

definition entry_for :: "string \<Rightarrow> string \<Rightarrow> semantic_identity \<Rightarrow> int \<Rightarrow> semantic_ledger \<Rightarrow> semantic_entry" where
  "entry_for correlationKey meaningKey identity nowMs l =
     \<lparr>se_correlationKey = correlationKey,
      se_deadlineMs = min (si_validUntilMs identity) (nowMs + gl_activeWindowMs l),
      se_meaningKey = meaningKey, se_order = gl_nextOrder l, se_promise = None, se_status = EntryPending\<rparr>"

definition start_entry :: "int \<Rightarrow> string \<Rightarrow> string \<Rightarrow> execution_proof \<Rightarrow> semantic_ledger
    \<Rightarrow> 'r execution \<times> semantic_ledger" where
  "start_entry nowMs correlationKey meaningKey pf l =
     (if si_validUntilMs (ep_identity pf) \<le> nowMs then (Decided OperationExpired, l)
      else
        (let (reserved, l1) = reserveActiveCapacity nowMs l
         in if \<not> reserved then (Decided CapacityExhausted, l1)
            else (HandlerCalled (gl_nextOrder l1) pf,
                  l1\<lparr>gl_nextOrder := gl_nextOrder l1 + 1,
                     gl_activeEntries := js_set correlationKey
                       (entry_for correlationKey meaningKey (ep_identity pf) nowMs l1) (gl_activeEntries l1)\<rparr>)))"

definition decide_active :: "int \<Rightarrow> string \<Rightarrow> semantic_entry \<Rightarrow> semantic_ledger \<Rightarrow> 'r execution \<times> semantic_ledger" where
  "decide_active nowMs meaningKey e l =
     (if se_meaningKey e \<noteq> meaningKey then (Decided IdempotencyCollision, l)
      else if se_deadlineMs e \<le> nowMs
      then (Decided UnknownSideEffect, snd (moveActiveEntryToTombstone e nowMs l))
      else if se_status e = EntryUnknownSideEffect then (Decided UnknownSideEffect, l)
      else (SharesPromise (se_promise e), l))"

definition execution_keys :: "(string \<Rightarrow> string) \<Rightarrow> semantic_identity \<Rightarrow> json
    \<Rightarrow> canonical_error + (execution_proof \<times> string \<times> string)" where
  "execution_keys sha256 identity payload =
     result_bind (canonicalGatewaySemanticPayloadDigest sha256 payload) (\<lambda>payloadDigest.
     result_bind (canonicalGatewaySemanticOperationId sha256 identity) (\<lambda>operationId.
     result_bind (correlationKeyForIdentity identity) (\<lambda>correlationKey.
     result_bind (meaningKeyForIdentity identity payloadDigest) (\<lambda>meaningKey.
     Inr (\<lparr>ep_identity = identity, ep_operationPayloadDigest = payloadDigest,
           ep_semanticOperationId = operationId\<rparr>, correlationKey, meaningKey)))))"

definition executeMutating :: "(string \<Rightarrow> string) \<Rightarrow> int \<Rightarrow> semantic_identity \<Rightarrow> json \<Rightarrow> semantic_ledger
    \<Rightarrow> (canonical_error \<times> semantic_ledger) + ('r execution \<times> semantic_ledger)" where
  "executeMutating sha256 nowMs identity payload l =
     (if \<not> gatewayIdentitiesEqual (si_gateway identity) (gl_gateway l) then Inr (Decided GatewayMismatch, l)
      else if si_validUntilMs identity > nowMs + gl_activeWindowMs l then Inr (Decided OperationWindowInvalid, l)
      else
        (let l1 = snd (pruneExpiredTombstones nowMs l)
         in case execution_keys sha256 identity payload of
              Inl e \<Rightarrow> Inl (e, l1)
            | Inr (pf, correlationKey, meaningKey) \<Rightarrow>
                Inr (case js_get (gl_tombstones l1) correlationKey of
                       Some t \<Rightarrow>
                         (Decided (if st_meaningKey t = meaningKey then UnknownSideEffect else IdempotencyCollision), l1)
                     | None \<Rightarrow>
                         (case js_get (gl_activeEntries l1) correlationKey of
                            Some e \<Rightarrow> decide_active nowMs meaningKey e l1
                          | None \<Rightarrow> start_entry nowMs correlationKey meaningKey pf l1))))"

section \<open>The asynchronous part\<close>

text \<open>The entry object of an operation, while it is still in the map.\<close>

definition entry_of :: "nat \<Rightarrow> string \<Rightarrow> semantic_ledger \<Rightarrow> semantic_entry option" where
  "entry_of order correlationKey l =
     (case js_get (gl_activeEntries l) correlationKey of
        None \<Rightarrow> None
      | Some e \<Rightarrow> if se_order e = order then Some e else None)"

definition put_entry :: "semantic_entry \<Rightarrow> semantic_ledger \<Rightarrow> semantic_ledger" where
  "put_entry e l = l\<lparr>gl_activeEntries := js_set (se_correlationKey e) e (gl_activeEntries l)\<rparr>"

definition assign_promise :: "nat \<Rightarrow> string \<Rightarrow> semantic_ledger \<Rightarrow> semantic_ledger" where
  "assign_promise order correlationKey l =
     (case entry_of order correlationKey l of
        None \<Rightarrow> l
      | Some e \<Rightarrow> put_entry (e\<lparr>se_promise := Some order\<rparr>) l)"

definition handler_returned :: "nat \<Rightarrow> string \<Rightarrow> 'r \<Rightarrow> int \<Rightarrow> semantic_ledger \<Rightarrow> 'r ledger_decision \<times> semantic_ledger" where
  "handler_returned order correlationKey value nowMs l =
     (case entry_of order correlationKey l of
        None \<Rightarrow> (UnknownSideEffect, l)
      | Some e \<Rightarrow>
          if se_status e \<noteq> EntryPending then (UnknownSideEffect, l)
          else if se_deadlineMs e \<le> nowMs
          then (let e1 = e\<lparr>se_status := EntryUnknownSideEffect\<rparr>
                in (UnknownSideEffect, snd (moveActiveEntryToTombstone e1 nowMs (put_entry e1 l))))
          else (Completed value, put_entry (e\<lparr>se_status := EntryCompleted\<rparr>) l))"

definition handler_failed :: "nat \<Rightarrow> string \<Rightarrow> int \<Rightarrow> semantic_ledger \<Rightarrow> 'r ledger_decision \<times> semantic_ledger" where
  "handler_failed order correlationKey nowMs l =
     (case entry_of order correlationKey l of
        None \<Rightarrow> (UnknownSideEffect, l)
      | Some e \<Rightarrow>
          (let e1 = e\<lparr>se_status := EntryUnknownSideEffect\<rparr>
           in (UnknownSideEffect, snd (moveActiveEntryToTombstone e1 nowMs (put_entry e1 l)))))"

record ledger_snapshot =
  ls_activeCount :: nat
  ls_gateway :: gateway_epoch_identity
  ls_tombstoneCount :: nat

definition ledger_snapshot_of :: "semantic_ledger \<Rightarrow> ledger_snapshot" where
  "ledger_snapshot_of l = \<lparr>ls_activeCount = js_size (gl_activeEntries l), ls_gateway = gl_gateway l,
     ls_tombstoneCount = js_size (gl_tombstones l)\<rparr>"

end
