(* ===== verification/SemanticInvariant.thy ===== *)
theory SemanticInvariant
  imports SemanticLedger
begin

text \<open>
  What the keys of the ledger determine, and the invariant of the ledger against the log of the
  operations whose handler was called: entries and tombstones belong to logged operations, no key
  is in both stores, the capacities hold, and every logged operation is covered, by its entry, by
  a tombstone that lives long enough, or because its retention time has passed. Every step keeps
  it.
\<close>

section \<open>What a key determines\<close>

lemma map_of_sort_key:
  assumes "distinct (map fst es)"
  shows "map_of (sort_key fst es) = map_of es"
proof -
  have "distinct (map fst (sort_key fst es))"
    using assms by (metis distinct_map distinct_sort set_sort)
  with assms show ?thesis by (metis map_of_inject_set set_sort)
qed

lemma canonical_object_eq:
  assumes "canonical_form (JObject es) = canonical_form (JObject es')"
    and "distinct (map fst es)" and "distinct (map fst es')"
  shows "map_option canonical_form (map_of es k) = map_option canonical_form (map_of es' k)"
proof -
  let ?f = "map (\<lambda>(key, item). (key, canonical_form item))"
  have keys: "distinct (map fst (?f xs)) = distinct (map fst xs)" for xs :: "(string \<times> json) list"
    by (simp add: comp_def case_prod_unfold)
  have "sort_key fst (?f es) = sort_key fst (?f es')" using assms(1) by simp
  moreover note map_of_sort_key [of "?f es", unfolded keys, OF assms(2)]
    map_of_sort_key [of "?f es'", unfolded keys, OF assms(3)]
  ultimately have "map_of (?f es) k = map_of (?f es') k" by metis
  then show ?thesis by (simp add: map_of_map)
qed

lemma epoch_value_inj:
  assumes "canonical_form (gatewaySemanticEpochValue g) = canonical_form (gatewaySemanticEpochValue h)"
  shows "g = h"
  using canonical_object_eq [OF assms [unfolded gatewaySemanticEpochValue_def], of "''bootId''"]
    canonical_object_eq [OF assms [unfolded gatewaySemanticEpochValue_def], of "''controllerEpoch''"]
    canonical_object_eq [OF assms [unfolded gatewaySemanticEpochValue_def], of "''gatewayEpochId''"]
    canonical_object_eq [OF assms [unfolded gatewaySemanticEpochValue_def], of "''gatewayVmId''"]
    canonical_object_eq [OF assms [unfolded gatewaySemanticEpochValue_def], of "''generationId''"]
    canonical_object_eq [OF assms [unfolded gatewaySemanticEpochValue_def], of "''zoneId''"]
  by (cases g; cases h) simp


lemma nullable_string_inj: "canonical_form (nullable_string s) = canonical_form (nullable_string t) \<longleftrightarrow> s = t"
  by (cases s; cases t) (simp_all add: nullable_string_def)

definition object_entries :: "json \<Rightarrow> (string \<times> json) list" where
  "object_entries v = (case v of JObject es \<Rightarrow> es | _ \<Rightarrow> [])"

lemma profile_value_object:
  "generationProfileValue a = JObject (object_entries (generationProfileValue a))"
  "distinct (map fst (object_entries (generationProfileValue a)))"
  by (cases a; simp add: object_entries_def)+

lemma profile_value_inj:
  assumes "canonical_form (generationProfileValue a) = canonical_form (generationProfileValue b)"
  shows "a = b"
proof -
  have obj: "map_option canonical_form (map_of (object_entries (generationProfileValue a)) k) =
      map_option canonical_form (map_of (object_entries (generationProfileValue b)) k)" for k
    using assms canonical_object_eq [OF _ profile_value_object(2) profile_value_object(2)] profile_value_object(1) by metis
  show ?thesis
  proof (cases a)
    case a: (LeaseAuthorityProfile a1 a2 a3)
    show ?thesis
    proof (cases b)
      case (LeaseAuthorityProfile b1 b2 b3)
      with a obj [of "''compatibilityId''"] obj [of "''currentLeafTargetId''"] obj [of "''stablePrincipal''"]
      show ?thesis by (simp add: object_entries_def nullable_string_inj)
    qed (use a obj [of "''kind''"] in \<open>simp_all add: object_entries_def\<close>)
  next
    case a: (ActiveUseProfile a1 a2 a3 a4)
    show ?thesis
    proof (cases b)
      case (ActiveUseProfile b1 b2 b3 b4)
      with a obj [of "''leafGeneration''"] obj [of "''processEpoch''"] obj [of "''stablePrincipal''"]
        obj [of "''useId''"]
      show ?thesis by (simp add: object_entries_def)
    qed (use a obj [of "''kind''"] in \<open>simp_all add: object_entries_def\<close>)
  next
    case a: (SessionSafetyProfile a1 a2 a3)
    show ?thesis
    proof (cases b)
      case (SessionSafetyProfile b1 b2 b3)
      with a obj [of "''attachmentGeneration''"] obj [of "''processEpoch''"] obj [of "''sessionId''"]
      show ?thesis by (simp add: object_entries_def)
    qed (use a obj [of "''kind''"] in \<open>simp_all add: object_entries_def\<close>)
  qed
qed

text \<open>The principal an operation is counted for: none for the safety operations of a session.\<close>

fun profile_scope :: "generation_profile \<Rightarrow> string option" where
  "profile_scope (LeaseAuthorityProfile _ _ stablePrincipal) = Some stablePrincipal"
| "profile_scope (ActiveUseProfile _ _ stablePrincipal _) = Some stablePrincipal"
| "profile_scope (SessionSafetyProfile _ _ _) = None"

lemma scope_value: "principalScopeValue a = JObject ((''kind'', JString (if profile_scope a = None
    then ''session_safety'' else ''stable_principal'')) #
    (case profile_scope a of None \<Rightarrow> [] | Some p \<Rightarrow> [(''stablePrincipal'', JString p)]))"
  by (cases a) simp_all

lemma scope_value_inj:
  assumes "canonical_form (principalScopeValue a) = canonical_form (principalScopeValue b)"
  shows "profile_scope a = profile_scope b"
  using canonical_object_eq [OF assms [unfolded scope_value], of "''stablePrincipal''"]
  by (cases "profile_scope a"; cases "profile_scope b") simp_all

definition same_correlation :: "semantic_identity \<Rightarrow> semantic_identity \<Rightarrow> bool" where
  "same_correlation i j \<longleftrightarrow> si_commandId i = si_commandId j \<and> si_gateway i = si_gateway j \<and>
     si_idempotencyKey i = si_idempotencyKey j \<and> profile_scope (si_profile i) = profile_scope (si_profile j)"

definition same_meaning :: "semantic_identity \<Rightarrow> semantic_identity \<Rightarrow> bool" where
  "same_meaning i j \<longleftrightarrow> si_commandId i = si_commandId j \<and> si_gateway i = si_gateway j \<and>
     si_idempotencyKey i = si_idempotencyKey j \<and> si_operation i = si_operation j \<and>
     si_profile i = si_profile j \<and> si_target i = si_target j"

lemma keys_finite [simp]:
  "finite_json (gatewaySemanticEpochValue g)" "finite_json (principalScopeValue a)"
  "finite_json (generationProfileValue a)"
  by (simp_all add: gatewaySemanticEpochValue_def scope_value split: option.split)
    (cases a; simp add: nullable_string_def split: option.split)

lemma canonicalize_objects_eq:
  assumes "canonicalizeJsonValue (JObject es) = canonicalizeJsonValue (JObject es')"
    and "finite_json (JObject es)" and "finite_json (JObject es')"
    and "distinct (map fst es)" and "distinct (map fst es')"
  shows "map_option canonical_form (map_of es k) = map_option canonical_form (map_of es' k)"
  using canonical_object_eq [OF _ assms(4,5)] canonicalize_eq_iff [OF assms(2,3)] assms(1) by blast

lemma correlationKey_eq_iff:
  "correlationKeyForIdentity i = correlationKeyForIdentity j \<longleftrightarrow> same_correlation i j"
proof
  assume eq: "correlationKeyForIdentity i = correlationKeyForIdentity j"
  note field = canonicalize_objects_eq [OF eq [unfolded correlationKeyForIdentity_def]]
  show "same_correlation i j"
    using field [of "''commandId''"] field [of "''gateway''"] field [of "''idempotencyKey''"]
      field [of "''principalScope''"]
    by (auto simp: same_correlation_def intro: epoch_value_inj scope_value_inj)
next
  assume "same_correlation i j"
  then show "correlationKeyForIdentity i = correlationKeyForIdentity j"
    by (simp add: same_correlation_def correlationKeyForIdentity_def scope_value)
qed

lemma meaningKey_eq_iff:
  "meaningKeyForIdentity i d = meaningKeyForIdentity j e \<longleftrightarrow> same_meaning i j \<and> d = e"
proof
  assume eq: "meaningKeyForIdentity i d = meaningKeyForIdentity j e"
  note field = canonicalize_objects_eq [OF eq [unfolded meaningKeyForIdentity_def]]
  from field [of "''payload''"] have payload: "canonical_form (JObject
        [(''algorithm'', JString (dg_algorithm d)), (''canonicalVersion'', JNumber (IntegerNumber (dg_canonicalVersion d))),
         (''digest'', JString (dg_digest d))]) = canonical_form (JObject
        [(''algorithm'', JString (dg_algorithm e)), (''canonicalVersion'', JNumber (IntegerNumber (dg_canonicalVersion e))),
         (''digest'', JString (dg_digest e))])"
    by simp
  note part = canonical_object_eq [OF payload]
  have "d = e" using part [of "''algorithm''"] part [of "''canonicalVersion''"] part [of "''digest''"]
    by (cases d; cases e) simp
  moreover have "same_meaning i j"
    using field [of "''commandId''"] field [of "''gateway''"] field [of "''idempotencyKey''"] field [of "''operation''"]
      field [of "''profile''"] field [of "''target''"]
    by (auto simp: same_meaning_def intro: epoch_value_inj profile_value_inj)
  ultimately show "same_meaning i j \<and> d = e" by blast
next
  assume "same_meaning i j \<and> d = e"
  then show "meaningKeyForIdentity i d = meaningKeyForIdentity j e"
    by (simp add: same_meaning_def meaningKeyForIdentity_def)
qed

lemma key_results:
  "\<exists>k. correlationKeyForIdentity i = Inr k" "\<exists>k. meaningKeyForIdentity i d = Inr k"
  "\<exists>k. canonicalGatewaySemanticOperationId sha256 i = Inr k"
  by (simp_all add: correlationKeyForIdentity_def meaningKeyForIdentity_def canonicalGatewaySemanticOperationId_def
      canonicalize_render del: canonicalizeJsonValue.simps)

text \<open>The keys of an operation: what they are and what they tell.\<close>

definition operation_keys :: "(string \<Rightarrow> string) \<Rightarrow> semantic_identity \<Rightarrow> json \<Rightarrow> (string \<times> string) option" where
  "operation_keys sha256 i p = (case execution_keys sha256 i p of Inl _ \<Rightarrow> None | Inr (_, k, m) \<Rightarrow> Some (k, m))"

definition same_request :: "(string \<Rightarrow> string) \<Rightarrow> semantic_identity \<Rightarrow> json \<Rightarrow> semantic_identity \<Rightarrow> json \<Rightarrow> bool" where
  "same_request sha256 i p j q \<longleftrightarrow> same_meaning i j \<and>
     canonicalGatewaySemanticPayloadDigest sha256 p = canonicalGatewaySemanticPayloadDigest sha256 q"

lemma execution_keys_Inr:
  "execution_keys sha256 i p = Inr (pf, k, m) \<longleftrightarrow>
     (\<exists>d. canonicalGatewaySemanticPayloadDigest sha256 p = Inr d \<and> correlationKeyForIdentity i = Inr k \<and>
       meaningKeyForIdentity i d = Inr m \<and> ep_identity pf = i \<and> ep_operationPayloadDigest pf = d \<and>
       canonicalGatewaySemanticOperationId sha256 i = Inr (ep_semanticOperationId pf))"
  by (cases pf) (auto simp: execution_keys_def result_simps)

lemma operation_keys_Some:
  "operation_keys sha256 i p = Some (k, m) \<longleftrightarrow>
     (\<exists>d. canonicalGatewaySemanticPayloadDigest sha256 p = Inr d \<and> correlationKeyForIdentity i = Inr k \<and>
       meaningKeyForIdentity i d = Inr m)"
proof -
  have "operation_keys sha256 i p = Some (k, m) \<longleftrightarrow> (\<exists>pf. execution_keys sha256 i p = Inr (pf, k, m))"
    by (auto simp: operation_keys_def split: sum.split)
  also have "\<dots> \<longleftrightarrow> (\<exists>d. canonicalGatewaySemanticPayloadDigest sha256 p = Inr d \<and> correlationKeyForIdentity i = Inr k \<and>
       meaningKeyForIdentity i d = Inr m)"
  proof
    assume "\<exists>d. canonicalGatewaySemanticPayloadDigest sha256 p = Inr d \<and> correlationKeyForIdentity i = Inr k \<and>
       meaningKeyForIdentity i d = Inr m"
    then obtain d oid where "canonicalGatewaySemanticPayloadDigest sha256 p = Inr d" "correlationKeyForIdentity i = Inr k"
       "meaningKeyForIdentity i d = Inr m" "canonicalGatewaySemanticOperationId sha256 i = Inr oid"
      using key_results(3) by blast
    then show "\<exists>pf. execution_keys sha256 i p = Inr (pf, k, m)"
      by (intro exI [of _ "\<lparr>ep_identity = i, ep_operationPayloadDigest = d, ep_semanticOperationId = oid\<rparr>"])
        (simp add: execution_keys_Inr)
  qed (auto simp: execution_keys_Inr)
  finally show ?thesis .
qed

lemma operation_keys_correlation:
  "operation_keys sha256 i p = Some (k, m) \<Longrightarrow> operation_keys sha256 j q = Some (k', m') \<Longrightarrow>
     k = k' \<longleftrightarrow> same_correlation i j"
  unfolding operation_keys_Some using correlationKey_eq_iff [of i j] by auto

lemma operation_keys_meaning:
  "operation_keys sha256 i p = Some (k, m) \<Longrightarrow> operation_keys sha256 j q = Some (k', m') \<Longrightarrow>
     m = m' \<longleftrightarrow> same_request sha256 i p j q"
proof -
  assume "operation_keys sha256 i p = Some (k, m)" and "operation_keys sha256 j q = Some (k', m')"
  then obtain d e where keys: "canonicalGatewaySemanticPayloadDigest sha256 p = Inr d" "meaningKeyForIdentity i d = Inr m"
    "canonicalGatewaySemanticPayloadDigest sha256 q = Inr e" "meaningKeyForIdentity j e = Inr m'"
    by (auto simp: operation_keys_Some)
  then have "m = m' \<longleftrightarrow> meaningKeyForIdentity i d = meaningKeyForIdentity j e" by simp
  also have "\<dots> \<longleftrightarrow> same_meaning i j \<and> d = e" by (rule meaningKey_eq_iff)
  also have "\<dots> \<longleftrightarrow> same_request sha256 i p j q" by (simp add: same_request_def keys(1,3))
  finally show ?thesis .
qed

section \<open>The invariant of the ledger\<close>

text \<open>
  It is stated against the log of the operations whose handler was called, newest first, each
  with its order, identity, payload and time.
\<close>

type_synonym start_log = "(nat \<times> semantic_identity \<times> json \<times> int) list"

definition logged :: "(string \<Rightarrow> string) \<Rightarrow> start_log \<Rightarrow> nat \<Rightarrow> string \<Rightarrow> string \<Rightarrow> semantic_identity \<Rightarrow> bool" where
  "logged sha256 S n k m i \<longleftrightarrow> (\<exists>p t. (n, i, p, t) \<in> set S \<and> operation_keys sha256 i p = Some (k, m))"

definition entry_ok :: "(string \<Rightarrow> string) \<Rightarrow> start_log \<Rightarrow> semantic_ledger \<Rightarrow> string \<Rightarrow> semantic_entry \<Rightarrow> bool" where
  "entry_ok sha256 S l k e \<longleftrightarrow> se_correlationKey e = k \<and> js_get (gl_tombstones l) k = None \<and>
     (\<exists>i. logged sha256 S (se_order e) k (se_meaningKey e) i \<and> se_deadlineMs e \<le> si_validUntilMs i) \<and>
     (se_promise e = None \<or> se_promise e = Some (se_order e))"

definition covered :: "semantic_ledger \<Rightarrow> int \<Rightarrow> string \<Rightarrow> int \<Rightarrow> bool" where
  "covered l now k t \<longleftrightarrow> js_get (gl_activeEntries l) k \<noteq> None \<or>
     (\<exists>s. js_get (gl_tombstones l) k = Some s \<and> t + gl_tombstoneTtlMs l \<le> st_expiresAtMs s) \<or>
     t + gl_tombstoneTtlMs l \<le> now"

definition ledger_ok :: "(string \<Rightarrow> string) \<Rightarrow> start_log \<Rightarrow> int \<Rightarrow> semantic_ledger \<Rightarrow> bool" where
  "ledger_ok sha256 S now l \<longleftrightarrow>
     js_map_ok (gl_activeEntries l) \<and> js_map_ok (gl_tombstones l) \<and>
     int (js_size (gl_activeEntries l)) \<le> gl_activeCapacity l \<and>
     int (js_size (gl_tombstones l)) \<le> gl_tombstoneCapacity l \<and>
     (\<forall>k e. js_get (gl_activeEntries l) k = Some e \<longrightarrow> entry_ok sha256 S l k e) \<and>
     (\<forall>k s. js_get (gl_tombstones l) k = Some s \<longrightarrow> (\<exists>n i. logged sha256 S n k (st_meaningKey s) i)) \<and>
     (\<forall>(n, i, p, t)\<in>set S. n < gl_nextOrder l \<and> t \<le> now \<and>
        (\<exists>k m. operation_keys sha256 i p = Some (k, m) \<and> covered l now k t))"

lemma ledger_okD:
  assumes "ledger_ok sha256 S now l"
  shows "js_map_ok (gl_activeEntries l)" "js_map_ok (gl_tombstones l)"
    "int (js_size (gl_activeEntries l)) \<le> gl_activeCapacity l"
    "int (js_size (gl_tombstones l)) \<le> gl_tombstoneCapacity l"
    "js_get (gl_activeEntries l) k = Some e \<Longrightarrow> entry_ok sha256 S l k e"
    "js_get (gl_tombstones l) k = Some s \<Longrightarrow> \<exists>n i. logged sha256 S n k (st_meaningKey s) i"
    "(n, i, p, t) \<in> set S \<Longrightarrow> n < gl_nextOrder l \<and> t \<le> now \<and>
        (\<exists>k m. operation_keys sha256 i p = Some (k, m) \<and> covered l now k t)"
  using assms unfolding ledger_ok_def by (blast | fastforce)+

definition same_settings :: "semantic_ledger \<Rightarrow> semantic_ledger \<Rightarrow> bool" where
  "same_settings l l' \<longleftrightarrow> gl_gateway l' = gl_gateway l \<and> gl_activeCapacity l' = gl_activeCapacity l \<and>
     gl_activeWindowMs l' = gl_activeWindowMs l \<and> gl_tombstoneCapacity l' = gl_tombstoneCapacity l \<and>
     gl_tombstoneTtlMs l' = gl_tombstoneTtlMs l"

definition absent :: "string \<Rightarrow> semantic_ledger \<Rightarrow> bool" where
  "absent k l \<longleftrightarrow> js_get (gl_activeEntries l) k = None \<and> js_get (gl_tombstones l) k = None"

text \<open>What the steps that only move entries to tombstones and drop tombstones keep.\<close>

definition retains :: "(string \<Rightarrow> string) \<Rightarrow> start_log \<Rightarrow> int \<Rightarrow> semantic_ledger \<Rightarrow> semantic_ledger \<Rightarrow> bool" where
  "retains sha256 S now l l' \<longleftrightarrow> ledger_ok sha256 S now l' \<and> same_settings l l' \<and>
     gl_nextOrder l' = gl_nextOrder l \<and> (\<forall>k. absent k l \<longrightarrow> absent k l') \<and>
     js_size (gl_activeEntries l') \<le> js_size (gl_activeEntries l)"

lemma retains_refl: "ledger_ok sha256 S now l \<Longrightarrow> retains sha256 S now l l"
  by (simp add: retains_def same_settings_def)

lemma retains_trans: "retains sha256 S now l l1 \<Longrightarrow> retains sha256 S now l1 l2 \<Longrightarrow> retains sha256 S now l l2"
  by (auto simp: retains_def same_settings_def)

lemma ledger_ok_later: "ledger_ok sha256 S now l \<Longrightarrow> now \<le> now' \<Longrightarrow> ledger_ok sha256 S now' l"
  unfolding ledger_ok_def covered_def by (fastforce split: prod.splits)

lemma prune_tombstones_get:
  assumes "js_map_ok (gl_tombstones l)"
  shows "js_get (gl_tombstones (snd (pruneExpiredTombstones now l))) k =
    (case js_get (gl_tombstones l) k of None \<Rightarrow> None | Some s \<Rightarrow> if st_expiresAtMs s > now then Some s else None)"
  using js_get_filter [OF assms, of "\<lambda>_ s. st_expiresAtMs s > now" k]
  by (simp add: pruneExpiredTombstones_def Let_def)

lemma prune_tombstones_frame [simp]:
  "gl_activeEntries (snd (pruneExpiredTombstones now l)) = gl_activeEntries l"
  "gl_nextOrder (snd (pruneExpiredTombstones now l)) = gl_nextOrder l"
  "same_settings l (snd (pruneExpiredTombstones now l))"
  "gl_activeCapacity (snd (pruneExpiredTombstones now l)) = gl_activeCapacity l"
  "gl_activeWindowMs (snd (pruneExpiredTombstones now l)) = gl_activeWindowMs l"
  "gl_tombstoneCapacity (snd (pruneExpiredTombstones now l)) = gl_tombstoneCapacity l"
  "gl_tombstoneTtlMs (snd (pruneExpiredTombstones now l)) = gl_tombstoneTtlMs l"
  by (simp_all add: pruneExpiredTombstones_def Let_def same_settings_def)

lemma prune_tombstones_ok:
  assumes ok: "ledger_ok sha256 S now l"
  shows "retains sha256 S now l (snd (pruneExpiredTombstones now l))"
proof -
  let ?l = "snd (pruneExpiredTombstones now l)"
  note old = ledger_okD [OF ok] and get = prune_tombstones_get [OF ledger_okD(2) [OF ok], of now]
  have sizes: "js_map_ok (gl_tombstones ?l)" "int (js_size (gl_tombstones ?l)) \<le> gl_tombstoneCapacity l"
    using old(2,4) by (simp_all add: pruneExpiredTombstones_def Let_def int_length_filter_le)
  have entries: "entry_ok sha256 S ?l k e" if "js_get (gl_activeEntries l) k = Some e" for k e
    using old(5) [OF that] by (simp add: entry_ok_def get)
  have tombs: "\<exists>n i. logged sha256 S n k (st_meaningKey s) i" if "js_get (gl_tombstones ?l) k = Some s" for k s
    using old(6) that by (auto simp: get split: option.splits if_splits)
  have cover: "covered ?l now k t" if "covered l now k t" for k t
    using that by (auto simp: covered_def get)
  have log: "n < gl_nextOrder l \<and> t \<le> now \<and> (\<exists>k m. operation_keys sha256 i p = Some (k, m) \<and> covered ?l now k t)"
    if "(n, i, p, t) \<in> set S" for n i p t
    using old(7) [OF that] cover by blast
  show ?thesis
    unfolding retains_def ledger_ok_def
    using old(1,3) sizes entries tombs log by (auto simp: absent_def get)
qed

text \<open>An entry that leaves for the tombstones.\<close>

lemma move_frame:
  assumes "moveActiveEntryToTombstone e now l = (b, l')"
  shows "same_settings l l'" "gl_nextOrder l' = gl_nextOrder l" "\<not> b \<Longrightarrow> l' = l"
  using assms by (auto simp: moveActiveEntryToTombstone_def same_settings_def split: if_splits)

lemma move_ok:
  assumes ok: "ledger_ok sha256 S now l" and get: "js_get (gl_activeEntries l) (se_correlationKey e) = Some e"
    and step: "moveActiveEntryToTombstone e now l = (b, l')"
  shows "retains sha256 S now l l'"
    and "b \<Longrightarrow> js_size (gl_activeEntries l) = Suc (js_size (gl_activeEntries l'))"
    and "k \<noteq> se_correlationKey e \<Longrightarrow> js_get (gl_activeEntries l') k = js_get (gl_activeEntries l) k"
proof -
  let ?k = "se_correlationKey e"
  note old = ledger_okD [OF ok]
  have size: "js_size (gl_activeEntries l) = Suc (js_size (js_delete ?k (gl_activeEntries l)))"
    using get by (intro js_size_delete [OF old(1)]) (simp add: js_has_def)
  show "b \<Longrightarrow> js_size (gl_activeEntries l) = Suc (js_size (gl_activeEntries l'))"
    using step size by (auto simp: moveActiveEntryToTombstone_def split: if_splits)
  show "k \<noteq> ?k \<Longrightarrow> js_get (gl_activeEntries l') k = js_get (gl_activeEntries l) k"
    using step by (auto simp: moveActiveEntryToTombstone_def js_get_delete split: if_splits)
  show "retains sha256 S now l l'"
  proof (cases b)
    case False
    with step have "l' = l" by (simp add: move_frame(3))
    with ok show ?thesis by (simp add: retains_refl)
  next
    case True
    let ?s = "\<lparr>st_correlationKey = ?k, st_expiresAtMs = now + gl_tombstoneTtlMs l, st_meaningKey = se_meaningKey e\<rparr>"
    have room: "int (js_size (gl_tombstones l)) < gl_tombstoneCapacity l"
      and l': "l' = l\<lparr>gl_activeEntries := js_delete ?k (gl_activeEntries l), gl_tombstones := js_set ?k ?s (gl_tombstones l)\<rparr>"
      using True step by (auto simp: moveActiveEntryToTombstone_def split: if_splits)
    have e: "entry_ok sha256 S l ?k e" by (rule old(5) [OF get])
    have entries: "entry_ok sha256 S l' k e'" if "js_get (gl_activeEntries l') k = Some e'" for k e'
    proof -
      from that have k: "k \<noteq> ?k" and e': "js_get (gl_activeEntries l) k = Some e'"
        by (auto simp: l' js_get_delete split: if_splits)
      from old(5) [OF e'] k show ?thesis by (simp add: entry_ok_def l' js_get_set)
    qed
    have source: "\<exists>n i. logged sha256 S n ?k (se_meaningKey e) i" using e by (auto simp: entry_ok_def)
    have tombs: "\<exists>n i. logged sha256 S n k (st_meaningKey s) i" if "js_get (gl_tombstones l') k = Some s" for k s
    proof (cases "k = ?k")
      case True
      with that source show ?thesis by (simp add: l' js_get_set) (metis semantic_tombstone.select_convs(3))
    next
      case False
      with that old(6) [of k s] show ?thesis by (simp add: l' js_get_set)
    qed
    have cover: "covered l' now k t" if "covered l now k t" and "t \<le> now" for k t
      using that e by (auto simp: covered_def l' js_get_set js_get_delete entry_ok_def)
    have log: "n < gl_nextOrder l' \<and> t \<le> now \<and> (\<exists>k m. operation_keys sha256 i p = Some (k, m) \<and> covered l' now k t)"
      if "(n, i, p, t) \<in> set S" for n i p t
      using old(7) [OF that] cover [of _ t] by (auto simp: l')
    have sizes: "int (js_size (gl_tombstones l')) \<le> gl_tombstoneCapacity l'"
      "int (js_size (gl_activeEntries l')) \<le> gl_activeCapacity l'"
      "js_map_ok (gl_activeEntries l')" "js_map_ok (gl_tombstones l')"
      "js_size (gl_activeEntries l') \<le> js_size (gl_activeEntries l)"
      using room old(1-3) size by (simp_all add: l' js_size_set)
    have "ledger_ok sha256 S now l'"
      unfolding ledger_ok_def using sizes(1-4) entries tombs log by blast
    moreover have "absent k l' " if "absent k l" for k
      using that get by (auto simp: absent_def l' js_get_set js_get_delete)
    ultimately show ?thesis using sizes(5) by (simp add: retains_def same_settings_def l')
  qed
qed

lemma prune_entries_ok:
  assumes "ledger_ok sha256 S now l"
    and "\<forall>e\<in>set es. js_get (gl_activeEntries l) (se_correlationKey e) = Some e"
    and "distinct (map se_correlationKey es)"
    and "prune_entries now es (a, b, l) = (a', b', l')"
  shows "retains sha256 S now l l'"
  using assms
proof (induction es arbitrary: a b l)
  case Nil
  then show ?case by (simp add: retains_refl)
next
  case (Cons e es)
  show ?case
  proof (cases "se_deadlineMs e > now")
    case True
    with Cons.prems show ?thesis by (intro Cons.IH [of l a b]) simp_all
  next
    case False
    obtain moved l1 where m: "moveActiveEntryToTombstone e now l = (moved, l1)" by fastforce
    have get: "js_get (gl_activeEntries l) (se_correlationKey e) = Some e" using Cons.prems(2) by simp
    note mv = move_ok [OF Cons.prems(1) get m]
    have ok1: "ledger_ok sha256 S now l1" using mv(1) by (simp add: retains_def)
    have rest: "\<forall>e'\<in>set es. js_get (gl_activeEntries l1) (se_correlationKey e') = Some e'"
    proof
      fix e' assume e': "e' \<in> set es"
      with Cons.prems(3) have "se_correlationKey e' \<noteq> se_correlationKey e" by (auto dest: sym)
      with mv(3) Cons.prems(2) e' show "js_get (gl_activeEntries l1) (se_correlationKey e') = Some e'" by simp
    qed
    have dist: "distinct (map se_correlationKey es)" using Cons.prems(3) by simp
    have "prune_entries now es (if moved then (a + 1, b, l1) else (a, b + 1, l1)) = (a', b', l')"
      using Cons.prems(4) False m by simp
    then have "retains sha256 S now l1 l'" using Cons.IH [OF ok1 rest dist] by (cases moved) auto
    with mv(1) show ?thesis by (rule retains_trans)
  qed
qed

lemma active_values:
  assumes ok: "ledger_ok sha256 S now l"
  shows "\<forall>e\<in>set (js_values (gl_activeEntries l)). js_get (gl_activeEntries l) (se_correlationKey e) = Some e"
    and "distinct (map se_correlationKey (js_values (gl_activeEntries l)))"
proof -
  note old = ledger_okD [OF ok]
  have key: "se_correlationKey (snd x) = fst x" if "x \<in> set (gl_activeEntries l)" for x
    using old(5) [of "fst x" "snd x"] js_get_in_set [OF old(1), of "fst x" "snd x"] that by (simp add: entry_ok_def)
  show "\<forall>e\<in>set (js_values (gl_activeEntries l)). js_get (gl_activeEntries l) (se_correlationKey e) = Some e"
    using key js_get_in_set [OF old(1)] by (fastforce simp: js_values_def)
  have "map se_correlationKey (js_values (gl_activeEntries l)) = map fst (gl_activeEntries l)"
    using key by (simp add: js_values_def)
  then show "distinct (map se_correlationKey (js_values (gl_activeEntries l)))"
    using old(1) by (simp add: js_map_ok_def)
qed

lemma pruneAt_ok:
  assumes ok: "ledger_ok sha256 S now l"
  shows "retains sha256 S now l (snd (pruneAt now l))"
proof -
  let ?l = "snd (pruneExpiredTombstones now l)"
  have r: "retains sha256 S now l ?l" by (rule prune_tombstones_ok [OF ok])
  then have ok1: "ledger_ok sha256 S now ?l" by (simp add: retains_def)
  obtain a b l2 where p: "prune_entries now (js_values (gl_activeEntries ?l)) (0, 0, ?l) = (a, b, l2)"
    by (metis prod_cases3)
  have "retains sha256 S now ?l l2" by (rule prune_entries_ok [OF ok1 active_values [OF ok1] p])
  with r have "retains sha256 S now l l2" by (rule retains_trans)
  with p show ?thesis by (simp add: pruneAt_def case_prod_unfold Let_def)
qed

lemma oldest_entry_Some: "oldest_entry (Some o') es \<noteq> None"
  by (induction es arbitrary: o') auto

lemma oldest_entry_in: "oldest_entry x es = Some e \<Longrightarrow> x = Some e \<or> e \<in> set es"
  by (induction x es rule: oldest_entry.induct) (auto split: if_splits)

lemma reserve_ok:
  assumes ok: "ledger_ok sha256 S now l" and step: "reserveActiveCapacity now l = (b, l')"
  shows "retains sha256 S now l l'"
    and "b \<Longrightarrow> int (js_size (gl_activeEntries l')) < gl_activeCapacity l'"
proof -
  let ?l = "snd (pruneAt now l)"
  have r: "retains sha256 S now l ?l" by (rule pruneAt_ok [OF ok])
  then have ok1: "ledger_ok sha256 S now ?l" by (simp add: retains_def)
  have both: "retains sha256 S now l l' \<and> (b \<longrightarrow> int (js_size (gl_activeEntries l')) < gl_activeCapacity l')"
  proof (cases "int (js_size (gl_activeEntries ?l)) < gl_activeCapacity ?l")
    case True
    with step r show ?thesis by (auto simp: reserveActiveCapacity_def Let_def)
  next
    case False
    show ?thesis
    proof (cases "oldest_entry None (js_values (gl_activeEntries ?l))")
      case None
      with False step r show ?thesis by (auto simp: reserveActiveCapacity_def Let_def)
    next
      case (Some e)
      have m: "moveActiveEntryToTombstone e now ?l = (b, l')"
        using False Some step by (simp add: reserveActiveCapacity_def Let_def)
      have "e \<in> set (js_values (gl_activeEntries ?l))" using oldest_entry_in [OF Some] by simp
      then have get: "js_get (gl_activeEntries ?l) (se_correlationKey e) = Some e" using active_values(1) [OF ok1] by blast
      note mv = move_ok [OF ok1 get m]
      have "gl_activeCapacity l' = gl_activeCapacity ?l" using move_frame(1) [OF m] by (simp add: same_settings_def)
      with mv(2) ledger_okD(3) [OF ok1] retains_trans [OF r mv(1)] show ?thesis by linarith
    qed
  qed
  then show "retains sha256 S now l l'" and "b \<Longrightarrow> int (js_size (gl_activeEntries l')) < gl_activeCapacity l'" by blast+
qed

text \<open>An entry whose status or promise changes.\<close>

lemma put_entry_ok:
  assumes ok: "ledger_ok sha256 S now l" and get: "js_get (gl_activeEntries l) (se_correlationKey e) = Some e"
    and same: "se_correlationKey e' = se_correlationKey e" "se_order e' = se_order e"
      "se_meaningKey e' = se_meaningKey e" "se_deadlineMs e' = se_deadlineMs e"
      "se_promise e' = se_promise e \<or> se_promise e' = Some (se_order e)"
  shows "ledger_ok sha256 S now (put_entry e' l)"
proof -
  let ?k = "se_correlationKey e"
  note old = ledger_okD [OF ok]
  have e: "entry_ok sha256 S l ?k e" by (rule old(5) [OF get])
  have get': "js_get (gl_activeEntries (put_entry e' l)) k = (if k = ?k then Some e' else js_get (gl_activeEntries l) k)" for k
    using same(1) by (simp add: put_entry_def js_get_set)
  have frame: "gl_tombstones (put_entry e' l) = gl_tombstones l" "gl_activeCapacity (put_entry e' l) = gl_activeCapacity l"
    "gl_tombstoneCapacity (put_entry e' l) = gl_tombstoneCapacity l" "gl_nextOrder (put_entry e' l) = gl_nextOrder l"
    "gl_tombstoneTtlMs (put_entry e' l) = gl_tombstoneTtlMs l" by (simp_all add: put_entry_def)
  have sizes: "js_map_ok (gl_activeEntries (put_entry e' l))"
    "js_size (gl_activeEntries (put_entry e' l)) = js_size (gl_activeEntries l)"
    using old(1) get same(1) by (simp_all add: put_entry_def js_size_set js_has_def)
  have entries: "entry_ok sha256 S (put_entry e' l) k x" if "js_get (gl_activeEntries (put_entry e' l)) k = Some x" for k x
    using that e old(5) [of k x] same by (auto simp: get' entry_ok_def frame split: if_splits)
  have cover: "covered (put_entry e' l) now k t = covered l now k t" for k t
    using get by (simp add: covered_def get' frame)
  show ?thesis
    unfolding ledger_ok_def frame sizes(2) cover
    using sizes(1) old(2-4) entries ok by (simp add: ledger_ok_def)
qed

section \<open>Execution and the end of a handler\<close>

lemma log_more:
  assumes "logged sha256 S n k m i"
  shows "logged sha256 (x # S) n k m i"
  using assms by (auto simp: logged_def)

lemma start_entry_ok:
  assumes ok: "ledger_ok sha256 S now l" and new: "absent k l"
    and keys: "operation_keys sha256 (ep_identity pf) p = Some (k, m)"
    and step: "start_entry now k m pf l = (x, l')"
  shows "(case x of
      HandlerCalled n pf' \<Rightarrow> n = gl_nextOrder l \<and> pf' = pf \<and> now < si_validUntilMs (ep_identity pf) \<and>
        ledger_ok sha256 ((n, ep_identity pf, p, now) # S) now l'
    | Decided d \<Rightarrow> (d = OperationExpired \<or> d = CapacityExhausted) \<and> ledger_ok sha256 S now l'
    | SharesPromise _ \<Rightarrow> False) \<and> same_settings l l'"
proof (cases "si_validUntilMs (ep_identity pf) \<le> now")
  case True
  with step ok show ?thesis by (auto simp: start_entry_def same_settings_def)
next
  case False
  obtain b l1 where r: "reserveActiveCapacity now l = (b, l1)" by fastforce
  note res = reserve_ok [OF ok r]
  have ok1: "ledger_ok sha256 S now l1" and set1: "same_settings l l1" and ord1: "gl_nextOrder l1 = gl_nextOrder l"
    and new1: "absent k l1" using res(1) new by (simp_all add: retains_def)
  show ?thesis
  proof (cases b)
    case False
    with step \<open>\<not> si_validUntilMs (ep_identity pf) \<le> now\<close> r ok1 set1 show ?thesis
      by (auto simp: start_entry_def Let_def)
  next
    case True
    note old = ledger_okD [OF ok1] and room = res(2) [OF True]
    let ?n = "gl_nextOrder l1" and ?e = "entry_for k m (ep_identity pf) now l1"
    let ?S = "(?n, ep_identity pf, p, now) # S"
    have x: "x = HandlerCalled ?n pf"
      and l': "l' = l1\<lparr>gl_nextOrder := ?n + 1, gl_activeEntries := js_set k ?e (gl_activeEntries l1)\<rparr>"
      using step False True r by (auto simp: start_entry_def Let_def)
    have get': "js_get (gl_activeEntries l') k' = (if k' = k then Some ?e else js_get (gl_activeEntries l1) k')" for k'
      by (simp add: l' js_get_set)
    have me: "logged sha256 ?S ?n k m (ep_identity pf)" using keys by (auto simp: logged_def)
    have entries: "entry_ok sha256 ?S l' k' e" if "js_get (gl_activeEntries l') k' = Some e" for k' e
    proof (cases "k' = k")
      case True
      with that have "e = ?e" by (simp add: get')
      with me new1 True show ?thesis
        by (auto simp: entry_ok_def entry_for_def l' absent_def intro!: exI [of _ "ep_identity pf"])
    next
      case False
      with that have "entry_ok sha256 S l1 k' e" by (intro old(5)) (simp add: get')
      then show ?thesis using log_more by (fastforce simp: entry_ok_def l')
    qed
    have tombs: "\<exists>n i. logged sha256 ?S n k' (st_meaningKey s) i" if "js_get (gl_tombstones l') k' = Some s" for k' s
      using old(6) [of k' s] that log_more by (fastforce simp: l')
    have cover: "covered l' now k' t" if "covered l1 now k' t" for k' t
    proof -
      have "gl_tombstones l' = gl_tombstones l1" "gl_tombstoneTtlMs l' = gl_tombstoneTtlMs l1" by (simp_all add: l')
      with that show ?thesis by (auto simp: covered_def get')
    qed
    have log: "n < gl_nextOrder l' \<and> t \<le> now \<and> (\<exists>k m. operation_keys sha256 i q = Some (k, m) \<and> covered l' now k t)"
      if "(n, i, q, t) \<in> set ?S" for n i q t
    proof (cases "(n, i, q, t) \<in> set S")
      case True
      with old(7) [OF True] cover show ?thesis by (fastforce simp: l')
    next
      case False
      with that have "n = ?n" "i = ep_identity pf" "q = p" "t = now" by auto
      moreover have "covered l' now k now" by (simp add: covered_def get')
      ultimately show ?thesis using keys by (simp add: l')
    qed
    have sizes: "js_map_ok (gl_activeEntries l')" "js_map_ok (gl_tombstones l')"
      "int (js_size (gl_activeEntries l')) \<le> gl_activeCapacity l'"
      "int (js_size (gl_tombstones l')) \<le> gl_tombstoneCapacity l'"
      using old(1,2,4) room new1 by (simp_all add: l' js_size_set js_has_def absent_def)
    have "ledger_ok sha256 ?S now l'"
      unfolding ledger_ok_def using sizes entries tombs log by blast
    moreover have "same_settings l l'" using set1 by (simp add: same_settings_def l')
    ultimately show ?thesis using x ord1 False by simp
  qed
qed

lemma decide_active_ok:
  assumes ok: "ledger_ok sha256 S now l" and get: "js_get (gl_activeEntries l) k = Some e"
    and step: "decide_active now m e l = (x, l')"
  shows "retains sha256 S now l l' \<and> (case x of
      HandlerCalled n pf \<Rightarrow> False
    | Decided d \<Rightarrow> d = (if se_meaningKey e = m then UnknownSideEffect else IdempotencyCollision)
    | SharesPromise pr \<Rightarrow> pr = se_promise e \<and> se_meaningKey e = m \<and> now < se_deadlineMs e)"
proof (cases "se_meaningKey e \<noteq> m \<or> now < se_deadlineMs e")
  case True
  with step retains_refl [OF ok] show ?thesis by (auto simp: decide_active_def split: if_splits)
next
  case False
  have k: "se_correlationKey e = k" using ledger_okD(5) [OF ok get] by (simp add: entry_ok_def)
  obtain b l1 where mv: "moveActiveEntryToTombstone e now l = (b, l1)" by fastforce
  have "retains sha256 S now l l1" by (rule move_ok(1) [OF ok _ mv]) (simp add: k get)
  with False step mv show ?thesis by (auto simp: decide_active_def)
qed

text \<open>The log of the other operations of the same request or of the same correlation.\<close>

definition earlier_request :: "(string \<Rightarrow> string) \<Rightarrow> start_log \<Rightarrow> nat \<Rightarrow> semantic_identity \<Rightarrow> json \<Rightarrow> bool" where
  "earlier_request sha256 S n i p \<longleftrightarrow> (\<exists>j q t. (n, j, q, t) \<in> set S \<and> same_request sha256 j q i p)"

definition earlier_collision :: "(string \<Rightarrow> string) \<Rightarrow> start_log \<Rightarrow> semantic_identity \<Rightarrow> json \<Rightarrow> bool" where
  "earlier_collision sha256 S i p \<longleftrightarrow>
     (\<exists>n j q t. (n, j, q, t) \<in> set S \<and> same_correlation j i \<and> \<not> same_request sha256 j q i p)"

lemma logged_request:
  assumes "logged sha256 S n k m j" and "operation_keys sha256 i p = Some (k, m')"
  shows "if m = m' then earlier_request sha256 S n i p else earlier_collision sha256 S i p"
proof -
  from assms(1) obtain q t where q: "(n, j, q, t) \<in> set S" "operation_keys sha256 j q = Some (k, m)"
    by (auto simp: logged_def)
  have "same_correlation j i" using operation_keys_correlation [OF q(2) assms(2)] by simp
  moreover have "m = m' \<longleftrightarrow> same_request sha256 j q i p" by (rule operation_keys_meaning [OF q(2) assms(2)])
  ultimately show ?thesis using q(1) by (auto simp: earlier_request_def earlier_collision_def)
qed

text \<open>What one call of \<open>executeMutating\<close> does, with the log it extends.\<close>

definition answer_ok :: "(string \<Rightarrow> string) \<Rightarrow> start_log \<Rightarrow> int \<Rightarrow> semantic_identity \<Rightarrow> json
    \<Rightarrow> 'r execution \<Rightarrow> bool" where
  "answer_ok sha256 S now i p x = (case x of
     Decided UnknownSideEffect \<Rightarrow> \<exists>n. earlier_request sha256 S n i p
   | Decided IdempotencyCollision \<Rightarrow> earlier_collision sha256 S i p
   | Decided (Completed _) \<Rightarrow> False
   | Decided _ \<Rightarrow> True
   | SharesPromise None \<Rightarrow> \<exists>n. earlier_request sha256 S n i p
   | SharesPromise (Some n) \<Rightarrow> earlier_request sha256 S n i p
   | HandlerCalled n pf \<Rightarrow> ep_identity pf = i \<and> now < si_validUntilMs i \<and>
       (\<forall>m j q t. (m, j, q, t) \<in> set S \<longrightarrow> m < n))"

definition log_after :: "start_log \<Rightarrow> int \<Rightarrow> semantic_identity \<Rightarrow> json \<Rightarrow> 'r execution \<Rightarrow> start_log" where
  "log_after S now i p x = (case x of HandlerCalled n _ \<Rightarrow> (n, i, p, now) # S | _ \<Rightarrow> S)"

lemma executeMutating_ok:
  assumes ok: "ledger_ok sha256 S now l"
  shows "case executeMutating sha256 now i p l of
      Inl (e, l') \<Rightarrow> ledger_ok sha256 S now l' \<and> same_settings l l'
    | Inr (x, l') \<Rightarrow> ledger_ok sha256 (log_after S now i p x) now l' \<and> same_settings l l' \<and>
        answer_ok sha256 S now i p (x :: 'r execution) \<and>
        (\<forall>n pf. x = HandlerCalled n pf \<longrightarrow>
          (\<forall>m j q t. (m, j, q, t) \<in> set S \<longrightarrow> same_correlation j i \<longrightarrow> t + gl_tombstoneTtlMs l \<le> now))"
proof -
  let ?l = "snd (pruneExpiredTombstones now l)"
  have r: "retains sha256 S now l ?l" by (rule prune_tombstones_ok [OF ok])
  then have ok1: "ledger_ok sha256 S now ?l" and set1: "same_settings l ?l" and ord1: "gl_nextOrder ?l = gl_nextOrder l"
    by (simp_all add: retains_def)
  consider (mismatch) "\<not> gatewayIdentitiesEqual (si_gateway i) (gl_gateway l) \<or>
      si_validUntilMs i > now + gl_activeWindowMs l"
    | (thrown) e where "gatewayIdentitiesEqual (si_gateway i) (gl_gateway l)"
      "\<not> si_validUntilMs i > now + gl_activeWindowMs l" "execution_keys sha256 i p = Inl e"
    | (keys) pf k m where "gatewayIdentitiesEqual (si_gateway i) (gl_gateway l)"
      "\<not> si_validUntilMs i > now + gl_activeWindowMs l" "execution_keys sha256 i p = Inr (pf, k, m)"
    by (metis surj_pair sum.exhaust)
  then show ?thesis
  proof cases
    case mismatch
    with ok show ?thesis by (auto simp: executeMutating_def answer_ok_def log_after_def same_settings_def)
  next
    case thrown
    with ok1 set1 show ?thesis by (simp add: executeMutating_def Let_def)
  next
    case keys
    have opk: "operation_keys sha256 i p = Some (k, m)" using keys(3) by (simp add: operation_keys_def)
    have pf: "ep_identity pf = i" using keys(3) by (simp add: execution_keys_Inr)
    note old = ledger_okD [OF ok1]
    show ?thesis
    proof (cases "js_get (gl_tombstones ?l) k")
      case (Some s)
      obtain n j where "logged sha256 S n k (st_meaningKey s) j" using old(6) [OF Some] by blast
      from logged_request [OF this opk] ok1 set1 Some keys show ?thesis
        by (auto simp: executeMutating_def Let_def answer_ok_def log_after_def)
    next
      case tomb: None
      show ?thesis
      proof (cases "js_get (gl_activeEntries ?l) k")
        case (Some e)
        obtain x l2 where d: "decide_active now m e ?l = (x :: 'r execution, l2)" by fastforce
        note dec = decide_active_ok [OF ok1 Some d]
        have e: "entry_ok sha256 S ?l k e" by (rule old(5) [OF Some])
        then obtain j where j: "logged sha256 S (se_order e) k (se_meaningKey e) j" by (auto simp: entry_ok_def)
        note req = logged_request [OF j opk]
        have "ledger_ok sha256 S now l2" "same_settings l l2"
          using dec retains_trans [OF r] by (auto simp: retains_def)
        moreover have "answer_ok sha256 S now i p x \<and> (\<forall>n pf. x \<noteq> HandlerCalled n pf)"
          using dec req e by (cases x) (auto simp: answer_ok_def entry_ok_def split: if_splits)
        moreover have "executeMutating sha256 now i p l = Inr (x, l2)"
          using keys tomb Some d by (simp add: executeMutating_def Let_def)
        ultimately show ?thesis by (cases x) (auto simp: log_after_def)
      next
        case None
        then have new: "absent k ?l" using tomb by (simp add: absent_def)
        obtain x l2 where st: "start_entry now k m pf ?l = (x :: 'r execution, l2)" by fastforce
        have opk': "operation_keys sha256 (ep_identity pf) p = Some (k, m)" using opk pf by simp
        note started = start_entry_ok [OF ok1 new opk' st]
        have set2: "same_settings l l2" using started set1 by (auto simp: same_settings_def)
        have run: "executeMutating sha256 now i p l = Inr (x, l2)"
          using keys tomb None st by (simp add: executeMutating_def Let_def)
        have "t + gl_tombstoneTtlMs l \<le> now" if "(n, j, q, t) \<in> set S" and corr: "same_correlation j i" for n j q t
        proof -
          have "\<exists>k m. operation_keys sha256 j q = Some (k, m) \<and> covered ?l now k t"
            using ledger_okD(7) [OF ok1 that(1)] by blast
          then obtain k' m' where k': "operation_keys sha256 j q = Some (k', m')" "covered ?l now k' t" by blast
          with corr operation_keys_correlation [OF k'(1) opk] have "k' = k" by simp
          with k'(2) None tomb show ?thesis by (simp add: covered_def)
        qed
        moreover have "answer_ok sha256 S now i p x \<and> ledger_ok sha256 (log_after S now i p x) now l2"
        proof (cases x)
          case (HandlerCalled n pf')
          have n: "n = gl_nextOrder ?l" "pf' = pf" "now < si_validUntilMs i"
            "ledger_ok sha256 ((n, i, p, now) # S) now l2"
            using started pf unfolding HandlerCalled execution.case by metis+
          have "\<forall>m j q t. (m, j, q, t) \<in> set S \<longrightarrow> m < n"
            using old(7) n(1) by blast
          with n pf show ?thesis by (simp add: HandlerCalled answer_ok_def log_after_def)
        next
          case (Decided d)
          with started show ?thesis by (auto simp: answer_ok_def log_after_def)
        next
          case (SharesPromise pr)
          with started show ?thesis by simp
        qed
        ultimately show ?thesis using run set2 by auto
      qed
    qed
  qed
qed

text \<open>The end of a handler.\<close>

lemma entry_of_Some:
  assumes "entry_of n k l = Some e" and "ledger_ok sha256 S now l"
  shows "js_get (gl_activeEntries l) (se_correlationKey e) = Some e" "se_order e = n" "se_correlationKey e = k"
    "entry_ok sha256 S l k e"
  using assms ledger_okD(5) [OF assms(2), of k e]
  by (auto simp: entry_of_def entry_ok_def split: option.splits if_splits)

lemma put_entry_settings [simp]: "same_settings l (put_entry e l)"
  by (simp add: put_entry_def same_settings_def)

lemma same_settings_trans: "same_settings l l1 \<Longrightarrow> same_settings l1 l2 \<Longrightarrow> same_settings l l2"
  by (simp add: same_settings_def)

lemma assign_promise_ok:
  assumes ok: "ledger_ok sha256 S now l"
  shows "ledger_ok sha256 S now (assign_promise n k l) \<and> same_settings l (assign_promise n k l)"
proof (cases "entry_of n k l")
  case None
  with ok show ?thesis by (simp add: assign_promise_def same_settings_def)
next
  case (Some e)
  note e = entry_of_Some [OF Some ok]
  have "ledger_ok sha256 S now (put_entry (e\<lparr>se_promise := Some n\<rparr>) l)"
    by (rule put_entry_ok [OF ok e(1)]) (simp_all add: e(2))
  with Some show ?thesis by (simp add: assign_promise_def)
qed

lemma unknown_entry_ok:
  assumes ok: "ledger_ok sha256 S now l" and e: "entry_of n k l = Some e"
  shows "ledger_ok sha256 S now (snd (moveActiveEntryToTombstone (e\<lparr>se_status := EntryUnknownSideEffect\<rparr>) now
      (put_entry (e\<lparr>se_status := EntryUnknownSideEffect\<rparr>) l))) \<and>
    same_settings l (snd (moveActiveEntryToTombstone (e\<lparr>se_status := EntryUnknownSideEffect\<rparr>) now
      (put_entry (e\<lparr>se_status := EntryUnknownSideEffect\<rparr>) l)))"
proof -
  let ?e = "e\<lparr>se_status := EntryUnknownSideEffect\<rparr>" and ?l = "put_entry (e\<lparr>se_status := EntryUnknownSideEffect\<rparr>) l"
  have ok1: "ledger_ok sha256 S now ?l" by (rule put_entry_ok [OF ok entry_of_Some(1) [OF e ok]]) simp_all
  obtain b l2 where mv: "moveActiveEntryToTombstone ?e now ?l = (b, l2)" by fastforce
  have "retains sha256 S now ?l l2"
    by (rule move_ok(1) [OF ok1 _ mv]) (simp add: put_entry_def js_get_set)
  with mv same_settings_trans [OF put_entry_settings, of ?e l l2] show ?thesis by (simp add: retains_def)
qed

lemma handler_failed_ok:
  assumes ok: "ledger_ok sha256 S now l" and step: "handler_failed n k now l = (d, l')"
  shows "ledger_ok sha256 S now l' \<and> same_settings l l' \<and> d = UnknownSideEffect"
proof (cases "entry_of n k l")
  case None
  with step ok show ?thesis by (auto simp: handler_failed_def same_settings_def)
next
  case (Some e)
  with step unknown_entry_ok [OF ok Some] show ?thesis by (auto simp: handler_failed_def Let_def)
qed

lemma handler_returned_ok:
  assumes ok: "ledger_ok sha256 S now l" and step: "handler_returned n k v now l = (d, l')"
  shows "ledger_ok sha256 S now l' \<and> same_settings l l' \<and>
    (d = UnknownSideEffect \<or> d = Completed v \<and> (\<exists>i m. logged sha256 S n k m i \<and> now < si_validUntilMs i))"
proof (cases "entry_of n k l")
  case None
  with step ok show ?thesis by (auto simp: handler_returned_def same_settings_def)
next
  case (Some e)
  note e = entry_of_Some [OF Some ok]
  consider "se_status e \<noteq> EntryPending" | "se_status e = EntryPending" "se_deadlineMs e \<le> now"
    | "se_status e = EntryPending" "now < se_deadlineMs e" by linarith
  then show ?thesis
  proof cases
    case 1
    with Some step ok show ?thesis by (auto simp: handler_returned_def same_settings_def)
  next
    case 2
    with Some step unknown_entry_ok [OF ok Some] show ?thesis by (auto simp: handler_returned_def Let_def)
  next
    case 3
    have "ledger_ok sha256 S now (put_entry (e\<lparr>se_status := EntryCompleted\<rparr>) l)"
      by (rule put_entry_ok [OF ok e(1)]) simp_all
    moreover obtain i where "logged sha256 S n k (se_meaningKey e) i" "se_deadlineMs e \<le> si_validUntilMs i"
      using e(2,4) by (auto simp: entry_ok_def)
    moreover from 3 Some step have "d = Completed v" "l' = put_entry (e\<lparr>se_status := EntryCompleted\<rparr>) l"
      by (auto simp: handler_returned_def Let_def)
    ultimately show ?thesis using 3 by fastforce
  qed
qed

end
