(* ===== verification/SemanticRuns.thy ===== *)
theory SemanticRuns
  imports SemanticInvariant
begin

text \<open>
  The ledger in its environment: callers, handlers that suspend, return or fail in any order, and
  a clock that never runs back.
\<close>

section \<open>The ledger under its callers, its handlers and its clock\<close>

text \<open>
  \<open>ly_started\<close> logs the handlers that were called, \<open>ly_running\<close> the ones that have not
  settled, \<open>ly_settled\<close> the decision and time of the others. The clock never runs back.
\<close>

record 'r ledger_system =
  ly_ledger :: semantic_ledger
  ly_now :: int
  ly_started :: start_log
  ly_running :: "nat list"
  ly_settled :: "(nat \<times> 'r ledger_decision \<times> int) list"

datatype 'r ledger_command =
  ExecuteMutating int semantic_identity json
| HandlerSuspends nat
| HandlerReturns nat 'r int
| HandlerFails nat int
| PruneLedger int

definition new_ledger_system :: "semantic_ledger \<Rightarrow> int \<Rightarrow> 'r ledger_system" where
  "new_ledger_system l now = \<lparr>ly_ledger = l, ly_now = now, ly_started = [], ly_running = [], ly_settled = []\<rparr>"

definition key_of_order :: "(string \<Rightarrow> string) \<Rightarrow> start_log \<Rightarrow> nat \<Rightarrow> string" where
  "key_of_order sha256 S n = (case find (\<lambda>(m, _). m = n) S of
     None \<Rightarrow> [] | Some (_, i, p, _) \<Rightarrow> (case operation_keys sha256 i p of None \<Rightarrow> [] | Some (k, _) \<Rightarrow> k))"

definition settle :: "nat \<Rightarrow> int \<Rightarrow> 'r ledger_decision \<times> semantic_ledger \<Rightarrow> 'r ledger_system \<Rightarrow> 'r ledger_system" where
  "settle n now r sy = sy\<lparr>ly_ledger := snd r, ly_now := now, ly_running := remove1 n (ly_running sy),
     ly_settled := (n, fst r, now) # ly_settled sy\<rparr>"

definition ledger_exec :: "(string \<Rightarrow> string) \<Rightarrow> 'r ledger_system \<Rightarrow> 'r ledger_command \<Rightarrow> unit + 'r ledger_system" where
  "ledger_exec sha256 sy c = (case c of
     ExecuteMutating now i p \<Rightarrow>
       if now < ly_now sy then Inl ()
       else (case executeMutating sha256 now i p (ly_ledger sy) of
               Inl (_, l) \<Rightarrow> Inr (sy\<lparr>ly_ledger := l, ly_now := now\<rparr>)
             | Inr (x, l) \<Rightarrow> Inr (sy\<lparr>ly_ledger := l, ly_now := now,
                 ly_started := log_after (ly_started sy) now i p (x :: 'r execution),
                 ly_running := (case x of HandlerCalled n _ \<Rightarrow> n # ly_running sy | _ \<Rightarrow> ly_running sy)\<rparr>))
   | HandlerSuspends n \<Rightarrow>
       Inr (sy\<lparr>ly_ledger := assign_promise n (key_of_order sha256 (ly_started sy) n) (ly_ledger sy)\<rparr>)
   | HandlerReturns n v now \<Rightarrow>
       if now < ly_now sy \<or> n \<notin> set (ly_running sy) then Inl ()
       else Inr (settle n now (handler_returned n (key_of_order sha256 (ly_started sy) n) v now (ly_ledger sy)) sy)
   | HandlerFails n now \<Rightarrow>
       if now < ly_now sy \<or> n \<notin> set (ly_running sy) then Inl ()
       else Inr (settle n now (handler_failed n (key_of_order sha256 (ly_started sy) n) now (ly_ledger sy)) sy)
   | PruneLedger now \<Rightarrow>
       if now < ly_now sy then Inl ()
       else Inr (sy\<lparr>ly_ledger := snd (pruneAt now (ly_ledger sy)), ly_now := now\<rparr>))"

definition runs_once :: "int \<Rightarrow> start_log \<Rightarrow> bool" where
  "runs_once ttl S \<longleftrightarrow> (\<forall>n i p t m j q u. (n, i, p, t) \<in> set S \<longrightarrow> (m, j, q, u) \<in> set S \<longrightarrow> n < m \<longrightarrow>
     same_correlation i j \<longrightarrow> t + ttl \<le> u)"

definition settled_ok :: "start_log \<Rightarrow> int \<Rightarrow> nat \<times> 'r ledger_decision \<times> int \<Rightarrow> bool" where
  "settled_ok S now s = (case s of (n, d, tc) \<Rightarrow> tc \<le> now \<and> (d = UnknownSideEffect \<or>
     (\<exists>v i p t. d = Completed v \<and> (n, i, p, t) \<in> set S \<and> t \<le> tc \<and> tc < si_validUntilMs i)))"

definition ledger_inv :: "(string \<Rightarrow> string) \<Rightarrow> semantic_ledger \<Rightarrow> 'r ledger_system \<Rightarrow> bool" where
  "ledger_inv sha256 l0 sy \<longleftrightarrow> ledger_ok sha256 (ly_started sy) (ly_now sy) (ly_ledger sy) \<and>
     same_settings l0 (ly_ledger sy) \<and> runs_once (gl_tombstoneTtlMs l0) (ly_started sy) \<and>
     (\<forall>s\<in>set (ly_settled sy). settled_ok (ly_started sy) (ly_now sy) s)"

lemma settled_ok_more:
  "settled_ok S now s \<Longrightarrow> set S \<subseteq> set S' \<Longrightarrow> now \<le> now' \<Longrightarrow> settled_ok S' now' s"
  by (fastforce simp: settled_ok_def split: prod.splits)

lemma log_after_subset: "set S \<subseteq> set (log_after S now i p x)"
  by (cases x) (auto simp: log_after_def)

lemma ledger_exec_inv:
  assumes inv: "ledger_inv sha256 l0 sy" and step: "ledger_exec sha256 sy c = Inr sy'"
  shows "ledger_inv sha256 l0 sy'"
proof -
  let ?S = "ly_started sy" and ?l = "ly_ledger sy"
  have ok: "ledger_ok sha256 ?S (ly_now sy) ?l" and set0: "same_settings l0 ?l"
    and once: "runs_once (gl_tombstoneTtlMs l0) ?S"
    and settled: "\<forall>s\<in>set (ly_settled sy). settled_ok ?S (ly_now sy) s"
    using inv by (simp_all add: ledger_inv_def)
  note later = ledger_ok_later [OF ok]
  have settled_now: "\<forall>s\<in>set (ly_settled sy). settled_ok ?S now s" if "ly_now sy \<le> now" for now
    using settled settled_ok_more [OF _ subset_refl that] by blast
  have settle: "ledger_inv sha256 l0 (settle n now (d, l') sy)"
    if "ly_now sy \<le> now" "ledger_ok sha256 ?S now l'" "same_settings ?l l'"
      "d = UnknownSideEffect \<or> d = Completed v \<and> (\<exists>i m. logged sha256 ?S n k m i \<and> now < si_validUntilMs i)"
    for n now d l' v k
  proof -
    have "settled_ok ?S now (n, d, now)"
      using that(4) ledger_okD(7) [OF that(2)] by (fastforce simp: settled_ok_def logged_def)
    moreover have "\<forall>s\<in>set (ly_settled sy). settled_ok ?S now s"
      by (rule settled_now [OF that(1)])
    ultimately show ?thesis
      using that(2) once same_settings_trans [OF set0 that(3)] by (simp add: ledger_inv_def settle_def)
  qed
  show ?thesis
  proof (cases c)
    case (ExecuteMutating now i p)
    have now: "ly_now sy \<le> now" using step ExecuteMutating by (simp add: ledger_exec_def split: if_splits)
    note run = executeMutating_ok [OF later [OF now], of i p, where 'r = 'a]
    show ?thesis
    proof (cases "executeMutating sha256 now i p ?l :: (canonical_error \<times> semantic_ledger) + ('a execution \<times> semantic_ledger)")
      case (Inl r)
      obtain e l' where r: "r = (e, l')" by (cases r)
      have "sy' = sy\<lparr>ly_ledger := l', ly_now := now\<rparr>"
        using step now by (simp add: ExecuteMutating ledger_exec_def Inl r)
      moreover have "ledger_ok sha256 ?S now l'" "same_settings ?l l'" using run by (simp_all add: Inl r)
      ultimately show ?thesis
        using once settled_now [OF now] same_settings_trans [OF set0]
        by (auto simp: ledger_inv_def)
    next
      case (Inr r)
      obtain x l' where r: "r = (x, l')" by (cases r)
      let ?S' = "log_after ?S now i p x"
      have sy': "ly_started sy' = ?S'" "ly_ledger sy' = l'" "ly_now sy' = now" "ly_settled sy' = ly_settled sy"
        using step now by (auto simp: ExecuteMutating ledger_exec_def Inr r)
      have x: "ledger_ok sha256 ?S' now l'" "same_settings ?l l'" "answer_ok sha256 ?S now i p x"
        and fresh: "\<And>n pf m j q t. x = HandlerCalled n pf \<Longrightarrow> (m, j, q, t) \<in> set ?S \<Longrightarrow> same_correlation j i \<Longrightarrow>
          t + gl_tombstoneTtlMs ?l \<le> now"
        using run by (simp_all add: Inr r)
      have ttl: "gl_tombstoneTtlMs ?l = gl_tombstoneTtlMs l0" using set0 by (simp add: same_settings_def)
      have "runs_once (gl_tombstoneTtlMs l0) ?S'"
      proof (cases x)
        case (HandlerCalled n pf)
        have new: "m < n" if "(m, j, q, t) \<in> set ?S" for m j q t
          using x(3) that by (auto simp: HandlerCalled answer_ok_def)
        show ?thesis
          using once new fresh [OF HandlerCalled] unfolding ttl
          by (auto simp: runs_once_def log_after_def HandlerCalled dest: less_asym)
      qed (use once in \<open>simp_all add: log_after_def\<close>)
      moreover have "\<forall>s\<in>set (ly_settled sy). settled_ok ?S' now s"
        using settled settled_ok_more [OF _ log_after_subset now] by blast
      ultimately show ?thesis using x(1) same_settings_trans [OF set0 x(2)] by (simp add: ledger_inv_def sy')
    qed
  next
    case (HandlerSuspends n)
    then have sy': "sy' = sy\<lparr>ly_ledger := assign_promise n (key_of_order sha256 ?S n) ?l\<rparr>"
      using step by (simp add: ledger_exec_def)
    note assigned = assign_promise_ok [OF ok, of n "key_of_order sha256 ?S n"]
    with once settled same_settings_trans [OF set0] show ?thesis by (auto simp: ledger_inv_def sy')
  next
    case (HandlerReturns n v now)
    obtain d l' where r: "handler_returned n (key_of_order sha256 ?S n) v now ?l = (d, l')" by fastforce
    have now: "ly_now sy \<le> now" and sy': "sy' = settle n now (d, l') sy"
      using step HandlerReturns r by (auto simp: ledger_exec_def split: if_splits)
    from handler_returned_ok [OF later [OF now] r] show ?thesis
      unfolding sy' by (intro settle [OF now, where v = v and k = "key_of_order sha256 ?S n"]) simp_all
  next
    case (HandlerFails n now)
    obtain d :: "'a ledger_decision" and l' where r: "handler_failed n (key_of_order sha256 ?S n) now ?l = (d, l')" by fastforce
    have now: "ly_now sy \<le> now" and sy': "sy' = settle n now (d, l') sy"
      using step HandlerFails r by (auto simp: ledger_exec_def split: if_splits)
    from handler_failed_ok [OF later [OF now] r] show ?thesis unfolding sy' by (intro settle [OF now]) simp_all
  next
    case (PruneLedger now)
    then have now: "ly_now sy \<le> now" and sy': "sy' = sy\<lparr>ly_ledger := snd (pruneAt now ?l), ly_now := now\<rparr>"
      using step by (auto simp: ledger_exec_def split: if_splits)
    have "retains sha256 ?S now ?l (snd (pruneAt now ?l))" by (rule pruneAt_ok [OF later [OF now]])
    then show ?thesis
      using once settled_now [OF now] same_settings_trans [OF set0]
      by (auto simp: ledger_inv_def sy' retains_def)
  qed
qed

interpretation semantic: guarded_reducer "ledger_exec sha256" "\<lambda>_. True" "ledger_inv sha256 l0" for sha256 l0
  by unfold_locales (rule ledger_exec_inv)

lemma created_ledger:
  assumes "createGatewaySemanticResultLedger g ac aw tc tt = Inr l0"
  shows "ledger_inv sha256 l0 (new_ledger_system l0 now)"
    and "gl_tombstoneTtlMs l0 = default_or tt 3600000" "gl_activeCapacity l0 = default_or ac 2048"
    "gl_tombstoneCapacity l0 = default_or tc 4096" "gl_gateway l0 = g" "gl_activeWindowMs l0 = default_or aw 600000"
proof -
  have l0: "0 < default_or ac 2048" "0 < default_or tc 4096"
    "l0 = \<lparr>gl_gateway = g, gl_activeCapacity = default_or ac 2048, gl_activeWindowMs = default_or aw 600000,
       gl_tombstoneCapacity = default_or tc 4096, gl_tombstoneTtlMs = default_or tt 3600000, gl_activeEntries = [],
       gl_tombstones = [], gl_nextOrder = 1\<rparr>"
    using assms by (auto simp: createGatewaySemanticResultLedger_def requirePositiveInteger_def result_simps split: if_splits)
  then show "ledger_inv sha256 l0 (new_ledger_system l0 now)"
    by (simp add: ledger_inv_def new_ledger_system_def ledger_ok_def same_settings_def runs_once_def)
  show "gl_tombstoneTtlMs l0 = default_or tt 3600000" "gl_activeCapacity l0 = default_or ac 2048"
    "gl_tombstoneCapacity l0 = default_or tc 4096" "gl_gateway l0 = g" "gl_activeWindowMs l0 = default_or aw 600000"
    by (simp_all add: l0(3))
qed

lemma reachable_ledger:
  assumes "createGatewaySemanticResultLedger g ac aw tc tt = Inr l0"
    and "reachable (ledger_exec sha256) (\<lambda>_. True) (new_ledger_system l0 now0) sy"
  shows "ledger_inv sha256 l0 sy"
  by (rule semantic.reachable_inv [OF assms(2) created_ledger(1) [OF assms(1)]])

text \<open>Neither store ever exceeds its capacity.\<close>

lemma semantic_ledger_bounded:
  assumes "createGatewaySemanticResultLedger g ac aw tc tt = Inr l0"
    and "reachable (ledger_exec sha256) (\<lambda>_. True) (new_ledger_system l0 now0) sy"
  shows "int (js_size (gl_activeEntries (ly_ledger sy))) \<le> default_or ac 2048"
    "int (js_size (gl_tombstones (ly_ledger sy))) \<le> default_or tc 4096"
  using ledger_okD(3,4) [of sha256 "ly_started sy" "ly_now sy" "ly_ledger sy"] reachable_ledger [OF assms]
    created_ledger(3,4) [OF assms(1)]
  by (simp_all add: ledger_inv_def same_settings_def)

end
