(* ===== verification/SemanticProperties.thy ===== *)
theory SemanticProperties
  imports SemanticRuns
begin

text \<open>
  What the semantic result ledger guarantees: canonical keys that determine the request, at most
  one execution within the retention time, and answers that are about the caller's own request.
  The witnesses follow one run: an operation executes and completes, is pruned to a tombstone,
  and executes again long after.
\<close>

section \<open>A worked ledger\<close>

definition retry_gateway :: gateway_epoch_identity where
  "retry_gateway = \<lparr>gw_bootId = ''b'', gw_controllerEpoch = ''c'', gw_gatewayEpochId = ''e'', gw_generationId = ''g'',
     gw_zoneId = ''z'', gw_gatewayVmId = ''v''\<rparr>"

definition retry_operation :: "string \<Rightarrow> int \<Rightarrow> semantic_identity" where
  "retry_operation target validUntil = \<lparr>si_commandId = ''1'', si_gateway = retry_gateway, si_idempotencyKey = ''i'',
     si_operation = ''o'', si_profile = SessionSafetyProfile 1 ''p'' ''s'', si_target = target,
     si_validUntilMs = validUntil\<rparr>"

definition retry_payload :: json where
  "retry_payload = JArray [JNull]"

definition retry_ledger :: semantic_ledger where
  "retry_ledger = \<lparr>gl_gateway = retry_gateway, gl_activeCapacity = 2048, gl_activeWindowMs = 600000,
     gl_tombstoneCapacity = 4096, gl_tombstoneTtlMs = 3600000, gl_activeEntries = [], gl_tombstones = [],
     gl_nextOrder = 1\<rparr>"

definition retry_events :: "string ledger_command list" where
  "retry_events = [ExecuteMutating 10 (retry_operation ''t'' 100) retry_payload, HandlerSuspends 1,
     HandlerReturns 1 ''r'' 20, PruneLedger 4000000, ExecuteMutating 8000000 (retry_operation ''t'' 8000100) retry_payload]"

definition retry_digest :: "string \<Rightarrow> string" where
  "retry_digest s = take 1 s"

lemma retry_ledger_created:
  "createGatewaySemanticResultLedger retry_gateway None None None None = Inr retry_ledger"
  by (simp add: createGatewaySemanticResultLedger_def requirePositiveInteger_def default_or_def is_safe_integer_def
      retry_ledger_def)

abbreviation retry_run :: "nat \<Rightarrow> string ledger_system" where
  "retry_run n \<equiv> run_commands (ledger_exec retry_digest) (new_ledger_system retry_ledger 0) (take n retry_events)"

lemma retry_run_reachable: "reachable (ledger_exec retry_digest) (\<lambda>_. True) (new_ledger_system retry_ledger 0) (retry_run n)"
  by (rule run_commands_reachable [OF reachable.start]) (simp add: list_all_def)

text \<open>
  The run is followed with the keys left symbolic: the operations of the run differ only in how
  long they are valid, so they have the same keys.
\<close>

definition retry_key :: string where
  "retry_key = fst (the (operation_keys retry_digest (retry_operation ''t'' 0) retry_payload))"

definition retry_meaning :: string where
  "retry_meaning = snd (the (operation_keys retry_digest (retry_operation ''t'' 0) retry_payload))"

lemma retry_execution_keys:
  "\<exists>pf. execution_keys retry_digest (retry_operation ''t'' v) retry_payload = Inr (pf, retry_key, retry_meaning) \<and>
     ep_identity pf = retry_operation ''t'' v"
proof -
  obtain d where d: "canonicalGatewaySemanticPayloadDigest retry_digest retry_payload = Inr d"
    by (simp add: canonicalGatewaySemanticPayloadDigest_def canonicalize_render retry_payload_def)
  obtain k m where k: "correlationKeyForIdentity (retry_operation ''t'' v) = Inr k"
    "meaningKeyForIdentity (retry_operation ''t'' v) d = Inr m" using key_results by blast
  obtain oid where oid: "canonicalGatewaySemanticOperationId retry_digest (retry_operation ''t'' v) = Inr oid"
    using key_results by blast
  have same: "correlationKeyForIdentity (retry_operation ''t'' 0) = correlationKeyForIdentity (retry_operation ''t'' v)"
    "meaningKeyForIdentity (retry_operation ''t'' 0) d = meaningKeyForIdentity (retry_operation ''t'' v) d"
    by (simp_all add: correlationKey_eq_iff meaningKey_eq_iff same_correlation_def same_meaning_def retry_operation_def)
  then have "operation_keys retry_digest (retry_operation ''t'' 0) retry_payload = Some (k, m)"
    using d k by (simp add: operation_keys_Some)
  then have "k = retry_key" "m = retry_meaning" by (simp_all add: retry_key_def retry_meaning_def)
  with d k oid show ?thesis
    by (intro exI [of _ "\<lparr>ep_identity = retry_operation ''t'' v, ep_operationPayloadDigest = d, ep_semanticOperationId = oid\<rparr>"])
      (simp add: execution_keys_Inr)
qed

lemma retry_operation_fields [simp]:
  "si_gateway (retry_operation t v) = retry_gateway" "si_validUntilMs (retry_operation t v) = v"
  by (simp_all add: retry_operation_def)

definition retry_entry :: "nat \<Rightarrow> int \<Rightarrow> nat option \<Rightarrow> entry_status \<Rightarrow> semantic_entry" where
  "retry_entry n deadline pr st = \<lparr>se_correlationKey = retry_key, se_deadlineMs = deadline, se_meaningKey = retry_meaning,
     se_order = n, se_promise = pr, se_status = st\<rparr>"

abbreviation retry_start :: "string ledger_system" where
  "retry_start \<equiv> new_ledger_system retry_ledger 0"

definition retry_first :: "nat option \<Rightarrow> entry_status \<Rightarrow> semantic_ledger" where
  "retry_first pr st = retry_ledger\<lparr>gl_nextOrder := 2, gl_activeEntries := [(retry_key, retry_entry 1 100 pr st)]\<rparr>"

lemma retry_execute1: "executeMutating retry_digest 10 (retry_operation ''t'' 100) retry_payload retry_ledger =
    Inr (HandlerCalled 1 pf, retry_first None EntryPending)"
  if "execution_keys retry_digest (retry_operation ''t'' 100) retry_payload = Inr (pf, retry_key, retry_meaning)"
    "ep_identity pf = retry_operation ''t'' 100"
  using that
  by (simp add: retry_ledger_def executeMutating_def
      pruneExpiredTombstones_def start_entry_def reserveActiveCapacity_def pruneAt_def js_values_def entry_for_def
      log_after_def retry_first_def retry_entry_def)

lemma retry_step1: "ledger_exec retry_digest retry_start (ExecuteMutating 10 (retry_operation ''t'' 100) retry_payload) =
    Inr (retry_start\<lparr>ly_ledger := retry_first None EntryPending, ly_now := 10,
      ly_started := [(1, retry_operation ''t'' 100, retry_payload, 10)], ly_running := [1]\<rparr>)"
proof -
  obtain pf where pf: "execution_keys retry_digest (retry_operation ''t'' 100) retry_payload = Inr (pf, retry_key, retry_meaning)"
    "ep_identity pf = retry_operation ''t'' 100" using retry_execution_keys by blast
  show ?thesis
    by (simp add: ledger_exec_def new_ledger_system_def retry_execute1 [OF pf] log_after_def)
qed

lemma retry_key_of_order: "key_of_order retry_digest [(1, retry_operation ''t'' 100, retry_payload, 10)] 1 = retry_key"
proof -
  obtain pf where "execution_keys retry_digest (retry_operation ''t'' 100) retry_payload = Inr (pf, retry_key, retry_meaning)"
    using retry_execution_keys by blast
  then show ?thesis by (simp add: key_of_order_def operation_keys_def)
qed

lemma retry_run3: "retry_run 3 = retry_start\<lparr>ly_ledger := retry_first (Some 1) EntryCompleted, ly_now := 20,
      ly_started := [(1, retry_operation ''t'' 100, retry_payload, 10)], ly_settled := [(1, Completed ''r'', 20)]\<rparr>"
  by (simp add: retry_events_def apply_command_def retry_step1, simp add: ledger_exec_def retry_key_of_order [simplified]
      assign_promise_def handler_returned_def entry_of_def put_entry_def settle_def retry_first_def retry_ledger_def
      retry_entry_def new_ledger_system_def)

definition retry_second :: "semantic_ledger" where
  "retry_second = retry_ledger\<lparr>gl_nextOrder := 2, gl_tombstones := [(retry_key,
     \<lparr>st_correlationKey = retry_key, st_expiresAtMs = 7600000, st_meaningKey = retry_meaning\<rparr>)]\<rparr>"

lemma retry_prune: "snd (pruneAt 4000000 (retry_first (Some 1) EntryCompleted)) = retry_second"
  by (simp add: pruneAt_def pruneExpiredTombstones_def retry_first_def retry_second_def retry_ledger_def retry_entry_def
      js_values_def moveActiveEntryToTombstone_def Let_def)

lemma retry_execute2: "executeMutating retry_digest 8000000 (retry_operation ''t'' 8000100) retry_payload retry_second =
    Inr (HandlerCalled 2 pf, retry_ledger\<lparr>gl_nextOrder := 3, gl_activeEntries := [(retry_key, retry_entry 2 8000100 None EntryPending)]\<rparr>)"
  if "execution_keys retry_digest (retry_operation ''t'' 8000100) retry_payload = Inr (pf, retry_key, retry_meaning)"
    "ep_identity pf = retry_operation ''t'' 8000100"
  using that
  by (simp add: retry_second_def retry_ledger_def executeMutating_def
      pruneExpiredTombstones_def start_entry_def reserveActiveCapacity_def pruneAt_def js_values_def entry_for_def
      log_after_def retry_first_def retry_entry_def)

lemma retry_run_log: "ly_started (retry_run 5) =
    [(2, retry_operation ''t'' 8000100, retry_payload, 8000000), (1, retry_operation ''t'' 100, retry_payload, 10)]"
proof -
  obtain pf where pf: "execution_keys retry_digest (retry_operation ''t'' 8000100) retry_payload = Inr (pf, retry_key, retry_meaning)"
    "ep_identity pf = retry_operation ''t'' 8000100" using retry_execution_keys by blast
  have "retry_run 5 = run_commands (ledger_exec retry_digest) (retry_run 3) (drop 3 retry_events)"
    by (simp add: retry_events_def)
  also have "ly_started \<dots> = [(2, retry_operation ''t'' 8000100, retry_payload, 8000000), (1, retry_operation ''t'' 100, retry_payload, 10)]"
    by (simp only: retry_run3) (simp add: retry_events_def apply_command_def ledger_exec_def retry_prune
      retry_execute2 [OF pf] log_after_def new_ledger_system_def del: One_nat_def)
  finally show ?thesis .
qed


section \<open>The properties\<close>

lemma parsed_finite: "parseGatewaySemanticJsonValue x = Inr v \<Longrightarrow> finite_json v"
proof (induction x arbitrary: v rule: parseGatewaySemanticJsonValue.induct)
  case (5 vs)
  have "list_all finite_json items" if "result_list (map parseGatewaySemanticJsonValue us) = Inr items" "set us \<subseteq> set vs"
    for us items using that
  proof (induction us arbitrary: items)
    case (Cons u us)
    then show ?case using "5.IH" [of u] by (fastforce simp: result_simps)
  qed auto
  with "5.prems" show ?case by (auto simp: result_simps)
next
  case (6 es)
  let ?f = "\<lambda>(key, item). if item = JsUndefined then Inl RejectsUndefinedObjectValues
      else result_bind (parseGatewaySemanticJsonValue item) (\<lambda>parsed. Inr (key, parsed))"
  have "list_all (\<lambda>(key, item). finite_json item) entries"
    if "result_list (map ?f us) = Inr entries" "set us \<subseteq> set es" for us entries using that
  proof (induction us arbitrary: entries)
    case (Cons u us)
    obtain key item where u: "u = (key, item)" by (cases u)
    from Cons.prems(1) obtain e rest where e: "?f u = Inr e"
      and rest: "result_list (map ?f us) = Inr rest" "entries = e # rest"
      unfolding list.map result_list.simps result_bind_Inr_iff by blast
    from e u have "item \<noteq> JsUndefined" by auto
    with e u obtain parsed where parsed: "parseGatewaySemanticJsonValue item = Inr parsed" "e = (key, parsed)"
      by (auto simp: result_bind_Inr_iff)
    have "u \<in> set es" using Cons.prems(2) by simp
    then have "finite_json parsed" using u \<open>item \<noteq> JsUndefined\<close> parsed(1) by (rule "6.IH" [OF _ sym])
    moreover from Cons.IH [OF rest(1)] Cons.prems(2) have "list_all (\<lambda>(key, item). finite_json item) rest" by simp
    ultimately show ?case by (simp add: rest(2) parsed(2))
  qed auto
  moreover from "6.prems" obtain entries where "result_list (map ?f es) = Inr entries" "v = JObject entries"
    unfolding parseGatewaySemanticJsonValue.simps result_bind_Inr_iff by blast
  ultimately show ?case by simp
qed (auto split: if_splits)

text \<open>
  C29: The canonical JSON text determines the value: two values have the same text exactly when they agree up to the order of object keys and the sign of zero. Canonicalization fails exactly on values with a non-finite number, and never on a parsed value.
\<close>

theorem canonical_json_exact:
  "(canonicalizeJsonValue v = canonicalizeJsonValue w \<longleftrightarrow>
     (if finite_json v \<and> finite_json w then canonical_form v = canonical_form w
      else \<not> finite_json v \<and> \<not> finite_json w)) \<and>
   (canonicalizeJsonValue v = Inl e \<longleftrightarrow> \<not> finite_json v \<and> e = RejectsNonFiniteNumbers) \<and>
   \<not> (parseGatewaySemanticJsonValue x = Inr v \<and> canonicalizeJsonValue v = Inl e)"
proof -
  have "canonicalizeJsonValue v = canonicalizeJsonValue w \<longleftrightarrow>
     (if finite_json v \<and> finite_json w then canonical_form v = canonical_form w
      else \<not> finite_json v \<and> \<not> finite_json w)"
    using canonicalize_eq_iff [of v w] by (auto simp: canonicalize_render)
  moreover have "canonicalizeJsonValue v = Inl e \<longleftrightarrow> \<not> finite_json v \<and> e = RejectsNonFiniteNumbers"
    by (auto simp: canonicalize_render)
  ultimately show ?thesis using parsed_finite [of x v] by blast
qed

text \<open>
  C27: Whatever is executed, whenever handlers settle and whatever is pruned or evicted, if the handlers of two operations with the same command, Gateway, idempotency key and principal are both called, then the retention time of tombstones has passed between the two calls: within it a retried operation never runs again.
\<close>

theorem semantic_operation_runs_once:
  assumes "createGatewaySemanticResultLedger g ac aw tc tt = Inr l0"
    and "reachable (ledger_exec sha256) (\<lambda>_. True) (new_ledger_system l0 now0) sy"
    and "(n, i, p, t) \<in> set (ly_started sy)" and "(m, j, q, u) \<in> set (ly_started sy)" and "n < m"
    and "same_correlation i j"
  shows "t + default_or tt 3600000 \<le> u"
proof -
  have "runs_once (gl_tombstoneTtlMs l0) (ly_started sy)"
    using reachable_ledger [OF assms(1,2)] by (simp add: ledger_inv_def)
  with assms(3-) have "t + gl_tombstoneTtlMs l0 \<le> u" unfolding runs_once_def by blast
  then show ?thesis by (simp add: created_ledger(2) [OF assms(1)])
qed

theorem semantic_operation_runs_once_witness:
  "(10::int) + default_or None 3600000 \<le> 8000000"
proof -
  show ?thesis
    by (rule semantic_operation_runs_once [OF retry_ledger_created retry_run_reachable [of 5], unfolded retry_run_log,
          where n = 1 and m = 2 and i = "retry_operation ''t'' 100" and j = "retry_operation ''t'' 8000100"
            and p = retry_payload and q = retry_payload])
      (simp_all add: same_correlation_def retry_operation_def)
qed



end
