(* ===== verification/IsoDate.thy ===== *)
theory IsoDate
  imports Principal
begin

text \<open>
  The dates of the approval records: \<open>new Date(t).toISOString()\<close> and \<open>Date.parse\<close>
  on the strings the schema \<open>z.string().datetime()\<close> lets through. A time is in
  milliseconds; \<open>toISOString\<close> throws outside the range of \<open>Date\<close>, and a string
  that does not parse is \<open>NaN\<close>.
\<close>

section \<open>The calendar\<close>

text \<open>Days since 1970 to a date of the Gregorian calendar, counted in years that begin in March.\<close>

definition year_of_era :: "int \<Rightarrow> int" where
  "year_of_era doe = (doe - doe div 1460 + doe div 36524 - doe div 146096) div 365"

definition day_of_year :: "int \<Rightarrow> int" where
  "day_of_year doe = (let yoe = year_of_era doe in doe - (365 * yoe + yoe div 4 - yoe div 100))"

definition civil_from_days :: "int \<Rightarrow> int \<times> int \<times> int" where
  "civil_from_days days =
     (let z = days + 719468; doe = z mod 146097; doy = day_of_year doe; mp = (5 * doy + 2) div 153;
          d = doy - (153 * mp + 2) div 5 + 1; m = (if mp < 10 then mp + 3 else mp - 9)
      in (year_of_era doe + (z div 146097) * 400 + (if m \<le> 2 then 1 else 0), m, d))"

definition days_from_civil :: "int \<Rightarrow> int \<Rightarrow> int \<Rightarrow> int" where
  "days_from_civil y m d =
     (let y' = (if m \<le> 2 then y - 1 else y); yoe = y' mod 400; mp = (if 2 < m then m - 3 else m + 9)
      in (y' div 400) * 146097 + (yoe * 365 + yoe div 4 - yoe div 100 + ((153 * mp + 2) div 5 + d - 1)) - 719468)"

section \<open>Numbers of a fixed width\<close>

fun padded :: "nat \<Rightarrow> nat \<Rightarrow> string" where
  "padded 0 n = []"
| "padded (Suc k) n = padded k (n div 10) @ [digit_char (n mod 10)]"

definition digit_of :: "char \<Rightarrow> nat option" where
  "digit_of c = (let n = of_char c :: nat in if 48 \<le> n \<and> n \<le> 57 then Some (n - 48) else None)"

fun number_from :: "nat \<Rightarrow> string \<Rightarrow> nat option" where
  "number_from n [] = Some n"
| "number_from n (c # cs) = (case digit_of c of None \<Rightarrow> None | Some d \<Rightarrow> number_from (10 * n + d) cs)"

section \<open>Dates as text\<close>

definition year_text :: "int \<Rightarrow> string" where
  "year_text y = (if 0 \<le> y \<and> y \<le> 9999 then padded 4 (nat y)
     else if y < 0 then CHR ''-'' # padded 6 (nat (- y)) else CHR ''+'' # padded 6 (nat y))"

definition toISOString :: "int \<Rightarrow> string option" where
  "toISOString t =
     (if 8640000000000000 < \<bar>t\<bar> then None
      else let (y, m, d) = civil_from_days (t div 86400000); ms = nat (t mod 86400000)
        in Some (year_text y @ ''-'' @ padded 2 (nat m) @ ''-'' @ padded 2 (nat d) @ ''T'' @
             padded 2 (ms div 3600000) @ '':'' @ padded 2 (ms div 60000 mod 60) @ '':'' @
             padded 2 (ms div 1000 mod 60) @ ''.'' @ padded 3 (ms mod 1000) @ ''Z''))"

text \<open>The seconds, the fraction and the \<open>Z\<close> are what follows the minutes; the fraction is cut to milliseconds.\<close>

definition fraction_ms :: "string \<Rightarrow> nat option" where
  "fraction_ms fraction = (if fraction = [] then None else
     case number_from 0 fraction of None \<Rightarrow> None
     | Some _ \<Rightarrow> number_from 0 (take 3 (fraction @ ''00'')))"

definition seconds_ms :: "string \<Rightarrow> nat option" where
  "seconds_ms s =
     (if s = ''Z'' then Some 0
      else if length s < 4 \<or> s ! 0 \<noteq> CHR '':'' \<or> last s \<noteq> CHR ''Z'' then None
      else case number_from 0 (take 2 (drop 1 s)) of
          None \<Rightarrow> None
        | Some seconds \<Rightarrow>
            if 59 < seconds then None
            else if length s = 4 then Some (1000 * seconds)
            else if s ! 3 \<noteq> CHR ''.'' then None
            else map_option (\<lambda>ms. 1000 * seconds + ms) (fraction_ms (butlast (drop 4 s))))"

definition Date_parse :: "string \<Rightarrow> int option" where
  "Date_parse s =
     (if length s < 17 \<or> s ! 4 \<noteq> CHR ''-'' \<or> s ! 7 \<noteq> CHR ''-'' \<or> s ! 10 \<noteq> CHR ''T'' \<or> s ! 13 \<noteq> CHR '':'' then None
      else case (number_from 0 (take 4 s), number_from 0 (take 2 (drop 5 s)), number_from 0 (take 2 (drop 8 s)),
             number_from 0 (take 2 (drop 11 s)), number_from 0 (take 2 (drop 14 s)), seconds_ms (drop 16 s)) of
          (Some y, Some m, Some d, Some hour, Some minute, Some ms) \<Rightarrow>
            if m < 1 \<or> 12 < m \<or> d < 1 \<or> 31 < d \<or> 23 < hour \<or> 59 < minute then None
            else Some (days_from_civil (int y) (int m) (int d) * 86400000 + int hour * 3600000 + int minute * 60000 + int ms)
        | _ \<Rightarrow> None)"

section \<open>Parsing what was printed\<close>

text \<open>A day of an era lies in a century, a group of four years, a year of the group and a day of the year.\<close>

lemma era_day_split:
  fixes doe :: int
  assumes "0 \<le> doe" and "doe < 146097"
  obtains c q y r where "doe = 36524 * c + 1461 * q + 365 * y + r" and "0 \<le> c" "c \<le> 3" "0 \<le> q" "q \<le> 24"
    "0 \<le> y" "y \<le> 3" "0 \<le> r" "r \<le> 365" "r = 365 \<Longrightarrow> y = 3" "36524 * c + 36524 = doe \<Longrightarrow> c = 3 \<and> q = 24 \<and> y = 3 \<and> r = 365"
    "doe \<le> 36524 * c + 36524"
proof -
  define c where "c = min 3 (doe div 36524)"
  define d where "d = doe - 36524 * c"
  define q where "q = d div 1461"
  define e where "e = d mod 1461"
  define y where "y = min 3 (e div 365)"
  define r where "r = e - 365 * y"
  have c: "0 \<le> c" "c \<le> 3" using assms by (simp_all add: c_def)
  have "0 \<le> d" "d \<le> 36524" "d = 36524 \<longrightarrow> c = 3" using assms by (auto simp: d_def c_def min_def)
  then have q: "0 \<le> q" "q \<le> 24" and d: "d = 1461 * q + e" and e: "0 \<le> e" "e \<le> 1460"
    by (auto simp: q_def e_def)
  have y: "0 \<le> y" "y \<le> 3" and r: "0 \<le> r" "r \<le> 365" "r = 365 \<longrightarrow> y = 3" and ey: "e = 365 * y + r"
  proof -
    show "e = 365 * y + r" by (simp add: r_def)
    show "y \<le> 3" by (simp add: y_def)
    show "0 \<le> y" using e by (simp add: y_def)
    have "0 \<le> r \<and> r \<le> 365 \<and> (r = 365 \<longrightarrow> y = 3)"
    proof (cases "e = 1460")
      case True
      then show ?thesis by (simp add: y_def r_def)
    next
      case False
      with e have "e div 365 \<le> 3" by simp
      then have "y = e div 365" by (simp add: y_def)
      then have "r = e mod 365" by (simp add: r_def minus_mult_div_eq_mod)
      then have "0 \<le> r" "r < 365" by simp_all
      then show ?thesis by simp
    qed
    then show "0 \<le> r" "r \<le> 365" "r = 365 \<longrightarrow> y = 3" by blast+
  qed
  have doe: "doe = 36524 * c + 1461 * q + 365 * y + r" using d ey by (simp add: d_def)
  have last: "c = 3 \<and> q = 24 \<and> y = 3 \<and> r = 365" if "36524 * c + 36524 = doe"
  proof -
    from that have "d = 36524" by (simp add: d_def)
    with \<open>d = 36524 \<longrightarrow> c = 3\<close> have "c = 3" "q = 24" "e = 1460" by (simp_all add: q_def e_def)
    then show ?thesis by (simp add: y_def r_def)
  qed
  have "doe \<le> 36524 * c + 36524" using \<open>d \<le> 36524\<close> by (simp add: d_def)
  note last_le = this
  show thesis by (rule that [OF doe c q y r(1,2) _ last last_le]) (use r in simp_all)
qed

lemma era_day:
  assumes "0 \<le> doe" and "doe < 146097"
  shows "0 \<le> year_of_era doe \<and> year_of_era doe \<le> 399 \<and> 0 \<le> day_of_year doe \<and> day_of_year doe \<le> 365"
proof -
  obtain c q y r where doe: "doe = 36524 * c + 1461 * q + 365 * y + r"
    and c: "0 \<le> c" "c \<le> 3" and q: "0 \<le> q" "q \<le> 24" and y: "0 \<le> y" "y \<le> 3" and r: "0 \<le> r" "r \<le> 365" "r = 365 \<Longrightarrow> y = 3"
    and last: "36524 * c + 36524 = doe \<Longrightarrow> c = 3 \<and> q = 24 \<and> y = 3 \<and> r = 365" and le: "doe \<le> 36524 * c + 36524"
    using era_day_split [OF assms] by metis
  define e where "e = (24 * c + q + 365 * y + r) div 1460"
  have a: "doe div 1460 = 25 * c + q + e"
  proof -
    have "doe = 1460 * (25 * c + q) + (24 * c + q + 365 * y + r)" using doe by simp
    then show ?thesis by (simp add: e_def)
  qed
  have centuries: "doe div 36524 - doe div 146096 = c"
  proof (cases "36524 * c + 36524 = doe")
    case True
    with last doe show ?thesis by simp
  next
    case False
    with le have lt: "doe < 36524 * c + 36524" by simp
    have ge: "36524 * c \<le> doe" using doe q y r by simp
    have "doe div 36524 = c" using lt ge by (intro int_div_pos_eq [where r = "doe - 36524 * c"]) simp_all
    moreover have "doe div 146096 = 0" using lt c assms by simp
    ultimately show ?thesis by simp
  qed
  have e: "0 \<le> r - e" "r - e \<le> 364"
  proof -
    have "0 \<le> e" "e \<le> 1" using c q y r by (auto simp: e_def)
    moreover have "e = 1 \<Longrightarrow> r \<noteq> 0"
    proof
      assume "e = 1" "r = 0"
      then have "1460 \<le> 24 * c + q + 365 * y" by (simp add: e_def)
      with c q y show False by simp
    qed
    moreover have "r = 365 \<Longrightarrow> e = 1"
    proof -
      assume "r = 365"
      with r have "y = 3" by simp
      with \<open>r = 365\<close> c q show "e = 1" by (auto simp: e_def)
    qed
    ultimately show "0 \<le> r - e" "r - e \<le> 364" using r by linarith+
  qed
  have "doe - doe div 1460 + doe div 36524 - doe div 146096 = 365 * (100 * c + 4 * q + y) + (r - e)"
    using a centuries doe by simp
  then have yoe: "year_of_era doe = 100 * c + 4 * q + y" unfolding year_of_era_def using e by simp
  have "(100 * c + 4 * q + y) div 4 = 25 * c + q"
  proof -
    have "100 * c + 4 * q + y = 4 * (25 * c + q) + y" by simp
    then show ?thesis using y by simp
  qed
  moreover have "(100 * c + 4 * q + y) div 100 = c" using c q y by simp
  ultimately have "day_of_year doe = r" unfolding day_of_year_def Let_def yoe using doe by simp
  with yoe c q y r show ?thesis by simp
qed

section \<open>Dates read back\<close>

lemma days_from_civil_from_days: "case civil_from_days z of (y, m, d) \<Rightarrow>
    days_from_civil y m d = z \<and> 1 \<le> m \<and> m \<le> 12 \<and> 1 \<le> d \<and> d \<le> 31"
proof -
  define doe where "doe = (z + 719468) mod 146097"
  define era where "era = (z + 719468) div 146097"
  define doy where "doy = day_of_year doe"
  define mp where "mp = (5 * doy + 2) div 153"
  have doe: "0 \<le> doe" "doe < 146097" by (simp_all add: doe_def)
  note bounds = era_day [OF doe]
  from bounds have doy: "0 \<le> doy" "doy \<le> 365" by (simp_all add: doy_def)
  have mp: "0 \<le> mp" "mp \<le> 11" using doy by (auto simp: mp_def)
  define m where "m = (if mp < 10 then mp + 3 else mp - 9)"
  define y where "y = year_of_era doe + era * 400 + (if m \<le> 2 then 1 else 0)"
  define d where "d = doy - (153 * mp + 2) div 5 + 1"
  have civil: "civil_from_days z = (y, m, d)"
    by (simp add: civil_from_days_def Let_def doe_def era_def doy_def mp_def m_def y_def d_def)
  have m: "1 \<le> m" "m \<le> 12" "(if 2 < m then m - 3 else m + 9) = mp" using mp by (auto simp: m_def)
  have d: "1 \<le> d" "d \<le> 31"
  proof -
    define k where "k = (153 * mp + 2) div 5"
    have "5 * k \<le> 153 * mp + 2" "153 * mp + 2 < 5 * k + 5" by (simp_all add: k_def)
    moreover have "153 * mp \<le> 5 * doy + 2" "5 * doy + 2 < 153 * mp + 153" by (simp_all add: mp_def)
    ultimately have "0 \<le> doy - k" "doy - k \<le> 30" by linarith+
    then show "1 \<le> d" "d \<le> 31" by (simp_all add: d_def k_def)
  qed
  have y': "(if m \<le> 2 then y - 1 else y) = year_of_era doe + era * 400" by (simp add: y_def)
  have "(year_of_era doe + era * 400) mod 400 = year_of_era doe" and "(year_of_era doe + era * 400) div 400 = era"
    using bounds by simp_all
  then have "days_from_civil y m d = era * 146097 + (year_of_era doe * 365 + year_of_era doe div 4 - year_of_era doe div 100
      + ((153 * mp + 2) div 5 + d - 1)) - 719468"
    unfolding days_from_civil_def Let_def y' m(3) by simp
  also have "\<dots> = era * 146097 + doe - 719468" by (simp add: d_def doy_def day_of_year_def Let_def)
  also have "\<dots> = z" using div_mult_mod_eq [of "z + 719468" 146097] by (simp add: era_def doe_def)
  finally show ?thesis using civil m d by simp
qed

lemma length_padded [simp]: "length (padded k n) = k"
  by (induction k n rule: padded.induct) simp_all

lemma number_from_append:
  "number_from n (xs @ ys) = (case number_from n xs of None \<Rightarrow> None | Some k \<Rightarrow> number_from k ys)"
  by (induction n xs rule: number_from.induct) (simp_all split: option.split)

lemma digit_of_digit_char: "d < 10 \<Longrightarrow> digit_of (digit_char d) = Some d"
  by (simp add: digit_of_def digit_char_def Let_def)

lemma number_from_padded: "n < 10 ^ k \<Longrightarrow> number_from 0 (padded k n) = Some n"
proof (induction k n rule: padded.induct)
  case (2 k n)
  then have "n div 10 < 10 ^ k" by (simp add: less_mult_imp_div_less mult.commute)
  with 2 show ?case by (simp add: number_from_append digit_of_digit_char)
qed simp

lemma digit_char_not_Z [simp]: "d < 10 \<Longrightarrow> digit_char d \<noteq> CHR ''Z''"
  using digit_of_digit_char [of d] by (auto simp: digit_of_def)

lemma civil_year_bounds:
  assumes "0 \<le> z" and "z < 2932532" and "civil_from_days z = (y, m, d)"
  shows "0 \<le> y \<and> y \<le> 9999"
proof -
  define doe where "doe = (z + 719468) mod 146097"
  define era where "era = (z + 719468) div 146097"
  have doe: "0 \<le> doe" "doe < 146097" by (simp_all add: doe_def)
  have era: "0 \<le> era" "era \<le> 24" using assms by (simp_all add: era_def)
  have "z + 719468 = 146097 * era + doe" by (simp add: era_def doe_def)
  then have last: "era = 24 \<Longrightarrow> doe \<le> 145671" using assms by simp
  have early: "year_of_era doe \<le> 398" if "doe \<le> 145671"
  proof -
    have "doe - doe div 1460 + doe div 36524 - doe div 146096 < 145635"
    proof (cases "doe < 145635")
      case True
      moreover have "doe div 36524 \<le> doe div 1460" using doe by (intro zdiv_mono2) simp_all
      moreover have "0 \<le> doe div 146096" using doe by simp
      ultimately show ?thesis by linarith
    next
      case False
      then have "99 \<le> doe div 1460" by simp
      moreover have "doe div 36524 \<le> 3" "0 \<le> doe div 146096" using that doe by simp_all
      ultimately show ?thesis using that by linarith
    qed
    then show ?thesis by (simp add: year_of_era_def)
  qed
  have "y = year_of_era doe + era * 400 \<or> y = year_of_era doe + era * 400 + 1"
    using assms(3) by (auto simp: civil_from_days_def Let_def doe_def era_def split: if_splits)
  then show ?thesis using era_day [OF doe] era last early by (cases "era = 24") auto
qed

text \<open>A date of the years 1970 to 9998 is read back exactly.\<close>

lemma Date_parse_toISOString:
  assumes "0 \<le> t" and "t < 253370764800000" and "toISOString t = Some s"
  shows "Date_parse s = Some t"
proof -
  obtain y m d where civil: "civil_from_days (t div 86400000) = (y, m, d)" by (metis prod_cases3)
  with days_from_civil_from_days [of "t div 86400000"]
  have days: "days_from_civil y m d = t div 86400000" and m: "1 \<le> m" "m \<le> 12" and d: "1 \<le> d" "d \<le> 31" by simp_all
  have "0 \<le> t div 86400000" "t div 86400000 < 2932532" using assms(1,2) by simp_all
  from civil_year_bounds [OF this civil] have y: "0 \<le> y" "y \<le> 9999" by simp_all
  define ms where "ms = nat (t mod 86400000)"
  have ms: "ms < 86400000" by (simp add: ms_def nat_less_iff)
  have s: "s = padded 4 (nat y) @ ''-'' @ padded 2 (nat m) @ ''-'' @ padded 2 (nat d) @ ''T'' @
             padded 2 (ms div 3600000) @ '':'' @ padded 2 (ms div 60000 mod 60) @ '':'' @
             padded 2 (ms div 1000 mod 60) @ ''.'' @ padded 3 (ms mod 1000) @ ''Z''"
    using assms civil y by (simp add: toISOString_def Let_def ms_def year_text_def split: if_splits)
  have parts: "s ! 4 = CHR ''-''" "s ! 7 = CHR ''-''" "s ! 10 = CHR ''T''" "s ! 13 = CHR '':''" "length s = 24"
    "take 4 s = padded 4 (nat y)" "take 2 (drop 5 s) = padded 2 (nat m)" "take 2 (drop 8 s) = padded 2 (nat d)"
    "take 2 (drop 11 s) = padded 2 (ms div 3600000)" "take 2 (drop 14 s) = padded 2 (ms div 60000 mod 60)"
    "drop 16 s = '':'' @ padded 2 (ms div 1000 mod 60) @ ''.'' @ padded 3 (ms mod 1000) @ ''Z''"
    unfolding s by (simp_all add: nth_append)
  have seconds: "seconds_ms (drop 16 s) = Some (1000 * (ms div 1000 mod 60) + ms mod 1000)"
  proof -
    have "padded 3 (ms mod 1000) \<noteq> []" using length_padded [of 3 "ms mod 1000"] by force
    moreover have "\<not> 59 < ms div 1000 mod 60" by simp
    ultimately show ?thesis
      unfolding parts by (simp add: seconds_ms_def nth_append number_from_padded fraction_ms_def butlast_append)
  qed
  have "number_from 0 (padded 2 (ms div 3600000)) = Some (ms div 3600000)" using ms by (intro number_from_padded) simp
  moreover have "number_from 0 (padded 2 (ms div 60000 mod 60)) = Some (ms div 60000 mod 60)" by (intro number_from_padded) simp
  moreover have "number_from 0 (padded 4 (nat y)) = Some (nat y)" using y by (intro number_from_padded) simp
  moreover have "number_from 0 (padded 2 (nat m)) = Some (nat m)" using m by (intro number_from_padded) simp
  moreover have "number_from 0 (padded 2 (nat d)) = Some (nat d)" using d by (intro number_from_padded) simp
  moreover have "\<not> nat m < 1" "\<not> 12 < nat m" "\<not> nat d < 1" "\<not> 31 < nat d" using m d by linarith+
  moreover have "\<not> 23 < ms div 3600000" "\<not> 59 < ms div 60000 mod 60" using ms by simp_all
  ultimately have "Date_parse s = Some (days_from_civil y m d * 86400000 + int (ms div 3600000) * 3600000
      + int (ms div 60000 mod 60) * 60000 + int (1000 * (ms div 1000 mod 60) + ms mod 1000))"
    using y m d by (simp add: Date_parse_def parts(1-10) seconds)
  moreover have "days_from_civil y m d * 86400000 + int (ms div 3600000) * 3600000
      + int (ms div 60000 mod 60) * 60000 + int (1000 * (ms div 1000 mod 60) + ms mod 1000) = t"
  proof -
    have "ms = ms div 3600000 * 3600000 + ms div 60000 mod 60 * 60000 + (1000 * (ms div 1000 mod 60) + ms mod 1000)"
    proof -
      have "ms div 60000 = ms div 1000 div 60" "ms div 3600000 = ms div 60000 div 60" by (simp_all flip: div_mult2_eq)
      moreover have "ms = 1000 * (ms div 1000) + ms mod 1000" by simp
      moreover have "ms div 1000 = 60 * (ms div 1000 div 60) + ms div 1000 mod 60" by simp
      moreover have "ms div 60000 = 60 * (ms div 60000 div 60) + ms div 60000 mod 60" by simp
      ultimately show ?thesis by linarith
    qed
    moreover have "int ms = t mod 86400000" by (simp add: ms_def)
    moreover have "t div 86400000 * 86400000 + t mod 86400000 = t" by simp
    ultimately show ?thesis unfolding days by linarith
  qed
  ultimately show ?thesis by simp
qed

end
