(* ===== verification/ApprovalContracts.thy ===== *)
theory ApprovalContracts
  imports SemanticJson IsoDate
begin

text \<open>
  gateway-control-contracts/src/gateway-runtime-approval.ts and the record types of
  controller/approval/controller-approval-ledger.ts: what an approval is about, the fingerprint
  that identifies it and the record the controller keeps of it.

  Dates are ISO strings, as \<open>toISOString\<close> prints them. A JSON object is an association list.
  \<open>String.localeCompare\<close> depends on the locale and SHA-256 comes from \<open>node:crypto\<close>: both are fields of the
  configuration, as is what the schemas of the zod library accept.
\<close>

section \<open>What is approved\<close>

record authority_context =
  at_controllerEpoch :: string
  at_frameworkEpoch :: string
  at_gatewayEpoch :: string
  at_runtimeEpoch :: string
  at_zoneId :: string

datatype backend_kind = McpProvider | ControllerExecution | ToolVmRunner

record semantic_revisions =
  sv_activeRevision :: string
  sv_bindingRevision :: string
  sv_catalogRevision :: string
  sv_profilePolicyRevision :: string
  sv_providerRevision :: string
  sv_schemaRevision :: string

record approval_call =
  cl_arguments :: "(string \<times> json) list"
  cl_id :: string
  cl_name :: string
  cl_namespace :: string

record trusted_context =
  tc_correlation :: "(string \<times> json) list option"
  tc_principal :: principal
  tc_requester :: "string option"

record challenge_intent =
  in_managedGoogle :: "(string \<times> json) list option"
  in_backendKind :: backend_kind
  in_call :: approval_call
  in_operationId :: string
  in_semanticRevisions :: semantic_revisions
  in_surfaceClass :: string
  in_trustedContext :: trusted_context

record approval_challenge =
  ch_approvalId :: string
  ch_createdAt :: string
  ch_expiresAt :: string
  ch_fingerprint :: string
  ch_intent :: challenge_intent

text \<open>The binding revision is present exactly for the backend \<open>controller_execution\<close>.\<close>

record dispatch_authority =
  da_approvalId :: string
  da_authorityContext :: authority_context
  da_backendKind :: backend_kind
  da_bindingRevision :: "string option"
  da_expiresAt :: string
  da_fingerprint :: string
  da_operationId :: string
  da_stablePrincipal :: string

record dispatch_reservation = dispatch_authority +
  dr_reservationId :: string

record dispatch_grant = dispatch_authority +
  gr_grantId :: string

section \<open>Fingerprints\<close>

function canonicalApprovalJson :: "(string \<Rightarrow> string \<Rightarrow> int) \<Rightarrow> json \<Rightarrow> canonical_error + string" where
  "canonicalApprovalJson localeCompare JNull = Inr ''null''"
| "canonicalApprovalJson localeCompare (JBoolean b) = Inr (if b then ''true'' else ''false'')"
| "canonicalApprovalJson localeCompare (JString s) = Inr (json_quote s)"
| "canonicalApprovalJson localeCompare (JNumber n) =
     (case n of NotFinite \<Rightarrow> Inl RejectsNonFiniteNumbers | NegativeZero \<Rightarrow> Inr (int_text 0)
      | IntegerNumber i \<Rightarrow> Inr (int_text i))"
| "canonicalApprovalJson localeCompare (JArray items) =
     result_bind (result_list (map (canonicalApprovalJson localeCompare) items)) (\<lambda>ts.
     Inr (''['' @ comma_join ts @ '']''))"
| "canonicalApprovalJson localeCompare (JObject es) =
     result_bind (result_list (map (\<lambda>(fieldName, fieldValue).
         result_bind (canonicalApprovalJson localeCompare fieldValue) (\<lambda>t. Inr (json_quote fieldName @ '':'' @ t)))
       (js_sort (\<lambda>l r. localeCompare (fst l) (fst r)) es))) (\<lambda>ts.
     Inr (''{'' @ comma_join ts @ ''}''))"
  by pat_completeness auto

termination
  by (relation "measure (\<lambda>(_, v). size v)") (auto dest: entry_size simp: less_Suc_eq_le size_list_estimation')

definition optional_field :: "string \<Rightarrow> json option \<Rightarrow> (string \<times> json) list" where
  "optional_field name v = (case v of None \<Rightarrow> [] | Some x \<Rightarrow> [(name, x)])"

definition authority_json :: "authority_context \<Rightarrow> json" where
  "authority_json a = JObject
     [(''controllerEpoch'', JString (at_controllerEpoch a)), (''frameworkEpoch'', JString (at_frameworkEpoch a)),
      (''gatewayEpoch'', JString (at_gatewayEpoch a)), (''runtimeEpoch'', JString (at_runtimeEpoch a)),
      (''zoneId'', JString (at_zoneId a))]"

definition backend_name :: "backend_kind \<Rightarrow> string" where
  "backend_name b = (case b of McpProvider \<Rightarrow> ''mcp_provider'' | ControllerExecution \<Rightarrow> ''controller_execution''
     | ToolVmRunner \<Rightarrow> ''tool_vm_runner'')"

definition revisions_json :: "semantic_revisions \<Rightarrow> json" where
  "revisions_json r = JObject
     [(''activeRevision'', JString (sv_activeRevision r)), (''bindingRevision'', JString (sv_bindingRevision r)),
      (''catalogRevision'', JString (sv_catalogRevision r)),
      (''profilePolicyRevision'', JString (sv_profilePolicyRevision r)),
      (''providerRevision'', JString (sv_providerRevision r)), (''schemaRevision'', JString (sv_schemaRevision r))]"

definition call_json :: "approval_call \<Rightarrow> json" where
  "call_json c = JObject [(''arguments'', JObject (cl_arguments c)), (''id'', JString (cl_id c)),
     (''name'', JString (cl_name c)), (''namespace'', JString (cl_namespace c))]"

definition principal_json :: "principal \<Rightarrow> json" where
  "principal_json p = JObject
     [(''agentId'', JString (pr_agentId p)),
      (''frameworkIdentity'', JObject [(''kind'', JString (fi_kind (pr_frameworkIdentity p))),
         (''profileName'', JString (fi_profileName (pr_frameworkIdentity p)))]),
      (''profileAssignmentRevision'', JString (pr_profileAssignmentRevision p)),
      (''toolPortalProfileId'', JString (pr_toolPortalProfileId p))]"

definition trusted_json :: "trusted_context \<Rightarrow> json" where
  "trusted_json t = JObject
     (optional_field ''correlation'' (map_option JObject (tc_correlation t)) @
      [(''principal'', principal_json (tc_principal t))] @
      optional_field ''requester''
        (map_option (\<lambda>s. JObject [(''authenticatedSubjectId'', JString s)]) (tc_requester t)))"

definition intent_json :: "challenge_intent \<Rightarrow> json" where
  "intent_json i = JObject
     (optional_field ''managedGoogle'' (map_option JObject (in_managedGoogle i)) @
      [(''backendKind'', JString (backend_name (in_backendKind i))), (''call'', call_json (in_call i)),
       (''operationId'', JString (in_operationId i)),
       (''semanticRevisions'', revisions_json (in_semanticRevisions i)),
       (''surfaceClass'', JString (in_surfaceClass i)), (''trustedContext'', trusted_json (in_trustedContext i))])"

definition deriveGatewayRuntimeApprovalFingerprint :: "(string \<Rightarrow> string \<Rightarrow> int) \<Rightarrow> (string \<Rightarrow> string)
    \<Rightarrow> authority_context \<Rightarrow> challenge_intent \<Rightarrow> canonical_error + string" where
  "deriveGatewayRuntimeApprovalFingerprint localeCompare sha256 a i =
     result_bind (canonicalApprovalJson localeCompare
       (JObject [(''authorityContext'', authority_json a), (''intent'', intent_json i)])) (\<lambda>t.
     Inr (''sha256:'' @ sha256 t))"

definition hex_value :: "char \<Rightarrow> nat" where
  "hex_value c = (let n = of_char c :: nat in
     if 48 \<le> n \<and> n \<le> 57 then n - 48 else if 97 \<le> n \<and> n \<le> 102 then n - 87
     else if 65 \<le> n \<and> n \<le> 70 then n - 55 else 0)"

definition deriveGatewayRuntimeApprovalId :: "string \<Rightarrow> string" where
  "deriveGatewayRuntimeApprovalId fingerprint =
     (let hexadecimal = (take 32 (drop 7 fingerprint)) [12 := CHR ''5''];
          variantNibble = hex_value (if 16 < length hexadecimal then hexadecimal ! 16 else CHR ''0'');
          v = hexadecimal [16 := hex_char (variantNibble mod 4 + 8)]
      in take 8 v @ ''-'' @ take 4 (drop 8 v) @ ''-'' @ take 4 (drop 12 v) @ ''-'' @ take 4 (drop 16 v) @ ''-'' @ drop 20 v)"

definition reservation_json :: "dispatch_reservation \<Rightarrow> json" where
  "reservation_json r = JObject
     ([(''approvalId'', JString (da_approvalId r)), (''authorityContext'', authority_json (da_authorityContext r)),
       (''backendKind'', JString (backend_name (da_backendKind r)))] @
      optional_field ''bindingRevision'' (map_option JString (da_bindingRevision r)) @
      [(''expiresAt'', JString (da_expiresAt r)), (''fingerprint'', JString (da_fingerprint r)),
       (''operationId'', JString (da_operationId r)), (''reservationId'', JString (dr_reservationId r)),
       (''stablePrincipal'', JString (da_stablePrincipal r))])"

subsection \<open>What the canonical text distinguishes\<close>

fun approval_form :: "(string \<Rightarrow> string \<Rightarrow> int) \<Rightarrow> json \<Rightarrow> json" where
  "approval_form localeCompare (JNumber NegativeZero) = JNumber (IntegerNumber 0)"
| "approval_form localeCompare (JArray items) = JArray (map (approval_form localeCompare) items)"
| "approval_form localeCompare (JObject es) =
     JObject (js_sort (\<lambda>l r. localeCompare (fst l) (fst r)) (map (\<lambda>(key, item). (key, approval_form localeCompare item)) es))"
| "approval_form localeCompare v = v"

lemma js_sort_map:
  "(\<And>x y. cmp (f x) (f y) = cmp' x y) \<Longrightarrow> js_sort cmp (map f xs) = map f (js_sort cmp' xs)"
proof -
  assume cmp: "\<And>x y. cmp (f x) (f y) = cmp' x y"
  have insert: "js_insert cmp (f x) (map f ys) = map f (js_insert cmp' x ys)" for x ys
    by (induction ys) (simp_all add: cmp)
  have "fold (js_insert cmp) (map f xs) (map f ys) = map f (fold (js_insert cmp') xs ys)" for ys
    by (induction xs arbitrary: ys) (simp_all add: insert)
  from this [of "[]"] show ?thesis by (simp add: js_sort_def)
qed

lemma approval_canonical_render:
  "canonicalApprovalJson lc v =
     (if finite_json v then Inr (render (approval_form lc v)) else Inl RejectsNonFiniteNumbers)"
proof (induction lc v rule: canonicalApprovalJson.induct)
  case (4 lc n)
  then show ?case by (cases n) simp_all
next
  case (5 lc items)
  then have "result_list (map (canonicalApprovalJson lc) items) =
      (if list_all finite_json items then Inr (map (\<lambda>v. render (approval_form lc v)) items)
       else Inl RejectsNonFiniteNumbers)"
    by (intro result_list_map) simp
  then show ?case by (simp add: comp_def)
next
  case (6 lc es)
  let ?cmp = "\<lambda>l r :: string \<times> json. lc (fst l) (fst r)"
  let ?f = "\<lambda>(key, item). result_bind (canonicalApprovalJson lc item) (\<lambda>t. Inr (json_quote key @ '':'' @ t))"
  have "result_list (map ?f (js_sort ?cmp es)) =
      (if list_all (\<lambda>(key, item). finite_json item) (js_sort ?cmp es)
       then Inr (map (\<lambda>(key, item). json_quote key @ '':'' @ render (approval_form lc item)) (js_sort ?cmp es))
       else Inl RejectsNonFiniteNumbers)"
    by (intro result_list_map) (use 6 in \<open>fastforce split: prod.split\<close>)
  moreover have "list_all (\<lambda>(key, item). finite_json item) (js_sort ?cmp es) =
      list_all (\<lambda>(key, item). finite_json item) es" by (simp add: list_all_iff)
  moreover have "js_sort ?cmp (map (\<lambda>(key, item). (key, approval_form lc item)) es) =
      map (\<lambda>(key, item). (key, approval_form lc item)) (js_sort ?cmp es)"
    by (rule js_sort_map) (simp add: case_prod_unfold)
  ultimately show ?case by (simp add: comp_def case_prod_unfold)
qed simp_all

lemma approval_form_plain: "finite_json v \<Longrightarrow> plain_json (approval_form lc v)"
proof (induction v)
  case (JNumber n)
  then show ?case by (cases n) simp_all
qed (auto simp: list_all_iff)

lemma approval_canonical_eq_iff:
  assumes "finite_json v" and "finite_json w"
  shows "canonicalApprovalJson lc v = canonicalApprovalJson lc w \<longleftrightarrow> approval_form lc v = approval_form lc w"
  using assms render_inj [OF approval_form_plain approval_form_plain, of v w] by (auto simp: approval_canonical_render)

lemma approval_form_fields:
  assumes "approval_form lc (JObject es) = approval_form lc (JObject fs)"
    and "distinct (map fst es)" and "distinct (map fst fs)"
  shows "map_option (approval_form lc) (map_of es key) = map_option (approval_form lc) (map_of fs key)"
proof -
  let ?f = "\<lambda>(key, item). (key, approval_form lc item)"
  from assms(1) have "js_sort (\<lambda>l r. lc (fst l) (fst r)) (map ?f es) = js_sort (\<lambda>l r. lc (fst l) (fst r)) (map ?f fs)"
    by simp
  from arg_cong [OF this, of set] have "set (map ?f es) = set (map ?f fs)" by simp
  moreover have "distinct (map fst (map ?f es))" "distinct (map fst (map ?f fs))"
    using assms(2,3) by (simp_all add: comp_def case_prod_unfold)
  ultimately have "map_of (map ?f es) = map_of (map ?f fs)" using map_of_inject_set by metis
  then have "map_of (map ?f es) key = map_of (map ?f fs) key" by simp
  then show ?thesis by (simp add: js_get_map_values)
qed

definition authority_entries :: "authority_context \<Rightarrow> (string \<times> json) list" where
  "authority_entries a =
     [(''controllerEpoch'', JString (at_controllerEpoch a)), (''frameworkEpoch'', JString (at_frameworkEpoch a)),
      (''gatewayEpoch'', JString (at_gatewayEpoch a)), (''runtimeEpoch'', JString (at_runtimeEpoch a)),
      (''zoneId'', JString (at_zoneId a))]"

lemma authority_json_entries: "authority_json a = JObject (authority_entries a)"
  by (simp add: authority_entries_def authority_json_def)

lemma authority_fields:
  "distinct (map fst (authority_entries a))"
  "map_of (authority_entries a) ''controllerEpoch'' = Some (JString (at_controllerEpoch a))"
  "map_of (authority_entries a) ''frameworkEpoch'' = Some (JString (at_frameworkEpoch a))"
  "map_of (authority_entries a) ''gatewayEpoch'' = Some (JString (at_gatewayEpoch a))"
  "map_of (authority_entries a) ''runtimeEpoch'' = Some (JString (at_runtimeEpoch a))"
  "map_of (authority_entries a) ''zoneId'' = Some (JString (at_zoneId a))"
  by (simp_all add: authority_entries_def)

lemma authority_form_inj:
  fixes a b :: authority_context
  assumes "approval_form lc (authority_json a) = approval_form lc (authority_json b)"
  shows "a = b"
proof -
  note same = approval_form_fields [OF assms [unfolded authority_json_entries] authority_fields(1) authority_fields(1)]
  show ?thesis
    using same [of "''controllerEpoch''"] same [of "''frameworkEpoch''"] same [of "''gatewayEpoch''"]
      same [of "''runtimeEpoch''"] same [of "''zoneId''"]
    by (intro authority_context.equality) (simp_all add: authority_fields)
qed

lemma backend_name_inj: "backend_name b = backend_name c \<Longrightarrow> b = c"
  by (cases b; cases c) (simp_all add: backend_name_def)

definition reservation_entries :: "dispatch_reservation \<Rightarrow> (string \<times> json) list" where
  "reservation_entries r = (case reservation_json r of JObject es \<Rightarrow> es | _ \<Rightarrow> [])"

lemma reservation_json_entries: "reservation_json r = JObject (reservation_entries r)"
  by (simp add: reservation_entries_def reservation_json_def)

lemma reservation_fields:
  "distinct (map fst (reservation_entries r))"
  "map_of (reservation_entries r) ''approvalId'' = Some (JString (da_approvalId r))"
  "map_of (reservation_entries r) ''authorityContext'' = Some (authority_json (da_authorityContext r))"
  "map_of (reservation_entries r) ''backendKind'' = Some (JString (backend_name (da_backendKind r)))"
  "map_of (reservation_entries r) ''bindingRevision'' = map_option JString (da_bindingRevision r)"
  "map_of (reservation_entries r) ''expiresAt'' = Some (JString (da_expiresAt r))"
  "map_of (reservation_entries r) ''fingerprint'' = Some (JString (da_fingerprint r))"
  "map_of (reservation_entries r) ''operationId'' = Some (JString (da_operationId r))"
  "map_of (reservation_entries r) ''reservationId'' = Some (JString (dr_reservationId r))"
  "map_of (reservation_entries r) ''stablePrincipal'' = Some (JString (da_stablePrincipal r))"
  by (simp_all add: reservation_entries_def reservation_json_def optional_field_def split: option.split)

lemma reservation_form_inj:
  fixes r s :: dispatch_reservation
  assumes "approval_form lc (reservation_json r) = approval_form lc (reservation_json s)"
  shows "r = s"
proof -
  note same = approval_form_fields [OF assms [unfolded reservation_json_entries] reservation_fields(1) reservation_fields(1)]
  have "da_authorityContext r = da_authorityContext s"
    using same [of "''authorityContext''"] by (simp add: reservation_fields authority_form_inj)
  moreover have "da_backendKind r = da_backendKind s"
    using same [of "''backendKind''"] by (simp add: reservation_fields backend_name_inj)
  moreover have "da_bindingRevision r = da_bindingRevision s"
    using same [of "''bindingRevision''"]
    by (cases "da_bindingRevision r"; cases "da_bindingRevision s") (simp_all add: reservation_fields)
  ultimately show ?thesis
    using same [of "''approvalId''"] same [of "''expiresAt''"] same [of "''fingerprint''"] same [of "''operationId''"]
      same [of "''reservationId''"] same [of "''stablePrincipal''"]
    by (intro dispatch_reservation.equality) (simp_all add: reservation_fields)
qed

section \<open>The controller's records\<close>

record approval_operator =
  ao_approverId :: string
  ao_audience :: string
  ao_provenance :: string
  ao_stablePrincipal :: string

datatype decision_kind = Approve | Deny

record approval_decision =
  de_decidedAt :: string
  de_decision :: decision_kind
  de_operator :: approval_operator

record approval_revocation =
  re_operator :: approval_operator
  re_revokedAt :: string

datatype approval_phase =
  ApprovalPending
| Approved approval_decision
| Denied approval_decision
| Revoked "approval_decision option" approval_revocation
| ConsumedNotDispatched approval_decision string dispatch_reservation
| DispatchArmed approval_decision string dispatch_grant dispatch_reservation

record approval_record =
  ap_authorityContext :: authority_context
  ap_challenge :: approval_challenge
  ap_phase :: approval_phase

datatype operator_view =
  PendingView approval_challenge
| ApprovedView approval_challenge approval_decision
| DeniedView approval_challenge approval_decision
| RevokedView approval_challenge approval_revocation
| ConsumedView approval_challenge string
| ArmedView approval_challenge string

datatype not_dispatched_reason =
  ConsumedWithoutDispatch
| ReasonDenied
| ReasonExpired
| ReasonRevoked
| StaleAuthority
| StaleFingerprint

datatype 'a dispatch_answer =
  Answered 'a
| NotDispatched string not_dispatched_reason
| AmbiguousDispatch string

datatype admission_answer = ApprovalRequired approval_challenge | DispatchReserved dispatch_reservation

datatype decision_rejection =
  AlreadyDecided | DecisionExpired | DecisionNotFound | DecisionPrincipalMismatch | DecisionStaleAuthority

datatype decision_result = DecisionRecorded decision_kind operator_view | DecisionRejected decision_rejection

datatype revocation_rejection =
  AlreadyConsumed | AlreadyRevoked | RevocationExpired | RevocationNotFound | RevocationStaleAuthority

datatype revocation_result = RevocationRecorded operator_view | RevocationRejected revocation_rejection

definition operatorView :: "approval_record \<Rightarrow> operator_view" where
  "operatorView r = (case ap_phase r of
     ApprovalPending \<Rightarrow> PendingView (ap_challenge r)
   | Approved d \<Rightarrow> ApprovedView (ap_challenge r) d
   | Denied d \<Rightarrow> DeniedView (ap_challenge r) d
   | Revoked _ v \<Rightarrow> RevokedView (ap_challenge r) v
   | ConsumedNotDispatched _ consumedAt _ \<Rightarrow> ConsumedView (ap_challenge r) consumedAt
   | DispatchArmed _ armedAt _ _ \<Rightarrow> ArmedView (ap_challenge r) armedAt)"

end
