(* ===== verification/CrashDurableStore.thy ===== *)
theory CrashDurableStore
  imports Prelude
begin

text \<open>
  controller/durable-state/crash-durable-record-store.ts: records kept one per file, replaced by
  writing a temporary file, syncing it, renaming it over the record and syncing the directory.

  What \<open>node:fs\<close> does is modelled on a directory of names and a table of file contents, each
  with the part that survives a crash: a name survives once the directory is synced and a
  content once its file is. Every call takes the next element of a fault plan: it works, it
  fails (a failed write may leave any content behind) or the machine crashes during it. The
  serialization of a record and the schema that parses it are parameters. The lock of a record
  makes its mutations follow one another, so a mutation is one run.
\<close>

section \<open>Files that survive a crash\<close>

record crash_fs =
  cf_names :: "(string, nat) js_map"
  cf_durableNames :: "(string, nat) js_map"
  cf_contents :: "(nat, string) js_map"
  cf_durableContents :: "(nat, string) js_map"
  cf_nextFile :: nat

datatype fault = Works | Fails string | Crashes string

datatype fs_error =
  CallFailed_Mkdir | CallFailed_Open | CallFailed_Write | CallFailed_Sync | CallFailed_Close
| CallFailed_Rename | CallFailed_Rm | CallFailed_Read | CallFailed_Readdir
| WriteAndCleanupFailed fs_error "fs_error list"
| RenameAndCleanupFailed fs_error fs_error
| UnsafeId
| RecordInvalid
| MutationFailed string

datatype 'a outcome = Returns 'a | Throws fs_error | Crashed

type_synonym 'a fs_op = "fault list \<Rightarrow> crash_fs \<Rightarrow> 'a outcome \<times> fault list \<times> crash_fs"

definition fs_return :: "'a \<Rightarrow> 'a fs_op" where
  "fs_return x plan fs = (Returns x, plan, fs)"

definition fs_throw :: "fs_error \<Rightarrow> 'a fs_op" where
  "fs_throw e plan fs = (Throws e, plan, fs)"

definition fs_bind :: "'a fs_op \<Rightarrow> ('a \<Rightarrow> 'b fs_op) \<Rightarrow> 'b fs_op" where
  "fs_bind m f plan fs = (case m plan fs of
     (Returns x, plan', fs') \<Rightarrow> f x plan' fs'
   | (Throws e, plan', fs') \<Rightarrow> (Throws e, plan', fs')
   | (Crashed, plan', fs') \<Rightarrow> (Crashed, plan', fs'))"

definition fs_catch :: "'a fs_op \<Rightarrow> (fs_error \<Rightarrow> 'a fs_op) \<Rightarrow> 'a fs_op" where
  "fs_catch m h plan fs = (case m plan fs of
     (Throws e, plan', fs') \<Rightarrow> h e plan' fs'
   | r \<Rightarrow> r)"

text \<open>A call with its effect and with what a failure or a crash during it may leave behind.\<close>

definition fs_call :: "fs_error \<Rightarrow> (crash_fs \<Rightarrow> crash_fs) \<Rightarrow> (string \<Rightarrow> crash_fs \<Rightarrow> crash_fs) \<Rightarrow> unit fs_op" where
  "fs_call e effect broken plan fs = (case plan of
     [] \<Rightarrow> (Returns (), [], effect fs)
   | Works # plan' \<Rightarrow> (Returns (), plan', effect fs)
   | Fails s # plan' \<Rightarrow> (Throws e, plan', broken s fs)
   | Crashes s # plan' \<Rightarrow> (Crashed, plan', broken s fs))"

definition fs_mkdir :: "unit fs_op" where
  "fs_mkdir = fs_call CallFailed_Mkdir (\<lambda>fs. fs) (\<lambda>_ fs. fs)"

definition create_file :: "string \<Rightarrow> crash_fs \<Rightarrow> crash_fs" where
  "create_file path fs = fs\<lparr>cf_names := js_set path (cf_nextFile fs) (cf_names fs),
     cf_contents := js_set (cf_nextFile fs) [] (cf_contents fs), cf_nextFile := cf_nextFile fs + 1\<rparr>"

text \<open>Opening with \<open>wx\<close> creates the file and fails when the name is taken.\<close>

definition fs_open_new :: "string \<Rightarrow> nat fs_op" where
  "fs_open_new path plan fs =
     (if js_has (cf_names fs) path then fs_throw CallFailed_Open (tl plan) fs
      else fs_bind (fs_call CallFailed_Open (create_file path) (\<lambda>_ fs. fs)) (\<lambda>_. fs_return (cf_nextFile fs)) plan fs)"

definition fs_write :: "nat \<Rightarrow> string \<Rightarrow> unit fs_op" where
  "fs_write h content = fs_call CallFailed_Write
     (\<lambda>fs. fs\<lparr>cf_contents := js_set h content (cf_contents fs)\<rparr>)
     (\<lambda>garbage fs. fs\<lparr>cf_contents := js_set h garbage (cf_contents fs)\<rparr>)"

definition sync_file :: "nat \<Rightarrow> crash_fs \<Rightarrow> crash_fs" where
  "sync_file h fs = (case js_get (cf_contents fs) h of None \<Rightarrow> fs
     | Some c \<Rightarrow> fs\<lparr>cf_durableContents := js_set h c (cf_durableContents fs)\<rparr>)"

definition fs_sync :: "nat \<Rightarrow> unit fs_op" where
  "fs_sync h = fs_call CallFailed_Sync (sync_file h) (\<lambda>_ fs. fs)"

definition fs_close :: "unit fs_op" where
  "fs_close = fs_call CallFailed_Close (\<lambda>fs. fs) (\<lambda>_ fs. fs)"

definition rename_file :: "string \<Rightarrow> string \<Rightarrow> crash_fs \<Rightarrow> crash_fs" where
  "rename_file src dst fs = (case js_get (cf_names fs) src of None \<Rightarrow> fs
     | Some n \<Rightarrow> fs\<lparr>cf_names := js_set dst n (js_delete src (cf_names fs))\<rparr>)"

definition fs_rename :: "string \<Rightarrow> string \<Rightarrow> unit fs_op" where
  "fs_rename src dst = fs_call CallFailed_Rename (rename_file src dst) (\<lambda>_ fs. fs)"

definition fs_rm :: "string \<Rightarrow> unit fs_op" where
  "fs_rm path = fs_call CallFailed_Rm (\<lambda>fs. fs\<lparr>cf_names := js_delete path (cf_names fs)\<rparr>) (\<lambda>_ fs. fs)"

definition fs_open_dir :: "unit fs_op" where
  "fs_open_dir = fs_call CallFailed_Open (\<lambda>fs. fs) (\<lambda>_ fs. fs)"

definition fs_sync_dir :: "unit fs_op" where
  "fs_sync_dir = fs_call CallFailed_Sync (\<lambda>fs. fs\<lparr>cf_durableNames := cf_names fs\<rparr>) (\<lambda>_ fs. fs)"

definition read_file :: "crash_fs \<Rightarrow> string \<Rightarrow> string option" where
  "read_file fs path = (case js_get (cf_names fs) path of None \<Rightarrow> None | Some n \<Rightarrow> js_get (cf_contents fs) n)"

definition fs_read :: "string \<Rightarrow> string option fs_op" where
  "fs_read path plan fs =
     fs_bind (fs_call CallFailed_Read (\<lambda>fs. fs) (\<lambda>_ fs. fs)) (\<lambda>_. fs_return (read_file fs path)) plan fs"

section \<open>The store\<close>

definition alphanumeric :: "char \<Rightarrow> bool" where
  "alphanumeric c \<longleftrightarrow> (let n = of_char c :: nat in
     48 \<le> n \<and> n \<le> 57 \<or> 65 \<le> n \<and> n \<le> 90 \<or> 97 \<le> n \<and> n \<le> 122)"

definition assertSafeRecordId :: "string \<Rightarrow> bool" where
  "assertSafeRecordId recordId \<longleftrightarrow>
     (case recordId of [] \<Rightarrow> False
      | c # cs \<Rightarrow> alphanumeric c \<and> length cs \<le> 127 \<and>
          list_all (\<lambda>d. alphanumeric d \<or> d = CHR ''.'' \<or> d = CHR ''_'' \<or> d = CHR ''-'') cs)"

definition recordPath :: "string \<Rightarrow> string" where
  "recordPath recordId = recordId @ ''.json''"

definition temporary_path :: "string \<Rightarrow> string \<Rightarrow> string" where
  "temporary_path recordFilePath tag = recordFilePath @ ''.'' @ tag @ ''.tmp''"

definition closeAfterFailure :: "string \<Rightarrow> fs_error \<Rightarrow> unit fs_op" where
  "closeAfterFailure temporaryFilePath originalError =
     fs_bind (fs_catch (fs_bind fs_close (\<lambda>_. fs_return [])) (\<lambda>e. fs_return [e])) (\<lambda>closing.
     fs_bind (fs_catch (fs_bind (fs_rm temporaryFilePath) (\<lambda>_. fs_return [])) (\<lambda>e. fs_return [e])) (\<lambda>removing.
     if closing @ removing \<noteq> [] then fs_throw (WriteAndCleanupFailed originalError (closing @ removing))
     else fs_throw originalError))"

text \<open>The directory handle is closed whether or not the sync works; a failing close wins.\<close>

definition syncDirectory :: "unit fs_op" where
  "syncDirectory =
     fs_bind fs_open_dir (\<lambda>_.
     fs_bind (fs_catch fs_sync_dir (\<lambda>e. fs_bind fs_close (\<lambda>_. fs_throw e))) (\<lambda>_. fs_close))"

definition write_temporary :: "nat \<Rightarrow> string \<Rightarrow> string \<Rightarrow> unit fs_op" where
  "write_temporary h temporaryFilePath content =
     fs_catch (fs_bind (fs_write h content) (\<lambda>_. fs_bind (fs_sync h) (\<lambda>_. fs_close)))
       (closeAfterFailure temporaryFilePath)"

definition rename_over :: "string \<Rightarrow> string \<Rightarrow> unit fs_op" where
  "rename_over temporaryFilePath recordFilePath =
     fs_catch (fs_rename temporaryFilePath recordFilePath) (\<lambda>e.
       fs_bind (fs_catch (fs_rm temporaryFilePath) (\<lambda>cleanup. fs_throw (RenameAndCleanupFailed e cleanup))) (\<lambda>_.
       fs_throw e))"

definition persistRecord :: "string \<Rightarrow> string \<Rightarrow> string \<Rightarrow> unit fs_op" where
  "persistRecord temporaryFilePath recordFilePath content =
     fs_bind fs_mkdir (\<lambda>_.
     fs_bind (fs_open_new temporaryFilePath) (\<lambda>h.
     fs_bind (write_temporary h temporaryFilePath content) (\<lambda>_.
     fs_bind (rename_over temporaryFilePath recordFilePath) (\<lambda>_. syncDirectory))))"

record 'r record_codec =
  rc_serialize :: "'r \<Rightarrow> string"
  rc_parse :: "string \<Rightarrow> 'r option"
  rc_accepts :: "'r \<Rightarrow> bool"

definition record_text :: "'r record_codec \<Rightarrow> 'r \<Rightarrow> string" where
  "record_text codec r = rc_serialize codec r @ [CHR 0x0A]"

definition loadRecord :: "'r record_codec \<Rightarrow> string \<Rightarrow> 'r option fs_op" where
  "loadRecord codec recordId =
     (if \<not> assertSafeRecordId recordId then fs_throw UnsafeId
      else fs_bind (fs_read (recordPath recordId)) (\<lambda>text. case text of
          None \<Rightarrow> fs_return None
        | Some t \<Rightarrow> (case rc_parse codec t of None \<Rightarrow> fs_throw RecordInvalid | Some r \<Rightarrow> fs_return (Some r))))"

definition write_mutation :: "'r record_codec \<Rightarrow> string \<Rightarrow> string \<Rightarrow> 'r option \<Rightarrow> 'r option \<times> 'a \<Rightarrow> 'a fs_op" where
  "write_mutation codec tag recordId currentRecord mutation =
     (case mutation of
        (None, result) \<Rightarrow>
          if currentRecord \<noteq> None
          then fs_bind (fs_rm (recordPath recordId)) (\<lambda>_. fs_bind syncDirectory (\<lambda>_. fs_return result))
          else fs_return result
      | (Some nextRecord, result) \<Rightarrow>
          if \<not> rc_accepts codec nextRecord then fs_throw RecordInvalid
          else fs_bind (persistRecord (temporary_path (recordPath recordId) tag) (recordPath recordId)
                 (record_text codec nextRecord)) (\<lambda>_. fs_return result))"

definition store_mutateRecord :: "'r record_codec \<Rightarrow> string \<Rightarrow> string
    \<Rightarrow> ('r option \<Rightarrow> fs_error + ('r option \<times> 'a)) \<Rightarrow> 'a fs_op" where
  "store_mutateRecord codec tag recordId mutate =
     (if \<not> assertSafeRecordId recordId then fs_throw UnsafeId
      else fs_bind (loadRecord codec recordId) (\<lambda>currentRecord.
        case mutate currentRecord of Inl e \<Rightarrow> fs_throw e
        | Inr mutation \<Rightarrow> write_mutation codec tag recordId currentRecord mutation))"

fun load_all :: "'r record_codec \<Rightarrow> string list \<Rightarrow> 'r list fs_op" where
  "load_all codec [] = fs_return []"
| "load_all codec (recordId # recordIds) =
     fs_bind (loadRecord codec recordId) (\<lambda>r. fs_bind (load_all codec recordIds) (\<lambda>rs.
     fs_return (case r of None \<Rightarrow> rs | Some x \<Rightarrow> x # rs)))"

definition ends_with :: "string \<Rightarrow> string \<Rightarrow> bool" where
  "ends_with s suffix \<longleftrightarrow> drop (length s - length suffix) s = suffix"

definition listRecords :: "'r record_codec \<Rightarrow> 'r list fs_op" where
  "listRecords codec plan fs =
     fs_bind (fs_call CallFailed_Readdir (\<lambda>fs. fs) (\<lambda>_ fs. fs)) (\<lambda>_.
       load_all codec (js_sort (\<lambda>l r. if js_string_less l r then - 1 else if l = r then 0 else 1)
         (map (\<lambda>fileName. take (length fileName - 5) fileName)
           (filter (\<lambda>fileName. ends_with fileName ''.json'') (js_keys (cf_names fs)))))) plan fs"

end
