(* ===== verification/ApprovalLedger.thy ===== *)
theory ApprovalLedger
  imports ApprovalContracts CrashDurableStore
begin

text \<open>
  controller/approval/controller-approval-ledger.ts (\<open>createControllerApprovalLedger\<close>): requesting,
  deciding, revoking and arming approvals, each a mutation of one durable record.

  The store serializes the mutations of one record, so a mutation is one step; what can happen
  to its write is \<open>write_outcome\<close>, which the crash-durable store refines
  (\<open>approval_store_refines\<close>). An operation runs
  in a moment of the environment: the answers of the validators it calls, before and after the
  store was written, the successive readings of its clock and the UUID it draws. A validator
  that throws answers \<open>None\<close>.
\<close>

datatype approval_parse =
  ParsesAuthority authority_context
| ParsesIntent challenge_intent
| ParsesChallenge approval_challenge
| ParsesReservation dispatch_reservation
| ParsesGrant dispatch_grant
| ParsesOperator approval_operator
| ParsesDecision approval_decision
| ParsesRevocation approval_revocation
| ParsesRecord approval_record

datatype approval_error =
  SchemaViolation
| FingerprintError canonical_error
| AuthorityZoneMismatch
| RecordZoneMismatch
| UnsafeRecordId
| InvalidDate
| StoreFailed
| TtlNotPositive
| EmptyControllerEpoch

record approval_config =
  pc_challengeTtlMs :: int
  pc_currentControllerEpoch :: string
  pc_zoneId :: string
  pc_localeCompare :: "string \<Rightarrow> string \<Rightarrow> int"
  pc_sha256 :: "string \<Rightarrow> string"
  pc_accepts :: "approval_parse \<Rightarrow> bool"

type_synonym intent_validator = "challenge_intent \<Rightarrow> authority_context \<Rightarrow> bool option"

text \<open>
  How the store fares in a mutation: it writes, it fails before the record is replaced, or after,
  with the directory synced or not.
\<close>

datatype write_outcome = Written | FailedBefore | FailedAfter bool

record approval_moment =
  mo_validateInputAuthority :: "intent_validator option"
  mo_validateIntent :: "intent_validator option"
  mo_validateIntentAfter :: "intent_validator option"
  mo_now :: int
  mo_nowChecked :: int
  mo_nowRecorded :: int
  mo_uuid :: string
  mo_write :: write_outcome

type_synonym approval_store = "(string, approval_record) js_map"

text \<open>The records as they are read now, and as they would be read after a crash.\<close>

record approval_disk =
  dk_visible :: approval_store
  dk_durable :: approval_store

type_synonym 'a approval_op = "approval_disk \<Rightarrow> (approval_error + 'a) \<times> approval_disk"

section \<open>Validators, dates and schemas\<close>

definition validator_answer :: "intent_validator \<Rightarrow> challenge_intent \<Rightarrow> authority_context \<Rightarrow> bool" where
  "validator_answer f i a = (case f i a of None \<Rightarrow> False | Some b \<Rightarrow> b)"

definition intentIsCurrent :: "intent_validator option \<Rightarrow> challenge_intent \<Rightarrow> authority_context \<Rightarrow> bool" where
  "intentIsCurrent validateIntent i a =
     (case validateIntent of None \<Rightarrow> in_managedGoogle i = None | Some f \<Rightarrow> validator_answer f i a)"

definition has_file_inputs :: "challenge_intent \<Rightarrow> bool" where
  "has_file_inputs i =
     (case in_managedGoogle i of None \<Rightarrow> False | Some google \<Rightarrow> map_of google ''fileInputs'' \<noteq> None)"

definition inputAuthorityIsCurrent :: "intent_validator option \<Rightarrow> challenge_intent \<Rightarrow> authority_context \<Rightarrow> bool" where
  "inputAuthorityIsCurrent validateInputAuthority i a =
     (case validateInputAuthority of None \<Rightarrow> \<not> has_file_inputs i | Some f \<Rightarrow> validator_answer f i a)"

definition iso_date :: "int \<Rightarrow> approval_error + string" where
  "iso_date t = (case toISOString t of None \<Rightarrow> Inl InvalidDate | Some s \<Rightarrow> Inr s)"

definition parse_with :: "approval_config \<Rightarrow> approval_parse \<Rightarrow> approval_error + unit" where
  "parse_with cfg x = (if pc_accepts cfg x then Inr () else Inl SchemaViolation)"

text \<open>A comparison with \<open>NaN\<close> is false.\<close>

definition isExpired :: "approval_challenge \<Rightarrow> int \<Rightarrow> bool" where
  "isExpired c now \<longleftrightarrow> (case Date_parse (ch_expiresAt c) of None \<Rightarrow> False | Some expiresAt \<Rightarrow> expiresAt \<le> now)"

text \<open>\<open>canonicalJson\<close> of the ledger has the text of \<open>canonicalApprovalJson\<close>.\<close>

definition sameCanonicalValue :: "approval_config \<Rightarrow> json \<Rightarrow> json \<Rightarrow> bool" where
  "sameCanonicalValue cfg l r \<longleftrightarrow>
     canonicalApprovalJson (pc_localeCompare cfg) l = canonicalApprovalJson (pc_localeCompare cfg) r"

definition sameAuthority :: "approval_config \<Rightarrow> approval_record \<Rightarrow> authority_context \<Rightarrow> bool" where
  "sameAuthority cfg r a \<longleftrightarrow> sameCanonicalValue cfg (authority_json (ap_authorityContext r)) (authority_json a)"

definition sameReservation :: "approval_config \<Rightarrow> dispatch_reservation \<Rightarrow> dispatch_reservation \<Rightarrow> bool" where
  "sameReservation cfg r s \<longleftrightarrow> sameCanonicalValue cfg (reservation_json r) (reservation_json s)"

definition createControllerApprovalLedger :: "approval_config \<Rightarrow> approval_error + approval_config" where
  "createControllerApprovalLedger cfg =
     (if \<not> is_safe_integer (pc_challengeTtlMs cfg) \<or> pc_challengeTtlMs cfg \<le> 0 then Inl TtlNotPositive
      else if pc_currentControllerEpoch cfg = [] then Inl EmptyControllerEpoch
      else Inr cfg)"

section \<open>The zone-bound record store\<close>

definition parse_record :: "approval_config \<Rightarrow> approval_record \<Rightarrow> approval_error + unit" where
  "parse_record cfg r =
     result_bind (parse_with cfg (ParsesRecord r)) (\<lambda>_.
     if at_zoneId (ap_authorityContext r) \<noteq> pc_zoneId cfg then Inl RecordZoneMismatch else Inr ())"

definition parse_stored :: "approval_config \<Rightarrow> approval_record option \<Rightarrow> approval_error + unit" where
  "parse_stored cfg r = (case r of None \<Rightarrow> Inr () | Some x \<Rightarrow> parse_record cfg x)"

definition persist :: "write_outcome \<Rightarrow> approval_store \<Rightarrow> 'a \<Rightarrow> 'a approval_op" where
  "persist w records result disk =
     (case w of
        Written \<Rightarrow> (Inr result, \<lparr>dk_visible = records, dk_durable = records\<rparr>)
      | FailedBefore \<Rightarrow> (Inl StoreFailed, disk)
      | FailedAfter synced \<Rightarrow>
          (Inl StoreFailed, \<lparr>dk_visible = records, dk_durable = if synced then records else dk_durable disk\<rparr>))"

definition mutateRecord :: "approval_config \<Rightarrow> write_outcome \<Rightarrow> string
    \<Rightarrow> (approval_record option \<Rightarrow> approval_error + (approval_record option \<times> 'a)) \<Rightarrow> 'a approval_op" where
  "mutateRecord cfg w recordId mutate disk =
     (if \<not> assertSafeRecordId recordId then (Inl UnsafeRecordId, disk)
      else
        (let currentRecord = js_get (dk_visible disk) recordId
         in case result_bind (parse_stored cfg currentRecord) (\<lambda>_.
                 result_bind (mutate currentRecord) (\<lambda>(nextRecord, result).
                 result_bind (parse_stored cfg nextRecord) (\<lambda>_. Inr (nextRecord, result)))) of
              Inl e \<Rightarrow> (Inl e, disk)
            | Inr (None, result) \<Rightarrow>
                if currentRecord \<noteq> None then persist w (js_delete recordId (dk_visible disk)) result disk
                else if w = FailedBefore then (Inl StoreFailed, disk)
                else (Inr result, disk)
            | Inr (Some r, result) \<Rightarrow> persist w (js_set recordId r (dk_visible disk)) result disk))"

text \<open>What is withheld from the caller after the store was written.\<close>

definition then_answer :: "('a \<Rightarrow> 'a) \<Rightarrow> (approval_error + 'a) \<times> approval_disk
    \<Rightarrow> (approval_error + 'a) \<times> approval_disk" where
  "then_answer f r = (case r of (Inl e, disk) \<Rightarrow> (Inl e, disk) | (Inr x, disk) \<Rightarrow> (Inr (f x), disk))"

definition parseAuthorityContextForTarget :: "approval_config \<Rightarrow> authority_context \<Rightarrow> approval_error + unit" where
  "parseAuthorityContextForTarget cfg a =
     result_bind (parse_with cfg (ParsesAuthority a)) (\<lambda>_.
     if at_zoneId a \<noteq> pc_zoneId cfg then Inl AuthorityZoneMismatch else Inr ())"

definition principal_of :: "approval_config \<Rightarrow> challenge_intent \<Rightarrow> string" where
  "principal_of cfg i =
     deriveGatewayControlStablePrincipal (pc_sha256 cfg) (tc_principal (in_trustedContext i))"

definition notDispatched :: "approval_record \<Rightarrow> not_dispatched_reason \<Rightarrow> 'a dispatch_answer" where
  "notDispatched r reason = NotDispatched (in_operationId (ch_intent (ap_challenge r))) reason"

section \<open>Requesting an approval\<close>

definition new_challenge :: "approval_config \<Rightarrow> int \<Rightarrow> challenge_intent \<Rightarrow> string \<Rightarrow> string
    \<Rightarrow> approval_error + approval_challenge" where
  "new_challenge cfg now intent fingerprint approvalId =
     result_bind (iso_date now) (\<lambda>createdAt.
     result_bind (iso_date (now + pc_challengeTtlMs cfg)) (\<lambda>expiresAt.
     let challenge = \<lparr>ch_approvalId = approvalId, ch_createdAt = createdAt, ch_expiresAt = expiresAt,
           ch_fingerprint = fingerprint, ch_intent = intent\<rparr>
     in result_bind (parse_with cfg (ParsesChallenge challenge)) (\<lambda>_. Inr challenge)))"

definition new_reservation :: "approval_config \<Rightarrow> authority_context \<Rightarrow> challenge_intent \<Rightarrow> string \<Rightarrow> string
    \<Rightarrow> string \<Rightarrow> approval_challenge \<Rightarrow> dispatch_reservation" where
  "new_reservation cfg a intent fingerprint approvalId uuid challenge =
     \<lparr>da_approvalId = approvalId, da_authorityContext = a, da_backendKind = in_backendKind intent,
      da_bindingRevision = (if in_backendKind intent = ControllerExecution
        then Some (sv_bindingRevision (in_semanticRevisions intent)) else None),
      da_expiresAt = ch_expiresAt challenge, da_fingerprint = fingerprint,
      da_operationId = in_operationId intent, da_stablePrincipal = principal_of cfg intent,
      dr_reservationId = uuid\<rparr>"

definition is_armed :: "approval_record option \<Rightarrow> bool" where
  "is_armed r = (case r of None \<Rightarrow> False | Some x \<Rightarrow> (case ap_phase x of DispatchArmed _ _ _ _ \<Rightarrow> True | _ \<Rightarrow> False))"

definition request_from_record :: "approval_config \<Rightarrow> approval_moment \<Rightarrow> authority_context \<Rightarrow> challenge_intent
    \<Rightarrow> string \<Rightarrow> string \<Rightarrow> approval_record \<Rightarrow> approval_error + (approval_record option \<times> admission_answer dispatch_answer)" where
  "request_from_record cfg mo a intent fingerprint approvalId r =
     (if \<not> sameAuthority cfg r a then Inr (Some r, notDispatched r StaleAuthority)
      else if ch_fingerprint (ap_challenge r) \<noteq> fingerprint
      then Inr (Some r, NotDispatched (in_operationId intent) StaleFingerprint)
      else if is_armed (Some r)
      then Inr (Some r, AmbiguousDispatch (in_operationId (ch_intent (ap_challenge r))))
      else if isExpired (ap_challenge r) (mo_now mo) then Inr (Some r, notDispatched r ReasonExpired)
      else (case ap_phase r of
          ApprovalPending \<Rightarrow> Inr (Some r, Answered (ApprovalRequired (ap_challenge r)))
        | Approved d \<Rightarrow>
            result_bind (iso_date (mo_now mo)) (\<lambda>consumedAt.
            let reservation = new_reservation cfg a intent fingerprint approvalId (mo_uuid mo) (ap_challenge r);
                next = r\<lparr>ap_phase := ConsumedNotDispatched d consumedAt reservation\<rparr>
            in result_bind (parse_with cfg (ParsesReservation reservation)) (\<lambda>_.
               result_bind (parse_with cfg (ParsesRecord next)) (\<lambda>_.
               Inr (Some next, Answered (DispatchReserved reservation)))))
        | Denied _ \<Rightarrow> Inr (Some r, notDispatched r ReasonDenied)
        | Revoked _ _ \<Rightarrow> Inr (Some r, notDispatched r ReasonRevoked)
        | ConsumedNotDispatched _ _ _ \<Rightarrow> Inr (Some r, notDispatched r ConsumedWithoutDispatch)
        | DispatchArmed _ _ _ _ \<Rightarrow> Inr (Some r, AmbiguousDispatch (in_operationId (ch_intent (ap_challenge r))))))"

definition request_mutation :: "approval_config \<Rightarrow> approval_moment \<Rightarrow> authority_context \<Rightarrow> challenge_intent
    \<Rightarrow> string \<Rightarrow> string \<Rightarrow> approval_record option
    \<Rightarrow> approval_error + (approval_record option \<times> admission_answer dispatch_answer)" where
  "request_mutation cfg mo a intent fingerprint approvalId currentRecord =
     (if \<not> is_armed currentRecord \<and>
         (\<not> inputAuthorityIsCurrent (mo_validateInputAuthority mo) intent a \<or>
          \<not> intentIsCurrent (mo_validateIntent mo) intent a)
      then Inr (currentRecord, NotDispatched (in_operationId intent) StaleFingerprint)
      else (case currentRecord of
          None \<Rightarrow>
            result_bind (new_challenge cfg (mo_now mo) intent fingerprint approvalId) (\<lambda>challenge.
            let r = \<lparr>ap_authorityContext = a, ap_challenge = challenge, ap_phase = ApprovalPending\<rparr>
            in result_bind (parse_with cfg (ParsesRecord r)) (\<lambda>_.
               Inr (Some r, Answered (ApprovalRequired challenge))))
        | Some r \<Rightarrow> request_from_record cfg mo a intent fingerprint approvalId r))"

definition requestApproval :: "approval_config \<Rightarrow> approval_moment \<Rightarrow> authority_context \<Rightarrow> challenge_intent
    \<Rightarrow> admission_answer dispatch_answer approval_op" where
  "requestApproval cfg mo a intent disk =
     (case result_bind (parseAuthorityContextForTarget cfg a) (\<lambda>_. parse_with cfg (ParsesIntent intent)) of
        Inl e \<Rightarrow> (Inl e, disk)
      | Inr _ \<Rightarrow>
          if at_controllerEpoch a \<noteq> pc_currentControllerEpoch cfg
          then (Inr (NotDispatched (in_operationId intent) StaleAuthority), disk)
          else (case deriveGatewayRuntimeApprovalFingerprint (pc_localeCompare cfg) (pc_sha256 cfg) a intent of
                  Inl e \<Rightarrow> (Inl (FingerprintError e), disk)
                | Inr fingerprint \<Rightarrow>
                    (let approvalId = deriveGatewayRuntimeApprovalId fingerprint
                     in then_answer (\<lambda>admission. case admission of
                            Answered _ \<Rightarrow>
                              if intentIsCurrent (mo_validateIntentAfter mo) intent a then admission
                              else NotDispatched (in_operationId intent) StaleFingerprint
                          | _ \<Rightarrow> admission)
                        (mutateRecord cfg (mo_write mo) approvalId
                          (request_mutation cfg mo a intent fingerprint approvalId) disk))))"

section \<open>Arming a dispatch\<close>

definition new_grant :: "authority_context \<Rightarrow> dispatch_reservation \<Rightarrow> string \<Rightarrow> dispatch_grant" where
  "new_grant a reservation uuid =
     \<lparr>da_approvalId = da_approvalId reservation, da_authorityContext = a,
      da_backendKind = da_backendKind reservation,
      da_bindingRevision = (if da_backendKind reservation = ControllerExecution
        then da_bindingRevision reservation else None),
      da_expiresAt = da_expiresAt reservation, da_fingerprint = da_fingerprint reservation,
      da_operationId = da_operationId reservation, da_stablePrincipal = da_stablePrincipal reservation,
      gr_grantId = uuid\<rparr>"

definition arm_mutation :: "approval_config \<Rightarrow> approval_moment \<Rightarrow> authority_context \<Rightarrow> dispatch_reservation
    \<Rightarrow> approval_record option \<Rightarrow> approval_error + (approval_record option \<times> dispatch_grant dispatch_answer)" where
  "arm_mutation cfg mo a reservation currentRecord =
     (case currentRecord of
        None \<Rightarrow> Inr (None, NotDispatched (da_operationId reservation) StaleFingerprint)
      | Some r \<Rightarrow>
          if \<not> sameAuthority cfg r a then Inr (Some r, notDispatched r StaleAuthority)
          else (case ap_phase r of
              DispatchArmed _ _ _ armed \<Rightarrow>
                if \<not> sameReservation cfg armed reservation then Inr (Some r, notDispatched r StaleFingerprint)
                else Inr (Some r, AmbiguousDispatch (in_operationId (ch_intent (ap_challenge r))))
            | phase \<Rightarrow>
                if isExpired (ap_challenge r) (mo_now mo) then Inr (Some r, notDispatched r ReasonExpired)
                else (case phase of
                    ConsumedNotDispatched d _ consumed \<Rightarrow>
                      if \<not> sameReservation cfg consumed reservation then Inr (Some r, notDispatched r StaleFingerprint)
                      else if \<not> inputAuthorityIsCurrent (mo_validateInputAuthority mo) (ch_intent (ap_challenge r)) a \<or>
                         \<not> intentIsCurrent (mo_validateIntent mo) (ch_intent (ap_challenge r)) a \<or>
                         isExpired (ap_challenge r) (mo_nowChecked mo)
                      then Inr (Some r, notDispatched r StaleFingerprint)
                      else
                        result_bind (iso_date (mo_nowRecorded mo)) (\<lambda>armedAt.
                        let grant = new_grant a reservation (mo_uuid mo);
                            next = r\<lparr>ap_phase := DispatchArmed d armedAt grant consumed\<rparr>
                        in result_bind (parse_with cfg (ParsesGrant grant)) (\<lambda>_.
                           result_bind (parse_with cfg (ParsesRecord next)) (\<lambda>_.
                           Inr (Some next, Answered grant))))
                  | _ \<Rightarrow> Inr (Some r, notDispatched r StaleFingerprint))))"

text \<open>The intent of the record a grant was just armed for, as the code keeps it in \<open>armedIntent\<close>.\<close>

definition armed_intent :: "string \<Rightarrow> approval_disk \<Rightarrow> challenge_intent option" where
  "armed_intent approvalId disk = map_option (\<lambda>r. ch_intent (ap_challenge r)) (js_get (dk_visible disk) approvalId)"

definition armDispatch :: "approval_config \<Rightarrow> approval_moment \<Rightarrow> authority_context \<Rightarrow> dispatch_reservation
    \<Rightarrow> dispatch_grant dispatch_answer approval_op" where
  "armDispatch cfg mo a reservation disk =
     (case result_bind (parseAuthorityContextForTarget cfg a) (\<lambda>_. parse_with cfg (ParsesReservation reservation)) of
        Inl e \<Rightarrow> (Inl e, disk)
      | Inr _ \<Rightarrow>
          if at_controllerEpoch a \<noteq> pc_currentControllerEpoch cfg
          then (Inr (NotDispatched (da_operationId reservation) StaleAuthority), disk)
          else then_answer (\<lambda>answer. case answer of
                   Answered _ \<Rightarrow>
                     (case armed_intent (da_approvalId reservation) disk of
                        None \<Rightarrow> NotDispatched (da_operationId reservation) StaleFingerprint
                      | Some intent \<Rightarrow>
                          if intentIsCurrent (mo_validateIntentAfter mo) intent a then answer
                          else NotDispatched (da_operationId reservation) StaleFingerprint)
                 | _ \<Rightarrow> answer)
               (mutateRecord cfg (mo_write mo) (da_approvalId reservation) (arm_mutation cfg mo a reservation) disk))"

section \<open>Deciding\<close>

definition decided_record :: "decision_kind \<Rightarrow> approval_decision \<Rightarrow> approval_record \<Rightarrow> approval_record" where
  "decided_record kind d r = r\<lparr>ap_phase := (case kind of Approve \<Rightarrow> Approved d | Deny \<Rightarrow> Denied d)\<rparr>"

definition decide_mutation :: "approval_config \<Rightarrow> approval_moment \<Rightarrow> authority_context \<Rightarrow> decision_kind
    \<Rightarrow> approval_operator \<Rightarrow> approval_record option \<Rightarrow> approval_error + (approval_record option \<times> decision_result)" where
  "decide_mutation cfg mo a kind operator currentRecord =
     (case currentRecord of
        None \<Rightarrow> Inr (None, DecisionRejected DecisionNotFound)
      | Some r \<Rightarrow>
          if \<not> sameAuthority cfg r a then Inr (Some r, DecisionRejected DecisionStaleAuthority)
          else if isExpired (ap_challenge r) (mo_now mo) then Inr (Some r, DecisionRejected DecisionExpired)
          else if ap_phase r \<noteq> ApprovalPending then Inr (Some r, DecisionRejected AlreadyDecided)
          else if \<not> inputAuthorityIsCurrent (mo_validateInputAuthority mo) (ch_intent (ap_challenge r)) a \<or>
             \<not> intentIsCurrent (mo_validateIntent mo) (ch_intent (ap_challenge r)) a \<or>
             isExpired (ap_challenge r) (mo_nowChecked mo)
          then Inr (Some r, DecisionRejected DecisionStaleAuthority)
          else if principal_of cfg (ch_intent (ap_challenge r)) \<noteq> ao_stablePrincipal operator
          then Inr (Some r, DecisionRejected DecisionPrincipalMismatch)
          else
            result_bind (iso_date (mo_nowRecorded mo)) (\<lambda>decidedAt.
            let d = \<lparr>de_decidedAt = decidedAt, de_decision = kind, de_operator = operator\<rparr>;
                next = decided_record kind d r
            in result_bind (parse_with cfg (ParsesDecision d)) (\<lambda>_.
               result_bind (parse_with cfg (ParsesRecord next)) (\<lambda>_.
               Inr (Some next, DecisionRecorded kind (operatorView next))))))"

definition view_challenge :: "operator_view \<Rightarrow> approval_challenge" where
  "view_challenge v = (case v of PendingView c \<Rightarrow> c | ApprovedView c _ \<Rightarrow> c | DeniedView c _ \<Rightarrow> c
     | RevokedView c _ \<Rightarrow> c | ConsumedView c _ \<Rightarrow> c | ArmedView c _ \<Rightarrow> c)"

definition decide :: "approval_config \<Rightarrow> approval_moment \<Rightarrow> string \<Rightarrow> authority_context \<Rightarrow> decision_kind
    \<Rightarrow> approval_operator \<Rightarrow> decision_result approval_op" where
  "decide cfg mo approvalId a kind operator disk =
     (case result_bind (parseAuthorityContextForTarget cfg a) (\<lambda>_. parse_with cfg (ParsesOperator operator)) of
        Inl e \<Rightarrow> (Inl e, disk)
      | Inr _ \<Rightarrow>
          if at_controllerEpoch a \<noteq> pc_currentControllerEpoch cfg
          then (Inr (DecisionRejected DecisionStaleAuthority), disk)
          else then_answer (\<lambda>result. case result of
                   DecisionRecorded _ view \<Rightarrow>
                     if intentIsCurrent (mo_validateIntentAfter mo) (ch_intent (view_challenge view)) a then result
                     else DecisionRejected DecisionStaleAuthority
                 | _ \<Rightarrow> result)
               (mutateRecord cfg (mo_write mo) approvalId (decide_mutation cfg mo a kind operator) disk))"

section \<open>Revoking\<close>

definition revoke_mutation :: "approval_config \<Rightarrow> approval_moment \<Rightarrow> authority_context \<Rightarrow> approval_operator
    \<Rightarrow> approval_record option \<Rightarrow> approval_error + (approval_record option \<times> revocation_result)" where
  "revoke_mutation cfg mo a operator currentRecord =
     (case currentRecord of
        None \<Rightarrow> Inr (None, RevocationRejected RevocationNotFound)
      | Some r \<Rightarrow>
          if \<not> sameAuthority cfg r a then Inr (Some r, RevocationRejected RevocationStaleAuthority)
          else if isExpired (ap_challenge r) (mo_now mo) then Inr (Some r, RevocationRejected RevocationExpired)
          else
            (let revoked = (\<lambda>prior.
                   result_bind (iso_date (mo_nowRecorded mo)) (\<lambda>revokedAt.
                   let revocation = \<lparr>re_operator = operator, re_revokedAt = revokedAt\<rparr>;
                       next = r\<lparr>ap_phase := Revoked prior revocation\<rparr>
                   in result_bind (parse_with cfg (ParsesRevocation revocation)) (\<lambda>_.
                      result_bind (parse_with cfg (ParsesRecord next)) (\<lambda>_.
                      Inr (Some next, RevocationRecorded (operatorView next))))))
             in case ap_phase r of
                  Revoked _ _ \<Rightarrow> Inr (Some r, RevocationRejected AlreadyRevoked)
                | ApprovalPending \<Rightarrow> revoked None
                | Approved d \<Rightarrow> revoked (Some d)
                | _ \<Rightarrow> Inr (Some r, RevocationRejected AlreadyConsumed)))"

definition revoke :: "approval_config \<Rightarrow> approval_moment \<Rightarrow> string \<Rightarrow> authority_context \<Rightarrow> approval_operator
    \<Rightarrow> revocation_result approval_op" where
  "revoke cfg mo approvalId a operator disk =
     (case result_bind (parseAuthorityContextForTarget cfg a) (\<lambda>_. parse_with cfg (ParsesOperator operator)) of
        Inl e \<Rightarrow> (Inl e, disk)
      | Inr _ \<Rightarrow>
          if at_controllerEpoch a \<noteq> pc_currentControllerEpoch cfg
          then (Inr (RevocationRejected RevocationStaleAuthority), disk)
          else mutateRecord cfg (mo_write mo) approvalId (revoke_mutation cfg mo a operator) disk)"

section \<open>Reading\<close>

definition read_approval :: "approval_config \<Rightarrow> string \<Rightarrow> approval_disk \<Rightarrow> approval_error + operator_view option" where
  "read_approval cfg approvalId disk =
     (if \<not> assertSafeRecordId approvalId then Inl UnsafeRecordId
      else result_bind (parse_stored cfg (js_get (dk_visible disk) approvalId)) (\<lambda>_.
        Inr (map_option operatorView (js_get (dk_visible disk) approvalId))))"

definition list_approvals :: "approval_config \<Rightarrow> approval_disk \<Rightarrow> approval_error + operator_view list" where
  "list_approvals cfg disk =
     result_list (map (\<lambda>(_, r). result_bind (parse_record cfg r) (\<lambda>_. Inr (operatorView r))) (sort_key fst (dk_visible disk)))"

end
