(* ===== verification/ApprovalRuns.thy ===== *)
theory ApprovalRuns
  imports ApprovalLedger
begin

text \<open>
  Runs of the approval ledger: calls of clients and operators under every outcome of the store,
  and restarts of the controller that fall back on what was durable. The log records what was
  asked and what was answered. The invariant says what the records that can be read, now or
  after a crash, have to do with the log.
\<close>

section \<open>The system\<close>

datatype approval_event =
  Requested int authority_context challenge_intent
| DecisionAsked string decision_kind approval_operator
| ReservationIssued dispatch_reservation
| GrantIssued dispatch_grant int
| DenialAnswered string
| RevocationAnswered string

record approval_system =
  ay_disk :: approval_disk
  ay_epoch :: string
  ay_log :: "approval_event list"

datatype approval_command =
  RequestApproval approval_moment authority_context challenge_intent
| ArmDispatch approval_moment authority_context dispatch_reservation
| Decide approval_moment string authority_context decision_kind approval_operator
| RevokeApproval approval_moment string authority_context approval_operator
| RestartController "string \<Rightarrow> bool" string

definition approval_start :: "string \<Rightarrow> approval_system" where
  "approval_start epoch = \<lparr>ay_disk = \<lparr>dk_visible = [], dk_durable = []\<rparr>, ay_epoch = epoch, ay_log = []\<rparr>"

definition epoch_config :: "approval_config \<Rightarrow> approval_system \<Rightarrow> approval_config" where
  "epoch_config cfg s = cfg\<lparr>pc_currentControllerEpoch := ay_epoch s\<rparr>"

text \<open>After a crash each record is as it was last read or as it was last durable.\<close>

definition restart_disk :: "(string \<Rightarrow> bool) \<Rightarrow> approval_disk \<Rightarrow> approval_disk" where
  "restart_disk kept disk =
     (let records = filter (\<lambda>(recordId, _). kept recordId) (dk_visible disk) @
        filter (\<lambda>(recordId, _). \<not> kept recordId) (dk_durable disk)
      in \<lparr>dk_visible = records, dk_durable = records\<rparr>)"

fun request_events :: "approval_error + admission_answer dispatch_answer \<Rightarrow> approval_event list" where
  "request_events (Inr (Answered (DispatchReserved reservation))) = [ReservationIssued reservation]"
| "request_events _ = []"

fun arm_events :: "int \<Rightarrow> approval_error + dispatch_grant dispatch_answer \<Rightarrow> approval_event list" where
  "arm_events now (Inr (Answered grant)) = [GrantIssued grant now]"
| "arm_events now _ = []"

fun decide_events :: "string \<Rightarrow> approval_error + decision_result \<Rightarrow> approval_event list" where
  "decide_events approvalId (Inr (DecisionRecorded Deny _)) = [DenialAnswered approvalId]"
| "decide_events approvalId _ = []"

fun revoke_events :: "string \<Rightarrow> approval_error + revocation_result \<Rightarrow> approval_event list" where
  "revoke_events approvalId (Inr (RevocationRecorded _)) = [RevocationAnswered approvalId]"
| "revoke_events approvalId _ = []"

definition after_call :: "approval_system \<Rightarrow> approval_disk \<Rightarrow> approval_event list \<Rightarrow> approval_error + approval_system" where
  "after_call s disk events = Inr (s\<lparr>ay_disk := disk, ay_log := events @ ay_log s\<rparr>)"

fun approval_exec :: "approval_config \<Rightarrow> approval_system \<Rightarrow> approval_command \<Rightarrow> approval_error + approval_system" where
  "approval_exec cfg s (RequestApproval mo a intent) =
     (let (answer, disk) = requestApproval (epoch_config cfg s) mo a intent (ay_disk s)
      in after_call s disk (request_events answer @ [Requested (mo_now mo) a intent]))"
| "approval_exec cfg s (ArmDispatch mo a reservation) =
     (let (answer, disk) = armDispatch (epoch_config cfg s) mo a reservation (ay_disk s)
      in after_call s disk (arm_events (mo_now mo) answer))"
| "approval_exec cfg s (Decide mo approvalId a kind operator) =
     (let (answer, disk) = decide (epoch_config cfg s) mo approvalId a kind operator (ay_disk s)
      in after_call s disk (decide_events approvalId answer @ [DecisionAsked approvalId kind operator]))"
| "approval_exec cfg s (RevokeApproval mo approvalId a operator) =
     (let (answer, disk) = revoke (epoch_config cfg s) mo approvalId a operator (ay_disk s)
      in after_call s disk (revoke_events approvalId answer))"
| "approval_exec cfg s (RestartController kept epoch) =
     Inr (s\<lparr>ay_disk := restart_disk kept (ay_disk s), ay_epoch := epoch\<rparr>)"

section \<open>Records that fit the log\<close>

definition fingerprint_of :: "approval_config \<Rightarrow> authority_context \<Rightarrow> challenge_intent \<Rightarrow> canonical_error + string" where
  "fingerprint_of cfg a i = deriveGatewayRuntimeApprovalFingerprint (pc_localeCompare cfg) (pc_sha256 cfg) a i"

text \<open>A challenge was made for a request that was made at its creation.\<close>

definition challenge_ok :: "approval_config \<Rightarrow> approval_event list \<Rightarrow> string \<Rightarrow> approval_record \<Rightarrow> bool" where
  "challenge_ok cfg log recordId r \<longleftrightarrow>
     ch_approvalId (ap_challenge r) = recordId \<and>
     fingerprint_of cfg (ap_authorityContext r) (ch_intent (ap_challenge r)) = Inr (ch_fingerprint (ap_challenge r)) \<and>
     recordId = deriveGatewayRuntimeApprovalId (ch_fingerprint (ap_challenge r)) \<and>
     (\<exists>createdAt. Requested createdAt (ap_authorityContext r) (ch_intent (ap_challenge r)) \<in> set log \<and>
        toISOString (createdAt + pc_challengeTtlMs cfg) = Some (ch_expiresAt (ap_challenge r)))"

definition decision_ok :: "approval_config \<Rightarrow> approval_event list \<Rightarrow> string \<Rightarrow> approval_record \<Rightarrow> decision_kind \<Rightarrow> approval_decision \<Rightarrow> bool" where
  "decision_ok cfg log recordId r kind d \<longleftrightarrow>
     de_decision d = kind \<and> DecisionAsked recordId kind (de_operator d) \<in> set log \<and>
     ao_stablePrincipal (de_operator d) = principal_of cfg (ch_intent (ap_challenge r))"

definition reservation_ok :: "approval_config \<Rightarrow> approval_record \<Rightarrow> dispatch_reservation \<Rightarrow> bool" where
  "reservation_ok cfg r reservation \<longleftrightarrow>
     (\<exists>intent uuid. fingerprint_of cfg (ap_authorityContext r) intent = Inr (ch_fingerprint (ap_challenge r)) \<and>
        reservation = new_reservation cfg (ap_authorityContext r) intent (ch_fingerprint (ap_challenge r))
          (ch_approvalId (ap_challenge r)) uuid (ap_challenge r))"

definition phase_ok :: "approval_config \<Rightarrow> approval_event list \<Rightarrow> string \<Rightarrow> approval_record \<Rightarrow> bool" where
  "phase_ok cfg log recordId r = (case ap_phase r of
     ApprovalPending \<Rightarrow> True
   | Approved d \<Rightarrow> decision_ok cfg log recordId r Approve d
   | Denied d \<Rightarrow> decision_ok cfg log recordId r Deny d
   | Revoked _ _ \<Rightarrow> True
   | ConsumedNotDispatched d _ reservation \<Rightarrow> decision_ok cfg log recordId r Approve d \<and> reservation_ok cfg r reservation
   | DispatchArmed d _ grant reservation \<Rightarrow> decision_ok cfg log recordId r Approve d \<and> reservation_ok cfg r reservation \<and>
       grant = new_grant (ap_authorityContext r) reservation (gr_grantId grant))"

definition record_ok :: "approval_config \<Rightarrow> approval_event list \<Rightarrow> string \<Rightarrow> approval_record \<Rightarrow> bool" where
  "record_ok cfg log recordId r \<longleftrightarrow> challenge_ok cfg log recordId r \<and> phase_ok cfg log recordId r"

fun holds :: "(string \<Rightarrow> approval_record option) \<Rightarrow> approval_event \<Rightarrow> bool" where
  "holds records (ReservationIssued reservation) =
     (case records (da_approvalId reservation) of None \<Rightarrow> False
      | Some r \<Rightarrow> (case ap_phase r of ConsumedNotDispatched _ _ consumed \<Rightarrow> consumed = reservation
          | DispatchArmed _ _ _ armed \<Rightarrow> armed = reservation | _ \<Rightarrow> False))"
| "holds records (GrantIssued grant now) =
     (case records (da_approvalId grant) of None \<Rightarrow> False
      | Some r \<Rightarrow> (case ap_phase r of DispatchArmed _ _ issued _ \<Rightarrow> issued = grant \<and> \<not> isExpired (ap_challenge r) now | _ \<Rightarrow> False))"
| "holds records (DenialAnswered recordId) =
     (case records recordId of None \<Rightarrow> False | Some r \<Rightarrow> (case ap_phase r of Denied _ \<Rightarrow> True | _ \<Rightarrow> False))"
| "holds records (RevocationAnswered recordId) =
     (case records recordId of None \<Rightarrow> False | Some r \<Rightarrow> (case ap_phase r of Revoked _ _ \<Rightarrow> True | _ \<Rightarrow> False))"
| "holds records _ = True"

text \<open>What an event settles for good: a second event with the same key cannot be logged.\<close>

fun event_key :: "approval_event \<Rightarrow> (nat \<times> string) option" where
  "event_key (ReservationIssued reservation) = Some (0, da_approvalId reservation)"
| "event_key (GrantIssued grant _) = Some (1, da_approvalId grant)"
| "event_key _ = None"

definition records_ok :: "approval_config \<Rightarrow> approval_event list \<Rightarrow> approval_store \<Rightarrow> bool" where
  "records_ok cfg log records \<longleftrightarrow> js_map_ok records \<and>
     (\<forall>recordId r. js_get records recordId = Some r \<longrightarrow> record_ok cfg log recordId r) \<and>
     (\<forall>event\<in>set log. holds (js_get records) event)"

definition issued_keys :: "approval_event list \<Rightarrow> (nat \<times> string) list" where
  "issued_keys log = List.map_filter event_key log"

definition approval_inv :: "approval_config \<Rightarrow> approval_system \<Rightarrow> bool" where
  "approval_inv cfg s \<longleftrightarrow> records_ok cfg (ay_log s) (dk_visible (ay_disk s)) \<and>
     records_ok cfg (ay_log s) (dk_durable (ay_disk s)) \<and> distinct (issued_keys (ay_log s))"

section \<open>One mutation of a record\<close>

definition transition :: "approval_record \<Rightarrow> approval_record \<Rightarrow> bool" where
  "transition r r' \<longleftrightarrow> ap_authorityContext r' = ap_authorityContext r \<and> ap_challenge r' = ap_challenge r \<and>
     (ap_phase r' = ap_phase r \<or>
      (case ap_phase r of
         ApprovalPending \<Rightarrow> (case ap_phase r' of Approved _ \<Rightarrow> True | Denied _ \<Rightarrow> True | Revoked _ _ \<Rightarrow> True | _ \<Rightarrow> False)
       | Approved _ \<Rightarrow> (case ap_phase r' of Revoked _ _ \<Rightarrow> True | ConsumedNotDispatched _ _ _ \<Rightarrow> True | _ \<Rightarrow> False)
       | ConsumedNotDispatched _ _ consumed \<Rightarrow> (case ap_phase r' of DispatchArmed _ _ _ armed \<Rightarrow> armed = consumed | _ \<Rightarrow> False)
       | _ \<Rightarrow> False))"

lemma transition_refl [simp]: "transition r r"
  by (simp add: transition_def)

lemma holds_kept:
  assumes "holds records event" and "\<And>r. records recordId = Some r \<Longrightarrow> transition r r'"
  shows "holds (records(recordId \<mapsto> r')) event"
proof -
  have phase: "records recordId = Some r \<Longrightarrow> ap_challenge r' = ap_challenge r \<and> (ap_phase r' = ap_phase r \<or>
      (case ap_phase r of
         ApprovalPending \<Rightarrow> (case ap_phase r' of Approved _ \<Rightarrow> True | Denied _ \<Rightarrow> True | Revoked _ _ \<Rightarrow> True | _ \<Rightarrow> False)
       | Approved _ \<Rightarrow> (case ap_phase r' of Revoked _ _ \<Rightarrow> True | ConsumedNotDispatched _ _ _ \<Rightarrow> True | _ \<Rightarrow> False)
       | ConsumedNotDispatched _ _ consumed \<Rightarrow> (case ap_phase r' of DispatchArmed _ _ _ armed \<Rightarrow> armed = consumed | _ \<Rightarrow> False)
       | _ \<Rightarrow> False))" for r
    using assms(2) by (simp add: transition_def)
  show ?thesis
  proof (cases event)
    case (ReservationIssued reservation)
    with assms(1) phase show ?thesis by (auto split: option.splits approval_phase.splits)
  next
    case (GrantIssued grant now)
    with assms(1) phase show ?thesis by (auto split: option.splits approval_phase.splits)
  next
    case (DenialAnswered i)
    with assms(1) phase show ?thesis by (auto split: option.splits approval_phase.splits)
  next
    case (RevocationAnswered i)
    with assms(1) phase show ?thesis by (auto split: option.splits approval_phase.splits)
  qed simp_all
qed

lemma record_ok_mono:
  assumes "record_ok cfg log recordId r" and "set log \<subseteq> set log'"
  shows "record_ok cfg log' recordId r"
proof -
  have "decision_ok cfg log recordId r kind d \<Longrightarrow> decision_ok cfg log' recordId r kind d" for kind d
    using assms(2) by (auto simp: decision_ok_def)
  moreover have "challenge_ok cfg log' recordId r" using assms unfolding record_ok_def challenge_ok_def by blast
  ultimately show ?thesis using assms(1) by (auto simp: record_ok_def phase_ok_def split: approval_phase.splits)
qed

definition always_holds :: "approval_event \<Rightarrow> bool" where
  "always_holds event \<longleftrightarrow> (case event of Requested _ _ _ \<Rightarrow> True | DecisionAsked _ _ _ \<Rightarrow> True | _ \<Rightarrow> False)"

lemma always_holdsD: "always_holds event \<Longrightarrow> holds records event \<and> event_key event = None"
  by (cases event) (simp_all add: always_holds_def)

lemma records_ok_asked:
  assumes "records_ok cfg log records" and "\<forall>event\<in>set asked. always_holds event"
  shows "records_ok cfg (asked @ log) records"
  using assms record_ok_mono [of cfg log _ _ "asked @ log"] always_holdsD
  by (fastforce simp: records_ok_def)

lemma records_ok_set:
  assumes "records_ok cfg log records" and "record_ok cfg log recordId r'"
    and "\<And>r. js_get records recordId = Some r \<Longrightarrow> transition r r'"
    and "\<forall>event\<in>set issued. \<forall>recs. recs recordId = Some r' \<longrightarrow> holds recs event"
  shows "records_ok cfg (issued @ log) (js_set recordId r' records)"
proof -
  have get: "js_get (js_set recordId r' records) = (js_get records)(recordId \<mapsto> r')" by (rule update_conv')
  show ?thesis unfolding records_ok_def get
  proof (intro conjI allI impI ballI)
    show "js_map_ok (js_set recordId r' records)" using assms(1) by (simp add: records_ok_def)
    fix i r assume "((js_get records)(recordId \<mapsto> r')) i = Some r"
    then have "record_ok cfg log i r" using assms(1,2) by (auto simp: records_ok_def split: if_splits)
    then show "record_ok cfg (issued @ log) i r" by (rule record_ok_mono) simp
  next
    fix event assume "event \<in> set (issued @ log)"
    then consider "event \<in> set issued" | "holds (js_get records) event" using assms(1) by (auto simp: records_ok_def)
    then show "holds ((js_get records)(recordId \<mapsto> r')) event"
    proof cases
      case 1
      with assms(4) show ?thesis by simp
    next
      case 2
      then show ?thesis by (rule holds_kept) (rule assms(3))
    qed
  qed
qed

text \<open>
  What a mutation of the ledger guarantees: it leaves an absent record absent and answers
  without issuing, or it writes a record that fits the log, that the old one may become, and
  that bears out what is issued, which was not issued before.
\<close>

definition written_ok :: "approval_config \<Rightarrow> approval_event list \<Rightarrow> approval_store \<Rightarrow> string
    \<Rightarrow> approval_event list \<Rightarrow> approval_record \<Rightarrow> bool" where
  "written_ok cfg log records recordId events r' \<longleftrightarrow> record_ok cfg log recordId r' \<and>
     (\<forall>r. js_get records recordId = Some r \<longrightarrow> transition r r') \<and>
     (\<forall>event\<in>set events. (\<forall>recs. recs recordId = Some r' \<longrightarrow> holds recs event)) \<and>
     distinct (issued_keys events) \<and>
     (\<forall>key\<in>set (issued_keys events). \<forall>event. event_key event = Some key \<longrightarrow> \<not> holds (js_get records) event)"

definition mutation_ok :: "approval_config \<Rightarrow> approval_event list \<Rightarrow> approval_store \<Rightarrow> string \<Rightarrow> ('a \<Rightarrow> approval_event list)
    \<Rightarrow> (approval_record option \<Rightarrow> approval_error + (approval_record option \<times> 'a)) \<Rightarrow> bool" where
  "mutation_ok cfg log records recordId issue mutate \<longleftrightarrow> (\<forall>nextRecord x.
     mutate (js_get records recordId) = Inr (nextRecord, x) \<longrightarrow>
     (nextRecord = None \<and> js_get records recordId = None \<and> issue x = []) \<or>
     (\<exists>r'. nextRecord = Some r' \<and> written_ok cfg log records recordId (issue x) r'))"

lemma issued_keys_append: "issued_keys (xs @ ys) = issued_keys xs @ issued_keys ys"
  by (induction xs) (simp_all add: issued_keys_def List.map_filter_simps split: option.split)

lemma issued_keys_Nil [simp]: "issued_keys [] = []"
  by (simp add: issued_keys_def List.map_filter_simps)

lemma issued_keys_set: "key \<in> set (issued_keys log) \<longleftrightarrow> (\<exists>event\<in>set log. event_key event = Some key)"
  by (induction log) (auto simp: issued_keys_def List.map_filter_simps split: option.splits)

lemma issued_keys_asked: "\<forall>event\<in>set asked. always_holds event \<Longrightarrow> issued_keys asked = []"
  using issued_keys_set always_holdsD by (metis list.set_intros(1) neq_Nil_conv option.distinct(1))

lemma mutateRecord_keeps:
  assumes vis: "records_ok cfg log (dk_visible disk)" and dur: "records_ok cfg log (dk_durable disk)"
    and keys: "distinct (issued_keys log)"
    and ok: "mutation_ok cfg log (dk_visible disk) recordId issue mutate"
    and run: "mutateRecord ecfg w recordId mutate disk = (res, disk')"
  shows "(\<forall>x. res = Inr x \<longrightarrow> records_ok cfg (issue x @ log) (dk_visible disk') \<and> records_ok cfg (issue x @ log) (dk_durable disk') \<and>
      distinct (issued_keys (issue x @ log))) \<and>
    records_ok cfg log (dk_visible disk') \<and> records_ok cfg log (dk_durable disk')"
proof -
  let ?current = "js_get (dk_visible disk) recordId"
  have same: "?thesis" if "disk' = disk" "\<forall>x. res = Inr x \<longrightarrow> issue x = []"
    using that vis dur keys by simp
  show ?thesis
  proof (cases "assertSafeRecordId recordId")
    case False
    with run have "disk' = disk" "\<forall>x. res = Inr x \<longrightarrow> issue x = []" by (auto simp: mutateRecord_def)
    then show ?thesis by (rule same)
  next
    case safe: True
    define checked where "checked = result_bind (parse_stored ecfg ?current) (\<lambda>_.
       result_bind (mutate ?current) (\<lambda>(nextRecord, result).
       result_bind (parse_stored ecfg nextRecord) (\<lambda>_. Inr (nextRecord, result))))"
    from run safe have res: "(case checked of
          Inl e \<Rightarrow> (Inl e, disk)
        | Inr (None, result) \<Rightarrow>
            if ?current \<noteq> None then persist w (js_delete recordId (dk_visible disk)) result disk
            else if w = FailedBefore then (Inl StoreFailed, disk)
            else (Inr result, disk)
        | Inr (Some r, result) \<Rightarrow> persist w (js_set recordId r (dk_visible disk)) result disk) = (res, disk')"
      by (simp add: mutateRecord_def Let_def checked_def)
    show ?thesis
    proof (cases checked)
      case (Inl e)
      with res same show ?thesis by auto
    next
      case (Inr p)
      obtain nextRecord x where p: "p = (nextRecord, x)" by (cases p)
      with Inr have mutate: "mutate ?current = Inr (nextRecord, x)"
        by (auto simp: checked_def result_simps)
      note ok = ok [unfolded mutation_ok_def, rule_format, OF mutate]
      show ?thesis
      proof (cases nextRecord)
        case None
        with ok have "?current = None" "issue x = []" by auto
        with res Inr p None same show ?thesis by (auto split: if_splits)
      next
        case (Some r')
        with ok have r': "record_ok cfg log recordId r'" and trans: "\<And>r. ?current = Some r \<Longrightarrow> transition r r'"
          and bears: "\<forall>event\<in>set (issue x). \<forall>recs. recs recordId = Some r' \<longrightarrow> holds recs event"
          and fresh: "distinct (issued_keys (issue x))"
            "\<forall>key\<in>set (issued_keys (issue x)). \<forall>event. event_key event = Some key \<longrightarrow> \<not> holds (js_get (dk_visible disk)) event"
          by (auto simp: written_ok_def)
        let ?new = "js_set recordId r' (dk_visible disk)"
        have new: "records_ok cfg (issue x @ log) ?new" using vis r' trans bears by (rule records_ok_set)
        have new': "records_ok cfg log ?new" using records_ok_set [OF vis r' trans, of "[]"] by simp
        have "set (issued_keys (issue x)) \<inter> set (issued_keys log) = {}"
        proof (rule ccontr)
          assume "set (issued_keys (issue x)) \<inter> set (issued_keys log) \<noteq> {}"
          then obtain key where key: "key \<in> set (issued_keys (issue x))" and "key \<in> set (issued_keys log)" by blast
          then obtain event where "event \<in> set log" "event_key event = Some key" by (auto simp: issued_keys_set)
          with key fresh(2) vis show False by (auto simp: records_ok_def)
        qed
        with keys fresh(1) have keys': "distinct (issued_keys (issue x @ log))" by (simp add: issued_keys_append)
        from res Inr p Some have "persist w ?new x disk = (res, disk')" by simp
        with new new' dur keys' show ?thesis
          using vis by (cases w) (auto simp: persist_def)
      qed
    qed
  qed
qed

end
