(* ===== verification/ApprovalInvariant.thy ===== *)
theory ApprovalInvariant
  imports ApprovalRuns
begin

text \<open>
  Every mutation of the approval ledger keeps the invariant of \<open>ApprovalRuns\<close>: requesting,
  arming, deciding and revoking under every outcome of the store, and a restart on what survived.
\<close>

section \<open>The mutations of the ledger\<close>

lemma finite_authority: "finite_json (authority_json a)"
  by (simp add: authority_json_def)

lemma finite_reservation: "finite_json (reservation_json r)"
  by (simp add: reservation_json_def finite_authority optional_field_def split: option.split)

lemma sameAuthority_iff: "sameAuthority cfg r a \<longleftrightarrow> ap_authorityContext r = a"
  by (auto simp: sameAuthority_def sameCanonicalValue_def
      approval_canonical_eq_iff [OF finite_authority finite_authority] dest: authority_form_inj)

lemma sameReservation_iff: "sameReservation cfg r s \<longleftrightarrow> r = s"
  by (auto simp: sameReservation_def sameCanonicalValue_def
      approval_canonical_eq_iff [OF finite_reservation finite_reservation] dest: reservation_form_inj)

text \<open>The configuration of a run differs from epoch to epoch in nothing the records depend on.\<close>

lemma epoch_config_simps [simp]:
  "pc_sha256 (epoch_config cfg s) = pc_sha256 cfg" "pc_localeCompare (epoch_config cfg s) = pc_localeCompare cfg"
  "pc_challengeTtlMs (epoch_config cfg s) = pc_challengeTtlMs cfg" "pc_accepts (epoch_config cfg s) = pc_accepts cfg"
  "pc_zoneId (epoch_config cfg s) = pc_zoneId cfg" "pc_currentControllerEpoch (epoch_config cfg s) = ay_epoch s"
  by (simp_all add: epoch_config_def)

lemma principal_of_epoch [simp]: "principal_of (epoch_config cfg s) i = principal_of cfg i"
  by (simp add: principal_of_def)

lemma new_reservation_epoch [simp]: "new_reservation (epoch_config cfg s) = new_reservation cfg"
  by (intro ext) (simp add: new_reservation_def)

text \<open>A mutation that writes back what it found and issues nothing.\<close>

lemma write_back_ok:
  "records_ok cfg log records \<Longrightarrow> js_get records recordId = Some r \<Longrightarrow> written_ok cfg log records recordId [] r"
  by (simp add: written_ok_def records_ok_def)

text \<open>A key that an event issues for a record is fresh when the record does not bear it out.\<close>

lemma reservation_key_fresh:
  assumes "js_get records recordId = Some r" and "event_key event = Some (0, recordId)"
    and "\<And>d t x. ap_phase r \<noteq> ConsumedNotDispatched d t x" and "\<And>d t g x. ap_phase r \<noteq> DispatchArmed d t g x"
  shows "\<not> holds (js_get records) event"
  using assms by (cases event) (auto split: approval_phase.splits)

lemma grant_key_fresh:
  assumes "js_get records recordId = Some r" and "event_key event = Some (1, recordId)"
    and "\<And>d t g x. ap_phase r \<noteq> DispatchArmed d t g x"
  shows "\<not> holds (js_get records) event"
  using assms by (cases event) (auto split: approval_phase.splits)

lemma record_okI:
  "challenge_ok cfg log recordId r \<Longrightarrow> phase_ok cfg log recordId r \<Longrightarrow> record_ok cfg log recordId r"
  by (simp add: record_ok_def)

lemma challenge_ok_phase [simp]: "challenge_ok cfg log recordId (r\<lparr>ap_phase := p\<rparr>) \<longleftrightarrow> challenge_ok cfg log recordId r"
  by (simp add: challenge_ok_def)

lemma decision_ok_phase [simp]: "decision_ok cfg log recordId (r\<lparr>ap_phase := p\<rparr>) kind d \<longleftrightarrow> decision_ok cfg log recordId r kind d"
  by (simp add: decision_ok_def)

lemma reservation_ok_phase [simp]: "reservation_ok cfg (r\<lparr>ap_phase := p\<rparr>) x \<longleftrightarrow> reservation_ok cfg r x"
  by (simp add: reservation_ok_def)

lemma iso_date_Inr [result_simps]: "iso_date t = Inr s \<longleftrightarrow> toISOString t = Some s"
  by (simp add: iso_date_def split: option.split)

lemma new_challenge_Inr:
  "new_challenge cfg now intent fingerprint approvalId = Inr c \<Longrightarrow>
     ch_approvalId c = approvalId \<and> ch_fingerprint c = fingerprint \<and> ch_intent c = intent \<and>
     toISOString (now + pc_challengeTtlMs cfg) = Some (ch_expiresAt c)"
  by (auto simp: new_challenge_def Let_def result_simps)

lemma request_mutation_ok:
  assumes ok: "records_ok cfg log records" and asked: "Requested (mo_now mo) a intent \<in> set log"
    and fp: "fingerprint_of cfg a intent = Inr fp" and recordId: "recordId = deriveGatewayRuntimeApprovalId fp"
  shows "mutation_ok cfg log records recordId (\<lambda>x. request_events (Inr x))
    (request_mutation (epoch_config cfg s) mo a intent fp recordId)"
  unfolding mutation_ok_def
proof (intro allI impI)
  fix nextRecord x assume m: "request_mutation (epoch_config cfg s) mo a intent fp recordId (js_get records recordId) = Inr (nextRecord, x)"
  show "(nextRecord = None \<and> js_get records recordId = None \<and> request_events (Inr x) = []) \<or>
     (\<exists>r'. nextRecord = Some r' \<and> written_ok cfg log records recordId (request_events (Inr x)) r')"
  proof (cases "js_get records recordId")
    case None
    with m consider "nextRecord = None" "request_events (Inr x) = []"
      | c where "new_challenge (epoch_config cfg s) (mo_now mo) intent fp recordId = Inr c" "request_events (Inr x) = []"
        "nextRecord = Some \<lparr>ap_authorityContext = a, ap_challenge = c, ap_phase = ApprovalPending\<rparr>"
      by (auto simp: request_mutation_def is_armed_def Let_def result_simps split: if_splits)
    then show ?thesis
    proof cases
      case 1
      with None show ?thesis by simp
    next
      case (2 c)
      have "record_ok cfg log recordId \<lparr>ap_authorityContext = a, ap_challenge = c, ap_phase = ApprovalPending\<rparr>"
        using new_challenge_Inr [OF 2(1)] asked fp recordId
        by (auto simp: record_ok_def challenge_ok_def phase_ok_def)
      with None 2 show ?thesis by (simp add: written_ok_def)
    qed
  next
    case (Some r)
    note kept = write_back_ok [OF ok Some]
    from m Some consider "nextRecord = Some r" "request_events (Inr x) = []"
      | d t reservation where "ap_phase r = Approved d" "ap_authorityContext r = a" "ch_fingerprint (ap_challenge r) = fp"
        "reservation = new_reservation cfg a intent fp recordId (mo_uuid mo) (ap_challenge r)"
        "nextRecord = Some (r\<lparr>ap_phase := ConsumedNotDispatched d t reservation\<rparr>)"
        "x = Answered (DispatchReserved reservation)"
      by (auto simp: request_mutation_def request_from_record_def notDispatched_def sameAuthority_iff Let_def result_simps
          split: if_splits approval_phase.splits)
    then show ?thesis
    proof cases
      case 1
      with kept show ?thesis by simp
    next
      case 2
      have old: "record_ok cfg log recordId r" using ok Some by (simp add: records_ok_def)
      then have "reservation_ok cfg r reservation"
        using 2 fp by (auto simp: reservation_ok_def record_ok_def challenge_ok_def)
      then have "record_ok cfg log recordId (r\<lparr>ap_phase := ConsumedNotDispatched d t reservation\<rparr>)"
        using old 2(1) by (simp add: record_ok_def phase_ok_def)
      moreover have "da_approvalId reservation = recordId" using 2(4) by (simp add: new_reservation_def)
      moreover have "\<not> holds (js_get records) event" if "event_key event = Some (0, recordId)" for event
        by (rule reservation_key_fresh [OF Some that]) (simp_all add: 2(1))
      ultimately show ?thesis using 2 Some
        by (simp add: written_ok_def transition_def issued_keys_def List.map_filter_simps)
    qed
  qed
qed

lemma arm_mutation_ok:
  assumes ok: "records_ok cfg log records" and recordId: "recordId = da_approvalId reservation"
  shows "mutation_ok cfg log records recordId (\<lambda>x. arm_events (mo_now mo) (Inr x))
    (arm_mutation (epoch_config cfg s) mo a reservation)"
  unfolding mutation_ok_def
proof (intro allI impI)
  fix nextRecord x assume m: "arm_mutation (epoch_config cfg s) mo a reservation (js_get records recordId) = Inr (nextRecord, x)"
  show "(nextRecord = None \<and> js_get records recordId = None \<and> arm_events (mo_now mo) (Inr x) = []) \<or>
     (\<exists>r'. nextRecord = Some r' \<and> written_ok cfg log records recordId (arm_events (mo_now mo) (Inr x)) r')"
  proof (cases "js_get records recordId")
    case None
    with m show ?thesis by (auto simp: arm_mutation_def)
  next
    case (Some r)
    note kept = write_back_ok [OF ok Some]
    from m Some consider "nextRecord = Some r" "arm_events (mo_now mo) (Inr x) = []"
      | d t t' grant where "ap_phase r = ConsumedNotDispatched d t reservation" "ap_authorityContext r = a"
        "\<not> isExpired (ap_challenge r) (mo_now mo)" "grant = new_grant a reservation (mo_uuid mo)"
        "nextRecord = Some (r\<lparr>ap_phase := DispatchArmed d t' grant reservation\<rparr>)" "x = Answered grant"
      by (auto simp: arm_mutation_def notDispatched_def sameAuthority_iff sameReservation_iff Let_def result_simps
          split: if_splits approval_phase.splits)
    then show ?thesis
    proof cases
      case 1
      with kept show ?thesis by simp
    next
      case 2
      have old: "record_ok cfg log recordId r" using ok Some by (simp add: records_ok_def)
      have "grant = new_grant (ap_authorityContext r) reservation (gr_grantId grant)" using 2(2,4) by (simp add: new_grant_def)
      with old 2(1) have "record_ok cfg log recordId (r\<lparr>ap_phase := DispatchArmed d t' grant reservation\<rparr>)"
        by (simp add: record_ok_def phase_ok_def)
      moreover have "da_approvalId grant = recordId" using 2(4) recordId by (simp add: new_grant_def)
      moreover have "\<not> holds (js_get records) event" if "event_key event = Some (1, recordId)" for event
        by (rule grant_key_fresh [OF Some that]) (simp add: 2(1))
      ultimately show ?thesis using 2 Some
        by (simp add: written_ok_def transition_def issued_keys_def List.map_filter_simps)
    qed
  qed
qed

lemma decide_mutation_ok:
  assumes ok: "records_ok cfg log records" and asked: "DecisionAsked recordId kind operator \<in> set log"
  shows "mutation_ok cfg log records recordId (\<lambda>x. decide_events recordId (Inr x))
    (decide_mutation (epoch_config cfg s) mo a kind operator)"
  unfolding mutation_ok_def
proof (intro allI impI)
  fix nextRecord x assume m: "decide_mutation (epoch_config cfg s) mo a kind operator (js_get records recordId) = Inr (nextRecord, x)"
  show "(nextRecord = None \<and> js_get records recordId = None \<and> decide_events recordId (Inr x) = []) \<or>
     (\<exists>r'. nextRecord = Some r' \<and> written_ok cfg log records recordId (decide_events recordId (Inr x)) r')"
  proof (cases "js_get records recordId")
    case None
    with m show ?thesis by (auto simp: decide_mutation_def)
  next
    case (Some r)
    note kept = write_back_ok [OF ok Some]
    from m Some consider "nextRecord = Some r" "decide_events recordId (Inr x) = []"
      | t v where "ap_phase r = ApprovalPending" "principal_of cfg (ch_intent (ap_challenge r)) = ao_stablePrincipal operator"
        "nextRecord = Some (decided_record kind \<lparr>de_decidedAt = t, de_decision = kind, de_operator = operator\<rparr> r)"
        "x = DecisionRecorded kind v"
      by (auto simp: decide_mutation_def Let_def result_simps split: if_splits)
    then show ?thesis
    proof cases
      case 1
      with kept show ?thesis by simp
    next
      case 2
      have old: "record_ok cfg log recordId r" using ok Some by (simp add: records_ok_def)
      have "decision_ok cfg log recordId r kind \<lparr>de_decidedAt = t, de_decision = kind, de_operator = operator\<rparr>"
        using 2(2) asked by (simp add: decision_ok_def)
      with old 2 Some show ?thesis
        by (cases kind) (auto simp: written_ok_def transition_def decided_record_def record_ok_def phase_ok_def
            issued_keys_def List.map_filter_simps)
    qed
  qed
qed

lemma revoke_mutation_ok:
  assumes ok: "records_ok cfg log records"
  shows "mutation_ok cfg log records recordId (\<lambda>x. revoke_events recordId (Inr x))
    (revoke_mutation (epoch_config cfg s) mo a operator)"
  unfolding mutation_ok_def
proof (intro allI impI)
  fix nextRecord x assume m: "revoke_mutation (epoch_config cfg s) mo a operator (js_get records recordId) = Inr (nextRecord, x)"
  show "(nextRecord = None \<and> js_get records recordId = None \<and> revoke_events recordId (Inr x) = []) \<or>
     (\<exists>r'. nextRecord = Some r' \<and> written_ok cfg log records recordId (revoke_events recordId (Inr x)) r')"
  proof (cases "js_get records recordId")
    case None
    with m show ?thesis by (auto simp: revoke_mutation_def)
  next
    case (Some r)
    note kept = write_back_ok [OF ok Some]
    from m Some consider "nextRecord = Some r" "revoke_events recordId (Inr x) = []"
      | prior revocation v where "ap_phase r = ApprovalPending \<or> (\<exists>d. ap_phase r = Approved d)"
        "nextRecord = Some (r\<lparr>ap_phase := Revoked prior revocation\<rparr>)" "x = RevocationRecorded v"
      by (auto simp: revoke_mutation_def Let_def result_simps split: if_splits approval_phase.splits)
    then show ?thesis
    proof cases
      case 1
      with kept show ?thesis by simp
    next
      case 2
      have old: "record_ok cfg log recordId r" using ok Some by (simp add: records_ok_def)
      with 2 Some show ?thesis
        by (auto simp: written_ok_def transition_def record_ok_def phase_ok_def issued_keys_def List.map_filter_simps)
    qed
  qed
qed

section \<open>The invariant along runs\<close>

text \<open>What is withheld after the store was written issues nothing more.\<close>

lemma withheld_call:
  assumes inv: "records_ok cfg log (dk_visible disk)" "records_ok cfg log (dk_durable disk)" "distinct (issued_keys log)"
    and ok: "mutation_ok cfg log (dk_visible disk) recordId (\<lambda>x. issue (Inr x)) mutate"
    and run: "then_answer f (mutateRecord ecfg w recordId mutate disk) = (answer, disk')"
    and none: "\<And>e. issue (Inl e) = []" and withheld: "\<And>x. f x = x \<or> issue (Inr (f x)) = []"
  shows "records_ok cfg (issue answer @ log) (dk_visible disk') \<and> records_ok cfg (issue answer @ log) (dk_durable disk') \<and>
    distinct (issued_keys (issue answer @ log))"
proof -
  obtain res disk1 where m: "mutateRecord ecfg w recordId mutate disk = (res, disk1)" by fastforce
  note keeps = mutateRecord_keeps [OF inv ok m]
  show ?thesis
  proof (cases res)
    case (Inl e)
    with run m keeps none inv(3) show ?thesis by (auto simp: then_answer_def)
  next
    case (Inr x)
    with run m have "answer = Inr (f x)" "disk' = disk1" by (auto simp: then_answer_def)
    with withheld [of x] keeps Inr inv(3) show ?thesis by auto
  qed
qed

lemma approval_inv_after:
  assumes "approval_inv cfg s" and "\<forall>event\<in>set asked. always_holds event"
  shows "records_ok cfg (asked @ ay_log s) (dk_visible (ay_disk s))" "records_ok cfg (asked @ ay_log s) (dk_durable (ay_disk s))"
    "distinct (issued_keys (asked @ ay_log s))"
  using assms records_ok_asked [OF _ assms(2)] issued_keys_asked [OF assms(2)]
  by (simp_all add: approval_inv_def issued_keys_append)

lemma unchanged_call:
  assumes "approval_inv cfg s" and "\<forall>event\<in>set asked. always_holds event"
  shows "approval_inv cfg (s\<lparr>ay_log := asked @ ay_log s\<rparr>)"
  using approval_inv_after [OF assms] by (simp add: approval_inv_def)

lemma requestApproval_inv:
  assumes inv: "approval_inv cfg s" and run: "requestApproval (epoch_config cfg s) mo a intent (ay_disk s) = (answer, disk')"
  shows "approval_inv cfg (s\<lparr>ay_disk := disk', ay_log := request_events answer @ Requested (mo_now mo) a intent # ay_log s\<rparr>)"
proof -
  have asked: "\<forall>event\<in>set [Requested (mo_now mo) a intent]. always_holds event" by (simp add: always_holds_def)
  note before = approval_inv_after [OF inv asked, simplified]
  from run consider "disk' = ay_disk s" "request_events answer = []"
    | fp f where "fingerprint_of cfg a intent = Inr fp"
      "then_answer f (mutateRecord (epoch_config cfg s) (mo_write mo) (deriveGatewayRuntimeApprovalId fp)
         (request_mutation (epoch_config cfg s) mo a intent fp (deriveGatewayRuntimeApprovalId fp)) (ay_disk s)) = (answer, disk')"
      "\<And>x. f x = x \<or> request_events (Inr (f x)) = []"
    by (fastforce simp: requestApproval_def fingerprint_of_def Let_def split: sum.splits if_splits dispatch_answer.splits)
  then show ?thesis
  proof cases
    case 1
    with unchanged_call [OF inv asked] show ?thesis by (simp add: approval_inv_def)
  next
    case (2 fp f)
    have "mutation_ok cfg (Requested (mo_now mo) a intent # ay_log s) (dk_visible (ay_disk s)) (deriveGatewayRuntimeApprovalId fp)
        (\<lambda>x. request_events (Inr x)) (request_mutation (epoch_config cfg s) mo a intent fp (deriveGatewayRuntimeApprovalId fp))"
      by (rule request_mutation_ok [OF before(1) _ 2(1) refl]) simp
    from withheld_call [OF before this 2(2) _ 2(3)] show ?thesis by (simp add: approval_inv_def)
  qed
qed

lemma armDispatch_inv:
  assumes inv: "approval_inv cfg s" and run: "armDispatch (epoch_config cfg s) mo a reservation (ay_disk s) = (answer, disk')"
  shows "approval_inv cfg (s\<lparr>ay_disk := disk', ay_log := arm_events (mo_now mo) answer @ ay_log s\<rparr>)"
proof -
  note before = approval_inv_after [OF inv, of "[]", simplified]
  from run consider "disk' = ay_disk s" "arm_events (mo_now mo) answer = []"
    | f where "then_answer f (mutateRecord (epoch_config cfg s) (mo_write mo) (da_approvalId reservation)
         (arm_mutation (epoch_config cfg s) mo a reservation) (ay_disk s)) = (answer, disk')"
      "\<And>x. f x = x \<or> arm_events (mo_now mo) (Inr (f x)) = []"
    by (fastforce simp: armDispatch_def split: sum.splits if_splits dispatch_answer.splits option.splits)
  then show ?thesis
  proof cases
    case 1
    with inv show ?thesis by (simp add: approval_inv_def)
  next
    case (2 f)
    from withheld_call [OF before arm_mutation_ok [OF before(1) refl] 2(1) _ 2(2)] show ?thesis by (simp add: approval_inv_def)
  qed
qed

lemma decide_inv:
  assumes inv: "approval_inv cfg s" and run: "decide (epoch_config cfg s) mo approvalId a kind operator (ay_disk s) = (answer, disk')"
  shows "approval_inv cfg (s\<lparr>ay_disk := disk', ay_log := decide_events approvalId answer @ DecisionAsked approvalId kind operator # ay_log s\<rparr>)"
proof -
  have asked: "\<forall>event\<in>set [DecisionAsked approvalId kind operator]. always_holds event" by (simp add: always_holds_def)
  note before = approval_inv_after [OF inv asked, simplified]
  from run consider "disk' = ay_disk s" "decide_events approvalId answer = []"
    | f where "then_answer f (mutateRecord (epoch_config cfg s) (mo_write mo) approvalId
         (decide_mutation (epoch_config cfg s) mo a kind operator) (ay_disk s)) = (answer, disk')"
      "\<And>x. f x = x \<or> decide_events approvalId (Inr (f x)) = []"
    by (fastforce simp: decide_def split: sum.splits if_splits decision_result.splits)
  then show ?thesis
  proof cases
    case 1
    with unchanged_call [OF inv asked] show ?thesis by (simp add: approval_inv_def)
  next
    case (2 f)
    have "mutation_ok cfg (DecisionAsked approvalId kind operator # ay_log s) (dk_visible (ay_disk s)) approvalId
        (\<lambda>x. decide_events approvalId (Inr x)) (decide_mutation (epoch_config cfg s) mo a kind operator)"
      by (rule decide_mutation_ok [OF before(1)]) simp
    from withheld_call [OF before this 2(1) _ 2(2)] show ?thesis by (simp add: approval_inv_def)
  qed
qed

lemma then_answer_id: "then_answer (\<lambda>x. x) r = r"
  by (cases r) (simp add: then_answer_def split: sum.split)

lemma revoke_inv:
  assumes inv: "approval_inv cfg s" and run: "revoke (epoch_config cfg s) mo approvalId a operator (ay_disk s) = (answer, disk')"
  shows "approval_inv cfg (s\<lparr>ay_disk := disk', ay_log := revoke_events approvalId answer @ ay_log s\<rparr>)"
proof -
  note before = approval_inv_after [OF inv, of "[]", simplified]
  from run consider "disk' = ay_disk s" "revoke_events approvalId answer = []"
    | "then_answer (\<lambda>x. x) (mutateRecord (epoch_config cfg s) (mo_write mo) approvalId
         (revoke_mutation (epoch_config cfg s) mo a operator) (ay_disk s)) = (answer, disk')"
    by (auto simp: revoke_def then_answer_id split: sum.splits if_splits)
  then show ?thesis
  proof cases
    case 1
    with inv show ?thesis by (simp add: approval_inv_def)
  next
    case 2
    from withheld_call [OF before revoke_mutation_ok [OF before(1)] 2] show ?thesis by (simp add: approval_inv_def)
  qed
qed

lemma js_get_restart:
  assumes "js_map_ok xs" and "js_map_ok ys"
  shows "js_get (filter (\<lambda>(k, _). kept k) xs @ filter (\<lambda>(k, _). \<not> kept k) ys) i = (if kept i then js_get xs i else js_get ys i)"
  using js_get_filter [OF assms(1), of "\<lambda>k _. kept k"] js_get_filter [OF assms(2), of "\<lambda>k _. \<not> kept k"]
  by (simp add: map_add_def split: option.split)

lemma js_map_ok_restart:
  assumes "js_map_ok xs" and "js_map_ok ys"
  shows "js_map_ok (filter (\<lambda>(k, _). kept k) xs @ filter (\<lambda>(k, _). \<not> kept k) ys)"
  using js_map_ok_filter [OF assms(1), of "\<lambda>(k, _). kept k"] js_map_ok_filter [OF assms(2), of "\<lambda>(k, _). \<not> kept k"]
  by (auto simp: js_map_ok_def)

lemma holds_pointwise:
  assumes "holds f event" and "holds g event" and "\<forall>i. h i = f i \<or> h i = g i"
  shows "holds h event"
proof -
  show ?thesis
  proof (cases event)
    case (ReservationIssued reservation)
    have "h (da_approvalId reservation) = f (da_approvalId reservation) \<or> h (da_approvalId reservation) = g (da_approvalId reservation)"
      using assms(3) by blast
    with assms(1,2) ReservationIssued show ?thesis by (elim disjE) simp_all
  next
    case (GrantIssued grant now)
    have "h (da_approvalId grant) = f (da_approvalId grant) \<or> h (da_approvalId grant) = g (da_approvalId grant)"
      using assms(3) by blast
    with assms(1,2) GrantIssued show ?thesis by (elim disjE) simp_all
  next
    case (DenialAnswered i)
    have "h i = f i \<or> h i = g i" using assms(3) by blast
    with assms(1,2) DenialAnswered show ?thesis by (elim disjE) simp_all
  next
    case (RevocationAnswered i)
    have "h i = f i \<or> h i = g i" using assms(3) by blast
    with assms(1,2) RevocationAnswered show ?thesis by (elim disjE) simp_all
  qed simp_all
qed

lemma restart_inv:
  assumes "approval_inv cfg s"
  shows "approval_inv cfg (s\<lparr>ay_disk := restart_disk kept (ay_disk s), ay_epoch := epoch\<rparr>)"
proof -
  let ?records = "filter (\<lambda>(i, _). kept i) (dk_visible (ay_disk s)) @ filter (\<lambda>(i, _). \<not> kept i) (dk_durable (ay_disk s))"
  from assms have vis: "records_ok cfg (ay_log s) (dk_visible (ay_disk s))" and dur: "records_ok cfg (ay_log s) (dk_durable (ay_disk s))"
    by (simp_all add: approval_inv_def)
  then have maps: "js_map_ok (dk_visible (ay_disk s))" "js_map_ok (dk_durable (ay_disk s))" by (simp_all add: records_ok_def)
  note get = js_get_restart [OF maps, of kept]
  have "records_ok cfg (ay_log s) ?records" unfolding records_ok_def
  proof (intro conjI allI impI ballI)
    show "js_map_ok ?records" by (rule js_map_ok_restart [OF maps])
    show "record_ok cfg (ay_log s) i r" if "js_get ?records i = Some r" for i r
      using that vis dur unfolding get records_ok_def by (auto split: if_splits)
    have pointwise: "\<forall>i. js_get ?records i = js_get (dk_visible (ay_disk s)) i \<or> js_get ?records i = js_get (dk_durable (ay_disk s)) i"
      unfolding get by simp
    show "holds (js_get ?records) event" if "event \<in> set (ay_log s)" for event
      by (rule holds_pointwise [OF _ _ pointwise]) (use that vis dur in \<open>simp_all add: records_ok_def\<close>)
  qed
  with assms show ?thesis by (simp add: approval_inv_def restart_disk_def Let_def)
qed

lemma approval_exec_inv: "approval_inv cfg s \<Longrightarrow> approval_exec cfg s c = Inr s' \<Longrightarrow> approval_inv cfg s'"
proof (cases c)
  case (RequestApproval mo a intent)
  assume "approval_inv cfg s" "approval_exec cfg s c = Inr s'"
  with RequestApproval requestApproval_inv [of cfg s mo a intent] show ?thesis
    by (cases "requestApproval (epoch_config cfg s) mo a intent (ay_disk s)") (auto simp: after_call_def)
next
  case (ArmDispatch mo a reservation)
  assume "approval_inv cfg s" "approval_exec cfg s c = Inr s'"
  with ArmDispatch armDispatch_inv [of cfg s mo a reservation] show ?thesis
    by (cases "armDispatch (epoch_config cfg s) mo a reservation (ay_disk s)") (auto simp: after_call_def)
next
  case (Decide mo approvalId a kind operator)
  assume "approval_inv cfg s" "approval_exec cfg s c = Inr s'"
  with Decide decide_inv [of cfg s mo approvalId a kind operator] show ?thesis
    by (cases "decide (epoch_config cfg s) mo approvalId a kind operator (ay_disk s)") (auto simp: after_call_def)
next
  case (RevokeApproval mo approvalId a operator)
  assume "approval_inv cfg s" "approval_exec cfg s c = Inr s'"
  with RevokeApproval revoke_inv [of cfg s mo approvalId a operator] show ?thesis
    by (cases "revoke (epoch_config cfg s) mo approvalId a operator (ay_disk s)") (auto simp: after_call_def)
next
  case (RestartController kept epoch)
  assume "approval_inv cfg s" "approval_exec cfg s c = Inr s'"
  with RestartController restart_inv [where cfg = cfg and s = s and kept = kept and epoch = epoch] show ?thesis by auto
qed

lemma approval_start_inv: "approval_inv cfg (approval_start epoch)"
  by (simp add: approval_inv_def approval_start_def records_ok_def)

interpretation approvals: guarded_reducer "approval_exec cfg" "\<lambda>_. True" "approval_inv cfg" for cfg
  by unfold_locales (rule approval_exec_inv)

end
