(* ===== verification/ApprovalProperties.thy ===== *)
theory ApprovalProperties
  imports ApprovalInvariant
begin

text \<open>
  The properties of the approval ledger: an approval issues at most once, a grant was approved
  by an operator of its principal, and an approved request is granted.
\<close>

section \<open>A request that is approved\<close>

definition calm_moment :: "approval_moment \<Rightarrow> challenge_intent \<Rightarrow> authority_context \<Rightarrow> int \<Rightarrow> bool" where
  "calm_moment mo intent a deadline \<longleftrightarrow>
     inputAuthorityIsCurrent (mo_validateInputAuthority mo) intent a \<and> intentIsCurrent (mo_validateIntent mo) intent a \<and>
     intentIsCurrent (mo_validateIntentAfter mo) intent a \<and> mo_write mo = Written \<and>
     0 \<le> mo_now mo \<and> mo_now mo < deadline \<and> 0 \<le> mo_nowChecked mo \<and> mo_nowChecked mo < deadline \<and>
     0 \<le> mo_nowRecorded mo \<and> mo_nowRecorded mo < deadline"

definition open_config :: "approval_config \<Rightarrow> bool" where
  "open_config cfg \<longleftrightarrow> (\<forall>x. pc_accepts cfg x)"

lemma open_parse [simp]: "open_config cfg \<Longrightarrow> parse_with cfg x = Inr ()"
  by (simp add: open_config_def parse_with_def)

lemma mutateRecord_written:
  assumes "open_config cfg" and "assertSafeRecordId recordId"
    and "\<And>r. js_get (dk_visible disk) recordId = Some r \<Longrightarrow> at_zoneId (ap_authorityContext r) = pc_zoneId cfg"
    and "mutate (js_get (dk_visible disk) recordId) = Inr (Some r', x)" and "at_zoneId (ap_authorityContext r') = pc_zoneId cfg"
  shows "mutateRecord cfg Written recordId mutate disk =
    (Inr x, \<lparr>dk_visible = js_set recordId r' (dk_visible disk), dk_durable = js_set recordId r' (dk_visible disk)\<rparr>)"
  using assms by (simp add: mutateRecord_def Let_def parse_stored_def parse_record_def persist_def split: option.split)

lemma toISOString_in_range:
  "0 \<le> t \<Longrightarrow> t < 253370764800000 \<Longrightarrow> \<exists>s. toISOString t = Some s"
  by (auto simp: toISOString_def Let_def split: prod.split)

definition iso :: "int \<Rightarrow> string" where
  "iso t = (case toISOString t of None \<Rightarrow> [] | Some s \<Rightarrow> s)"

lemma iso_date_iso: "0 \<le> t \<Longrightarrow> t < 253370764800000 \<Longrightarrow> iso_date t = Inr (iso t)"
  using toISOString_in_range [of t] by (auto simp: iso_date_def iso_def)

lemma Date_parse_iso: "0 \<le> t \<Longrightarrow> t < 253370764800000 \<Longrightarrow> Date_parse (iso t) = Some t"
  using toISOString_in_range [of t] Date_parse_toISOString [of t] by (auto simp: iso_def)

definition challenge_of :: "approval_config \<Rightarrow> int \<Rightarrow> challenge_intent \<Rightarrow> string \<Rightarrow> approval_challenge" where
  "challenge_of cfg createdAt intent fp = \<lparr>ch_approvalId = deriveGatewayRuntimeApprovalId fp, ch_createdAt = iso createdAt,
     ch_expiresAt = iso (createdAt + pc_challengeTtlMs cfg), ch_fingerprint = fp, ch_intent = intent\<rparr>"

lemma challenge_of_simps [simp]:
  "ch_fingerprint (challenge_of cfg t intent fp) = fp" "ch_intent (challenge_of cfg t intent fp) = intent"
  "ch_approvalId (challenge_of cfg t intent fp) = deriveGatewayRuntimeApprovalId fp"
  by (simp_all add: challenge_of_def)

lemma challenge_open:
  assumes "0 \<le> t + pc_challengeTtlMs cfg" and "t + pc_challengeTtlMs cfg < 253370764800000" and "now < t + pc_challengeTtlMs cfg"
  shows "\<not> isExpired (challenge_of cfg t intent fp) now"
  using assms by (simp add: isExpired_def challenge_of_def Date_parse_iso)

definition approval_setting :: "approval_config \<Rightarrow> authority_context \<Rightarrow> challenge_intent \<Rightarrow> string \<Rightarrow> int \<Rightarrow> bool" where
  "approval_setting cfg a intent fp createdAt \<longleftrightarrow> open_config cfg \<and> at_zoneId a = pc_zoneId cfg \<and>
     at_controllerEpoch a = pc_currentControllerEpoch cfg \<and> fingerprint_of cfg a intent = Inr fp \<and>
     assertSafeRecordId (deriveGatewayRuntimeApprovalId fp) \<and> 0 \<le> createdAt \<and> 0 < pc_challengeTtlMs cfg \<and>
     createdAt + pc_challengeTtlMs cfg < 253370764800000"

lemma settingD:
  assumes "approval_setting cfg a intent fp createdAt"
  shows "open_config cfg" "assertSafeRecordId (deriveGatewayRuntimeApprovalId fp)" "at_zoneId a = pc_zoneId cfg"
    "at_controllerEpoch a = pc_currentControllerEpoch cfg"
    "deriveGatewayRuntimeApprovalFingerprint (pc_localeCompare cfg) (pc_sha256 cfg) a intent = Inr fp"
  using assms by (simp_all add: approval_setting_def fingerprint_of_def)

lemma calmD:
  assumes "calm_moment mo intent a deadline"
  shows "inputAuthorityIsCurrent (mo_validateInputAuthority mo) intent a" "intentIsCurrent (mo_validateIntent mo) intent a"
    "intentIsCurrent (mo_validateIntentAfter mo) intent a" "mo_write mo = Written"
  using assms by (simp_all add: calm_moment_def)

lemma calm_dates:
  assumes "approval_setting cfg a intent fp createdAt" and "calm_moment mo intent a (createdAt + pc_challengeTtlMs cfg)"
  shows "\<not> isExpired (challenge_of cfg createdAt intent fp) (mo_now mo)"
    "\<not> isExpired (challenge_of cfg createdAt intent fp) (mo_nowChecked mo)"
    "iso_date (mo_now mo) = Inr (iso (mo_now mo))" "iso_date (mo_nowRecorded mo) = Inr (iso (mo_nowRecorded mo))"
  using assms by (simp_all add: approval_setting_def calm_moment_def challenge_open iso_date_iso)

lemma request_pending:
  assumes set: "approval_setting cfg a intent fp (mo_now mo)"
    and none: "js_get (dk_visible disk) (deriveGatewayRuntimeApprovalId fp) = None"
    and calm: "calm_moment mo intent a (mo_now mo + pc_challengeTtlMs cfg)"
  shows "\<exists>disk'. requestApproval cfg mo a intent disk =
      (Inr (Answered (ApprovalRequired (challenge_of cfg (mo_now mo) intent fp))), disk') \<and>
    js_get (dk_visible disk') (deriveGatewayRuntimeApprovalId fp) =
      Some \<lparr>ap_authorityContext = a, ap_challenge = challenge_of cfg (mo_now mo) intent fp, ap_phase = ApprovalPending\<rparr>"
proof -
  let ?r = "\<lparr>ap_authorityContext = a, ap_challenge = challenge_of cfg (mo_now mo) intent fp, ap_phase = ApprovalPending\<rparr>"
  let ?id = "deriveGatewayRuntimeApprovalId fp"
  note cfg = settingD [OF set]
  note current = calmD [OF calm]
  from set have dates: "iso_date (mo_now mo) = Inr (iso (mo_now mo))"
    "iso_date (mo_now mo + pc_challengeTtlMs cfg) = Inr (iso (mo_now mo + pc_challengeTtlMs cfg))"
    by (simp_all add: approval_setting_def iso_date_iso)
  have "request_mutation cfg mo a intent fp ?id (js_get (dk_visible disk) ?id) =
      Inr (Some ?r, Answered (ApprovalRequired (challenge_of cfg (mo_now mo) intent fp)))"
    using none current cfg dates
    by (simp add: request_mutation_def is_armed_def new_challenge_def challenge_of_def Let_def)
  from mutateRecord_written [where mutate = "request_mutation cfg mo a intent fp ?id", OF cfg(1,2) _ this] none cfg
  have "mutateRecord cfg Written ?id (request_mutation cfg mo a intent fp ?id) disk =
      (Inr (Answered (ApprovalRequired (challenge_of cfg (mo_now mo) intent fp))),
       \<lparr>dk_visible = js_set ?id ?r (dk_visible disk), dk_durable = js_set ?id ?r (dk_visible disk)\<rparr>)" by simp
  with cfg current show ?thesis
    by (simp add: requestApproval_def parseAuthorityContextForTarget_def then_answer_def Let_def js_get_set)
qed

lemma decide_approved:
  assumes set: "approval_setting cfg a intent fp createdAt"
    and r: "js_get (dk_visible disk) (deriveGatewayRuntimeApprovalId fp) =
      Some \<lparr>ap_authorityContext = a, ap_challenge = challenge_of cfg createdAt intent fp, ap_phase = ApprovalPending\<rparr>"
    and calm: "calm_moment mo intent a (createdAt + pc_challengeTtlMs cfg)"
    and principal: "ao_stablePrincipal operator = principal_of cfg intent"
  shows "\<exists>disk' d. decide cfg mo (deriveGatewayRuntimeApprovalId fp) a Approve operator disk =
      (Inr (DecisionRecorded Approve (ApprovedView (challenge_of cfg createdAt intent fp) d)), disk') \<and> de_operator d = operator \<and>
    js_get (dk_visible disk') (deriveGatewayRuntimeApprovalId fp) =
      Some \<lparr>ap_authorityContext = a, ap_challenge = challenge_of cfg createdAt intent fp, ap_phase = Approved d\<rparr>"
proof -
  let ?id = "deriveGatewayRuntimeApprovalId fp"
  let ?d = "\<lparr>de_decidedAt = iso (mo_nowRecorded mo), de_decision = Approve, de_operator = operator\<rparr>"
  let ?r = "\<lparr>ap_authorityContext = a, ap_challenge = challenge_of cfg createdAt intent fp, ap_phase = Approved ?d\<rparr>"
  note cfg = settingD [OF set]
  note current = calmD [OF calm]
  from calm_dates [OF set calm] r current cfg principal
  have "decide_mutation cfg mo a Approve operator (js_get (dk_visible disk) ?id) =
      Inr (Some ?r, DecisionRecorded Approve (ApprovedView (challenge_of cfg createdAt intent fp) ?d))"
    by (simp add: decide_mutation_def sameAuthority_iff decided_record_def operatorView_def Let_def)
  from mutateRecord_written [where mutate = "decide_mutation cfg mo a Approve operator", OF cfg(1,2) _ this] r cfg
  have "mutateRecord cfg Written ?id (decide_mutation cfg mo a Approve operator) disk =
      (Inr (DecisionRecorded Approve (ApprovedView (challenge_of cfg createdAt intent fp) ?d)),
       \<lparr>dk_visible = js_set ?id ?r (dk_visible disk), dk_durable = js_set ?id ?r (dk_visible disk)\<rparr>)" by simp
  with cfg current show ?thesis
    by (simp add: decide_def parseAuthorityContextForTarget_def then_answer_def view_challenge_def js_get_set)
qed

lemma request_reserved:
  assumes set: "approval_setting cfg a intent fp createdAt"
    and r: "js_get (dk_visible disk) (deriveGatewayRuntimeApprovalId fp) =
      Some \<lparr>ap_authorityContext = a, ap_challenge = challenge_of cfg createdAt intent fp, ap_phase = Approved d\<rparr>"
    and calm: "calm_moment mo intent a (createdAt + pc_challengeTtlMs cfg)"
  shows "\<exists>disk' t. requestApproval cfg mo a intent disk = (Inr (Answered (DispatchReserved
      (new_reservation cfg a intent fp (deriveGatewayRuntimeApprovalId fp) (mo_uuid mo) (challenge_of cfg createdAt intent fp)))), disk') \<and>
    js_get (dk_visible disk') (deriveGatewayRuntimeApprovalId fp) =
      Some \<lparr>ap_authorityContext = a, ap_challenge = challenge_of cfg createdAt intent fp, ap_phase = ConsumedNotDispatched d t
        (new_reservation cfg a intent fp (deriveGatewayRuntimeApprovalId fp) (mo_uuid mo) (challenge_of cfg createdAt intent fp))\<rparr>"
proof -
  let ?id = "deriveGatewayRuntimeApprovalId fp"
  let ?res = "new_reservation cfg a intent fp ?id (mo_uuid mo) (challenge_of cfg createdAt intent fp)"
  let ?r = "\<lparr>ap_authorityContext = a, ap_challenge = challenge_of cfg createdAt intent fp,
    ap_phase = ConsumedNotDispatched d (iso (mo_now mo)) ?res\<rparr>"
  note cfg = settingD [OF set]
  note current = calmD [OF calm]
  from calm_dates [OF set calm] r current cfg
  have "request_mutation cfg mo a intent fp ?id (js_get (dk_visible disk) ?id) = Inr (Some ?r, Answered (DispatchReserved ?res))"
    by (simp add: request_mutation_def request_from_record_def is_armed_def sameAuthority_iff Let_def)
  from mutateRecord_written [where mutate = "request_mutation cfg mo a intent fp ?id", OF cfg(1,2) _ this] r cfg
  have "mutateRecord cfg Written ?id (request_mutation cfg mo a intent fp ?id) disk = (Inr (Answered (DispatchReserved ?res)),
       \<lparr>dk_visible = js_set ?id ?r (dk_visible disk), dk_durable = js_set ?id ?r (dk_visible disk)\<rparr>)" by simp
  with cfg current show ?thesis
    by (simp add: requestApproval_def parseAuthorityContextForTarget_def then_answer_def Let_def js_get_set)
qed

lemma arm_granted:
  assumes set: "approval_setting cfg a intent fp createdAt"
    and res: "reservation = new_reservation cfg a intent fp (deriveGatewayRuntimeApprovalId fp) uuid (challenge_of cfg createdAt intent fp)"
    and r: "js_get (dk_visible disk) (deriveGatewayRuntimeApprovalId fp) =
      Some \<lparr>ap_authorityContext = a, ap_challenge = challenge_of cfg createdAt intent fp, ap_phase = ConsumedNotDispatched d t reservation\<rparr>"
    and calm: "calm_moment mo intent a (createdAt + pc_challengeTtlMs cfg)"
  shows "\<exists>disk'. armDispatch cfg mo a reservation disk = (Inr (Answered (new_grant a reservation (mo_uuid mo))), disk')"
proof -
  let ?id = "deriveGatewayRuntimeApprovalId fp"
  let ?r = "\<lparr>ap_authorityContext = a, ap_challenge = challenge_of cfg createdAt intent fp,
    ap_phase = DispatchArmed d (iso (mo_nowRecorded mo)) (new_grant a reservation (mo_uuid mo)) reservation\<rparr>"
  note cfg = settingD [OF set]
  have id: "da_approvalId reservation = ?id" by (simp add: res new_reservation_def)
  note current = calmD [OF calm]
  from calm_dates [OF set calm] r current cfg
  have "arm_mutation cfg mo a reservation (js_get (dk_visible disk) ?id) = Inr (Some ?r, Answered (new_grant a reservation (mo_uuid mo)))"
    by (simp add: arm_mutation_def sameAuthority_iff sameReservation_iff Let_def)
  from mutateRecord_written [where mutate = "arm_mutation cfg mo a reservation", OF cfg(1,2) _ this] r cfg
  have "mutateRecord cfg Written ?id (arm_mutation cfg mo a reservation) disk = (Inr (Answered (new_grant a reservation (mo_uuid mo))),
       \<lparr>dk_visible = js_set ?id ?r (dk_visible disk), dk_durable = js_set ?id ?r (dk_visible disk)\<rparr>)" by simp
  with cfg current r id show ?thesis
    by (simp add: armDispatch_def parseAuthorityContextForTarget_def then_answer_def armed_intent_def)
qed

section \<open>Equal fingerprints\<close>

definition intent_entries :: "challenge_intent \<Rightarrow> (string \<times> json) list" where
  "intent_entries i = (case intent_json i of JObject es \<Rightarrow> es | _ \<Rightarrow> [])"

definition trusted_entries :: "trusted_context \<Rightarrow> (string \<times> json) list" where
  "trusted_entries t = (case trusted_json t of JObject es \<Rightarrow> es | _ \<Rightarrow> [])"

lemma intent_json_entries: "intent_json i = JObject (intent_entries i)"
  by (simp add: intent_entries_def intent_json_def)

lemma trusted_json_entries: "trusted_json t = JObject (trusted_entries t)"
  by (simp add: trusted_entries_def trusted_json_def)

lemma intent_fields:
  "distinct (map fst (intent_entries i))"
  "map_of (intent_entries i) ''backendKind'' = Some (JString (backend_name (in_backendKind i)))"
  "map_of (intent_entries i) ''operationId'' = Some (JString (in_operationId i))"
  "map_of (intent_entries i) ''trustedContext'' = Some (trusted_json (in_trustedContext i))"
  by (simp_all add: intent_entries_def intent_json_def optional_field_def split: option.split)

lemma trusted_fields:
  "distinct (map fst (trusted_entries t))"
  "map_of (trusted_entries t) ''principal'' = Some (principal_json (tc_principal t))"
  by (simp_all add: trusted_entries_def trusted_json_def optional_field_def split: option.split)

lemma principal_form_inj:
  fixes p q :: principal
  assumes "approval_form lc (principal_json p) = approval_form lc (principal_json q)"
  shows "p = q"
proof -
  note same = approval_form_fields [OF assms [unfolded principal_json_def]]
  have framework: "pr_frameworkIdentity p = pr_frameworkIdentity q"
  proof -
    have "approval_form lc (JObject [(''kind'', JString (fi_kind (pr_frameworkIdentity p))),
         (''profileName'', JString (fi_profileName (pr_frameworkIdentity p)))]) =
        approval_form lc (JObject [(''kind'', JString (fi_kind (pr_frameworkIdentity q))),
         (''profileName'', JString (fi_profileName (pr_frameworkIdentity q)))])"
      using same [of "''frameworkIdentity''"] by simp
    note fields = approval_form_fields [OF this]
    show ?thesis using fields [of "''kind''"] fields [of "''profileName''"]
      by (intro framework_identity.equality) simp_all
  qed
  then show ?thesis
    using same [of "''agentId''"] same [of "''profileAssignmentRevision''"] same [of "''toolPortalProfileId''"]
    by (intro principal.equality) simp_all
qed

text \<open>Unless SHA-256 collides, a fingerprint is about one operation of one principal.\<close>

lemma fingerprint_inj:
  assumes inj: "inj (pc_sha256 cfg)"
    and fp: "fingerprint_of cfg a i = Inr fp" and fp': "fingerprint_of cfg b j = Inr fp"
  shows "a = b \<and> in_operationId i = in_operationId j \<and> in_backendKind i = in_backendKind j \<and>
    tc_principal (in_trustedContext i) = tc_principal (in_trustedContext j)"
proof -
  let ?lc = "pc_localeCompare cfg"
  define v where "v = JObject [(''authorityContext'', authority_json a), (''intent'', intent_json i)]"
  define w where "w = JObject [(''authorityContext'', authority_json b), (''intent'', intent_json j)]"
  from fp fp' inj obtain t where v: "canonicalApprovalJson ?lc v = Inr t" and w: "canonicalApprovalJson ?lc w = Inr t"
    by (auto simp: fingerprint_of_def deriveGatewayRuntimeApprovalFingerprint_def result_simps v_def w_def dest: injD)
  then have "finite_json v" "finite_json w" by (auto simp: approval_canonical_render split: if_splits)
  with v w have "approval_form ?lc v = approval_form ?lc w" by (metis approval_canonical_eq_iff)
  note top = approval_form_fields [OF this [unfolded v_def w_def]]
  have a: "a = b" using top [of "''authorityContext''"] by (simp add: authority_form_inj)
  have "approval_form ?lc (JObject (intent_entries i)) = approval_form ?lc (JObject (intent_entries j))"
    using top [of "''intent''"] by (simp add: intent_json_entries del: approval_form.simps)
  note intent = approval_form_fields [OF this intent_fields(1) intent_fields(1)]
  have "approval_form ?lc (JObject (trusted_entries (in_trustedContext i))) = approval_form ?lc (JObject (trusted_entries (in_trustedContext j)))"
    using intent [of "''trustedContext''"] by (simp add: intent_fields trusted_json_entries del: approval_form.simps)
  note trusted = approval_form_fields [OF this trusted_fields(1) trusted_fields(1)]
  have "tc_principal (in_trustedContext i) = tc_principal (in_trustedContext j)"
    using trusted [of "''principal''"] by (simp add: trusted_fields principal_form_inj)
  moreover have "in_operationId i = in_operationId j" using intent [of "''operationId''"] by (simp add: intent_fields)
  moreover have "in_backendKind i = in_backendKind j" using intent [of "''backendKind''"] by (simp add: intent_fields backend_name_inj)
  ultimately show ?thesis using a by simp
qed

section \<open>What the log says\<close>

definition reservation_ids :: "approval_event list \<Rightarrow> string list" where
  "reservation_ids log = List.map_filter (\<lambda>event. case event of ReservationIssued r \<Rightarrow> Some (da_approvalId r) | _ \<Rightarrow> None) log"

definition grant_ids :: "approval_event list \<Rightarrow> string list" where
  "grant_ids log = List.map_filter (\<lambda>event. case event of GrantIssued g _ \<Rightarrow> Some (da_approvalId g) | _ \<Rightarrow> None) log"

definition refused_ids :: "approval_event list \<Rightarrow> string list" where
  "refused_ids log = List.map_filter (\<lambda>event. case event of DenialAnswered i \<Rightarrow> Some i | RevocationAnswered i \<Rightarrow> Some i | _ \<Rightarrow> None) log"

definition approval_run :: "approval_config \<Rightarrow> string \<Rightarrow> approval_command list \<Rightarrow> approval_system" where
  "approval_run cfg epoch commands = run_commands (approval_exec cfg) (approval_start epoch) commands"

lemma approval_run_inv: "approval_inv cfg (approval_run cfg epoch commands)"
  unfolding approval_run_def by (rule approvals.run_inv [OF approval_start_inv]) (simp add: list_all_iff)

lemma issued_ids:
  "reservation_ids log = map snd (filter (\<lambda>key. fst key = 0) (issued_keys log))"
  "grant_ids log = map snd (filter (\<lambda>key. fst key = 1) (issued_keys log))"
proof -
  show "reservation_ids log = map snd (filter (\<lambda>key. fst key = 0) (issued_keys log))"
  proof (induction log)
    case (Cons event log)
    then show ?case by (cases event) (simp_all add: reservation_ids_def issued_keys_def List.map_filter_simps)
  qed (simp add: reservation_ids_def issued_keys_def List.map_filter_simps)
  show "grant_ids log = map snd (filter (\<lambda>key. fst key = 1) (issued_keys log))"
  proof (induction log)
    case (Cons event log)
    then show ?case by (cases event) (simp_all add: grant_ids_def issued_keys_def List.map_filter_simps)
  qed (simp add: grant_ids_def issued_keys_def List.map_filter_simps)
qed

lemma distinct_ids_of_kind: "distinct keys \<Longrightarrow> distinct (map snd (filter (\<lambda>key. fst key = k) keys))"
  by (auto simp: distinct_map inj_on_def prod_eq_iff)

lemma logged_ids:
  "recordId \<in> set (reservation_ids log) \<longleftrightarrow> (\<exists>r. ReservationIssued r \<in> set log \<and> da_approvalId r = recordId)"
  "recordId \<in> set (grant_ids log) \<longleftrightarrow> (\<exists>g now. GrantIssued g now \<in> set log \<and> da_approvalId g = recordId)"
  "recordId \<in> set (refused_ids log) \<longleftrightarrow> DenialAnswered recordId \<in> set log \<or> RevocationAnswered recordId \<in> set log"
proof -
  have "recordId \<in> set (List.map_filter f log) \<longleftrightarrow> (\<exists>event\<in>set log. f event = Some recordId)" for f :: "approval_event \<Rightarrow> string option"
    by (induction log) (auto simp: List.map_filter_simps split: option.splits)
  note member = this
  have cases: "(case event of ReservationIssued r \<Rightarrow> Some (da_approvalId r) | _ \<Rightarrow> None) = Some recordId \<longleftrightarrow>
      (\<exists>r. event = ReservationIssued r \<and> da_approvalId r = recordId)"
    "(case event of GrantIssued g _ \<Rightarrow> Some (da_approvalId g) | _ \<Rightarrow> None) = Some recordId \<longleftrightarrow>
      (\<exists>g now. event = GrantIssued g now \<and> da_approvalId g = recordId)"
    "(case event of DenialAnswered i \<Rightarrow> Some i | RevocationAnswered i \<Rightarrow> Some i | _ \<Rightarrow> None) = Some recordId \<longleftrightarrow>
      event = DenialAnswered recordId \<or> event = RevocationAnswered recordId" for event
    by (cases event; auto)+
  show "recordId \<in> set (reservation_ids log) \<longleftrightarrow> (\<exists>r. ReservationIssued r \<in> set log \<and> da_approvalId r = recordId)"
    unfolding reservation_ids_def member cases by blast
  show "recordId \<in> set (grant_ids log) \<longleftrightarrow> (\<exists>g now. GrantIssued g now \<in> set log \<and> da_approvalId g = recordId)"
    unfolding grant_ids_def member cases by blast
  show "recordId \<in> set (refused_ids log) \<longleftrightarrow> DenialAnswered recordId \<in> set log \<or> RevocationAnswered recordId \<in> set log"
    unfolding refused_ids_def member cases by blast
qed

text \<open>
  C32: In every run, with every failure of the store and every restart of the controller on
  what survived, an approval is reserved at most once and granted at most once, and an approval
  whose denial or revocation was answered is neither reserved nor granted, before or after.
\<close>

theorem approvals_issue_once:
  "distinct (reservation_ids (ay_log (approval_run cfg epoch commands))) \<and>
   distinct (grant_ids (ay_log (approval_run cfg epoch commands))) \<and>
   set (refused_ids (ay_log (approval_run cfg epoch commands))) \<inter>
     (set (reservation_ids (ay_log (approval_run cfg epoch commands))) \<union> set (grant_ids (ay_log (approval_run cfg epoch commands)))) = {}"
proof -
  define s where "s = approval_run cfg epoch commands"
  have inv: "approval_inv cfg s" unfolding s_def by (rule approval_run_inv)
  then have keys: "distinct (issued_keys (ay_log s))"
    and bears: "\<And>event. event \<in> set (ay_log s) \<Longrightarrow> holds (js_get (dk_visible (ay_disk s))) event"
    by (simp_all add: approval_inv_def records_ok_def)
  have "recordId \<notin> set (refused_ids (ay_log s))" if "recordId \<in> set (reservation_ids (ay_log s)) \<or> recordId \<in> set (grant_ids (ay_log s))" for recordId
  proof
    assume "recordId \<in> set (refused_ids (ay_log s))"
    then have "holds (js_get (dk_visible (ay_disk s))) (DenialAnswered recordId) \<or> holds (js_get (dk_visible (ay_disk s))) (RevocationAnswered recordId)"
      unfolding logged_ids using bears by blast
    moreover from that obtain r g now where "holds (js_get (dk_visible (ay_disk s))) (ReservationIssued r) \<and> da_approvalId r = recordId \<or>
        holds (js_get (dk_visible (ay_disk s))) (GrantIssued g now) \<and> da_approvalId g = recordId"
      unfolding logged_ids using bears by blast
    ultimately show False by (auto split: option.splits approval_phase.splits)
  qed
  then have "set (refused_ids (ay_log s)) \<inter> (set (reservation_ids (ay_log s)) \<union> set (grant_ids (ay_log s))) = {}" by blast
  moreover have "distinct (reservation_ids (ay_log s))" "distinct (grant_ids (ay_log s))"
    unfolding issued_ids by (rule distinct_ids_of_kind [OF keys])+
  ultimately show ?thesis unfolding s_def by (intro conjI)
qed

text \<open>
  C33: A grant that was ever answered is for an operation that was requested under the same
  authority and that an operator of the very principal of the request decided to approve, and it
  was armed before the challenge expired, its time to live after the request. The hypothesis is
  that SHA-256 does not collide; the dates are those before the year 9999.
\<close>

theorem grants_were_approved:
  assumes "inj (pc_sha256 cfg)" and "GrantIssued g now \<in> set (ay_log (approval_run cfg epoch commands))"
  shows "\<exists>createdAt intent operator. Requested createdAt (da_authorityContext g) intent \<in> set (ay_log (approval_run cfg epoch commands)) \<and>
    fingerprint_of cfg (da_authorityContext g) intent = Inr (da_fingerprint g) \<and>
    da_approvalId g = deriveGatewayRuntimeApprovalId (da_fingerprint g) \<and>
    da_operationId g = in_operationId intent \<and> da_backendKind g = in_backendKind intent \<and>
    da_stablePrincipal g = principal_of cfg intent \<and>
    DecisionAsked (da_approvalId g) Approve operator \<in> set (ay_log (approval_run cfg epoch commands)) \<and>
    ao_stablePrincipal operator = da_stablePrincipal g \<and>
    \<not> (0 \<le> createdAt + pc_challengeTtlMs cfg \<and> createdAt + pc_challengeTtlMs cfg < 253370764800000 \<and>
       createdAt + pc_challengeTtlMs cfg \<le> now)"
proof -
  define s where "s = approval_run cfg epoch commands"
  have "approval_inv cfg s" unfolding s_def by (rule approval_run_inv)
  then have ok: "records_ok cfg (ay_log s) (dk_visible (ay_disk s))" by (simp add: approval_inv_def)
  then have "holds (js_get (dk_visible (ay_disk s))) (GrantIssued g now)"
    using assms(2) unfolding records_ok_def s_def by blast
  then obtain r d t reservation where r: "js_get (dk_visible (ay_disk s)) (da_approvalId g) = Some r"
    and phase: "ap_phase r = DispatchArmed d t g reservation" and unexpired: "\<not> isExpired (ap_challenge r) now"
    by (auto split: option.splits approval_phase.splits)
  from ok r have "record_ok cfg (ay_log s) (da_approvalId g) r" by (simp add: records_ok_def)
  then have ch: "challenge_ok cfg (ay_log s) (da_approvalId g) r" and d: "decision_ok cfg (ay_log s) (da_approvalId g) r Approve d"
    and res: "reservation_ok cfg r reservation" and g: "g = new_grant (ap_authorityContext r) reservation (gr_grantId g)"
    using phase by (simp_all add: record_ok_def phase_ok_def)
  let ?intent = "ch_intent (ap_challenge r)"
  from ch obtain createdAt where asked: "Requested createdAt (ap_authorityContext r) ?intent \<in> set (ay_log s)"
    and expires: "toISOString (createdAt + pc_challengeTtlMs cfg) = Some (ch_expiresAt (ap_challenge r))"
    and fp: "fingerprint_of cfg (ap_authorityContext r) ?intent = Inr (ch_fingerprint (ap_challenge r))"
    and id: "da_approvalId g = deriveGatewayRuntimeApprovalId (ch_fingerprint (ap_challenge r))"
    by (auto simp: challenge_ok_def)
  from res obtain intent uuid where fp': "fingerprint_of cfg (ap_authorityContext r) intent = Inr (ch_fingerprint (ap_challenge r))"
    and reservation: "reservation = new_reservation cfg (ap_authorityContext r) intent (ch_fingerprint (ap_challenge r))
        (ch_approvalId (ap_challenge r)) uuid (ap_challenge r)" by (auto simp: reservation_ok_def)
  note same = fingerprint_inj [OF assms(1) fp' fp]
  have fields: "da_authorityContext g = ap_authorityContext r" "da_fingerprint g = ch_fingerprint (ap_challenge r)"
    "da_operationId g = in_operationId ?intent" "da_backendKind g = in_backendKind ?intent" "da_stablePrincipal g = principal_of cfg ?intent"
    using same by (subst g, simp add: new_grant_def reservation new_reservation_def principal_of_def)+
  have "createdAt + pc_challengeTtlMs cfg > now"
    if "0 \<le> createdAt + pc_challengeTtlMs cfg" "createdAt + pc_challengeTtlMs cfg < 253370764800000"
    using Date_parse_toISOString [OF that expires] unexpired by (simp add: isExpired_def)
  then show ?thesis unfolding s_def [symmetric]
    using asked fp id d fields
    by (intro exI [of _ createdAt] exI [of _ ?intent] exI [of _ "de_operator d"]) (auto simp: decision_ok_def)
qed

lemma approval_life_cycle:
  assumes set: "approval_setting cfg a intent fp (mo_now mo_asked)"
    and none: "js_get (dk_visible disk) (deriveGatewayRuntimeApprovalId fp) = None"
    and calm: "calm_moment mo_asked intent a (mo_now mo_asked + pc_challengeTtlMs cfg)" "calm_moment mo_decided intent a (mo_now mo_asked + pc_challengeTtlMs cfg)"
      "calm_moment mo_again intent a (mo_now mo_asked + pc_challengeTtlMs cfg)" "calm_moment mo_armed intent a (mo_now mo_asked + pc_challengeTtlMs cfg)"
    and principal: "ao_stablePrincipal operator = principal_of cfg intent"
  shows "\<exists>disk1 disk2 disk3 disk4 v.
    requestApproval cfg mo_asked a intent disk = (Inr (Answered (ApprovalRequired (challenge_of cfg (mo_now mo_asked) intent fp))), disk1) \<and>
    decide cfg mo_decided (deriveGatewayRuntimeApprovalId fp) a Approve operator disk1 = (Inr (DecisionRecorded Approve v), disk2) \<and>
    requestApproval cfg mo_again a intent disk2 = (Inr (Answered (DispatchReserved (new_reservation cfg a intent fp
      (deriveGatewayRuntimeApprovalId fp) (mo_uuid mo_again) (challenge_of cfg (mo_now mo_asked) intent fp)))), disk3) \<and>
    armDispatch cfg mo_armed a (new_reservation cfg a intent fp (deriveGatewayRuntimeApprovalId fp) (mo_uuid mo_again)
      (challenge_of cfg (mo_now mo_asked) intent fp)) disk3 =
      (Inr (Answered (new_grant a (new_reservation cfg a intent fp (deriveGatewayRuntimeApprovalId fp) (mo_uuid mo_again)
        (challenge_of cfg (mo_now mo_asked) intent fp)) (mo_uuid mo_armed))), disk4)"
proof -
  from request_pending [OF set none calm(1)] obtain disk1 where one:
    "requestApproval cfg mo_asked a intent disk = (Inr (Answered (ApprovalRequired (challenge_of cfg (mo_now mo_asked) intent fp))), disk1)"
    and r1: "js_get (dk_visible disk1) (deriveGatewayRuntimeApprovalId fp) =
      Some \<lparr>ap_authorityContext = a, ap_challenge = challenge_of cfg (mo_now mo_asked) intent fp, ap_phase = ApprovalPending\<rparr>" by blast
  from decide_approved [OF set r1 calm(2) principal] obtain disk2 d where two:
    "decide cfg mo_decided (deriveGatewayRuntimeApprovalId fp) a Approve operator disk1 =
      (Inr (DecisionRecorded Approve (ApprovedView (challenge_of cfg (mo_now mo_asked) intent fp) d)), disk2)"
    and r2: "js_get (dk_visible disk2) (deriveGatewayRuntimeApprovalId fp) =
      Some \<lparr>ap_authorityContext = a, ap_challenge = challenge_of cfg (mo_now mo_asked) intent fp, ap_phase = Approved d\<rparr>" by blast
  from request_reserved [OF set r2 calm(3)] obtain disk3 t where three:
    "requestApproval cfg mo_again a intent disk2 = (Inr (Answered (DispatchReserved (new_reservation cfg a intent fp
      (deriveGatewayRuntimeApprovalId fp) (mo_uuid mo_again) (challenge_of cfg (mo_now mo_asked) intent fp)))), disk3)"
    and r3: "js_get (dk_visible disk3) (deriveGatewayRuntimeApprovalId fp) =
      Some \<lparr>ap_authorityContext = a, ap_challenge = challenge_of cfg (mo_now mo_asked) intent fp, ap_phase = ConsumedNotDispatched d t
        (new_reservation cfg a intent fp (deriveGatewayRuntimeApprovalId fp) (mo_uuid mo_again)
          (challenge_of cfg (mo_now mo_asked) intent fp))\<rparr>" by blast
  from arm_granted [OF set refl r3 calm(4)] one two three show ?thesis by blast
qed


section \<open>A concrete run\<close>

definition toy_config :: approval_config where
  "toy_config = \<lparr>pc_challengeTtlMs = 60000, pc_currentControllerEpoch = ''e'', pc_zoneId = ''z'',
     pc_localeCompare = (\<lambda>l r. if js_string_less l r then - 1 else if l = r then 0 else 1),
     pc_sha256 = (\<lambda>t. ''aaaaaaaaaaaaaaaaaaaaaaaaaaaaaaaa'' @ t), pc_accepts = (\<lambda>_. True)\<rparr>"

definition toy_authority :: authority_context where
  "toy_authority = \<lparr>at_controllerEpoch = ''e'', at_frameworkEpoch = ''f'', at_gatewayEpoch = ''g'', at_runtimeEpoch = ''r'', at_zoneId = ''z''\<rparr>"

definition toy_principal :: principal where
  "toy_principal = \<lparr>pr_agentId = ''a'', pr_frameworkIdentity = \<lparr>fi_kind = ''k'', fi_profileName = ''n''\<rparr>,
     pr_profileAssignmentRevision = ''1'', pr_toolPortalProfileId = ''p''\<rparr>"

definition toy_intent :: challenge_intent where
  "toy_intent = \<lparr>in_managedGoogle = None, in_backendKind = ToolVmRunner,
     in_call = \<lparr>cl_arguments = [], cl_id = ''c'', cl_name = ''n'', cl_namespace = ''s''\<rparr>, in_operationId = ''o'',
     in_semanticRevisions = \<lparr>sv_activeRevision = ''1'', sv_bindingRevision = ''1'', sv_catalogRevision = ''1'',
       sv_profilePolicyRevision = ''1'', sv_providerRevision = ''1'', sv_schemaRevision = ''1''\<rparr>,
     in_surfaceClass = ''s'', in_trustedContext = \<lparr>tc_correlation = None, tc_principal = toy_principal, tc_requester = None\<rparr>\<rparr>"

definition toy_text :: string where
  "toy_text = render (approval_form (pc_localeCompare toy_config)
     (JObject [(''authorityContext'', authority_json toy_authority), (''intent'', intent_json toy_intent)]))"

definition toy_fingerprint :: string where
  "toy_fingerprint = ''sha256:'' @ ''aaaaaaaaaaaaaaaaaaaaaaaaaaaaaaaa'' @ toy_text"

definition toy_moment :: "int \<Rightarrow> string \<Rightarrow> approval_moment" where
  "toy_moment now uuid = \<lparr>mo_validateInputAuthority = None, mo_validateIntent = None, mo_validateIntentAfter = None,
     mo_now = now, mo_nowChecked = now, mo_nowRecorded = now, mo_uuid = uuid, mo_write = Written\<rparr>"

definition toy_operator :: approval_operator where
  "toy_operator = \<lparr>ao_approverId = ''h'', ao_audience = ''agent-vm-controller-approval'', ao_provenance = ''managed-gateway'',
     ao_stablePrincipal = principal_of toy_config toy_intent\<rparr>"

lemma toy_fingerprint_of: "fingerprint_of toy_config toy_authority toy_intent = Inr toy_fingerprint"
proof -
  have "finite_json (JObject [(''authorityContext'', authority_json toy_authority), (''intent'', intent_json toy_intent)])"
    by (simp add: authority_json_def intent_json_def call_json_def revisions_json_def trusted_json_def principal_json_def
        optional_field_def toy_intent_def)
  then have "canonicalApprovalJson (pc_localeCompare toy_config)
      (JObject [(''authorityContext'', authority_json toy_authority), (''intent'', intent_json toy_intent)]) = Inr toy_text"
    unfolding toy_text_def by (simp only: approval_canonical_render if_True)
  then show ?thesis
    by (simp add: fingerprint_of_def deriveGatewayRuntimeApprovalFingerprint_def toy_fingerprint_def del: canonicalApprovalJson.simps)
      (simp add: toy_config_def)
qed

lemma toy_approval_id: "deriveGatewayRuntimeApprovalId toy_fingerprint = ''aaaaaaaa-aaaa-5aaa-aaaa-aaaaaaaaaaaa''"
proof -
  have "char_of (97 :: nat) = CHR ''a''" by (simp add: char_of_eq_iff)
  then show ?thesis by (simp add: deriveGatewayRuntimeApprovalId_def toy_fingerprint_def hex_value_def hex_char_def Let_def)
qed

lemma toy_setting: "approval_setting toy_config toy_authority toy_intent toy_fingerprint 0"
  unfolding approval_setting_def toy_approval_id
  by (simp add: toy_fingerprint_of) (simp add: open_config_def toy_config_def toy_authority_def assertSafeRecordId_def alphanumeric_def)

lemma toy_calm: "0 \<le> now \<Longrightarrow> now < 60000 \<Longrightarrow> calm_moment (toy_moment now uuid) toy_intent toy_authority (0 + pc_challengeTtlMs toy_config)"
  by (simp add: calm_moment_def toy_moment_def inputAuthorityIsCurrent_def intentIsCurrent_def has_file_inputs_def toy_intent_def toy_config_def)


lemma epoch_config_same: "ay_epoch s = pc_currentControllerEpoch cfg \<Longrightarrow> epoch_config cfg s = cfg"
  by (simp add: epoch_config_def)

definition toy_reservation :: dispatch_reservation where
  "toy_reservation = new_reservation toy_config toy_authority toy_intent toy_fingerprint (deriveGatewayRuntimeApprovalId toy_fingerprint) ''u2''
     (challenge_of toy_config 0 toy_intent toy_fingerprint)"

definition toy_commands :: "approval_command list" where
  "toy_commands = [RequestApproval (toy_moment 0 ''u0'') toy_authority toy_intent,
     Decide (toy_moment 10 ''u1'') (deriveGatewayRuntimeApprovalId toy_fingerprint) toy_authority Approve toy_operator,
     RequestApproval (toy_moment 20 ''u2'') toy_authority toy_intent,
     ArmDispatch (toy_moment 30 ''u3'') toy_authority toy_reservation]"

lemma toy_granted: "GrantIssued (new_grant toy_authority toy_reservation ''u3'') 30 \<in> set (ay_log (approval_run toy_config ''e'' toy_commands))"
proof -
  have op: "ao_stablePrincipal toy_operator = principal_of toy_config toy_intent" by (simp add: toy_operator_def)
  have times: "mo_now (toy_moment t u) = t" "mo_uuid (toy_moment t u) = u" for t u by (simp_all add: toy_moment_def)
  have none: "js_get (dk_visible \<lparr>dk_visible = [], dk_durable = []\<rparr>) (deriveGatewayRuntimeApprovalId toy_fingerprint) = None" by simp
  from approval_life_cycle [where mo_asked = "toy_moment 0 ''u0''" and mo_decided = "toy_moment 10 ''u1''"
    and mo_again = "toy_moment 20 ''u2''" and mo_armed = "toy_moment 30 ''u3''" and operator = toy_operator,
    unfolded times, OF toy_setting none toy_calm toy_calm toy_calm toy_calm op]
  obtain disk1 disk2 disk3 disk4 c v where run:
    "requestApproval toy_config (toy_moment 0 ''u0'') toy_authority toy_intent \<lparr>dk_visible = [], dk_durable = []\<rparr> =
      (Inr (Answered (ApprovalRequired c)), disk1)"
    "decide toy_config (toy_moment 10 ''u1'') (deriveGatewayRuntimeApprovalId toy_fingerprint) toy_authority Approve toy_operator disk1 =
      (Inr (DecisionRecorded Approve v), disk2)"
    "requestApproval toy_config (toy_moment 20 ''u2'') toy_authority toy_intent disk2 = (Inr (Answered (DispatchReserved toy_reservation)), disk3)"
    "armDispatch toy_config (toy_moment 30 ''u3'') toy_authority toy_reservation disk3 =
      (Inr (Answered (new_grant toy_authority toy_reservation ''u3'')), disk4)"
    unfolding toy_reservation_def by auto
  have epoch: "pc_currentControllerEpoch toy_config = ''e''" by (simp add: toy_config_def)
  show ?thesis
    by (simp add: approval_run_def toy_commands_def approval_start_def apply_command_def epoch_config_same epoch run after_call_def times)
qed

theorem grants_were_approved_witness:
  "\<exists>createdAt intent operator.
     Requested createdAt toy_authority intent \<in> set (ay_log (approval_run toy_config ''e'' toy_commands)) \<and>
     DecisionAsked (da_approvalId toy_reservation) Approve operator \<in> set (ay_log (approval_run toy_config ''e'' toy_commands)) \<and>
     ao_stablePrincipal operator = da_stablePrincipal toy_reservation"
proof -
  have "inj (pc_sha256 toy_config)" by (simp add: toy_config_def inj_def)
  from grants_were_approved [OF this toy_granted] show ?thesis by (fastforce simp: new_grant_def)
qed

end
