(* ===== verification/StorePhases.thy ===== *)
theory StorePhases
  imports CrashDurableStore
begin

text \<open>
  What the calls of the crash-durable store leave behind under every plan of faults: rules for
  its programs in the style of Hoare, the phases a write goes through, and what a whole mutation
  leaves in the directory (\<open>mutation_left\<close>, \<open>mutation_done\<close>).
\<close>

section \<open>Runs under every fault plan\<close>

text \<open>
  From \<open>P\<close>, the program returns in \<open>Q\<close>, and whenever it throws or the machine crashes it
  is in \<open>R\<close>.
\<close>

definition fs_valid :: "(crash_fs \<Rightarrow> bool) \<Rightarrow> 'a fs_op \<Rightarrow> ('a \<Rightarrow> crash_fs \<Rightarrow> bool) \<Rightarrow> (crash_fs \<Rightarrow> bool) \<Rightarrow> bool" where
  "fs_valid P m Q R \<longleftrightarrow> (\<forall>plan fs. P fs \<longrightarrow> (case m plan fs of
     (Returns x, _, fs') \<Rightarrow> Q x fs' | (Throws _, _, fs') \<Rightarrow> R fs' | (Crashed, _, fs') \<Rightarrow> R fs'))"

lemma fs_validD:
  assumes "fs_valid P m Q R" and "P fs" and "m plan fs = (out, plan', fs')"
  shows "(\<forall>x. out = Returns x \<longrightarrow> Q x fs') \<and> ((\<forall>x. out \<noteq> Returns x) \<longrightarrow> R fs')"
  using assms unfolding fs_valid_def by (cases out) (fastforce split: prod.splits)+

lemma fs_valid_return: "(\<And>fs. P fs \<Longrightarrow> Q x fs) \<Longrightarrow> fs_valid P (fs_return x) Q R"
  by (simp add: fs_valid_def fs_return_def)

lemma fs_valid_throw: "(\<And>fs. P fs \<Longrightarrow> R fs) \<Longrightarrow> fs_valid P (fs_throw e) Q R"
  by (simp add: fs_valid_def fs_throw_def)

lemma fs_valid_bind:
  assumes "fs_valid P m Q' R" and "\<And>x. fs_valid (Q' x) (f x) Q R"
  shows "fs_valid P (fs_bind m f) Q R"
  unfolding fs_valid_def
proof (intro allI impI)
  fix plan fs assume "P fs"
  obtain out plan1 fs1 where m: "m plan fs = (out, plan1, fs1)" by (metis prod_cases3)
  note one = fs_validD [OF assms(1) \<open>P fs\<close> m]
  show "case fs_bind m f plan fs of (Returns x, _, fs') \<Rightarrow> Q x fs' | (Throws _, _, fs') \<Rightarrow> R fs' | (Crashed, _, fs') \<Rightarrow> R fs'"
  proof (cases out)
    case (Returns x)
    with one have "Q' x fs1" by simp
    with assms(2) [of x] m Returns show ?thesis by (simp add: fs_bind_def fs_valid_def)
  qed (use one m in \<open>simp_all add: fs_bind_def\<close>)
qed

lemma fs_valid_catch:
  assumes "fs_valid P m Q R'" and "\<And>e. fs_valid R' (h e) Q R" and "\<And>fs. R' fs \<Longrightarrow> R fs"
  shows "fs_valid P (fs_catch m h) Q R"
  unfolding fs_valid_def
proof (intro allI impI)
  fix plan fs assume "P fs"
  obtain out plan1 fs1 where m: "m plan fs = (out, plan1, fs1)" by (metis prod_cases3)
  note one = fs_validD [OF assms(1) \<open>P fs\<close> m]
  show "case fs_catch m h plan fs of (Returns x, _, fs') \<Rightarrow> Q x fs' | (Throws _, _, fs') \<Rightarrow> R fs' | (Crashed, _, fs') \<Rightarrow> R fs'"
  proof (cases out)
    case (Throws e)
    with one have "R' fs1" by simp
    with assms(2) [of e] m Throws show ?thesis by (simp add: fs_catch_def fs_valid_def)
  qed (use one m assms(3) in \<open>simp_all add: fs_catch_def\<close>)
qed

lemma fs_valid_call:
  assumes "\<And>fs. P fs \<Longrightarrow> Q () (effect fs)" and "\<And>fs s. P fs \<Longrightarrow> R (broken s fs)"
  shows "fs_valid P (fs_call e effect broken) Q R"
  unfolding fs_valid_def fs_call_def using assms by (auto split: list.split fault.split)

lemma fs_valid_pre: "fs_valid P' m Q R \<Longrightarrow> (\<And>fs. P fs \<Longrightarrow> P' fs) \<Longrightarrow> fs_valid P m Q R"
  by (simp add: fs_valid_def)

lemma fs_valid_fixed:
  "(\<And>fs0. P fs0 \<Longrightarrow> fs_valid (\<lambda>fs. fs = fs0) m Q R) \<Longrightarrow> fs_valid P m Q R"
  by (simp add: fs_valid_def)

section \<open>The phases of a write\<close>

definition fs_bounded :: "crash_fs \<Rightarrow> bool" where
  "fs_bounded fs \<longleftrightarrow> (\<forall>q n. js_get (cf_names fs) q = Some n \<or> js_get (cf_durableNames fs) q = Some n \<longrightarrow> n < cf_nextFile fs)"

text \<open>Nothing but new files and the temporary name has changed.\<close>

definition quiet :: "crash_fs \<Rightarrow> string \<Rightarrow> crash_fs \<Rightarrow> bool" where
  "quiet fs0 tmp fs \<longleftrightarrow> fs_bounded fs \<and> cf_nextFile fs0 \<le> cf_nextFile fs \<and>
     (\<forall>q. q \<noteq> tmp \<longrightarrow> js_get (cf_names fs) q = js_get (cf_names fs0) q) \<and>
     cf_durableNames fs = cf_durableNames fs0 \<and>
     (\<forall>n<cf_nextFile fs0. js_get (cf_contents fs) n = js_get (cf_contents fs0) n \<and>
        js_get (cf_durableContents fs) n = js_get (cf_durableContents fs0) n)"

definition opened :: "crash_fs \<Rightarrow> string \<Rightarrow> nat \<Rightarrow> crash_fs \<Rightarrow> bool" where
  "opened fs0 tmp h fs \<longleftrightarrow> quiet fs0 tmp fs \<and> js_get (cf_names fs) tmp = Some h \<and> cf_nextFile fs0 \<le> h"

definition complete_file :: "nat \<Rightarrow> string \<Rightarrow> crash_fs \<Rightarrow> bool" where
  "complete_file h content fs \<longleftrightarrow> js_get (cf_contents fs) h = Some content \<and> js_get (cf_durableContents fs) h = Some content"

text \<open>
  The record has its new content, or is gone when that is \<open>None\<close>; \<open>dn\<close> is what
  the directory was last synced to.
\<close>

definition replaced :: "crash_fs \<Rightarrow> string \<Rightarrow> string \<Rightarrow> string option \<Rightarrow> (string, nat) js_map \<Rightarrow> crash_fs \<Rightarrow> bool" where
  "replaced fs0 tmp path content dn fs \<longleftrightarrow> fs_bounded fs \<and> cf_nextFile fs0 \<le> cf_nextFile fs \<and>
     (\<forall>q. q \<noteq> tmp \<longrightarrow> q \<noteq> path \<longrightarrow> js_get (cf_names fs) q = js_get (cf_names fs0) q) \<and>
     cf_durableNames fs = dn \<and>
     (\<forall>n<cf_nextFile fs0. js_get (cf_contents fs) n = js_get (cf_contents fs0) n \<and>
        js_get (cf_durableContents fs) n = js_get (cf_durableContents fs0) n) \<and>
     (case content of None \<Rightarrow> js_get (cf_names fs) path = None
      | Some c \<Rightarrow> \<exists>h. js_get (cf_names fs) path = Some h \<and> complete_file h c fs)"

definition replaced_durably :: "crash_fs \<Rightarrow> string \<Rightarrow> string \<Rightarrow> string option \<Rightarrow> crash_fs \<Rightarrow> bool" where
  "replaced_durably fs0 tmp path content fs \<longleftrightarrow> replaced fs0 tmp path content (cf_names fs) fs"

definition persist_broken :: "crash_fs \<Rightarrow> string \<Rightarrow> string \<Rightarrow> string option \<Rightarrow> crash_fs \<Rightarrow> bool" where
  "persist_broken fs0 tmp path content fs \<longleftrightarrow> quiet fs0 tmp fs \<or>
     replaced fs0 tmp path content (cf_durableNames fs0) fs \<or> replaced_durably fs0 tmp path content fs"

lemma quiet_start: "fs_bounded fs0 \<Longrightarrow> quiet fs0 tmp fs0"
  by (simp add: quiet_def)

lemma opened_quiet: "opened fs0 tmp h fs \<Longrightarrow> quiet fs0 tmp fs"
  by (simp add: opened_def)

lemma create_file_opened:
  assumes "quiet fs0 tmp fs"
  shows "opened fs0 tmp (cf_nextFile fs) (create_file tmp fs)"
  using assms
  by (fastforce simp: opened_def quiet_def fs_bounded_def create_file_def js_get_set split: if_splits)

lemma open_new_valid:
  assumes "fs_bounded fs0"
  shows "fs_valid (\<lambda>fs. fs = fs0) (fs_open_new tmp) (\<lambda>h fs. opened fs0 tmp h fs) (quiet fs0 tmp)"
  using create_file_opened [OF quiet_start [OF assms]] quiet_start [OF assms, of tmp]
  by (auto simp: fs_valid_def fs_open_new_def fs_throw_def fs_bind_def fs_call_def fs_return_def
      split: list.split fault.split)

lemma set_content_opened:
  "opened fs0 tmp h fs \<Longrightarrow> opened fs0 tmp h (fs\<lparr>cf_contents := js_set h s (cf_contents fs)\<rparr>)"
  by (auto simp: opened_def quiet_def fs_bounded_def js_get_set)

lemma sync_file_opened:
  "opened fs0 tmp h fs \<Longrightarrow> js_get (cf_contents fs) h = Some s \<Longrightarrow>
     opened fs0 tmp h (sync_file h fs) \<and> complete_file h s (sync_file h fs)"
  by (auto simp: opened_def quiet_def fs_bounded_def js_get_set sync_file_def complete_file_def)

lemma remove_temporary_quiet:
  "quiet fs0 tmp fs \<Longrightarrow> quiet fs0 tmp (fs\<lparr>cf_names := js_delete tmp (cf_names fs)\<rparr>)"
  by (auto simp: quiet_def fs_bounded_def js_get_delete split: if_splits)

lemma close_valid: "fs_valid P fs_close (\<lambda>_. P) P"
  unfolding fs_close_def by (rule fs_valid_call) simp_all

lemma rm_temporary_valid: "fs_valid (quiet fs0 tmp) (fs_rm tmp) (\<lambda>_. quiet fs0 tmp) (quiet fs0 tmp)"
  unfolding fs_rm_def by (rule fs_valid_call) (simp_all add: remove_temporary_quiet)

lemma closeAfterFailure_valid: "fs_valid (quiet fs0 tmp) (closeAfterFailure tmp e) (\<lambda>_ _. False) (quiet fs0 tmp)"
proof -
  have closing: "fs_valid (quiet fs0 tmp) (fs_catch (fs_bind fs_close (\<lambda>_. fs_return [])) (\<lambda>e. fs_return [e]))
      (\<lambda>_. quiet fs0 tmp) (quiet fs0 tmp)"
    by (rule fs_valid_catch [OF fs_valid_bind [OF close_valid fs_valid_return] fs_valid_return]) simp_all
  have removing: "fs_valid (quiet fs0 tmp) (fs_catch (fs_bind (fs_rm tmp) (\<lambda>_. fs_return [])) (\<lambda>e. fs_return [e]))
      (\<lambda>_. quiet fs0 tmp) (quiet fs0 tmp)"
    by (rule fs_valid_catch [OF fs_valid_bind [OF rm_temporary_valid fs_valid_return] fs_valid_return]) simp_all
  show ?thesis unfolding closeAfterFailure_def
    by (rule fs_valid_bind [OF closing], rule fs_valid_bind [OF removing]) (simp add: fs_valid_throw)
qed

lemma write_temporary_valid:
  "fs_valid (opened fs0 tmp h) (write_temporary h tmp content)
     (\<lambda>_ fs. opened fs0 tmp h fs \<and> complete_file h content fs) (quiet fs0 tmp)"
proof -
  have "fs_valid (opened fs0 tmp h) (fs_write h content)
      (\<lambda>_ fs. opened fs0 tmp h fs \<and> js_get (cf_contents fs) h = Some content) (quiet fs0 tmp)"
    unfolding fs_write_def
    by (rule fs_valid_call) (simp_all add: set_content_opened js_get_set opened_quiet [OF set_content_opened])
  moreover have "fs_valid (\<lambda>fs. opened fs0 tmp h fs \<and> js_get (cf_contents fs) h = Some content) (fs_sync h)
      (\<lambda>_ fs. opened fs0 tmp h fs \<and> complete_file h content fs) (quiet fs0 tmp)"
    unfolding fs_sync_def by (rule fs_valid_call) (use sync_file_opened in \<open>auto intro: opened_quiet\<close>)
  moreover have "fs_valid (\<lambda>fs. opened fs0 tmp h fs \<and> complete_file h content fs) fs_close
      (\<lambda>_ fs. opened fs0 tmp h fs \<and> complete_file h content fs) (quiet fs0 tmp)"
    unfolding fs_close_def by (rule fs_valid_call) (auto intro: opened_quiet)
  ultimately have "fs_valid (opened fs0 tmp h) (fs_bind (fs_write h content) (\<lambda>_. fs_bind (fs_sync h) (\<lambda>_. fs_close)))
      (\<lambda>_ fs. opened fs0 tmp h fs \<and> complete_file h content fs) (quiet fs0 tmp)"
    by (intro fs_valid_bind)
  moreover have "fs_valid (quiet fs0 tmp) (closeAfterFailure tmp e)
      (\<lambda>_ fs. opened fs0 tmp h fs \<and> complete_file h content fs) (quiet fs0 tmp)" for e
    using closeAfterFailure_valid [of fs0 tmp e] unfolding fs_valid_def by (fastforce split: prod.splits outcome.splits)
  ultimately show ?thesis unfolding write_temporary_def by (rule fs_valid_catch) simp
qed

lemma rename_replaced:
  assumes "opened fs0 tmp h fs" and "complete_file h content fs" and "tmp \<noteq> path"
  shows "replaced fs0 tmp path (Some content) (cf_durableNames fs0) (rename_file tmp path fs)"
  using assms
  by (auto simp: opened_def quiet_def replaced_def rename_file_def fs_bounded_def complete_file_def
      js_get_set js_get_delete split: if_splits)

lemma rename_over_valid:
  assumes "tmp \<noteq> path"
  shows "fs_valid (\<lambda>fs. opened fs0 tmp h fs \<and> complete_file h content fs) (rename_over tmp path)
    (\<lambda>_. replaced fs0 tmp path (Some content) (cf_durableNames fs0)) (persist_broken fs0 tmp path (Some content))"
proof -
  have "fs_valid (\<lambda>fs. opened fs0 tmp h fs \<and> complete_file h content fs) (fs_rename tmp path)
      (\<lambda>_. replaced fs0 tmp path (Some content) (cf_durableNames fs0)) (quiet fs0 tmp)"
    unfolding fs_rename_def by (rule fs_valid_call) (use rename_replaced [OF _ _ assms] in \<open>auto intro: opened_quiet\<close>)
  moreover have "fs_valid (quiet fs0 tmp)
      (fs_bind (fs_catch (fs_rm tmp) (\<lambda>cleanup. fs_throw (RenameAndCleanupFailed e cleanup))) (\<lambda>_. fs_throw e))
      (\<lambda>_. replaced fs0 tmp path (Some content) (cf_durableNames fs0)) (persist_broken fs0 tmp path (Some content))" for e
  proof (rule fs_valid_bind)
    show "fs_valid (quiet fs0 tmp) (fs_catch (fs_rm tmp) (\<lambda>cleanup. fs_throw (RenameAndCleanupFailed e cleanup)))
        (\<lambda>_. quiet fs0 tmp) (persist_broken fs0 tmp path (Some content))"
      by (rule fs_valid_catch [OF rm_temporary_valid]) (simp_all add: fs_valid_throw persist_broken_def)
  qed (simp add: fs_valid_throw persist_broken_def)
  ultimately show ?thesis unfolding rename_over_def
    by (rule fs_valid_catch) (simp add: persist_broken_def)
qed

text \<open>Syncing the directory, from any state that the sync makes durable.\<close>

lemma syncDirectory_valid:
  assumes "\<And>fs. P fs \<Longrightarrow> D (fs\<lparr>cf_durableNames := cf_names fs\<rparr>)"
    and "\<And>fs. P fs \<Longrightarrow> R fs" and "\<And>fs. D fs \<Longrightarrow> R fs"
  shows "fs_valid P syncDirectory (\<lambda>_. D) R"
proof -
  have dir: "fs_valid P fs_open_dir (\<lambda>_. P) R" unfolding fs_open_dir_def by (rule fs_valid_call) (use assms(2) in simp_all)
  have close: "fs_valid D fs_close (\<lambda>_. D) R" unfolding fs_close_def by (rule fs_valid_call) (use assms(3) in simp_all)
  have sync: "fs_valid P fs_sync_dir (\<lambda>_. D) P" unfolding fs_sync_dir_def by (rule fs_valid_call) (use assms(1) in simp_all)
  have handler: "fs_valid P (fs_bind fs_close (\<lambda>_. fs_throw e)) (\<lambda>_. D) R" for e
    by (rule fs_valid_bind [where Q' = "\<lambda>_. P"])
      (auto simp: fs_close_def assms(2) intro: fs_valid_call fs_valid_throw)
  show ?thesis unfolding syncDirectory_def
    by (rule fs_valid_bind [OF dir], rule fs_valid_bind [OF fs_valid_catch [OF sync handler assms(2)] close])
qed

lemma durable_replaced:
  "replaced fs0 tmp path content dn fs \<Longrightarrow> replaced_durably fs0 tmp path content (fs\<lparr>cf_durableNames := cf_names fs\<rparr>)"
  by (auto simp: replaced_durably_def replaced_def fs_bounded_def complete_file_def split: option.splits)

lemma persistRecord_valid:
  assumes "fs_bounded fs0" and "tmp \<noteq> path"
  shows "fs_valid (\<lambda>fs. fs = fs0) (persistRecord tmp path content)
    (\<lambda>_. replaced_durably fs0 tmp path (Some content)) (persist_broken fs0 tmp path (Some content))"
proof -
  have mk: "fs_valid (\<lambda>fs. fs = fs0) fs_mkdir (\<lambda>_ fs. fs = fs0) (persist_broken fs0 tmp path (Some content))"
    unfolding fs_mkdir_def by (rule fs_valid_call) (simp_all add: persist_broken_def quiet_start [OF assms(1)])
  have weaken: "fs_valid P m Q (quiet fs0 tmp) \<Longrightarrow> fs_valid P m Q (persist_broken fs0 tmp path (Some content))"
    for P Q and m :: "'x fs_op"
    unfolding fs_valid_def persist_broken_def by (fastforce split: prod.splits outcome.splits)
  show ?thesis unfolding persistRecord_def
  proof (rule fs_valid_bind [OF mk], rule fs_valid_bind [OF weaken [OF open_new_valid [OF assms(1)]]],
      rule fs_valid_bind [OF weaken [OF write_temporary_valid]], rule fs_valid_bind [OF rename_over_valid [OF assms(2)]])
    show "fs_valid (replaced fs0 tmp path (Some content) (cf_durableNames fs0)) syncDirectory
        (\<lambda>_. replaced_durably fs0 tmp path (Some content)) (persist_broken fs0 tmp path (Some content))"
      by (rule syncDirectory_valid) (simp_all add: durable_replaced persist_broken_def)
  qed
qed

section \<open>What a mutation leaves\<close>

definition content :: "crash_fs \<Rightarrow> string \<Rightarrow> string option" where
  "content fs recordId = read_file fs (recordPath recordId)"

definition surviving :: "crash_fs \<Rightarrow> string \<Rightarrow> string option" where
  "surviving fs recordId = (case js_get (cf_durableNames fs) (recordPath recordId) of
     None \<Rightarrow> None | Some n \<Rightarrow> js_get (cf_contents fs) n)"

text \<open>The contents of every record file, current or surviving, have been synced.\<close>

definition sound_store :: "crash_fs \<Rightarrow> bool" where
  "sound_store fs \<longleftrightarrow> fs_bounded fs \<and> (\<forall>recordId n.
     js_get (cf_names fs) (recordPath recordId) = Some n \<or> js_get (cf_durableNames fs) (recordPath recordId) = Some n \<longrightarrow>
     (\<exists>c. complete_file n c fs))"

text \<open>
  A crash and a restart: each name survives as it is or as the directory was last synced,
  a synced content survives, and an unsynced one may come back as anything.
\<close>

definition restarts :: "crash_fs \<Rightarrow> crash_fs \<Rightarrow> bool" where
  "restarts fs fs' \<longleftrightarrow> fs_bounded fs' \<and>
     (\<forall>q. js_get (cf_names fs') q = js_get (cf_names fs) q \<or> js_get (cf_names fs') q = js_get (cf_durableNames fs) q) \<and>
     cf_durableNames fs' = cf_names fs' \<and>
     (\<forall>n c. complete_file n c fs \<longrightarrow> complete_file n c fs')"

lemma recordPath_inj [simp]: "recordPath i = recordPath j \<longleftrightarrow> i = j"
  by (simp add: recordPath_def)

lemma temporary_not_record [simp]: "temporary_path p tag \<noteq> recordPath i" "recordPath i \<noteq> temporary_path p tag"
proof -
  have "last (temporary_path p tag) \<noteq> last (recordPath i)" by (simp add: temporary_path_def recordPath_def)
  then show "temporary_path p tag \<noteq> recordPath i" "recordPath i \<noteq> temporary_path p tag" by metis+
qed

text \<open>The state after a mutation that wrote \<open>nextRecord\<close>, or that stopped on the way.\<close>

definition mutation_left :: "crash_fs \<Rightarrow> string \<Rightarrow> string option \<Rightarrow> crash_fs \<Rightarrow> bool" where
  "mutation_left fs0 recordId new fs \<longleftrightarrow> sound_store fs \<and>
     (\<forall>other. other \<noteq> recordId \<longrightarrow> content fs other = content fs0 other) \<and>
     (content fs recordId \<in> {content fs0 recordId, new} \<and> surviving fs = surviving fs0 \<or>
      content fs recordId = new \<and> surviving fs = content fs)"

definition mutation_done :: "crash_fs \<Rightarrow> string \<Rightarrow> string option \<Rightarrow> crash_fs \<Rightarrow> bool" where
  "mutation_done fs0 recordId new fs \<longleftrightarrow> content fs recordId = new \<and> surviving fs = content fs"

lemma sound_bounded: "sound_store fs \<Longrightarrow> fs_bounded fs"
  by (simp add: sound_store_def)

lemma sound_fileD:
  assumes "sound_store fs0"
    and "js_get (cf_names fs0) (recordPath i) = Some n \<or> js_get (cf_durableNames fs0) (recordPath i) = Some n"
  shows "n < cf_nextFile fs0 \<and> (\<exists>c. complete_file n c fs0)"
  using assms unfolding sound_store_def fs_bounded_def by blast

text \<open>Both contents of a file that was there before are what they were.\<close>

definition files_kept :: "crash_fs \<Rightarrow> crash_fs \<Rightarrow> bool" where
  "files_kept fs0 fs \<longleftrightarrow> (\<forall>n<cf_nextFile fs0. js_get (cf_contents fs) n = js_get (cf_contents fs0) n \<and>
     js_get (cf_durableContents fs) n = js_get (cf_durableContents fs0) n)"

lemma files_kept_complete:
  "files_kept fs0 fs \<Longrightarrow> n < cf_nextFile fs0 \<Longrightarrow> complete_file n c fs \<longleftrightarrow> complete_file n c fs0"
  by (simp add: files_kept_def complete_file_def)

lemma kept_content:
  assumes "sound_store fs0" and "files_kept fs0 fs"
    and "js_get (cf_names fs) (recordPath i) = js_get (cf_names fs0) (recordPath i)"
  shows "content fs i = content fs0 i"
proof (cases "js_get (cf_names fs0) (recordPath i)")
  case (Some n)
  with sound_fileD [OF assms(1)] have "n < cf_nextFile fs0" by blast
  with assms Some show ?thesis by (simp add: content_def read_file_def files_kept_def)
qed (simp add: content_def read_file_def assms(3))

lemma kept_surviving:
  assumes "sound_store fs0" and "files_kept fs0 fs"
    and "js_get (cf_durableNames fs) (recordPath i) = js_get (cf_durableNames fs0) (recordPath i)"
  shows "surviving fs i = surviving fs0 i"
proof (cases "js_get (cf_durableNames fs0) (recordPath i)")
  case (Some n)
  with sound_fileD [OF assms(1)] have "n < cf_nextFile fs0" by blast
  with assms Some show ?thesis by (simp add: surviving_def files_kept_def)
qed (simp add: surviving_def assms(3))

lemma kept_complete:
  assumes "sound_store fs0" and "files_kept fs0 fs"
    and "js_get (cf_names fs0) (recordPath i) = Some n \<or> js_get (cf_durableNames fs0) (recordPath i) = Some n"
  shows "\<exists>c. complete_file n c fs"
  using sound_fileD [OF assms(1,3)] files_kept_complete [OF assms(2)] by blast

lemma quiet_left:
  assumes "sound_store fs0" and "quiet fs0 (temporary_path p tag) fs"
  shows "mutation_left fs0 recordId new fs"
proof -
  from assms(2) have b: "fs_bounded fs" and kept: "files_kept fs0 fs"
    and names: "js_get (cf_names fs) (recordPath i) = js_get (cf_names fs0) (recordPath i)"
    and durable: "cf_durableNames fs = cf_durableNames fs0" for i
    by (auto simp: quiet_def files_kept_def)
  note same = kept_content [OF assms(1) kept names] kept_surviving [OF assms(1) kept]
  have "sound_store fs" unfolding sound_store_def
  proof (intro conjI allI impI, fact b)
    fix i n assume "js_get (cf_names fs) (recordPath i) = Some n \<or> js_get (cf_durableNames fs) (recordPath i) = Some n"
    then show "\<exists>c. complete_file n c fs" using names durable by (intro kept_complete [OF assms(1) kept, of i]) simp
  qed
  moreover have "surviving fs = surviving fs0" using same(2) durable by (intro ext) simp
  ultimately show ?thesis using same(1) by (simp add: mutation_left_def)
qed

lemma replaced_left:
  assumes "sound_store fs0" and "replaced fs0 (temporary_path p tag) (recordPath recordId) new dn fs"
    and "dn = cf_durableNames fs0 \<or> dn = cf_names fs"
  shows "mutation_left fs0 recordId new fs" and "dn = cf_names fs \<longrightarrow> mutation_done fs0 recordId new fs"
proof -
  from assms(2) have b: "fs_bounded fs" and kept: "files_kept fs0 fs" and durable: "cf_durableNames fs = dn"
    and names: "i \<noteq> recordId \<Longrightarrow> js_get (cf_names fs) (recordPath i) = js_get (cf_names fs0) (recordPath i)"
    and new: "case new of None \<Rightarrow> js_get (cf_names fs) (recordPath recordId) = None
      | Some c \<Rightarrow> \<exists>h. js_get (cf_names fs) (recordPath recordId) = Some h \<and> complete_file h c fs" for i
    by (auto simp: replaced_def files_kept_def)
  have current: "content fs recordId = new"
    using new by (auto simp: content_def read_file_def complete_file_def split: option.splits)
  have other: "content fs i = content fs0 i" if "i \<noteq> recordId" for i
    by (rule kept_content [OF assms(1) kept names [OF that]])
  have settled: "surviving fs = content fs" if "dn = cf_names fs"
    using that durable by (intro ext) (simp add: surviving_def content_def read_file_def)
  have old: "surviving fs = surviving fs0" if "dn = cf_durableNames fs0"
    by (rule ext, rule kept_surviving [OF assms(1) kept]) (simp add: that durable)
  have named: "\<exists>c. complete_file n c fs" if n: "js_get (cf_names fs) (recordPath i) = Some n" for i n
  proof (cases "i = recordId")
    case True
    with new n show ?thesis by (auto split: option.splits)
  next
    case False
    with n names show ?thesis by (intro kept_complete [OF assms(1) kept, of i]) simp
  qed
  have "sound_store fs" unfolding sound_store_def
  proof (intro conjI allI impI, fact b)
    fix i n assume n: "js_get (cf_names fs) (recordPath i) = Some n \<or> js_get (cf_durableNames fs) (recordPath i) = Some n"
    show "\<exists>c. complete_file n c fs"
    proof (cases "js_get (cf_names fs) (recordPath i) = Some n")
      case False
      with n durable assms(3) have "js_get (cf_durableNames fs0) (recordPath i) = Some n" by auto
      then show ?thesis by (intro kept_complete [OF assms(1) kept, of i]) simp
    qed (rule named)
  qed
  then show "mutation_left fs0 recordId new fs"
    using assms(3) current other settled old by (auto simp: mutation_left_def)
  show "dn = cf_names fs \<longrightarrow> mutation_done fs0 recordId new fs"
    using current settled by (simp add: mutation_done_def)
qed

lemma broken_left:
  assumes "sound_store fs0" and "persist_broken fs0 (temporary_path p tag) (recordPath recordId) new fs"
  shows "mutation_left fs0 recordId new fs"
  using assms(2) quiet_left [OF assms(1)] replaced_left(1) [OF assms(1)]
  unfolding persist_broken_def replaced_durably_def by blast

lemma durable_done:
  assumes "sound_store fs0" and "replaced_durably fs0 (temporary_path p tag) (recordPath recordId) new fs"
  shows "mutation_left fs0 recordId new fs \<and> mutation_done fs0 recordId new fs"
  using replaced_left [OF assms(1) assms(2) [unfolded replaced_durably_def]] by simp

lemma unchanged_left: "sound_store fs \<Longrightarrow> mutation_left fs recordId new fs"
  by (simp add: mutation_left_def)

text \<open>Removing a record, with any name as the temporary one.\<close>

lemma remove_replaced:
  assumes "fs_bounded fs0"
  shows "replaced fs0 tmp path None (cf_durableNames fs0) (fs0\<lparr>cf_names := js_delete path (cf_names fs0)\<rparr>)"
  using assms by (auto simp: replaced_def fs_bounded_def js_get_delete)

lemma removeRecord_valid:
  assumes "fs_bounded fs0"
  shows "fs_valid (\<lambda>fs. fs = fs0) (fs_bind (fs_rm path) (\<lambda>_. fs_bind syncDirectory (\<lambda>_. fs_return x)))
    (\<lambda>y fs. y = x \<and> replaced_durably fs0 tmp path None fs) (persist_broken fs0 tmp path None)"
proof (rule fs_valid_bind)
  show "fs_valid (\<lambda>fs. fs = fs0) (fs_rm path) (\<lambda>_. replaced fs0 tmp path None (cf_durableNames fs0)) (persist_broken fs0 tmp path None)"
    unfolding fs_rm_def by (rule fs_valid_call) (use remove_replaced [OF assms] quiet_start [OF assms] in \<open>simp_all add: persist_broken_def\<close>)
  have "fs_valid (replaced fs0 tmp path None (cf_durableNames fs0)) syncDirectory
      (\<lambda>_. replaced_durably fs0 tmp path None) (persist_broken fs0 tmp path None)"
    by (rule syncDirectory_valid) (simp_all add: durable_replaced persist_broken_def)
  then show "fs_valid (replaced fs0 tmp path None (cf_durableNames fs0)) (fs_bind syncDirectory (\<lambda>_. fs_return x))
      (\<lambda>y fs. y = x \<and> replaced_durably fs0 tmp path None fs) (persist_broken fs0 tmp path None)"
    by (rule fs_valid_bind) (simp add: fs_valid_return)
qed

section \<open>A whole mutation\<close>

text \<open>What a mutation is to write, and answer, from the record it finds.\<close>

definition parsed :: "'r record_codec \<Rightarrow> string option \<Rightarrow> fs_error + 'r option" where
  "parsed codec t = (case t of None \<Rightarrow> Inr None
     | Some s \<Rightarrow> (case rc_parse codec s of None \<Rightarrow> Inl RecordInvalid | Some r \<Rightarrow> Inr (Some r)))"

definition mutation_of :: "'r record_codec \<Rightarrow> ('r option \<Rightarrow> fs_error + ('r option \<times> 'a)) \<Rightarrow> string option
    \<Rightarrow> fs_error + ('r option \<times> 'a)" where
  "mutation_of codec mutate t = result_bind (parsed codec t) (\<lambda>current.
     result_bind (mutate current) (\<lambda>(nextRecord, result). case nextRecord of
       None \<Rightarrow> Inr (None, result)
     | Some r \<Rightarrow> if rc_accepts codec r then Inr (Some r, result) else Inl RecordInvalid))"

definition new_content :: "'r record_codec \<Rightarrow> 'r option \<Rightarrow> string option" where
  "new_content codec nextRecord = map_option (record_text codec) nextRecord"

lemma loadRecord_run:
  assumes "loadRecord codec recordId plan fs = (out, plan', fs')"
  shows "fs' = fs \<and> (\<forall>r. out = Returns r \<longrightarrow> assertSafeRecordId recordId \<and> parsed codec (content fs recordId) = Inr r)"
  using assms
  by (auto simp: loadRecord_def fs_throw_def fs_bind_def fs_read_def fs_call_def fs_return_def parsed_def content_def
      split: if_splits list.splits fault.splits option.splits)

lemma parsed_None: "parsed codec t = Inr None \<longleftrightarrow> t = None"
  by (auto simp: parsed_def split: option.splits)

lemma run_of_valid:
  assumes "fs_valid (\<lambda>fs. fs = fs0) m Q R" and "m plan fs0 = (out, plan', fs)"
  shows "(\<forall>x. out = Returns x \<longrightarrow> Q x fs) \<and> ((\<forall>x. out \<noteq> Returns x) \<longrightarrow> R fs)"
  using fs_validD [OF assms(1) refl assms(2)] .

lemma write_mutation_run:
  assumes sound: "sound_store fs0" and run: "write_mutation codec tag recordId current (nextRecord, result) plan fs0 = (out, plan', fs)"
    and accepted: "\<forall>r. nextRecord = Some r \<longrightarrow> rc_accepts codec r"
  shows "mutation_left fs0 recordId (new_content codec nextRecord) fs \<and> (nextRecord = None \<and> current = None \<longrightarrow> fs = fs0) \<and>
    (\<forall>x. out = Returns x \<longrightarrow> x = result \<and> (if nextRecord = None \<and> current = None then fs = fs0
       else mutation_done fs0 recordId (new_content codec nextRecord) fs))"
proof (cases nextRecord)
  case None
  show ?thesis
  proof (cases current)
    case None': None
    with None run unchanged_left [OF sound] show ?thesis by (auto simp: write_mutation_def fs_return_def)
  next
    case (Some r)
    with None run have "fs_bind (fs_rm (recordPath recordId)) (\<lambda>_. fs_bind syncDirectory (\<lambda>_. fs_return result)) plan fs0
        = (out, plan', fs)" by (simp add: write_mutation_def)
    from run_of_valid [OF removeRecord_valid [OF sound_bounded [OF sound], where tmp = "temporary_path (recordPath recordId) tag"] this]
    show ?thesis using durable_done [OF sound] broken_left [OF sound] None Some
      by (cases out) (auto simp: new_content_def)
  qed
next
  case (Some r)
  have "fs_valid (\<lambda>fs. fs = fs0) (fs_bind (persistRecord (temporary_path (recordPath recordId) tag) (recordPath recordId)
      (record_text codec r)) (\<lambda>_. fs_return result))
      (\<lambda>x fs. x = result \<and> replaced_durably fs0 (temporary_path (recordPath recordId) tag) (recordPath recordId) (Some (record_text codec r)) fs)
      (persist_broken fs0 (temporary_path (recordPath recordId) tag) (recordPath recordId) (Some (record_text codec r)))"
    by (rule fs_valid_bind [OF persistRecord_valid [OF sound_bounded [OF sound]]]) (simp_all add: fs_valid_return)
  note valid = this
  from run accepted Some have "fs_bind (persistRecord (temporary_path (recordPath recordId) tag) (recordPath recordId)
      (record_text codec r)) (\<lambda>_. fs_return result) plan fs0 = (out, plan', fs)"
    by (simp add: write_mutation_def)
  from run_of_valid [OF valid this] show ?thesis using durable_done [OF sound] broken_left [OF sound] Some
    by (cases out) (auto simp: new_content_def)
qed

lemma store_mutation_run:
  assumes sound: "sound_store fs0" and run: "store_mutateRecord codec tag recordId mutate plan fs0 = (out, plan', fs)"
  shows "fs = fs0 \<and> (\<forall>x. out \<noteq> Returns x) \<or>
    (\<exists>nextRecord result. mutation_of codec mutate (content fs0 recordId) = Inr (nextRecord, result) \<and>
       mutation_left fs0 recordId (new_content codec nextRecord) fs \<and>
       (nextRecord = None \<and> content fs0 recordId = None \<longrightarrow> fs = fs0) \<and>
       (\<forall>x. out = Returns x \<longrightarrow> x = result \<and> (if nextRecord = None \<and> content fs0 recordId = None then fs = fs0
          else mutation_done fs0 recordId (new_content codec nextRecord) fs)))"
proof (cases "assertSafeRecordId recordId")
  case safe: True
  obtain loaded plan1 fs1 where load: "loadRecord codec recordId plan fs0 = (loaded, plan1, fs1)" by (metis prod_cases3)
  from loadRecord_run [OF load] have fs1: "fs1 = fs0" by simp
  show ?thesis
  proof (cases loaded)
    case (Returns current)
    with loadRecord_run [OF load] have current: "parsed codec (content fs0 recordId) = Inr current" by simp
    from run load Returns safe fs1 have rest: "(case mutate current of Inl e \<Rightarrow> fs_throw e
        | Inr mutation \<Rightarrow> write_mutation codec tag recordId current mutation) plan1 fs0 = (out, plan', fs)"
      by (simp add: store_mutateRecord_def fs_bind_def)
    show ?thesis
    proof (cases "mutate current")
      case (Inl e)
      with rest show ?thesis by (auto simp: fs_throw_def)
    next
      case (Inr mutation)
      obtain nextRecord result where mutation: "mutation = (nextRecord, result)" by (cases mutation)
      from rest Inr mutation have run1: "write_mutation codec tag recordId current (nextRecord, result) plan1 fs0 = (out, plan', fs)" by simp
      show ?thesis
      proof (cases "\<forall>r. nextRecord = Some r \<longrightarrow> rc_accepts codec r")
        case True
        then have m1: "mutation_of codec mutate (content fs0 recordId) = Inr (nextRecord, result)"
          using current Inr mutation by (auto simp: mutation_of_def split: option.split)
        have m2: "current = None \<longleftrightarrow> content fs0 recordId = None" using current parsed_None by (metis Inr_inject)
        show ?thesis using conjI [OF m1 write_mutation_run [OF sound run1 True, unfolded m2]] by blast
      next
        case False
        then obtain r where "nextRecord = Some r" "\<not> rc_accepts codec r" by blast
        with run1 have "fs = fs0" "out = Throws RecordInvalid" by (simp_all add: write_mutation_def fs_throw_def)
        then show ?thesis by simp
      qed
    qed
  next
    case (Throws e)
    with run load safe fs1 have "fs = fs0" "out = Throws e" by (simp_all add: store_mutateRecord_def fs_bind_def)
    then show ?thesis by simp
  next
    case Crashed
    with run load safe fs1 have "fs = fs0" "out = Crashed" by (simp_all add: store_mutateRecord_def fs_bind_def)
    then show ?thesis by simp
  qed
next
  case False
  with run have "fs = fs0" "out = Throws UnsafeId" by (simp_all add: store_mutateRecord_def fs_throw_def)
  then show ?thesis by simp
qed

text \<open>Without faults, and with a temporary name that is not taken, a mutation answers.\<close>

lemma store_mutation_returns:
  assumes "assertSafeRecordId recordId" and "\<not> js_has (cf_names fs0) (temporary_path (recordPath recordId) tag)"
    and m: "mutation_of codec mutate (content fs0 recordId) = Inr (nextRecord, result)"
  shows "\<exists>fs. store_mutateRecord codec tag recordId mutate [] fs0 = (Returns result, [], fs)"
proof -
  from m obtain current mutation where current: "parsed codec (content fs0 recordId) = Inr current" and mutate: "mutate current = Inr mutation"
    and checked: "(case mutation of (None, y) \<Rightarrow> Inr (None, y) | (Some r, y) \<Rightarrow> if rc_accepts codec r then Inr (Some r, y) else Inl RecordInvalid) = Inr (nextRecord, result)"
    by (auto simp: mutation_of_def result_simps)
  from checked have mutation: "mutation = (nextRecord, result)" and accepted: "\<forall>r. nextRecord = Some r \<longrightarrow> rc_accepts codec r"
    by (auto split: prod.splits option.splits if_splits)
  note mutate = mutate [unfolded mutation]
  have load: "loadRecord codec recordId [] fs0 = (Returns current, [], fs0)"
    using assms(1) current
    by (auto simp: loadRecord_def fs_bind_def fs_read_def fs_call_def fs_return_def parsed_def content_def split: option.splits)
  have "\<exists>fs. write_mutation codec tag recordId current (nextRecord, result) [] fs0 = (Returns result, [], fs)"
    using accepted assms(2)
    by (auto simp: write_mutation_def persistRecord_def syncDirectory_def fs_bind_def fs_catch_def fs_mkdir_def
        fs_call_def fs_open_new_def write_temporary_def fs_write_def fs_sync_def fs_close_def rename_over_def
        fs_rename_def fs_open_dir_def fs_sync_dir_def fs_rm_def fs_return_def split: option.split)
  with load assms(1) mutate show ?thesis by (simp add: store_mutateRecord_def fs_bind_def)
qed

end
