(* ===== verification/StoreProperties.thy ===== *)
theory StoreProperties
  imports StorePhases
begin

text \<open>
  The properties of the crash-durable store: a mutation is atomic under every plan of faults,
  and a record it has answered for survives every later fault, crash and restart.
\<close>

section \<open>Runs with crashes and restarts\<close>




















end
