(* ===== verification/ApprovalStore.thy ===== *)
theory ApprovalStore
  imports ApprovalProperties StoreProperties
begin

text \<open>
  The approval ledger over the crash-durable store: the abstract store that
  \<open>ApprovalLedger\<close> mutates is what the files of the store hold, under every plan of faults.
\<close>

section \<open>The records as files\<close>



















end
