(* ===== verification/AdmissionExecutor.thy ===== *)
theory AdmissionExecutor
  imports AdmissionRuns
begin

text \<open>
  packages/gateway-control-contracts/src/gateway-control-admission-executor.ts: the executor that
  runs admitted messages, as many of each class at once as the limits allow.

  A pending execution, an object in the code, is a number with an entry in \<open>ex_works\<close>; its
  promises are the logs of what they were settled with. An asynchronous execution is an entry of
  \<open>ex_running\<close> from the call of \<open>execute\<close> to the end of its closure; when it ends is up to
  the environment, as is when the scheduled pump fires. \<open>execute\<close>
  is taken to return its promise, and neither it nor \<open>onCancel\<close> to call the executor before
  returning.
\<close>

section \<open>Data\<close>

record execution_request =
  rq_byteLength :: int
  rq_coalesceKey :: "string option"
  rq_id :: string
  rq_messageClass :: admission_class
  rq_stablePrincipal :: "string option"

type_synonym work_message = "nat message"

datatype execution_settlement =
  ExecutionDone
| ExecutionRejected
| ExecutionReplaced
| ExecutionClosed string
| ExecutionNotAdmitted "work_message admission_result"

datatype submission_admission =
  SubmissionClosed string
| SubmissionAdmitted
| SubmissionReplaced
| SubmissionNotAdmitted "work_message admission_result"

record pending_work =
  pw_generation :: nat
  pw_settled :: bool

record executor =
  ex_scheduler :: "work_message scheduler"
  ex_limits :: "admission_class \<Rightarrow> int"
  ex_activeByClass :: "admission_class \<Rightarrow> int"
  ex_pumpScheduled :: bool
  ex_admissionGeneration :: nat
  ex_closedReason :: "string option"
  ex_activeWork :: "nat list"
  ex_works :: "(nat, pending_work) js_map"
  ex_nextWork :: nat
  ex_symbols :: nat
  ex_running :: "(nat, admission_class \<times> nat) js_map"
  ex_settlements :: "(nat \<times> execution_settlement) list"
  ex_cleanups :: "nat list"

definition execution_classes :: "admission_class list" where
  "execution_classes = [Authority, Diagnostic, Liveness, Safety]"

definition default_execution_limit :: "admission_class \<Rightarrow> int" where
  "default_execution_limit c = (case c of Authority \<Rightarrow> 4 | Diagnostic \<Rightarrow> 1 | Liveness \<Rightarrow> 2 | Safety \<Rightarrow> 8)"

datatype executor_error = ExecutionLimitNotPositive admission_class | CompletionFailed scheduler_error

definition execution_limit :: "(admission_class \<Rightarrow> int option) \<Rightarrow> admission_class \<Rightarrow> int" where
  "execution_limit limits c = (case limits c of None \<Rightarrow> default_execution_limit c | Some n \<Rightarrow> n)"

definition createGatewayControlAdmissionExecutor :: "(admission_class \<Rightarrow> int option) \<Rightarrow> executor_error + executor" where
  "createGatewayControlAdmissionExecutor limits =
     (case find (\<lambda>c. \<not> is_safe_integer (execution_limit limits c) \<or> execution_limit limits c \<le> 0) execution_classes of
        Some c \<Rightarrow> Inl (ExecutionLimitNotPositive c)
      | None \<Rightarrow> Inr \<lparr>ex_scheduler = empty_scheduler, ex_limits = execution_limit limits, ex_activeByClass = (\<lambda>_. 0),
          ex_pumpScheduled = False, ex_admissionGeneration = 0, ex_closedReason = None, ex_activeWork = [],
          ex_works = [], ex_nextWork = 0, ex_symbols = 0, ex_running = [], ex_settlements = [], ex_cleanups = []\<rparr>)"

definition executionMessage :: "execution_request \<Rightarrow> nat \<Rightarrow> work_message" where
  "executionMessage request work =
     \<lparr>am_byteLength = rq_byteLength request, am_coalesceKey = rq_coalesceKey request, am_id = rq_id request,
      am_class = rq_messageClass request, am_payload = work, am_stablePrincipal = rq_stablePrincipal request\<rparr>"

section \<open>The pump\<close>

definition schedulePump :: "executor \<Rightarrow> executor" where
  "schedulePump e = (if ex_pumpScheduled e \<or> ex_closedReason e \<noteq> None then e else e\<lparr>ex_pumpScheduled := True\<rparr>)"

definition allowedMessageClasses :: "executor \<Rightarrow> admission_class list" where
  "allowedMessageClasses e = filter (\<lambda>c. ex_activeByClass e c < ex_limits e c) execution_classes"

text \<open>The part of the loop's body that runs before \<open>execute\<close> is awaited.\<close>

definition start_work :: "work_message \<Rightarrow> work_message scheduler \<Rightarrow> executor \<Rightarrow> executor" where
  "start_work m s e = e\<lparr>ex_scheduler := s,
     ex_activeByClass := (ex_activeByClass e)(am_class m := ex_activeByClass e (am_class m) + 1),
     ex_activeWork := ex_activeWork e @ [am_payload m],
     ex_running := js_set (ex_symbols e) (am_class m, am_payload m) (ex_running e),
     ex_symbols := ex_symbols e + 1\<rparr>"

definition raw_queued :: "'m scheduler \<Rightarrow> nat" where
  "raw_queued s = length (sc_safety s) + sum_list (map (\<lambda>(_, q). length (aq_messages q)) (sc_authorityByPrincipal s)) +
     length (sc_livenessByKey s) + length (sc_diagnosticByKey s)"

lemma update_queue_length:
  "js_get m k = Some q \<Longrightarrow> length (aq_messages q') < length (aq_messages q) \<Longrightarrow>
     sum_list (map (\<lambda>(_, q). length (aq_messages q)) (js_set k q' m)) < sum_list (map (\<lambda>(_, q). length (aq_messages q)) m)"
  by (induction m) (auto split: if_splits)

lemma dequeueClass_shrinks:
  assumes "dequeueClass c s = Some (m, s')"
  shows "raw_queued s' < raw_queued s"
proof (cases c)
  case Authority
  with assms obtain p q rest n where q: "js_get (sc_authorityByPrincipal s) p = Some q" "aq_messages q = m # rest"
    and s': "s' = s\<lparr>sc_authorityByPrincipal := js_set p (q\<lparr>aq_messages := rest\<rparr>) (sc_authorityByPrincipal s),
      sc_authorityPrincipalCursor := n mod length (sc_authorityPrincipalOrder s)\<rparr>"
    unfolding dequeueClass_def dequeueAuthority_def by (auto elim: dequeue_authority_from_Some)
  from update_queue_length [OF q(1), of "q\<lparr>aq_messages := rest\<rparr>"] q(2) s' show ?thesis
    by (simp add: raw_queued_def)
qed (use assms js_size_delete_le in \<open>auto simp: dequeueClass_def dequeueFirstCoalescedMessage_def raw_queued_def less_Suc_eq_le
    split: list.splits\<close>)

lemma dequeue_shrinks: "dequeue allowed token s = (Some m, s') \<Longrightarrow> raw_queued s' < raw_queued s"
  unfolding dequeue_def
  by (erule dequeue_from_cases) (auto dest!: dequeueClass_shrinks simp: raw_queued_def)

function pump_loop :: "executor \<Rightarrow> executor" where
  "pump_loop e =
     (if allowedMessageClasses e = [] then e
      else case dequeue (Some (allowedMessageClasses e)) (ex_symbols e) (ex_scheduler e) of
          (None, s) \<Rightarrow> e\<lparr>ex_scheduler := s\<rparr>
        | (Some m, s) \<Rightarrow> pump_loop (start_work m s e))"
  by pat_completeness auto
termination
  by (relation "measure (\<lambda>e. raw_queued (ex_scheduler e))") (auto simp: start_work_def dest: dequeue_shrinks [OF sym])

declare pump_loop.simps [simp del]

definition pump :: "executor \<Rightarrow> executor" where
  "pump e = (if ex_closedReason e \<noteq> None then e else pump_loop e)"

text \<open>The callback given to \<open>scheduleImmediate\<close>.\<close>

definition scheduled_pump :: "executor \<Rightarrow> executor" where
  "scheduled_pump e = pump (e\<lparr>ex_pumpScheduled := False\<rparr>)"

section \<open>The end of an execution\<close>

definition is_settled :: "executor \<Rightarrow> nat \<Rightarrow> bool" where
  "is_settled e work = (case js_get (ex_works e) work of None \<Rightarrow> True | Some w \<Rightarrow> pw_settled w)"

definition settle_work :: "nat \<Rightarrow> execution_settlement \<Rightarrow> executor \<Rightarrow> executor" where
  "settle_work work outcome e =
     (case js_get (ex_works e) work of None \<Rightarrow> e
      | Some w \<Rightarrow> e\<lparr>ex_works := js_set work (w\<lparr>pw_settled := True\<rparr>) (ex_works e),
          ex_settlements := ex_settlements e @ [(work, outcome)]\<rparr>)"

definition same_generation :: "executor \<Rightarrow> nat \<Rightarrow> bool" where
  "same_generation e work =
     (case js_get (ex_works e) work of None \<Rightarrow> False | Some w \<Rightarrow> pw_generation w = ex_admissionGeneration e)"

definition execution_cleanup :: "nat \<Rightarrow> admission_class \<Rightarrow> nat \<Rightarrow> work_message scheduler \<Rightarrow> executor \<Rightarrow> executor" where
  "execution_cleanup token c work s e = schedulePump (e\<lparr>ex_scheduler := s,
     ex_activeByClass := (ex_activeByClass e)(c := ex_activeByClass e c - 1),
     ex_activeWork := filter (\<lambda>w. w \<noteq> work) (ex_activeWork e),
     ex_running := js_delete token (ex_running e),
     ex_cleanups := ex_cleanups e @ [work]\<rparr>)"

definition execution_finished :: "nat \<Rightarrow> bool \<Rightarrow> executor \<Rightarrow> executor_error + executor" where
  "execution_finished token failed e =
     (case js_get (ex_running e) token of None \<Rightarrow> Inr e
      | Some (c, work) \<Rightarrow>
          (case complete token (ex_scheduler e) of
             Inl (err, _) \<Rightarrow> Inl (CompletionFailed err)
           | Inr s \<Rightarrow>
               let e1 = execution_cleanup token c work s e
               in Inr (if is_settled e1 work \<or> \<not> same_generation e1 work then e1
                       else settle_work work (if failed then ExecutionRejected else ExecutionDone) e1)))"

section \<open>Closing and submitting\<close>

definition close_queued_work :: "string \<Rightarrow> nat \<Rightarrow> executor \<Rightarrow> executor" where
  "close_queued_work reason work e =
     (if is_settled e work then e
      else settle_work work (ExecutionClosed reason) (e\<lparr>ex_cleanups := ex_cleanups e @ [work]\<rparr>))"

definition close_active_work :: "string \<Rightarrow> nat \<Rightarrow> executor \<Rightarrow> executor" where
  "close_active_work reason work e =
     (if is_settled e work then e else settle_work work (ExecutionClosed reason) e)"

definition close_executor :: "string \<Rightarrow> executor \<Rightarrow> executor" where
  "close_executor reason e =
     (if ex_closedReason e \<noteq> None then e
      else let (cancelled, s) = cancelQueued (ex_scheduler e);
               e1 = e\<lparr>ex_closedReason := Some reason, ex_admissionGeneration := ex_admissionGeneration e + 1, ex_scheduler := s\<rparr>;
               e2 = fold (close_queued_work reason) (map am_payload cancelled) e1
           in fold (close_active_work reason) (ex_activeWork e2) e2)"

definition add_work :: "executor \<Rightarrow> executor" where
  "add_work e = e\<lparr>ex_works := js_set (ex_nextWork e) \<lparr>pw_generation = ex_admissionGeneration e, pw_settled = False\<rparr> (ex_works e),
     ex_nextWork := ex_nextWork e + 1\<rparr>"

definition displace_work :: "nat \<Rightarrow> executor \<Rightarrow> executor" where
  "displace_work work e =
     (if is_settled e work then e
      else settle_work work ExecutionReplaced (e\<lparr>ex_cleanups := ex_cleanups e @ [work]\<rparr>))"

text \<open>A refused submission resolves its promises without marking the work, which nothing holds.\<close>

definition submit :: "execution_request \<Rightarrow> executor \<Rightarrow> submission_admission \<times> executor" where
  "submit request e =
     (case ex_closedReason e of
        Some reason \<Rightarrow> (SubmissionClosed reason, e)
      | None \<Rightarrow>
          let work = ex_nextWork e;
              (result, s) = enqueue (executionMessage request work) (ex_scheduler e);
              e1 = (add_work e)\<lparr>ex_scheduler := s\<rparr>
          in case result of
               Admitted \<Rightarrow> (SubmissionAdmitted, schedulePump e1)
             | Replaced m \<Rightarrow> (SubmissionReplaced, schedulePump (displace_work (am_payload m) e1))
             | _ \<Rightarrow> (SubmissionNotAdmitted result, e1\<lparr>ex_cleanups := ex_cleanups e1 @ [work],
                 ex_settlements := ex_settlements e1 @ [(work, ExecutionNotAdmitted result)]\<rparr>))"

section \<open>Runs\<close>

datatype execution_event =
  Submit execution_request
| PumpFires
| ExecutionEnds nat bool
| Close string

definition execution_exec :: "executor \<Rightarrow> execution_event \<Rightarrow> executor_error + executor" where
  "execution_exec e event = (case event of
     Submit request \<Rightarrow> Inr (snd (submit request e))
   | PumpFires \<Rightarrow> Inr (if ex_pumpScheduled e then scheduled_pump e else e)
   | ExecutionEnds token failed \<Rightarrow> execution_finished token failed e
   | Close reason \<Rightarrow> Inr (close_executor reason e))"

end
