(* ===== verification/ExecutorInvariant.thy ===== *)
theory ExecutorInvariant
  imports AdmissionExecutor
begin

text \<open>
  The invariant of the admission executor over its runs. What the scheduler holds, as multisets
  of pending executions, accounts together with the resolved cleanups for every submission; the
  running executions are the messages in flight; and an open executor without a scheduled pump
  has no class that could start more.
\<close>

section \<open>What the scheduler's operations move\<close>

definition all_queued :: "'m scheduler \<Rightarrow> 'm multiset" where
  "all_queued s = mset (queued Safety s) + mset (queued Authority s) + mset (queued Liveness s) + mset (queued Diagnostic s)"

lemma all_queued_iff: "m \<in># all_queued s \<longleftrightarrow> (\<exists>c. m \<in> set (queued c s))"
  by (auto simp: all_queued_def) (metis admission_class.exhaust)

lemma in_flight_classes:
  "filter_mset (\<lambda>m. am_class m = Safety) M + filter_mset (\<lambda>m. am_class m = Authority) M +
   filter_mset (\<lambda>m. am_class m = Liveness) M + filter_mset (\<lambda>m. am_class m = Diagnostic) M = M"
proof (induction M)
  case (add m M)
  then show ?case by (cases "am_class m") (simp_all add: ac_simps)
qed simp

lemma queued_of_held:
  assumes "sc_inFlight s' = sc_inFlight s" and "held c s' + A = B + held c s"
  shows "mset (queued c s') + A = B + mset (queued c s)"
  using assms by (simp add: held_def in_flight_def ac_simps)

lemma coalesce_prior: "coalesce m messages acc limit = Some (Some x, rest) \<Longrightarrow> x \<in> set (js_values messages)"
  by (auto simp: coalesce_def Let_def intro: js_get_value split: if_splits)

lemma coalesced_result_Replaced: "coalesced_result prior = Replaced x \<longleftrightarrow> prior = Some x"
  by (cases prior) (simp_all add: coalesced_result_def)

lemma enqueue_replaced:
  assumes step: "enqueue m s = (Replaced x, s')"
  shows "x \<in># all_queued s"
proof -
  have valid: "validateMessage m = (None :: ('a, 'b) message_scheme admission_result option)"
    using step validateMessage_fence [of m] unfolding enqueue_def by (cases "validateMessage m :: ('a, 'b) message_scheme admission_result option") fastforce+
  consider (live) "am_class m = Liveness" | (diag) "am_class m = Diagnostic"
    using step valid by (cases "am_class m")
      (simp_all add: enqueue_def enqueue_safety_def enqueue_authority_def Let_def split: if_splits)
  then show ?thesis
  proof cases
    case live
    then have "x \<in> set (js_values (sc_livenessByKey s))" using step valid
      by (auto simp: enqueue_def enqueue_coalesced_def coalesced_result_Replaced dest: coalesce_prior split: option.splits)
    then show ?thesis by (simp add: all_queued_def queued_def)
  next
    case diag
    then have "x \<in> set (js_values (sc_diagnosticByKey s))" using step valid
      by (auto simp: enqueue_def enqueue_coalesced_def coalesced_result_Replaced dest: coalesce_prior split: option.splits)
    then show ?thesis by (simp add: all_queued_def queued_def)
  qed
qed

lemma sum_of_classes:
  "all_queued s + A = mset (queued Safety s) + (if k = Safety then A else {#}) + (mset (queued Authority s) + (if k = Authority then A else {#})) +
     (mset (queued Liveness s) + (if k = Liveness then A else {#})) + (mset (queued Diagnostic s) + (if k = Diagnostic then A else {#}))"
  by (cases k) (simp_all add: all_queued_def)

lemma enqueue_moves:
  assumes inv: "sched_inv s" and step: "enqueue m s = (r, s')"
  shows "sched_inv s'" "sc_inFlight s' = sc_inFlight s"
    "all_queued s' + mset_option (displaced r) = (if accepted r then add_mset m (all_queued s) else all_queued s)"
    "c \<noteq> am_class m \<or> \<not> accepted r \<Longrightarrow> mset (queued c s') = mset (queued c s)"
proof -
  have eff: "enqueue_effect m s r s'" by (rule enqueue_inv [OF inv step])
  then show "sched_inv s'" and fl: "sc_inFlight s' = sc_inFlight s" by (simp_all add: enqueue_effect_def)
  have disp: "displaced r = None" if "\<not> accepted r" using that by (cases r) simp_all
  have q: "mset (queued c s') + (if c = am_class m then mset_option (displaced r) else {#}) =
      (if c = am_class m \<and> accepted r then {#m#} else {#}) + mset (queued c s)" for c
    by (rule queued_of_held [OF fl]) (use eff in \<open>simp add: enqueue_effect_def\<close>)
  show "mset (queued c s') = mset (queued c s)" if "c \<noteq> am_class m \<or> \<not> accepted r"
    using q [of c] that disp by (cases "c = am_class m") auto
  show "all_queued s' + mset_option (displaced r) = (if accepted r then add_mset m (all_queued s) else all_queued s)"
  proof (cases "accepted r")
    case True
    have eq: "mset (queued c s') + (if am_class m = c then mset_option (displaced r) else {#}) =
      mset (queued c s) + (if am_class m = c then {#m#} else {#})" for c
      using q [of c] True by (cases "c = am_class m") auto
    have "all_queued s' + mset_option (displaced r) = all_queued s + {#m#}"
      unfolding sum_of_classes [where k="am_class m"] by (simp only: eq)
    then show ?thesis using True by simp
  next
    case False
    have "mset (queued c s') = mset (queued c s)" for c
      using q [of c] False disp by (cases "c = am_class m") auto
    then show ?thesis using False disp by (simp add: all_queued_def)
  qed
qed

lemma dequeue_moves:
  assumes inv: "sched_inv s" and fresh: "js_get (sc_inFlight s) t = None" and step: "dequeue allowed t s = (Some m, s')"
  shows "sched_inv s'" "sc_inFlight s' = js_set t m (sc_inFlight s)" "in_flight s' = add_mset m (in_flight s)"
    "mset (queued c s) = (if c = am_class m then {#m#} else {#}) + mset (queued c s')"
    "all_queued s = add_mset m (all_queued s')"
proof -
  have all: "sched_inv s' \<and> held c s' = held c s \<and> in_flight s' = add_mset m (in_flight s)" for c
    using dequeue_inv [OF inv fresh step, of c] by simp
  then show "sched_inv s'" and fl: "in_flight s' = add_mset m (in_flight s)" by blast+
  show "sc_inFlight s' = js_set t m (sc_inFlight s)" using dequeue_inFlight [OF step inv] by simp
  show q: "mset (queued c s) = (if c = am_class m then {#m#} else {#}) + mset (queued c s')" for c
    using all [of c] by (auto simp: held_def fl)
  show "all_queued s = add_mset m (all_queued s')"
    unfolding all_queued_def q [of Safety] q [of Authority] q [of Liveness] q [of Diagnostic]
    by (cases "am_class m") simp_all
qed

lemma dequeue_from_allowed:
  "dequeue_from offsets (Some cs) t s = (Some m, s') \<Longrightarrow> sched_inv s \<Longrightarrow> am_class m \<in> set cs"
  by (induction offsets) (auto simp: Let_def dest: dequeueClass_moved split: if_splits option.splits)

lemma dequeue_from_nothing:
  "dequeue_from offsets (Some cs) t s = (None, s') \<Longrightarrow> off \<in> set offsets \<Longrightarrow>
   serviceCycle ! ((sc_serviceCursor s + off) mod 15) = c \<Longrightarrow> c \<in> set cs \<Longrightarrow> dequeueClass c s = None"
  by (induction offsets) (auto simp: Let_def split: if_splits option.splits)

lemma dequeue_nothing:
  assumes inv: "sched_inv s" and step: "dequeue (Some cs) t s = (None, s')" and c: "c \<in> set cs"
  shows "queued c s = [] \<and> s' = s"
proof -
  have "cycle_dist c (sc_serviceCursor s) \<in> set [0..<length serviceCycle]"
    using cycle_dist_turn(1) [of c "sc_serviceCursor s"] by simp
  then have "dequeueClass c s = None"
    using dequeue_from_nothing [OF step [unfolded dequeue_def]] cycle_dist_turn(2) c by blast
  then have "queued c s = []" using dequeueClass_nonempty [OF inv] by blast
  moreover have "s' = s" using step unfolding dequeue_def by (rule dequeue_from_cases) simp_all
  ultimately show ?thesis by simp
qed

lemma complete_moves:
  assumes inv: "sched_inv s" and get: "js_get (sc_inFlight s) t = Some m"
  shows "\<exists>s'. complete t s = Inr s' \<and> sched_inv s' \<and> sc_inFlight s' = js_delete t (sc_inFlight s) \<and>
    in_flight s = add_mset m (in_flight s') \<and> (\<forall>c. mset (queued c s') = mset (queued c s)) \<and> all_queued s' = all_queued s"
proof -
  obtain s' where s': "complete t s = Inr s'" "sched_inv s'" using complete_inv [OF inv get] by blast
  have q: "mset (queued c s') = mset (queued c s)" for c using complete_queued [OF inv s'(1)] by blast
  have fl: "sc_inFlight s' = js_delete t (sc_inFlight s)" using complete_inFlight [OF s'(1)] by blast
  have "js_map_ok (sc_inFlight s)" using inv by (simp add: sched_inv_def scheduler_maps_ok_def)
  then have "in_flight s = add_mset m (in_flight s')" using in_flight_delete [OF _ get] by (simp add: in_flight_def fl)
  then show ?thesis using s' q fl by (auto simp: all_queued_def)
qed

lemma cancelQueued_moves:
  assumes inv: "sched_inv s" and step: "cancelQueued s = (ms, s')"
  shows "sched_inv s'" "sc_inFlight s' = sc_inFlight s" "queued c s' = []" "all_queued s' = {#}" "mset ms = all_queued s"
proof -
  note all = cancelQueued_inv [OF inv step]
  show "sched_inv s'" "queued c s' = []" for c using all by blast+
  then show "all_queued s' = {#}" by (simp add: all_queued_def)
  show "sc_inFlight s' = sc_inFlight s" using step by (auto simp: cancelQueued_def Let_def)
  show "mset ms = all_queued s" using all by (simp add: all_queued_def ac_simps)
qed

section \<open>The invariant\<close>

definition running_of :: "work_message scheduler \<Rightarrow> (nat, admission_class \<times> nat) js_map" where
  "running_of s = map (\<lambda>(t, m). (t, am_class m, am_payload m)) (sc_inFlight s)"

definition settled_works :: "executor \<Rightarrow> nat list" where
  "settled_works e = map fst (ex_settlements e)"

definition held_works :: "executor \<Rightarrow> nat multiset" where
  "held_works e = image_mset am_payload (all_queued (ex_scheduler e) + in_flight (ex_scheduler e))"

definition class_in_flight :: "admission_class \<Rightarrow> work_message scheduler \<Rightarrow> int" where
  "class_in_flight c s = int (size (filter_mset (\<lambda>m. am_class m = c) (in_flight s)))"

definition executions_ok :: "executor \<Rightarrow> bool" where
  "executions_ok e \<longleftrightarrow> sched_inv (ex_scheduler e) \<and> ex_running e = running_of (ex_scheduler e) \<and>
     (\<forall>t \<in> fst ` set (sc_inFlight (ex_scheduler e)). t < ex_symbols e) \<and>
     (\<forall>c. ex_activeByClass e c = class_in_flight c (ex_scheduler e) \<and>
       class_in_flight c (ex_scheduler e) \<le> ex_limits e c \<and> 0 < ex_limits e c) \<and>
     mset (ex_activeWork e) = image_mset am_payload (in_flight (ex_scheduler e))"

definition tracked :: "executor \<Rightarrow> nat \<Rightarrow> bool" where
  "tracked e w \<longleftrightarrow> (\<exists>p. js_get (ex_works e) w = Some p \<and> pw_settled p = (w \<in> set (settled_works e)) \<and>
     (w \<in> set (settled_works e) \<or> pw_generation p = ex_admissionGeneration e))"

definition works_ok :: "executor \<Rightarrow> bool" where
  "works_ok e \<longleftrightarrow> mset (ex_cleanups e) + held_works e = mset [0..<ex_nextWork e] \<and>
     distinct (settled_works e) \<and> (\<forall>w \<in> set (settled_works e). w < ex_nextWork e) \<and>
     set (ex_cleanups e) \<subseteq> set (settled_works e) \<and>
     (\<forall>m. m \<in># all_queued (ex_scheduler e) \<longrightarrow> am_payload m \<notin> set (settled_works e)) \<and>
     (\<forall>w. w \<in># held_works e \<longrightarrow> tracked e w)"

definition closing_ok :: "executor \<Rightarrow> bool" where
  "closing_ok e \<longleftrightarrow> (ex_closedReason e \<noteq> None \<longrightarrow> all_queued (ex_scheduler e) = {#} \<and>
     set (ex_activeWork e) \<subseteq> set (settled_works e))"

definition saturated :: "executor \<Rightarrow> bool" where
  "saturated e \<longleftrightarrow> (\<forall>c. queued c (ex_scheduler e) = [] \<or> ex_limits e c \<le> ex_activeByClass e c)"

definition woken :: "executor \<Rightarrow> bool" where
  "woken e \<longleftrightarrow> (ex_closedReason e = None \<and> \<not> ex_pumpScheduled e \<longrightarrow> saturated e)"

definition executor_ok :: "executor \<Rightarrow> bool" where
  "executor_ok e \<longleftrightarrow> executions_ok e \<and> works_ok e \<and> closing_ok e \<and> woken e"

lemma executor_created_ok: "createGatewayControlAdmissionExecutor limits = Inr e \<Longrightarrow> executor_ok e"
proof -
  assume step: "createGatewayControlAdmissionExecutor limits = Inr e"
  have found: "find (\<lambda>c. \<not> is_safe_integer (execution_limit limits c) \<or> execution_limit limits c \<le> 0) execution_classes = None"
    using step unfolding createGatewayControlAdmissionExecutor_def by (simp split: option.splits)
  have pos: "0 < execution_limit limits c" for c
    using found by (cases c) (auto simp: execution_classes_def split: if_splits)
  have e: "ex_scheduler e = empty_scheduler" "ex_limits e = execution_limit limits" "ex_activeByClass e = (\<lambda>_. 0)"
    "ex_closedReason e = None" "ex_activeWork e = []" "ex_works e = []" "ex_nextWork e = 0" "ex_running e = []"
    "ex_settlements e = []" "ex_cleanups e = []"
    using step found unfolding createGatewayControlAdmissionExecutor_def by auto
  have q: "queued c (empty_scheduler :: work_message scheduler) = []" for c
    by (cases c) (simp_all add: queued_def empty_scheduler_def queued_authority_def js_values_def)
  have f: "in_flight (empty_scheduler :: work_message scheduler) = {#}" "sc_inFlight (empty_scheduler :: work_message scheduler) = []"
    by (simp_all add: in_flight_def empty_scheduler_def js_values_def)
  have pos': "0 \<le> execution_limit limits c" for c using pos [of c] by simp
  show ?thesis
    by (simp add: executor_ok_def executions_ok_def works_ok_def closing_ok_def woken_def saturated_def settled_works_def
      held_works_def all_queued_def running_of_def class_in_flight_def e q f pos pos' empty_scheduler_inv)
qed

lemma running_set: "js_set t (am_class m, am_payload m) (map (\<lambda>(t, m). (t, am_class m, am_payload m)) fl) =
    map (\<lambda>(t, m). (t, am_class m, am_payload m)) (js_set t m fl)"
  by (induction fl) auto

lemma running_delete: "js_delete t (map (\<lambda>(t, m). (t, am_class m, am_payload m)) fl) =
    map (\<lambda>(t, m). (t, am_class m, am_payload m)) (js_delete t fl)"
  by (induction fl) auto

lemma held_in_flight_unsettled_generation:
  "tracked e w \<Longrightarrow> w \<notin> set (settled_works e) \<Longrightarrow> same_generation e w \<and> \<not> is_settled e w"
  by (auto simp: tracked_def same_generation_def is_settled_def)

lemma tracked_settled: "tracked e w \<Longrightarrow> is_settled e w \<longleftrightarrow> w \<in> set (settled_works e)"
  by (auto simp: tracked_def is_settled_def)

lemma tracked_frame:
  "js_get (ex_works e') w = js_get (ex_works e) w \<Longrightarrow> (w \<in> set (settled_works e')) = (w \<in> set (settled_works e)) \<Longrightarrow>
   ex_admissionGeneration e' = ex_admissionGeneration e \<Longrightarrow> tracked e' w = tracked e w"
  by (simp add: tracked_def)

section \<open>The pump\<close>

lemma start_work_ok:
  assumes ok: "executions_ok e" "works_ok e"
    and step: "dequeue (Some (allowedMessageClasses e)) (ex_symbols e) (ex_scheduler e) = (Some m, s)"
  shows "executions_ok (start_work m s e) \<and> works_ok (start_work m s e)"
proof -
  have inv: "sched_inv (ex_scheduler e)" and tokens: "\<forall>t \<in> fst ` set (sc_inFlight (ex_scheduler e)). t < ex_symbols e"
    using ok by (simp_all add: executions_ok_def)
  have fresh: "js_get (sc_inFlight (ex_scheduler e)) (ex_symbols e) = None"
    using tokens by (force simp: map_of_eq_None_iff)
  note moves = dequeue_moves [OF inv fresh step]
  have "am_class m \<in> set (allowedMessageClasses e)"
    using step inv unfolding dequeue_def by (rule dequeue_from_allowed)
  then have room: "ex_activeByClass e (am_class m) < ex_limits e (am_class m)"
    by (simp add: allowedMessageClasses_def)
  have keys: "fst ` set (js_set (ex_symbols e) m (sc_inFlight (ex_scheduler e))) =
      insert (ex_symbols e) (fst ` set (sc_inFlight (ex_scheduler e)))"
    by (simp only: dom_map_of_conv_image_fst [symmetric] update_conv') simp
  have counted: "class_in_flight c s = class_in_flight c (ex_scheduler e) + (if c = am_class m then 1 else 0)" for c
    by (simp add: class_in_flight_def moves(3))
  have "executions_ok (start_work m s e)"
    using ok(1) room moves(1) unfolding executions_ok_def
    by (auto simp: start_work_def moves(2,3) keys counted running_of_def running_set less_Suc_eq)
  moreover have "held_works (start_work m s e) = held_works e"
    by (simp add: held_works_def start_work_def moves(3,5))
  then have "works_ok (start_work m s e)"
    using ok(2) unfolding works_ok_def
    by (auto simp: start_work_def settled_works_def tracked_def moves(5))
  ultimately show ?thesis by blast
qed

lemma class_listed: "c \<in> set execution_classes"
  by (cases c) (simp_all add: execution_classes_def)

lemma pump_loop_ok:
  assumes "executions_ok e" "works_ok e"
  shows "executions_ok (pump_loop e) \<and> works_ok (pump_loop e) \<and> saturated (pump_loop e) \<and>
    ex_closedReason (pump_loop e) = ex_closedReason e \<and> ex_pumpScheduled (pump_loop e) = ex_pumpScheduled e"
  using assms
proof (induction e rule: pump_loop.induct)
  case (1 e)
  show ?case
  proof (cases "allowedMessageClasses e = []")
    case True
    have "ex_limits e c \<le> ex_activeByClass e c" for c
      using True class_listed [of c] by (auto simp: allowedMessageClasses_def filter_empty_conv)
    then have "saturated e" by (simp add: saturated_def)
    moreover have "pump_loop e = e" using True by (subst pump_loop.simps) simp
    ultimately show ?thesis using "1.prems" by simp
  next
    case False
    obtain w s where d: "dequeue (Some (allowedMessageClasses e)) (ex_symbols e) (ex_scheduler e) = (w, s)" by fastforce
    show ?thesis
    proof (cases w)
      case None
      have inv: "sched_inv (ex_scheduler e)" using "1.prems" by (simp add: executions_ok_def)
      have idle: "queued c (ex_scheduler e) = [] \<and> s = ex_scheduler e" if "c \<in> set (allowedMessageClasses e)" for c
        using dequeue_nothing [OF inv d [unfolded None] that] .
      obtain c0 where "c0 \<in> set (allowedMessageClasses e)" using False by (cases "allowedMessageClasses e") auto
      then have "s = ex_scheduler e" by (rule conjunct2 [OF idle])
      then have same: "pump_loop e = e" using False d None by (subst pump_loop.simps) simp
      have "queued c (ex_scheduler e) = [] \<or> ex_limits e c \<le> ex_activeByClass e c" for c
      proof (cases "ex_activeByClass e c < ex_limits e c")
        case True
        then have "c \<in> set (allowedMessageClasses e)" using class_listed by (simp add: allowedMessageClasses_def)
        then show ?thesis using idle by blast
      qed simp
      then show ?thesis using "1.prems" by (simp add: same saturated_def)
    next
      case (Some m)
      have eq: "pump_loop e = pump_loop (start_work m s e)" using False d Some by (subst pump_loop.simps) simp
      have frame: "ex_closedReason (start_work m s e) = ex_closedReason e" "ex_pumpScheduled (start_work m s e) = ex_pumpScheduled e"
        by (simp_all add: start_work_def)
      note ok = start_work_ok [OF "1.prems" d [unfolded Some]]
      show ?thesis unfolding eq using "1.IH" [OF False d [symmetric] Some conjunct1 [OF ok] conjunct2 [OF ok]] frame by simp
    qed
  qed
qed

lemma executions_ok_pump [simp]:
  "executions_ok (e\<lparr>ex_pumpScheduled := b\<rparr>) = executions_ok e" "works_ok (e\<lparr>ex_pumpScheduled := b\<rparr>) = works_ok e"
  "closing_ok (e\<lparr>ex_pumpScheduled := b\<rparr>) = closing_ok e"
  by (simp_all add: executions_ok_def works_ok_def closing_ok_def settled_works_def held_works_def tracked_def)

lemma scheduled_pump_inv:
  assumes "executor_ok e"
  shows "executor_ok (scheduled_pump e)"
proof (cases "ex_closedReason e")
  case None
  then have eq: "scheduled_pump e = pump_loop (e\<lparr>ex_pumpScheduled := False\<rparr>)" by (simp add: scheduled_pump_def pump_def)
  have "executions_ok (e\<lparr>ex_pumpScheduled := False\<rparr>)" "works_ok (e\<lparr>ex_pumpScheduled := False\<rparr>)"
    using assms by (simp_all add: executor_ok_def)
  from pump_loop_ok [OF this] show ?thesis by (simp add: eq executor_ok_def closing_ok_def woken_def None)
next
  case (Some r)
  then have eq: "scheduled_pump e = e\<lparr>ex_pumpScheduled := False\<rparr>" by (simp add: scheduled_pump_def pump_def)
  from assms show ?thesis unfolding eq by (simp add: executor_ok_def woken_def Some)
qed

section \<open>The end of an execution\<close>

lemma work_once: "works_ok e \<Longrightarrow> count (mset (ex_cleanups e)) w + count (held_works e) w \<le> 1"
proof -
  assume "works_ok e"
  then have "mset (ex_cleanups e) + held_works e = mset [0..<ex_nextWork e]" by (simp only: works_ok_def)
  then have "count (mset (ex_cleanups e)) w + count (held_works e) w = count (mset [0..<ex_nextWork e]) w"
    by (metis count_union)
  moreover have "count (mset [0..<ex_nextWork e]) w \<le> 1"
    using distinct_upt [of 0 "ex_nextWork e"] unfolding distinct_count_atmost_1 by simp
  ultimately show ?thesis by simp
qed

lemma work_known: "works_ok e \<Longrightarrow> w \<in># held_works e \<Longrightarrow> w < ex_nextWork e"
proof -
  assume ok: "works_ok e" and w: "w \<in># held_works e"
  then have "w \<in># mset [0..<ex_nextWork e]" unfolding works_ok_def by (metis union_iff)
  then show ?thesis by simp
qed

lemma running_get: "js_get (running_of s) t = map_option (\<lambda>m. (am_class m, am_payload m)) (js_get (sc_inFlight s) t)"
proof -
  have "js_get (map (\<lambda>(t, m). (t, am_class m, am_payload m)) fl) t = map_option (\<lambda>m. (am_class m, am_payload m)) (js_get fl t)"
    for fl :: "(nat, work_message) js_map" by (induction fl) auto
  then show ?thesis by (simp add: running_of_def)
qed

definition completed_execution :: "nat \<Rightarrow> bool \<Rightarrow> executor \<Rightarrow> executor" where
  "completed_execution work failed e1 = (if work \<in> set (settled_works e1) then e1
     else settle_work work (if failed then ExecutionRejected else ExecutionDone) e1)"

lemma execution_finished_step:
  assumes inv: "executor_ok e" and run: "js_get (ex_running e) t = Some (c, work)"
  obtains m s where "js_get (sc_inFlight (ex_scheduler e)) t = Some m" "c = am_class m" "work = am_payload m"
    "complete t (ex_scheduler e) = Inr s" "sched_inv s" "sc_inFlight s = js_delete t (sc_inFlight (ex_scheduler e))"
    "in_flight (ex_scheduler e) = add_mset m (in_flight s)" "all_queued s = all_queued (ex_scheduler e)"
    "execution_finished t failed e = Inr (completed_execution work failed (execution_cleanup t c work s e))"
proof -
  have ok: "sched_inv (ex_scheduler e)" "ex_running e = running_of (ex_scheduler e)" "works_ok e"
    using inv by (simp_all add: executor_ok_def executions_ok_def)
  obtain m where m: "js_get (sc_inFlight (ex_scheduler e)) t = Some m" "c = am_class m" "work = am_payload m"
    using run by (auto simp: ok(2) running_get)
  obtain s where s: "complete t (ex_scheduler e) = Inr s" "sched_inv s" "sc_inFlight s = js_delete t (sc_inFlight (ex_scheduler e))"
    "in_flight (ex_scheduler e) = add_mset m (in_flight s)" "all_queued s = all_queued (ex_scheduler e)"
    using complete_moves [OF ok(1) m(1)] by blast
  let ?e1 = "execution_cleanup t c work s e"
  have "work \<in># held_works e" by (simp add: held_works_def s(4) m(3))
  then have "tracked e work" using ok(3) by (simp add: works_ok_def)
  then have trk: "tracked ?e1 work"
    by (simp add: tracked_def execution_cleanup_def schedulePump_def settled_works_def)
  have "(if is_settled ?e1 work \<or> \<not> same_generation ?e1 work then ?e1
      else settle_work work (if failed then ExecutionRejected else ExecutionDone) ?e1) = completed_execution work failed ?e1"
    using held_in_flight_unsettled_generation [OF trk] tracked_settled [OF trk] by (auto simp: completed_execution_def)
  then have "execution_finished t failed e = Inr (completed_execution work failed ?e1)"
    by (simp add: execution_finished_def run s(1) Let_def)
  from that [OF m s this] show thesis .
qed

lemma completed_fields:
  assumes "tracked e1 work"
  shows "ex_scheduler (completed_execution work failed e1) = ex_scheduler e1"
    "ex_limits (completed_execution work failed e1) = ex_limits e1"
    "ex_activeByClass (completed_execution work failed e1) = ex_activeByClass e1"
    "ex_pumpScheduled (completed_execution work failed e1) = ex_pumpScheduled e1"
    "ex_admissionGeneration (completed_execution work failed e1) = ex_admissionGeneration e1"
    "ex_closedReason (completed_execution work failed e1) = ex_closedReason e1"
    "ex_activeWork (completed_execution work failed e1) = ex_activeWork e1"
    "ex_nextWork (completed_execution work failed e1) = ex_nextWork e1"
    "ex_symbols (completed_execution work failed e1) = ex_symbols e1"
    "ex_running (completed_execution work failed e1) = ex_running e1"
    "ex_cleanups (completed_execution work failed e1) = ex_cleanups e1"
    "w \<noteq> work \<Longrightarrow> js_get (ex_works (completed_execution work failed e1)) w = js_get (ex_works e1) w"
    "settled_works (completed_execution work failed e1) =
      settled_works e1 @ (if work \<in> set (settled_works e1) then [] else [work])"
  using assms by (auto simp: completed_execution_def settle_work_def tracked_def settled_works_def js_get_set)

lemma cleanup_fields:
  "ex_scheduler (execution_cleanup t c work s e) = s"
  "ex_limits (execution_cleanup t c work s e) = ex_limits e"
  "ex_activeByClass (execution_cleanup t c work s e) = (ex_activeByClass e)(c := ex_activeByClass e c - 1)"
  "ex_admissionGeneration (execution_cleanup t c work s e) = ex_admissionGeneration e"
  "ex_closedReason (execution_cleanup t c work s e) = ex_closedReason e"
  "ex_activeWork (execution_cleanup t c work s e) = filter (\<lambda>w. w \<noteq> work) (ex_activeWork e)"
  "ex_nextWork (execution_cleanup t c work s e) = ex_nextWork e"
  "ex_symbols (execution_cleanup t c work s e) = ex_symbols e"
  "ex_running (execution_cleanup t c work s e) = js_delete t (ex_running e)"
  "ex_cleanups (execution_cleanup t c work s e) = ex_cleanups e @ [work]"
  "ex_works (execution_cleanup t c work s e) = ex_works e"
  "settled_works (execution_cleanup t c work s e) = settled_works e"
  "ex_pumpScheduled (execution_cleanup t c work s e) = (ex_pumpScheduled e \<or> ex_closedReason e = None)"
  by (auto simp: execution_cleanup_def schedulePump_def settled_works_def)

lemma execution_finished_inv:
  assumes inv: "executor_ok e" and step: "execution_finished t failed e = Inr e'"
  shows "executor_ok e'"
proof (cases "js_get (ex_running e) t")
  case None
  with step inv show ?thesis by (simp add: execution_finished_def)
next
  case (Some cw)
  then obtain c work where run: "js_get (ex_running e) t = Some (c, work)" by (cases cw) auto
  obtain m s where m: "js_get (sc_inFlight (ex_scheduler e)) t = Some m" "c = am_class m" "work = am_payload m"
    and s: "complete t (ex_scheduler e) = Inr s" "sched_inv s" "sc_inFlight s = js_delete t (sc_inFlight (ex_scheduler e))"
    "in_flight (ex_scheduler e) = add_mset m (in_flight s)" "all_queued s = all_queued (ex_scheduler e)"
    and fin: "execution_finished t failed e = Inr (completed_execution work failed (execution_cleanup t c work s e))"
    by (rule execution_finished_step [OF inv run])
  have ok: "executions_ok e" "works_ok e" "closing_ok e" using inv by (simp_all add: executor_ok_def)
  define e1 where "e1 = execution_cleanup t c work s e"
  have e': "e' = completed_execution work failed e1" using step fin by (simp add: e1_def)
  have held: "held_works e = add_mset work (held_works e1)"
    by (simp add: held_works_def e1_def cleanup_fields s(4,5) m(3))
  have trk: "tracked e w" if "w \<in># held_works e" for w using that ok(2) by (simp add: works_ok_def)
  have trk1: "tracked e1 w \<longleftrightarrow> tracked e w" for w by (simp add: tracked_def e1_def cleanup_fields)
  have own: "tracked e1 work" using trk held trk1 by simp
  have once: "count (held_works e1) work = 0" "work \<notin> set (ex_cleanups e)"
    using work_once [OF ok(2), of work] by (simp_all add: held)
  have gone: "work \<notin># held_works e1" using once(1) by (simp add: count_eq_zero_iff)
  have held': "held_works e' = held_works e1" unfolding held_works_def e' completed_fields [OF own] by (rule refl)
  have log: "settled_works e' = settled_works e @ (if work \<in> set (settled_works e) then [] else [work])"
    unfolding e' completed_fields(13) [OF own] by (simp add: e1_def cleanup_fields)
  have counted: "class_in_flight k (ex_scheduler e) = class_in_flight k s + (if k = c then 1 else 0)" for k
    by (simp add: class_in_flight_def s(4) m(2))
  have active: "filter_mset (\<lambda>w. w \<noteq> work) (image_mset am_payload (in_flight s)) = image_mset am_payload (in_flight s)"
    using gone by (auto simp: filter_mset_eq_conv held_works_def e1_def cleanup_fields)
  have frame: "ex_scheduler e' = s" "ex_limits e' = ex_limits e" "ex_activeByClass e' = (ex_activeByClass e)(c := ex_activeByClass e c - 1)"
    "ex_activeWork e' = filter (\<lambda>w. w \<noteq> work) (ex_activeWork e)" "ex_running e' = js_delete t (ex_running e)"
    "ex_symbols e' = ex_symbols e" "ex_cleanups e' = ex_cleanups e @ [work]" "ex_nextWork e' = ex_nextWork e"
    "ex_admissionGeneration e' = ex_admissionGeneration e" "ex_closedReason e' = ex_closedReason e"
    "ex_pumpScheduled e' = (ex_pumpScheduled e \<or> ex_closedReason e = None)"
    unfolding e' completed_fields [OF own] by (simp_all add: e1_def cleanup_fields)
  have "executions_ok e'" unfolding executions_ok_def frame
  proof (intro conjI allI ballI)
    show "js_delete t (ex_running e) = running_of s"
      using ok(1) by (simp add: executions_ok_def running_of_def running_delete s(3))
    show "x < ex_symbols e" if "x \<in> fst ` set (sc_inFlight s)" for x
      using that ok(1) by (auto simp: executions_ok_def s(3) AList.delete_eq)
    show "((ex_activeByClass e)(c := ex_activeByClass e c - 1)) k = class_in_flight k s" "class_in_flight k s \<le> ex_limits e k"
      "0 < ex_limits e k" for k
    proof -
      have "ex_activeByClass e k = class_in_flight k (ex_scheduler e) \<and> class_in_flight k (ex_scheduler e) \<le> ex_limits e k \<and>
          0 < ex_limits e k" using ok(1) unfolding executions_ok_def by blast
      then show "((ex_activeByClass e)(c := ex_activeByClass e c - 1)) k = class_in_flight k s" "class_in_flight k s \<le> ex_limits e k"
        "0 < ex_limits e k" using counted [of k] by (cases "k = c"; simp)+
    qed
    have "mset (ex_activeWork e) = add_mset work (image_mset am_payload (in_flight s))"
      using ok(1) by (simp add: executions_ok_def s(4) m(3))
    then show "mset (filter (\<lambda>w. w \<noteq> work) (ex_activeWork e)) = image_mset am_payload (in_flight s)"
      by (simp add: mset_filter active)
  qed (rule s(2))
  moreover have "works_ok e'"
  proof -
    have sub: "set (settled_works e') = insert work (set (settled_works e))" by (auto simp: log)
    have "tracked e' w" if w: "w \<in># held_works e1" for w
    proof -
      have "w \<noteq> work" using w gone by auto
      moreover from this have "js_get (ex_works e') w = js_get (ex_works e) w"
        unfolding e' by (simp only: completed_fields(12) [OF own] not_False_eq_True) (simp add: e1_def cleanup_fields)
      moreover have "tracked e w" using w trk held by simp
      ultimately show ?thesis by (simp add: tracked_def sub frame)
    qed
    moreover have "am_payload x \<noteq> work" if "x \<in># all_queued (ex_scheduler e)" for x
      using that gone by (auto simp: held_works_def e1_def cleanup_fields s(5))
    moreover have "distinct (settled_works e')" using ok(2) by (auto simp: log works_ok_def)
    moreover have "work < ex_nextWork e" using work_known [OF ok(2)] held by simp
    ultimately show ?thesis using ok(2) unfolding works_ok_def held' sub frame s(5) held by auto
  qed
  moreover have "closing_ok e'"
    using ok(3) by (auto simp: closing_ok_def log frame s(5))
  moreover have "woken e'" by (auto simp: woken_def frame)
  ultimately show ?thesis by (simp add: executor_ok_def)
qed

lemma execution_finished_total: "executor_ok e \<Longrightarrow> \<exists>e'. execution_finished t failed e = Inr e'"
proof (cases "js_get (ex_running e) t")
  case (Some cw)
  assume inv: "executor_ok e"
  obtain c work where run: "js_get (ex_running e) t = Some (c, work)" using Some by (cases cw) auto
  show ?thesis by (rule execution_finished_step [OF inv run, of failed]) blast
qed (simp add: execution_finished_def)

section \<open>Closing\<close>

definition mark_settled :: "pending_work \<Rightarrow> pending_work" where
  "mark_settled p = p\<lparr>pw_settled := True\<rparr>"

text \<open>What the two loops of \<open>close\<close> do to the works they visit.\<close>

definition works_settled :: "nat list \<Rightarrow> executor \<Rightarrow> executor \<Rightarrow> bool" where
  "works_settled ws e e' \<longleftrightarrow>
     (\<forall>w. js_get (ex_works e') w = (if w \<in> set ws then map_option mark_settled (js_get (ex_works e) w) else js_get (ex_works e) w)) \<and>
     ex_scheduler e' = ex_scheduler e \<and> ex_limits e' = ex_limits e \<and> ex_activeByClass e' = ex_activeByClass e \<and>
     ex_pumpScheduled e' = ex_pumpScheduled e \<and> ex_admissionGeneration e' = ex_admissionGeneration e \<and>
     ex_closedReason e' = ex_closedReason e \<and> ex_activeWork e' = ex_activeWork e \<and> ex_nextWork e' = ex_nextWork e \<and>
     ex_symbols e' = ex_symbols e \<and> ex_running e' = ex_running e"

lemma close_queued_fold:
  assumes "\<And>w. w \<in> set ws \<Longrightarrow> \<not> is_settled e w" and "distinct ws"
  shows "works_settled ws e (fold (close_queued_work r) ws e) \<and>
    ex_settlements (fold (close_queued_work r) ws e) = ex_settlements e @ map (\<lambda>w. (w, ExecutionClosed r)) ws \<and>
    ex_cleanups (fold (close_queued_work r) ws e) = ex_cleanups e @ ws"
  using assms
proof (induction ws arbitrary: e)
  case (Cons w ws)
  obtain p where p: "js_get (ex_works e) w = Some p" "\<not> pw_settled p"
    using Cons.prems(1) [of w] by (auto simp: is_settled_def split: option.splits)
  define e1 where "e1 = close_queued_work r w e"
  have e1: "e1 = e\<lparr>ex_cleanups := ex_cleanups e @ [w], ex_works := js_set w (mark_settled p) (ex_works e),
      ex_settlements := ex_settlements e @ [(w, ExecutionClosed r)]\<rparr>"
    by (simp add: e1_def close_queued_work_def is_settled_def settle_work_def p mark_settled_def)
  have "\<not> is_settled e1 w'" if "w' \<in> set ws" for w'
    using that Cons.prems by (auto simp: is_settled_def e1 js_get_set)
  from Cons.IH [OF this] Cons.prems(2) show ?case
    by (auto simp: e1_def [symmetric] works_settled_def e1 js_get_set p)
qed (simp add: works_settled_def)

lemma close_active_fold:
  assumes "\<And>w. w \<in> set ws \<Longrightarrow> js_get (ex_works e) w \<noteq> None" and "distinct ws"
  shows "works_settled ws e (fold (close_active_work r) ws e) \<and>
    ex_settlements (fold (close_active_work r) ws e) = ex_settlements e @
      map (\<lambda>w. (w, ExecutionClosed r)) (filter (\<lambda>w. \<not> is_settled e w) ws) \<and>
    ex_cleanups (fold (close_active_work r) ws e) = ex_cleanups e"
  using assms
proof (induction ws arbitrary: e)
  case (Cons w ws)
  obtain p where p: "js_get (ex_works e) w = Some p" using Cons.prems(1) [of w] by auto
  have marked: "pw_settled p \<Longrightarrow> mark_settled p = p" by (simp add: mark_settled_def)
  define e1 where "e1 = close_active_work r w e"
  have e1: "e1 = (if pw_settled p then e else e\<lparr>ex_works := js_set w (mark_settled p) (ex_works e),
      ex_settlements := ex_settlements e @ [(w, ExecutionClosed r)]\<rparr>)"
    by (simp add: e1_def close_active_work_def is_settled_def settle_work_def p mark_settled_def)
  have same: "is_settled e1 w' = is_settled e w'" if "w' \<in> set ws" for w'
    using that Cons.prems(2) by (auto simp: is_settled_def e1 js_get_set)
  have "js_get (ex_works e1) w' \<noteq> None" if "w' \<in> set ws" for w'
    using that Cons.prems(1) [of w'] by (auto simp: e1 js_get_set)
  note IH = Cons.IH [OF this]
  have pending: "filter (\<lambda>w. \<not> is_settled e1 w) ws = filter (\<lambda>w. \<not> is_settled e w) ws"
    using same by (auto intro: filter_cong)
  note IH = IH [unfolded pending]
  have first: "is_settled e w = pw_settled p" by (simp add: is_settled_def p)
  show ?case
  proof (cases "pw_settled p")
    case True
    then have "e1 = e" by (simp add: e1)
    then show ?thesis using IH Cons.prems(2) True marked
      by (auto simp: e1_def [symmetric] works_settled_def first p)
  next
    case False
    then show ?thesis using IH Cons.prems(2)
      by (auto simp: e1_def [symmetric] works_settled_def first e1 js_get_set p)
  qed
qed (simp add: works_settled_def)

lemma tracked_entry: "tracked e w \<Longrightarrow> js_get (ex_works e) w \<noteq> None"
  by (auto simp: tracked_def)

lemma close_executor_inv:
  assumes inv: "executor_ok e"
  shows "executor_ok (close_executor r e)"
proof (cases "ex_closedReason e")
  case None
  obtain ms s where c: "cancelQueued (ex_scheduler e) = (ms, s)" by fastforce
  have ok: "executions_ok e" "works_ok e" using inv by (simp_all add: executor_ok_def)
  have "sched_inv (ex_scheduler e)" using ok(1) by (simp add: executions_ok_def)
  note moves = cancelQueued_moves [OF this c]
  have flight: "in_flight s = in_flight (ex_scheduler e)" by (simp add: in_flight_def moves(2))
  define ws where "ws = map am_payload ms"
  define e1 where "e1 = e\<lparr>ex_closedReason := Some r, ex_admissionGeneration := ex_admissionGeneration e + 1, ex_scheduler := s\<rparr>"
  define e2 where "e2 = fold (close_queued_work r) ws e1"
  define e3 where "e3 = fold (close_active_work r) (ex_activeWork e2) e2"
  have e3: "close_executor r e = e3"
    by (simp add: close_executor_def None c ws_def e1_def e2_def e3_def Let_def)
  have held: "held_works e = mset ws + mset (ex_activeWork e)"
    using ok(1) by (simp add: held_works_def ws_def moves(5) executions_ok_def)
  have trk: "tracked e w" if "w \<in> set ws \<or> w \<in> set (ex_activeWork e)" for w
    using that ok(2) by (auto simp: works_ok_def held)
  have fresh: "w \<notin> set (settled_works e)" if "w \<in> set ws" for w
  proof -
    from that obtain m where m: "m \<in># all_queued (ex_scheduler e)" "w = am_payload m"
      by (auto simp: ws_def simp flip: moves(5))
    then show ?thesis using ok(2) by (simp add: works_ok_def)
  qed
  have once: "count (mset (ex_cleanups e)) w + (count (mset ws) w + count (mset (ex_activeWork e)) w) \<le> 1" for w
    using work_once [OF ok(2), of w] by (simp add: held)
  have dist: "distinct ws" "distinct (ex_activeWork e)" "set ws \<inter> set (ex_activeWork e) = {}"
  proof -
    have "count (mset ws) w \<le> 1" "count (mset (ex_activeWork e)) w \<le> 1" for w using once [of w] by linarith+
    then show "distinct ws" "distinct (ex_activeWork e)"
      by (simp_all add: distinct_count_atmost_1 le_Suc_eq count_eq_zero_iff)
    show "set ws \<inter> set (ex_activeWork e) = {}"
    proof (rule ccontr)
      assume "set ws \<inter> set (ex_activeWork e) \<noteq> {}"
      then obtain w where "w \<in># mset ws" "w \<in># mset (ex_activeWork e)" by auto
      then have "0 < count (mset ws) w" "0 < count (mset (ex_activeWork e)) w" by (simp_all only: count_greater_zero_iff)
      then show False using once [of w] by linarith
    qed
  qed
  have "\<not> is_settled e1 w" if "w \<in> set ws" for w
    using tracked_settled [OF trk] fresh [OF that] that by (simp add: is_settled_def e1_def)
  note two = close_queued_fold [OF this dist(1), of r, folded e2_def]
  have frame2: "js_get (ex_works e2) w = (if w \<in> set ws then map_option mark_settled (js_get (ex_works e) w) else js_get (ex_works e) w)"
    "ex_activeWork e2 = ex_activeWork e" for w
    using two by (simp_all add: works_settled_def e1_def)
  have "js_get (ex_works e2) w \<noteq> None" if "w \<in> set (ex_activeWork e)" for w
    using tracked_entry [OF trk, of w] that by (simp add: frame2)
  note three = close_active_fold [of "ex_activeWork e2" e2 r, folded e3_def, unfolded frame2(2), OF this dist(2)]
  have frame: "ex_scheduler e3 = s" "ex_limits e3 = ex_limits e" "ex_activeByClass e3 = ex_activeByClass e"
    "ex_admissionGeneration e3 = ex_admissionGeneration e + 1"
    "ex_closedReason e3 = Some r" "ex_activeWork e3 = ex_activeWork e" "ex_nextWork e3 = ex_nextWork e"
    "ex_symbols e3 = ex_symbols e" "ex_running e3 = ex_running e" "ex_cleanups e3 = ex_cleanups e @ ws"
    using two three by (simp_all add: works_settled_def e1_def)
  have "is_settled e2 w = (w \<in> set (settled_works e))" if "w \<in> set (ex_activeWork e)" for w
    using tracked_settled [OF trk, of w] that dist(3) by (auto simp: is_settled_def frame2)
  then have log: "settled_works e3 = settled_works e @ ws @ filter (\<lambda>w. w \<notin> set (settled_works e)) (ex_activeWork e)"
    using two three by (simp add: settled_works_def e1_def comp_def cong: filter_cong)
  have logged: "set (settled_works e3) = set (settled_works e) \<union> set ws \<union> set (ex_activeWork e)" by (auto simp: log)
  have held3: "held_works e3 = mset (ex_activeWork e)"
    using ok(1) by (simp add: held_works_def frame moves(4) flight executions_ok_def)
  have trk3: "tracked e3 w" if "w \<in> set (ex_activeWork e)" for w
  proof -
    have "js_get (ex_works e) w \<noteq> None" by (rule tracked_entry [OF trk [OF disjI2 [OF that]]])
    then obtain p where "js_get (ex_works e) w = Some p" by blast
    then have "js_get (ex_works e3) w = Some (mark_settled p)"
      using three that dist(3) by (auto simp: works_settled_def frame2)
    then show ?thesis using that by (simp add: tracked_def logged mark_settled_def)
  qed
  have known: "w < ex_nextWork e" if "w \<in> set ws \<or> w \<in> set (ex_activeWork e)" for w
    using that work_known [OF ok(2)] by (auto simp: held)
  have "executions_ok e3"
    using ok(1) moves(1) by (simp add: executions_ok_def frame moves(2) flight running_of_def class_in_flight_def)
  moreover have "works_ok e3"
    unfolding works_ok_def held3 frame moves(4)
  proof (intro conjI)
    show "mset (ex_cleanups e @ ws) + mset (ex_activeWork e) = mset [0..<ex_nextWork e]"
      using ok(2) unfolding works_ok_def held by (simp only: mset_append ac_simps)
    show "distinct (settled_works e3)" using ok(2) fresh dist by (auto simp: log works_ok_def)
  qed (use ok(2) known trk3 in \<open>auto simp: logged works_ok_def\<close>)
  moreover have "closing_ok e3" "woken e3" by (simp_all add: closing_ok_def woken_def frame moves(4) logged)
  ultimately show ?thesis by (simp add: e3 executor_ok_def)
qed (use inv in \<open>simp add: close_executor_def\<close>)

text \<open>All that closing settles is settled as closed.\<close>

definition only_closes :: "string \<Rightarrow> executor \<Rightarrow> executor \<Rightarrow> bool" where
  "only_closes r e e' \<longleftrightarrow> (\<exists>ws. ex_settlements e' = ex_settlements e @ map (\<lambda>w. (w, ExecutionClosed r)) ws) \<and>
     ex_closedReason e' = ex_closedReason e \<and> ex_nextWork e' = ex_nextWork e"

lemma only_closes_work:
  "only_closes r e (close_queued_work r w e)" "only_closes r e (close_active_work r w e)"
  by (auto simp: only_closes_def close_queued_work_def close_active_work_def settle_work_def intro: exI [where x="[]"] exI [where x="[w]"]
    split: option.split)

lemma only_closes_trans: "only_closes r e e1 \<Longrightarrow> only_closes r e1 e2 \<Longrightarrow> only_closes r e e2"
  unfolding only_closes_def by (metis append.assoc map_append)

lemma only_closes_fold:
  assumes "\<And>w e. only_closes r e (f w e)"
  shows "only_closes r e (fold f ws e)"
proof (induction ws arbitrary: e)
  case Nil
  show ?case by (auto simp: only_closes_def intro: exI [where x="[]"])
next
  case (Cons w ws)
  show ?case using only_closes_trans [OF assms Cons.IH] by simp
qed

lemma close_executor_settlements:
  assumes "ex_closedReason e = None"
  shows "(\<exists>ws. ex_settlements (close_executor r e) = ex_settlements e @ map (\<lambda>w. (w, ExecutionClosed r)) ws) \<and>
    ex_closedReason (close_executor r e) = Some r \<and> ex_nextWork (close_executor r e) = ex_nextWork e"
proof -
  obtain ms s where c: "cancelQueued (ex_scheduler e) = (ms, s)" by fastforce
  define e1 where "e1 = e\<lparr>ex_closedReason := Some r, ex_admissionGeneration := ex_admissionGeneration e + 1, ex_scheduler := s\<rparr>"
  define e2 where "e2 = fold (close_queued_work r) (map am_payload ms) e1"
  have "only_closes r e1 (fold (close_active_work r) (ex_activeWork e2) e2)"
    by (rule only_closes_trans [OF _ only_closes_fold]) (simp_all add: e2_def only_closes_fold only_closes_work)
  moreover have "close_executor r e = fold (close_active_work r) (ex_activeWork e2) e2"
    by (simp add: close_executor_def assms c e1_def e2_def Let_def)
  ultimately show ?thesis by (auto simp: only_closes_def e1_def)
qed

section \<open>Submitting\<close>

lemma add_work_fields:
  "ex_scheduler (add_work e) = ex_scheduler e" "ex_limits (add_work e) = ex_limits e" "ex_activeByClass (add_work e) = ex_activeByClass e"
  "ex_pumpScheduled (add_work e) = ex_pumpScheduled e" "ex_admissionGeneration (add_work e) = ex_admissionGeneration e"
  "ex_closedReason (add_work e) = ex_closedReason e" "ex_activeWork (add_work e) = ex_activeWork e"
  "ex_nextWork (add_work e) = ex_nextWork e + 1" "ex_symbols (add_work e) = ex_symbols e" "ex_running (add_work e) = ex_running e"
  "ex_cleanups (add_work e) = ex_cleanups e" "ex_settlements (add_work e) = ex_settlements e"
  "js_get (ex_works (add_work e)) w =
     (if w = ex_nextWork e then Some \<lparr>pw_generation = ex_admissionGeneration e, pw_settled = False\<rparr> else js_get (ex_works e) w)"
  by (simp_all add: add_work_def js_get_set)

text \<open>A submission that is refused, or whose message is queued, possibly in the place of another.\<close>

lemma submit_cases:
  assumes open_: "ex_closedReason e = None" and step: "submit request e = (a, e')"
    and enq: "enqueue (executionMessage request (ex_nextWork e)) (ex_scheduler e) = (result, s)"
  obtains (admitted) "result = Admitted" "e' = schedulePump ((add_work e)\<lparr>ex_scheduler := s\<rparr>)" "a = SubmissionAdmitted"
  | (replaced) m where "result = Replaced m" "e' = schedulePump (displace_work (am_payload m) ((add_work e)\<lparr>ex_scheduler := s\<rparr>))"
      "a = SubmissionReplaced"
  | (refused) "\<not> accepted result" "a = SubmissionNotAdmitted result"
      "e' = (add_work e)\<lparr>ex_scheduler := s, ex_cleanups := ex_cleanups e @ [ex_nextWork e],
         ex_settlements := ex_settlements e @ [(ex_nextWork e, ExecutionNotAdmitted result)]\<rparr>"
  using step by (cases result) (auto simp: submit_def open_ enq Let_def add_work_fields)

text \<open>
  The common part: the new work is in the log and cleaned up when it was refused, the displaced
  one when it was replaced, and otherwise nothing is.
\<close>

lemma submitted_ok:
  assumes inv: "executor_ok e" and open_: "ex_closedReason e = None"
    and frame: "ex_limits e' = ex_limits e" "ex_activeByClass e' = ex_activeByClass e" "ex_activeWork e' = ex_activeWork e"
    "ex_symbols e' = ex_symbols e" "ex_running e' = ex_running e" "ex_nextWork e' = ex_nextWork e + 1"
    "ex_admissionGeneration e' = ex_admissionGeneration e" "ex_closedReason e' = None"
    and sched: "sched_inv (ex_scheduler e')" "sc_inFlight (ex_scheduler e') = sc_inFlight (ex_scheduler e)"
    and ends: "ex_cleanups e' = ex_cleanups e @ ended" "settled_works e' = settled_works e @ ended"
    and moved: "mset ended + image_mset am_payload (all_queued (ex_scheduler e')) =
      add_mset (ex_nextWork e) (image_mset am_payload (all_queued (ex_scheduler e)))"
    and entries: "\<And>w. w \<notin> set ended \<Longrightarrow> w \<noteq> ex_nextWork e \<Longrightarrow> js_get (ex_works e') w = js_get (ex_works e) w"
    and fresh: "ex_nextWork e \<notin> set ended \<Longrightarrow> js_get (ex_works e') (ex_nextWork e) =
      Some \<lparr>pw_generation = ex_admissionGeneration e, pw_settled = False\<rparr>"
    and woken: "woken e'"
  shows "executor_ok e'"
proof -
  have ok: "executions_ok e" "works_ok e" using inv by (simp_all add: executor_ok_def)
  have flight: "in_flight (ex_scheduler e') = in_flight (ex_scheduler e)" by (simp add: in_flight_def sched(2))
  have held: "mset ended + held_works e' = add_mset (ex_nextWork e) (held_works e)"
    using moved by (simp add: held_works_def flight add.assoc [symmetric])
  have total: "mset (ex_cleanups e') + held_works e' = mset [0..<ex_nextWork e']"
  proof -
    have "mset (ex_cleanups e') + held_works e' = mset (ex_cleanups e) + (mset ended + held_works e')"
      by (simp add: ends(1) add.assoc)
    also have "\<dots> = add_mset (ex_nextWork e) (mset (ex_cleanups e) + held_works e)" by (simp add: held)
    also have "\<dots> = mset [0..<ex_nextWork e']" using ok(2) unfolding works_ok_def frame(6) by simp
    finally show ?thesis .
  qed
  have once: "count (mset (ex_cleanups e')) w + count (held_works e') w \<le> 1" for w
  proof -
    have "count (mset (ex_cleanups e')) w + count (held_works e') w = count (mset [0..<ex_nextWork e']) w"
      using total by (metis count_union)
    then show ?thesis using distinct_upt [of 0 "ex_nextWork e'"] unfolding distinct_count_atmost_1 by simp
  qed
  have from_queue: "w = ex_nextWork e \<or> w \<in># image_mset am_payload (all_queued (ex_scheduler e))" if "w \<in> set ended" for w
  proof -
    have "w \<in># mset ended + image_mset am_payload (all_queued (ex_scheduler e'))" using that by simp
    then show ?thesis unfolding moved by simp
  qed
  have unsettled: "w \<notin> set (settled_works e)" if "w = ex_nextWork e \<or> w \<in># image_mset am_payload (all_queued (ex_scheduler e))" for w
    using that ok(2) by (auto simp: works_ok_def)
  have "executions_ok e'"
    using ok(1) sched by (simp add: executions_ok_def frame flight running_of_def class_in_flight_def)
  moreover have "works_ok e'"
    unfolding works_ok_def
  proof (intro conjI allI impI ballI total)
    have "distinct ended"
    proof -
      have "count (mset ended) w \<le> 1" for w using once [of w] by (simp add: ends(1))
      then show ?thesis by (simp add: distinct_count_atmost_1 le_Suc_eq count_eq_zero_iff)
    qed
    moreover have "set (settled_works e) \<inter> set ended = {}" using from_queue unsettled by blast
    ultimately show "distinct (settled_works e')" using ok(2) by (simp add: ends(2) works_ok_def)
    show "w < ex_nextWork e'" if "w \<in> set (settled_works e')" for w
    proof (cases "w \<in> set (settled_works e)")
      case True
      then show ?thesis using ok(2) by (auto simp: frame(6) works_ok_def)
    next
      case False
      with that have "w \<in># mset (ex_cleanups e') + held_works e'" by (simp add: ends)
      then show ?thesis unfolding total by simp
    qed
    show "set (ex_cleanups e') \<subseteq> set (settled_works e')" using ok(2) by (auto simp: ends works_ok_def)
    show "am_payload m \<notin> set (settled_works e')" if m: "m \<in># all_queued (ex_scheduler e')" for m
    proof -
      have "am_payload m \<in># mset ended + image_mset am_payload (all_queued (ex_scheduler e'))" using m by simp
      then have "am_payload m \<notin> set (settled_works e)" unfolding moved by (intro unsettled) simp
      moreover have "0 < count (held_works e') (am_payload m)" using m by (simp add: held_works_def)
      then have "count (mset (ex_cleanups e')) (am_payload m) = 0" using once [of "am_payload m"] by linarith
      then have "am_payload m \<notin> set ended" by (auto simp: ends(1) count_eq_zero_iff)
      ultimately show ?thesis by (simp add: ends(2))
    qed
    show "tracked e' w" if w: "w \<in># held_works e'" for w
    proof -
      have "0 < count (held_works e') w" using w by simp
      then have "count (mset (ex_cleanups e')) w = 0" using once [of w] by linarith
      then have out: "w \<notin> set ended" by (auto simp: ends(1) count_eq_zero_iff)
      have "w \<in># mset ended + held_works e'" using w by simp
      then consider "w = ex_nextWork e" | "w \<noteq> ex_nextWork e" "w \<in># held_works e" unfolding held by auto
      then show ?thesis
      proof cases
        case 1
        then show ?thesis using fresh out unsettled by (simp add: tracked_def ends(2) frame)
      next
        case 2
        then have "tracked e w" using ok(2) by (simp add: works_ok_def)
        then show ?thesis using entries [OF out 2(1)] out by (simp add: tracked_def ends(2) frame)
      qed
    qed
  qed
  ultimately show ?thesis using woken by (simp add: executor_ok_def closing_ok_def frame)
qed

lemma schedulePump_fields:
  "ex_scheduler (schedulePump e) = ex_scheduler e" "ex_limits (schedulePump e) = ex_limits e"
  "ex_activeByClass (schedulePump e) = ex_activeByClass e" "ex_admissionGeneration (schedulePump e) = ex_admissionGeneration e"
  "ex_closedReason (schedulePump e) = ex_closedReason e" "ex_activeWork (schedulePump e) = ex_activeWork e"
  "ex_nextWork (schedulePump e) = ex_nextWork e" "ex_symbols (schedulePump e) = ex_symbols e"
  "ex_running (schedulePump e) = ex_running e" "ex_cleanups (schedulePump e) = ex_cleanups e"
  "ex_settlements (schedulePump e) = ex_settlements e" "ex_works (schedulePump e) = ex_works e"
  "woken (schedulePump e) = (ex_closedReason e = None \<or> woken e)"
  by (auto simp: schedulePump_def woken_def)

lemma submit_inv:
  assumes inv: "executor_ok e"
  shows "executor_ok (snd (submit request e))"
proof (cases "ex_closedReason e")
  case None
  let ?m = "executionMessage request (ex_nextWork e)"
  obtain a e' where step: "submit request e = (a, e')" by fastforce
  obtain result s where enq: "enqueue ?m (ex_scheduler e) = (result, s)" by fastforce
  have ok: "sched_inv (ex_scheduler e)" "works_ok e" using inv by (simp_all add: executor_ok_def executions_ok_def)
  note moves = enqueue_moves [OF ok(1) enq]
  have payload: "am_payload ?m = ex_nextWork e" by (simp add: executionMessage_def)
  note fields = schedulePump_fields add_work_fields settled_works_def None
  from None step enq have "executor_ok e'"
  proof (cases rule: submit_cases)
    case admitted
    have "all_queued s = add_mset ?m (all_queued (ex_scheduler e))" using moves(3) admitted(1) by simp
    then show ?thesis
      by (intro submitted_ok [OF inv None, where ended="[]"]) (simp_all add: admitted(2) fields moves payload)
  next
    case (replaced m)
    have m: "m \<in># all_queued (ex_scheduler e)" by (rule enqueue_replaced) (use enq replaced(1) in simp)
    then have known: "am_payload m \<in># held_works e" "am_payload m \<notin> set (settled_works e)"
      using ok(2) by (auto simp: held_works_def works_ok_def)
    then have other: "am_payload m \<noteq> ex_nextWork e" and trk: "tracked e (am_payload m)"
      using work_known [OF ok(2) known(1)] ok(2) by (auto simp: works_ok_def)
    then obtain p where p: "js_get (ex_works e) (am_payload m) = Some p" "\<not> pw_settled p"
      using known(2) by (auto simp: tracked_def)
    let ?e1 = "(add_work e)\<lparr>ex_scheduler := s\<rparr>"
    have disp: "displace_work (am_payload m) ?e1 = ?e1\<lparr>ex_cleanups := ex_cleanups e @ [am_payload m],
        ex_works := js_set (am_payload m) (p\<lparr>pw_settled := True\<rparr>) (ex_works (add_work e)),
        ex_settlements := ex_settlements e @ [(am_payload m, ExecutionReplaced)]\<rparr>"
      using other p by (simp add: displace_work_def is_settled_def settle_work_def add_work_fields)
    have "all_queued s + {#m#} = add_mset ?m (all_queued (ex_scheduler e))" using moves(3) replaced(1) by simp
    then have "image_mset am_payload (all_queued s + {#m#}) = image_mset am_payload (add_mset ?m (all_queued (ex_scheduler e)))"
      by (rule arg_cong)
    then show ?thesis
      by (intro submitted_ok [OF inv None, where ended="[am_payload m]"])
        (use other in \<open>simp_all add: replaced(2) disp fields moves payload js_get_set\<close>)
  next
    case refused
    have disp: "displaced result = None" using refused(1) by (cases result) simp_all
    have same: "all_queued s = all_queued (ex_scheduler e)" using moves(3) refused(1) disp by simp
    have "mset (queued c s) = mset (queued c (ex_scheduler e))" for c using moves(4) refused(1) by simp
    then have empty: "queued c s = [] \<longleftrightarrow> queued c (ex_scheduler e) = []" for c by (metis mset_zero_iff_right)
    have "woken e'" using inv by (simp add: refused(3) executor_ok_def woken_def saturated_def add_work_fields empty)
    then show ?thesis
      by (intro submitted_ok [OF inv None, where ended="[ex_nextWork e]"])
        (simp_all add: refused(3) fields moves(1,2) same)
  qed
  then show ?thesis by (simp add: step)
qed (use inv in \<open>simp add: submit_def\<close>)

section \<open>The invariant along runs\<close>

lemma execution_exec_inv: "executor_ok e \<Longrightarrow> execution_exec e event = Inr e' \<Longrightarrow> executor_ok e'"
  by (cases event) (auto simp: execution_exec_def submit_inv close_executor_inv scheduled_pump_inv execution_finished_inv)

interpretation executor: guarded_reducer execution_exec "\<lambda>_. True" executor_ok
  by unfold_locales (rule execution_exec_inv)

lemma execution_exec_total: "executor_ok e \<Longrightarrow> \<exists>e'. execution_exec e event = Inr e'"
  by (cases event) (simp_all add: execution_exec_def execution_finished_total)

section \<open>Progress\<close>

definition enabled :: "executor \<Rightarrow> execution_event \<Rightarrow> bool" where
  "enabled e event = (case event of PumpFires \<Rightarrow> ex_pumpScheduled e | ExecutionEnds t _ \<Rightarrow> js_has (ex_running e) t | _ \<Rightarrow> False)"

fun progressing :: "executor \<Rightarrow> execution_event list \<Rightarrow> bool" where
  "progressing e [] = True"
| "progressing e (event # events) = (enabled e event \<and> progressing (apply_command execution_exec e event) events)"

definition steps_left :: "executor \<Rightarrow> nat" where
  "steps_left e = 3 * size (all_queued (ex_scheduler e)) + 2 * size (in_flight (ex_scheduler e)) + (if ex_pumpScheduled e then 1 else 0)"

lemma pump_loop_steps:
  assumes "executions_ok e" "works_ok e"
  shows "steps_left (pump_loop e) \<le> steps_left e \<and> ex_nextWork (pump_loop e) = ex_nextWork e"
  using assms
proof (induction e rule: pump_loop.induct)
  case (1 e)
  show ?case
  proof (cases "allowedMessageClasses e = []")
    case True
    then have "pump_loop e = e" by (subst pump_loop.simps) simp
    then show ?thesis by simp
  next
    case False
    obtain w s where d: "dequeue (Some (allowedMessageClasses e)) (ex_symbols e) (ex_scheduler e) = (w, s)" by fastforce
    show ?thesis
    proof (cases w)
      case None
      have "s = ex_scheduler e" using d None unfolding dequeue_def by (auto elim: dequeue_from_cases)
      then have "pump_loop e = e" using False d None by (subst pump_loop.simps) simp
      then show ?thesis by simp
    next
      case (Some m)
      have eq: "pump_loop e = pump_loop (start_work m s e)" using False d Some by (subst pump_loop.simps) simp
      have inv: "sched_inv (ex_scheduler e)" and fresh: "js_get (sc_inFlight (ex_scheduler e)) (ex_symbols e) = None"
        using "1.prems"(1) by (auto simp: executions_ok_def map_of_eq_None_iff)
      note moves = dequeue_moves [OF inv fresh d [unfolded Some]]
      have "steps_left (start_work m s e) < steps_left e \<and> ex_nextWork (start_work m s e) = ex_nextWork e"
        by (simp add: steps_left_def start_work_def moves(3,5))
      moreover note ok = start_work_ok [OF "1.prems" d [unfolded Some]]
      ultimately show ?thesis unfolding eq using "1.IH" [OF False d [symmetric] Some conjunct1 [OF ok] conjunct2 [OF ok]] by simp
    qed
  qed
qed

lemma scheduled_pump_steps:
  assumes inv: "executor_ok e" and on: "ex_pumpScheduled e"
  shows "steps_left (scheduled_pump e) < steps_left e \<and> ex_nextWork (scheduled_pump e) = ex_nextWork e"
proof -
  have ok: "executions_ok (e\<lparr>ex_pumpScheduled := False\<rparr>)" "works_ok (e\<lparr>ex_pumpScheduled := False\<rparr>)"
    using inv by (simp_all add: executor_ok_def)
  have "steps_left (e\<lparr>ex_pumpScheduled := False\<rparr>) < steps_left e" using on by (simp add: steps_left_def)
  with pump_loop_steps [OF ok] show ?thesis by (auto simp: scheduled_pump_def pump_def)
qed

lemma progressing_step:
  assumes inv: "executor_ok e" and on: "enabled e event"
  shows "steps_left (apply_command execution_exec e event) < steps_left e \<and>
    ex_nextWork (apply_command execution_exec e event) = ex_nextWork e \<and> executor_ok (apply_command execution_exec e event)"
proof -
  obtain e' where e': "execution_exec e event = Inr e'" using execution_exec_total [OF inv] by blast
  have "steps_left e' < steps_left e \<and> ex_nextWork e' = ex_nextWork e"
  proof (cases event)
    case PumpFires
    with e' on scheduled_pump_steps [OF inv] show ?thesis by (auto simp: execution_exec_def enabled_def)
  next
    case (ExecutionEnds t failed)
    with on obtain c work where run: "js_get (ex_running e) t = Some (c, work)" by (auto simp: enabled_def js_has_def)
    obtain m s where s: "work = am_payload m" "in_flight (ex_scheduler e) = add_mset m (in_flight s)" "all_queued s = all_queued (ex_scheduler e)"
      and fin: "execution_finished t failed e = Inr (completed_execution work failed (execution_cleanup t c work s e))"
      by (rule execution_finished_step [OF inv run])
    have "work \<in># held_works e" by (simp add: held_works_def s(1,2))
    then have "tracked e work" using inv by (simp add: executor_ok_def works_ok_def)
    then have trk: "tracked (execution_cleanup t c work s e) work" by (simp add: tracked_def cleanup_fields)
    have e'': "e' = completed_execution work failed (execution_cleanup t c work s e)"
      using e' fin ExecutionEnds by (simp add: execution_exec_def)
    show ?thesis unfolding steps_left_def e'' completed_fields [OF trk] by (simp add: cleanup_fields s)
  qed (use on in \<open>simp_all add: enabled_def\<close>)
  then show ?thesis using execution_exec_inv [OF inv e'] by (simp add: apply_command_def e')
qed

lemma progressing_run:
  "executor_ok e \<Longrightarrow> progressing e events \<Longrightarrow>
   length events + steps_left (run_commands execution_exec e events) \<le> steps_left e \<and>
   ex_nextWork (run_commands execution_exec e events) = ex_nextWork e \<and> executor_ok (run_commands execution_exec e events)"
proof (induction events arbitrary: e)
  case (Cons event events)
  from Cons.prems have "enabled e event" by simp
  note step = progressing_step [OF Cons.prems(1) this]
  have "length events + steps_left (run_commands execution_exec (apply_command execution_exec e event) events)
      \<le> steps_left (apply_command execution_exec e event) \<and>
    ex_nextWork (run_commands execution_exec (apply_command execution_exec e event) events) = ex_nextWork (apply_command execution_exec e event) \<and>
    executor_ok (run_commands execution_exec (apply_command execution_exec e event) events)"
    using Cons.IH [of "apply_command execution_exec e event"] Cons.prems(2) step by simp
  with step show ?case by simp
qed simp

text \<open>When nothing is scheduled and nothing runs, every submission has been answered.\<close>

lemma all_settled:
  assumes ok: "works_ok e" and "held_works e = {#}"
  shows "mset (settled_works e) = mset [0..<ex_nextWork e]"
proof (rule set_eq_iff_mset_eq_distinct [THEN iffD1])
  have total: "mset (ex_cleanups e) = mset [0..<ex_nextWork e]" using ok assms(2) by (simp add: works_ok_def)
  then have "set (ex_cleanups e) = set [0..<ex_nextWork e]" by (metis set_mset_mset)
  then show "set (settled_works e) = set [0..<ex_nextWork e]" using ok by (auto simp: works_ok_def)
  show "distinct (settled_works e)" using ok by (simp add: works_ok_def)
qed simp

lemma quiet_settled:
  assumes inv: "executor_ok e" and quiet: "\<And>event. \<not> enabled e event"
  shows "mset (settled_works e) = mset [0..<ex_nextWork e]"
proof -
  have pump: "\<not> ex_pumpScheduled e" using quiet [of PumpFires] by (simp add: enabled_def)
  have "js_get (ex_running e) t = None" for t
    using quiet [of "ExecutionEnds t False"] by (cases "js_get (ex_running e) t") (simp_all add: enabled_def js_has_def)
  then have "ex_running e = []" by (metis empty_set map_of_eq_empty_iff ext)
  then have "sc_inFlight (ex_scheduler e) = []" using inv by (simp add: executor_ok_def executions_ok_def running_of_def)
  then have flight: "in_flight (ex_scheduler e) = {#}" by (simp add: in_flight_def js_values_def)
  have "all_queued (ex_scheduler e) = {#}"
  proof (cases "ex_closedReason e")
    case None
    have active: "ex_activeByClass e c = 0 \<and> 0 < ex_limits e c" for c
      using inv flight by (simp add: executor_ok_def executions_ok_def class_in_flight_def)
    have "queued c (ex_scheduler e) = []" for c
      using inv pump None active [of c] by (auto simp: executor_ok_def woken_def saturated_def)
    then show ?thesis by (simp add: all_queued_def)
  qed (use inv in \<open>simp add: executor_ok_def closing_ok_def\<close>)
  then show ?thesis using inv flight by (intro all_settled) (simp_all add: executor_ok_def held_works_def)
qed

section \<open>After the close\<close>

lemma closed_all_settled:
  assumes inv: "executor_ok e" and closed: "ex_closedReason e \<noteq> None"
  shows "mset (settled_works e) = mset [0..<ex_nextWork e]"
proof (rule set_eq_iff_mset_eq_distinct [THEN iffD1])
  have ok: "works_ok e" "executions_ok e" "closing_ok e" using inv by (simp_all add: executor_ok_def)
  have held: "held_works e = mset (ex_activeWork e)" "set (ex_activeWork e) \<subseteq> set (settled_works e)"
    using ok(2,3) closed by (simp_all add: held_works_def closing_ok_def executions_ok_def)
  have "mset (ex_cleanups e @ ex_activeWork e) = mset [0..<ex_nextWork e]" using ok(1) by (simp add: works_ok_def held(1))
  then have "set (ex_cleanups e @ ex_activeWork e) = set [0..<ex_nextWork e]" by (metis set_mset_mset)
  then show "set (settled_works e) = set [0..<ex_nextWork e]" using ok(1) held(2) by (auto simp: works_ok_def)
  show "distinct (settled_works e)" using ok(1) by (simp add: works_ok_def)
qed simp

lemma closed_step:
  assumes inv: "executor_ok e" and closed: "ex_closedReason e = Some r" and step: "execution_exec e event = Inr e'"
  shows "ex_settlements e' = ex_settlements e \<and> ex_closedReason e' = Some r"
proof (cases event)
  case (ExecutionEnds t failed)
  show ?thesis
  proof (cases "js_get (ex_running e) t")
    case None
    with ExecutionEnds step closed show ?thesis by (simp add: execution_exec_def execution_finished_def)
  next
    case (Some cw)
    then obtain c work where run: "js_get (ex_running e) t = Some (c, work)" by (cases cw) auto
    obtain m s where s: "work = am_payload m" "in_flight (ex_scheduler e) = add_mset m (in_flight s)"
      and fin: "execution_finished t failed e = Inr (completed_execution work failed (execution_cleanup t c work s e))"
      by (rule execution_finished_step [OF inv run])
    have "work \<in># mset (ex_activeWork e)" using inv by (simp add: executor_ok_def executions_ok_def s)
    then have "work \<in> set (settled_works e)" using inv closed by (auto simp: executor_ok_def closing_ok_def)
    then have "e' = execution_cleanup t c work s e"
      using fin ExecutionEnds step by (simp add: execution_exec_def completed_execution_def cleanup_fields)
    then show ?thesis by (simp add: execution_cleanup_def schedulePump_fields closed)
  qed
qed (use step closed in \<open>auto simp: execution_exec_def submit_def close_executor_def scheduled_pump_def pump_def\<close>)

lemma closed_run:
  "executor_ok e \<Longrightarrow> ex_closedReason e = Some r \<Longrightarrow> ex_settlements (run_commands execution_exec e events) = ex_settlements e"
proof (induction events arbitrary: e)
  case (Cons event events)
  obtain e' where e': "execution_exec e event = Inr e'" using execution_exec_total [OF Cons.prems(1)] by blast
  show ?case
    using Cons.IH [OF execution_exec_inv [OF Cons.prems(1) e']] closed_step [OF Cons.prems e'] by (simp add: apply_command_def e')
qed simp

end
