(* ===== verification/ExecutorProperties.thy ===== *)
theory ExecutorProperties
  imports ExecutorInvariant
begin

text \<open>
  The properties of the admission executor: every submission is answered at most once and is
  always accounted for, the executor drains by itself, and its close is final.
\<close>

section \<open>A concrete run\<close>

definition idle_executor :: executor where
  "idle_executor = projr (createGatewayControlAdmissionExecutor (\<lambda>c. if c = Safety then Some 1 else None))"

lemma idle_executor_created: "createGatewayControlAdmissionExecutor (\<lambda>c. if c = Safety then Some 1 else None) = Inr idle_executor"
proof -
  have "isl (createGatewayControlAdmissionExecutor (\<lambda>c. if c = Safety then Some 1 else None)) = False" by code_simp
  then show ?thesis unfolding idle_executor_def by (simp only: sum.collapse(2) not_False_eq_True)
qed

definition safety_request :: "string \<Rightarrow> execution_request" where
  "safety_request name = \<lparr>rq_byteLength = 10, rq_coalesceKey = None, rq_id = name, rq_messageClass = Safety, rq_stablePrincipal = None\<rparr>"

definition busy_executor :: executor where
  "busy_executor = run_commands execution_exec idle_executor
     [Submit (safety_request ''a''), Submit (safety_request ''b''), PumpFires]"

lemma busy_reachable: "reachable execution_exec (\<lambda>_. True) idle_executor busy_executor"
  unfolding busy_executor_def by (rule run_commands_reachable [OF reachable.start]) simp

lemma busy_facts:
  "ex_nextWork busy_executor = 2" "progressing busy_executor [ExecutionEnds 0 False, PumpFires, ExecutionEnds 1 True, PumpFires]"
  "ex_closedReason busy_executor = None"
  by code_simp+

section \<open>Properties\<close>

text \<open>
  C14: in every run of an executor, no submission is settled twice; the resolved cleanups together
  with the works that are queued or executing are all the submissions, each once, and a work that
  was cleaned up has been settled; of each class, as many executions run as the executor counts,
  never more than its limit; and no event makes the executor throw.
\<close>

theorem executor_settles_once:
  assumes "createGatewayControlAdmissionExecutor limits = Inr e0" and "reachable execution_exec (\<lambda>_. True) e0 e"
  shows "distinct (settled_works e) \<and>
    mset (ex_cleanups e) + held_works e = mset [0..<ex_nextWork e] \<and>
    set (ex_cleanups e) \<subseteq> set (settled_works e) \<and>
    ex_activeByClass e c = int (length (filter (\<lambda>(t, c', w). c' = c) (ex_running e))) \<and>
    ex_activeByClass e c \<le> ex_limits e c \<and>
    (\<exists>e'. execution_exec e event = Inr e')"
proof -
  have inv: "executor_ok e" by (rule executor.reachable_inv [OF assms(2) executor_created_ok [OF assms(1)]])
  then have ok: "works_ok e" "executions_ok e" by (simp_all add: executor_ok_def)
  have "size (filter_mset (\<lambda>m. am_class m = c) (mset (map snd fl))) =
      length (filter (\<lambda>(t, c', w). c' = c) (map (\<lambda>(t, m). (t, am_class m, am_payload m)) fl))" for fl :: "(nat, work_message) js_map"
    by (induction fl) auto
  then have "class_in_flight c (ex_scheduler e) = int (length (filter (\<lambda>(t, c', w). c' = c) (ex_running e)))"
    using ok(2) by (simp add: executions_ok_def class_in_flight_def in_flight_def running_of_def js_values_def)
  moreover have "ex_activeByClass e c = class_in_flight c (ex_scheduler e) \<and> class_in_flight c (ex_scheduler e) \<le> ex_limits e c"
    using ok(2) unfolding executions_ok_def by blast
  ultimately show ?thesis using ok(1) execution_exec_total [OF inv] unfolding works_ok_def by metis
qed

theorem executor_settles_once_witness:
  "mset (ex_cleanups busy_executor) + held_works busy_executor = mset [0..<2] \<and> distinct (settled_works busy_executor)"
  using executor_settles_once [OF idle_executor_created busy_reachable] by (simp only: busy_facts(1))

text \<open>
  C15: without anyone's help an executor answers everything. From every reachable state, however
  the environment orders the ends of the executions and the scheduled pumps, there are at most
  three such events for each queued work, two for each one executing and one more; and when none
  is left, every submission made so far has been settled exactly once.
\<close>

theorem executor_drains:
  assumes "createGatewayControlAdmissionExecutor limits = Inr e0" and "reachable execution_exec (\<lambda>_. True) e0 e"
    and "progressing e events"
  shows "length events \<le> 3 * size (all_queued (ex_scheduler e)) + 2 * length (ex_running e) + 1 \<and>
    ((\<forall>event. \<not> enabled (run_commands execution_exec e events) event) \<longrightarrow>
       mset (settled_works (run_commands execution_exec e events)) = mset [0..<ex_nextWork e])"
proof -
  have inv: "executor_ok e" by (rule executor.reachable_inv [OF assms(2) executor_created_ok [OF assms(1)]])
  note run = progressing_run [OF inv assms(3)]
  have "size (in_flight (ex_scheduler e)) = length (ex_running e)"
    using inv by (simp add: executor_ok_def executions_ok_def running_of_def in_flight_def js_values_def)
  then have "steps_left e \<le> 3 * size (all_queued (ex_scheduler e)) + 2 * length (ex_running e) + 1"
    by (simp add: steps_left_def)
  moreover have "length events \<le> steps_left e" using run by linarith
  moreover have "mset (settled_works (run_commands execution_exec e events)) = mset [0..<ex_nextWork e]"
    if "\<forall>event. \<not> enabled (run_commands execution_exec e events) event"
    using quiet_settled [OF conjunct2 [OF conjunct2 [OF run]]] that run by auto
  ultimately show ?thesis by (meson order_trans)
qed

theorem executor_drains_witness:
  "mset (settled_works (run_commands execution_exec busy_executor [ExecutionEnds 0 False, PumpFires, ExecutionEnds 1 True, PumpFires])) = mset [0..<2]"
proof -
  let ?e = "run_commands execution_exec busy_executor [ExecutionEnds 0 False, PumpFires, ExecutionEnds 1 True, PumpFires]"
  have "\<not> ex_pumpScheduled ?e" "ex_running ?e = []" by code_simp+
  then have "\<not> enabled ?e event" for event by (simp add: enabled_def js_has_def split: execution_event.split)
  then show ?thesis
    using executor_drains [OF idle_executor_created busy_reachable busy_facts(2)] busy_facts(1) by simp
qed

text \<open>
  C16: closing an open executor settles every submission that was not settled before, all of them
  as closed for the given reason, and nothing after it, neither later submissions nor the ends of
  the executions it left running, settles anything else.
\<close>

theorem closed_executor_is_final:
  assumes "createGatewayControlAdmissionExecutor limits = Inr e0" and "reachable execution_exec (\<lambda>_. True) e0 e"
    and "ex_closedReason e = None"
  shows "\<exists>ws. ex_settlements (run_commands execution_exec e (Close reason # events)) =
      ex_settlements e @ map (\<lambda>w. (w, ExecutionClosed reason)) ws \<and>
    mset (settled_works e @ ws) = mset [0..<ex_nextWork e]"
proof -
  have inv: "executor_ok e" by (rule executor.reachable_inv [OF assms(2) executor_created_ok [OF assms(1)]])
  obtain ws where ws: "ex_settlements (close_executor reason e) = ex_settlements e @ map (\<lambda>w. (w, ExecutionClosed reason)) ws"
    using close_executor_settlements [OF assms(3)] by blast
  have inv': "executor_ok (close_executor reason e)" by (rule close_executor_inv [OF inv])
  have closed: "ex_closedReason (close_executor reason e) = Some reason" "ex_nextWork (close_executor reason e) = ex_nextWork e"
    using close_executor_settlements [OF assms(3)] by blast+
  have "settled_works (close_executor reason e) = settled_works e @ ws" by (simp add: settled_works_def ws comp_def)
  then have "mset (settled_works e @ ws) = mset [0..<ex_nextWork e]"
    using closed_all_settled [OF inv'] closed by simp
  moreover have "ex_settlements (run_commands execution_exec e (Close reason # events)) = ex_settlements (close_executor reason e)"
    using closed_run [OF inv' closed(1)] by (simp add: apply_command_def execution_exec_def)
  ultimately show ?thesis using ws by auto
qed

theorem closed_executor_is_final_witness:
  "\<exists>ws. ex_settlements (run_commands execution_exec busy_executor [Close ''stop'', ExecutionEnds 0 False, Submit (safety_request ''c'')]) =
      ex_settlements busy_executor @ map (\<lambda>w. (w, ExecutionClosed ''stop'')) ws \<and> mset (settled_works busy_executor @ ws) = mset [0..<2]"
  using closed_executor_is_final [OF idle_executor_created busy_reachable busy_facts(3)] by (simp only: busy_facts(1))

end
