(* ===== verification/PosixPath.thy ===== *)
theory PosixPath
  imports Prelude "HOL-Library.Sublist"
begin

text \<open>
  The functions of Node's \<open>path.posix\<close> and of strings that the workspace policy and the
  filtered provider use (packages/managed-vm and packages/gondolin-vm-adapter), and what they do
  to the segments of a path. A path is a string; its segments are the strings between slashes,
  none for the empty path, and the empty path selects the root of the workspace.
\<close>

section \<open>Splitting and joining\<close>

fun split_slash :: "string \<Rightarrow> string list" where
  "split_slash [] = [[]]"
| "split_slash (c # cs) = (if c = CHR ''/'' then [] # split_slash cs
     else case split_slash cs of [] \<Rightarrow> [[c]] | s # ss \<Rightarrow> (c # s) # ss)"

fun join_slash :: "string list \<Rightarrow> string" where
  "join_slash [] = []"
| "join_slash [s] = s"
| "join_slash (s # t # ss) = s @ CHR ''/'' # join_slash (t # ss)"

lemma split_slash_nonempty [simp]: "split_slash s \<noteq> []"
  by (induction s) (auto split: list.splits)

lemma join_slash_Cons: "ss \<noteq> [] \<Longrightarrow> join_slash (s # ss) = s @ CHR ''/'' # join_slash ss"
  by (cases ss) simp_all

lemma join_split [simp]: "join_slash (split_slash s) = s"
proof (induction s)
  case (Cons c s)
  obtain t ts where split: "split_slash s = t # ts" by (cases "split_slash s") auto
  show ?case
  proof (cases "c = CHR ''/''")
    case True
    then show ?thesis using Cons by (simp add: join_slash_Cons)
  next
    case False
    with split Cons show ?thesis by (cases ts) simp_all
  qed
qed simp

lemma split_slash_append: "split_slash (s @ CHR ''/'' # t) = split_slash s @ split_slash t"
proof (induction s)
  case (Cons c s)
  obtain u us where "split_slash s = u # us" by (cases "split_slash s") auto
  with Cons show ?case by simp
qed simp

lemma split_slash_plain: "CHR ''/'' \<notin> set s \<Longrightarrow> split_slash s = [s]"
  by (induction s) auto

lemma split_segments_plain: "s \<in> set (split_slash p) \<Longrightarrow> CHR ''/'' \<notin> set s"
  by (induction p arbitrary: s) (auto split: if_splits list.splits)

lemma split_join: "ss \<noteq> [] \<Longrightarrow> (\<And>s. s \<in> set ss \<Longrightarrow> CHR ''/'' \<notin> set s) \<Longrightarrow> split_slash (join_slash ss) = ss"
proof (induction ss rule: join_slash.induct)
  case (3 s t ss)
  then show ?case by (simp add: split_slash_append split_slash_plain)
qed (simp_all add: split_slash_plain)

lemma join_slash_append: "ss \<noteq> [] \<Longrightarrow> ts \<noteq> [] \<Longrightarrow> join_slash (ss @ ts) = join_slash ss @ CHR ''/'' # join_slash ts"
  by (induction ss rule: join_slash.induct) (simp_all add: join_slash_Cons)

lemma split_slash_inject: "split_slash s = split_slash t \<longleftrightarrow> s = t"
  by (metis join_split)

definition path_segments :: "string \<Rightarrow> string list" where
  "path_segments p = (if p = [] then [] else split_slash p)"

lemma path_segments_Nil [simp]: "path_segments [] = []" "path_segments p = [] \<longleftrightarrow> p = []"
  by (simp_all add: path_segments_def)

lemma path_segments_inject: "path_segments p = path_segments q \<longleftrightarrow> p = q"
  by (metis path_segments_def split_slash_inject split_slash_nonempty)

section \<open>Ancestors\<close>

definition starts_with :: "string \<Rightarrow> string \<Rightarrow> bool" where
  "starts_with s p \<longleftrightarrow> take (length p) s = p"

lemma starts_with_iff: "starts_with s p \<longleftrightarrow> (\<exists>t. s = p @ t)"
  unfolding starts_with_def by (metis append_eq_conv_conj append_take_drop_id)

definition isEqualOrDescendant :: "string \<Rightarrow> string \<Rightarrow> bool" where
  "isEqualOrDescendant candidate ancestor \<longleftrightarrow>
     ancestor = [] \<or> candidate = ancestor \<or> starts_with candidate (ancestor @ ''/'')"

definition pathsOverlap :: "string \<Rightarrow> string \<Rightarrow> bool" where
  "pathsOverlap first second \<longleftrightarrow> isEqualOrDescendant first second \<or> isEqualOrDescendant second first"

text \<open>Both are about segments: an ancestor's segments are a prefix.\<close>

lemma descendant_prefix: "isEqualOrDescendant c a \<longleftrightarrow> prefix (path_segments a) (path_segments c)"
proof (cases "a = []")
  case False
  show ?thesis
  proof
    assume "isEqualOrDescendant c a"
    then consider "c = a" | t where "c = a @ CHR ''/'' # t"
      using False by (auto simp: isEqualOrDescendant_def starts_with_iff)
    then show "prefix (path_segments a) (path_segments c)"
      by cases (simp_all add: path_segments_def False split_slash_append)
  next
    assume "prefix (path_segments a) (path_segments c)"
    then obtain ts where ts: "path_segments c = path_segments a @ ts" by (auto simp: prefix_def)
    show "isEqualOrDescendant c a"
    proof (cases "ts = []")
      case True
      then show ?thesis using ts by (simp add: path_segments_inject isEqualOrDescendant_def)
    next
      case nonempty: False
      have "c \<noteq> []" using ts False by auto
      then have "split_slash c = split_slash a @ ts" using ts False by (simp add: path_segments_def)
      then have "join_slash (split_slash c) = join_slash (split_slash a @ ts)" by simp
      then have "c = a @ CHR ''/'' # join_slash ts" using nonempty by (simp add: join_slash_append)
      then show ?thesis by (auto simp: isEqualOrDescendant_def starts_with_iff)
    qed
  qed
qed (simp add: isEqualOrDescendant_def)

lemma overlap_parallel: "pathsOverlap a b \<longleftrightarrow> \<not> path_segments a \<parallel> path_segments b"
  by (auto simp: pathsOverlap_def descendant_prefix parallel_def)

section \<open>Normalizing\<close>

definition isAbsolute :: "string \<Rightarrow> bool" where
  "isAbsolute p \<longleftrightarrow> p \<noteq> [] \<and> hd p = CHR ''/''"

definition ends_in_slash :: "string \<Rightarrow> bool" where
  "ends_in_slash p \<longleftrightarrow> p \<noteq> [] \<and> last p = CHR ''/''"

definition resolve_segment :: "bool \<Rightarrow> string \<Rightarrow> string list \<Rightarrow> string list" where
  "resolve_segment allowAboveRoot s resolved =
     (if s = [] \<or> s = ''.'' then resolved
      else if s = ''..'' then
        (if resolved \<noteq> [] \<and> last resolved \<noteq> ''..'' then butlast resolved
         else if allowAboveRoot then resolved @ [''..'']
         else resolved)
      else resolved @ [s])"

definition resolve_segments :: "bool \<Rightarrow> string list \<Rightarrow> string list" where
  "resolve_segments allowAboveRoot ss = fold (resolve_segment allowAboveRoot) ss []"

definition posix_normalize :: "string \<Rightarrow> string" where
  "posix_normalize p =
     (if p = [] then ''.''
      else let resolved = join_slash (resolve_segments (\<not> isAbsolute p) (split_slash p))
           in if resolved = [] then (if isAbsolute p then ''/'' else if ends_in_slash p then ''./'' else ''.'')
              else (if isAbsolute p then ''/'' else []) @ resolved @ (if ends_in_slash p then ''/'' else []))"

definition dirname_ends :: "string \<Rightarrow> nat list" where
  "dirname_ends p = filter (\<lambda>i. p ! i = CHR ''/'' \<and> (\<exists>j \<in> set [i + 1..<length p]. p ! j \<noteq> CHR ''/'')) [1..<length p]"

definition posix_dirname :: "string \<Rightarrow> string" where
  "posix_dirname p =
     (if p = [] then ''.''
      else if dirname_ends p = [] then (if isAbsolute p then ''/'' else ''.'')
      else if isAbsolute p \<and> last (dirname_ends p) = 1 then ''//''
      else take (last (dirname_ends p)) p)"

lemma last_greatest: "sorted xs \<Longrightarrow> m \<in> set xs \<Longrightarrow> (\<And>x. x \<in> set xs \<Longrightarrow> x \<le> m) \<Longrightarrow> last xs = (m :: nat)"
  by (induction xs) (auto intro: antisym)

lemma posix_dirname_split:
  assumes p: "p = q @ CHR ''/'' # s @ t" and s: "s \<noteq> []" "CHR ''/'' \<notin> set s" and t: "set t \<subseteq> {CHR ''/''}"
    and q: "q = [] \<or> 2 \<le> length q"
  shows "posix_dirname p = (if q = [] then ''/'' else q)"
proof -
  have le: "i \<le> length q" if mem: "i \<in> set (dirname_ends p)" for i
  proof (rule ccontr)
    assume i: "\<not> i \<le> length q"
    obtain j where j: "i < j" "j < length p" "p ! j \<noteq> CHR ''/''" and pi: "p ! i = CHR ''/''" "i < length p"
      using mem by (auto simp: dirname_ends_def Suc_le_eq)
    have nth: "p ! k = (s @ t) ! (k - Suc (length q))" if "length q < k" for k
    proof -
      have "p = (q @ ''/'') @ (s @ t)" by (simp add: p)
      then have "p ! k = ((q @ ''/'') @ (s @ t)) ! k" by (rule arg_cong)
      also have "\<dots> = (s @ t) ! (k - length (q @ ''/''))" using that by (subst nth_append) simp
      finally show ?thesis by simp
    qed
    show False
    proof (cases "i - Suc (length q) < length s")
      case True
      then have "p ! i \<in> set s" using nth [of i] i by (simp add: nth_append)
      with pi s(2) show False by simp
    next
      case False
      then have "\<not> j - Suc (length q) < length s" using j(1) by linarith
      then have "p ! j = t ! (j - Suc (length q) - length s)" using nth [of j] i j(1) by (simp add: nth_append)
      moreover have "j - Suc (length q) - length s < length t" using j(2) False i j(1) by (simp add: p)
      ultimately have "p ! j \<in> set t" by simp
      with t j(3) show False by auto
    qed
  qed
  show ?thesis
  proof (cases "q = []")
    case True
    have "dirname_ends p = []"
    proof (rule ccontr)
      assume "dirname_ends p \<noteq> []"
      then have "last (dirname_ends p) \<in> set (dirname_ends p)" by simp
      moreover from this have "1 \<le> last (dirname_ends p)" by (auto simp: dirname_ends_def)
      ultimately show False using le True by fastforce
    qed
    then show ?thesis by (simp add: posix_dirname_def p True isAbsolute_def)
  next
    case False
    have "p ! Suc (length q) = s ! 0" using s(1) by (simp add: p nth_append)
    then have "p ! Suc (length q) \<noteq> CHR ''/''" using s by (metis length_greater_0_conv nth_mem)
    moreover have "p ! length q = CHR ''/''" by (simp add: p nth_append)
    moreover have "length p = length q + Suc (length s + length t)" "0 < length s" "0 < length q"
      using False s(1) by (simp_all add: p)
    then have "Suc (length q) \<in> set [length q + 1..<length p]" "length q \<in> set [1..<length p]"
      unfolding set_upt atLeastLessThan_iff by linarith+
    ultimately have "length q \<in> set (dirname_ends p)"
      unfolding dirname_ends_def set_filter mem_Collect_eq by blast
    then have ends: "dirname_ends p \<noteq> []" by auto
    moreover have "sorted (dirname_ends p)" by (simp add: dirname_ends_def sorted_wrt_filter)
    ultimately have "last (dirname_ends p) = length q"
      using \<open>length q \<in> set (dirname_ends p)\<close> by (intro last_greatest) (simp_all add: le)
    then show ?thesis using ends False q by (simp add: posix_dirname_def) (simp add: p)
  qed
qed

definition clean_segment :: "string \<Rightarrow> bool" where
  "clean_segment s \<longleftrightarrow> s \<noteq> [] \<and> s \<noteq> ''.'' \<and> s \<noteq> ''..'' \<and> CHR ''/'' \<notin> set s"

lemma resolve_clean: "list_all clean_segment ss \<Longrightarrow> fold (resolve_segment b) ss rs = rs @ ss"
  by (induction ss arbitrary: rs) (auto simp: resolve_segment_def clean_segment_def)

lemma resolve_segment_clean:
  "list_all clean_segment rs \<Longrightarrow> CHR ''/'' \<notin> set s \<Longrightarrow> list_all clean_segment (resolve_segment False s rs)"
  by (auto simp: resolve_segment_def clean_segment_def list_all_iff dest: in_set_butlastD)

lemma resolve_absolute_clean:
  "(\<And>s. s \<in> set ss \<Longrightarrow> CHR ''/'' \<notin> set s) \<Longrightarrow> list_all clean_segment (resolve_segments False ss)"
proof -
  have "list_all clean_segment (fold (resolve_segment False) ss rs)"
    if "list_all clean_segment rs" "\<And>s. s \<in> set ss \<Longrightarrow> CHR ''/'' \<notin> set s" for rs
    using that by (induction ss arbitrary: rs) (simp_all add: resolve_segment_clean)
  then show "(\<And>s. s \<in> set ss \<Longrightarrow> CHR ''/'' \<notin> set s) \<Longrightarrow> ?thesis" by (simp add: resolve_segments_def)
qed

lemma resolve_ignores_empty: "resolve_segments b (ss @ [[]]) = resolve_segments b ss" "resolve_segments b ([] # ss) = resolve_segments b ss"
  by (simp_all add: resolve_segments_def resolve_segment_def)

lemma split_absolute: "isAbsolute p \<Longrightarrow> split_slash p = [] # split_slash (tl p)"
  by (cases p) (simp_all add: isAbsolute_def)

lemma ends_split: "ends_in_slash p \<longleftrightarrow> p \<noteq> [] \<and> last (split_slash p) = []"
proof (induction p)
  case (Cons c p)
  obtain s ss where split: "split_slash p = s # ss" by (cases "split_slash p") auto
  show ?case
  proof (cases "p = []")
    case False
    then have "ends_in_slash (c # p) = ends_in_slash p" by (simp add: ends_in_slash_def)
    moreover have "last (split_slash (c # p)) = [] \<longleftrightarrow> last (split_slash p) = []"
    proof (cases "c = CHR ''/''")
      case False
      show ?thesis
      proof (cases "ss = []")
        case True
        have "s \<noteq> []" using split True \<open>p \<noteq> []\<close> by (metis join_slash.simps(2) join_split)
        then show ?thesis using split True False by simp
      qed (use split False in simp)
    qed (simp add: split)
    ultimately show ?thesis using Cons False by simp
  qed (auto simp: ends_in_slash_def)
qed (simp add: ends_in_slash_def)

text \<open>A relative path normalizes to itself exactly when its segments are clean.\<close>

definition clean_path :: "string \<Rightarrow> bool" where
  "clean_path p \<longleftrightarrow> p \<noteq> [] \<and> list_all clean_segment (split_slash p)"

lemma clean_path_segments: "clean_path p \<Longrightarrow> path_segments p = split_slash p \<and> list_all clean_segment (path_segments p)"
  by (simp add: clean_path_def path_segments_def)

lemma clean_not_absolute: "clean_path p \<Longrightarrow> \<not> isAbsolute p"
  using split_absolute [of p] by (auto simp: clean_path_def clean_segment_def)

lemma clean_no_trailing: "clean_path p \<Longrightarrow> \<not> ends_in_slash p"
  unfolding ends_split clean_path_def list_all_iff clean_segment_def by (metis last_in_set split_slash_nonempty)

lemma clean_normalize: "clean_path p \<Longrightarrow> posix_normalize p = p"
proof -
  assume clean: "clean_path p"
  then have "resolve_segments True (split_slash p) = split_slash p"
    by (simp add: clean_path_def resolve_segments_def resolve_clean)
  then show ?thesis using clean clean_not_absolute [OF clean] clean_no_trailing [OF clean]
    by (simp add: posix_normalize_def clean_path_def)
qed

lemma resolve_no_dots:
  "(\<And>s. s \<in> set ss \<Longrightarrow> s \<noteq> ''.'' \<and> s \<noteq> ''..'') \<Longrightarrow> resolve_segments b ss = filter (\<lambda>s. s \<noteq> []) ss"
proof -
  have "fold (resolve_segment b) ss rs = rs @ filter (\<lambda>s. s \<noteq> []) ss"
    if "\<And>s. s \<in> set ss \<Longrightarrow> s \<noteq> ''.'' \<and> s \<noteq> ''..''" for rs
    using that by (induction ss arbitrary: rs) (simp_all add: resolve_segment_def)
  then show "(\<And>s. s \<in> set ss \<Longrightarrow> s \<noteq> ''.'' \<and> s \<noteq> ''..'') \<Longrightarrow> ?thesis" by (simp add: resolve_segments_def)
qed

lemma clean_path_iff:
  "clean_path p \<longleftrightarrow> p \<noteq> [] \<and> \<not> ends_in_slash p \<and> \<not> isAbsolute p \<and> posix_normalize p = p \<and>
     (\<forall>s \<in> set (split_slash p). s \<noteq> ''.'' \<and> s \<noteq> ''..'')"
proof
  assume "clean_path p"
  then show "p \<noteq> [] \<and> \<not> ends_in_slash p \<and> \<not> isAbsolute p \<and> posix_normalize p = p \<and>
     (\<forall>s \<in> set (split_slash p). s \<noteq> ''.'' \<and> s \<noteq> ''..'')"
    by (auto simp: clean_not_absolute clean_no_trailing clean_normalize) (auto simp: clean_path_def clean_segment_def list_all_iff)
next
  assume p: "p \<noteq> [] \<and> \<not> ends_in_slash p \<and> \<not> isAbsolute p \<and> posix_normalize p = p \<and>
     (\<forall>s \<in> set (split_slash p). s \<noteq> ''.'' \<and> s \<noteq> ''..'')"
  let ?ss = "filter (\<lambda>s. s \<noteq> []) (split_slash p)"
  have "resolve_segments True (split_slash p) = ?ss" by (rule resolve_no_dots) (use p in blast)
  then have norm: "posix_normalize p = (if join_slash ?ss = [] then ''.'' else join_slash ?ss)"
    using p by (simp add: posix_normalize_def)
  have "join_slash ?ss \<noteq> []"
  proof
    assume "join_slash ?ss = []"
    then have "p = ''.''" using norm p by simp
    then show False using p by simp
  qed
  then have join: "join_slash ?ss = p" and "?ss \<noteq> []" using norm p by auto
  then have "split_slash (join_slash ?ss) = ?ss" by (intro split_join) (auto dest: split_segments_plain)
  then have "split_slash p = ?ss" by (simp only: join)
  then have "\<forall>s \<in> set (split_slash p). s \<noteq> []" by (metis (mono_tags, lifting) mem_Collect_eq set_filter)
  then show "clean_path p" using p by (auto simp: clean_path_def list_all_iff clean_segment_def dest: split_segments_plain)
qed

section \<open>Normalized absolute paths\<close>

definition rel_form :: "string list \<Rightarrow> bool \<Rightarrow> string" where
  "rel_form ss b = join_slash ss @ (if b then ''/'' else [])"

lemma join_clean_empty: "list_all clean_segment ss \<Longrightarrow> join_slash ss = [] \<longleftrightarrow> ss = []"
  by (induction ss rule: join_slash.induct) (auto simp: clean_segment_def)

lemma split_join_clean: "list_all clean_segment ss \<Longrightarrow> ss \<noteq> [] \<Longrightarrow> split_slash (join_slash ss) = ss"
  by (rule split_join) (auto simp: list_all_iff clean_segment_def)

lemma split_rel_form:
  assumes "list_all clean_segment ss" and "ss \<noteq> []"
  shows "split_slash (rel_form ss b) = ss @ (if b then [[]] else [])"
proof (cases b)
  case True
  have "split_slash (join_slash ss @ ''/'') = split_slash (join_slash ss) @ split_slash []"
    using split_slash_append [of "join_slash ss" "[]"] by simp
  then show ?thesis using True assms by (simp add: rel_form_def split_join_clean)
qed (use assms in \<open>simp add: rel_form_def split_join_clean\<close>)

lemma rel_form_segments:
  assumes "list_all clean_segment ss" and "b \<Longrightarrow> ss \<noteq> []"
  shows "path_segments (rel_form ss b) = ss @ (if b then [[]] else [])"
proof (cases "ss = []")
  case False
  then have "rel_form ss b \<noteq> []" using join_clean_empty [OF assms(1)] by (simp add: rel_form_def)
  then show ?thesis using split_rel_form [OF assms(1) False] by (simp add: path_segments_def)
qed (use assms in \<open>auto simp: rel_form_def\<close>)

lemma normalize_absolute:
  assumes "isAbsolute p"
  obtains ss b where "posix_normalize p = CHR ''/'' # rel_form ss b" "list_all clean_segment ss" "b \<longrightarrow> ss \<noteq> []"
proof -
  define ss where "ss = resolve_segments False (split_slash p)"
  have clean: "list_all clean_segment ss" unfolding ss_def by (rule resolve_absolute_clean) (rule split_segments_plain)
  have "p \<noteq> []" using assms by (simp add: isAbsolute_def)
  then have "posix_normalize p = CHR ''/'' # rel_form ss (ends_in_slash p \<and> ss \<noteq> [])"
    using assms join_clean_empty [OF clean] by (simp add: posix_normalize_def ss_def [symmetric] rel_form_def Let_def)
  with that clean show thesis by blast
qed

lemma normalize_rel_form:
  assumes clean: "list_all clean_segment ss" and b: "b \<Longrightarrow> ss \<noteq> []"
  shows "posix_normalize (CHR ''/'' # rel_form ss b) = CHR ''/'' # rel_form ss b"
proof -
  have split: "split_slash (CHR ''/'' # rel_form ss b) = [] # (if ss = [] then [[]] else ss @ (if b then [[]] else []))"
    using b split_rel_form [OF clean] by (cases "ss = []") (auto simp: rel_form_def)
  have "resolve_segments False (split_slash (CHR ''/'' # rel_form ss b)) = ss"
    unfolding split using clean b by (auto simp: resolve_segments_def resolve_segment_def resolve_clean)
  moreover have "ends_in_slash (CHR ''/'' # rel_form ss b) \<longleftrightarrow> b \<or> ss = []"
    unfolding ends_split split using clean b by (auto simp: list_all_iff clean_segment_def)
  ultimately show ?thesis
    using join_clean_empty [OF clean] b by (auto simp: posix_normalize_def isAbsolute_def rel_form_def Let_def)
qed

lemma rel_form_append:
  "ss \<noteq> [] \<Longrightarrow> ts \<noteq> [] \<Longrightarrow> rel_form (ss @ ts) b = join_slash ss @ CHR ''/'' # rel_form ts b"
  by (simp add: rel_form_def join_slash_append)

lemma dirname_rel_form:
  assumes clean: "list_all clean_segment (ss @ [s])"
  shows "posix_dirname (CHR ''/'' # rel_form (ss @ [s]) b) = CHR ''/'' # rel_form ss False"
proof -
  have s: "s \<noteq> []" "CHR ''/'' \<notin> set s" and ss: "list_all clean_segment ss" using clean by (simp_all add: clean_segment_def)
  let ?q = "if ss = [] then [] else CHR ''/'' # join_slash ss"
  have q: "?q = [] \<or> 2 \<le> length ?q" using join_clean_empty [OF ss] by (cases "join_slash ss") auto
  have eq: "CHR ''/'' # rel_form (ss @ [s]) b = ?q @ CHR ''/'' # s @ (if b then ''/'' else [])"
    by (cases "ss = []") (simp_all add: rel_form_append, simp_all add: rel_form_def)
  have "posix_dirname (CHR ''/'' # rel_form (ss @ [s]) b) = (if ?q = [] then ''/'' else ?q)"
    by (rule posix_dirname_split [OF eq s _ q]) auto
  then show ?thesis by (auto simp: rel_form_def)
qed

end
