(* ===== verification/WorkspacePolicy.thy ===== *)
theory WorkspacePolicy
  imports PosixPath
begin

text \<open>
  packages/managed-vm/src/filtered-workspace-policy.ts: the validation of the policy under which
  a Tool VM sees the workspace of its agent. A check is the error it throws, if any; the loops
  with indices are recursions over the list from the same position.
\<close>

section \<open>The policy\<close>

record readonly_input =
  ri_destinationRelativePath :: string
  ri_sourceRelativePath :: string

datatype workspace_visibility =
  WholeRootWritable
| PositivePaths (visiblePaths: "string list") (writablePaths: "string list")

record workspace_policy =
  wp_hiddenPaths :: "string list"
  wp_readonlyInputs :: "readonly_input list"
  wp_temporaryPaths :: "string list"
  wp_visibility :: workspace_visibility

datatype policy_error =
  NotNormalized string string
| DuplicatePath string string
| OverlappingPaths string string string
| DuplicateDestination string
| OverlappingDestinations string string
| NoVisiblePath
| OutsideVisibility string string
| HiddenOutsideVisibility string
| SourceRemainsWritable string
| WritableBelowReadonly string string

section \<open>Checks in sequence\<close>

definition then_check :: "'e option \<Rightarrow> 'e option \<Rightarrow> 'e option" where
  "then_check first second = (case first of Some e \<Rightarrow> Some e | None \<Rightarrow> second)"

lemma then_check_None [simp]: "then_check a b = None \<longleftrightarrow> a = None \<and> b = None"
  by (cases a) (simp_all add: then_check_def)

fun first_error :: "('a \<Rightarrow> 'e option) \<Rightarrow> 'a list \<Rightarrow> 'e option" where
  "first_error check [] = None"
| "first_error check (x # xs) = then_check (check x) (first_error check xs)"

lemma first_error_None [simp]: "first_error check xs = None \<longleftrightarrow> (\<forall>x \<in> set xs. check x = None)"
  by (induction xs) simp_all

definition fails_if :: "bool \<Rightarrow> 'e \<Rightarrow> 'e option" where
  "fails_if b e = (if b then Some e else None)"

lemma fails_if_None [simp]: "fails_if b e = None \<longleftrightarrow> \<not> b"
  by (simp add: fails_if_def)

section \<open>Validation\<close>

definition assertNormalizedRelativePath :: "string \<Rightarrow> string \<Rightarrow> bool \<Rightarrow> policy_error option" where
  "assertNormalizedRelativePath p fieldName allowWorkspaceRoot =
     (if p = [] then fails_if (\<not> allowWorkspaceRoot) (NotNormalized fieldName p)
      else fails_if (CHR 0x00 \<in> set p \<or> CHR 0x5C \<in> set p \<or> ends_in_slash p \<or> isAbsolute p \<or> posix_normalize p \<noteq> p \<or>
          (\<exists>s \<in> set (split_slash p). s = ''.'' \<or> s = ''..'')) (NotNormalized fieldName p))"

fun first_duplicate :: "string list \<Rightarrow> string list \<Rightarrow> string option" where
  "first_duplicate seen [] = None"
| "first_duplicate seen (p # ps) = (if p \<in> set seen then Some p else first_duplicate (p # seen) ps)"

fun first_overlap :: "string list \<Rightarrow> (string \<times> string) option" where
  "first_overlap [] = None"
| "first_overlap (p # ps) =
     (case find (pathsOverlap p) ps of Some q \<Rightarrow> Some (p, q) | None \<Rightarrow> first_overlap ps)"

definition validatePathSet :: "string list \<Rightarrow> string \<Rightarrow> bool \<Rightarrow> policy_error option" where
  "validatePathSet paths label allowWorkspaceRoot =
     then_check (first_error (\<lambda>p. assertNormalizedRelativePath p label allowWorkspaceRoot) paths)
     (then_check (map_option (DuplicatePath label) (first_duplicate [] paths))
       (map_option (\<lambda>(p, q). OverlappingPaths label p q) (first_overlap paths)))"

definition validateReadonlyInputs :: "readonly_input list \<Rightarrow> policy_error option" where
  "validateReadonlyInputs inputs =
     (let destinations = map ri_destinationRelativePath inputs
      in then_check (first_error (\<lambda>i. then_check
             (assertNormalizedRelativePath (ri_sourceRelativePath i) ''Read-only input source path'' False)
             (assertNormalizedRelativePath (ri_destinationRelativePath i) ''Read-only input destination path'' False)) inputs)
         (then_check (map_option DuplicateDestination (first_duplicate [] destinations))
           (map_option (\<lambda>(p, q). OverlappingDestinations p q) (first_overlap (filter (\<lambda>d. d \<noteq> []) destinations)))))"

definition assertWithinPositiveVisibility :: "string \<Rightarrow> string list \<Rightarrow> string \<Rightarrow> policy_error option" where
  "assertWithinPositiveVisibility p visible fieldName =
     fails_if (\<not> (\<exists>v \<in> set visible. isEqualOrDescendant p v)) (OutsideVisibility fieldName p)"

definition readonlyInputSourceIsWritable :: "readonly_input \<Rightarrow> workspace_policy \<Rightarrow> bool" where
  "readonlyInputSourceIsWritable i policy =
     (let source = ri_sourceRelativePath i
      in if (\<exists>h \<in> set (wp_hiddenPaths policy). isEqualOrDescendant source h) \<or>
            (\<exists>t \<in> set (wp_temporaryPaths policy). isEqualOrDescendant source t) \<or>
            (\<exists>c \<in> set (wp_readonlyInputs policy). isEqualOrDescendant source (ri_destinationRelativePath c))
         then False
         else case wp_visibility policy of
                WholeRootWritable \<Rightarrow> True
              | PositivePaths _ writable \<Rightarrow> \<exists>w \<in> set writable. isEqualOrDescendant source w)"

definition validate_positive :: "workspace_policy \<Rightarrow> string list \<Rightarrow> string list \<Rightarrow> policy_error option" where
  "validate_positive policy visible writable =
     then_check (validatePathSet visible ''visible path'' True)
     (then_check (validatePathSet writable ''writable path'' True)
     (then_check (fails_if (visible = []) NoVisiblePath)
     (then_check (first_error (\<lambda>w. assertWithinPositiveVisibility w visible ''Writable path'') writable)
     (then_check (first_error (\<lambda>t. assertWithinPositiveVisibility t visible ''Temporary path'') (wp_temporaryPaths policy))
     (then_check (first_error (\<lambda>i. assertWithinPositiveVisibility (ri_destinationRelativePath i) visible ''Read-only destination'')
         (wp_readonlyInputs policy))
       (first_error (\<lambda>h. fails_if (\<not> (\<exists>v \<in> set visible. pathsOverlap h v)) (HiddenOutsideVisibility h))
         (wp_hiddenPaths policy)))))))"

definition validate_input :: "workspace_policy \<Rightarrow> readonly_input \<Rightarrow> policy_error option" where
  "validate_input policy i =
     then_check (fails_if (readonlyInputSourceIsWritable i policy) (SourceRemainsWritable (ri_sourceRelativePath i)))
       (first_error (\<lambda>w. fails_if (w \<noteq> ri_destinationRelativePath i \<and> isEqualOrDescendant w (ri_destinationRelativePath i))
            (WritableBelowReadonly w (ri_destinationRelativePath i)))
         (case wp_visibility policy of PositivePaths _ writable \<Rightarrow> writable | WholeRootWritable \<Rightarrow> []))"

definition validateManagedVmFilteredWorkspacePolicy :: "workspace_policy \<Rightarrow> policy_error + workspace_policy" where
  "validateManagedVmFilteredWorkspacePolicy policy =
     (case then_check (validatePathSet (wp_hiddenPaths policy) ''hidden path'' False)
        (then_check (validatePathSet (wp_temporaryPaths policy) ''temporary path'' False)
        (then_check (validateReadonlyInputs (wp_readonlyInputs policy))
        (then_check (case wp_visibility policy of WholeRootWritable \<Rightarrow> None
             | PositivePaths visible writable \<Rightarrow> validate_positive policy visible writable)
          (first_error (validate_input policy) (wp_readonlyInputs policy)))))
      of Some e \<Rightarrow> Inl e | None \<Rightarrow> Inr policy)"

section \<open>What an accepted policy is\<close>

text \<open>The specification, on the segments of paths: a path covers those it is a prefix of.\<close>

definition covers :: "string \<Rightarrow> string \<Rightarrow> bool" where
  "covers a p \<longleftrightarrow> prefix (path_segments a) (path_segments p)"

definition plain_path :: "string \<Rightarrow> bool" where
  "plain_path p \<longleftrightarrow> clean_path p \<and> CHR 0x00 \<notin> set p \<and> CHR 0x5C \<notin> set p"

definition apart :: "string list \<Rightarrow> bool" where
  "apart ps \<longleftrightarrow> sorted_wrt (\<lambda>p q. path_segments p \<parallel> path_segments q) ps"

definition destinations :: "workspace_policy \<Rightarrow> string list" where
  "destinations policy = map ri_destinationRelativePath (wp_readonlyInputs policy)"

definition writable_paths :: "workspace_policy \<Rightarrow> string list" where
  "writable_paths policy = (case wp_visibility policy of WholeRootWritable \<Rightarrow> [[]] | PositivePaths _ writable \<Rightarrow> writable)"

definition positive_spec :: "workspace_policy \<Rightarrow> string list \<Rightarrow> string list \<Rightarrow> bool" where
  "positive_spec policy visible writable \<longleftrightarrow>
     (\<forall>p \<in> set visible \<union> set writable. p = [] \<or> plain_path p) \<and> apart visible \<and> apart writable \<and> visible \<noteq> [] \<and>
     (\<forall>p \<in> set writable \<union> set (wp_temporaryPaths policy) \<union> set (destinations policy). \<exists>v \<in> set visible. covers v p) \<and>
     (\<forall>h \<in> set (wp_hiddenPaths policy). \<exists>v \<in> set visible. covers h v \<or> covers v h)"

definition policy_spec :: "workspace_policy \<Rightarrow> bool" where
  "policy_spec policy \<longleftrightarrow>
     (\<forall>p \<in> set (wp_hiddenPaths policy) \<union> set (wp_temporaryPaths policy) \<union> set (destinations policy). plain_path p) \<and>
     apart (wp_hiddenPaths policy) \<and> apart (wp_temporaryPaths policy) \<and> apart (destinations policy) \<and>
     (case wp_visibility policy of WholeRootWritable \<Rightarrow> True
      | PositivePaths visible writable \<Rightarrow> positive_spec policy visible writable) \<and>
     (\<forall>i \<in> set (wp_readonlyInputs policy). plain_path (ri_sourceRelativePath i) \<and>
        ((\<exists>c \<in> set (wp_hiddenPaths policy) \<union> set (wp_temporaryPaths policy) \<union> set (destinations policy).
            covers c (ri_sourceRelativePath i)) \<or>
         (\<forall>w \<in> set (writable_paths policy). \<not> covers w (ri_sourceRelativePath i))) \<and>
        (\<forall>w \<in> set (writable_paths policy). covers (ri_destinationRelativePath i) w \<longrightarrow> w = ri_destinationRelativePath i))"

lemma normalized_plain: "assertNormalizedRelativePath p field root = None \<longleftrightarrow> (p = [] \<and> root) \<or> plain_path p"
proof (cases "p = []")
  case False
  then show ?thesis
    by (simp add: assertNormalizedRelativePath_def plain_path_def clean_path_iff) blast
qed (simp add: assertNormalizedRelativePath_def plain_path_def clean_path_def)

lemma first_duplicate_None: "first_duplicate seen ps = None \<longleftrightarrow> distinct ps \<and> set ps \<inter> set seen = {}"
  by (induction ps arbitrary: seen) auto

lemma first_overlap_None: "first_overlap ps = None \<longleftrightarrow> apart ps"
  by (induction ps) (auto simp: apart_def overlap_parallel find_None_iff find_Some_iff split: option.splits)

lemma apart_distinct: "apart ps \<Longrightarrow> distinct ps"
  by (induction ps) (auto simp: apart_def)

lemma validatePathSet_None:
  "validatePathSet ps label root = None \<longleftrightarrow> (\<forall>p \<in> set ps. (p = [] \<and> root) \<or> plain_path p) \<and> apart ps"
  using apart_distinct [of ps] by (auto simp: validatePathSet_def normalized_plain first_duplicate_None first_overlap_None)

lemma validateReadonlyInputs_None:
  "validateReadonlyInputs inputs = None \<longleftrightarrow>
     (\<forall>i \<in> set inputs. plain_path (ri_sourceRelativePath i) \<and> plain_path (ri_destinationRelativePath i)) \<and>
     apart (map ri_destinationRelativePath inputs)"
proof -
  have "filter (\<lambda>d. d \<noteq> []) (map ri_destinationRelativePath inputs) = map ri_destinationRelativePath inputs"
    if "\<forall>i \<in> set inputs. plain_path (ri_destinationRelativePath i)"
    using that by (auto simp: filter_id_conv plain_path_def clean_path_def)
  then show ?thesis
    using apart_distinct [of "map ri_destinationRelativePath inputs"]
    by (auto simp: validateReadonlyInputs_def Let_def normalized_plain first_duplicate_None first_overlap_None)
qed

lemma validate_positive_None:
  "validate_positive policy visible writable = None \<longleftrightarrow> positive_spec policy visible writable"
  unfolding validate_positive_def positive_spec_def then_check_None first_error_None validatePathSet_None fails_if_None
    assertWithinPositiveVisibility_def pathsOverlap_def descendant_prefix covers_def destinations_def
  by auto

lemma source_writable_iff:
  "readonlyInputSourceIsWritable i policy \<longleftrightarrow>
     \<not> (\<exists>c \<in> set (wp_hiddenPaths policy) \<union> set (wp_temporaryPaths policy) \<union> set (destinations policy).
        covers c (ri_sourceRelativePath i)) \<and>
     (\<exists>w \<in> set (writable_paths policy). covers w (ri_sourceRelativePath i))"
proof -
  have whole: "(\<exists>w \<in> set (writable_paths policy). covers w (ri_sourceRelativePath i)) \<longleftrightarrow>
      (case wp_visibility policy of WholeRootWritable \<Rightarrow> True
       | PositivePaths _ writable \<Rightarrow> \<exists>w \<in> set writable. covers w (ri_sourceRelativePath i))"
    by (cases "wp_visibility policy") (simp_all add: writable_paths_def covers_def)
  show ?thesis
    unfolding whole readonlyInputSourceIsWritable_def Let_def descendant_prefix covers_def [symmetric] destinations_def set_map
    by (simp add: bex_Un)
qed

lemma writable_below_iff:
  assumes "plain_path (ri_destinationRelativePath i)"
  shows "first_error (\<lambda>w. fails_if (w \<noteq> ri_destinationRelativePath i \<and> isEqualOrDescendant w (ri_destinationRelativePath i)) (e w))
      (case wp_visibility policy of PositivePaths _ writable \<Rightarrow> writable | WholeRootWritable \<Rightarrow> []) = None \<longleftrightarrow>
    (\<forall>w \<in> set (writable_paths policy). covers (ri_destinationRelativePath i) w \<longrightarrow> w = ri_destinationRelativePath i)"
  using assms by (cases "wp_visibility policy")
    (auto simp: writable_paths_def covers_def descendant_prefix plain_path_def clean_path_def)

lemma validate_input_None:
  "plain_path (ri_destinationRelativePath i) \<Longrightarrow> validate_input policy i = None \<longleftrightarrow>
     ((\<exists>c \<in> set (wp_hiddenPaths policy) \<union> set (wp_temporaryPaths policy) \<union> set (destinations policy).
          covers c (ri_sourceRelativePath i)) \<or>
       (\<forall>w \<in> set (writable_paths policy). \<not> covers w (ri_sourceRelativePath i))) \<and>
      (\<forall>w \<in> set (writable_paths policy). covers (ri_destinationRelativePath i) w \<longrightarrow> w = ri_destinationRelativePath i)"
  unfolding validate_input_def then_check_None fails_if_None source_writable_iff
  by (simp only: writable_below_iff) blast

lemma checked_iff: "(case e of Some x \<Rightarrow> Inl x | None \<Rightarrow> Inr p) = Inr q \<longleftrightarrow> e = None \<and> q = p"
  by (cases e) auto

lemma validated_iff:
  "validateManagedVmFilteredWorkspacePolicy policy = Inr policy' \<longleftrightarrow> policy' = policy \<and> policy_spec policy"
proof -
  let ?checks = "then_check (validatePathSet (wp_hiddenPaths policy) ''hidden path'' False)
        (then_check (validatePathSet (wp_temporaryPaths policy) ''temporary path'' False)
        (then_check (validateReadonlyInputs (wp_readonlyInputs policy))
        (then_check (case wp_visibility policy of WholeRootWritable \<Rightarrow> None
             | PositivePaths visible writable \<Rightarrow> validate_positive policy visible writable)
          (first_error (validate_input policy) (wp_readonlyInputs policy)))))"
  have positive: "(case wp_visibility policy of WholeRootWritable \<Rightarrow> None
         | PositivePaths visible writable \<Rightarrow> validate_positive policy visible writable) = None \<longleftrightarrow>
      (case wp_visibility policy of WholeRootWritable \<Rightarrow> True | PositivePaths visible writable \<Rightarrow> positive_spec policy visible writable)"
    by (cases "wp_visibility policy") (simp_all add: validate_positive_None)
  have "?checks = None \<longleftrightarrow> policy_spec policy"
  proof (cases "\<forall>i \<in> set (wp_readonlyInputs policy). plain_path (ri_destinationRelativePath i)")
    case True
    then have inputs: "first_error (validate_input policy) (wp_readonlyInputs policy) = None \<longleftrightarrow>
        (\<forall>i \<in> set (wp_readonlyInputs policy).
          ((\<exists>c \<in> set (wp_hiddenPaths policy) \<union> set (wp_temporaryPaths policy) \<union> set (destinations policy).
              covers c (ri_sourceRelativePath i)) \<or>
           (\<forall>w \<in> set (writable_paths policy). \<not> covers w (ri_sourceRelativePath i))) \<and>
          (\<forall>w \<in> set (writable_paths policy). covers (ri_destinationRelativePath i) w \<longrightarrow> w = ri_destinationRelativePath i))"
      unfolding first_error_None by (simp only: validate_input_None cong: ball_cong)
    show ?thesis
      unfolding then_check_None positive inputs validatePathSet_None validateReadonlyInputs_None policy_spec_def
        destinations_def [symmetric] ball_Un
      using True by (auto simp: destinations_def)
  next
    case False
    then show ?thesis
      unfolding then_check_None validateReadonlyInputs_None policy_spec_def ball_Un by (auto simp: destinations_def)
  qed
  then show ?thesis
    unfolding validateManagedVmFilteredWorkspacePolicy_def checked_iff by blast
qed

end
