(* ===== verification/WorkspaceProvider.thy ===== *)
theory WorkspaceProvider
  imports WorkspacePolicy
begin

text \<open>
  packages/gondolin-vm-adapter/src/filtered-workspace-provider.ts: the layers of file system
  providers that enforce a workspace policy for the guest of a Tool VM.

  A provider maps the name of a property to a method, or to none when the property is not a
  function; a \<open>Proxy\<close> is then a function on providers, by name. A method takes its arguments
  and the state of the world to an error or a value and the new state: a rejected promise and a
  thrown error are the same to its caller, and the twin of each method that ends in \<open>Sync\<close> is
  there under its own name. The providers of the third-party virtual machine (memory, read-only
  and shadow) are parameters, the fields of \<open>workspace_dependencies\<close>; the methods
  \<open>realpath\<close> answer strings and \<open>readdir\<close> lists of entries, as their types say.
\<close>

section \<open>Values and methods\<close>

datatype fs_code = EACCES | ENOENT | EROFS

text \<open>A third-party error tells whether its code or number says that there is no such entry.\<close>

datatype provider_error =
  PolicyError fs_code string string
| ProviderError bool string

datatype dir_entry = NameEntry string | DirentEntry string nat | VirtualDirent string

datatype fs_value =
  Undefined
| TextValue string
| BoolValue bool
| EntriesValue "dir_entry list"
| VirtualDirStats
| ModuleStatMissing
| ProviderValue nat

datatype fs_arg = ArgText string | ArgFileTypes bool | ArgValue fs_value

type_synonym ('w, 'a) fs_run = "'w \<Rightarrow> (provider_error + 'a) \<times> 'w"
type_synonym 'w fs_method = "fs_arg list \<Rightarrow> ('w, fs_value) fs_run"
type_synonym 'w vprovider = "string \<Rightarrow> 'w fs_method option"

definition run_return :: "'a \<Rightarrow> ('w, 'a) fs_run" where
  "run_return v w = (Inr v, w)"

definition run_throw :: "provider_error \<Rightarrow> ('w, 'a) fs_run" where
  "run_throw e w = (Inl e, w)"

definition run_bind :: "('w, 'a) fs_run \<Rightarrow> ('a \<Rightarrow> ('w, 'b) fs_run) \<Rightarrow> ('w, 'b) fs_run" where
  "run_bind m f w = (case m w of (Inl e, w') \<Rightarrow> (Inl e, w') | (Inr v, w') \<Rightarrow> f v w')"

definition run_catch :: "('w, 'a) fs_run \<Rightarrow> (provider_error \<Rightarrow> ('w, 'a) fs_run) \<Rightarrow> ('w, 'a) fs_run" where
  "run_catch m h w = (case m w of (Inl e, w') \<Rightarrow> h e w' | (Inr v, w') \<Rightarrow> (Inr v, w'))"

definition value_text :: "fs_value \<Rightarrow> string" where
  "value_text v = (case v of TextValue s \<Rightarrow> s | Undefined \<Rightarrow> ''undefined'' | _ \<Rightarrow> ''[object Object]'')"

text \<open>\<open>String(methodArguments[i])\<close>.\<close>

definition arg_text :: "fs_arg list \<Rightarrow> nat \<Rightarrow> string" where
  "arg_text args i =
     (if i < length args
      then case args ! i of ArgText s \<Rightarrow> s | ArgFileTypes _ \<Rightarrow> ''[object Object]'' | ArgValue v \<Rightarrow> value_text v
      else ''undefined'')"

text \<open>Assignment to an index, which extends a JavaScript array.\<close>

definition set_arg :: "nat \<Rightarrow> fs_arg \<Rightarrow> fs_arg list \<Rightarrow> fs_arg list" where
  "set_arg i v args = (if i < length args then args[i := v]
     else args @ replicate (i - length args) (ArgValue Undefined) @ [v])"

section \<open>Paths of a provider\<close>

definition toAbsoluteProviderPath :: "string \<Rightarrow> string" where
  "toAbsoluteProviderPath p = CHR ''/'' # p"

definition normalizeProviderPath :: "string \<Rightarrow> string" where
  "normalizeProviderPath p = posix_normalize (if starts_with p ''/'' then p else CHR ''/'' # p)"

definition toRelativeProviderPath :: "string \<Rightarrow> string" where
  "toRelativeProviderPath p =
     (let normalized = normalizeProviderPath p in if normalized = ''/'' then [] else tl normalized)"

definition invokeProviderMethod :: "'w vprovider \<Rightarrow> string \<Rightarrow> 'w fs_method" where
  "invokeProviderMethod provider property args =
     (case provider property of None \<Rightarrow> run_return Undefined | Some m \<Rightarrow> m args)"

definition singlePathMutationMethods :: "string list" where
  "singlePathMutationMethods =
     [''appendFile'', ''appendFileSync'', ''mkdir'', ''mkdirSync'', ''rmdir'', ''rmdirSync'', ''symlink'', ''symlinkSync'',
      ''truncate'', ''truncateSync'', ''unlink'', ''unlinkSync'', ''writeFile'', ''writeFileSync'']"

definition mutationPathArgumentIndex :: "string \<Rightarrow> nat" where
  "mutationPathArgumentIndex property = (if property = ''symlink'' \<or> property = ''symlinkSync'' then 1 else 0)"

definition failProviderOperation :: "string \<Rightarrow> string \<Rightarrow> fs_code \<Rightarrow> ('w, 'a) fs_run" where
  "failProviderOperation property p code = run_throw (PolicyError code property p)"

definition failProviderMutation :: "string \<Rightarrow> string \<Rightarrow> ('w, 'a) fs_run" where
  "failProviderMutation property p = failProviderOperation property p EROFS"

section \<open>The root of a read-only input\<close>

definition translatePath :: "string \<Rightarrow> string \<Rightarrow> string" where
  "translatePath source p =
     (let suffix = toRelativeProviderPath p
      in toAbsoluteProviderPath (if suffix = [] then source else source @ CHR ''/'' # suffix))"

definition twoPathMethods :: "string list" where
  "twoPathMethods = [''rename'', ''renameSync'', ''link'', ''linkSync'', ''copyFile'', ''copyFileSync'']"

definition translateArguments :: "string \<Rightarrow> string \<Rightarrow> fs_arg list \<Rightarrow> fs_arg list" where
  "translateArguments source property args =
     (if property \<in> set twoPathMethods
      then set_arg 1 (ArgText (translatePath source (arg_text args 1)))
             (set_arg 0 (ArgText (translatePath source (arg_text args 0))) args)
      else set_arg (mutationPathArgumentIndex property)
             (ArgText (translatePath source (arg_text args (mutationPathArgumentIndex property)))) args)"

definition assertResolvedPathWithinSource :: "string \<Rightarrow> string \<Rightarrow> string \<Rightarrow> string \<Rightarrow> ('w, unit) fs_run" where
  "assertResolvedPathWithinSource resolved canonical property p =
     (if isEqualOrDescendant (toRelativeProviderPath resolved) (toRelativeProviderPath canonical) then run_return ()
      else run_throw (PolicyError ENOENT property p))"

text \<open>
  The asynchronous version starts both calls before it awaits either, so the second is made even
  when the first fails.
\<close>

definition resolveConfinedPath :: "'w vprovider \<Rightarrow> string \<Rightarrow> string \<Rightarrow> string \<Rightarrow> string \<Rightarrow> ('w, string \<times> string) fs_run" where
  "resolveConfinedPath provider source property p translated =
     (case provider ''realpath'' of
        None \<Rightarrow> run_throw (PolicyError ENOENT property p)
      | Some realpath \<Rightarrow> (\<lambda>w.
          let (canonical, w1) = realpath [ArgText (toAbsoluteProviderPath source)] w;
              (resolved, w2) = realpath [ArgText translated] w1
          in (case (canonical, resolved) of
                (Inl e, _) \<Rightarrow> (Inl e, w2)
              | (Inr _, Inl e) \<Rightarrow> (Inl e, w2)
              | (Inr c, Inr r) \<Rightarrow>
                  run_bind (assertResolvedPathWithinSource (value_text r) (value_text c) property p)
                    (\<lambda>_. run_return (value_text c, value_text r)) w2)))"

definition resolveConfinedPathSync :: "'w vprovider \<Rightarrow> string \<Rightarrow> string \<Rightarrow> string \<Rightarrow> string \<Rightarrow> ('w, string \<times> string) fs_run" where
  "resolveConfinedPathSync provider source property p translated =
     (case provider ''realpathSync'' of
        None \<Rightarrow> run_throw (PolicyError ENOENT property p)
      | Some realpathSync \<Rightarrow>
          run_bind (realpathSync [ArgText (toAbsoluteProviderPath source)]) (\<lambda>c.
          run_bind (realpathSync [ArgText translated]) (\<lambda>r.
          run_bind (assertResolvedPathWithinSource (value_text r) (value_text c) property p)
            (\<lambda>_. run_return (value_text c, value_text r)))))"

definition parentProviderPath :: "string \<Rightarrow> string" where
  "parentProviderPath p =
     (let normalized = normalizeProviderPath p in if normalized = ''/'' then ''/'' else posix_dirname normalized)"

definition remapResolvedPath :: "string \<Rightarrow> string \<Rightarrow> string" where
  "remapResolvedPath resolved canonical =
     (let r = toRelativeProviderPath resolved; c = toRelativeProviderPath canonical
      in if r = c then ''/'' else toAbsoluteProviderPath (if c = [] then r else drop (length (c @ ''/'')) r))"

definition asyncFollowMethods :: "string list" where
  "asyncFollowMethods = [''access'', ''open'', ''readdir'', ''readFile'', ''stat'', ''statfs'']"

definition syncFollowMethods :: "string list" where
  "syncFollowMethods = [''accessSync'', ''openSync'', ''readdirSync'', ''readFileSync'', ''statSync'', ''watch'', ''watchAsync'',
     ''watchFile'', ''unwatchFile'']"

definition relative_root_method :: "'w vprovider \<Rightarrow> string \<Rightarrow> string \<Rightarrow> 'w fs_method \<Rightarrow> 'w fs_method" where
  "relative_root_method provider source property method args =
     (let translated = translateArguments source property args;
          p = arg_text args 0;
          t = arg_text translated 0;
          parent = translatePath source (parentProviderPath p)
      in if property = ''realpath''
         then run_bind (resolveConfinedPath provider source property p t)
                (\<lambda>(canonical, resolved). run_return (TextValue (remapResolvedPath resolved canonical)))
         else if property = ''realpathSync''
         then run_bind (resolveConfinedPathSync provider source property p t)
                (\<lambda>(canonical, resolved). run_return (TextValue (remapResolvedPath resolved canonical)))
         else if property = ''lstat'' \<or> property = ''readlink''
         then run_bind (resolveConfinedPath provider source property p parent) (\<lambda>_. method translated)
         else if property = ''lstatSync'' \<or> property = ''readlinkSync''
         then run_bind (resolveConfinedPathSync provider source property p parent) (\<lambda>_. method translated)
         else if property = ''exists''
         then run_catch (run_bind (resolveConfinedPath provider source property p t) (\<lambda>_. method translated))
                (\<lambda>_. run_return (BoolValue False))
         else if property = ''existsSync'' \<or> property = ''internalModuleStat''
         then run_catch (run_bind (resolveConfinedPathSync provider source property p t) (\<lambda>_. method translated))
                (\<lambda>_. run_return (if property = ''existsSync'' then BoolValue False else ModuleStatMissing))
         else if property \<in> set asyncFollowMethods
         then run_bind (resolveConfinedPath provider source property p t) (\<lambda>_. method translated)
         else if property \<in> set syncFollowMethods
         then run_bind (resolveConfinedPathSync provider source property p t) (\<lambda>_. method translated)
         else method translated)"

definition createRelativeRootProvider :: "'w vprovider \<Rightarrow> string \<Rightarrow> 'w vprovider" where
  "createRelativeRootProvider provider source property =
     map_option (relative_root_method provider source property) (provider property)"

section \<open>Dependencies\<close>

record shadow_context =
  sx_op :: string
  sx_path :: string

datatype 'w shadow_mode = DenyWrites | WriteTmpfs "'w vprovider"

record 'w workspace_dependencies =
  dp_createMemoryProvider :: "'w vprovider"
  dp_createReadonlyProvider :: "'w vprovider \<Rightarrow> 'w vprovider"
  dp_createShadowPathPredicate :: "string list \<Rightarrow> shadow_context \<Rightarrow> bool"
  dp_createShadowProvider :: "'w vprovider \<Rightarrow> (shadow_context \<Rightarrow> bool) \<Rightarrow> 'w shadow_mode \<Rightarrow> 'w vprovider"

section \<open>The positive projection\<close>

definition isVisible :: "string list \<Rightarrow> string \<Rightarrow> bool" where
  "isVisible visible p =
     (let r = toRelativeProviderPath p in r = [] \<or> (\<exists>v \<in> set visible. pathsOverlap r v))"

definition isWritable :: "string list \<Rightarrow> string \<Rightarrow> bool" where
  "isWritable writable p = (\<exists>w \<in> set writable. isEqualOrDescendant (toRelativeProviderPath p) w)"

definition projected_provider :: "'w workspace_dependencies \<Rightarrow> string list \<Rightarrow> 'w vprovider \<Rightarrow> 'w vprovider" where
  "projected_provider deps visible provider =
     dp_createShadowProvider deps provider (\<lambda>c. \<not> isVisible visible (sx_path c)) DenyWrites"

definition selects_readonly :: "string list \<Rightarrow> string list \<Rightarrow> string \<Rightarrow> fs_arg list \<Rightarrow> bool" where
  "selects_readonly visible writable property args =
     (if property = ''open'' \<or> property = ''openSync''
      then isVisible visible (arg_text args 0) \<and> \<not> isWritable writable (arg_text args 0)
      else if property \<in> set singlePathMutationMethods
      then let p = arg_text args (mutationPathArgumentIndex property) in isVisible visible p \<and> \<not> isWritable writable p
      else if property = ''rename'' \<or> property = ''renameSync''
      then (\<forall>p \<in> set [arg_text args 0, arg_text args 1]. isVisible visible p) \<and>
           (\<exists>p \<in> set [arg_text args 0, arg_text args 1]. \<not> isWritable writable p)
      else if property = ''copyFile'' \<or> property = ''copyFileSync''
      then isVisible visible (arg_text args 0) \<and> isVisible visible (arg_text args 1) \<and> \<not> isWritable writable (arg_text args 1)
      else False)"

definition createPositiveWorkspaceProjectionProvider :: "'w vprovider \<Rightarrow> string list \<Rightarrow> string list \<Rightarrow> 'w workspace_dependencies
    \<Rightarrow> 'w vprovider" where
  "createPositiveWorkspaceProjectionProvider provider visible writable deps property =
     (let projected = projected_provider deps visible provider;
          readonly = dp_createReadonlyProvider deps projected
      in map_option (\<lambda>method args. if selects_readonly visible writable property args
           then invokeProviderMethod readonly property args else method args) (projected property))"

section \<open>Hard links\<close>

definition link_hidden :: "workspace_policy \<Rightarrow> string \<Rightarrow> bool" where
  "link_hidden policy p = (\<exists>h \<in> set (wp_hiddenPaths policy). isEqualOrDescendant (toRelativeProviderPath p) h)"

definition link_temporary :: "workspace_policy \<Rightarrow> string \<Rightarrow> bool" where
  "link_temporary policy p = (\<exists>t \<in> set (wp_temporaryPaths policy). isEqualOrDescendant (toRelativeProviderPath p) t)"

definition link_visible :: "workspace_policy \<Rightarrow> string \<Rightarrow> bool" where
  "link_visible policy p = (case wp_visibility policy of WholeRootWritable \<Rightarrow> True
     | PositivePaths visible _ \<Rightarrow> toRelativeProviderPath p = [] \<or> (\<exists>v \<in> set visible. pathsOverlap (toRelativeProviderPath p) v))"

definition link_writable :: "workspace_policy \<Rightarrow> string \<Rightarrow> bool" where
  "link_writable policy p =
     (if link_temporary policy p then False
      else case wp_visibility policy of WholeRootWritable \<Rightarrow> True
        | PositivePaths _ writable \<Rightarrow> \<exists>w \<in> set writable. isEqualOrDescendant (toRelativeProviderPath p) w)"

definition link_method :: "'w vprovider \<Rightarrow> workspace_policy \<Rightarrow> string \<Rightarrow> 'w fs_method \<Rightarrow> 'w fs_method" where
  "link_method provider policy property underlying args =
     (let source = arg_text args 0; destination = arg_text args 1
      in if link_hidden policy source \<or> \<not> link_visible policy source then failProviderOperation property source ENOENT
         else if link_hidden policy destination \<or> \<not> link_visible policy destination
         then failProviderOperation property destination EACCES
         else if \<not> link_writable policy source then failProviderOperation property source EROFS
         else if \<not> link_writable policy destination then failProviderOperation property destination EROFS
         else if property = ''link''
         then case provider ''realpath'' of
                None \<Rightarrow> failProviderOperation property source ENOENT
              | Some realpath \<Rightarrow> run_bind (realpath [ArgText source]) (\<lambda>_. underlying args)
         else case provider ''realpathSync'' of
                None \<Rightarrow> failProviderOperation property source ENOENT
              | Some realpathSync \<Rightarrow> run_bind (realpathSync [ArgText source]) (\<lambda>_. underlying args))"

definition createWorkspaceHardlinkProvider :: "'w vprovider \<Rightarrow> 'w vprovider \<Rightarrow> workspace_policy \<Rightarrow> 'w vprovider" where
  "createWorkspaceHardlinkProvider provider base policy property =
     (if property \<noteq> ''link'' \<and> property \<noteq> ''linkSync'' then provider property
      else map_option (link_method provider policy property) (base property))"

section \<open>Read-only inputs\<close>

record 'w readonly_input_provider =
  rp_destinationRelativePath :: string
  rp_provider :: "'w vprovider"

definition nested_hidden_paths :: "workspace_policy \<Rightarrow> string \<Rightarrow> string list" where
  "nested_hidden_paths policy destination =
     map (\<lambda>h. toAbsoluteProviderPath (drop (length (destination @ ''/'')) h))
       (filter (\<lambda>h. starts_with h (destination @ ''/'')) (wp_hiddenPaths policy))"

definition readonly_input_provider_of :: "'w vprovider \<Rightarrow> workspace_policy \<Rightarrow> 'w workspace_dependencies \<Rightarrow> readonly_input
    \<Rightarrow> 'w readonly_input_provider" where
  "readonly_input_provider_of source policy deps i =
     (let root = createRelativeRootProvider source (ri_sourceRelativePath i);
          hidden = nested_hidden_paths policy (ri_destinationRelativePath i);
          shadowed = (if hidden \<noteq> [] then dp_createShadowProvider deps root (dp_createShadowPathPredicate deps hidden) DenyWrites
                      else root)
      in \<lparr>rp_destinationRelativePath = ri_destinationRelativePath i,
          rp_provider = dp_createReadonlyProvider deps shadowed\<rparr>)"

definition readonly_input_providers :: "'w vprovider \<Rightarrow> workspace_policy \<Rightarrow> 'w workspace_dependencies \<Rightarrow> 'w readonly_input_provider list" where
  "readonly_input_providers source policy deps =
     map (readonly_input_provider_of source policy deps)
       (filter (\<lambda>i. \<not> (\<exists>h \<in> set (wp_hiddenPaths policy). isEqualOrDescendant (ri_destinationRelativePath i) h))
         (wp_readonlyInputs policy))"

definition findInput :: "'w readonly_input_provider list \<Rightarrow> string \<Rightarrow> 'w readonly_input_provider option" where
  "findInput inputs p = find (\<lambda>i. isEqualOrDescendant (toRelativeProviderPath p) (rp_destinationRelativePath i)) inputs"

definition mapInputPath :: "string \<Rightarrow> 'w readonly_input_provider \<Rightarrow> string" where
  "mapInputPath p i =
     (let suffix = drop (length (rp_destinationRelativePath i)) (toRelativeProviderPath p)
      in if suffix = [] then ''/'' else suffix)"

definition conflictsWithReadonlyInput :: "'w readonly_input_provider list \<Rightarrow> string \<Rightarrow> bool" where
  "conflictsWithReadonlyInput inputs p =
     (\<exists>i \<in> set inputs. pathsOverlap (toRelativeProviderPath p) (rp_destinationRelativePath i))"

definition isHidden :: "workspace_policy \<Rightarrow> string \<Rightarrow> bool" where
  "isHidden policy p = (\<exists>h \<in> set (wp_hiddenPaths policy). isEqualOrDescendant (toRelativeProviderPath p) h)"

definition string_compare :: "string \<Rightarrow> string \<Rightarrow> int" where
  "string_compare a b = (if js_string_less a b then - 1 else if a = b then 0 else 1)"

definition directReadonlyDestinationChildren :: "string \<Rightarrow> 'w readonly_input_provider list \<Rightarrow> string list" where
  "directReadonlyDestinationChildren p inputs =
     (let r = toRelativeProviderPath p;
          before = (if r = [] then [] else r @ ''/'');
          children = map (\<lambda>i. hd (split_slash (drop (length before) (rp_destinationRelativePath i))))
            (filter (\<lambda>i. starts_with (rp_destinationRelativePath i) before) inputs)
      in js_sort string_compare (remdups (filter (\<lambda>c. c \<noteq> []) children)))"

definition entryName :: "dir_entry \<Rightarrow> string" where
  "entryName e = (case e of NameEntry s \<Rightarrow> s | DirentEntry s _ \<Rightarrow> s | VirtualDirent s \<Rightarrow> s)"

definition mergeDirectoryEntries :: "dir_entry list \<Rightarrow> string list \<Rightarrow> bool \<Rightarrow> dir_entry list" where
  "mergeDirectoryEntries entries virtualChildren withFileTypes =
     entries @ map (if withFileTypes then VirtualDirent else NameEntry)
       (filter (\<lambda>c. c \<notin> entryName ` set entries) virtualChildren)"

definition isNoEntryError :: "provider_error \<Rightarrow> bool" where
  "isNoEntryError e = (case e of PolicyError code _ _ \<Rightarrow> code = ENOENT | ProviderError missing _ \<Rightarrow> missing)"

definition value_entries :: "fs_value \<Rightarrow> dir_entry list" where
  "value_entries v = (case v of EntriesValue es \<Rightarrow> es | _ \<Rightarrow> [])"

definition with_file_types :: "fs_arg list \<Rightarrow> bool" where
  "with_file_types args = (1 < length args \<and> args ! 1 = ArgFileTypes True)"

definition invoke_input :: "'w readonly_input_provider \<Rightarrow> string \<Rightarrow> fs_arg list \<Rightarrow> ('w, fs_value) fs_run" where
  "invoke_input i property args =
     invokeProviderMethod (rp_provider i) property (ArgText (mapInputPath (arg_text args 0) i) # tl args)"

definition nested_readdir :: "'w readonly_input_provider list \<Rightarrow> string \<Rightarrow> 'w fs_method \<Rightarrow> 'w fs_method" where
  "nested_readdir inputs property method args =
     (let virtualChildren = directReadonlyDestinationChildren (arg_text args 0) inputs
      in if virtualChildren = [] then method args
         else if property = ''readdir''
         then run_bind (run_catch (method args) (\<lambda>e. if isNoEntryError e then run_return (EntriesValue []) else run_throw e))
                (\<lambda>v. run_return (EntriesValue (mergeDirectoryEntries (value_entries v) virtualChildren (with_file_types args))))
         else run_catch
                (run_bind (method args)
                  (\<lambda>v. run_return (EntriesValue (mergeDirectoryEntries (value_entries v) virtualChildren (with_file_types args)))))
                (\<lambda>e. if isNoEntryError e then run_return (EntriesValue (map NameEntry virtualChildren)) else run_throw e))"

definition nested_stat :: "'w readonly_input_provider list \<Rightarrow> 'w fs_method \<Rightarrow> 'w fs_method" where
  "nested_stat inputs method args =
     (if directReadonlyDestinationChildren (arg_text args 0) inputs = [] then method args
      else run_catch (method args) (\<lambda>e. if isNoEntryError e then run_return VirtualDirStats else run_throw e))"

definition nested_copy :: "'w vprovider \<Rightarrow> workspace_policy \<Rightarrow> 'w readonly_input_provider list \<Rightarrow> string \<Rightarrow> 'w fs_method \<Rightarrow> 'w fs_method" where
  "nested_copy provider policy inputs property method args =
     (let source = arg_text args 0; destination = arg_text args 1
      in if \<not> isHidden policy destination \<and> conflictsWithReadonlyInput inputs destination
         then failProviderMutation property destination
         else case findInput inputs source of
                None \<Rightarrow> method args
              | Some i \<Rightarrow>
                  if isHidden policy source then method args
                  else let sync = property = ''copyFileSync'';
                           mapped = mapInputPath source i
                       in run_bind (invokeProviderMethod (rp_provider i) (if sync then ''readFileSync'' else ''readFile'') [ArgText mapped])
                            (\<lambda>contents. invokeProviderMethod provider (if sync then ''writeFileSync'' else ''writeFile'')
                               [ArgText destination, ArgValue contents]))"

definition nested_other :: "workspace_policy \<Rightarrow> 'w readonly_input_provider list \<Rightarrow> string \<Rightarrow> 'w fs_method \<Rightarrow> 'w fs_method" where
  "nested_other policy inputs property method args =
     (case (if isHidden policy (arg_text args 0) then None else findInput inputs (arg_text args 0)) of
        None \<Rightarrow> method args
      | Some i \<Rightarrow>
          if property = ''realpath'' \<or> property = ''realpathSync''
          then run_bind (invoke_input i property args) (\<lambda>v.
                 let r = toRelativeProviderPath (value_text v)
                 in run_return (TextValue (toAbsoluteProviderPath
                      (if r = [] then rp_destinationRelativePath i else rp_destinationRelativePath i @ CHR ''/'' # r))))
          else invoke_input i property args)"

definition nested_method :: "'w vprovider \<Rightarrow> workspace_policy \<Rightarrow> 'w readonly_input_provider list \<Rightarrow> string \<Rightarrow> 'w fs_method
    \<Rightarrow> 'w fs_method" where
  "nested_method provider policy inputs property method args =
     (let p = arg_text args 0;
          input = (if isHidden policy p then None else findInput inputs p)
      in if property = ''readdir'' \<or> property = ''readdirSync''
         then (case input of Some i \<Rightarrow> invoke_input i property args | None \<Rightarrow> nested_readdir inputs property method args)
         else if property \<in> {''stat'', ''statSync'', ''lstat'', ''lstatSync''}
         then (case input of Some i \<Rightarrow> invoke_input i property args | None \<Rightarrow> nested_stat inputs method args)
         else if property = ''open'' \<or> property = ''openSync''
         then (case input of Some i \<Rightarrow> invoke_input i property args | None \<Rightarrow> method args)
         else if property \<in> set singlePathMutationMethods
         then let q = arg_text args (mutationPathArgumentIndex property)
              in if \<not> isHidden policy q \<and> conflictsWithReadonlyInput inputs q then failProviderMutation property q else method args
         else if property \<in> {''rename'', ''renameSync'', ''link'', ''linkSync''}
         then (case find (\<lambda>q. \<not> isHidden policy q \<and> conflictsWithReadonlyInput inputs q) [arg_text args 0, arg_text args 1] of
                 Some q \<Rightarrow> if q \<noteq> [] then failProviderMutation property q else method args
               | None \<Rightarrow> method args)
         else if property = ''copyFile'' \<or> property = ''copyFileSync''
         then nested_copy provider policy inputs property method args
         else nested_other policy inputs property method args)"

definition createNestedReadonlyWorkspaceProvider :: "'w vprovider \<Rightarrow> 'w vprovider \<Rightarrow> workspace_policy \<Rightarrow> 'w workspace_dependencies
    \<Rightarrow> 'w vprovider" where
  "createNestedReadonlyWorkspaceProvider provider source policy deps property =
     (let inputs = readonly_input_providers source policy deps
      in if inputs = [] then provider property
         else map_option (nested_method provider policy inputs property) (provider property))"

section \<open>The whole provider\<close>

definition hidden_layer :: "workspace_policy \<Rightarrow> 'w workspace_dependencies \<Rightarrow> 'w vprovider \<Rightarrow> 'w vprovider" where
  "hidden_layer policy deps provider =
     (if wp_hiddenPaths policy = [] then provider
      else dp_createShadowProvider deps provider
             (dp_createShadowPathPredicate deps (map toAbsoluteProviderPath (wp_hiddenPaths policy))) DenyWrites)"

definition temporary_layer :: "workspace_policy \<Rightarrow> 'w workspace_dependencies \<Rightarrow> 'w vprovider \<Rightarrow> 'w vprovider" where
  "temporary_layer policy deps provider =
     (if wp_temporaryPaths policy = [] then provider
      else let hiddenPredicate = dp_createShadowPathPredicate deps (map toAbsoluteProviderPath (wp_hiddenPaths policy));
               temporaryPredicate = dp_createShadowPathPredicate deps (map toAbsoluteProviderPath (wp_temporaryPaths policy))
           in dp_createShadowProvider deps provider (\<lambda>c. \<not> hiddenPredicate c \<and> temporaryPredicate c)
                (WriteTmpfs (dp_createMemoryProvider deps)))"

definition createFilteredWorkspaceProvider :: "'w vprovider \<Rightarrow> 'w workspace_dependencies \<Rightarrow> workspace_policy \<Rightarrow> 'w vprovider" where
  "createFilteredWorkspaceProvider base deps policy =
     (let projected = (case wp_visibility policy of WholeRootWritable \<Rightarrow> base
            | PositivePaths visible writable \<Rightarrow> createPositiveWorkspaceProjectionProvider base visible writable deps);
          workspace = temporary_layer policy deps (hidden_layer policy deps projected)
      in createNestedReadonlyWorkspaceProvider (createWorkspaceHardlinkProvider workspace base policy) base policy deps)"

end
