(* ===== verification/WorkspaceConfinement.thy ===== *)
theory WorkspaceConfinement
  imports WorkspaceProvider
begin

text \<open>
  What the layers of the filtered workspace provider let through to the host's files. A layer is
  a function of the provider below it. That a layer only makes certain calls is stated without a
  log of calls: two providers below that agree on those calls give layers that agree on every
  call, so any other call, which the two may answer differently, is not made.
\<close>

section \<open>The paths of a call\<close>

type_synonym provider_call = "string \<times> fs_arg list"

definition wseg :: "string \<Rightarrow> string list" where
  "wseg p = path_segments (toRelativeProviderPath p)"

definition opens_for_reading :: "fs_arg list \<Rightarrow> bool" where
  "opens_for_reading args \<longleftrightarrow> arg_text args 1 \<in> {''r'', ''rs'', ''sr'', ''undefined''}"

definition call_paths :: "provider_call \<Rightarrow> string list" where
  "call_paths c = (case c of (property, args) \<Rightarrow>
     if property \<in> set twoPathMethods then [arg_text args 0, arg_text args 1]
     else [arg_text args (mutationPathArgumentIndex property)])"

text \<open>The paths whose files or directories a call may change.\<close>

definition altered_paths :: "provider_call \<Rightarrow> string list" where
  "altered_paths c = (case c of (property, args) \<Rightarrow>
     if property \<in> {''rename'', ''renameSync'', ''link'', ''linkSync''} then [arg_text args 0, arg_text args 1]
     else if property \<in> {''copyFile'', ''copyFileSync''} then [arg_text args 1]
     else if property \<in> set singlePathMutationMethods then [arg_text args (mutationPathArgumentIndex property)]
     else if property \<in> {''open'', ''openSync''} \<and> \<not> opens_for_reading args then [arg_text args 0]
     else [])"

definition touches :: "provider_call \<Rightarrow> string list set" where
  "touches c = wseg ` set (call_paths c)"

definition alters :: "provider_call \<Rightarrow> string list set" where
  "alters c = wseg ` set (altered_paths c)"

definition is_link :: "provider_call \<Rightarrow> bool" where
  "is_link c \<longleftrightarrow> fst c \<in> {''link'', ''linkSync''}"

definition narrows :: "provider_call \<Rightarrow> provider_call \<Rightarrow> bool" where
  "narrows c d \<longleftrightarrow> touches d \<subseteq> touches c \<and> alters d \<subseteq> alters c \<and> (is_link d \<longrightarrow> is_link c)"

lemma narrows_refl [simp]: "narrows c c"
  by (simp add: narrows_def)

lemma narrows_trans: "narrows c d \<Longrightarrow> narrows d e \<Longrightarrow> narrows c e"
  by (auto simp: narrows_def)

lemma altered_touched: "alters c \<subseteq> touches c"
  by (cases c) (auto simp: alters_def touches_def altered_paths_def call_paths_def twoPathMethods_def mutationPathArgumentIndex_def
    singlePathMutationMethods_def)

section \<open>Agreement\<close>

definition same_methods :: "'w vprovider \<Rightarrow> 'w vprovider \<Rightarrow> bool" where
  "same_methods p p' \<longleftrightarrow> (\<forall>property. (p property = None) = (p' property = None))"

definition agree :: "'w vprovider \<Rightarrow> 'w vprovider \<Rightarrow> provider_call \<Rightarrow> bool" where
  "agree p p' c \<longleftrightarrow> (\<forall>w. invokeProviderMethod p (fst c) (snd c) w = invokeProviderMethod p' (fst c) (snd c) w)"

text \<open>
  The documented behaviour of the third-party providers that the confinement rests on. A read-only
  provider makes only calls that change nothing; a shadow provider makes no call on a shadowed
  path, and when it denies writes, a call with a shadowed path changes nothing; both make calls on
  paths they were asked for. The predicate holds of the given paths and of what is below them.
\<close>

definition readonly_law :: "'w workspace_dependencies \<Rightarrow> bool" where
  "readonly_law deps \<longleftrightarrow> (\<forall>p p'. same_methods p p' \<longrightarrow>
     same_methods (dp_createReadonlyProvider deps p) (dp_createReadonlyProvider deps p') \<and>
     (\<forall>c. (\<forall>d. narrows c d \<and> alters d = {} \<longrightarrow> agree p p' d) \<longrightarrow>
        agree (dp_createReadonlyProvider deps p) (dp_createReadonlyProvider deps p') c))"

definition unshadowed :: "(shadow_context \<Rightarrow> bool) \<Rightarrow> string \<Rightarrow> bool" where
  "unshadowed shadow q \<longleftrightarrow> (\<exists>op. \<not> shadow \<lparr>sx_op = op, sx_path = q\<rparr>)"

definition shadow_law :: "'w workspace_dependencies \<Rightarrow> bool" where
  "shadow_law deps \<longleftrightarrow> (\<forall>p p' shadow mode. same_methods p p' \<longrightarrow>
     same_methods (dp_createShadowProvider deps p shadow mode) (dp_createShadowProvider deps p' shadow mode) \<and>
     (\<forall>c. (\<forall>d. narrows c d \<and> (\<forall>q \<in> set (call_paths d). unshadowed shadow q) \<and>
           (mode = DenyWrites \<and> (\<exists>q \<in> set (call_paths c). \<not> unshadowed shadow q) \<longrightarrow> alters d = {}) \<longrightarrow> agree p p' d) \<longrightarrow>
        agree (dp_createShadowProvider deps p shadow mode) (dp_createShadowProvider deps p' shadow mode) c))"

definition predicate_law :: "'w workspace_dependencies \<Rightarrow> bool" where
  "predicate_law deps \<longleftrightarrow> (\<forall>paths c. dp_createShadowPathPredicate deps paths c \<longleftrightarrow>
     (\<exists>q \<in> set paths. prefix (wseg q) (wseg (sx_path c))))"

definition dependencies_law :: "'w workspace_dependencies \<Rightarrow> bool" where
  "dependencies_law deps \<longleftrightarrow> readonly_law deps \<and> shadow_law deps \<and> predicate_law deps"

text \<open>A layer that reads paths with A and alters paths with B, apart from hard links.\<close>

definition confined :: "('w vprovider \<Rightarrow> 'w vprovider) \<Rightarrow> (string list \<Rightarrow> bool) \<Rightarrow> (string list \<Rightarrow> bool) \<Rightarrow> bool" where
  "confined layer A B \<longleftrightarrow> (\<forall>p p'. same_methods p p' \<longrightarrow> same_methods (layer p) (layer p') \<and>
     (\<forall>c. \<not> is_link c \<longrightarrow> (\<forall>d. narrows c d \<and> (\<forall>t \<in> touches d. A t) \<and> (\<forall>t \<in> alters d. B t) \<longrightarrow> agree p p' d) \<longrightarrow>
        agree (layer p) (layer p') c))"

lemma confinedI:
  assumes "\<And>p p'. same_methods p p' \<Longrightarrow> same_methods (layer p) (layer p')"
    and "\<And>p p' c. same_methods p p' \<Longrightarrow> \<not> is_link c \<Longrightarrow>
      (\<And>d. narrows c d \<Longrightarrow> (\<forall>t \<in> touches d. A t) \<Longrightarrow> (\<forall>t \<in> alters d. B t) \<Longrightarrow> agree p p' d) \<Longrightarrow> agree (layer p) (layer p') c"
  shows "confined layer A B"
  unfolding confined_def
proof (intro allI impI conjI)
  fix p p' :: "'a vprovider" and c
  assume same: "same_methods p p'"
  show "same_methods (layer p) (layer p')" by (rule assms(1) [OF same])
  assume "\<not> is_link c" and below: "\<forall>d. narrows c d \<and> (\<forall>t \<in> touches d. A t) \<and> (\<forall>t \<in> alters d. B t) \<longrightarrow> agree p p' d"
  show "agree (layer p) (layer p') c"
  proof (rule assms(2) [OF same])
    fix d assume "narrows c d" "\<forall>t \<in> touches d. A t" "\<forall>t \<in> alters d. B t"
    then show "agree p p' d" using below by blast
  qed fact
qed

lemma confined_methods: "confined layer A B \<Longrightarrow> same_methods p p' \<Longrightarrow> same_methods (layer p) (layer p')"
  by (simp add: confined_def)

lemma confined_agree:
  assumes "confined layer A B" and "same_methods p p'" and "\<not> is_link c"
    and "\<And>d. narrows c d \<Longrightarrow> (\<forall>t \<in> touches d. A t) \<Longrightarrow> (\<forall>t \<in> alters d. B t) \<Longrightarrow> agree p p' d"
  shows "agree (layer p) (layer p') c"
proof (rule assms(1) [unfolded confined_def, rule_format, OF assms(2), THEN conjunct2, rule_format, OF assms(3)])
  fix d assume "narrows c d \<and> (\<forall>t \<in> touches d. A t) \<and> (\<forall>t \<in> alters d. B t)"
  then show "agree p p' d" by (intro assms(4)) simp_all
qed

lemma confined_base: "confined (\<lambda>b. b) (\<lambda>_. True) (\<lambda>_. True)"
  by (rule confinedI) simp_all

lemma readonly_methods:
  "dependencies_law deps \<Longrightarrow> same_methods p p' \<Longrightarrow> same_methods (dp_createReadonlyProvider deps p) (dp_createReadonlyProvider deps p')"
  by (simp add: dependencies_law_def readonly_law_def)

lemma readonly_agree:
  assumes "dependencies_law deps" and "same_methods p p'"
    and "\<And>d. narrows c d \<Longrightarrow> alters d = {} \<Longrightarrow> agree p p' d"
  shows "agree (dp_createReadonlyProvider deps p) (dp_createReadonlyProvider deps p') c"
proof -
  have "readonly_law deps" using assms(1) by (simp add: dependencies_law_def)
  then show ?thesis
    by (rule readonly_law_def [THEN iffD1, rule_format, OF _ assms(2), THEN conjunct2, rule_format]) (rule assms(3); simp)
qed

lemma shadow_methods:
  "dependencies_law deps \<Longrightarrow> same_methods p p' \<Longrightarrow>
   same_methods (dp_createShadowProvider deps p shadow mode) (dp_createShadowProvider deps p' shadow mode)"
  by (simp add: dependencies_law_def shadow_law_def)

lemma shadow_agree:
  assumes law: "dependencies_law deps" and same: "same_methods p p'"
    and shadow: "\<And>op q. shadow \<lparr>sx_op = op, sx_path = q\<rparr> = hid (wseg q)"
    and below: "\<And>d. narrows c d \<Longrightarrow> (\<forall>t \<in> touches d. \<not> hid t) \<Longrightarrow> (mode = DenyWrites \<and> (\<exists>t \<in> touches c. hid t) \<longrightarrow> alters d = {}) \<Longrightarrow>
      agree p p' d"
  shows "agree (dp_createShadowProvider deps p shadow mode) (dp_createShadowProvider deps p' shadow mode) c"
proof -
  have seen: "unshadowed shadow q = (\<not> hid (wseg q))" for q by (simp add: unshadowed_def shadow)
  have hid: "(\<forall>q \<in> set (call_paths d). unshadowed shadow q) = (\<forall>t \<in> touches d. \<not> hid t)"
    "(\<exists>q \<in> set (call_paths d). \<not> unshadowed shadow q) = (\<exists>t \<in> touches d. hid t)" for d by (simp_all add: seen touches_def)
  have "shadow_law deps" using law by (simp add: dependencies_law_def)
  then show ?thesis
  proof (rule shadow_law_def [THEN iffD1, rule_format, OF _ same, THEN conjunct2, rule_format])
    fix d assume "narrows c d \<and> (\<forall>q \<in> set (call_paths d). unshadowed shadow q) \<and>
      (mode = DenyWrites \<and> (\<exists>q \<in> set (call_paths c). \<not> unshadowed shadow q) \<longrightarrow> alters d = {})"
    then show "agree p p' d" unfolding hid by (intro below) blast+
  qed
qed

lemma shadow_predicate:
  "dependencies_law deps \<Longrightarrow>
   dp_createShadowPathPredicate deps paths c \<longleftrightarrow> (\<exists>q \<in> set paths. prefix (wseg q) (wseg (sx_path c)))"
  by (simp add: dependencies_law_def predicate_law_def)

lemma confined_shadow:
  assumes law: "dependencies_law deps" and layer: "confined layer A B"
    and shadow: "\<And>op q. shadow \<lparr>sx_op = op, sx_path = q\<rparr> = hid (wseg q)"
  shows "confined (\<lambda>b. dp_createShadowProvider deps (layer b) shadow mode) (\<lambda>t. A t \<and> \<not> hid t) B"
proof (rule confinedI)
  fix p p' :: "'a vprovider"
  assume same: "same_methods p p'"
  note same' = confined_methods [OF layer same]
  show "same_methods (dp_createShadowProvider deps (layer p) shadow mode) (dp_createShadowProvider deps (layer p') shadow mode)"
    by (rule shadow_methods [OF law same'])
  fix c
  assume c: "\<not> is_link c" and below: "\<And>d. narrows c d \<Longrightarrow> \<forall>t \<in> touches d. A t \<and> \<not> hid t \<Longrightarrow> \<forall>t \<in> alters d. B t \<Longrightarrow> agree p p' d"
  show "agree (dp_createShadowProvider deps (layer p) shadow mode) (dp_createShadowProvider deps (layer p') shadow mode) c"
  proof (rule shadow_agree [where hid=hid, OF law same'])
    fix d assume d: "narrows c d" "\<forall>t \<in> touches d. \<not> hid t"
    show "agree (layer p) (layer p') d"
    proof (rule confined_agree [OF layer same])
      show "\<not> is_link d" using d(1) c by (auto simp: narrows_def)
      fix e assume e: "narrows d e" "\<forall>t \<in> touches e. A t" "\<forall>t \<in> alters e. B t"
      show "agree p p' e"
      proof (rule below [OF narrows_trans [OF d(1) e(1)] _ e(3)])
        show "\<forall>t \<in> touches e. A t \<and> \<not> hid t" using d(2) e(1,2) by (auto simp: narrows_def)
      qed
    qed
  qed (rule shadow)
qed

section \<open>The projection\<close>

definition visible_segments :: "workspace_policy \<Rightarrow> string list \<Rightarrow> bool" where
  "visible_segments policy t \<longleftrightarrow> (case wp_visibility policy of WholeRootWritable \<Rightarrow> True
     | PositivePaths visible _ \<Rightarrow> t = [] \<or> (\<exists>v \<in> set visible. prefix (path_segments v) t \<or> prefix t (path_segments v)))"

definition writable_segments :: "workspace_policy \<Rightarrow> string list \<Rightarrow> bool" where
  "writable_segments policy t \<longleftrightarrow> (\<exists>w \<in> set (writable_paths policy). prefix (path_segments w) t)"

lemma isVisible_segments: "isVisible visible p \<longleftrightarrow>
    wseg p = [] \<or> (\<exists>v \<in> set visible. prefix (path_segments v) (wseg p) \<or> prefix (wseg p) (path_segments v))"
  by (simp add: isVisible_def Let_def wseg_def pathsOverlap_def descendant_prefix)

lemma isWritable_segments: "isWritable writable p \<longleftrightarrow> (\<exists>w \<in> set writable. prefix (path_segments w) (wseg p))"
  by (simp add: isWritable_def wseg_def descendant_prefix)

lemma agree_invoke: "agree p p' (property, args) \<Longrightarrow> invokeProviderMethod p property args = invokeProviderMethod p' property args"
  by (auto simp: agree_def)

lemma agreeI: "(invokeProviderMethod p property args = invokeProviderMethod p' property args) \<Longrightarrow> agree p p' (property, args)"
  by (simp add: agree_def)

text \<open>When the read-only provider is not selected, what would be altered is writable or shadowed.\<close>

lemma unselected_alters:
  assumes "\<not> selects_readonly visible writable property args" and "\<not> is_link (property, args)" and "t \<in> alters (property, args)"
    and "\<forall>p \<in> set (call_paths (property, args)). isVisible visible p"
  shows "\<exists>w \<in> set writable. prefix (path_segments w) t"
proof -
  have kind: "altered_paths (property, args) =
    (if property = ''open'' \<or> property = ''openSync'' then (if opens_for_reading args then [] else [arg_text args 0])
     else if property \<in> set singlePathMutationMethods then [arg_text args (mutationPathArgumentIndex property)]
     else if property = ''rename'' \<or> property = ''renameSync'' then [arg_text args 0, arg_text args 1]
     else if property = ''copyFile'' \<or> property = ''copyFileSync'' then [arg_text args 1] else [])"
    using assms(2) by (auto simp: altered_paths_def singlePathMutationMethods_def is_link_def)
  have paths: "call_paths (property, args) =
    (if property \<in> {''rename'', ''renameSync'', ''copyFile'', ''copyFileSync''} then [arg_text args 0, arg_text args 1]
     else [arg_text args (mutationPathArgumentIndex property)])"
    using assms(2) by (auto simp: call_paths_def twoPathMethods_def is_link_def)
  have first: "mutationPathArgumentIndex ''open'' = 0" "mutationPathArgumentIndex ''openSync'' = 0"
    by (simp_all add: mutationPathArgumentIndex_def)
  from assms(3) obtain q where q: "q \<in> set (altered_paths (property, args))" "t = wseg q" by (auto simp: alters_def)
  consider (opened) "property = ''open'' \<or> property = ''openSync''" "q = arg_text args 0"
    | (single) "\<not> (property = ''open'' \<or> property = ''openSync'')" "property \<in> set singlePathMutationMethods"
        "q = arg_text args (mutationPathArgumentIndex property)"
    | (moved) "\<not> (property = ''open'' \<or> property = ''openSync'')" "property \<notin> set singlePathMutationMethods"
        "property = ''rename'' \<or> property = ''renameSync''" "q \<in> {arg_text args 0, arg_text args 1}"
    | (copied) "\<not> (property = ''open'' \<or> property = ''openSync'')" "property \<notin> set singlePathMutationMethods"
        "\<not> (property = ''rename'' \<or> property = ''renameSync'')" "property = ''copyFile'' \<or> property = ''copyFileSync''"
        "q = arg_text args 1"
    using q(1) unfolding kind by (auto split: if_splits)
  then have "isWritable writable q"
  proof cases
    case opened
    have "call_paths (property, args) = [q]"
      using opened(1) unfolding paths opened(2) by (elim disjE) (simp_all add: first)
    then show ?thesis using assms(1,4) opened(1) by (simp add: selects_readonly_def opened(2))
  next
    case single
    then have "property \<notin> {''rename'', ''renameSync'', ''copyFile'', ''copyFileSync''}"
      by (auto simp: singlePathMutationMethods_def)
    then have "call_paths (property, args) = [q]" unfolding paths by (simp only: if_False single(3))
    then show ?thesis using assms(1,4) single by (simp add: selects_readonly_def Let_def)
  next
    case moved
    then have "call_paths (property, args) = [arg_text args 0, arg_text args 1]" unfolding paths by auto
    then show ?thesis using assms(1,4) moved by (auto simp: selects_readonly_def)
  next
    case copied
    then have "call_paths (property, args) = [arg_text args 0, arg_text args 1]" unfolding paths by auto
    then show ?thesis using assms(1,4) copied by (simp add: selects_readonly_def)
  qed
  then show ?thesis using q(2) by (simp add: isWritable_segments)
qed

lemma confined_projection:
  assumes law: "dependencies_law deps" and vis: "wp_visibility policy = PositivePaths visible writable"
  shows "confined (\<lambda>b. createPositiveWorkspaceProjectionProvider b visible writable deps) (visible_segments policy) (writable_segments policy)"
proof (rule confinedI)
  fix p p' :: "'a vprovider"
  assume same: "same_methods p p'"
  let ?P = "projected_provider deps visible" and ?R = "\<lambda>b. dp_createReadonlyProvider deps (projected_provider deps visible b)"
  have same': "same_methods (?P p) (?P p')" unfolding projected_provider_def by (rule shadow_methods [OF law same])
  then show "same_methods (createPositiveWorkspaceProjectionProvider p visible writable deps)
      (createPositiveWorkspaceProjectionProvider p' visible writable deps)"
    by (simp add: same_methods_def createPositiveWorkspaceProjectionProvider_def Let_def)
  fix c
  assume c: "\<not> is_link c" and below: "\<And>d. narrows c d \<Longrightarrow> \<forall>t \<in> touches d. visible_segments policy t \<Longrightarrow>
    \<forall>t \<in> alters d. writable_segments policy t \<Longrightarrow> agree p p' d"
  obtain property args where call: "c = (property, args)" by (cases c)
  have seen: "isVisible visible q \<longleftrightarrow> visible_segments policy (wseg q)" for q
    by (simp add: isVisible_segments visible_segments_def vis)
  have writes: "(\<exists>w \<in> set writable. prefix (path_segments w) t) \<longleftrightarrow> writable_segments policy t" for t
    by (simp add: writable_segments_def writable_paths_def vis)
  have reads: "agree (?P p) (?P p') d" if d: "narrows c d" "alters d = {}" for d
    unfolding projected_provider_def
  proof (rule shadow_agree [OF law same, where hid="\<lambda>t. \<not> visible_segments policy t"])
    fix e assume e: "narrows d e" "\<forall>t \<in> touches e. \<not> \<not> visible_segments policy t"
    then show "agree p p' e" using below [OF narrows_trans [OF d(1) e(1)]] d(2) by (auto simp: narrows_def)
  qed (simp add: seen)
  have readonly: "agree (?R p) (?R p') c"
    by (rule readonly_agree [OF law same']) (rule reads)
  have target: "agree (?P p) (?P p') c" if unselected: "\<not> selects_readonly visible writable property args"
    unfolding projected_provider_def
  proof (rule shadow_agree [OF law same, where hid="\<lambda>t. \<not> visible_segments policy t"])
    fix d assume d: "narrows c d" "\<forall>t \<in> touches d. \<not> \<not> visible_segments policy t"
      "DenyWrites = (DenyWrites :: 'a shadow_mode) \<and> (\<exists>t \<in> touches c. \<not> visible_segments policy t) \<longrightarrow> alters d = {}"
    show "agree p p' d"
    proof (rule below [OF d(1)])
      show "\<forall>t \<in> alters d. writable_segments policy t"
      proof (cases "\<exists>t \<in> touches c. \<not> visible_segments policy t")
        case False
        then have "\<forall>q \<in> set (call_paths c). isVisible visible q" by (auto simp: seen touches_def)
        then have "\<forall>t \<in> alters c. writable_segments policy t"
          using unselected_alters [OF unselected] c by (auto simp: call writes)
        then show ?thesis using d(1) by (auto simp: narrows_def)
      qed (use d(3) in simp)
    qed (use d(2) in simp)
  qed (simp add: seen)
  have none: "(?P p property = None) = (?P p' property = None)" using same' by (simp add: same_methods_def)
  show "agree (createPositiveWorkspaceProjectionProvider p visible writable deps)
      (createPositiveWorkspaceProjectionProvider p' visible writable deps) c"
    unfolding call
  proof (rule agreeI)
    show "invokeProviderMethod (createPositiveWorkspaceProjectionProvider p visible writable deps) property args =
        invokeProviderMethod (createPositiveWorkspaceProjectionProvider p' visible writable deps) property args"
    proof (cases "selects_readonly visible writable property args")
      case True
      then show ?thesis using none agree_invoke [OF readonly [unfolded call]]
        by (auto simp: invokeProviderMethod_def [of "createPositiveWorkspaceProjectionProvider _ _ _ _"]
          createPositiveWorkspaceProjectionProvider_def Let_def split: option.split)
    next
      case False
      then show ?thesis using none agree_invoke [OF target [OF False, unfolded call]]
        by (auto simp: invokeProviderMethod_def createPositiveWorkspaceProjectionProvider_def Let_def split: option.splits)
    qed
  qed
qed

section \<open>Paths of providers\<close>

lemma starts_with_slash: "starts_with p ''/'' \<longleftrightarrow> isAbsolute p"
  by (cases p) (auto simp: starts_with_def isAbsolute_def)

lemma normalize_provider_form:
  obtains ss b where "normalizeProviderPath p = CHR ''/'' # rel_form ss b" "list_all clean_segment ss" "b \<longrightarrow> ss \<noteq> []"
    "toRelativeProviderPath p = rel_form ss b" "wseg p = ss @ (if b then [[]] else [])"
proof -
  let ?p = "if starts_with p ''/'' then p else CHR ''/'' # p"
  have "isAbsolute ?p" by (simp add: starts_with_slash) (simp add: isAbsolute_def)
  then obtain ss b where n: "posix_normalize ?p = CHR ''/'' # rel_form ss b" "list_all clean_segment ss" "b \<longrightarrow> ss \<noteq> []"
    by (rule normalize_absolute)
  have rel: "toRelativeProviderPath p = rel_form ss b"
    by (simp add: toRelativeProviderPath_def normalizeProviderPath_def n(1) Let_def)
  have "wseg p = ss @ (if b then [[]] else [])"
    unfolding wseg_def rel by (rule rel_form_segments) (use n in auto)
  with that n rel show thesis by (simp add: normalizeProviderPath_def)
qed

lemma rel_form_relative:
  assumes "list_all clean_segment ss" and "b \<longrightarrow> ss \<noteq> []"
  shows "toRelativeProviderPath (CHR ''/'' # rel_form ss b) = rel_form ss b" "wseg (CHR ''/'' # rel_form ss b) = ss @ (if b then [[]] else [])"
proof -
  have n: "posix_normalize (CHR ''/'' # rel_form ss b) = CHR ''/'' # rel_form ss b" by (rule normalize_rel_form) (use assms in auto)
  show rel: "toRelativeProviderPath (CHR ''/'' # rel_form ss b) = rel_form ss b"
    by (simp add: toRelativeProviderPath_def normalizeProviderPath_def starts_with_def n Let_def)
  show "wseg (CHR ''/'' # rel_form ss b) = ss @ (if b then [[]] else [])"
    unfolding wseg_def rel by (rule rel_form_segments) (use assms in auto)
qed

lemma clean_rel_form: "clean_path p \<Longrightarrow> p = rel_form (path_segments p) False"
  using clean_path_segments [of p] by (simp add: rel_form_def)

lemma absolute_segments: "clean_path p \<Longrightarrow> wseg (toAbsoluteProviderPath p) = path_segments p"
proof -
  assume p: "clean_path p"
  then have "list_all clean_segment (path_segments p)" using clean_path_segments by blast
  then have "wseg (CHR ''/'' # rel_form (path_segments p) False) = path_segments p"
    using rel_form_relative(2) [of "path_segments p" False] by simp
  then show ?thesis by (simp only: toAbsoluteProviderPath_def clean_rel_form [OF p, symmetric])
qed

lemma translate_segments:
  assumes "clean_path source"
  shows "wseg (translatePath source p) = path_segments source @ wseg p"
proof -
  obtain ss b where n: "list_all clean_segment ss" "b \<longrightarrow> ss \<noteq> []" "toRelativeProviderPath p = rel_form ss b"
    "wseg p = ss @ (if b then [[]] else [])" by (rule normalize_provider_form [of p])
  have source: "list_all clean_segment (path_segments source)" "source = join_slash (path_segments source)" "path_segments source \<noteq> []"
    using clean_path_segments [OF assms] assms by (auto simp: clean_path_def)
  show ?thesis
  proof (cases "ss = []")
    case True
    then have "toRelativeProviderPath p = []" using n(2,3) by (simp add: rel_form_def)
    then show ?thesis using True n(2,4) absolute_segments [OF assms] by (simp add: translatePath_def)
  next
    case False
    then have "rel_form ss b \<noteq> []" using join_clean_empty [OF n(1)] by (simp add: rel_form_def)
    then have "translatePath source p = CHR ''/'' # rel_form (path_segments source @ ss) b"
      unfolding translatePath_def n(3) toAbsoluteProviderPath_def Let_def rel_form_append [OF source(3) False] source(2) [symmetric] by simp
    moreover have "list_all clean_segment (path_segments source @ ss)" using source(1) n(1) by simp
    ultimately show ?thesis using rel_form_relative(2) [of "path_segments source @ ss" b] False n(4) by simp
  qed
qed

lemma parent_segments: "prefix (wseg (parentProviderPath p)) (wseg p)"
proof -
  obtain ss b where n: "normalizeProviderPath p = CHR ''/'' # rel_form ss b" "list_all clean_segment ss" "b \<longrightarrow> ss \<noteq> []"
    "wseg p = ss @ (if b then [[]] else [])" by (rule normalize_provider_form [of p])
  show ?thesis
  proof (cases "ss = []")
    case True
    then have "parentProviderPath p = CHR ''/'' # rel_form [] False"
      using n(1,3) by (simp add: parentProviderPath_def rel_form_def)
    then show ?thesis using rel_form_relative(2) [of "[]" False] by simp
  next
    case False
    then obtain ss0 s where ss: "ss = ss0 @ [s]" by (metis rev_exhaust)
    have "rel_form ss b \<noteq> []" using False join_clean_empty [OF n(2)] by (simp add: rel_form_def)
    then have "parentProviderPath p = CHR ''/'' # rel_form ss0 False"
      unfolding parentProviderPath_def n(1) Let_def ss using dirname_rel_form [of ss0 s b] n(2) ss by simp
    then show ?thesis using rel_form_relative(2) [of ss0 False] n(2,4) ss by simp
  qed
qed

section \<open>The workspace below the read-only inputs\<close>

definition hidden_segments :: "workspace_policy \<Rightarrow> string list \<Rightarrow> bool" where
  "hidden_segments policy t \<longleftrightarrow> (\<exists>h \<in> set (wp_hiddenPaths policy). prefix (path_segments h) t)"

definition temporary_segments :: "workspace_policy \<Rightarrow> string list \<Rightarrow> bool" where
  "temporary_segments policy t \<longleftrightarrow> (\<exists>h \<in> set (wp_temporaryPaths policy). prefix (path_segments h) t)"

definition host_readable :: "workspace_policy \<Rightarrow> string list \<Rightarrow> bool" where
  "host_readable policy t \<longleftrightarrow> visible_segments policy t \<and> \<not> hidden_segments policy t \<and> \<not> temporary_segments policy t"

definition workspace_layer :: "workspace_policy \<Rightarrow> 'w workspace_dependencies \<Rightarrow> 'w vprovider \<Rightarrow> 'w vprovider" where
  "workspace_layer policy deps base = temporary_layer policy deps (hidden_layer policy deps
     (case wp_visibility policy of WholeRootWritable \<Rightarrow> base
      | PositivePaths visible writable \<Rightarrow> createPositiveWorkspaceProjectionProvider base visible writable deps))"

lemma policy_clean:
  assumes "policy_spec policy"
  shows "h \<in> set (wp_hiddenPaths policy) \<Longrightarrow> clean_path h" "h \<in> set (wp_temporaryPaths policy) \<Longrightarrow> clean_path h"
    "i \<in> set (wp_readonlyInputs policy) \<Longrightarrow> clean_path (ri_destinationRelativePath i) \<and> clean_path (ri_sourceRelativePath i)"
  using assms unfolding policy_spec_def destinations_def plain_path_def by auto

lemma absolute_predicate:
  assumes "dependencies_law deps" and "\<And>h. h \<in> set hs \<Longrightarrow> clean_path h"
  shows "dp_createShadowPathPredicate deps (map toAbsoluteProviderPath hs) \<lparr>sx_op = op, sx_path = q\<rparr> =
    (\<exists>h \<in> set hs. prefix (path_segments h) (wseg q))"
  using assms by (simp add: shadow_predicate absolute_segments)

lemma confined_mono:
  assumes "confined layer A B" and "\<And>t. A t = A' t" and "\<And>t. B t = B' t"
  shows "confined layer A' B'"
proof -
  have "A = A'" "B = B'" using assms(2,3) by auto
  with assms(1) show ?thesis by simp
qed

lemma confined_workspace:
  assumes law: "dependencies_law deps" and spec: "policy_spec policy"
  shows "confined (workspace_layer policy deps) (host_readable policy) (writable_segments policy)"
proof -
  have projected: "confined (\<lambda>base. case wp_visibility policy of WholeRootWritable \<Rightarrow> base
      | PositivePaths visible writable \<Rightarrow> createPositiveWorkspaceProjectionProvider base visible writable deps)
    (visible_segments policy) (writable_segments policy)"
  proof (cases "wp_visibility policy")
    case WholeRootWritable
    have "confined (\<lambda>b. b) (visible_segments policy) (writable_segments policy)"
      by (rule confined_mono [OF confined_base])
        (simp_all add: visible_segments_def writable_segments_def writable_paths_def WholeRootWritable)
    then show ?thesis by (simp add: WholeRootWritable)
  next
    case (PositivePaths visible writable)
    then show ?thesis using confined_projection [OF law PositivePaths] by simp
  qed
  note hidden_pred = absolute_predicate [OF law policy_clean(1) [OF spec]]
  note temporary_pred = absolute_predicate [OF law policy_clean(2) [OF spec]]
  have hidden: "confined (\<lambda>base. hidden_layer policy deps (case wp_visibility policy of WholeRootWritable \<Rightarrow> base
      | PositivePaths visible writable \<Rightarrow> createPositiveWorkspaceProjectionProvider base visible writable deps))
    (\<lambda>t. visible_segments policy t \<and> \<not> hidden_segments policy t) (writable_segments policy)"
  proof (cases "wp_hiddenPaths policy = []")
    case True
    then show ?thesis using confined_mono [OF projected] by (simp add: hidden_layer_def hidden_segments_def)
  next
    case False
    show ?thesis unfolding hidden_layer_def if_not_P [OF False]
      by (rule confined_shadow [OF law projected]) (simp add: hidden_pred hidden_segments_def)
  qed
  show ?thesis
  proof (cases "wp_temporaryPaths policy = []")
    case True
    show ?thesis unfolding workspace_layer_def temporary_layer_def if_P [OF True]
      by (rule confined_mono [OF hidden]) (simp_all add: host_readable_def temporary_segments_def True)
  next
    case False
    have shadowed: "confined (\<lambda>base. dp_createShadowProvider deps (hidden_layer policy deps (case wp_visibility policy of WholeRootWritable \<Rightarrow> base
        | PositivePaths visible writable \<Rightarrow> createPositiveWorkspaceProjectionProvider base visible writable deps))
        (\<lambda>c. \<not> dp_createShadowPathPredicate deps (map toAbsoluteProviderPath (wp_hiddenPaths policy)) c \<and>
          dp_createShadowPathPredicate deps (map toAbsoluteProviderPath (wp_temporaryPaths policy)) c)
        (WriteTmpfs (dp_createMemoryProvider deps)))
      (\<lambda>t. (visible_segments policy t \<and> \<not> hidden_segments policy t) \<and> \<not> (\<not> hidden_segments policy t \<and> temporary_segments policy t))
      (writable_segments policy)"
      by (rule confined_shadow [OF law hidden]) (simp add: hidden_pred temporary_pred hidden_segments_def temporary_segments_def)
    show ?thesis unfolding workspace_layer_def temporary_layer_def if_not_P [OF False] Let_def
      by (rule confined_mono [OF shadowed]) (auto simp: host_readable_def)
  qed
qed

end
