(* ===== verification/WorkspaceLayers.thy ===== *)
theory WorkspaceLayers
  imports WorkspaceConfinement
begin

text \<open>
  The two outer layers of the filtered workspace provider, hard links and read-only inputs, and
  what the whole provider asks of the host's files.
\<close>

section \<open>Permitted calls\<close>

definition below_destination :: "workspace_policy \<Rightarrow> string list \<Rightarrow> bool" where
  "below_destination policy t \<longleftrightarrow> (\<exists>i \<in> set (wp_readonlyInputs policy).
     \<not> hidden_segments policy (path_segments (ri_destinationRelativePath i)) \<and> prefix (path_segments (ri_destinationRelativePath i)) t)"

text \<open>Calls on the workspace, and calls that read the source of an input at its destination.\<close>

definition workspace_call :: "workspace_policy \<Rightarrow> provider_call \<Rightarrow> bool" where
  "workspace_call policy d \<longleftrightarrow>
     (\<forall>t \<in> touches d. visible_segments policy t \<and> \<not> hidden_segments policy t \<and> \<not> temporary_segments policy t \<and>
        \<not> below_destination policy t) \<and>
     (\<forall>t \<in> alters d. writable_segments policy t)"

definition input_call :: "workspace_policy \<Rightarrow> readonly_input \<Rightarrow> provider_call \<Rightarrow> bool" where
  "input_call policy i d \<longleftrightarrow> alters d = {} \<and> (\<forall>t \<in> touches d. \<exists>u. t = path_segments (ri_sourceRelativePath i) @ u \<and>
     \<not> hidden_segments policy (path_segments (ri_destinationRelativePath i) @ u))"

definition permitted_call :: "workspace_policy \<Rightarrow> provider_call \<Rightarrow> bool" where
  "permitted_call policy d \<longleftrightarrow> workspace_call policy d \<or> (\<exists>i \<in> set (wp_readonlyInputs policy). input_call policy i d)"

section \<open>Hard links\<close>

lemma link_checks:
  "link_hidden policy p = hidden_segments policy (wseg p)" "link_temporary policy p = temporary_segments policy (wseg p)"
  "link_visible policy p = visible_segments policy (wseg p)"
  "link_writable policy p = (\<not> temporary_segments policy (wseg p) \<and> writable_segments policy (wseg p))"
proof -
  show hid: "link_hidden policy p = hidden_segments policy (wseg p)" and temp: "link_temporary policy p = temporary_segments policy (wseg p)"
    by (simp_all add: link_hidden_def hidden_segments_def link_temporary_def temporary_segments_def descendant_prefix wseg_def)
  show "link_visible policy p = visible_segments policy (wseg p)"
    by (cases "wp_visibility policy") (simp_all add: link_visible_def visible_segments_def pathsOverlap_def descendant_prefix wseg_def)
  show "link_writable policy p = (\<not> temporary_segments policy (wseg p) \<and> writable_segments policy (wseg p))"
    by (cases "wp_visibility policy")
      (simp_all add: link_writable_def temp writable_segments_def writable_paths_def descendant_prefix wseg_def)
qed

lemma same_none: "same_methods p p' \<Longrightarrow> p property = None \<longleftrightarrow> p' property = None"
  by (simp add: same_methods_def)

text \<open>Equal methods, or both missing.\<close>

lemma agree_cases:
  assumes "same_methods p p'" and "agree p p' (property, args)"
  obtains (missing) "p property = None" "p' property = None"
  | (present) m m' where "p property = Some m" "p' property = Some m'" "m args = m' args"
proof (cases "p property")
  case None
  then show thesis using missing same_none [OF assms(1)] by simp
next
  case (Some m)
  then obtain m' where m': "p' property = Some m'" using same_none [OF assms(1), of property] by (cases "p' property") auto
  have "m args = m' args" using assms(2) Some m' by (auto simp: agree_def invokeProviderMethod_def)
  with Some m' show thesis by (rule present)
qed

lemma realpath_call:
  assumes "r \<in> {''realpath'', ''realpathSync''}"
  shows "touches (r, [ArgText q]) = {wseg q}" "alters (r, [ArgText q]) = {}" "\<not> is_link (r, [ArgText q])"
proof -
  consider "r = ''realpath''" | "r = ''realpathSync''" using assms by blast
  then have "call_paths (r, [ArgText q]) = [q] \<and> altered_paths (r, [ArgText q]) = [] \<and> \<not> is_link (r, [ArgText q])"
    by cases (simp_all add: call_paths_def altered_paths_def twoPathMethods_def mutationPathArgumentIndex_def
      singlePathMutationMethods_def arg_text_def is_link_def)
  then show "touches (r, [ArgText q]) = {wseg q}" "alters (r, [ArgText q]) = {}" "\<not> is_link (r, [ArgText q])"
    by (simp_all add: touches_def alters_def)
qed

lemma hardlink_agree:
  assumes law: "dependencies_law deps" and spec: "policy_spec policy" and same: "same_methods b b'"
    and below: "\<And>d. narrows c d \<Longrightarrow> (\<forall>t \<in> touches d. host_readable policy t) \<Longrightarrow> (\<forall>t \<in> alters d. writable_segments policy t) \<Longrightarrow> agree b b' d"
  shows "agree (createWorkspaceHardlinkProvider (workspace_layer policy deps b) b policy)
    (createWorkspaceHardlinkProvider (workspace_layer policy deps b') b' policy) c"
proof -
  note layer = confined_workspace [OF law spec]
  have inner: "agree (workspace_layer policy deps b) (workspace_layer policy deps b') d" if "narrows c d" "\<not> is_link d" for d
    by (rule confined_agree [OF layer same that(2)]) (rule below [OF narrows_trans [OF that(1)]])
  obtain property args where c: "c = (property, args)" by (cases c)
  show ?thesis
  proof (cases "is_link c")
    case False
    then have eq: "createWorkspaceHardlinkProvider x y policy property = x property" for x y :: "'a vprovider"
      by (simp add: createWorkspaceHardlinkProvider_def is_link_def c)
    show ?thesis using inner [OF narrows_refl False] by (simp add: agree_def c invokeProviderMethod_def eq)
  next
    case True
    then have link: "property = ''link'' \<or> property = ''linkSync''" by (simp add: is_link_def c)
    let ?s = "arg_text args 0" and ?t = "arg_text args 1"
    have paths: "call_paths c = [?s, ?t]" "altered_paths c = [?s, ?t]"
      using link by (auto simp: call_paths_def altered_paths_def c twoPathMethods_def)
    have same': "same_methods (workspace_layer policy deps b) (workspace_layer policy deps b')"
      by (rule confined_methods [OF layer same])
    have real: "agree (workspace_layer policy deps b) (workspace_layer policy deps b') (r, [ArgText ?s])"
      if r: "r \<in> {''realpath'', ''realpathSync''}" for r
    proof (rule inner)
      show "narrows c (r, [ArgText ?s])" using realpath_call [OF r, of ?s] by (simp add: narrows_def touches_def [of c] paths)
    qed (rule realpath_call(3) [OF r])
    let ?open = "\<lambda>p. host_readable policy (wseg p) \<and> writable_segments policy (wseg p)"
    have "agree b b' c" if "?open ?s" "?open ?t"
      by (rule below [OF narrows_refl]) (use that in \<open>auto simp: touches_def alters_def paths\<close>)
    then have under: "agree b b' (property, args)" if "?open ?s" "?open ?t" using that by (simp add: c)
    have none: "b property = None \<longleftrightarrow> b' property = None" by (rule same_none [OF same])
    have eq: "link_method (workspace_layer policy deps b) policy property m args =
        link_method (workspace_layer policy deps b') policy property m' args"
      if m: "b property = Some m" "b' property = Some m'" for m m'
    proof (cases "?open ?s \<and> ?open ?t")
      case True
      have eqm: "m args = m' args" using under True m by (auto simp: agree_def invokeProviderMethod_def)
      have tail: "(case workspace_layer policy deps b r of None \<Rightarrow> fail
            | Some real \<Rightarrow> run_bind (real [ArgText ?s]) (\<lambda>_. m' args)) =
          (case workspace_layer policy deps b' r of None \<Rightarrow> fail | Some real \<Rightarrow> run_bind (real [ArgText ?s]) (\<lambda>_. m' args))"
        if "r \<in> {''realpath'', ''realpathSync''}" for r fail
        using same' real [OF that] by (cases rule: agree_cases) (simp_all add: run_bind_def)
      show ?thesis
        by (simp only: link_method_def Let_def eqm tail [of "''realpath''"] tail [of "''realpathSync''"] insert_iff simp_thms)
    next
      case False
      then show ?thesis by (auto simp: link_method_def Let_def link_checks host_readable_def)
    qed
    show ?thesis
      unfolding c by (rule agreeI)
        (use link none eq in \<open>auto simp: invokeProviderMethod_def createWorkspaceHardlinkProvider_def split: option.split\<close>)
  qed
qed

section \<open>The sources of the inputs\<close>

lemma reading_call:
  assumes "alters (property, args) = {}"
  shows "property \<notin> set twoPathMethods" "property \<notin> set singlePathMutationMethods" "mutationPathArgumentIndex property = 0"
    "call_paths (property, args) = [arg_text args 0]"
proof -
  have none: "altered_paths (property, args) = []" using assms by (simp add: alters_def)
  show two: "property \<notin> set twoPathMethods" using none by (auto simp: altered_paths_def twoPathMethods_def)
  show single: "property \<notin> set singlePathMutationMethods" using none two
    by (auto simp: altered_paths_def twoPathMethods_def split: if_splits)
  then show index: "mutationPathArgumentIndex property = 0"
    by (auto simp: mutationPathArgumentIndex_def singlePathMutationMethods_def)
  show "call_paths (property, args) = [arg_text args 0]" using two by (simp add: call_paths_def index)
qed

lemma translated_call:
  assumes "alters (property, args) = {}"
  shows "translateArguments source property args = set_arg 0 (ArgText (translatePath source (arg_text args 0))) args"
    "arg_text (translateArguments source property args) 0 = translatePath source (arg_text args 0)"
    "alters (property, translateArguments source property args) = {}"
    "touches (property, translateArguments source property args) = {wseg (translatePath source (arg_text args 0))}"
proof -
  note call = reading_call [OF assms]
  show t: "translateArguments source property args = set_arg 0 (ArgText (translatePath source (arg_text args 0))) args"
    using call by (simp add: translateArguments_def)
  show t0: "arg_text (translateArguments source property args) 0 = translatePath source (arg_text args 0)"
    unfolding t by (cases args) (simp_all add: set_arg_def arg_text_def)
  have rest: "arg_text (translateArguments source property args) 1 = arg_text args 1"
    unfolding t by (cases args; cases "tl args") (simp_all add: set_arg_def arg_text_def)
  have "altered_paths (property, args) = []" using assms by (simp add: alters_def)
  then show "alters (property, translateArguments source property args) = {}"
    using call(1,2) rest by (auto simp: alters_def altered_paths_def opens_for_reading_def split: if_splits)
  show "touches (property, translateArguments source property args) = {wseg (translatePath source (arg_text args 0))}"
    using call by (simp add: touches_def call_paths_def t0)
qed

lemma resolve_equal:
  assumes same: "same_methods b b'"
    and "\<And>r q. r \<in> {''realpath'', ''realpathSync''} \<Longrightarrow> q \<in> {toAbsoluteProviderPath source, t} \<Longrightarrow> agree b b' (r, [ArgText q])"
  shows "resolveConfinedPath b source property p t = resolveConfinedPath b' source property p t"
    "resolveConfinedPathSync b source property p t = resolveConfinedPathSync b' source property p t"
proof -
  have eq: "m [ArgText q] = m' [ArgText q]"
    if "b r = Some m" "b' r = Some m'" "r \<in> {''realpath'', ''realpathSync''}" "q \<in> {toAbsoluteProviderPath source, t}" for r m m' q
    using assms(2) [OF that(3,4)] that(1,2) by (auto simp: agree_def invokeProviderMethod_def)
  have none: "b r = None \<longleftrightarrow> b' r = None" for r by (rule same_none [OF same])
  show "resolveConfinedPath b source property p t = resolveConfinedPath b' source property p t"
  proof (cases "b ''realpath''")
    case None
    then show ?thesis using none [of "''realpath''"] by (simp add: resolveConfinedPath_def)
  next
    case (Some m)
    then obtain m' where m': "b' ''realpath'' = Some m'" using none [of "''realpath''"] by (cases "b' ''realpath''") auto
    have "m [ArgText (toAbsoluteProviderPath source)] = m' [ArgText (toAbsoluteProviderPath source)]" "m [ArgText t] = m' [ArgText t]"
      by (rule eq [OF Some m']; simp)+
    then show ?thesis by (simp add: resolveConfinedPath_def Some m')
  qed
  show "resolveConfinedPathSync b source property p t = resolveConfinedPathSync b' source property p t"
  proof (cases "b ''realpathSync''")
    case None
    then show ?thesis using none [of "''realpathSync''"] by (simp add: resolveConfinedPathSync_def)
  next
    case (Some m)
    then obtain m' where m': "b' ''realpathSync'' = Some m'" using none [of "''realpathSync''"] by (cases "b' ''realpathSync''") auto
    have "m [ArgText (toAbsoluteProviderPath source)] = m' [ArgText (toAbsoluteProviderPath source)]" "m [ArgText t] = m' [ArgText t]"
      by (rule eq [OF Some m']; simp)+
    then show ?thesis by (simp add: resolveConfinedPathSync_def Some m')
  qed
qed

lemma relative_root_agree:
  assumes source: "clean_path source" and same: "same_methods b b'" and c: "alters c = {}"
    and below: "\<And>d. alters d = {} \<Longrightarrow>
      \<forall>t \<in> touches d. \<exists>u. t = path_segments source @ u \<and> (\<exists>v \<in> touches c. prefix u v) \<Longrightarrow> agree b b' d"
  shows "agree (createRelativeRootProvider b source) (createRelativeRootProvider b' source) c"
proof -
  obtain property args where call: "c = (property, args)" by (cases c)
  have c': "alters (property, args) = {}" using c by (simp add: call)
  note tr = translated_call [OF c', of source] and reading = reading_call [OF c']
  let ?p = "arg_text args 0"
  have touched: "touches c = {wseg ?p}" by (simp add: touches_def call reading(4))
  have under: "agree b b' d" if "alters d = {}" "touches d = {path_segments source @ u}" "prefix u (wseg ?p)" for d u
    by (rule below [OF that(1)]) (use that(2,3) touched in auto)
  have translated: "agree b b' (property, translateArguments source property args)"
    by (rule under [where u="wseg ?p"]) (simp_all add: tr(3,4) translate_segments [OF source])
  have real: "agree b b' (r, [ArgText q])"
    if "r \<in> {''realpath'', ''realpathSync''}" "q \<in> {toAbsoluteProviderPath source, translatePath source ?p, translatePath source (parentProviderPath ?p)}" for r q
  proof -
    have "\<exists>u. wseg q = path_segments source @ u \<and> prefix u (wseg ?p)"
      using that(2) absolute_segments [OF source] translate_segments [OF source] parent_segments [of ?p] by auto
    then obtain u where "wseg q = path_segments source @ u" "prefix u (wseg ?p)" by blast
    then show ?thesis using realpath_call [OF that(1), of q] by (intro under [of _ u]) simp_all
  qed
  have resolved:
    "resolveConfinedPath b source property ?p q = resolveConfinedPath b' source property ?p q"
    "resolveConfinedPathSync b source property ?p q = resolveConfinedPathSync b' source property ?p q"
    if "q \<in> {translatePath source ?p, translatePath source (parentProviderPath ?p)}" for q
    by (rule resolve_equal [OF same]; rule real; use that in auto)+
  show ?thesis
    unfolding call
  proof (rule agreeI)
    from same translated show "invokeProviderMethod (createRelativeRootProvider b source) property args =
      invokeProviderMethod (createRelativeRootProvider b' source) property args"
    proof (cases rule: agree_cases)
      case missing
      then show ?thesis by (simp add: invokeProviderMethod_def createRelativeRootProvider_def)
    next
      case (present m m')
      have "relative_root_method b source property m args = relative_root_method b' source property m' args"
        unfolding relative_root_method_def Let_def tr(2) present(3) by (simp only: resolved insert_iff simp_thms)
      then show ?thesis using present(1,2) by (simp add: invokeProviderMethod_def createRelativeRootProvider_def)
    qed
  qed
qed

end
