(* ===== verification/WorkspaceAccess.thy ===== *)
theory WorkspaceAccess
  imports WorkspaceLayers
begin

text \<open>
  The layer of the read-only inputs, and with it the whole provider: it answers from permitted
  calls only.
\<close>

section \<open>The providers of the inputs\<close>

lemma hidden_prefix: "hidden_segments policy t \<Longrightarrow> prefix t u \<Longrightarrow> hidden_segments policy u"
  unfolding hidden_segments_def by (meson prefix_order.trans)

lemma nested_hidden_iff:
  assumes spec: "policy_spec policy" and dest: "clean_path destination" and shown: "\<not> hidden_segments policy (path_segments destination)"
  shows "(\<exists>q \<in> set (nested_hidden_paths policy destination). prefix (wseg q) t) \<longleftrightarrow>
    hidden_segments policy (path_segments destination @ t)"
proof -
  have rest: "path_segments h = path_segments destination @ wseg (toAbsoluteProviderPath rest)"
    if h: "h \<in> set (wp_hiddenPaths policy)" "h = destination @ CHR ''/'' # rest" for h rest
  proof -
    have d: "path_segments destination = split_slash destination" using clean_path_segments [OF dest] by blast
    have "clean_path h" using policy_clean(1) [OF spec h(1)] .
    then have "path_segments h = split_slash h" "list_all clean_segment (split_slash h)"
      using clean_path_segments [of h] by (blast, simp add: clean_path_def)
    moreover have "split_slash h = split_slash destination @ split_slash rest" by (simp add: h(2) split_slash_append)
    ultimately have hs: "path_segments h = split_slash destination @ split_slash rest" "list_all clean_segment (split_slash rest)"
      by simp_all
    have "rest \<noteq> []" using hs(2) by (auto simp: clean_segment_def)
    then have "clean_path rest" using hs(2) by (simp add: clean_path_def)
    then show ?thesis using hs(1) d clean_path_segments [of rest] absolute_segments [of rest] by simp
  qed
  have nonempty: "destination \<noteq> []" using dest by (simp add: clean_path_def)
  show ?thesis
  proof
    assume "\<exists>q \<in> set (nested_hidden_paths policy destination). prefix (wseg q) t"
    then obtain h where h: "h \<in> set (wp_hiddenPaths policy)" "starts_with h (destination @ ''/'')"
      and q: "prefix (wseg (toAbsoluteProviderPath (drop (length (destination @ ''/'')) h))) t"
      by (auto simp: nested_hidden_paths_def)
    obtain rest where r: "h = destination @ CHR ''/'' # rest" using h(2) by (auto simp: starts_with_iff)
    have "prefix (path_segments h) (path_segments destination @ t)" using q by (simp add: rest [OF h(1) r]) (simp add: r)
    then show "hidden_segments policy (path_segments destination @ t)" using h(1) by (auto simp: hidden_segments_def)
  next
    assume "hidden_segments policy (path_segments destination @ t)"
    then obtain h where h: "h \<in> set (wp_hiddenPaths policy)" "prefix (path_segments h) (path_segments destination @ t)"
      by (auto simp: hidden_segments_def)
    have no: "\<not> prefix (path_segments h) (path_segments destination)" using shown h(1) by (auto simp: hidden_segments_def)
    then obtain us where us: "path_segments h = path_segments destination @ us" "prefix us t"
      using h(2) by (auto simp: prefix_append)
    have "isEqualOrDescendant h destination" by (simp add: descendant_prefix us(1))
    moreover have "h \<noteq> destination" using no by auto
    ultimately have below: "starts_with h (destination @ ''/'')" using nonempty by (simp add: isEqualOrDescendant_def)
    then obtain rest where r: "h = destination @ CHR ''/'' # rest" by (auto simp: starts_with_iff)
    have "toAbsoluteProviderPath rest \<in> set (nested_hidden_paths policy destination)"
      using h(1) below by (auto simp: nested_hidden_paths_def r intro!: image_eqI [of _ _ h])
    moreover have "wseg (toAbsoluteProviderPath rest) = us" using rest [OF h(1) r] us(1) by simp
    ultimately show "\<exists>q \<in> set (nested_hidden_paths policy destination). prefix (wseg q) t" using us(2) by blast
  qed
qed

lemma input_agree:
  assumes law: "dependencies_law deps" and spec: "policy_spec policy" and same: "same_methods b b'"
    and i: "i \<in> set (wp_readonlyInputs policy)" and shown: "\<not> hidden_segments policy (path_segments (ri_destinationRelativePath i))"
    and below: "\<And>d. input_call policy i d \<Longrightarrow> agree b b' d"
  shows "agree (rp_provider (readonly_input_provider_of b policy deps i)) (rp_provider (readonly_input_provider_of b' policy deps i)) c"
proof -
  let ?dest = "ri_destinationRelativePath i" and ?source = "ri_sourceRelativePath i"
  let ?root = "\<lambda>b :: 'a vprovider. createRelativeRootProvider b ?source"
  have clean: "clean_path ?dest" "clean_path ?source" using policy_clean(3) [OF spec i] by simp_all
  have same': "same_methods (?root b) (?root b')"
    using same by (simp add: same_methods_def createRelativeRootProvider_def)
  have root: "agree (?root b) (?root b') e" if e: "alters e = {}" "\<forall>t \<in> touches e. \<not> hidden_segments policy (path_segments ?dest @ t)" for e
  proof (rule relative_root_agree [OF clean(2) same e(1)])
    fix d assume d: "alters d = {}" "\<forall>t \<in> touches d. \<exists>u. t = path_segments ?source @ u \<and> (\<exists>v \<in> touches e. prefix u v)"
    have "\<exists>u. t = path_segments ?source @ u \<and> \<not> hidden_segments policy (path_segments ?dest @ u)" if t: "t \<in> touches d" for t
    proof -
      obtain u v where u: "t = path_segments ?source @ u" "v \<in> touches e" "prefix u v" using d(2) t by blast
      have "prefix (path_segments ?dest @ u) (path_segments ?dest @ v)" using u(3) by simp
      then have "\<not> hidden_segments policy (path_segments ?dest @ u)" using e(2) u(2) hidden_prefix by blast
      with u(1) show ?thesis by blast
    qed
    then show "agree b b' d" using d(1) by (intro below) (simp add: input_call_def)
  qed
  note nested = nested_hidden_iff [OF spec clean(1) shown]
  show ?thesis
  proof (cases "nested_hidden_paths policy ?dest = []")
    case True
    then have "\<not> hidden_segments policy (path_segments ?dest @ t)" for t using nested [of t] by simp
    then show ?thesis
      by (simp add: readonly_input_provider_of_def Let_def True) (rule readonly_agree [OF law same'], simp add: root)
  next
    case False
    let ?shadow = "\<lambda>b. dp_createShadowProvider deps (?root b) (dp_createShadowPathPredicate deps (nested_hidden_paths policy ?dest)) DenyWrites"
    have pred: "dp_createShadowPathPredicate deps (nested_hidden_paths policy ?dest) \<lparr>sx_op = op, sx_path = q\<rparr> =
        hidden_segments policy (path_segments ?dest @ wseg q)" for op q
      using nested [of "wseg q"] by (simp add: shadow_predicate [OF law])
    have "agree (dp_createReadonlyProvider deps (?shadow b)) (dp_createReadonlyProvider deps (?shadow b')) c"
    proof (rule readonly_agree [OF law shadow_methods [OF law same']])
      fix d assume d: "alters d = {}"
      show "agree (?shadow b) (?shadow b') d"
      proof (rule shadow_agree [where hid="\<lambda>t. hidden_segments policy (path_segments ?dest @ t)", OF law same'])
        fix e assume "narrows d e" "\<forall>t \<in> touches e. \<not> hidden_segments policy (path_segments ?dest @ t)"
        then show "agree (?root b) (?root b') e" using d by (intro root) (auto simp: narrows_def)
      qed (rule pred)
    qed
    then show ?thesis by (simp add: readonly_input_provider_of_def Let_def False)
  qed
qed

section \<open>Routing\<close>

definition active_inputs :: "workspace_policy \<Rightarrow> readonly_input list" where
  "active_inputs policy =
     filter (\<lambda>i. \<not> (\<exists>h \<in> set (wp_hiddenPaths policy). isEqualOrDescendant (ri_destinationRelativePath i) h)) (wp_readonlyInputs policy)"

lemma active_iff: "i \<in> set (active_inputs policy) \<longleftrightarrow>
    i \<in> set (wp_readonlyInputs policy) \<and> \<not> hidden_segments policy (path_segments (ri_destinationRelativePath i))"
  by (auto simp: active_inputs_def hidden_segments_def descendant_prefix)

lemma providers_active: "readonly_input_providers b policy deps = map (readonly_input_provider_of b policy deps) (active_inputs policy)"
  by (simp add: readonly_input_providers_def active_inputs_def)

lemma input_destination [simp]: "rp_destinationRelativePath (readonly_input_provider_of b policy deps i) = ri_destinationRelativePath i"
  by (simp add: readonly_input_provider_of_def Let_def)

lemma hidden_seen: "isHidden policy p \<longleftrightarrow> hidden_segments policy (wseg p)"
  by (simp add: isHidden_def hidden_segments_def descendant_prefix wseg_def)

definition find_active :: "workspace_policy \<Rightarrow> string \<Rightarrow> readonly_input option" where
  "find_active policy p = find (\<lambda>i. isEqualOrDescendant (toRelativeProviderPath p) (ri_destinationRelativePath i)) (active_inputs policy)"

lemma find_map: "find P (map f xs) = map_option f (find (\<lambda>x. P (f x)) xs)"
  by (induction xs) simp_all

lemma findInput_active:
  "findInput (readonly_input_providers b policy deps) p = map_option (readonly_input_provider_of b policy deps) (find_active policy p)"
  by (simp add: findInput_def providers_active find_map find_active_def)

lemma find_active_Some: "find_active policy p = Some i \<Longrightarrow> i \<in> set (active_inputs policy)"
  by (auto simp: find_active_def find_Some_iff)

lemma find_active_None: "find_active policy p = None \<longleftrightarrow> \<not> below_destination policy (wseg p)"
  by (auto simp: find_active_def find_None_iff active_iff below_destination_def descendant_prefix wseg_def)

lemma conflicts_same:
  "conflictsWithReadonlyInput (readonly_input_providers b policy deps) q \<longleftrightarrow>
     (\<exists>i \<in> set (active_inputs policy). pathsOverlap (toRelativeProviderPath q) (ri_destinationRelativePath i))"
  by (simp add: conflictsWithReadonlyInput_def providers_active)

lemma below_conflicts:
  "below_destination policy (wseg q) \<Longrightarrow> conflictsWithReadonlyInput (readonly_input_providers b policy deps) q"
  by (auto simp: conflicts_same below_destination_def active_iff pathsOverlap_def descendant_prefix wseg_def)

lemma children_same:
  "directReadonlyDestinationChildren p (readonly_input_providers b policy deps) =
   directReadonlyDestinationChildren p (readonly_input_providers b' policy deps)"
  by (simp add: directReadonlyDestinationChildren_def providers_active filter_map comp_def)

section \<open>The whole provider\<close>

definition safe_call :: "workspace_policy \<Rightarrow> provider_call \<Rightarrow> bool" where
  "safe_call policy c \<longleftrightarrow> (\<forall>t \<in> touches c. hidden_segments policy t \<or> \<not> below_destination policy t)"

lemma first_path_calls:
  assumes "property \<in> {''readdir'', ''readdirSync'', ''stat'', ''statSync'', ''lstat'', ''lstatSync'', ''open'', ''openSync''} \<or>
    property \<notin> set singlePathMutationMethods \<and> property \<notin> set twoPathMethods"
  shows "touches (property, args) = {wseg (arg_text args 0)}"
  using assms
  by (elim disjE insertE emptyE) (simp_all add: touches_def call_paths_def twoPathMethods_def mutationPathArgumentIndex_def,
    auto simp: singlePathMutationMethods_def)

lemma nested_other_property:
  assumes "\<not> (property = ''readdir'' \<or> property = ''readdirSync'')" and "property \<notin> {''stat'', ''statSync'', ''lstat'', ''lstatSync''}"
    and "property \<notin> set singlePathMutationMethods" and "property \<notin> {''rename'', ''renameSync'', ''link'', ''linkSync''}"
    and "\<not> (property = ''copyFile'' \<or> property = ''copyFileSync'')"
  shows "property \<notin> set singlePathMutationMethods \<and> property \<notin> set twoPathMethods"
  using assms by (auto simp: twoPathMethods_def)

text \<open>The provider below the inputs, and that it is asked the same when a call is safe.\<close>

definition linked_layer :: "workspace_policy \<Rightarrow> 'w workspace_dependencies \<Rightarrow> 'w vprovider \<Rightarrow> 'w vprovider" where
  "linked_layer policy deps base = createWorkspaceHardlinkProvider (workspace_layer policy deps base) base policy"

lemma filtered_provider_layers:
  "createFilteredWorkspaceProvider base deps policy =
     createNestedReadonlyWorkspaceProvider (linked_layer policy deps base) base policy deps"
  by (simp add: createFilteredWorkspaceProvider_def linked_layer_def workspace_layer_def Let_def)

lemma linked_methods:
  assumes "dependencies_law deps" and "policy_spec policy" and same: "same_methods b b'"
  shows "same_methods (linked_layer policy deps b) (linked_layer policy deps b')"
  using same confined_methods [OF confined_workspace [OF assms(1,2)] same]
  by (simp add: same_methods_def linked_layer_def createWorkspaceHardlinkProvider_def)

lemma linked_agree:
  assumes "dependencies_law deps" and "policy_spec policy" and "same_methods b b'"
    and below: "\<And>d. permitted_call policy d \<Longrightarrow> agree b b' d" and safe: "safe_call policy c"
  shows "agree (linked_layer policy deps b) (linked_layer policy deps b') c"
  unfolding linked_layer_def
proof (rule hardlink_agree [OF assms(1-3)])
  fix d assume d: "narrows c d" "\<forall>t \<in> touches d. host_readable policy t" "\<forall>t \<in> alters d. writable_segments policy t"
  have "\<not> below_destination policy t" if "t \<in> touches d" for t
    using that d(1,2) safe by (auto simp: narrows_def safe_call_def host_readable_def)
  then have "workspace_call policy d" using d(2,3) by (simp add: workspace_call_def host_readable_def)
  then show "agree b b' d" by (intro below) (simp add: permitted_call_def)
qed

text \<open>Two hosts that agree on the permitted calls, below the same policy and dependencies.\<close>

definition hosts_agree :: "workspace_policy \<Rightarrow> 'w workspace_dependencies \<Rightarrow> 'w vprovider \<Rightarrow> 'w vprovider \<Rightarrow> bool" where
  "hosts_agree policy deps b b' \<longleftrightarrow> dependencies_law deps \<and> policy_spec policy \<and> same_methods b b' \<and>
     (\<forall>d. permitted_call policy d \<longrightarrow> agree b b' d)"

lemma hosts_agreeD:
  assumes "hosts_agree policy deps b b'"
  shows "dependencies_law deps" "policy_spec policy" "same_methods b b'" "permitted_call policy d \<Longrightarrow> agree b b' d"
  using assms unfolding hosts_agree_def by blast+

lemma hosts_linked:
  assumes "hosts_agree policy deps b b'" and "safe_call policy c"
  shows "agree (linked_layer policy deps b) (linked_layer policy deps b') c"
  by (rule linked_agree [OF hosts_agreeD(1-3) [OF assms(1)] hosts_agreeD(4) [OF assms(1)] assms(2)])

lemma hosts_method:
  assumes "hosts_agree policy deps b b'" and "linked_layer policy deps b property = Some m" and "linked_layer policy deps b' property = Some m'"
    and "safe_call policy (property, args)"
  shows "m args = m' args"
  using hosts_linked [OF assms(1,4)] assms(2,3) by (auto simp: agree_def invokeProviderMethod_def)

lemma hosts_input:
  assumes hosts: "hosts_agree policy deps b b'" and i: "i \<in> set (active_inputs policy)"
  shows "invokeProviderMethod (rp_provider (readonly_input_provider_of b policy deps i)) r as =
    invokeProviderMethod (rp_provider (readonly_input_provider_of b' policy deps i)) r as"
proof (rule agree_invoke, rule input_agree)
  show "i \<in> set (wp_readonlyInputs policy)" "\<not> hidden_segments policy (path_segments (ri_destinationRelativePath i))"
    using i by (simp_all add: active_iff)
  then show "agree b b' d" if "input_call policy i d" for d
    using that by (intro hosts_agreeD(4) [OF hosts]) (auto simp only: permitted_call_def)
qed (rule hosts_agreeD [OF hosts])+

lemma hosts_invoke_input:
  "hosts_agree policy deps b b' \<Longrightarrow> i \<in> set (active_inputs policy) \<Longrightarrow>
   invoke_input (readonly_input_provider_of b policy deps i) property args =
   invoke_input (readonly_input_provider_of b' policy deps i) property args"
  by (simp add: invoke_input_def mapInputPath_def hosts_input)

definition input_at :: "'w vprovider \<Rightarrow> workspace_policy \<Rightarrow> 'w workspace_dependencies \<Rightarrow> string \<Rightarrow> 'w readonly_input_provider option" where
  "input_at b policy deps p = (if isHidden policy p then None else findInput (readonly_input_providers b policy deps) p)"

text \<open>A call with one path goes to an input, the same on both hosts, or is safe.\<close>

lemma input_at_cases:
  obtains (safe) "input_at b policy deps p = None" "input_at b' policy deps p = None"
      "\<And>c. touches c = {wseg p} \<Longrightarrow> safe_call policy c"
  | (shown) i where "i \<in> set (active_inputs policy)" "\<not> isHidden policy p" "find_active policy p = Some i"
      "input_at b policy deps p = Some (readonly_input_provider_of b policy deps i)"
      "input_at b' policy deps p = Some (readonly_input_provider_of b' policy deps i)"
proof (cases "isHidden policy p \<or> find_active policy p = None")
  case True
  then have "hidden_segments policy (wseg p) \<or> \<not> below_destination policy (wseg p)"
    by (simp add: hidden_seen find_active_None)
  then have "safe_call policy c" if "touches c = {wseg p}" for c using that by (simp add: safe_call_def)
  then show thesis using True by (intro safe) (auto simp: input_at_def findInput_active)
next
  case False
  then obtain i where "find_active policy p = Some i" "\<not> isHidden policy p" by auto
  then show thesis using find_active_Some by (intro shown) (auto simp: input_at_def findInput_active)
qed

lemma routed_agree:
  assumes hosts: "hosts_agree policy deps b b'"
    and m: "linked_layer policy deps b property = Some m" "linked_layer policy deps b' property = Some m'"
    and one: "touches (property, args) = {wseg p}" and rest: "m args = m' args \<Longrightarrow> f = g"
  shows "(case input_at b policy deps p of Some i \<Rightarrow> invoke_input i property args | None \<Rightarrow> f) =
    (case input_at b' policy deps p of Some i \<Rightarrow> invoke_input i property args | None \<Rightarrow> g)"
proof (cases rule: input_at_cases [of b policy deps p b'])
  case safe
  then show ?thesis using rest [OF hosts_method [OF hosts m safe(3) [OF one]]] by simp
next
  case (shown i)
  then show ?thesis using hosts_invoke_input [OF hosts shown(1)] by simp
qed

text \<open>A path that does not conflict may be named.\<close>

definition refused_path :: "'w vprovider \<Rightarrow> workspace_policy \<Rightarrow> 'w workspace_dependencies \<Rightarrow> string \<Rightarrow> bool" where
  "refused_path b policy deps q \<longleftrightarrow> \<not> isHidden policy q \<and> conflictsWithReadonlyInput (readonly_input_providers b policy deps) q"

lemma refused_same: "refused_path b policy deps q = refused_path b' policy deps q"
  by (simp add: refused_path_def conflicts_same)

lemma safe_unless_refused:
  assumes "\<forall>q \<in> set (call_paths c). \<not> refused_path b policy deps q"
  shows "safe_call policy c"
  using assms below_conflicts by (fastforce simp: safe_call_def touches_def refused_path_def hidden_seen)

lemma nested_listing_agree:
  assumes "m args = m' args"
  shows "nested_readdir (readonly_input_providers b policy deps) property m args = nested_readdir (readonly_input_providers b' policy deps) property m' args"
    "nested_stat (readonly_input_providers b policy deps) m args = nested_stat (readonly_input_providers b' policy deps) m' args"
  unfolding nested_readdir_def nested_stat_def children_same [of _ b policy deps b'] assms by (rule refl)+

lemma copy_write_touches:
  "w \<in> {''writeFile'', ''writeFileSync''} \<Longrightarrow> call_paths (w, [ArgText q, ArgValue v]) = [q]"
  by (elim insertE emptyE) (simp_all add: call_paths_def twoPathMethods_def mutationPathArgumentIndex_def arg_text_def)

lemma nested_copy_agree:
  assumes hosts: "hosts_agree policy deps b b'"
    and m: "linked_layer policy deps b property = Some m" "linked_layer policy deps b' property = Some m'"
    and paths: "call_paths (property, args) = [arg_text args 0, arg_text args 1]"
  shows "nested_copy (linked_layer policy deps b) policy (readonly_input_providers b policy deps) property m args =
    nested_copy (linked_layer policy deps b') policy (readonly_input_providers b' policy deps) property m' args"
proof -
  let ?p = "arg_text args 0" and ?q = "arg_text args 1"
  have copy: "nested_copy (linked_layer policy deps x) policy (readonly_input_providers x policy deps) property k args =
      (if refused_path b policy deps ?q then failProviderMutation property ?q
       else case input_at x policy deps ?p of None \<Rightarrow> k args
         | Some i \<Rightarrow> let sync = property = ''copyFileSync'' in
             run_bind (invokeProviderMethod (rp_provider i) (if sync then ''readFileSync'' else ''readFile'') [ArgText (mapInputPath ?p i)])
               (\<lambda>v. invokeProviderMethod (linked_layer policy deps x) (if sync then ''writeFileSync'' else ''writeFile'')
                 [ArgText ?q, ArgValue v]))" for x k
  proof -
    have "refused_path b policy deps ?q = (\<not> isHidden policy ?q \<and> conflictsWithReadonlyInput (readonly_input_providers x policy deps) ?q)"
      by (simp add: refused_path_def conflicts_same)
    then show ?thesis unfolding nested_copy_def input_at_def Let_def
      by (cases "isHidden policy ?p"; cases "findInput (readonly_input_providers x policy deps) ?p") simp_all
  qed
  show ?thesis
  proof (cases "refused_path b policy deps ?q")
    case True
    then show ?thesis by (simp add: copy)
  next
    case False
    show ?thesis
    proof (cases rule: input_at_cases [of b policy deps ?p b'])
      case safe
      have "safe_call policy (property, args)"
        using safe_unless_refused [of "(''writeFile'', [ArgText ?q, ArgValue Undefined])" b policy deps] False
          safe(3) [of "(''writeFile'', [ArgText ?p, ArgValue Undefined])"]
        by (simp add: safe_call_def touches_def paths copy_write_touches)
      then show ?thesis using hosts_method [OF hosts m] safe(1,2) by (simp add: copy False)
    next
      case (shown i)
      have "invokeProviderMethod (linked_layer policy deps b) w [ArgText ?q, ArgValue v] =
          invokeProviderMethod (linked_layer policy deps b') w [ArgText ?q, ArgValue v]" if "w \<in> {''writeFile'', ''writeFileSync''}" for w v
        by (intro agree_invoke hosts_linked [OF hosts] safe_unless_refused [of _ b policy deps])
          (use False in \<open>simp add: copy_write_touches [OF that]\<close>)
      then show ?thesis unfolding copy
        using hosts_input [OF hosts shown(1)] False by (simp add: shown(4,5) mapInputPath_def Let_def)
    qed
  qed
qed

lemma nested_other_agree:
  assumes hosts: "hosts_agree policy deps b b'"
    and m: "linked_layer policy deps b property = Some m" "linked_layer policy deps b' property = Some m'"
    and one: "touches (property, args) = {wseg (arg_text args 0)}"
  shows "nested_other policy (readonly_input_providers b policy deps) property m args =
    nested_other policy (readonly_input_providers b' policy deps) property m' args"
proof (cases rule: input_at_cases [of b policy deps "arg_text args 0" b'])
  case safe
  then show ?thesis using hosts_method [OF hosts m safe(3) [OF one]] by (simp add: nested_other_def input_at_def)
next
  case (shown i)
  then show ?thesis using hosts_invoke_input [OF hosts shown(1)]
    by (simp add: nested_other_def input_at_def Let_def cong: if_cong)
qed

lemma nested_single_agree:
  assumes hosts: "hosts_agree policy deps b b'"
    and m: "linked_layer policy deps b property = Some m" "linked_layer policy deps b' property = Some m'"
    and paths: "call_paths (property, args) = [q]"
  shows "(if refused_path b policy deps q then failProviderMutation property q else m args) =
    (if refused_path b' policy deps q then failProviderMutation property q else m' args)"
proof (cases "refused_path b policy deps q")
  case False
  then have "m args = m' args" by (intro hosts_method [OF hosts m] safe_unless_refused [of _ b policy deps]) (simp add: paths)
  then show ?thesis by (simp add: refused_same [of b policy deps q b'])
qed (simp add: refused_same [of b policy deps q b'])

lemma nested_moved_agree:
  assumes hosts: "hosts_agree policy deps b b'"
    and m: "linked_layer policy deps b property = Some m" "linked_layer policy deps b' property = Some m'"
    and paths: "call_paths (property, args) = ps" "\<forall>q \<in> set ps. q \<noteq> []"
  shows "(case find (refused_path b policy deps) ps of Some q \<Rightarrow> if q \<noteq> [] then failProviderMutation property q else m args | None \<Rightarrow> m args) =
    (case find (refused_path b' policy deps) ps of Some q \<Rightarrow> if q \<noteq> [] then failProviderMutation property q else m' args | None \<Rightarrow> m' args)"
proof -
  have same: "refused_path b policy deps = refused_path b' policy deps" by (simp add: fun_eq_iff refused_same [of b policy deps _ b'])
  show ?thesis
  proof (cases "find (refused_path b policy deps) ps")
    case None
    then have eq: "m args = m' args"
      by (intro hosts_method [OF hosts m] safe_unless_refused [of _ b policy deps]) (simp add: paths find_None_iff)
    show ?thesis unfolding same eq by (rule refl)
  next
    case (Some q)
    then have "q \<noteq> []" using paths(2) by (auto simp: find_Some_iff)
    then show ?thesis using Some by (simp add: same)
  qed
qed

text \<open>The dispatch on the name of the operation, in terms of the cases above.\<close>

lemma nested_method_cases:
  fixes policy deps property args
  defines "p \<equiv> arg_text args 0" and "q \<equiv> arg_text args (mutationPathArgumentIndex property)"
  obtains (listed) "touches (property, args) = {wseg p}"
      "\<And>b m. nested_method (linked_layer policy deps b) policy (readonly_input_providers b policy deps) property m args =
        (case input_at b policy deps p of Some i \<Rightarrow> invoke_input i property args
         | None \<Rightarrow> nested_readdir (readonly_input_providers b policy deps) property m args)"
  | (looked) "touches (property, args) = {wseg p}"
      "\<And>b m. nested_method (linked_layer policy deps b) policy (readonly_input_providers b policy deps) property m args =
        (case input_at b policy deps p of Some i \<Rightarrow> invoke_input i property args
         | None \<Rightarrow> nested_stat (readonly_input_providers b policy deps) m args)"
  | (opened) "touches (property, args) = {wseg p}"
      "\<And>b m. nested_method (linked_layer policy deps b) policy (readonly_input_providers b policy deps) property m args =
        (case input_at b policy deps p of Some i \<Rightarrow> invoke_input i property args | None \<Rightarrow> m args)"
  | (single) "call_paths (property, args) = [q]"
      "\<And>b m. nested_method (linked_layer policy deps b) policy (readonly_input_providers b policy deps) property m args =
        (if refused_path b policy deps q then failProviderMutation property q else m args)"
  | (moved) "call_paths (property, args) = [p, arg_text args 1]"
      "\<And>b m. nested_method (linked_layer policy deps b) policy (readonly_input_providers b policy deps) property m args =
        (case find (refused_path b policy deps) [p, arg_text args 1] of
           Some q \<Rightarrow> if q \<noteq> [] then failProviderMutation property q else m args | None \<Rightarrow> m args)"
  | (copied) "call_paths (property, args) = [p, arg_text args 1]"
      "\<And>b m. nested_method (linked_layer policy deps b) policy (readonly_input_providers b policy deps) property m args =
        nested_copy (linked_layer policy deps b) policy (readonly_input_providers b policy deps) property m args"
  | (other) "touches (property, args) = {wseg p}"
      "\<And>b m. nested_method (linked_layer policy deps b) policy (readonly_input_providers b policy deps) property m args =
        nested_other policy (readonly_input_providers b policy deps) property m args"
proof -
  have input: "(if isHidden policy p then None else findInput (readonly_input_providers b policy deps) p) = input_at b policy deps p"
    for b :: "'a vprovider" by (simp add: input_at_def)
  note nested = nested_method_def [of "linked_layer policy deps b" policy "readonly_input_providers b policy deps" property _ args
      for b :: "'a vprovider", unfolded Let_def, folded p_def q_def, unfolded input refused_path_def [symmetric]]
  have two: "property \<in> set twoPathMethods" if "property \<in> {''rename'', ''renameSync'', ''link'', ''linkSync''} \<or>
      property = ''copyFile'' \<or> property = ''copyFileSync''"
    using that by (auto simp: twoPathMethods_def)
  then have twice: "call_paths (property, args) = [p, arg_text args 1]" if "property \<in> {''rename'', ''renameSync'', ''link'', ''linkSync''} \<or>
      property = ''copyFile'' \<or> property = ''copyFileSync''"
    using that by (simp add: call_paths_def p_def)
  note first = first_path_calls [of property args, folded p_def]
  show thesis
  proof (cases "property = ''readdir'' \<or> property = ''readdirSync''")
    case True
    show thesis by (rule listed [OF first]) (use True in \<open>auto simp: nested\<close>)
  next
    case d: False
    show thesis
    proof (cases "property \<in> {''stat'', ''statSync'', ''lstat'', ''lstatSync''}")
      case True
      show thesis by (rule looked [OF first]) (use True d in \<open>auto simp: nested\<close>)
    next
      case s: False
      show thesis
      proof (cases "property = ''open'' \<or> property = ''openSync''")
        case True
        show thesis by (rule opened [OF first]) (use True d s in \<open>auto simp: nested\<close>)
      next
        case o: False
        show thesis
        proof (cases "property \<in> set singlePathMutationMethods")
          case True
          show thesis
          proof (rule single)
            show "call_paths (property, args) = [q]" using True
              by (auto simp: call_paths_def twoPathMethods_def singlePathMutationMethods_def q_def)
          qed (simp only: nested d s o True if_True if_False)
        next
          case u: False
          show thesis
          proof (cases "property \<in> {''rename'', ''renameSync'', ''link'', ''linkSync''}")
            case True
            show thesis by (rule moved [OF twice]) (use True in blast, simp only: nested d s o u True if_True if_False)
          next
            case r: False
            show thesis
            proof (cases "property = ''copyFile'' \<or> property = ''copyFileSync''")
              case True
              show thesis by (rule copied [OF twice]) (use True in blast, simp only: nested d s o u r True if_True if_False)
            next
              case False
              show thesis
                by (rule other [OF first [OF disjI2 [OF nested_other_property [OF d s u r False]]]]) (simp only: nested d s o u r False if_False)
            qed
          qed
        qed
      qed
    qed
  qed
qed

lemma nested_method_agree:
  assumes hosts: "hosts_agree policy deps b b'"
    and m: "linked_layer policy deps b property = Some m" "linked_layer policy deps b' property = Some m'"
    and paths: "\<forall>q \<in> set (call_paths (property, args)). q \<noteq> []"
  shows "nested_method (linked_layer policy deps b) policy (readonly_input_providers b policy deps) property m args =
    nested_method (linked_layer policy deps b') policy (readonly_input_providers b' policy deps) property m' args"
proof (cases rule: nested_method_cases [of property args policy deps])
  case listed
  show ?thesis unfolding listed(2) by (rule routed_agree [OF hosts m listed(1) nested_listing_agree(1)])
next
  case looked
  show ?thesis unfolding looked(2) by (rule routed_agree [OF hosts m looked(1) nested_listing_agree(2)])
next
  case opened
  show ?thesis unfolding opened(2) by (rule routed_agree [OF hosts m opened(1)])
next
  case single
  show ?thesis unfolding single(2) by (rule nested_single_agree [OF hosts m single(1)])
next
  case moved
  show ?thesis unfolding moved(2) by (rule nested_moved_agree [OF hosts m moved(1) paths [unfolded moved(1)]])
next
  case copied
  show ?thesis unfolding copied(2) by (rule nested_copy_agree [OF hosts m copied(1)])
next
  case other
  show ?thesis unfolding other(2) by (rule nested_other_agree [OF hosts m other(1)])
qed

lemma filtered_agree:
  assumes law: "dependencies_law deps" and spec: "policy_spec policy" and same: "same_methods b b'"
    and below: "\<And>d. permitted_call policy d \<Longrightarrow> agree b b' d" and paths: "\<forall>q \<in> set (call_paths c). q \<noteq> []"
  shows "agree (createFilteredWorkspaceProvider b deps policy) (createFilteredWorkspaceProvider b' deps policy) c"
proof -
  obtain property args where c: "c = (property, args)" by (cases c)
  note same' = linked_methods [OF law spec same]
  have hosts: "hosts_agree policy deps b b'" unfolding hosts_agree_def using law spec same below by blast
  show ?thesis
  proof (cases "active_inputs policy = []")
    case True
    have "\<not> below_destination policy t" for t
    proof
      assume "below_destination policy t"
      then obtain i where "i \<in> set (active_inputs policy)" unfolding below_destination_def active_iff by blast
      with True show False by simp
    qed
    then have "safe_call policy c" by (simp add: safe_call_def)
    then have "agree (linked_layer policy deps b) (linked_layer policy deps b') c" by (intro linked_agree [OF law spec same] below)
    then show ?thesis
      by (simp add: agree_def filtered_provider_layers invokeProviderMethod_def createNestedReadonlyWorkspaceProvider_def providers_active True)
  next
    case False
    have eq: "createFilteredWorkspaceProvider x deps policy property =
        map_option (nested_method (linked_layer policy deps x) policy (readonly_input_providers x policy deps) property)
          (linked_layer policy deps x property)" for x :: "'a vprovider"
      using False by (simp add: filtered_provider_layers createNestedReadonlyWorkspaceProvider_def providers_active Let_def)
    show ?thesis unfolding c
    proof (rule agreeI, cases "linked_layer policy deps b property")
      case None
      then show "invokeProviderMethod (createFilteredWorkspaceProvider b deps policy) property args =
          invokeProviderMethod (createFilteredWorkspaceProvider b' deps policy) property args"
        using same_none [OF same', of property] by (simp add: invokeProviderMethod_def eq)
    next
      case (Some m)
      then obtain m' where m': "linked_layer policy deps b' property = Some m'"
        using same_none [OF same', of property] by (cases "linked_layer policy deps b' property") auto
      show "invokeProviderMethod (createFilteredWorkspaceProvider b deps policy) property args =
          invokeProviderMethod (createFilteredWorkspaceProvider b' deps policy) property args"
        using nested_method_agree [OF hosts Some m' paths [unfolded c]] Some m' by (simp add: invokeProviderMethod_def eq)
    qed
  qed
qed

end
