(* ===== verification/WorkspaceProperties.thy ===== *)
theory WorkspaceProperties
  imports WorkspaceAccess
begin

text \<open>
  The properties of the filtered workspace. The read-only, shadow and memory providers of the
  third-party virtual machine are arguments; \<open>simple_dependencies\<close> is an instance that satisfies
  the laws assumed of them, on which the witnesses run.
\<close>

section \<open>An instance of the dependencies\<close>

definition simple_readonly :: "'w vprovider \<Rightarrow> 'w vprovider" where
  "simple_readonly p property = map_option (\<lambda>m args.
     if altered_paths (property, args) = [] then m args else failProviderMutation property (arg_text args 0)) (p property)"

definition simple_shadow :: "'w vprovider \<Rightarrow> (shadow_context \<Rightarrow> bool) \<Rightarrow> 'w shadow_mode \<Rightarrow> 'w vprovider" where
  "simple_shadow p shadow mode property = map_option (\<lambda>m args.
     if \<exists>q \<in> set (call_paths (property, args)). shadow \<lparr>sx_op = property, sx_path = q\<rparr>
     then (case mode of DenyWrites \<Rightarrow> failProviderOperation property (arg_text args 0)
             (if altered_paths (property, args) = [] then ENOENT else EACCES)
           | WriteTmpfs memory \<Rightarrow> invokeProviderMethod memory property args)
     else m args) (p property)"

definition simple_predicate :: "string list \<Rightarrow> shadow_context \<Rightarrow> bool" where
  "simple_predicate paths c = (\<exists>q \<in> set paths. prefix (wseg q) (wseg (sx_path c)))"

definition simple_dependencies :: "'w vprovider \<Rightarrow> 'w workspace_dependencies" where
  "simple_dependencies memory = \<lparr>dp_createMemoryProvider = memory, dp_createReadonlyProvider = simple_readonly,
     dp_createShadowPathPredicate = simple_predicate, dp_createShadowProvider = simple_shadow\<rparr>"

lemma mapped_agree:
  assumes same: "same_methods p p'" and layer: "\<And>x :: 'w vprovider. layer x property = map_option f (x property)"
    and eq: "\<And>m m'. p property = Some m \<Longrightarrow> p' property = Some m' \<Longrightarrow> f m args = f m' args"
  shows "agree (layer p) (layer p') (property, args)"
proof (rule agreeI, cases "p property")
  case None
  then have "p' property = None" using same_none [OF same, of property] by simp
  with None show "invokeProviderMethod (layer p) property args = invokeProviderMethod (layer p') property args"
    by (simp add: invokeProviderMethod_def layer)
next
  case (Some m)
  then obtain m' where m': "p' property = Some m'" using same_none [OF same, of property] by (cases "p' property") auto
  from eq [OF Some m'] show "invokeProviderMethod (layer p) property args = invokeProviderMethod (layer p') property args"
    by (simp add: invokeProviderMethod_def layer Some m')
qed

lemma method_agree: "agree p p' (property, args) \<Longrightarrow> p property = Some m \<Longrightarrow> p' property = Some m' \<Longrightarrow> m args = m' args"
  by (auto simp: agree_def invokeProviderMethod_def)

lemma simple_readonly_law: "readonly_law (simple_dependencies memory)"
  unfolding readonly_law_def simple_dependencies_def workspace_dependencies.select_convs
proof (intro allI impI conjI)
  fix p p' :: "'a vprovider" and c
  assume same: "same_methods p p'"
  show "same_methods (simple_readonly p) (simple_readonly p')"
    using same by (simp add: same_methods_def simple_readonly_def)
  assume below: "\<forall>d. narrows c d \<and> alters d = {} \<longrightarrow> agree p p' d"
  obtain property args where c: "c = (property, args)" by (cases c)
  show "agree (simple_readonly p) (simple_readonly p') c"
    unfolding c
  proof (rule mapped_agree [OF same simple_readonly_def])
    fix m m'
    assume m: "p property = Some m" "p' property = Some m'"
    show "(if altered_paths (property, args) = [] then m args else failProviderMutation property (arg_text args 0)) =
        (if altered_paths (property, args) = [] then m' args else failProviderMutation property (arg_text args 0))"
    proof (rule if_cong)
      assume "altered_paths (property, args) = []"
      then have "agree p p' (property, args)" by (intro below [rule_format]) (simp add: c alters_def)
      then show "m args = m' args" using m by (rule method_agree)
    qed simp_all
  qed
qed

lemma simple_shadow_law: "shadow_law (simple_dependencies memory)"
  unfolding shadow_law_def simple_dependencies_def workspace_dependencies.select_convs
proof (intro allI impI conjI)
  fix p p' :: "'a vprovider" and shadow mode and c
  assume same: "same_methods p p'"
  show "same_methods (simple_shadow p shadow mode) (simple_shadow p' shadow mode)"
    using same by (simp add: same_methods_def simple_shadow_def)
  assume below: "\<forall>d. narrows c d \<and> (\<forall>q \<in> set (call_paths d). unshadowed shadow q) \<and>
      (mode = DenyWrites \<and> (\<exists>q \<in> set (call_paths c). \<not> unshadowed shadow q) \<longrightarrow> alters d = {}) \<longrightarrow> agree p p' d"
  obtain property args where c: "c = (property, args)" by (cases c)
  let ?hit = "\<exists>q \<in> set (call_paths (property, args)). shadow \<lparr>sx_op = property, sx_path = q\<rparr>"
  show "agree (simple_shadow p shadow mode) (simple_shadow p' shadow mode) c"
    unfolding c
  proof (rule mapped_agree [OF same simple_shadow_def])
    fix m m'
    assume m: "p property = Some m" "p' property = Some m'"
    have "m args = m' args" if "\<not> ?hit"
    proof -
      have free: "\<forall>q \<in> set (call_paths (property, args)). unshadowed shadow q" using that unfolding unshadowed_def by blast
      then have "agree p p' (property, args)" by (intro below [rule_format]) (simp add: c)
      then show ?thesis using m by (rule method_agree)
    qed
    then show "(if ?hit then case mode of DenyWrites \<Rightarrow> failProviderOperation property (arg_text args 0)
             (if altered_paths (property, args) = [] then ENOENT else EACCES)
           | WriteTmpfs memory \<Rightarrow> invokeProviderMethod memory property args else m args) =
        (if ?hit then case mode of DenyWrites \<Rightarrow> failProviderOperation property (arg_text args 0)
             (if altered_paths (property, args) = [] then ENOENT else EACCES)
           | WriteTmpfs memory \<Rightarrow> invokeProviderMethod memory property args else m' args)"
      by (intro if_cong refl) simp
  qed
qed

lemma simple_dependencies_law: "dependencies_law (simple_dependencies memory)"
  unfolding dependencies_law_def
  by (intro conjI simple_readonly_law simple_shadow_law) (simp add: predicate_law_def simple_dependencies_def simple_predicate_def)





section \<open>Sources of inputs\<close>





section \<open>Policies\<close>

text \<open>
  C36: validateManagedVmFilteredWorkspacePolicy answers a policy exactly when the policy meets its
  specification, and then answers it unchanged. The specification is on the segments of paths:
  every path is plain (no empty segment, no dot segments, no NUL or backslash), the paths of each
  list are pairwise apart, a positive policy admits a path and keeps its writable, temporary and
  destination paths below visible ones and its hidden paths comparable with one, the source of a
  read-only input is under a hidden, temporary or destination path or under no writable path, and
  no writable path is strictly below a destination.
\<close>

theorem policy_accepted_iff:
  "validateManagedVmFilteredWorkspacePolicy policy = Inr policy' \<longleftrightarrow> policy' = policy \<and> policy_spec policy"
  by (rule validated_iff)

section \<open>Confinement\<close>

text \<open>
  C37: under an accepted policy, the provider given to the guest answers every call from permitted
  calls on the host's files only: host providers that agree on the permitted calls give guest
  providers that agree on every call. A permitted call either names visible paths outside the
  hidden and the temporary ones and outside the destinations of read-only inputs, and alters
  writable paths only, or reads in the source of a read-only input what is not hidden at its
  destination. Calls with an empty path are left out, since the code takes an empty conflicting
  path for no conflict.
\<close>

theorem filtered_workspace_confined:
  assumes "dependencies_law deps" and "validateManagedVmFilteredWorkspacePolicy policy = Inr accepted"
    and "same_methods base base'" and "\<And>d. permitted_call accepted d \<Longrightarrow> agree base base' d"
    and "\<forall>q \<in> set (call_paths c). q \<noteq> []"
  shows "agree (createFilteredWorkspaceProvider base deps accepted) (createFilteredWorkspaceProvider base' deps accepted) c"
proof (rule filtered_agree [OF assms(1) _ assms(3) _ assms(5)])
  show "policy_spec accepted" using assms(2) by (simp add: validated_iff)
qed (rule assms(4))

definition secret_policy :: workspace_policy where
  "secret_policy = \<lparr>wp_hiddenPaths = [''secret''], wp_readonlyInputs = [], wp_temporaryPaths = [], wp_visibility = WholeRootWritable\<rparr>"

definition secret_base :: "nat \<Rightarrow> unit vprovider" where
  "secret_base n property = Some (\<lambda>args. run_return (ProviderValue
     (if \<exists>q \<in> set (call_paths (property, args)). prefix [''secret''] (wseg q) then n else 0)))"

lemma secret_base_permitted: "permitted_call secret_policy d \<Longrightarrow> agree (secret_base m) (secret_base n) d"
proof -
  assume d: "permitted_call secret_policy d"
  obtain property args where call: "d = (property, args)" by (cases d)
  have "path_segments ''secret'' = [''secret'']" by code_simp
  then have "\<forall>q \<in> set (call_paths d). \<not> prefix [''secret''] (wseg q)"
    using d by (auto simp: permitted_call_def workspace_call_def secret_policy_def touches_def hidden_segments_def)
  then show ?thesis unfolding call by (intro agreeI) (auto simp: invokeProviderMethod_def secret_base_def)
qed

theorem filtered_workspace_confined_witness:
  "\<not> agree (secret_base 1) (secret_base 2) (''readFile'', [ArgText ''/secret/key'']) \<and>
   agree (createFilteredWorkspaceProvider (secret_base 1) (simple_dependencies (\<lambda>_. None)) secret_policy)
     (createFilteredWorkspaceProvider (secret_base 2) (simple_dependencies (\<lambda>_. None)) secret_policy)
     (''readFile'', [ArgText ''/secret/key''])"
proof
  let ?c = "(''readFile'', [ArgText ''/secret/key''])"
  have "fst (invokeProviderMethod (secret_base 1) (fst ?c) (snd ?c) ()) \<noteq> fst (invokeProviderMethod (secret_base 2) (fst ?c) (snd ?c) ())"
    by code_simp
  then show "\<not> agree (secret_base 1) (secret_base 2) ?c" unfolding agree_def by metis
  have accepted: "validateManagedVmFilteredWorkspacePolicy secret_policy = Inr secret_policy" by code_simp
  show "agree (createFilteredWorkspaceProvider (secret_base 1) (simple_dependencies (\<lambda>_. None)) secret_policy)
      (createFilteredWorkspaceProvider (secret_base 2) (simple_dependencies (\<lambda>_. None)) secret_policy) ?c"
    by (rule filtered_workspace_confined [OF simple_dependencies_law accepted _ secret_base_permitted])
      (simp_all add: same_methods_def secret_base_def call_paths_def twoPathMethods_def mutationPathArgumentIndex_def arg_text_def)
qed

section \<open>Read-only inputs\<close>









section \<open>Destinations\<close>






text \<open>
  When the directory of the host is missing, the two listings of the virtual children differ: with
  file types the asynchronous one answers entries and its twin plain names.
\<close>

lemma missing_listings_differ:
  assumes "method args host = (Inl e, host')" and "isNoEntryError e" and "with_file_types args"
    and "directReadonlyDestinationChildren (arg_text args 0) inputs = children" and "children \<noteq> []"
  shows "nested_readdir inputs ''readdir'' method args host = (Inr (EntriesValue (map VirtualDirent children)), host')"
    "nested_readdir inputs ''readdirSync'' method args host = (Inr (EntriesValue (map NameEntry children)), host')"
  using assms by (simp_all add: nested_readdir_def run_bind_def run_catch_def run_return_def value_entries_def mergeDirectoryEntries_def)

end
