(* ===== verification/Spec2Isabelle.thy ===== *)
theory Spec2Isabelle
  imports LeaseProperties AdmissionProperties ProcessProperties RecoveryProperties GatewayAdmissionProperties
    SemanticProperties ApprovalStore ExecutorProperties WorkspaceProperties
begin

text \<open>
  A verification development of the control logic of agent-vm.

  agent-vm runs agents in virtual machines. A controller process owns a set of zones; each zone
  has a Gateway VM, and the agents of a zone work in Tool VMs that are leased to them. The
  Gateway VM speaks to the controller over a control session. The development models the parts
  of the controller that decide: who may use a Tool VM, which messages are admitted, when a
  Gateway VM is restarted, which Gateway VM is live, what an operation that was already executed
  answers, and what an approved operation may dispatch; and the layers through which a Tool VM
  sees the files of its workspace. All paths below are under src/packages.

  \<^bold>\<open>Theories and the code they model\<close>

  \<^item> \<open>Prelude\<close>: JavaScript maps as insertion-ordered association lists, thrown errors as
    sums, stable sorting, runs of a reducer; the interfaces (locales) \<open>keyed_store\<close>,
    \<open>guarded_reducer\<close> and \<open>ordered_reducer\<close>, which the components interpret.
  \<^item> \<open>Principal\<close>: the canonical rendering behind a stable principal
    (agent-portal-sdk/src/contracts/trusted-context-contracts.ts,
    gateway-control-contracts/src/gateway-control-principal.ts).
  \<^item> \<open>LeaseContracts\<close>, \<open>LeaseHelpers\<close>, \<open>LeaseAuthority\<close>: the Tool VM lease authority
    (agent-vm/src/controller/leases/tool-vm-lease-authority-contracts.ts,
    -state-helpers.ts and -state.ts, one definition per command of the reducer). The record
    \<open>lease_state\<close> has the maps of the source's state. \<open>LeaseInvariant\<close> holds the
    well-formedness invariant and that each command keeps it, \<open>LeaseRuns\<close> what holds from
    one state of a run to a later one (generations are not reissued, ended uses do not restart),
    \<open>LeaseProperties\<close> the claims.
  \<^item> \<open>AdmissionScheduler\<close>, \<open>ProcessAdmission\<close>: the two halves of
    gateway-control-contracts/src/gateway-control-admission.ts, the scheduler of one control session
    and the admission of the whole process over all zones. \<open>AdmissionInvariant\<close>,
    \<open>AdmissionRuns\<close>, \<open>ProcessInvariant\<close> and \<open>ProcessRuns\<close> relate the counters to the
    multisets of the messages held and the queues to the order of admission.
  \<^item> \<open>AdmissionExecutor\<close>: gateway-control-contracts/src/gateway-control-admission-executor.ts,
    which runs admitted work under limits per class on the modelled scheduler. Promises are logs of
    what they were settled with; the ends of executions and the scheduled pumps are events.
    \<open>ExecutorInvariant\<close> relates the work held to the scheduler's messages,
    \<open>ExecutorProperties\<close> has the claims.
  \<^item> \<open>RecoveryPolicy\<close>: agent-vm/src/controller/health/gateway-vm-recovery-policy.ts, the
    tracker that decides restarts from health observations; \<open>RecoveryInvariant\<close>,
    \<open>RecoveryRuns\<close>, \<open>RecoveryProperties\<close>.
  \<^item> \<open>AggregateAdmission\<close>, \<open>AtomicAdmission\<close>: agent-vm/src/gateway/
    gateway-aggregate-admission-state.ts (the decision over eleven readiness planes) and
    gateway-atomic-admission-controller.ts with its contract and identity policy (starting,
    admitting, containing and replacing the Gateway VM). \<open>AtomicRuns\<close> has triples over the
    controller's operations, the VMs that may be live and the ingress last applied.
  \<^item> \<open>SemanticJson\<close>, \<open>SemanticLedger\<close>: agent-vm/src/controller/control-session/
    gateway-semantic-result-ledger.ts, canonical JSON and the ledger that runs a mutating operation
    once; \<open>SemanticInvariant\<close>, \<open>SemanticRuns\<close>, \<open>SemanticProperties\<close>.
  \<^item> \<open>CrashDurableStore\<close>: agent-vm/src/controller/durable-state/crash-durable-record-store.ts
    over a file system whose calls fail or crash as a plan says; \<open>StorePhases\<close> has Hoare rules
    for its programs and the phases of a write, \<open>StoreProperties\<close> the claims.
  \<^item> \<open>IsoDate\<close>, \<open>ApprovalContracts\<close>, \<open>ApprovalLedger\<close>: dates,
    gateway-control-contracts/src/gateway-runtime-approval.ts and
    agent-vm/src/controller/approval/controller-approval-ledger.ts; \<open>ApprovalRuns\<close> (the
    system with its log and invariant), \<open>ApprovalInvariant\<close>, \<open>ApprovalProperties\<close> and
    \<open>ApprovalStore\<close>, which refines the ledger's store by the files of the crash-durable store.
  \<^item> \<open>PosixPath\<close>, \<open>WorkspacePolicy\<close>, \<open>WorkspaceProvider\<close>: Node's
    \<open>path.posix\<close>, managed-vm/src/filtered-workspace-policy.ts (the validation of a workspace
    policy) and gondolin-vm-adapter/src/filtered-workspace-provider.ts (the proxies that enforce it).
    A provider is a function from names to methods, a proxy a function on providers.
    \<open>WorkspaceConfinement\<close>, \<open>WorkspaceLayers\<close> and \<open>WorkspaceAccess\<close> show, layer
    by layer, which calls reach the files of the host: two hosts that agree on those calls give
    guests that agree on every call. \<open>WorkspaceProperties\<close> has the claims.

  The parts meet where the code calls: the lease authority, the recovery tracker and both ledgers
  key their state by \<open>Principal\<close>; the process admission owns the schedulers of its zones; the
  executor admits, takes and completes its work on the scheduler of a session; the atomic
  controller acts on the aggregate decision; the approval ledger mutates records of the
  crash-durable store; the filtered provider is given a policy that the validation accepted.

  \<^bold>\<open>What the groups of lemmas show\<close>

  Invariants of every reachable state by induction over runs (leases, counters, executions,
  recovery, Gateway VMs, both ledgers); the exact conditions of the decisions (authorization,
  admission, restarts, the aggregate decision, destruction, workspace policies); confinement of the
  guest to the calls its policy permits; refinement of abstract specifications (the admission
  multisets, the store of the approval ledger); at-most-once results (handlers, reservations,
  grants) in all interleavings, under failures and restarts; bounds on restarts and queues;
  liveness of service within a cycle, of an approved request and of the executor; round trips
  (observation gaps, dates, canonical text). Five theorems prove behaviour that is reported as a
  finding: an authority principal can starve, a replaced source leaves recovery disabled, losses of
  a foreign identity publish ingress while joining, a read-only input can be rewritten through a
  writable path below its source, and the two listings of a missing directory differ.

  \<^bold>\<open>Loops and bounds\<close>

  Every recursion is structural or has a termination proof by a size measure. The loop that drains
  a zone is a \<open>partial_function (option)\<close>, which \<open>unregisterZone_releases_zone\<close> shows
  to return on every reachable state. There is no fuel. Numbers are unbounded integers, with
  \<open>Number.isSafeInteger\<close> written out where the code tests it; dates are read back exactly in
  the years 1970 to 9998.

  \<^bold>\<open>Parameters\<close>

  SHA-256 and \<open>String.localeCompare\<close> (\<open>node:crypto\<close>, the locale); what the schemas of the
  zod library accept; the methods of a Gateway candidate and the creation of a successor; the
  handlers of mutating operations, which settle in any order; validators, clocks and UUIDs of the
  approval ledger; completion tokens, a supply of fresh numbers; the base, memory, read-only and
  shadow providers of the third-party virtual machine, with the laws \<open>dependencies_law\<close> (a
  read-only provider makes only calls that change nothing, a shadow provider none on a shadowed
  path). Where a theorem needs more of
  them (that SHA-256 does not collide, that a clock does not go back) it is a hypothesis, and its
  witness instantiates it. SHA-256 digests are taken to have at least 32 hexadecimal digits.
  What \<open>node:fs\<close> does is modelled: names and contents survive a crash once they are synced,
  an unsynced name may or may not survive, an unsynced content may come back as anything.

  \<^bold>\<open>Not modelled\<close>

  Promise scheduling around the modelled decisions (the control-session dispatcher and handlers,
  the process admission coordinator, the zone orchestrator, the lease manager): their
  decisions are in the modelled components, what is left is I/O and awaiting. Two mutations of
  different records of the crash-durable store that interleave: mutations follow one another.
  JSON numbers with a fraction. Configuration and wire schemas, which are declarations for the zod
  library. The file systems of the third-party virtual machine, so whether renaming a directory
  above a hidden path is refused is left to its shadow provider; the interleaving of asynchronous
  calls of a guest, which follow one another. The other VM adapters, builds, the command line, telemetry, portals, OAuth and the user
  interface, which are I/O and third-party calls.
\<close>

end
